(* ===== verification/Prelude.thy ===== *)
theory Prelude
  imports Main
begin

text \<open>
  Shared vocabulary of the development: Go strings as byte lists, wall-clock instants and
  durations, SQL's three-valued building blocks (NULL as \<^term>\<open>None\<close>), tables as row lists
  with the \<^verbatim>\<open>UPDATE ... WHERE\<close> and \<^verbatim>\<open>SELECT count(*)\<close> idioms the handlers use, statement
  faults, and the two generic contracts (an invariant kept by every operation, and statuses
  that only move forward) that the stateful components instantiate.
\<close>

named_theorems op_simps \<open>unfolding rules of the operations of a component\<close>
named_theorems sql_simps \<open>rules for NULL handling and table updates\<close>

section \<open>Types shared by the components\<close>

text \<open>
  A Go string is a byte sequence; \<^typ>\<open>string\<close> is a list of bytes as well. Instants
  (\<^verbatim>\<open>timestamptz\<close>, \<^verbatim>\<open>time.Time\<close>) and durations (\<^verbatim>\<open>time.Duration\<close>) are integers counting
  nanoseconds.
\<close>

type_synonym uuid = string
type_synonym instant = int
type_synonym duration = int

definition second :: duration where
  "second = 1000000000"

definition minute :: duration where
  "minute = 60 * second"

definition hour :: duration where
  "hour = 60 * minute"

lemmas duration_defs = hour_def minute_def second_def

text \<open>
  A statement sent to the database may fail (connection loss, timeout, constraint of the
  driver). A call that issues several statements takes a \<open>faults\<close> argument: \<open>flt i\<close> says that
  its \<open>i\<close>-th statement returns an error and has no effect.
\<close>

type_synonym faults = "nat \<Rightarrow> bool"

definition no_faults :: faults where
  "no_faults = (\<lambda>_. False)"

lemma no_faults_apply [simp]: "\<not> no_faults i"
  by (simp add: no_faults_def)

section \<open>NULL handling\<close>

definition coalesce :: "'a option \<Rightarrow> 'a option \<Rightarrow> 'a option" where
  "coalesce a b = (case a of None \<Rightarrow> b | Some x \<Rightarrow> Some x)"

definition nullif_empty :: "string \<Rightarrow> string option" where
  "nullif_empty s = (if s = [] then None else Some s)"

definition sql_concat :: "string option \<Rightarrow> string option \<Rightarrow> string option" where
  "sql_concat a b = (case (a, b) of (Some x, Some y) \<Rightarrow> Some (x @ y) | _ \<Rightarrow> None)"

lemma coalesce_simps [simp, sql_simps]:
  "coalesce None b = b"
  "coalesce (Some x) b = Some x"
  "coalesce a None = a"
  by (auto simp: coalesce_def split: option.splits)

lemma coalesce_collapse [simp]:
  "coalesce a a = a"
  "coalesce (coalesce a b) b = coalesce a b"
  "coalesce a b = None \<longleftrightarrow> a = None \<and> b = None"
  by (auto simp: coalesce_def split: option.splits)

lemma nullif_empty_simps [simp, sql_simps]:
  "nullif_empty [] = None"
  "nullif_empty (c # s) = Some (c # s)"
  by (simp_all add: nullif_empty_def)

lemma nullif_empty_None_iff [simp]: "nullif_empty s = None \<longleftrightarrow> s = []"
  by (simp add: nullif_empty_def)

lemma nullif_empty_Some_iff [simp]: "nullif_empty s = Some t \<longleftrightarrow> s = t \<and> t \<noteq> []"
  by (auto simp: nullif_empty_def)

lemma sql_concat_simps [simp, sql_simps]:
  "sql_concat None b = None"
  "sql_concat a None = None"
  "sql_concat (Some x) (Some y) = Some (x @ y)"
  by (auto simp: sql_concat_def split: option.splits)

section \<open>Tables\<close>

text \<open>\<^verbatim>\<open>UPDATE t SET ... WHERE P\<close>: every row that satisfies the condition is rewritten in place.\<close>

definition update_where :: "('r \<Rightarrow> bool) \<Rightarrow> ('r \<Rightarrow> 'r) \<Rightarrow> 'r list \<Rightarrow> 'r list" where
  "update_where P f rows = map (\<lambda>r. if P r then f r else r) rows"

text \<open>\<^verbatim>\<open>SELECT count(*) FROM t WHERE P\<close>, also the \<^verbatim>\<open>RowsAffected\<close> of an update.\<close>

definition count_where :: "('r \<Rightarrow> bool) \<Rightarrow> 'r list \<Rightarrow> nat" where
  "count_where P rows = length (filter P rows)"

lemma length_update_where [simp]: "length (update_where P f rows) = length rows"
  by (simp add: update_where_def)

lemma update_where_Nil [simp]: "update_where P f [] = []"
  by (simp add: update_where_def)

lemma update_where_Cons [simp]:
  "update_where P f (r # rs) = (if P r then f r else r) # update_where P f rs"
  by (simp add: update_where_def)

lemma update_where_append [simp]:
  "update_where P f (rs @ ts) = update_where P f rs @ update_where P f ts"
  by (simp add: update_where_def)

lemma set_update_where:
  "set (update_where P f rows) = (\<lambda>r. if P r then f r else r) ` set rows"
  by (simp add: update_where_def)

lemma update_where_mem: "r \<in> set rows \<Longrightarrow> (if P r then f r else r) \<in> set (update_where P f rows)"
  by (auto simp: set_update_where)

lemma map_update_where:
  assumes "\<And>r. g (f r) = g r"
  shows "map g (update_where P f rows) = map g rows"
  using assms by (induction rows) auto

lemma update_where_twice:
  assumes "\<And>r. P (f r) = P r"
  shows "update_where P g (update_where P f rows) = update_where P (\<lambda>r. g (f r)) rows"
  using assms by (induction rows) auto

lemma update_where_no_match:
  "(\<And>r. r \<in> set rows \<Longrightarrow> \<not> P r) \<Longrightarrow> update_where P f rows = rows"
  by (induction rows) auto

lemma filter_update_where_unchanged:
  assumes "\<And>r. P r \<Longrightarrow> \<not> Q r \<and> \<not> Q (f r)"
  shows "filter Q (update_where P f rows) = filter Q rows"
  using assms by (induction rows) auto

lemma count_where_append [simp]:
  "count_where P (xs @ ys) = count_where P xs + count_where P ys"
  by (simp add: count_where_def)

lemma count_where_Nil [simp]: "count_where P [] = 0"
  by (simp add: count_where_def)

lemma count_where_Cons [simp]:
  "count_where P (x # xs) = (if P x then Suc (count_where P xs) else count_where P xs)"
  by (simp add: count_where_def)

lemma count_where_False [simp]: "count_where (\<lambda>_. False) rows = 0"
  by (simp add: count_where_def)

lemma count_where_mono: "(\<And>r. r \<in> set rows \<Longrightarrow> P r \<Longrightarrow> Q r) \<Longrightarrow> count_where P rows \<le> count_where Q rows"
  by (induction rows) (auto simp: le_SucI)

lemma count_where_update_le:
  "(\<And>r. P r \<Longrightarrow> Q (f r) \<Longrightarrow> Q r) \<Longrightarrow> count_where Q (update_where P f rows) \<le> count_where Q rows"
  by (induction rows) (auto simp: le_SucI)

lemma count_where_0_iff: "count_where P rows = 0 \<longleftrightarrow> (\<forall>r \<in> set rows. \<not> P r)"
  by (simp add: count_where_def filter_empty_conv)

text \<open>The first row of a result, \<^verbatim>\<open>None\<close> for \<^verbatim>\<open>sql.ErrNoRows\<close>.\<close>

definition select_first :: "('r \<Rightarrow> bool) \<Rightarrow> 'r list \<Rightarrow> 'r option" where
  "select_first P rows = find P rows"

lemma select_first_simps [simp]:
  "select_first P [] = None"
  "select_first P (r # rs) = (if P r then Some r else select_first P rs)"
  by (simp_all add: select_first_def)

lemma select_first_SomeD: "select_first P rows = Some r \<Longrightarrow> r \<in> set rows \<and> P r"
  by (auto simp: select_first_def find_Some_iff)

lemma select_first_None_iff: "select_first P rows = None \<longleftrightarrow> (\<forall>r \<in> set rows. \<not> P r)"
  by (auto simp: select_first_def find_None_iff)

lemma select_first_conj: "select_first P rows = Some r \<Longrightarrow> Q r \<Longrightarrow> select_first (\<lambda>x. P x \<and> Q x) rows = Some r"
  by (induction rows) (auto split: if_splits)

lemma select_first_cong_None:
  "(\<And>r. r \<in> set rows \<Longrightarrow> \<not> P r) \<Longrightarrow> select_first P rows = None"
  by (simp add: select_first_None_iff)

text \<open>
  A table with a primary key: the lookup of a key after an update of one row. The key
  column is \<open>k\<close>; a row update that leaves it alone keeps the keys distinct.
\<close>

lemma select_key_update:
  assumes "\<And>r. k (f r) = k r"
  shows "select_first (\<lambda>r. k r = x) (update_where (\<lambda>r. k r = y) f rows) =
    (if x = y then map_option f (select_first (\<lambda>r. k r = x) rows)
     else select_first (\<lambda>r. k r = x) rows)"
  using assms by (induction rows) auto

lemma select_key_update_where:
  assumes "\<And>r. k (f r) = k r"
  shows "select_first (\<lambda>r. k r = x) (update_where P f rows) =
    map_option (\<lambda>r. if P r then f r else r) (select_first (\<lambda>r. k r = x) rows)"
  using assms by (induction rows) auto

lemma select_first_append:
  "select_first P (xs @ ys) =
    (case select_first P xs of None \<Rightarrow> select_first P ys | Some r \<Rightarrow> Some r)"
  by (induction xs) auto

lemma select_first_distinct:
  "distinct (map k rows) \<Longrightarrow> r \<in> set rows \<Longrightarrow> select_first (\<lambda>x. k x = k r) rows = Some r"
  by (induction rows) (auto simp: image_iff)

lemma select_first_key:
  assumes "distinct (map k rows)" "r \<in> set rows" "P r" "\<And>x. P x \<Longrightarrow> k x = k r"
  shows "select_first P rows = Some r"
proof (cases "select_first P rows")
  case (Some x)
  then have "x \<in> set rows" "k x = k r" using select_first_SomeD [OF Some] assms(4) by auto
  with assms(1,2) have "x = r" by (auto simp: distinct_map dest: inj_onD)
  with Some show ?thesis by simp
qed (use assms in \<open>auto simp: select_first_None_iff\<close>)

text \<open>
  Uniqueness of a column over the rows of a partial index: kept by an update that leaves the
  column alone and brings no row into the index.
\<close>

lemma set_filter_update_where:
  assumes "\<And>r. r \<in> set rows \<Longrightarrow> P r \<Longrightarrow> A (f r) \<Longrightarrow> A r" and "\<And>r. g (f r) = g r"
  shows "g ` set (filter A (update_where P f rows)) \<subseteq> g ` set (filter A rows)"
  using assms by (induction rows) auto

lemma distinct_filter_update_where:
  assumes "\<And>r. r \<in> set rows \<Longrightarrow> P r \<Longrightarrow> A (f r) \<Longrightarrow> A r" and "\<And>r. g (f r) = g r"
    and "distinct (map g (filter A rows))"
  shows "distinct (map g (filter A (update_where P f rows)))"
  using assms
proof (induction rows)
  case (Cons r rows)
  have sub: "g ` set (filter A (update_where P f rows)) \<subseteq> g ` set (filter A rows)"
    by (rule set_filter_update_where) (use Cons.prems in auto)
  have IH: "distinct (map g (filter A (update_where P f rows)))"
    using Cons.prems by (intro Cons.IH) (auto split: if_splits)
  have "A r" if "P r" "A (f r)" using Cons.prems(1) that by simp
  with sub IH Cons.prems(2,3) show ?case by (auto split: if_splits)
qed simp

lemma filter_unique_key:
  assumes "distinct (map k (filter A rows))" "r \<in> set rows" "P r" "\<And>x. P x \<Longrightarrow> A x \<and> k x = k r"
  shows "filter P rows = [r]"
  using assms(1,2)
proof (induction rows)
  case (Cons x rows)
  show ?case
  proof (cases "P x")
    case True
    then have x: "A x" "k x = k r" using assms(4) by blast+
    then have none: "k r \<notin> k ` set (filter A rows)" using Cons.prems(1) by auto
    then have "\<forall>y \<in> set rows. \<not> P y" using assms(4) by (auto simp: image_iff) (metis assms(4))
    then have "filter P rows = []" "r \<notin> set rows" using assms(3) by auto
    with True Cons.prems(2) show ?thesis by auto
  next
    case False
    with Cons assms(3) show ?thesis by (auto split: if_splits)
  qed
qed simp

text \<open>\<^verbatim>\<open>ORDER BY k LIMIT n\<close> leaves out a row that has \<open>n\<close> rows before it.\<close>

lemma take_sort_key_excludes:
  fixes k :: "'r \<Rightarrow> int"
  assumes "n \<le> length (filter (\<lambda>x. k x < k r) rows)"
  shows "r \<notin> set (take n (sort_key k rows))"
proof
  let ?xs = "sort_key k rows" and ?P = "\<lambda>x. k x < k r"
  assume "r \<in> set (take n ?xs)"
  then obtain j where j: "j < n" "j < length ?xs" "?xs ! j = r" by (auto simp: in_set_conv_nth)
  have "{i. i < length ?xs \<and> ?P (?xs ! i)} \<subseteq> {..<j}"
  proof safe
    fix i assume i: "i < length ?xs" "?P (?xs ! i)"
    show "i < j"
    proof (rule ccontr)
      assume "\<not> i < j"
      then have "k (?xs ! j) \<le> k (?xs ! i)" using sorted_nth_mono [OF sorted_sort_key [of k rows], of j i] i(1) by simp
      with i(2) j(3) show False by simp
    qed
  qed
  then have "length (filter ?P ?xs) \<le> j" unfolding length_filter_conv_card by (metis card_lessThan card_mono finite_lessThan)
  moreover have "length (filter ?P ?xs) = length (filter ?P rows)" by (simp add: filter_sort)
  ultimately show False using assms j(1) by linarith
qed

section \<open>Strings\<close>

definition has_prefix :: "string \<Rightarrow> string \<Rightarrow> bool" where
  "has_prefix p s \<longleftrightarrow> take (length p) s = p"

lemma has_prefix_append [simp]: "has_prefix p (p @ s)"
  by (simp add: has_prefix_def)

lemma has_prefix_iff: "has_prefix p s \<longleftrightarrow> (\<exists>t. s = p @ t)"
  unfolding has_prefix_def by (metis append_eq_conv_conj append_take_drop_id)

text \<open>Decimal rendering, Go's \<^verbatim>\<open>%d\<close> and \<^verbatim>\<open>strconv.Itoa\<close>.\<close>

fun show_nat :: "nat \<Rightarrow> string" where
  "show_nat n =
     (if n < 10 then [char_of (48 + n)] else show_nat (n div 10) @ [char_of (48 + n mod 10)])"

declare show_nat.simps [simp del]

definition show_int :: "int \<Rightarrow> string" where
  "show_int i = (if i < 0 then CHR ''-'' # show_nat (nat (- i)) else show_nat (nat i))"

text \<open>
  JSON values as far as the handlers look into them: the \<^verbatim>\<open>->>\<close> operator on an object whose
  member is a string.
\<close>

datatype json =
    JNull
  | JBool bool
  | JNum int
  | JStr string
  | JArr "json list"
  | JObj "(string \<times> json) list"

definition json_text :: "json option \<Rightarrow> string \<Rightarrow> string option" where
  "json_text j k =
     (case j of Some (JObj kvs) \<Rightarrow> (case map_of kvs k of Some (JStr s) \<Rightarrow> Some s | _ \<Rightarrow> None)
      | _ \<Rightarrow> None)"

section \<open>Contracts of the stateful components\<close>

text \<open>
  The operations of a component as one transition function over an operation type. Whatever
  invariant a single operation keeps holds after every sequence of operations, in whatever
  order concurrent callers issue them.
\<close>

locale invariant_system =
  fixes step :: "'s \<Rightarrow> 'op \<Rightarrow> 's"
    and inv :: "'s \<Rightarrow> bool"
  assumes inv_step: "inv s \<Longrightarrow> inv (step s op)"
begin

lemma inv_run: "inv s \<Longrightarrow> inv (foldl step s ops)"
  by (induction ops arbitrary: s) (auto intro: inv_step)

end

text \<open>
  A component whose entries carry a status: once an entry's status is terminal, no operation
  moves it, and an entry that exists is never lost.
\<close>

locale forward_only_system = invariant_system +
  fixes status :: "'s \<Rightarrow> 'k \<Rightarrow> 'st option"
    and terminal :: "'st \<Rightarrow> bool"
  assumes terminal_step:
    "inv s \<Longrightarrow> status s k = Some st \<Longrightarrow> terminal st \<Longrightarrow> status (step s op) k = Some st"
begin

lemma terminal_run:
  "inv s \<Longrightarrow> status s k = Some st \<Longrightarrow> terminal st \<Longrightarrow> status (foldl step s ops) k = Some st"
proof (induction ops arbitrary: s)
  case Nil
  then show ?case by simp
next
  case (Cons op ops)
  from Cons.prems have "status (step s op) k = Some st" by (rule terminal_step)
  with Cons.prems show ?case by (auto intro: Cons.IH inv_step)
qed

end

text \<open>
  Refinement along a clock: a component and its specification run the same operations, the
  relation between their states is indexed by the time, and outputs agree as long as the clock
  does not run backwards.
\<close>

fun run_outputs :: "('s \<Rightarrow> 'op \<Rightarrow> 's \<times> 'o) \<Rightarrow> 's \<Rightarrow> 'op list \<Rightarrow> 's \<times> 'o list" where
  "run_outputs step s [] = (s, [])"
| "run_outputs step s (op # ops) =
     (let (s', x) = step s op; (s'', xs) = run_outputs step s' ops in (s'', x # xs))"

fun clock_from :: "('op \<Rightarrow> instant) \<Rightarrow> instant \<Rightarrow> 'op list \<Rightarrow> bool" where
  "clock_from time_of t [] = True"
| "clock_from time_of t (op # ops) = (t \<le> time_of op \<and> clock_from time_of (time_of op) ops)"

fun last_time :: "('op \<Rightarrow> instant) \<Rightarrow> instant \<Rightarrow> 'op list \<Rightarrow> instant" where
  "last_time time_of t [] = t"
| "last_time time_of t (op # ops) = last_time time_of (time_of op) ops"

locale timed_simulation =
  fixes cstep :: "'s \<Rightarrow> 'op \<Rightarrow> 's \<times> 'o"
    and astep :: "'a \<Rightarrow> 'op \<Rightarrow> 'a \<times> 'o"
    and time_of :: "'op \<Rightarrow> instant"
    and R :: "instant \<Rightarrow> 's \<Rightarrow> 'a \<Rightarrow> bool"
  assumes sim_out: "R t s a \<Longrightarrow> t \<le> time_of op \<Longrightarrow> snd (cstep s op) = snd (astep a op)"
    and sim_state: "R t s a \<Longrightarrow> t \<le> time_of op \<Longrightarrow> R (time_of op) (fst (cstep s op)) (fst (astep a op))"
begin

lemma sim_run:
  "R t s a \<Longrightarrow> clock_from time_of t ops \<Longrightarrow>
    snd (run_outputs cstep s ops) = snd (run_outputs astep a ops) \<and>
    R (last_time time_of t ops) (fst (run_outputs cstep s ops)) (fst (run_outputs astep a ops))"
proof (induction ops arbitrary: t s a)
  case (Cons op ops)
  then have t: "t \<le> time_of op" by simp
  have "clock_from time_of (time_of op) ops" using Cons.prems by simp
  from Cons.IH [OF sim_state [OF Cons.prems(1) t] this] sim_out [OF Cons.prems(1) t] show ?case
    by (simp add: case_prod_beta Let_def)
qed simp

end

text \<open>
  A store whose entries carry the time they were made and that a collector cleans: whatever a
  collecting operation leaves is young enough, and operations make entries only at their own time.
  Then nothing older than the limit survives a collection, however the other operations continue.
\<close>

locale collected_store = invariant_system step inv
  for step :: "'s \<Rightarrow> 'op \<Rightarrow> 's" and inv :: "'s \<Rightarrow> bool" +
  fixes entries :: "'s \<Rightarrow> 'r set"
    and born :: "'r \<Rightarrow> instant"
    and time_of :: "'op \<Rightarrow> instant"
    and collects :: "'op \<Rightarrow> bool"
    and limit :: duration
  assumes collect: "inv s \<Longrightarrow> collects op \<Longrightarrow> r \<in> entries (step s op) \<Longrightarrow> time_of op \<le> born r + limit"
    and origin: "inv s \<Longrightarrow> r \<in> entries (step s op) \<Longrightarrow> born r = time_of op \<or> (\<exists>r0 \<in> entries s. born r0 = born r)"
begin

lemma young_run:
  "inv s \<Longrightarrow> (\<forall>r \<in> entries s. t \<le> born r + limit) \<Longrightarrow> 0 \<le> limit \<Longrightarrow> clock_from time_of t ops \<Longrightarrow>
    r \<in> entries (foldl step s ops) \<Longrightarrow> t \<le> born r + limit"
proof (induction ops arbitrary: s)
  case (Cons op ops)
  have t: "t \<le> time_of op" and c: "clock_from time_of (time_of op) ops" using Cons.prems by simp_all
  have c': "clock_from time_of t ops" using t c by (cases ops) auto
  have "t \<le> born r + limit" if "r \<in> entries (step s op)" for r
    using origin [OF Cons.prems(1) that] Cons.prems t by (metis add_increasing2)
  then have "\<forall>r \<in> entries (step s op). t \<le> born r + limit" by blast
  from Cons.IH [OF inv_step [OF Cons.prems(1)] this Cons.prems(3) c'] Cons.prems(5) show ?case by simp
qed simp

lemma collected_run:
  assumes "inv s" "collects op" "0 \<le> limit" "clock_from time_of (time_of op) ops"
    and "r \<in> entries (foldl step s (op # ops))"
  shows "time_of op \<le> born r + limit"
  using young_run [OF inv_step [OF assms(1)], of op "time_of op" ops r] collect [OF assms(1,2)] assms(3-5) by simp

end

end
