(* ===== verification/Workspace_Tree.thy ===== *)
theory Workspace_Tree
  imports Prelude
begin

text \<open>
  The \<^verbatim>\<open>workspaces\<close> table as the readers of the organisation tree see it, keyed by its primary
  key, and the walk up the \<^verbatim>\<open>parent_id\<close> column. The bounded walks of the access check
  (\<^verbatim>\<open>registry/access.go\<close>) and of the memory namespaces (\<^verbatim>\<open>memory/namespace/resolver.go\<close>) are
  both compared with the unbounded relation \<open>org_above\<close> defined here.
\<close>

record ws_row =
  ws_name :: "string option"
  ws_parent_id :: "uuid option"
  ws_status :: string
  ws_max_concurrent_tasks :: "int option"
  ws_active_tasks :: "int option"

type_synonym ws_table = "uuid \<Rightarrow> ws_row option"

definition parent_of :: "ws_table \<Rightarrow> uuid \<Rightarrow> uuid option" where
  "parent_of db x = Option.bind (db x) ws_parent_id"

fun ancestor_at :: "ws_table \<Rightarrow> nat \<Rightarrow> uuid \<Rightarrow> uuid option" where
  "ancestor_at db 0 x = Some x"
| "ancestor_at db (Suc k) x = Option.bind (parent_of db x) (ancestor_at db k)"

text \<open>\<open>org_above db a c\<close>: workspace \<open>a\<close> is a proper ancestor of \<open>c\<close>.\<close>

inductive org_above :: "ws_table \<Rightarrow> uuid \<Rightarrow> uuid \<Rightarrow> bool" for db where
  direct: "parent_of db c = Some a \<Longrightarrow> org_above db a c"
| climb: "parent_of db c = Some p \<Longrightarrow> org_above db a p \<Longrightarrow> org_above db a c"

inductive_cases org_above_cases: "org_above db a c"

lemma org_above_iff_ancestor_at: "org_above db a c \<longleftrightarrow> (\<exists>k. ancestor_at db (Suc k) c = Some a)"
proof
  assume "org_above db a c"
  then show "\<exists>k. ancestor_at db (Suc k) c = Some a"
  proof (induction rule: org_above.induct)
    case (direct c a)
    then show ?case by (intro exI [of _ 0]) simp
  next
    case (climb c p a)
    then obtain k where "ancestor_at db (Suc k) p = Some a" by blast
    with climb.hyps(1) show ?case by (intro exI [of _ "Suc k"]) simp
  qed
next
  have "ancestor_at db (Suc k) c = Some a \<Longrightarrow> org_above db a c" for k
  proof (induction k arbitrary: c)
    case 0
    then show ?case by (cases "parent_of db c") (auto intro: org_above.direct)
  next
    case (Suc k)
    then show ?case by (cases "parent_of db c") (auto intro: org_above.climb)
  qed
  then show "\<exists>k. ancestor_at db (Suc k) c = Some a \<Longrightarrow> org_above db a c" by blast
qed

lemma org_above_trans: "org_above db b c \<Longrightarrow> org_above db a b \<Longrightarrow> org_above db a c"
  by (induction rule: org_above.induct) (auto intro: org_above.intros)

lemma ancestor_at_add:
  "ancestor_at db (m + n) x = Option.bind (ancestor_at db m x) (ancestor_at db n)"
  by (induction m arbitrary: x) (auto split: Option.bind_splits)

text \<open>A chain that has ended stays ended: a bound on one level bounds all deeper ones.\<close>

lemma ancestor_at_None_mono:
  assumes "ancestor_at db m x = None" and "m \<le> n"
  shows "ancestor_at db n x = None"
proof -
  from assms(2) obtain d where "n = m + d" by (auto simp: le_iff_add)
  with assms(1) show ?thesis by (simp add: ancestor_at_add)
qed

text \<open>The top of the chain above a workspace: the workspace that has no parent row.\<close>

definition is_root :: "ws_table \<Rightarrow> uuid \<Rightarrow> bool" where
  "is_root db x \<longleftrightarrow> db x \<noteq> None \<and> parent_of db x = None"

definition fk_closed :: "ws_table \<Rightarrow> bool" where
  "fk_closed db \<longleftrightarrow> (\<forall>x p. parent_of db x = Some p \<longrightarrow> db p \<noteq> None)"

lemma fk_closed_parent: "fk_closed db \<Longrightarrow> parent_of db x = Some p \<Longrightarrow> db p \<noteq> None"
  by (auto simp: fk_closed_def)

lemma parent_of_exists: "parent_of db x = Some p \<Longrightarrow> db x \<noteq> None"
  by (cases "db x") (auto simp: parent_of_def)

lemma org_above_exists: "org_above db a c \<Longrightarrow> db c \<noteq> None"
  by (erule org_above.cases) (auto dest: parent_of_exists)

lemma org_above_exists_top: "org_above db a c \<Longrightarrow> fk_closed db \<Longrightarrow> db a \<noteq> None"
  by (induction rule: org_above.induct) (auto simp: fk_closed_def)

end
