(* ===== verification/Memory_Namespace.thy ===== *)
theory Memory_Namespace
  imports Workspace_Tree
begin

text \<open>
  \<^verbatim>\<open>internal/memory/namespace/resolver.go\<close>: the memory namespaces a workspace may read and
  write, derived from the organisation tree. The recursive CTE of \<^verbatim>\<open>walkChain\<close> is a bounded
  walk up the tree; query, scan and iteration errors are the three statement faults of a
  call. The lemmas show which namespaces result, that the write check grants exactly the
  writable ones, and that no namespace is shared between organisations.
\<close>

definition maxChainDepth :: nat where
  "maxChainDepth = 50"

datatype NamespaceKind = NamespaceKindWorkspace | NamespaceKindTeam | NamespaceKindOrg | NamespaceKindCustom

record Namespace =
  ns_Name :: string
  ns_Kind :: NamespaceKind
  ns_Description :: string
  ns_Writable :: bool
  ns_DisplayName :: string

datatype ns_error = ErrWalkChain | ErrScanChain | ErrIterChain | ErrWorkspaceNotFound | PanicIndex

record chainNode =
  cn_id :: uuid
  cn_name :: string
  cn_parentID :: "uuid option"
  cn_depth :: nat

text \<open>A row of the CTE as \<^verbatim>\<open>Scan\<close> reads it: a NULL name is empty, an empty parent is absent.\<close>

definition chain_node :: "uuid \<Rightarrow> ws_row \<Rightarrow> nat \<Rightarrow> chainNode" where
  "chain_node x r d =
     \<lparr>cn_id = x,
      cn_name = (case ws_name r of None \<Rightarrow> [] | Some n \<Rightarrow> n),
      cn_parentID = (case ws_parent_id r of None \<Rightarrow> None | Some p \<Rightarrow> nullif_empty p),
      cn_depth = d\<rparr>"

text \<open>
  \<^verbatim>\<open>WITH RECURSIVE chain\<close>: the row at depth \<open>d\<close>, then (as long as the depth is below the
  limit, \<open>n\<close> more levels) the row its \<^verbatim>\<open>parent_id\<close> names.
\<close>

fun chain_rows :: "ws_table \<Rightarrow> nat \<Rightarrow> nat \<Rightarrow> uuid \<Rightarrow> chainNode list" where
  "chain_rows db 0 d x =
     (case db x of None \<Rightarrow> [] | Some r \<Rightarrow> [chain_node x r d])"
| "chain_rows db (Suc n) d x =
     (case db x of None \<Rightarrow> []
      | Some r \<Rightarrow> chain_node x r d #
          (case ws_parent_id r of None \<Rightarrow> [] | Some p \<Rightarrow> chain_rows db n (Suc d) p))"

definition walkChain :: "faults \<Rightarrow> ws_table \<Rightarrow> uuid \<Rightarrow> ns_error + chainNode list" where
  "walkChain flt db workspaceID =
     (if flt 0 then Inl ErrWalkChain
      else
        let out = chain_rows db maxChainDepth 0 workspaceID in
        if flt 1 \<and> out \<noteq> [] then Inl ErrScanChain
        else if flt 2 then Inl ErrIterChain
        else if out = [] then Inl ErrWorkspaceNotFound
        else Inr out)"

text \<open>\<^verbatim>\<open>chain[0]\<close> panics on an empty chain, which is the \<^term>\<open>None\<close> of the two derivations.\<close>

fun derive :: "chainNode list \<Rightarrow> (uuid \<times> uuid \<times> uuid) option" where
  "derive [] = None"
| "derive (self # rest) =
     Some (cn_id self,
           (case cn_parentID self of Some p \<Rightarrow> p | None \<Rightarrow> cn_id self),
           cn_id (last (self # rest)))"

fun deriveNames :: "chainNode list \<Rightarrow> (string \<times> string \<times> string) option" where
  "deriveNames [] = None"
| "deriveNames (self # rest) =
     Some (cn_name self,
           (case rest of
              [] \<Rightarrow> cn_name self
            | up # _ \<Rightarrow> if cn_parentID self \<noteq> None then cn_name up else cn_name self),
           cn_name (last (self # rest)))"

definition namespaces_of :: "chainNode list \<Rightarrow> ns_error + Namespace list" where
  "namespaces_of chain =
     (case (derive chain, deriveNames chain) of
        (Some (wsID, teamID, orgID), Some (wsName, teamName, orgName)) \<Rightarrow>
          Inr
           [\<lparr>ns_Name = ''workspace:'' @ wsID, ns_Kind = NamespaceKindWorkspace,
             ns_Description = ''This workspace's private memories'',
             ns_Writable = True, ns_DisplayName = wsName\<rparr>,
            \<lparr>ns_Name = ''team:'' @ teamID, ns_Kind = NamespaceKindTeam,
             ns_Description = ''Memories shared across team members (parent + siblings)'',
             ns_Writable = True, ns_DisplayName = teamName\<rparr>,
            \<lparr>ns_Name = ''org:'' @ orgID, ns_Kind = NamespaceKindOrg,
             ns_Description = ''Org-wide memories visible to every workspace under this root'',
             ns_Writable = (cn_parentID (hd chain) = None), ns_DisplayName = orgName\<rparr>]
      | _ \<Rightarrow> Inl PanicIndex)"

definition ReadableNamespaces :: "faults \<Rightarrow> ws_table \<Rightarrow> uuid \<Rightarrow> ns_error + Namespace list" where
  "ReadableNamespaces flt db workspaceID =
     (case walkChain flt db workspaceID of
        Inl e \<Rightarrow> Inl e
      | Inr chain \<Rightarrow> namespaces_of chain)"

definition WritableNamespaces :: "faults \<Rightarrow> ws_table \<Rightarrow> uuid \<Rightarrow> ns_error + Namespace list" where
  "WritableNamespaces flt db workspaceID =
     (case ReadableNamespaces flt db workspaceID of
        Inl e \<Rightarrow> Inl e
      | Inr all \<Rightarrow> Inr (filter ns_Writable all))"

definition CanWrite :: "faults \<Rightarrow> ws_table \<Rightarrow> uuid \<Rightarrow> string \<Rightarrow> ns_error + bool" where
  "CanWrite flt db workspaceID namespace =
     (case WritableNamespaces flt db workspaceID of
        Inl e \<Rightarrow> Inl e
      | Inr writable \<Rightarrow> Inr (list_ex (\<lambda>ns. ns_Name ns = namespace) writable))"

definition IntersectReadable ::
  "faults \<Rightarrow> ws_table \<Rightarrow> uuid \<Rightarrow> string list \<Rightarrow> ns_error + string list" where
  "IntersectReadable flt db workspaceID requested =
     (case ReadableNamespaces flt db workspaceID of
        Inl e \<Rightarrow> Inl e
      | Inr readable \<Rightarrow>
          if requested = [] then Inr (map ns_Name readable)
          else Inr (filter (\<lambda>want. List.member (map ns_Name readable) want) requested))"

section \<open>The chain\<close>

definition parent_ids_ok :: "ws_table \<Rightarrow> bool" where
  "parent_ids_ok db \<longleftrightarrow> (\<forall>x. parent_of db x \<noteq> Some [])"

lemma chain_rows_Cons:
  "db x = Some r \<Longrightarrow> \<exists>rest. chain_rows db n d x = chain_node x r d # rest"
  by (cases n) auto

lemma chain_rows_Nil_iff [simp]: "chain_rows db n d x = [] \<longleftrightarrow> db x = None"
  by (cases n) (auto split: option.splits)

lemma chain_node_parent:
  "db x = Some r \<Longrightarrow> cn_parentID (chain_node x r d) = Option.bind (parent_of db x) nullif_empty"
  by (auto simp: chain_node_def parent_of_def split: option.splits)

lemma chain_node_id [simp]: "cn_id (chain_node x r d) = x"
  by (simp add: chain_node_def)

lemma chain_rows_last:
  "db x \<noteq> None \<Longrightarrow>
     cn_id (last (chain_rows db n d x)) = x \<or> org_above db (cn_id (last (chain_rows db n d x))) x"
proof (induction n arbitrary: d x)
  case (Suc n)
  then obtain r where r: "db x = Some r" by blast
  show ?case
  proof (cases "ws_parent_id r")
    case (Some p)
    then have p: "parent_of db x = Some p" using r by (simp add: parent_of_def)
    with Suc.IH [of p "Suc d"] r Some show ?thesis
      by (cases "db p") (auto intro: org_above.intros)
  qed (simp add: r)
qed auto

lemma chain_rows_last_root:
  "db x \<noteq> None \<Longrightarrow> fk_closed db \<Longrightarrow> ancestor_at db (Suc n) x = None \<Longrightarrow>
     is_root db (cn_id (last (chain_rows db n d x)))"
proof (induction n arbitrary: d x)
  case 0
  then show ?case
    by (cases "parent_of db x") (auto simp: is_root_def)
next
  case (Suc n)
  then obtain r where r: "db x = Some r" by blast
  show ?case
  proof (cases "ws_parent_id r")
    case None
    then show ?thesis using r by (simp add: is_root_def parent_of_def)
  next
    case (Some p)
    then have p: "parent_of db x = Some p" using r by (simp add: parent_of_def)
    with Suc.prems have "db p \<noteq> None" "ancestor_at db (Suc n) p = None"
      by (auto dest: fk_closed_parent)
    with Suc.IH [of p "Suc d"] Suc.prems(2) r Some show ?thesis by auto
  qed
qed

section \<open>The derived namespaces\<close>

definition team_of :: "ws_table \<Rightarrow> uuid \<Rightarrow> uuid" where
  "team_of db x = (case Option.bind (parent_of db x) nullif_empty of Some p \<Rightarrow> p | None \<Rightarrow> x)"

definition org_of :: "ws_table \<Rightarrow> uuid \<Rightarrow> uuid" where
  "org_of db x = cn_id (last (chain_rows db maxChainDepth 0 x))"

lemma walkChain_Inr_iff:
  "walkChain flt db x = Inr chain \<longleftrightarrow>
     \<not> flt 0 \<and> \<not> flt 1 \<and> \<not> flt 2 \<and> db x \<noteq> None \<and> chain = chain_rows db maxChainDepth 0 x"
  by (auto simp: walkChain_def Let_def)

lemma namespaces_of_chain:
  assumes "db x \<noteq> None"
  obtains nss where "namespaces_of (chain_rows db maxChainDepth 0 x) = Inr nss"
    and "map ns_Name nss = [''workspace:'' @ x, ''team:'' @ team_of db x, ''org:'' @ org_of db x]"
    and "map ns_Writable nss = [True, True, Option.bind (parent_of db x) nullif_empty = None]"
proof -
  obtain r where r: "db x = Some r" using assms by blast
  obtain rest where ch: "chain_rows db maxChainDepth 0 x = chain_node x r 0 # rest"
    using chain_rows_Cons [of db x r maxChainDepth 0, OF r] by blast
  show thesis
    by (rule that)
      (use ch chain_node_parent [of db x r 0, OF r] in
        \<open>auto simp: namespaces_of_def team_of_def org_of_def split: option.splits\<close>)
qed

lemma ReadableNamespaces_Inr_iff:
  "ReadableNamespaces flt db x = Inr nss \<longleftrightarrow>
     \<not> flt 0 \<and> \<not> flt 1 \<and> \<not> flt 2 \<and> db x \<noteq> None \<and>
     namespaces_of (chain_rows db maxChainDepth 0 x) = Inr nss"
proof (cases "walkChain flt db x")
  case (Inl e)
  then have "\<not> (\<not> flt 0 \<and> \<not> flt 1 \<and> \<not> flt 2 \<and> db x \<noteq> None)"
    using walkChain_Inr_iff [of flt db x "chain_rows db maxChainDepth 0 x"] by auto
  with Inl show ?thesis by (auto simp: ReadableNamespaces_def)
next
  case (Inr ch)
  then show ?thesis
    using walkChain_Inr_iff [of flt db x ch] by (auto simp: ReadableNamespaces_def)
qed

lemma ReadableNamespaces_names:
  assumes "ReadableNamespaces flt db x = Inr nss"
  shows "map ns_Name nss = [''workspace:'' @ x, ''team:'' @ team_of db x, ''org:'' @ org_of db x]"
    and "map ns_Writable nss = [True, True, Option.bind (parent_of db x) nullif_empty = None]"
proof -
  have ns: "namespaces_of (chain_rows db maxChainDepth 0 x) = Inr nss" and x: "db x \<noteq> None"
    using assms by (auto simp: ReadableNamespaces_Inr_iff)
  obtain nss' where "namespaces_of (chain_rows db maxChainDepth 0 x) = Inr nss'"
    and "map ns_Name nss' = [''workspace:'' @ x, ''team:'' @ team_of db x, ''org:'' @ org_of db x]"
    and "map ns_Writable nss' = [True, True, Option.bind (parent_of db x) nullif_empty = None]"
    by (rule namespaces_of_chain [of db x, OF x])
  with ns show
    "map ns_Name nss = [''workspace:'' @ x, ''team:'' @ team_of db x, ''org:'' @ org_of db x]"
    "map ns_Writable nss = [True, True, Option.bind (parent_of db x) nullif_empty = None]"
    by simp_all
qed

lemma ReadableNamespaces_ok:
  assumes "db x \<noteq> None"
  obtains nss where "ReadableNamespaces no_faults db x = Inr nss"
  using assms by (metis ReadableNamespaces_Inr_iff namespaces_of_chain no_faults_apply)

lemma team_of_related: "team_of db x = x \<or> org_above db (team_of db x) x"
  by (cases "parent_of db x") (auto simp: team_of_def nullif_empty_def intro: org_above.direct)

lemma org_of_related: "db x \<noteq> None \<Longrightarrow> org_of db x = x \<or> org_above db (org_of db x) x"
  unfolding org_of_def by (rule chain_rows_last)

section \<open>Properties\<close>

text \<open>On a tree whose parent references resolve and whose chains stay within the depth limit, an
  existing workspace can always be resolved, and its readable namespaces are, in this order,
  its own, that of its team (the parent, or itself at the root), and that of the root of its
  organisation; the organisation namespace is writable for the root only.\<close>

theorem ReadableNamespaces_correct:
  assumes "db x \<noteq> None" and "fk_closed db" and "parent_ids_ok db"
    and "ancestor_at db (Suc maxChainDepth) x = None"
  shows "\<exists>nss r. ReadableNamespaces no_faults db x = Inr nss
    \<and> map ns_Name nss =
        [''workspace:'' @ x,
         ''team:'' @ (case parent_of db x of Some p \<Rightarrow> p | None \<Rightarrow> x),
         ''org:'' @ r]
    \<and> is_root db r \<and> (r = x \<or> org_above db r x)
    \<and> map ns_Writable nss = [True, True, r = x]"
proof -
  obtain nss where nss: "ReadableNamespaces no_faults db x = Inr nss"
    by (rule ReadableNamespaces_ok [of db x, OF assms(1)])
  have bind: "Option.bind (parent_of db x) nullif_empty = parent_of db x"
    using assms(3) by (cases "parent_of db x") (auto simp: parent_ids_ok_def)
  have root: "is_root db (org_of db x)"
    unfolding org_of_def by (rule chain_rows_last_root [of db x, OF assms(1,2,4)])
  have rel: "org_of db x = x \<or> org_above db (org_of db x) x"
    by (rule org_of_related [of db x, OF assms(1)])
  have "parent_of db x = None \<longleftrightarrow> org_of db x = x"
    using root rel by (auto simp: is_root_def elim: org_above_cases)
  with nss root rel bind show ?thesis
    using ReadableNamespaces_names [OF nss] by (auto simp: team_of_def)
qed

definition sample_tree :: ws_table where
  "sample_tree =
     [''r'' \<mapsto> \<lparr>ws_name = Some ''Root'', ws_parent_id = None, ws_status = ''online'',
                ws_max_concurrent_tasks = None, ws_active_tasks = None\<rparr>,
      ''c'' \<mapsto> \<lparr>ws_name = Some ''Child'', ws_parent_id = Some ''r'', ws_status = ''online'',
                ws_max_concurrent_tasks = None, ws_active_tasks = None\<rparr>]"

lemma sample_tree_parent: "parent_of sample_tree x = (if x = ''c'' then Some ''r'' else None)"
  by (simp add: parent_of_def sample_tree_def)

lemma sample_tree_above: "org_above sample_tree a x \<longleftrightarrow> x = ''c'' \<and> a = ''r''"
proof
  have r: "\<not> org_above sample_tree b ''r''" for b
    by (rule notI, erule org_above_cases) (simp_all add: sample_tree_parent)
  assume "org_above sample_tree a x"
  then show "x = ''c'' \<and> a = ''r''"
    by (rule org_above_cases) (use r in \<open>auto simp: sample_tree_parent split: if_splits\<close>)
qed (simp add: org_above.direct sample_tree_parent)

lemma sample_tree_ok:
  "sample_tree ''c'' \<noteq> None" "fk_closed sample_tree" "parent_ids_ok sample_tree"
  "ancestor_at sample_tree (Suc maxChainDepth) ''c'' = None"
proof -
  have "ancestor_at sample_tree 2 ''c'' = None"
    by (simp add: numeral_2_eq_2 sample_tree_parent)
  then show "ancestor_at sample_tree (Suc maxChainDepth) ''c'' = None"
    by (rule ancestor_at_None_mono) (simp add: maxChainDepth_def)
qed (auto simp: fk_closed_def parent_ids_ok_def sample_tree_parent, simp_all add: sample_tree_def)

theorem ReadableNamespaces_correct_witness:
  "\<exists>nss. ReadableNamespaces no_faults sample_tree ''c'' = Inr nss
     \<and> map ns_Name nss = [''workspace:c'', ''team:r'', ''org:r'']
     \<and> map ns_Writable nss = [True, True, False]"
proof -
  obtain nss r where n: "ReadableNamespaces no_faults sample_tree ''c'' = Inr nss"
    and m: "map ns_Name nss = [''workspace:'' @ ''c'',
         ''team:'' @ (case parent_of sample_tree ''c'' of Some p \<Rightarrow> p | None \<Rightarrow> ''c''), ''org:'' @ r]"
    and r: "is_root sample_tree r"
    and w: "map ns_Writable nss = [True, True, r = ''c'']"
    and a: "r = ''c'' \<or> org_above sample_tree r ''c''"
    using ReadableNamespaces_correct [OF sample_tree_ok]
    by (elim exE conjE) (rule that, assumption+)
  have "r = ''r''"
    using a r by (auto simp: sample_tree_above is_root_def sample_tree_parent)
  with n m w show ?thesis by (simp add: sample_tree_parent)
qed

text \<open>A write is granted exactly for the caller's own namespace, for its team, and, for a
  workspace without a parent only, for its organisation; the answer is an error, never a
  grant, when a statement fails or the workspace does not exist.\<close>

theorem CanWrite_iff:
  "CanWrite flt db x ns = Inr True \<longleftrightarrow>
     \<not> flt 0 \<and> \<not> flt 1 \<and> \<not> flt 2 \<and> db x \<noteq> None \<and>
     (ns = ''workspace:'' @ x \<or> ns = ''team:'' @ team_of db x \<or>
      (ns = ''org:'' @ org_of db x \<and> Option.bind (parent_of db x) nullif_empty = None))"
proof (cases "ReadableNamespaces flt db x")
  case (Inl e)
  then have "\<not> (\<not> flt 0 \<and> \<not> flt 1 \<and> \<not> flt 2 \<and> db x \<noteq> None)"
    using namespaces_of_chain [of db x]
    by (metis ReadableNamespaces_Inr_iff sum.distinct(1))
  with Inl show ?thesis by (auto simp: CanWrite_def WritableNamespaces_def)
next
  case (Inr nss)
  obtain a b c where abc: "nss = [a, b, c]"
    using ReadableNamespaces_names(1) [OF Inr] by (auto simp: map_eq_Cons_conv)
  have "CanWrite flt db x ns = Inr True \<longleftrightarrow>
      (ns_Writable a \<and> ns = ns_Name a) \<or> (ns_Writable b \<and> ns = ns_Name b) \<or>
      (ns_Writable c \<and> ns = ns_Name c)"
    by (simp add: CanWrite_def WritableNamespaces_def Inr abc) blast
  moreover have "\<not> flt 0 \<and> \<not> flt 1 \<and> \<not> flt 2 \<and> db x \<noteq> None"
    using Inr by (simp add: ReadableNamespaces_Inr_iff)
  moreover have "ns_Writable a" "ns_Writable b"
    "ns_Writable c \<longleftrightarrow> Option.bind (parent_of db x) nullif_empty = None"
    using ReadableNamespaces_names(2) [OF Inr] by (simp_all add: abc)
  moreover have "ns_Name a = ''workspace:'' @ x" "ns_Name b = ''team:'' @ team_of db x"
    "ns_Name c = ''org:'' @ org_of db x"
    using ReadableNamespaces_names(1) [OF Inr] by (simp_all add: abc)
  ultimately show ?thesis by (simp only: simp_thms) metis
qed

text \<open>memory never crosses organisations: whenever two workspaces can both read some namespace,
  one ancestor-or-self of the first is an ancestor-or-self of the second. This holds for
  every table content, including dangling or cyclic parent references.\<close>

theorem readable_namespace_isolation:
  assumes "ReadableNamespaces flt db x = Inr nss" and "ReadableNamespaces flt' db y = Inr mss"
    and "n \<in> ns_Name ` set nss" and "n \<in> ns_Name ` set mss"
  shows "\<exists>r. (r = x \<or> org_above db r x) \<and> (r = y \<or> org_above db r y)"
proof -
  have "db x \<noteq> None" "db y \<noteq> None"
    using assms(1,2) by (auto simp: ReadableNamespaces_Inr_iff)
  note rel = team_of_related [of db x] team_of_related [of db y]
    org_of_related [of db x, OF this(1)] org_of_related [of db y, OF this(2)]
  have "n \<in> set (map ns_Name nss)" "n \<in> set (map ns_Name mss)" using assms(3,4) by simp_all
  then have "x = y \<or> team_of db x = team_of db y \<or> org_of db x = org_of db y"
    by (auto simp: ReadableNamespaces_names(1) [OF assms(1)] ReadableNamespaces_names(1) [OF assms(2)])
  with rel show ?thesis by metis
qed

lemma sample_tree_org: "org_of sample_tree ''c'' = ''r''"
proof -
  have "is_root sample_tree (org_of sample_tree ''c'')"
    unfolding org_of_def by (rule chain_rows_last_root) (rule sample_tree_ok)+
  with org_of_related [of sample_tree "''c''"] sample_tree_ok(1) show ?thesis
    by (auto simp: is_root_def sample_tree_parent sample_tree_above)
qed

theorem readable_namespace_isolation_witness:
  "\<exists>nss mss. ReadableNamespaces no_faults sample_tree ''c'' = Inr nss
     \<and> ReadableNamespaces no_faults sample_tree ''r'' = Inr mss
     \<and> ''org:r'' \<in> ns_Name ` set nss \<and> ''org:r'' \<in> ns_Name ` set mss
     \<and> (\<exists>r. (r = ''c'' \<or> org_above sample_tree r ''c'') \<and> (r = ''r'' \<or> org_above sample_tree r ''r''))"
proof -
  have e: "\<exists>nss. ReadableNamespaces no_faults sample_tree x = Inr nss \<and> ''org:r'' \<in> ns_Name ` set nss"
    if "x = ''c'' \<or> x = ''r''" for x
  proof -
    have ex: "sample_tree x \<noteq> None" using that by (auto simp: sample_tree_def)
    then obtain nss where n: "ReadableNamespaces no_faults sample_tree x = Inr nss"
      by (rule ReadableNamespaces_ok)
    moreover have "org_of sample_tree x = ''r''"
      using that org_of_related [of sample_tree x, OF ex] sample_tree_org
      by (auto simp: sample_tree_above)
    ultimately have "''org:r'' \<in> set (map ns_Name nss)"
      by (simp add: ReadableNamespaces_names(1))
    with n show ?thesis by auto
  qed
  obtain nss mss where n: "ReadableNamespaces no_faults sample_tree ''c'' = Inr nss"
    "''org:r'' \<in> ns_Name ` set nss"
    and m: "ReadableNamespaces no_faults sample_tree ''r'' = Inr mss" "''org:r'' \<in> ns_Name ` set mss"
    using e [of "''c''"] e [of "''r''"] by auto
  show ?thesis
    using readable_namespace_isolation [OF n(1) m(1) n(2) m(2)] n m by blast
qed

end
