(* ===== verification/Org_Access.thy ===== *)
theory Org_Access
  imports Workspace_Tree
begin

text \<open>
  \<^verbatim>\<open>internal/registry/access.go\<close>: which workspaces may talk to each other. A lookup that
  fails for any reason (no row, or a driver error) is \<^term>\<open>None\<close> in the table: the code
  treats every error of \<^verbatim>\<open>getWorkspaceRef\<close> alike. One call reads one snapshot of the table.
\<close>

definition maxAncestorWalk :: nat where
  "maxAncestorWalk = 32"

record workspaceRef =
  ref_ID :: uuid
  ref_ParentID :: "uuid option"

definition getWorkspaceRef :: "ws_table \<Rightarrow> uuid \<Rightarrow> workspaceRef option" where
  "getWorkspaceRef db i =
     map_option (\<lambda>r. \<lparr>ref_ID = i, ref_ParentID = ws_parent_id r\<rparr>) (db i)"

text \<open>The loop of \<^verbatim>\<open>isAncestorOf\<close> with the number of iterations left.\<close>

fun isAncestorOf_loop :: "ws_table \<Rightarrow> nat \<Rightarrow> uuid \<Rightarrow> uuid \<Rightarrow> bool" where
  "isAncestorOf_loop db 0 ancestorID current = False"
| "isAncestorOf_loop db (Suc n) ancestorID current =
     (case getWorkspaceRef db current of
        None \<Rightarrow> False
      | Some ref \<Rightarrow>
          (case ref_ParentID ref of
             None \<Rightarrow> False
           | Some p \<Rightarrow> if p = ancestorID then True else isAncestorOf_loop db n ancestorID p))"

definition isAncestorOf :: "ws_table \<Rightarrow> uuid \<Rightarrow> uuid \<Rightarrow> bool" where
  "isAncestorOf db ancestorID childID = isAncestorOf_loop db maxAncestorWalk ancestorID childID"

definition CanCommunicate :: "ws_table \<Rightarrow> uuid \<Rightarrow> uuid \<Rightarrow> bool" where
  "CanCommunicate db callerID targetID =
     (if callerID = targetID then True
      else case getWorkspaceRef db callerID of None \<Rightarrow> False | Some caller \<Rightarrow>
        (case getWorkspaceRef db targetID of None \<Rightarrow> False | Some target \<Rightarrow>
          if ref_ParentID caller \<noteq> None \<and> ref_ParentID target \<noteq> None \<and>
             ref_ParentID caller = ref_ParentID target then True
          else if ref_ParentID target = Some (ref_ID caller) then True
          else if ref_ParentID caller = Some (ref_ID target) then True
          else if (case ref_ParentID target of None \<Rightarrow> False | Some p \<Rightarrow> isAncestorOf db callerID p)
            then True
          else if (case ref_ParentID caller of None \<Rightarrow> False | Some p \<Rightarrow> isAncestorOf db targetID p)
            then True
          else False))"

section \<open>The bounded walk\<close>

lemma getWorkspaceRef_parent:
  "getWorkspaceRef db x = Some r \<Longrightarrow> ref_ID r = x \<and> ref_ParentID r = parent_of db x"
  by (auto simp: getWorkspaceRef_def parent_of_def)

lemma isAncestorOf_loop_step:
  "isAncestorOf_loop db (Suc n) a c \<longleftrightarrow>
     (\<exists>p. parent_of db c = Some p \<and> (p = a \<or> isAncestorOf_loop db n a p))"
  by (auto simp: getWorkspaceRef_def parent_of_def split: option.splits)

lemma isAncestorOf_loop_iff:
  "isAncestorOf_loop db n a c \<longleftrightarrow> (\<exists>k < n. ancestor_at db (Suc k) c = Some a)"
proof (induction n arbitrary: c)
  case 0
  show ?case by simp
next
  case (Suc n)
  have "(\<exists>k < Suc n. ancestor_at db (Suc k) c = Some a) \<longleftrightarrow>
      (\<exists>p. parent_of db c = Some p \<and> (p = a \<or> (\<exists>k < n. ancestor_at db (Suc k) p = Some a)))"
    by (cases "parent_of db c") (auto simp: Ex_less_Suc2)
  with Suc.IH show ?case
    unfolding isAncestorOf_loop_step by blast
qed

lemma isAncestorOf_above: "isAncestorOf db a c \<Longrightarrow> org_above db a c"
  by (auto simp: isAncestorOf_def isAncestorOf_loop_iff org_above_iff_ancestor_at)

text \<open>\<open>near_above db a c\<close>: \<open>a\<close> is at most \<open>maxAncestorWalk + 1\<close> levels above \<open>c\<close>.\<close>

definition near_above :: "ws_table \<Rightarrow> uuid \<Rightarrow> uuid \<Rightarrow> bool" where
  "near_above db a c \<longleftrightarrow> (\<exists>k \<le> maxAncestorWalk. ancestor_at db (Suc k) c = Some a)"

lemma near_above_parent:
  "near_above db a c \<longleftrightarrow>
     (\<exists>p. parent_of db c = Some p \<and> (p = a \<or> isAncestorOf db a p))"
  unfolding near_above_def isAncestorOf_def isAncestorOf_loop_iff
  by (cases "parent_of db c") (auto simp: less_Suc_eq_le [symmetric] Ex_less_Suc2)

lemma near_above_imp_above: "near_above db a c \<Longrightarrow> org_above db a c"
  by (auto simp: near_above_def org_above_iff_ancestor_at)

lemma org_above_imp_near_above:
  assumes "ancestor_at db (Suc (Suc maxAncestorWalk)) c = None" and "org_above db a c"
  shows "near_above db a c"
proof -
  obtain k where k: "ancestor_at db (Suc k) c = Some a"
    using assms(2) by (auto simp: org_above_iff_ancestor_at)
  then have "k \<le> maxAncestorWalk"
    using ancestor_at_None_mono [OF assms(1), of "Suc k"] by (force simp: not_le)
  with k show ?thesis by (auto simp: near_above_def)
qed

lemma CanCommunicate_iff:
  "CanCommunicate db a b \<longleftrightarrow> a = b \<or>
     (db a \<noteq> None \<and> db b \<noteq> None \<and>
      ((\<exists>p. parent_of db a = Some p \<and> parent_of db b = Some p) \<or>
       near_above db a b \<or> near_above db b a))"
  unfolding CanCommunicate_def near_above_parent
  by (auto simp: getWorkspaceRef_def parent_of_def split: option.splits)

section \<open>Properties\<close>

text \<open>C15: in an organisation whose parent chains are at most 33 levels long, \<^verbatim>\<open>CanCommunicate\<close> decides
  this relation on existing workspaces: the same workspace, two children of one parent, or one of them
  anywhere above the other. Nothing else may communicate. This is the rule of the comment on the function
  apart from its clause on root-level siblings, which the code refuses. The published rules are narrower:
  \<^verbatim>\<open>docs/api-protocol/communication-rules.md\<close> and \<^verbatim>\<open>docs/guides/external-agent-registration.md\<close> allow a parent and
  its child only and forbid skipping levels, which the code allows, and they allow root-level
  siblings, which it does not.\<close>

theorem CanCommunicate_org_rule:
  assumes "\<And>x. ancestor_at db (Suc (Suc maxAncestorWalk)) x = None"
  shows "CanCommunicate db a b \<longleftrightarrow> a = b \<or>
     (db a \<noteq> None \<and> db b \<noteq> None \<and>
      ((\<exists>p. parent_of db a = Some p \<and> parent_of db b = Some p) \<or>
       org_above db a b \<or> org_above db b a))"
  unfolding CanCommunicate_iff
  using near_above_imp_above org_above_imp_near_above assms by meson

definition sample_row :: "string option \<Rightarrow> uuid option \<Rightarrow> ws_row" where
  "sample_row nm p =
     \<lparr>ws_name = nm, ws_parent_id = p, ws_status = ''online'', ws_max_concurrent_tasks = Some 1,
      ws_active_tasks = Some 0\<rparr>"

definition sample_org :: ws_table where
  "sample_org =
     [''pm'' \<mapsto> sample_row (Some ''PM'') None,
      ''lead'' \<mapsto> sample_row (Some ''Lead'') (Some ''pm''),
      ''dev'' \<mapsto> sample_row (Some ''Dev'') (Some ''lead''),
      ''solo'' \<mapsto> sample_row (Some ''Solo'') None]"

lemma sample_org_parent:
  "parent_of sample_org x =
     (if x = ''lead'' then Some ''pm'' else if x = ''dev'' then Some ''lead'' else None)"
  by (simp add: parent_of_def sample_org_def sample_row_def)

lemma sample_org_shallow: "ancestor_at sample_org (Suc (Suc maxAncestorWalk)) x = None"
proof -
  have "ancestor_at sample_org 3 x = None"
    by (simp add: numeral_3_eq_3 sample_org_parent)
  then show ?thesis
    by (rule ancestor_at_None_mono) (simp add: maxAncestorWalk_def)
qed

theorem CanCommunicate_org_rule_witness:
  "CanCommunicate sample_org ''dev'' ''pm'' \<and> org_above sample_org ''pm'' ''dev''
   \<and> \<not> CanCommunicate sample_org ''pm'' ''solo''"
proof -
  have 1: "CanCommunicate sample_org ''dev'' ''pm''" by code_simp
  have 2: "\<not> CanCommunicate sample_org ''pm'' ''solo''" by code_simp
  from 1 CanCommunicate_org_rule [OF sample_org_shallow, of "''dev''" "''pm''"]
  have "org_above sample_org ''pm'' ''dev'' \<or> org_above sample_org ''dev'' ''pm''"
    by (auto simp: sample_org_parent)
  moreover have "\<not> org_above sample_org ''dev'' ''pm''"
    by (auto elim: org_above_cases simp: sample_org_parent)
  ultimately show ?thesis using 1 2 by blast
qed

text \<open>Two different workspaces that may communicate belong to one organisation: some workspace is
  the root of both parent chains or, failing a root, both chains meet. Unrelated trees are
  isolated from each other whatever the table holds, parent cycles included; in particular
  two root workspaces never communicate.\<close>

theorem CanCommunicate_isolation:
  assumes "CanCommunicate db a b" and "a \<noteq> b"
  shows "(\<exists>r. (r = a \<or> org_above db r a) \<and> (r = b \<or> org_above db r b)) \<and> \<not> (is_root db a \<and> is_root db b)"
proof
  from assms consider p where "parent_of db a = Some p" "parent_of db b = Some p"
    | "near_above db a b" | "near_above db b a"
    unfolding CanCommunicate_iff by blast
  note cases = this
  from cases show "\<exists>r. (r = a \<or> org_above db r a) \<and> (r = b \<or> org_above db r b)"
  proof cases
    case 1
    then show ?thesis by (auto intro: org_above.direct)
  qed (auto dest: near_above_imp_above)
  from cases show "\<not> (is_root db a \<and> is_root db b)"
    by cases (auto simp: is_root_def near_above_parent)
qed

theorem CanCommunicate_isolation_witness:
  "CanCommunicate sample_org ''dev'' ''pm''
   \<and> (\<exists>r. (r = ''dev'' \<or> org_above sample_org r ''dev'') \<and> (r = ''pm'' \<or> org_above sample_org r ''pm''))"
proof -
  have 1: "CanCommunicate sample_org ''dev'' ''pm''" by code_simp
  from CanCommunicate_isolation [OF this] show ?thesis using 1 by simp
qed

text \<open>The check does not depend on who calls: the relation is symmetric for every table content.\<close>

theorem CanCommunicate_sym: "CanCommunicate db a b = CanCommunicate db b a"
  unfolding CanCommunicate_iff by metis

end
