(* ===== verification/Org_Scope.thy ===== *)
theory Org_Scope
  imports Org_Access
begin

text \<open>
  \<^verbatim>\<open>internal/handlers/org_scope.go\<close>: the organisation of a workspace is the root of its
  \<^verbatim>\<open>parent_id\<close> chain, found by a recursive query without a depth bound. The query is a
  \<^theory_text>\<open>partial_function\<close>: on a cyclic chain it never returns, which is the value \<^term>\<open>None\<close>; a
  result is \<^term>\<open>Some\<close> of the root, or \<^term>\<open>Some None\<close> when the chain has no parentless row.
\<close>

datatype scope_error = ScopeErrDB | errNoOrgRoot

partial_function (option) orgRootSubtreeCTE :: "ws_table \<Rightarrow> uuid \<Rightarrow> uuid option option" where
  [code]: "orgRootSubtreeCTE db x =
     (case db x of
        None \<Rightarrow> Some None
      | Some r \<Rightarrow>
          (case ws_parent_id r of
             None \<Rightarrow> Some (Some x)
           | Some p \<Rightarrow> orgRootSubtreeCTE db p))"

definition orgRootID :: "bool \<Rightarrow> ws_table \<Rightarrow> uuid \<Rightarrow> (scope_error + uuid) option" where
  "orgRootID fault db workspaceID =
     (if fault then Some (Inl ScopeErrDB)
      else case orgRootSubtreeCTE db workspaceID of
             None \<Rightarrow> None
           | Some None \<Rightarrow> Some (Inl errNoOrgRoot)
           | Some (Some root) \<Rightarrow> if root = [] then Some (Inl errNoOrgRoot) else Some (Inr root))"

definition sameOrg :: "faults \<Rightarrow> ws_table \<Rightarrow> uuid \<Rightarrow> uuid \<Rightarrow> (scope_error + bool) option" where
  "sameOrg flt db a b =
     (if a = b then Some (Inr True)
      else case orgRootID (flt 0) db a of
             None \<Rightarrow> None
           | Some (Inl e) \<Rightarrow> Some (Inl e)
           | Some (Inr rootA) \<Rightarrow>
               (case orgRootID (flt 1) db b of
                  None \<Rightarrow> None
                | Some (Inl e) \<Rightarrow> Some (Inl e)
                | Some (Inr rootB) \<Rightarrow> Some (Inr (rootA = rootB))))"

section \<open>The chain and its root\<close>

lemma orgRootSubtreeCTE_parent:
  "parent_of db x = Some p \<Longrightarrow> orgRootSubtreeCTE db x = orgRootSubtreeCTE db p"
  by (subst orgRootSubtreeCTE.simps) (auto simp: parent_of_def split: Option.bind_splits)

lemma orgRootSubtreeCTE_root: "is_root db x \<Longrightarrow> orgRootSubtreeCTE db x = Some (Some x)"
  by (subst orgRootSubtreeCTE.simps) (auto simp: is_root_def parent_of_def split: option.splits)

lemma orgRootSubtreeCTE_above: "org_above db a c \<Longrightarrow> orgRootSubtreeCTE db c = orgRootSubtreeCTE db a"
  by (induction rule: org_above.induct) (simp_all add: orgRootSubtreeCTE_parent)

lemma chain_has_root:
  assumes "fk_closed db" "db x \<noteq> None" "ancestor_at db n x = None"
  shows "\<exists>r. is_root db r \<and> (r = x \<or> org_above db r x)"
  using assms(2,3)
proof (induction n arbitrary: x)
  case (Suc n)
  show ?case
  proof (cases "parent_of db x")
    case None
    with Suc.prems(1) show ?thesis by (auto simp: is_root_def)
  next
    case (Some p)
    then have "db p \<noteq> None" "ancestor_at db n p = None"
      using Suc.prems assms(1) by (auto simp: fk_closed_parent)
    then obtain r where "is_root db r" "r = p \<or> org_above db r p" using Suc.IH by blast
    with Some show ?thesis by (auto intro: org_above.intros)
  qed
qed simp

lemma root_found: "is_root db r \<Longrightarrow> r = x \<or> org_above db r x \<Longrightarrow> orgRootSubtreeCTE db x = Some (Some r)"
  using orgRootSubtreeCTE_root orgRootSubtreeCTE_above by metis

lemma root_above_unique:
  assumes "is_root db r" "r = x \<or> org_above db r x" "is_root db r'" "r' = x \<or> org_above db r' x"
  shows "r = r'"
  using root_found [OF assms(1,2)] root_found [OF assms(3,4)] by simp

section \<open>Properties\<close>

text \<open>On a table whose parent references resolve, for a workspace whose chain is finite (the chain
  may be of any length), the unbounded recursive query of \<^verbatim>\<open>orgRootID\<close> returns, and what it
  returns is the one parentless workspace at or above the given one.\<close>

theorem orgRootID_correct:
  assumes "fk_closed db" and "db x \<noteq> None" and "ancestor_at db n x = None" and "db [] = None"
  shows "\<exists>root. orgRootID False db x = Some (Inr root) \<and> is_root db root \<and>
    (root = x \<or> org_above db root x) \<and>
    (\<forall>r. is_root db r \<and> (r = x \<or> org_above db r x) \<longrightarrow> r = root)"
proof -
  obtain r where r: "is_root db r" "r = x \<or> org_above db r x"
    using chain_has_root [OF assms(1-3)] by blast
  have "r \<noteq> []" using r(1) assms(4) by (auto simp: is_root_def)
  then have "orgRootID False db x = Some (Inr r)"
    by (simp add: orgRootID_def root_found [OF r])
  moreover have "\<forall>s. is_root db s \<and> (s = x \<or> org_above db s x) \<longrightarrow> s = r"
    using root_above_unique [OF _ _ r] by blast
  ultimately show ?thesis using r by blast
qed

theorem orgRootID_correct_witness:
  "\<exists>root. orgRootID False sample_org ''dev'' = Some (Inr root) \<and> is_root sample_org root \<and>
    (root = ''dev'' \<or> org_above sample_org root ''dev'')"
proof -
  have "fk_closed sample_org"
    unfolding fk_closed_def sample_org_parent by (auto simp: sample_org_def split: if_splits)
  moreover have "sample_org ''dev'' \<noteq> None" "sample_org [] = None" by (simp_all add: sample_org_def)
  ultimately show ?thesis
    using orgRootID_correct [OF _ _ sample_org_shallow [of "''dev''"]] by blast
qed

text \<open>The two access rules agree: whenever \<^verbatim>\<open>CanCommunicate\<close> lets two workspaces talk, the
  organisation check \<^verbatim>\<open>sameOrg\<close> of the router, which resolves both roots independently, returns
  true for them, provided the parent references resolve and the chains are finite; so the
  tenant check never blocks a route the hierarchy rule allows.\<close>

theorem CanCommunicate_sameOrg:
  assumes "fk_closed db" and "db [] = None" and "\<forall>x. \<exists>n. ancestor_at db n x = None"
    and "CanCommunicate db a b"
  shows "sameOrg no_faults db a b = Some (Inr True)"
proof (cases "a = b")
  case False
  have root: "\<exists>r. orgRootSubtreeCTE db x = Some (Some r) \<and> r \<noteq> []" if x: "db x \<noteq> None" for x
  proof -
    obtain n where "ancestor_at db n x = None" using assms(3) by blast
    then obtain r where "is_root db r" "r = x \<or> org_above db r x"
      using chain_has_root [OF assms(1) x] by blast
    then show ?thesis
      using root_found assms(2) unfolding is_root_def by metis
  qed
  from False assms(4) have ex: "db a \<noteq> None" "db b \<noteq> None"
    and rel: "(\<exists>p. parent_of db a = Some p \<and> parent_of db b = Some p) \<or>
       near_above db a b \<or> near_above db b a"
    by (auto simp: CanCommunicate_iff)
  from rel have "orgRootSubtreeCTE db a = orgRootSubtreeCTE db b"
    by (auto simp: orgRootSubtreeCTE_parent orgRootSubtreeCTE_above dest!: near_above_imp_above)
  with root [OF ex(1)] False show ?thesis by (auto simp: sameOrg_def orgRootID_def)
qed (simp add: sameOrg_def)

theorem CanCommunicate_sameOrg_witness:
  "CanCommunicate sample_org ''dev'' ''pm'' \<and>
   sameOrg no_faults sample_org ''dev'' ''pm'' = Some (Inr True)"
proof -
  have "fk_closed sample_org"
    unfolding fk_closed_def sample_org_parent by (auto simp: sample_org_def split: if_splits)
  moreover have "sample_org [] = None" by (simp add: sample_org_def)
  moreover have "CanCommunicate sample_org ''dev'' ''pm''" by code_simp
  ultimately show ?thesis
    using CanCommunicate_sameOrg [of sample_org "''dev''" "''pm''"] sample_org_shallow by blast
qed

end
