(* ===== verification/Text_Util.thy ===== *)
theory Text_Util
  imports Prelude
begin

text \<open>
  \<^verbatim>\<open>internal/textutil/truncate.go\<close>: the rune-safe truncation helpers every writer of a
  size-bounded column goes through, together with the part of Go's \<^verbatim>\<open>unicode/utf8\<close> they
  rely on (\<^verbatim>\<open>RuneStart\<close>, the width of the rune a \<^verbatim>\<open>range\<close> loop decodes, \<^verbatim>\<open>ValidString\<close>).
  The lemmas show that a truncation of well-formed UTF-8 is well-formed, within its bound,
  and the longest possible rune-aligned prefix. The contract the clients use is the locale
  \<open>bounded_truncation\<close>.
\<close>

section \<open>UTF-8 as Go decodes it\<close>

definition byte :: "char \<Rightarrow> nat" where
  "byte c = of_char c"

definition RuneStart :: "char \<Rightarrow> bool" where
  "RuneStart c \<longleftrightarrow> \<not> (128 \<le> byte c \<and> byte c < 192)"

definition cont_byte :: "char \<Rightarrow> bool" where
  "cont_byte c \<longleftrightarrow> 128 \<le> byte c \<and> byte c < 192"

text \<open>
  The well-formed encodings: the admissible range of the second byte depends on the first
  (no overlong forms, no surrogates, nothing above \<open>U+10FFFF\<close>).
\<close>

definition second_ok :: "char \<Rightarrow> char \<Rightarrow> bool" where
  "second_ok c0 c1 \<longleftrightarrow> cont_byte c1 \<and>
     (byte c0 = 224 \<longrightarrow> 160 \<le> byte c1) \<and>
     (byte c0 = 237 \<longrightarrow> byte c1 < 160) \<and>
     (byte c0 = 240 \<longrightarrow> 144 \<le> byte c1) \<and>
     (byte c0 = 244 \<longrightarrow> byte c1 < 144)"

fun rune_len :: "string \<Rightarrow> nat option" where
  "rune_len [] = None"
| "rune_len (c0 # r) =
     (if byte c0 < 128 then Some 1
      else if 194 \<le> byte c0 \<and> byte c0 < 224 then
        (case r of c1 # _ \<Rightarrow> if second_ok c0 c1 then Some 2 else None | _ \<Rightarrow> None)
      else if 224 \<le> byte c0 \<and> byte c0 < 240 then
        (case r of c1 # c2 # _ \<Rightarrow> if second_ok c0 c1 \<and> cont_byte c2 then Some 3 else None
         | _ \<Rightarrow> None)
      else if 240 \<le> byte c0 \<and> byte c0 \<le> 244 then
        (case r of c1 # c2 # c3 # _ \<Rightarrow>
           if second_ok c0 c1 \<and> cont_byte c2 \<and> cont_byte c3 then Some 4 else None
         | _ \<Rightarrow> None)
      else None)"

lemma rune_len_bounds: "rune_len s = Some w \<Longrightarrow> 0 < w \<and> w \<le> length s"
  by (cases s) (auto split: if_splits list.splits)

text \<open>\<^verbatim>\<open>utf8.ValidString\<close>: decode rune by rune, no position may be ill-formed.\<close>

function valid_utf8 :: "string \<Rightarrow> bool" where
  "valid_utf8 s = (s = [] \<or> (case rune_len s of None \<Rightarrow> False | Some w \<Rightarrow> valid_utf8 (drop w s)))"
  by pat_completeness auto
termination
  by (relation "measure length") (auto dest: rune_len_bounds)

declare valid_utf8.simps [simp del]

text \<open>The step of a \<^verbatim>\<open>range\<close> loop: an ill-formed byte is one rune of width 1.\<close>

definition rune_step :: "string \<Rightarrow> nat" where
  "rune_step s = (case rune_len s of None \<Rightarrow> 1 | Some w \<Rightarrow> w)"

lemma rune_step_pos [simp]: "0 < rune_step s"
  by (auto simp: rune_step_def dest: rune_len_bounds split: option.splits)

section \<open>The truncation functions\<close>

definition ellipsis :: string where
  "ellipsis = [CHR 0xE2, CHR 0x80, CHR 0xA6]"

lemma length_ellipsis [simp]: "length ellipsis = 3"
  by (simp add: ellipsis_def)

text \<open>\<^verbatim>\<open>for cut > 0 && !utf8.RuneStart(s[cut]) { cut-- }\<close>\<close>

fun walk_back :: "string \<Rightarrow> nat \<Rightarrow> nat" where
  "walk_back s 0 = 0"
| "walk_back s (Suc n) = (if RuneStart (s ! Suc n) then Suc n else walk_back s n)"

definition TruncateBytes :: "string \<Rightarrow> int \<Rightarrow> string" where
  "TruncateBytes s maxBytes =
     (if int (length s) \<le> maxBytes then s
      else if maxBytes < int (length ellipsis) then []
      else take (walk_back s (nat (maxBytes - int (length ellipsis)))) s @ ellipsis)"

definition TruncateBytesNoMarker :: "string \<Rightarrow> int \<Rightarrow> string" where
  "TruncateBytesNoMarker s maxBytes =
     (if int (length s) \<le> maxBytes then s
      else if maxBytes \<le> 0 then []
      else take (walk_back s (nat maxBytes)) s)"

text \<open>The \<^verbatim>\<open>range\<close> loop of \<^verbatim>\<open>TruncateRunes\<close> at byte offset \<open>i\<close> with \<open>count\<close> runes seen.\<close>

function truncate_runes_loop :: "string \<Rightarrow> int \<Rightarrow> nat \<Rightarrow> int \<Rightarrow> string" where
  "truncate_runes_loop s maxRunes i count =
     (if length s \<le> i then s
      else if count = maxRunes then take i s @ ellipsis
      else truncate_runes_loop s maxRunes (i + rune_step (drop i s)) (count + 1))"
  by pat_completeness auto
termination
  by (relation "measure (\<lambda>(s, m, i, c). length s - i)") (auto simp: diff_less_mono2)

declare truncate_runes_loop.simps [simp del]

definition TruncateRunes :: "string \<Rightarrow> int \<Rightarrow> string" where
  "TruncateRunes s maxRunes =
     (if maxRunes \<le> 0 then []
      else if int (length s) \<le> maxRunes then s
      else truncate_runes_loop s maxRunes 0 0)"


section \<open>Where well-formed text may be cut\<close>

lemma rune_len_tail:
  "rune_len (c0 # r) = Some w \<Longrightarrow> \<forall>c \<in> set (take (w - 1) r). cont_byte c"
  by (auto simp: second_ok_def split: if_splits list.splits)

lemma rune_len_cont:
  assumes "rune_len s = Some w" and "0 < i" and "i < w"
  shows "\<not> RuneStart (s ! i)"
proof -
  from assms obtain c0 r where s: "s = c0 # r" by (cases s) auto
  have "i - 1 < length (take (w - 1) r)"
    using rune_len_bounds [OF assms(1)] assms s by auto
  then have "take (w - 1) r ! (i - 1) \<in> set (take (w - 1) r)"
    by (rule nth_mem)
  with rune_len_tail [of c0 r w] assms s have "cont_byte (s ! i)"
    by (auto simp: nth_Cons')
  then show ?thesis by (simp add: RuneStart_def cont_byte_def)
qed

lemma rune_len_take:
  "rune_len s = Some w \<Longrightarrow> w \<le> k \<Longrightarrow> rune_len (take k s) = Some w"
  by (cases s; cases k)
    (auto simp: take_Cons' numeral_eq_Suc less_Suc_eq_le split: if_splits list.splits nat.splits)

lemma rune_len_append: "rune_len s = Some w \<Longrightarrow> rune_len (s @ t) = Some w"
  by (cases s) (auto split: if_splits list.splits)

lemma valid_utf8_Nil [simp]: "valid_utf8 []"
  by (simp add: valid_utf8.simps)

lemma valid_utf8_step: "rune_len s = Some w \<Longrightarrow> valid_utf8 s = valid_utf8 (drop w s)"
  by (subst valid_utf8.simps) auto

lemma valid_utf8_rune: "valid_utf8 s \<Longrightarrow> s \<noteq> [] \<Longrightarrow> \<exists>w. rune_len s = Some w"
  by (subst (asm) valid_utf8.simps) (auto split: option.splits)

lemma valid_utf8_append: "valid_utf8 s \<Longrightarrow> valid_utf8 t \<Longrightarrow> valid_utf8 (s @ t)"
proof (induction s rule: valid_utf8.induct)
  case (1 s)
  show ?case
  proof (cases "s = []")
    case True
    with "1.prems" show ?thesis by simp
  next
    case False
    with "1.prems" obtain w where w: "rune_len s = Some w"
      using valid_utf8_rune by blast
    with "1.prems" have "valid_utf8 (drop w s)" by (simp add: valid_utf8_step)
    with "1.IH" [OF w] "1.prems" have "valid_utf8 (drop w s @ t)" by blast
    with w show ?thesis
      using rune_len_bounds [OF w] by (simp add: valid_utf8_step [OF rune_len_append [OF w]])
  qed
qed

lemma valid_utf8_take:
  "valid_utf8 s \<Longrightarrow> k < length s \<Longrightarrow> RuneStart (s ! k) \<Longrightarrow> valid_utf8 (take k s)"
proof (induction s arbitrary: k rule: valid_utf8.induct)
  case (1 s)
  show ?case
  proof (cases "k = 0")
    case True
    then show ?thesis by simp
  next
    case False
    have ne: "s \<noteq> []" using "1.prems"(2) by auto
    obtain w where w: "rune_len s = Some w"
      using valid_utf8_rune [OF "1.prems"(1) ne] by blast
    have le: "w \<le> k"
      using rune_len_cont [OF w] False "1.prems"(3) by (meson neq0_conv not_le)
    have "valid_utf8 (take (k - w) (drop w s))"
      using "1.IH" [OF w] "1.prems" w le by (simp add: valid_utf8_step)
    moreover have "drop w (take k s) = take (k - w) (drop w s)"
      by (simp add: drop_take)
    ultimately show ?thesis
      by (simp add: valid_utf8_step [OF rune_len_take [OF w le]])
  qed
qed

lemma valid_utf8_ellipsis [simp]: "valid_utf8 ellipsis"
  by (simp add: ellipsis_def valid_utf8.simps byte_def second_ok_def cont_byte_def)

section \<open>The walk back to a rune boundary\<close>

lemma walk_back_le: "walk_back s n \<le> n"
  by (induction n) auto

lemma walk_back_start: "walk_back s n = 0 \<or> RuneStart (s ! walk_back s n)"
  by (induction n) auto

lemma walk_back_greatest: "k \<le> n \<Longrightarrow> RuneStart (s ! k) \<Longrightarrow> k \<le> walk_back s n"
  by (induction n) (auto simp: le_Suc_eq)

lemma valid_walk_back:
  assumes "valid_utf8 s" and "n < length s"
  shows "valid_utf8 (take (walk_back s n) s)"
proof -
  have "walk_back s n < length s" using walk_back_le [of s n] assms(2) by simp
  with walk_back_start [of s n] assms(1) show ?thesis
    by (auto intro: valid_utf8_take)
qed

section \<open>The contract of a truncation\<close>

text \<open>
  What the writers of bounded columns rely on: the stored text is valid UTF-8 whenever the
  input is, never exceeds the cap, and is the input itself when the input fits.
\<close>

locale bounded_truncation =
  fixes trunc :: "string \<Rightarrow> int \<Rightarrow> string"
  assumes trunc_fits: "int (length s) \<le> cap \<Longrightarrow> trunc s cap = s"
    and trunc_bound: "0 \<le> cap \<Longrightarrow> int (length (trunc s cap)) \<le> cap"
    and trunc_valid: "valid_utf8 s \<Longrightarrow> valid_utf8 (trunc s cap)"
begin

lemma trunc_idem: "0 \<le> cap \<Longrightarrow> trunc (trunc s cap) cap = trunc s cap"
  by (simp add: trunc_fits trunc_bound)

lemma trunc_storable:
  "0 \<le> cap \<Longrightarrow> valid_utf8 s \<Longrightarrow> valid_utf8 (trunc s cap) \<and> int (length (trunc s cap)) \<le> cap"
  by (simp add: trunc_bound trunc_valid)

end

lemma TruncateBytes_bound: "0 \<le> cap \<Longrightarrow> int (length (TruncateBytes s cap)) \<le> cap"
  using walk_back_le [of s "nat (cap - 3)"] by (auto simp: TruncateBytes_def)

lemma TruncateBytes_valid: "valid_utf8 s \<Longrightarrow> valid_utf8 (TruncateBytes s cap)"
  by (auto simp: TruncateBytes_def intro!: valid_utf8_append valid_walk_back)

interpretation marked: bounded_truncation TruncateBytes
  by unfold_locales (simp_all add: TruncateBytes_bound TruncateBytes_valid, simp add: TruncateBytes_def)

lemma TruncateBytesNoMarker_bound:
  "0 \<le> cap \<Longrightarrow> int (length (TruncateBytesNoMarker s cap)) \<le> cap"
  using walk_back_le [of s "nat cap"] by (auto simp: TruncateBytesNoMarker_def)

lemma TruncateBytesNoMarker_valid: "valid_utf8 s \<Longrightarrow> valid_utf8 (TruncateBytesNoMarker s cap)"
  by (auto simp: TruncateBytesNoMarker_def intro!: valid_walk_back)

interpretation unmarked: bounded_truncation TruncateBytesNoMarker
  by unfold_locales
    (simp_all add: TruncateBytesNoMarker_bound TruncateBytesNoMarker_valid,
      simp add: TruncateBytesNoMarker_def)


section \<open>Counting in runes\<close>

text \<open>The rune count of a string and its first \<open>n\<close> runes, the reference for \<^const>\<open>TruncateRunes\<close>.\<close>

function rune_count :: "string \<Rightarrow> nat" where
  "rune_count s = (if s = [] then 0 else Suc (rune_count (drop (rune_step s) s)))"
  by pat_completeness auto
termination
  by (relation "measure length") auto

declare rune_count.simps [simp del]

fun rune_take :: "nat \<Rightarrow> string \<Rightarrow> string" where
  "rune_take 0 s = []"
| "rune_take (Suc n) s = take (rune_step s) s @ rune_take n (drop (rune_step s) s)"

lemma rune_count_Nil [simp]: "rune_count [] = 0"
  by (simp add: rune_count.simps)

lemma rune_count_step: "s \<noteq> [] \<Longrightarrow> rune_count s = Suc (rune_count (drop (rune_step s) s))"
  by (subst rune_count.simps) simp

lemma rune_count_le_length: "rune_count s \<le> length s"
proof (induction s rule: rune_count.induct)
  case (1 s)
  show ?case
  proof (cases "s = []")
    case False
    then have "rune_count (drop (rune_step s) s) \<le> length s - rune_step s"
      using "1.IH" by simp
    moreover have "length s - rune_step s < length s"
      using False rune_step_pos [of s] by (simp add: diff_less)
    ultimately show ?thesis
      unfolding rune_count_step [OF False] by linarith
  qed simp
qed

lemma truncate_runes_loop_eq:
  "count \<le> m \<Longrightarrow> truncate_runes_loop s m i count =
     (if int (rune_count (drop i s)) + count \<le> m then s
      else take i s @ rune_take (nat (m - count)) (drop i s) @ ellipsis)"
proof (induction s m i count rule: truncate_runes_loop.induct)
  case (1 s m i count)
  consider "length s \<le> i" | "i < length s" "count = m" | "i < length s" "count < m"
    using "1.prems" by linarith
  then show ?case
  proof cases
    case 1
    with "1.prems" show ?thesis by (simp add: truncate_runes_loop.simps)
  next
    case 2
    then show ?thesis by (simp add: truncate_runes_loop.simps rune_count_step)
  next
    case 3
    let ?w = "rune_step (drop i s)"
    have n: "nat (m - count) = Suc (nat (m - (count + 1)))" using 3 by simp
    have t: "take (i + ?w) s = take i s @ take ?w (drop i s)" by (simp add: take_add)
    have d: "drop (i + ?w) s = drop ?w (drop i s)" by (simp add: add.commute)
    have c: "int (rune_count (drop i s)) = int (rune_count (drop (i + ?w) s)) + 1"
      using 3 by (simp add: rune_count_step d)
    have "truncate_runes_loop s m i count = truncate_runes_loop s m (i + ?w) (count + 1)"
      using 3 by (subst truncate_runes_loop.simps) simp
    with "1.IH" 3 show ?thesis by (simp add: n t d c)
  qed
qed

section \<open>Properties\<close>

text \<open>\<^verbatim>\<open>TruncateBytesNoMarker\<close> with a non-negative cap keeps valid UTF-8 valid and returns the
  longest prefix of its input that fits the cap and ends at a rune boundary: every prefix of
  at most \<open>cap\<close> bytes that ends where a rune starts (or is the whole input) is a prefix of
  the result.\<close>

theorem TruncateBytesNoMarker_longest:
  assumes "0 \<le> cap" and "valid_utf8 s"
  shows "\<exists>k. TruncateBytesNoMarker s cap = take k s
    \<and> int (length (TruncateBytesNoMarker s cap)) \<le> cap
    \<and> valid_utf8 (TruncateBytesNoMarker s cap)
    \<and> (\<forall>j \<le> length s. int j \<le> cap \<and> (j = length s \<or> RuneStart (s ! j)) \<longrightarrow> j \<le> k)"
proof (cases "int (length s) \<le> cap")
  case True
  then show ?thesis
    using assms by (intro exI [of _ "length s"]) (auto simp: TruncateBytesNoMarker_def)
next
  case False
  have "TruncateBytesNoMarker s cap = take (walk_back s (nat cap)) s"
    using False assms(1) by (auto simp: TruncateBytesNoMarker_def)
  moreover have "\<forall>j \<le> length s. int j \<le> cap \<and> (j = length s \<or> RuneStart (s ! j)) \<longrightarrow>
      j \<le> walk_back s (nat cap)"
    using False by (auto intro: walk_back_greatest)
  ultimately show ?thesis
    using unmarked.trunc_storable [OF assms] by blast
qed

theorem TruncateBytesNoMarker_longest_witness:
  "TruncateBytesNoMarker [CHR 0x61, CHR 0xE4, CHR 0xBD, CHR 0xA0] 3 = [CHR 0x61]
   \<and> (\<exists>k. TruncateBytesNoMarker [CHR 0x61, CHR 0xE4, CHR 0xBD, CHR 0xA0] 3 =
          take k [CHR 0x61, CHR 0xE4, CHR 0xBD, CHR 0xA0]
        \<and> int (length (TruncateBytesNoMarker [CHR 0x61, CHR 0xE4, CHR 0xBD, CHR 0xA0] 3)) \<le> 3
        \<and> valid_utf8 (TruncateBytesNoMarker [CHR 0x61, CHR 0xE4, CHR 0xBD, CHR 0xA0] 3))"
proof
  show "TruncateBytesNoMarker [CHR 0x61, CHR 0xE4, CHR 0xBD, CHR 0xA0] 3 = [CHR 0x61]"
    by code_simp
  have "valid_utf8 [CHR 0x61, CHR 0xE4, CHR 0xBD, CHR 0xA0]"
    by code_simp
  from TruncateBytesNoMarker_longest [OF _ this, of 3]
  show "\<exists>k. TruncateBytesNoMarker [CHR 0x61, CHR 0xE4, CHR 0xBD, CHR 0xA0] 3 =
          take k [CHR 0x61, CHR 0xE4, CHR 0xBD, CHR 0xA0]
        \<and> int (length (TruncateBytesNoMarker [CHR 0x61, CHR 0xE4, CHR 0xBD, CHR 0xA0] 3)) \<le> 3
        \<and> valid_utf8 (TruncateBytesNoMarker [CHR 0x61, CHR 0xE4, CHR 0xBD, CHR 0xA0] 3)"
    by auto
qed

text \<open>The optimised \<^verbatim>\<open>TruncateRunes\<close> (a byte-length fast path, then a \<^verbatim>\<open>range\<close> loop that stops at
  the first rune too many) equals the reference: the input itself when it has at most
  \<open>n\<close> runes, else its first \<open>n\<close> runes and the ellipsis, for every byte string, well-formed or
  not, and every positive \<open>n\<close>; a cap of zero or less gives the empty string.\<close>

theorem TruncateRunes_spec:
  "TruncateRunes s m =
     (if m \<le> 0 then []
      else if int (rune_count s) \<le> m then s
      else rune_take (nat m) s @ ellipsis)"
  using rune_count_le_length [of s]
  by (auto simp: TruncateRunes_def truncate_runes_loop_eq)

end
