(* ===== verification/Go_Std.thy ===== *)
theory Go_Std
  imports Prelude
begin

text \<open>
  The parts of Go's standard library the components call: 64-bit wrap-around, \<^verbatim>\<open>strconv.Atoi\<close>,
  \<^verbatim>\<open>time.Duration\<close> rounding and rendering, \<^verbatim>\<open>strings.TrimSpace\<close> and \<^verbatim>\<open>strings.Split\<close>.
\<close>

section \<open>Signed 64-bit integers\<close>

definition wrap64 :: "int \<Rightarrow> int" where
  "wrap64 i = (i + 2 ^ 63) mod 2 ^ 64 - 2 ^ 63"

definition in_int64 :: "int \<Rightarrow> bool" where
  "in_int64 i \<longleftrightarrow> - (2 ^ 63) \<le> i \<and> i < 2 ^ 63"

lemma wrap64_in: "in_int64 (wrap64 i)"
  by (simp add: wrap64_def in_int64_def)

lemma wrap64_id [simp]: "in_int64 i \<Longrightarrow> wrap64 i = i"
  by (simp add: wrap64_def in_int64_def)

section \<open>strconv.Atoi\<close>

definition digit_val :: "char \<Rightarrow> int option" where
  "digit_val c =
     (let n = (of_char c :: nat) in if 48 \<le> n \<and> n \<le> 57 then Some (int (n - 48)) else None)"

fun parse_digits :: "int \<Rightarrow> string \<Rightarrow> int option" where
  "parse_digits acc [] = Some acc"
| "parse_digits acc (c # s) =
     (case digit_val c of None \<Rightarrow> None | Some d \<Rightarrow> parse_digits (10 * acc + d) s)"

definition parse_unsigned :: "string \<Rightarrow> int option" where
  "parse_unsigned s = (if s = [] then None else parse_digits 0 s)"

definition Atoi :: "string \<Rightarrow> int option" where
  "Atoi s =
     (let v = (if s \<noteq> [] \<and> hd s = CHR ''-'' then map_option uminus (parse_unsigned (tl s))
               else if s \<noteq> [] \<and> hd s = CHR ''+'' then parse_unsigned (tl s)
               else parse_unsigned s)
      in case v of None \<Rightarrow> None | Some n \<Rightarrow> if in_int64 n then Some n else None)"

lemma Atoi_in_int64: "Atoi s = Some n \<Longrightarrow> in_int64 n"
  unfolding Atoi_def Let_def by (simp split: option.split_asm if_split_asm)

lemma digit_val_digit: "d < 10 \<Longrightarrow> digit_val (char_of (48 + d :: nat)) = Some (int d)"
  by (simp add: digit_val_def Let_def of_char_of)

lemma parse_digits_append:
  "parse_digits acc (s @ t) =
    (case parse_digits acc s of None \<Rightarrow> None | Some v \<Rightarrow> parse_digits v t)"
  by (induction s arbitrary: acc) (auto split: option.splits)

lemma parse_show_nat: "parse_digits 0 (show_nat n) = Some (int n)"
proof (induction n rule: show_nat.induct)
  case (1 n)
  show ?case
  proof (cases "n < 10")
    case True
    then show ?thesis by (simp add: show_nat.simps [of n] digit_val_digit)
  next
    case False
    then have "parse_digits 0 (show_nat n) = Some (10 * int (n div 10) + int (n mod 10))"
      using 1 by (simp add: show_nat.simps [of n] parse_digits_append digit_val_digit)
    also have "10 * int (n div 10) + int (n mod 10) = int n"
      by (metis of_nat_add of_nat_mult of_nat_numeral mult_div_mod_eq)
    finally show ?thesis .
  qed
qed

lemma Atoi_show_nat:
  assumes "in_int64 (int n)"
  shows "Atoi (show_nat n) = Some (int n)"
proof -
  have p: "parse_digits 0 (show_nat n) = Some (int n)" by (rule parse_show_nat)
  obtain c s where cs: "show_nat n = c # s"
    by (cases "show_nat n") (simp_all add: show_nat.simps [of n] split: if_splits)
  have "digit_val c \<noteq> None" using p by (auto simp: cs split: option.splits)
  then have "c \<noteq> CHR ''-''" "c \<noteq> CHR ''+''" by (auto simp: digit_val_def Let_def)
  with p assms show ?thesis by (simp add: Atoi_def parse_unsigned_def cs)
qed

section \<open>time.Duration\<close>

text \<open>\<^verbatim>\<open>d.Round(time.Second)\<close> for a non-negative duration: half-way values round up.\<close>

definition round_second :: "duration \<Rightarrow> duration" where
  "round_second d =
     (let r = d mod second in if r + r < second then d - r else d + (second - r))"

text \<open>\<^verbatim>\<open>d.String()\<close> for a non-negative whole number of seconds.\<close>

definition duration_string :: "duration \<Rightarrow> string" where
  "duration_string d =
     (let secs = nat (d div second); m = secs div 60; h = m div 60
      in (if 0 < h then show_nat h @ ''h'' else []) @
         (if 0 < m then show_nat (m mod 60) @ ''m'' else []) @ show_nat (secs mod 60) @ ''s'')"

section \<open>strings.TrimSpace and strings.Split\<close>

text \<open>The UTF-8 encodings of the code points with the Unicode property White Space.\<close>

definition white_runes :: "string list" where
  "white_runes =
     [[CHR 0x09], [CHR 0x0A], [CHR 0x0B], [CHR 0x0C], [CHR 0x0D], [CHR 0x20],
      [CHR 0xC2, CHR 0x85], [CHR 0xC2, CHR 0xA0], [CHR 0xE1, CHR 0x9A, CHR 0x80],
      [CHR 0xE2, CHR 0x80, CHR 0x80], [CHR 0xE2, CHR 0x80, CHR 0x81], [CHR 0xE2, CHR 0x80, CHR 0x82],
      [CHR 0xE2, CHR 0x80, CHR 0x83], [CHR 0xE2, CHR 0x80, CHR 0x84], [CHR 0xE2, CHR 0x80, CHR 0x85],
      [CHR 0xE2, CHR 0x80, CHR 0x86], [CHR 0xE2, CHR 0x80, CHR 0x87], [CHR 0xE2, CHR 0x80, CHR 0x88],
      [CHR 0xE2, CHR 0x80, CHR 0x89], [CHR 0xE2, CHR 0x80, CHR 0x8A], [CHR 0xE2, CHR 0x80, CHR 0xA8],
      [CHR 0xE2, CHR 0x80, CHR 0xA9], [CHR 0xE2, CHR 0x80, CHR 0xAF], [CHR 0xE2, CHR 0x81, CHR 0x9F],
      [CHR 0xE3, CHR 0x80, CHR 0x80]]"

function trim_front :: "string list \<Rightarrow> string \<Rightarrow> string" where
  "trim_front ws s =
     (case find (\<lambda>w. w \<noteq> [] \<and> has_prefix w s) ws of
        None \<Rightarrow> s | Some w \<Rightarrow> trim_front ws (drop (length w) s))"
  by pat_completeness auto
termination
  by (relation "measure (\<lambda>(ws, s). length s)") (auto simp: find_Some_iff has_prefix_iff)

declare trim_front.simps [simp del]

definition TrimSpace :: "string \<Rightarrow> string" where
  "TrimSpace s = rev (trim_front (map rev white_runes) (rev (trim_front white_runes s)))"

lemma trim_front_stop: "(\<And>w. w \<in> set ws \<Longrightarrow> w \<noteq> [] \<Longrightarrow> \<not> has_prefix w s) \<Longrightarrow> trim_front ws s = s"
proof -
  assume "\<And>w. w \<in> set ws \<Longrightarrow> w \<noteq> [] \<Longrightarrow> \<not> has_prefix w s"
  then have "find (\<lambda>w. w \<noteq> [] \<and> has_prefix w s) ws = None" by (auto simp: find_None_iff)
  then show ?thesis by (simp add: trim_front.simps [of ws s])
qed

text \<open>A text that begins and ends with a visible ASCII character is left alone.\<close>

definition visible :: "char \<Rightarrow> bool" where
  "visible c \<longleftrightarrow> 0x21 \<le> (of_char c :: nat) \<and> (of_char c :: nat) < 0x80"

lemma TrimSpace_visible:
  assumes "s = [] \<or> visible (hd s) \<and> visible (last s)"
  shows "TrimSpace s = s"
proof (cases s)
  case Nil
  then show ?thesis by (simp add: TrimSpace_def trim_front_stop has_prefix_def)
next
  case (Cons c t)
  have "\<not> has_prefix w s" if "w \<in> set white_runes" "w \<noteq> []" for w
    using that assms Cons by (auto simp: white_runes_def visible_def has_prefix_iff)
  then have l: "trim_front white_runes s = s" by (rule trim_front_stop)
  have "\<not> has_prefix w (rev s)" if "w \<in> set (map rev white_runes)" "w \<noteq> []" for w
  proof
    assume "has_prefix w (rev s)"
    then obtain u where "rev s = w @ u" by (auto simp: has_prefix_iff)
    then have "s = rev u @ rev w" by (metis rev_append rev_rev_ident)
    with that(2) have "last s = hd w" by (cases w) auto
    then show False using that assms Cons by (auto simp: white_runes_def visible_def)
  qed
  then have "trim_front (map rev white_runes) (rev s) = rev s" by (rule trim_front_stop)
  then show ?thesis using l by (simp add: TrimSpace_def)
qed

text \<open>\<^verbatim>\<open>strings.Split(s, sep)\<close> for a separator of one byte.\<close>

fun split_on :: "char \<Rightarrow> string \<Rightarrow> string list" where
  "split_on sep [] = [[]]"
| "split_on sep (c # s) =
     (if c = sep then [] # split_on sep s
      else case split_on sep s of [] \<Rightarrow> [[c]] | p # ps \<Rightarrow> (c # p) # ps)"

lemma split_on_nonempty [simp]: "split_on sep s \<noteq> []"
  by (induction s) (auto split: list.splits)

lemma split_on_none: "sep \<notin> set s \<Longrightarrow> split_on sep s = [s]"
  by (induction s) auto

lemma split_on_append: "sep \<notin> set s \<Longrightarrow> split_on sep (s @ sep # t) = s # split_on sep t"
  by (induction s) auto

end
