(* ===== verification/Delegation_Ledger.thy ===== *)
theory Delegation_Ledger
  imports Text_Util Go_Std
begin

text \<open>
  \<^verbatim>\<open>internal/handlers/delegation_ledger.go\<close>, \<^verbatim>\<open>delegation_ledger_writes.go\<close> and
  \<^verbatim>\<open>delegation_sweeper.go\<close>: one row per delegated task with a forward-only status, and the
  periodic sweep that fails overdue tasks and marks silent ones stuck. \<^verbatim>\<open>SetStatus\<close> is a read, a
  decision and a write; the three are separate definitions so that interleavings of
  concurrent calls can be stated.
\<close>

section \<open>Data\<close>

record d_row =
  d_delegation_id :: string
  d_caller_id :: uuid
  d_callee_id :: uuid
  d_task_preview :: string
  d_status :: string
  d_last_heartbeat :: "instant option"
  d_deadline :: instant
  d_result_preview :: "string option"
  d_error_detail :: "string option"
  d_created_at :: instant
  d_updated_at :: instant
  d_idempotency_key :: "string option"

type_synonym ledger = "d_row list"

datatype l_error = LErrDB | ErrMissingField | ErrInvalidTransition

definition previewCap :: int where
  "previewCap = 4096"

text \<open>\<open>io_Deadline\<close> is \<^term>\<open>None\<close> for Go's zero time.\<close>

record InsertOpts =
  io_DelegationID :: string
  io_CallerID :: uuid
  io_CalleeID :: uuid
  io_TaskPreview :: string
  io_IdempotencyKey :: string
  io_Deadline :: "instant option"

section \<open>Insert\<close>

text \<open>
  The statement: the primary key is the conflict target, so a taken \<^verbatim>\<open>delegation_id\<close> does
  nothing, while a taken \<^verbatim>\<open>(caller_id, idempotency_key)\<close> violates the other unique index.
\<close>

definition insert_delegation :: "ledger \<Rightarrow> d_row \<Rightarrow> ledger \<times> (l_error + unit)" where
  "insert_delegation t r =
     (if list_ex (\<lambda>x. d_delegation_id x = d_delegation_id r) t then (t, Inr ())
      else if d_idempotency_key r \<noteq> None \<and>
              list_ex (\<lambda>x. d_caller_id x = d_caller_id r \<and>
                            d_idempotency_key x = d_idempotency_key r) t
      then (t, Inl LErrDB)
      else (t @ [r], Inr ()))"

definition Insert :: "faults \<Rightarrow> instant \<Rightarrow> ledger \<Rightarrow> InsertOpts \<Rightarrow> ledger" where
  "Insert flt now t opts =
     (if io_DelegationID opts = [] \<or> io_CallerID opts = [] \<or> io_CalleeID opts = [] then t
      else
        let deadline = (case io_Deadline opts of None \<Rightarrow> now + 6 * hour | Some d \<Rightarrow> d);
            idemArg = nullif_empty (io_IdempotencyKey opts);
            r = \<lparr>d_delegation_id = io_DelegationID opts, d_caller_id = io_CallerID opts,
                 d_callee_id = io_CalleeID opts,
                 d_task_preview = TruncateBytesNoMarker (io_TaskPreview opts) previewCap,
                 d_status = ''queued'', d_last_heartbeat = None, d_deadline = deadline,
                 d_result_preview = None, d_error_detail = None, d_created_at = now,
                 d_updated_at = now, d_idempotency_key = idemArg\<rparr>
        in if flt 0 then t else fst (insert_delegation t r))"

section \<open>SetStatus\<close>

definition allowedTransitions :: "(string \<times> string list) list" where
  "allowedTransitions =
     [(''queued'', [''dispatched'', ''in_progress'', ''failed'']),
      (''dispatched'', [''in_progress'', ''completed'', ''failed'']),
      (''in_progress'', [''completed'', ''failed'', ''stuck''])]"

definition transition_ok :: "string \<Rightarrow> string \<Rightarrow> bool" where
  "transition_ok current status =
     (case map_of allowedTransitions current of
        None \<Rightarrow> False
      | Some next \<Rightarrow> List.member next status)"

definition read_status :: "faults \<Rightarrow> ledger \<Rightarrow> string \<Rightarrow> l_error + string option" where
  "read_status flt t i =
     (if flt 0 then Inl LErrDB
      else Inr (map_option d_status (select_first (\<lambda>r. d_delegation_id r = i) t)))"

datatype set_decision = Return "l_error + unit" | Fill | Move

definition decide_status :: "l_error + string option \<Rightarrow> string \<Rightarrow> string \<Rightarrow> string \<Rightarrow> set_decision" where
  "decide_status observed status errorDetail resultPreview =
     (case observed of
        Inl e \<Rightarrow> Return (Inl e)
      | Inr None \<Rightarrow> Return (Inr ())
      | Inr (Some current) \<Rightarrow>
          if current = status then
            (if errorDetail = [] \<and> resultPreview = [] then Return (Inr ()) else Fill)
          else if transition_ok current status then Move
          else Return (Inl ErrInvalidTransition))"

definition fill_row :: "instant \<Rightarrow> string \<Rightarrow> string \<Rightarrow> d_row \<Rightarrow> d_row" where
  "fill_row now errorDetail resultPreview r =
     r\<lparr>d_error_detail := coalesce (d_error_detail r) (nullif_empty errorDetail),
       d_result_preview := coalesce (d_result_preview r)
         (nullif_empty (TruncateBytesNoMarker resultPreview previewCap)),
       d_updated_at :=
         (if (d_error_detail r = None \<and> nullif_empty errorDetail \<noteq> None) \<or>
             (d_result_preview r = None \<and>
              nullif_empty (TruncateBytesNoMarker resultPreview previewCap) \<noteq> None)
          then now else d_updated_at r)\<rparr>"

definition move_row :: "instant \<Rightarrow> string \<Rightarrow> string \<Rightarrow> string \<Rightarrow> d_row \<Rightarrow> d_row" where
  "move_row now status errorDetail resultPreview r =
     r\<lparr>d_status := status, d_error_detail := nullif_empty errorDetail,
       d_result_preview := nullif_empty (TruncateBytesNoMarker resultPreview previewCap),
       d_updated_at := now\<rparr>"

definition write_status ::
  "faults \<Rightarrow> instant \<Rightarrow> ledger \<Rightarrow> set_decision \<Rightarrow> string \<Rightarrow> string \<Rightarrow> string \<Rightarrow> string \<Rightarrow>
   ledger \<times> (l_error + unit)" where
  "write_status flt now t d i status errorDetail resultPreview =
     (case d of
        Return res \<Rightarrow> (t, res)
      | Fill \<Rightarrow>
          if flt 1 then (t, Inl LErrDB)
          else (update_where (\<lambda>r. d_delegation_id r = i) (fill_row now errorDetail resultPreview) t, Inr ())
      | Move \<Rightarrow>
          if flt 1 then (t, Inl LErrDB)
          else (update_where (\<lambda>r. d_delegation_id r = i) (move_row now status errorDetail resultPreview) t,
                Inr ()))"

definition SetStatus ::
  "faults \<Rightarrow> instant \<Rightarrow> ledger \<Rightarrow> string \<Rightarrow> string \<Rightarrow> string \<Rightarrow> string \<Rightarrow> ledger \<times> (l_error + unit)" where
  "SetStatus flt now t delegationID status errorDetail resultPreview =
     (if delegationID = [] \<or> status = [] then (t, Inl ErrMissingField)
      else write_status flt now t
             (decide_status (read_status flt t delegationID) status errorDetail resultPreview)
             delegationID status errorDetail resultPreview)"

section \<open>Heartbeat and the gated writers\<close>

definition d_terminal :: "string \<Rightarrow> bool" where
  "d_terminal st \<longleftrightarrow> st = ''completed'' \<or> st = ''failed'' \<or> st = ''stuck''"

definition Heartbeat :: "faults \<Rightarrow> instant \<Rightarrow> ledger \<Rightarrow> string \<Rightarrow> ledger" where
  "Heartbeat flt now t delegationID =
     (if delegationID = [] then t
      else if flt 0 then t
      else update_where (\<lambda>r. d_delegation_id r = delegationID \<and> \<not> d_terminal (d_status r))
             (\<lambda>r. r\<lparr>d_last_heartbeat := Some now, d_updated_at := now\<rparr>) t)"

text \<open>\<open>getenv\<close> is the process environment, the empty string for an unset variable.\<close>

definition ledgerWritesEnabled :: "(string \<Rightarrow> string) \<Rightarrow> bool" where
  "ledgerWritesEnabled getenv \<longleftrightarrow> getenv ''DELEGATION_LEDGER_WRITE'' = ''1''"

definition recordLedgerInsert ::
  "(string \<Rightarrow> string) \<Rightarrow> faults \<Rightarrow> instant \<Rightarrow> ledger \<Rightarrow> uuid \<Rightarrow> uuid \<Rightarrow> string \<Rightarrow> string \<Rightarrow> string \<Rightarrow> ledger" where
  "recordLedgerInsert getenv flt now t callerID calleeID delegationID taskPreview idemKey =
     (if \<not> ledgerWritesEnabled getenv then t
      else Insert flt now t
             \<lparr>io_DelegationID = delegationID, io_CallerID = callerID, io_CalleeID = calleeID,
              io_TaskPreview = taskPreview, io_IdempotencyKey = idemKey, io_Deadline = None\<rparr>)"

definition recordLedgerStatus ::
  "(string \<Rightarrow> string) \<Rightarrow> faults \<Rightarrow> instant \<Rightarrow> ledger \<Rightarrow> string \<Rightarrow> string \<Rightarrow> string \<Rightarrow> string \<Rightarrow> ledger" where
  "recordLedgerStatus getenv flt now t delegationID status errorDetail resultPreview =
     (if \<not> ledgerWritesEnabled getenv then t
      else fst (SetStatus flt now t delegationID status errorDetail resultPreview))"

section \<open>The sweeper\<close>

definition defaultSweeperInterval :: duration where
  "defaultSweeperInterval = 5 * minute"

definition defaultStuckThreshold :: duration where
  "defaultStuckThreshold = 10 * minute"

definition envDuration :: "(string \<Rightarrow> string) \<Rightarrow> string \<Rightarrow> duration \<Rightarrow> duration" where
  "envDuration getenv key dflt =
     (let v = getenv key
      in if v = [] then dflt
         else case Atoi v of
                None \<Rightarrow> dflt
              | Some n \<Rightarrow> if n \<le> 0 then dflt else wrap64 (n * second))"

record DelegationSweeper =
  sw_interval :: duration
  sw_threshold :: duration

definition NewDelegationSweeper :: "(string \<Rightarrow> string) \<Rightarrow> DelegationSweeper" where
  "NewDelegationSweeper getenv =
     \<lparr>sw_interval = envDuration getenv ''DELEGATION_SWEEPER_INTERVAL_S'' defaultSweeperInterval,
      sw_threshold = envDuration getenv ''DELEGATION_STUCK_THRESHOLD_S'' defaultStuckThreshold\<rparr>"

record SweepResult =
  DeadlineFailures :: nat
  StuckMarked :: nat
  Errors :: nat

text \<open>
  What a sweep meets: a failing query, rows whose scan fails, an iteration that ends early with
  an error after some rows, and the faults of the per-row \<^verbatim>\<open>SetStatus\<close>.
\<close>

record sweep_env =
  se_query_err :: bool
  se_scan_err :: "string \<Rightarrow> bool"
  se_rows_err :: "nat option"
  se_set :: "string \<Rightarrow> faults"

definition calm_sweep :: sweep_env where
  "calm_sweep = \<lparr>se_query_err = False, se_scan_err = (\<lambda>_. False), se_rows_err = None,
     se_set = (\<lambda>_. no_faults)\<rparr>"

definition inflight_status :: "string \<Rightarrow> bool" where
  "inflight_status st \<longleftrightarrow> st = ''queued'' \<or> st = ''dispatched'' \<or> st = ''in_progress''"

type_synonym candidate = "string \<times> instant option \<times> instant"

definition sweep_one ::
  "DelegationSweeper \<Rightarrow> sweep_env \<Rightarrow> instant \<Rightarrow> ledger \<times> SweepResult \<Rightarrow> candidate \<Rightarrow>
   ledger \<times> SweepResult" where
  "sweep_one s env now acc c =
     (case acc of (t, res) \<Rightarrow> case c of (i, lastBeat, deadline) \<Rightarrow>
        if deadline < now then
          (case SetStatus (se_set env i) now t i ''failed'' ''deadline exceeded by sweeper'' [] of
             (t', Inl e) \<Rightarrow> (t', res\<lparr>Errors := Errors res + 1\<rparr>)
           | (t', Inr u) \<Rightarrow> (t', res\<lparr>DeadlineFailures := DeadlineFailures res + 1\<rparr>))
        else case lastBeat of
          None \<Rightarrow> (t, res)
        | Some b \<Rightarrow>
            if sw_threshold s < now - b then
              (case SetStatus (se_set env i) now t i ''stuck''
                      (''no heartbeat for '' @ duration_string (round_second (now - b))) [] of
                 (t', Inl e) \<Rightarrow> (t', res\<lparr>Errors := Errors res + 1\<rparr>)
               | (t', Inr u) \<Rightarrow> (t', res\<lparr>StuckMarked := StuckMarked res + 1\<rparr>))
            else (t, res))"

definition Sweep ::
  "DelegationSweeper \<Rightarrow> sweep_env \<Rightarrow> instant \<Rightarrow> ledger \<Rightarrow> ledger \<times> SweepResult" where
  "Sweep s env now t =
     (let res0 = \<lparr>DeadlineFailures = 0, StuckMarked = 0, Errors = 0\<rparr>
      in if se_query_err env then (t, res0\<lparr>Errors := 1\<rparr>)
         else
           let result_rows = filter (\<lambda>r. inflight_status (d_status r)) t;
               delivered = (case se_rows_err env of None \<Rightarrow> result_rows | Some n \<Rightarrow> take n result_rows);
               todo = map (\<lambda>r. (d_delegation_id r, d_last_heartbeat r, d_deadline r))
                        (filter (\<lambda>r. \<not> se_scan_err env (d_delegation_id r)) delivered);
               scan_errs = count_where (\<lambda>r. se_scan_err env (d_delegation_id r)) delivered;
               iter_errs = (case se_rows_err env of None \<Rightarrow> 0 | Some _ \<Rightarrow> 1)
           in foldl (sweep_one s env now) (t, res0\<lparr>Errors := scan_errs + iter_errs\<rparr>) todo)"

text \<open>
  \<^verbatim>\<open>Start\<close>: one sweep at once, then one per tick until the context is cancelled. The events are
  what the \<^verbatim>\<open>select\<close> receives, each tick with the sweep's surroundings. \<^verbatim>\<open>time.NewTicker\<close> panics on
  a non-positive interval, before the recovery of the tick function is installed: \<^term>\<open>None\<close>.
\<close>

datatype sweeper_event = CtxDone | Tick sweep_env instant

fun sweeper_loop :: "DelegationSweeper \<Rightarrow> sweeper_event list \<Rightarrow> ledger \<Rightarrow> ledger" where
  "sweeper_loop s [] t = t"
| "sweeper_loop s (CtxDone # evs) t = t"
| "sweeper_loop s (Tick env now # evs) t = sweeper_loop s evs (fst (Sweep s env now t))"

definition Start ::
  "DelegationSweeper \<Rightarrow> sweep_env \<Rightarrow> instant \<Rightarrow> sweeper_event list \<Rightarrow> ledger \<Rightarrow> ledger option" where
  "Start s env now evs t =
     (if sw_interval s \<le> 0 then None else Some (sweeper_loop s evs (fst (Sweep s env now t))))"

end
