(* ===== verification/Delegation_Props.thy ===== *)
theory Delegation_Props
  imports Delegation_Ledger
begin

text \<open>
  Properties of the delegation ledger: the table invariant under every interleaving of
  statements, forward-only statuses when calls do not overlap, the interleaving that breaks
  them when calls do, and the exact effect of a sweep.
\<close>

section \<open>Single rows and keys\<close>

definition ledger_status :: "ledger \<Rightarrow> string \<Rightarrow> string option" where
  "ledger_status t i = map_option d_status (select_first (\<lambda>r. d_delegation_id r = i) t)"

definition lifecycle :: "string \<Rightarrow> bool" where
  "lifecycle st \<longleftrightarrow> inflight_status st \<or> d_terminal st"

definition row_ok :: "d_row \<Rightarrow> bool" where
  "row_ok r \<longleftrightarrow> d_delegation_id r \<noteq> [] \<and> lifecycle (d_status r) \<and>
     int (length (d_task_preview r)) \<le> previewCap \<and>
     (case d_result_preview r of None \<Rightarrow> True | Some p \<Rightarrow> int (length p) \<le> previewCap)"

definition l_inv :: "ledger \<Rightarrow> bool" where
  "l_inv t \<longleftrightarrow> distinct (map d_delegation_id t) \<and>
     distinct (map (\<lambda>r. (d_caller_id r, d_idempotency_key r))
                (filter (\<lambda>r. d_idempotency_key r \<noteq> None) t)) \<and>
     (\<forall>r \<in> set t. row_ok r)"

lemma write_row_fields [simp]:
  "d_delegation_id (fill_row now e p r) = d_delegation_id r"
  "d_delegation_id (move_row now st e p r) = d_delegation_id r"
  "d_caller_id (fill_row now e p r) = d_caller_id r"
  "d_caller_id (move_row now st e p r) = d_caller_id r"
  "d_idempotency_key (fill_row now e p r) = d_idempotency_key r"
  "d_idempotency_key (move_row now st e p r) = d_idempotency_key r"
  "d_status (fill_row now e p r) = d_status r"
  "d_status (move_row now st e p r) = st"
  by (simp_all add: fill_row_def move_row_def)

lemma transition_ok_iff:
  "transition_ok a b \<longleftrightarrow>
     (a = ''queued'' \<and> (b = ''dispatched'' \<or> b = ''in_progress'' \<or> b = ''failed'')) \<or>
     (a = ''dispatched'' \<and> (b = ''in_progress'' \<or> b = ''completed'' \<or> b = ''failed'')) \<or>
     (a = ''in_progress'' \<and> (b = ''completed'' \<or> b = ''failed'' \<or> b = ''stuck''))"
  by (simp add: transition_ok_def allowedTransitions_def)

lemma transition_target: "transition_ok a b \<Longrightarrow> lifecycle b"
  unfolding transition_ok_iff
  by (elim disjE conjE; simp add: lifecycle_def inflight_status_def d_terminal_def)

lemma transition_terminal: "transition_ok a b \<Longrightarrow> \<not> d_terminal a"
  unfolding transition_ok_iff by (elim disjE conjE; simp add: d_terminal_def)

lemma preview_bound: "int (length (TruncateBytesNoMarker p previewCap)) \<le> previewCap"
  by (rule unmarked.trunc_bound) (simp add: previewCap_def)

lemma fill_row_ok: "row_ok r \<Longrightarrow> row_ok (fill_row now e p r)"
  using preview_bound [of p]
  by (cases "d_result_preview r") (auto simp: row_ok_def fill_row_def split: option.splits)

lemma move_row_ok: "row_ok r \<Longrightarrow> lifecycle st \<Longrightarrow> row_ok (move_row now st e p r)"
  using preview_bound [of p] by (auto simp: row_ok_def move_row_def split: option.splits)

lemma update_l_inv:
  assumes "l_inv t" and "\<And>r. d_delegation_id (f r) = d_delegation_id r"
    and "\<And>r. d_caller_id (f r) = d_caller_id r" and "\<And>r. d_idempotency_key (f r) = d_idempotency_key r"
    and "\<And>r. row_ok r \<Longrightarrow> row_ok (f r)"
  shows "l_inv (update_where P f t)"
proof -
  have "distinct (map d_delegation_id (update_where P f t))"
    using assms(1,2) by (simp add: map_update_where l_inv_def)
  moreover have "distinct (map (\<lambda>r. (d_caller_id r, d_idempotency_key r))
      (filter (\<lambda>r. d_idempotency_key r \<noteq> None) (update_where P f t)))"
    by (rule distinct_filter_update_where) (use assms in \<open>simp_all add: l_inv_def\<close>)
  moreover have "\<forall>r \<in> set (update_where P f t). row_ok r"
    using assms(1,5) by (auto simp: l_inv_def set_update_where)
  ultimately show ?thesis by (simp add: l_inv_def)
qed

section \<open>Interleaved statements\<close>

text \<open>
  The writing statements of concurrent calls in any order. A status write carries whatever its
  call observed earlier, possibly long out of date.
\<close>

datatype l_op =
    LInsert faults instant InsertOpts
  | LWrite faults instant "l_error + string option" string string string string
  | LBeat faults instant string

fun l_step :: "ledger \<Rightarrow> l_op \<Rightarrow> ledger" where
  "l_step t (LInsert flt now opts) = Insert flt now t opts"
| "l_step t (LWrite flt now observed i st e p) =
     fst (write_status flt now t (decide_status observed st e p) i st e p)"
| "l_step t (LBeat flt now i) = Heartbeat flt now t i"

lemma Insert_cases:
  obtains "Insert flt now t opts = t"
  | r where "Insert flt now t opts = t @ [r]" "row_ok r" "d_status r = ''queued''"
      "d_delegation_id r \<notin> d_delegation_id ` set t"
      "d_idempotency_key r \<noteq> None \<longrightarrow> (d_caller_id r, d_idempotency_key r) \<notin>
         (\<lambda>r. (d_caller_id r, d_idempotency_key r)) ` set t"
proof -
  let ?r = "\<lparr>d_delegation_id = io_DelegationID opts, d_caller_id = io_CallerID opts,
     d_callee_id = io_CalleeID opts,
     d_task_preview = TruncateBytesNoMarker (io_TaskPreview opts) previewCap,
     d_status = ''queued'', d_last_heartbeat = None,
     d_deadline = (case io_Deadline opts of None \<Rightarrow> now + 6 * hour | Some d \<Rightarrow> d),
     d_result_preview = None, d_error_detail = None, d_created_at = now, d_updated_at = now,
     d_idempotency_key = nullif_empty (io_IdempotencyKey opts)\<rparr>"
  show thesis
  proof (cases "Insert flt now t opts = t")
    case False
    then have ins: "Insert flt now t opts = fst (insert_delegation t ?r)" and
      ne: "io_DelegationID opts \<noteq> []"
      by (auto simp: Insert_def Let_def split: if_splits)
    with False have "insert_delegation t ?r = (t @ [?r], Inr ())"
      and fresh: "\<not> list_ex (\<lambda>x. d_delegation_id x = d_delegation_id ?r) t"
      and key: "\<not> (d_idempotency_key ?r \<noteq> None \<and> list_ex (\<lambda>x. d_caller_id x = d_caller_id ?r \<and>
                  d_idempotency_key x = d_idempotency_key ?r) t)"
      by (auto simp: insert_delegation_def split: if_splits)
    with ins have app: "Insert flt now t opts = t @ [?r]" by simp
    have ok: "row_ok ?r"
      using ne preview_bound by (simp add: row_ok_def lifecycle_def inflight_status_def)
    have "d_delegation_id ?r \<notin> d_delegation_id ` set t"
      using fresh by (auto simp: list_ex_iff)
    moreover have "d_idempotency_key ?r \<noteq> None \<longrightarrow> (d_caller_id ?r, d_idempotency_key ?r) \<notin>
         (\<lambda>r. (d_caller_id r, d_idempotency_key r)) ` set t"
      using key by (auto simp: list_ex_iff)
    ultimately show ?thesis by (intro that(2) [OF app ok]) simp_all
  qed (rule that(1))
qed

lemma Insert_l_inv: "l_inv t \<Longrightarrow> l_inv (Insert flt now t opts)"
proof (cases rule: Insert_cases [of flt now t opts])
  case (2 r)
  assume "l_inv t"
  moreover have "(d_caller_id r, d_idempotency_key r) \<notin>
      (\<lambda>r. (d_caller_id r, d_idempotency_key r)) ` set (filter (\<lambda>r. d_idempotency_key r \<noteq> None) t)"
    if "d_idempotency_key r \<noteq> None"
    using 2(5) that by auto
  ultimately show ?thesis using 2 by (auto simp: l_inv_def)
qed simp

lemma write_l_inv:
  assumes "l_inv t"
  shows "l_inv (fst (write_status flt now t (decide_status observed st e p) i st e p))"
proof (cases "decide_status observed st e p")
  case Move
  then have "lifecycle st"
    by (auto simp: decide_status_def split: sum.splits option.splits if_splits dest: transition_target)
  with Move assms show ?thesis
    by (simp add: write_status_def update_l_inv move_row_ok)
qed (use assms in \<open>simp_all add: write_status_def update_l_inv fill_row_ok\<close>)

lemma Heartbeat_l_inv: "l_inv t \<Longrightarrow> l_inv (Heartbeat flt now t i)"
  by (auto simp: Heartbeat_def row_ok_def intro!: update_l_inv)

interpretation lsys: invariant_system l_step l_inv
proof
  show "l_inv t \<Longrightarrow> l_inv (l_step t op)" for t op
    by (cases op) (simp_all add: Insert_l_inv write_l_inv Heartbeat_l_inv)
qed

section \<open>Calls that do not overlap\<close>

datatype l_call =
    CInsert faults instant InsertOpts
  | CSet faults instant string string string string
  | CBeat faults instant string
  | CSweep DelegationSweeper sweep_env instant

fun l_do :: "ledger \<Rightarrow> l_call \<Rightarrow> ledger" where
  "l_do t (CInsert flt now opts) = Insert flt now t opts"
| "l_do t (CSet flt now i st e p) = fst (SetStatus flt now t i st e p)"
| "l_do t (CBeat flt now i) = Heartbeat flt now t i"
| "l_do t (CSweep s env now) = fst (Sweep s env now t)"

text \<open>\<open>fwd t t'\<close>: every delegation of \<open>t\<close> is in \<open>t'\<close>, and its status moved along allowed transitions.\<close>

definition fwd :: "ledger \<Rightarrow> ledger \<Rightarrow> bool" where
  "fwd t t' \<longleftrightarrow>
     (\<forall>i a. ledger_status t i = Some a \<longrightarrow> (\<exists>b. ledger_status t' i = Some b \<and> transition_ok\<^sup>*\<^sup>* a b))"

lemma fwd_refl [simp]: "fwd t t"
  by (simp add: fwd_def)

lemma fwd_trans: "fwd t u \<Longrightarrow> fwd u v \<Longrightarrow> fwd t v"
  unfolding fwd_def by (meson rtranclp_trans)

lemma ledger_status_update:
  assumes "\<And>r. d_delegation_id (f r) = d_delegation_id r"
  shows "ledger_status (update_where P f t) i =
    map_option (\<lambda>r. d_status (if P r then f r else r)) (select_first (\<lambda>r. d_delegation_id r = i) t)"
  using assms by (simp add: ledger_status_def select_key_update_where option.map_comp comp_def)

lemma fwd_update_same:
  assumes "\<And>r. d_delegation_id (f r) = d_delegation_id r" "\<And>r. d_status (f r) = d_status r"
  shows "fwd t (update_where P f t)"
proof -
  have "ledger_status (update_where P f t) i = ledger_status t i" for i
    unfolding ledger_status_update [OF assms(1)]
    by (cases "select_first (\<lambda>r. d_delegation_id r = i) t")
      (simp_all add: assms(2) ledger_status_def)
  then show ?thesis by (simp add: fwd_def)
qed

lemma fwd_Insert: "fwd t (Insert flt now t opts)"
  by (cases rule: Insert_cases [of flt now t opts])
    (auto simp: fwd_def ledger_status_def select_first_append)

lemma fwd_SetStatus: "fwd t (fst (SetStatus flt now t i st e p))"
proof (cases "i = [] \<or> st = []")
  case True
  then show ?thesis by (auto simp: SetStatus_def)
next
  case False
  let ?d = "decide_status (read_status flt t i) st e p"
  show ?thesis
  proof (cases ?d)
    case Move
    then obtain r where r: "select_first (\<lambda>r. d_delegation_id r = i) t = Some r"
      "transition_ok (d_status r) st"
      by (auto simp: decide_status_def read_status_def split: sum.splits option.splits if_splits)
    have "fwd t (update_where (\<lambda>r. d_delegation_id r = i) (move_row now st e p) t)"
      unfolding fwd_def
    proof (intro allI impI)
      fix j a assume a: "ledger_status t j = Some a"
      show "\<exists>b. ledger_status (update_where (\<lambda>r. d_delegation_id r = i) (move_row now st e p) t) j =
          Some b \<and> transition_ok\<^sup>*\<^sup>* a b"
      proof (cases "j = i")
        case True
        with a r show ?thesis by (auto simp: ledger_status_def select_key_update)
      next
        case False
        with a show ?thesis by (auto simp: ledger_status_def select_key_update)
      qed
    qed
    with Move False show ?thesis by (simp add: SetStatus_def write_status_def)
  qed (use False in \<open>simp_all add: SetStatus_def write_status_def fwd_update_same\<close>)
qed

lemma SetStatus_l_inv: "l_inv t \<Longrightarrow> l_inv (fst (SetStatus flt now t i st e p))"
  by (simp add: SetStatus_def write_l_inv)

lemma fst_case_result:
  "fst (case x of (t', Inl e) \<Rightarrow> (t', f) | (t', Inr u) \<Rightarrow> (t', g)) = fst x"
  by (cases x; cases "snd x") auto

lemma sweep_one_table:
  "fst (sweep_one s env now (t, res) c) = t \<or>
   (\<exists>st e. fst (sweep_one s env now (t, res) c) =
      fst (SetStatus (se_set env (fst c)) now t (fst c) st e []))"
proof -
  obtain i beat deadline where c: "c = (i, beat, deadline)" by (cases c)
  show ?thesis
    unfolding c sweep_one_def prod.case
    by (cases "deadline < now"; cases beat) (auto simp: fst_case_result simp del: append.simps)
qed

text \<open>Whatever every \<^verbatim>\<open>SetStatus\<close> keeps, a sweep keeps.\<close>

lemma Sweep_preserves:
  assumes "Q t" and "\<And>u flt i st e. Q u \<Longrightarrow> Q (fst (SetStatus flt now u i st e []))"
  shows "Q (fst (Sweep s env now t))"
proof -
  have "Q (fst (foldl (sweep_one s env now) acc todo))" if "Q (fst acc)" for acc todo
    using that
  proof (induction todo arbitrary: acc)
    case (Cons c todo)
    have "Q (fst (sweep_one s env now acc c))"
      using sweep_one_table [of s env now "fst acc" "snd acc" c] Cons.prems assms(2) by auto
    with Cons.IH show ?case by simp
  qed simp
  with assms(1) show ?thesis by (simp add: Sweep_def Let_def)
qed

lemma fwd_Sweep: "fwd t (fst (Sweep s env now t))"
  by (rule Sweep_preserves [of "fwd t"]) (auto intro: fwd_trans fwd_SetStatus)

lemma fwd_l_do: "fwd t (l_do t c)"
  by (cases c) (simp_all add: fwd_Insert fwd_SetStatus fwd_Sweep,
      simp add: Heartbeat_def fwd_update_same)

lemma terminal_stays: "transition_ok\<^sup>*\<^sup>* a b \<Longrightarrow> d_terminal a \<Longrightarrow> b = a"
  by (erule converse_rtranclpE) (auto dest: transition_terminal)

interpretation lhist: invariant_system l_do "fwd t0" for t0
  by unfold_locales (auto intro: fwd_trans fwd_l_do)

interpretation lcalls: forward_only_system l_do l_inv ledger_status d_terminal
proof
  show "l_inv t \<Longrightarrow> l_inv (l_do t c)" for t c
    by (cases c) (simp_all add: Insert_l_inv SetStatus_l_inv Heartbeat_l_inv Sweep_preserves)
  show "ledger_status t k = Some st \<Longrightarrow> d_terminal st \<Longrightarrow> ledger_status (l_do t c) k = Some st"
    for t k st c
    using fwd_l_do [of t c] terminal_stays unfolding fwd_def by blast
qed

section \<open>A sweep, row by row\<close>

definition overdue :: "instant \<Rightarrow> d_row \<Rightarrow> bool" where
  "overdue now r \<longleftrightarrow> inflight_status (d_status r) \<and> d_deadline r < now"

definition silent :: "DelegationSweeper \<Rightarrow> instant \<Rightarrow> d_row \<Rightarrow> bool" where
  "silent s now r \<longleftrightarrow> inflight_status (d_status r) \<and> \<not> d_deadline r < now \<and>
     (case d_last_heartbeat r of None \<Rightarrow> False | Some b \<Rightarrow> sw_threshold s < now - b)"

definition silence_note :: "instant \<Rightarrow> d_row \<Rightarrow> string" where
  "silence_note now r =
     ''no heartbeat for '' @ duration_string (round_second (now - the (d_last_heartbeat r)))"

definition swept_row :: "DelegationSweeper \<Rightarrow> instant \<Rightarrow> d_row \<Rightarrow> d_row" where
  "swept_row s now r =
     (if overdue now r then move_row now ''failed'' ''deadline exceeded by sweeper'' [] r
      else if silent s now r \<and> d_status r = ''in_progress''
      then move_row now ''stuck'' (silence_note now r) [] r
      else r)"

lemma swept_row_id [simp]: "d_delegation_id (swept_row s now r) = d_delegation_id r"
  by (simp add: swept_row_def)

lemma select_at:
  assumes "distinct (map d_delegation_id (xs @ r # ys))"
  shows "select_first (\<lambda>x. d_delegation_id x = d_delegation_id r) (xs @ r # ys) = Some r"
  by (rule select_first_distinct [OF assms]) simp

lemma update_at:
  assumes "distinct (map d_delegation_id (xs @ r # ys))"
  shows "update_where (\<lambda>x. d_delegation_id x = d_delegation_id r) f (xs @ r # ys) = xs @ f r # ys"
proof -
  have "\<And>x. x \<in> set xs \<or> x \<in> set ys \<Longrightarrow> d_delegation_id x \<noteq> d_delegation_id r"
    using assms by (force simp: image_iff)
  then show ?thesis by (simp add: update_where_no_match)
qed

lemma SetStatus_at:
  assumes "distinct (map d_delegation_id (xs @ r # ys))" "d_delegation_id r \<noteq> []" "st \<noteq> []"
    "d_status r \<noteq> st"
  shows "SetStatus no_faults now (xs @ r # ys) (d_delegation_id r) st e p =
    (if transition_ok (d_status r) st then (xs @ move_row now st e p r # ys, Inr ())
     else (xs @ r # ys, Inl ErrInvalidTransition))"
  using assms(2-)
  by (simp add: SetStatus_def read_status_def select_at [OF assms(1)] update_at [OF assms(1)]
      decide_status_def write_status_def del: update_where_append)

lemma inflight_fail: "inflight_status st \<Longrightarrow> transition_ok st ''failed'' \<and> st \<noteq> ''failed''"
  unfolding inflight_status_def by (elim disjE) (simp_all add: transition_ok_iff)

lemma inflight_stuck:
  "inflight_status st \<Longrightarrow> st \<noteq> ''stuck'' \<and> (transition_ok st ''stuck'' \<longleftrightarrow> st = ''in_progress'')"
  unfolding inflight_status_def by (elim disjE) (simp_all add: transition_ok_iff)

definition add_swept :: "DelegationSweeper \<Rightarrow> instant \<Rightarrow> d_row list \<Rightarrow> SweepResult \<Rightarrow> SweepResult" where
  "add_swept s now rs res =
     \<lparr>DeadlineFailures = DeadlineFailures res + count_where (overdue now) rs,
      StuckMarked = StuckMarked res + count_where (\<lambda>r. silent s now r \<and> d_status r = ''in_progress'') rs,
      Errors = Errors res + count_where (\<lambda>r. silent s now r \<and> d_status r \<noteq> ''in_progress'') rs\<rparr>"

lemma add_swept_Nil [simp]: "add_swept s now [] res = res"
  by (simp add: add_swept_def)

lemma add_swept_Cons: "add_swept s now (r # rs) res = add_swept s now rs (add_swept s now [r] res)"
  by (simp add: add_swept_def)

abbreviation candidate_of :: "d_row \<Rightarrow> candidate" where
  "candidate_of r \<equiv> (d_delegation_id r, d_last_heartbeat r, d_deadline r)"

lemma sweep_one_at:
  assumes d: "distinct (map d_delegation_id (xs @ r # ys))" and ne: "d_delegation_id r \<noteq> []"
    and fl: "inflight_status (d_status r)"
  shows "sweep_one s calm_sweep now (xs @ r # ys, res) (candidate_of r) =
    (xs @ swept_row s now r # ys, add_swept s now [r] res)"
proof (cases "d_deadline r < now")
  case True
  then show ?thesis
    using SetStatus_at [OF d ne, of "''failed''" now "''deadline exceeded by sweeper''" "[]"]
      inflight_fail [OF fl] fl
    by (simp add: sweep_one_def calm_sweep_def swept_row_def add_swept_def overdue_def silent_def)
next
  case False
  show ?thesis
  proof (cases "silent s now r")
    case True
    then obtain b where b: "d_last_heartbeat r = Some b" "sw_threshold s < now - b"
      by (auto simp: silent_def split: option.splits)
    show ?thesis
      using SetStatus_at [OF d ne, of "''stuck''" now "silence_note now r" "[]"]
        inflight_stuck [OF fl] fl b True False
      by (simp add: sweep_one_def calm_sweep_def swept_row_def add_swept_def overdue_def
          silence_note_def)
  next
    case quiet: False
    then show ?thesis
      using False fl
      by (auto simp: sweep_one_def swept_row_def add_swept_def overdue_def silent_def
          split: option.splits)
  qed
qed

lemma not_inflight_swept:
  "\<not> inflight_status (d_status r) \<Longrightarrow> swept_row s now r = r \<and> add_swept s now [r] res = res"
  by (simp add: swept_row_def add_swept_def overdue_def silent_def)

lemma sweep_fold:
  assumes "distinct (map d_delegation_id (xs @ ys))" "\<forall>r \<in> set ys. d_delegation_id r \<noteq> []"
  shows "foldl (sweep_one s calm_sweep now) (xs @ ys, res)
      (map candidate_of (filter (\<lambda>r. inflight_status (d_status r)) ys)) =
    (xs @ map (swept_row s now) ys, add_swept s now ys res)"
  using assms
proof (induction ys arbitrary: xs res)
  case (Cons r ys)
  have "distinct (map d_delegation_id ((xs @ [swept_row s now r]) @ ys))"
    using Cons.prems(1) by simp
  note IH = Cons.IH [OF this]
  show ?case
  proof (cases "inflight_status (d_status r)")
    case True
    with IH [of "add_swept s now [r] res"] Cons.prems show ?thesis
      by (simp add: sweep_one_at add_swept_Cons [of s now r ys])
  next
    case False
    with IH [of res] Cons.prems show ?thesis
      by (simp add: not_inflight_swept add_swept_Cons [of s now r ys])
  qed
qed simp

section \<open>Properties\<close>

text \<open>Whatever order the statements of concurrent \<^verbatim>\<open>Insert\<close>, \<^verbatim>\<open>SetStatus\<close> and \<^verbatim>\<open>Heartbeat\<close> calls are
  executed in, with whatever statement faults and whatever stale observation a status write is
  based on, the ledger keeps one row per delegation id, at most one row per caller and
  idempotency key, only lifecycle statuses, and previews of at most 4096 bytes.\<close>

theorem ledger_invariant:
  "let t = foldl l_step [] ops in
     distinct (map d_delegation_id t) \<and>
     (\<forall>r \<in> set t. \<forall>r' \<in> set t. d_idempotency_key r = d_idempotency_key r' \<and>
        d_idempotency_key r \<noteq> None \<and> d_caller_id r = d_caller_id r' \<longrightarrow> r = r') \<and>
     (\<forall>r \<in> set t. (inflight_status (d_status r) \<or> d_terminal (d_status r)) \<and>
        length (d_task_preview r) \<le> 4096 \<and>
        (\<forall>p. d_result_preview r = Some p \<longrightarrow> length p \<le> 4096))"
proof -
  have inv: "l_inv (foldl l_step [] ops)"
    by (rule lsys.inv_run) (simp add: l_inv_def)
  let ?t = "foldl l_step [] ops"
  have d: "distinct (map d_delegation_id ?t)"
    and k: "distinct (map (\<lambda>r. (d_caller_id r, d_idempotency_key r))
      (filter (\<lambda>r. d_idempotency_key r \<noteq> None) ?t))"
    and ok: "\<forall>r \<in> set ?t. row_ok r"
    using inv by (simp_all add: l_inv_def)
  have "r = r'" if "r \<in> set ?t" "r' \<in> set ?t" "d_idempotency_key r = d_idempotency_key r'"
      "d_idempotency_key r \<noteq> None" "d_caller_id r = d_caller_id r'" for r r'
    using k that by (auto simp: distinct_map inj_on_def)
  moreover have "(inflight_status (d_status r) \<or> d_terminal (d_status r)) \<and>
        length (d_task_preview r) \<le> 4096 \<and>
        (\<forall>p. d_result_preview r = Some p \<longrightarrow> length p \<le> 4096)" if "r \<in> set ?t" for r
    using bspec [OF ok that] by (auto simp: row_ok_def lifecycle_def previewCap_def)
  ultimately show ?thesis
    using d unfolding Let_def by blast
qed

theorem ledger_invariant_witness:
  "let t = foldl l_step [] [LInsert no_faults 0 \<lparr>io_DelegationID = ''d'', io_CallerID = ''a'',
       io_CalleeID = ''b'', io_TaskPreview = ''task'', io_IdempotencyKey = ''k'', io_Deadline = None\<rparr>,
       LWrite no_faults 5 (Inr (Some ''queued'')) ''d'' ''dispatched'' [] []] in
     t \<noteq> [] \<and> (\<forall>r \<in> set t. d_status r = ''dispatched'' \<and> length (d_task_preview r) \<le> 4096)"
  using ledger_invariant [of "[LInsert no_faults 0 \<lparr>io_DelegationID = ''d'', io_CallerID = ''a'',
       io_CalleeID = ''b'', io_TaskPreview = ''task'', io_IdempotencyKey = ''k'', io_Deadline = None\<rparr>,
       LWrite no_faults 5 (Inr (Some ''queued'')) ''d'' ''dispatched'' [] []]"]
  by (simp add: Insert_def insert_delegation_def write_status_def decide_status_def transition_ok_iff
      move_row_def Let_def)

text \<open>C8: with calls that do not overlap, whatever they are and whatever statements fail, a
  delegation once recorded is never lost, its status only moves along \<^verbatim>\<open>allowedTransitions\<close>, and
  a \<^verbatim>\<open>completed\<close>, \<^verbatim>\<open>failed\<close> or \<^verbatim>\<open>stuck\<close> delegation keeps its status forever, sweeps included.\<close>

theorem ledger_forward_only:
  assumes "ledger_status (foldl l_do [] calls) i = Some a"
  shows "\<exists>b. ledger_status (foldl l_do [] (calls @ later_calls)) i = Some b \<and>
    transition_ok\<^sup>*\<^sup>* a b \<and> (d_terminal a \<longrightarrow> b = a)"
proof -
  let ?t = "foldl l_do [] calls"
  have "fwd ?t (foldl l_do ?t later_calls)" by (rule lhist.inv_run) simp
  then obtain b where b: "ledger_status (foldl l_do ?t later_calls) i = Some b" "transition_ok\<^sup>*\<^sup>* a b"
    using assms unfolding fwd_def by blast
  have "l_inv ?t" by (rule lcalls.inv_run) (simp add: l_inv_def)
  then have "d_terminal a \<longrightarrow> b = a"
    using lcalls.terminal_run [OF _ assms] b(1) by auto
  with b show ?thesis by (auto simp: foldl_append)
qed

definition sample_opts :: InsertOpts where
  "sample_opts = \<lparr>io_DelegationID = ''d'', io_CallerID = ''a'', io_CalleeID = ''b'',
     io_TaskPreview = ''task'', io_IdempotencyKey = [], io_Deadline = Some 100\<rparr>"

lemmas ledger_eval =
  Insert_def insert_delegation_def SetStatus_def write_status_def decide_status_def read_status_def
  move_row_def fill_row_def Let_def sample_opts_def ledger_status_def

theorem ledger_forward_only_witness:
  "\<exists>b. ledger_status (foldl l_do [] ([CInsert no_faults 0 sample_opts,
        CSet no_faults 1 ''d'' ''failed'' ''boom'' []] @ [CSet no_faults 2 ''d'' ''completed'' [] ''ok''])) ''d'' =
      Some b \<and> transition_ok\<^sup>*\<^sup>* ''failed'' b \<and> (d_terminal ''failed'' \<longrightarrow> b = ''failed'')"
  by (rule ledger_forward_only) (simp add: ledger_eval transition_ok_iff)

lemma fill_row_idem: "fill_row now' e p (fill_row now e p r) = fill_row now e p r"
  by (cases "d_error_detail r"; cases "d_result_preview r") (simp_all add: fill_row_def)

lemma fill_move_row: "fill_row now' e p (move_row now st e p r) = move_row now st e p r"
  by (simp add: fill_row_def move_row_def)

lemma refill_rows:
  "update_where (\<lambda>r. d_delegation_id r = i) (fill_row later e p)
      (update_where (\<lambda>r. d_delegation_id r = i) (fill_row now e p) t) =
    update_where (\<lambda>r. d_delegation_id r = i) (fill_row now e p) t"
  by (induction t) (simp_all add: fill_row_idem)

lemma fill_moved_rows:
  "update_where (\<lambda>r. d_delegation_id r = i) (fill_row later e p)
      (update_where (\<lambda>r. d_delegation_id r = i) (move_row now st e p) t) =
    update_where (\<lambda>r. d_delegation_id r = i) (move_row now st e p) t"
  by (induction t) (simp_all add: fill_move_row)

text \<open>A status update that succeeded can be repeated: the same call again, at any later time,
  succeeds and changes nothing, not even \<^verbatim>\<open>updated_at\<close>, so a duplicate completion notification
  is harmless.\<close>

theorem SetStatus_replay:
  assumes "SetStatus no_faults now t i st e p = (t1, Inr ())"
  shows "SetStatus no_faults later t1 i st e p = (t1, Inr ())"
proof -
  have ne: "i \<noteq> []" "st \<noteq> []" using assms by (auto simp: SetStatus_def split: if_splits)
  let ?d = "decide_status (read_status no_faults t i) st e p"
  have w: "write_status no_faults now t ?d i st e p = (t1, Inr ())"
    using assms ne by (simp add: SetStatus_def)
  show ?thesis
  proof (cases ?d)
    case (Return res)
    then have t1: "t1 = t" and d: "?d = Return (Inr ())" using w by (auto simp: write_status_def)
    with ne show ?thesis by (simp add: SetStatus_def write_status_def)
  next
    case Fill
    then have t1: "t1 = update_where (\<lambda>r. d_delegation_id r = i) (fill_row now e p) t"
      using w by (simp add: write_status_def)
    have "read_status no_faults t1 i = read_status no_faults t i"
      by (cases "select_first (\<lambda>r. d_delegation_id r = i) t")
        (simp_all add: t1 read_status_def select_key_update)
    with Fill ne show ?thesis
      by (simp add: SetStatus_def write_status_def t1 refill_rows)
  next
    case Move
    then obtain r where r: "select_first (\<lambda>r. d_delegation_id r = i) t = Some r"
      by (auto simp: decide_status_def read_status_def split: option.splits)
    have t1: "t1 = update_where (\<lambda>r. d_delegation_id r = i) (move_row now st e p) t"
      using w Move by (simp add: write_status_def)
    have "read_status no_faults t1 i = Inr (Some st)"
      by (simp add: t1 read_status_def select_key_update r)
    with ne show ?thesis
      by (simp add: SetStatus_def write_status_def decide_status_def t1 fill_moved_rows)
  qed
qed

theorem SetStatus_replay_witness:
  "let t1 = fst (SetStatus no_faults 5 (Insert no_faults 0 [] sample_opts) ''d'' ''failed'' ''boom'' []) in
     SetStatus no_faults 9 t1 ''d'' ''failed'' ''boom'' [] = (t1, Inr ())"
  unfolding Let_def
  by (rule SetStatus_replay [where now = 5 and t = "Insert no_faults 0 [] sample_opts"])
    (simp add: ledger_eval transition_ok_iff)

text \<open>Overlapping calls can revise a finished delegation. A sweep that has read \<^verbatim>\<open>in_progress\<close>, a
  completion that runs to the end meanwhile, and then the sweep's write: the write carries no
  status condition, so the delegation that was \<^verbatim>\<open>completed\<close> ends \<^verbatim>\<open>failed\<close> and its result preview
  is erased.\<close>

theorem SetStatus_race:
  assumes "select_first (\<lambda>r. d_delegation_id r = i) t = Some r" and "d_status r = ''in_progress''"
    and "i \<noteq> []" and "p \<noteq> []" and "int (length p) \<le> previewCap"
  shows "let decision = decide_status (read_status no_faults t i) ''failed'' detail [];
             t1 = fst (SetStatus no_faults now t i ''completed'' [] p);
             t2 = fst (write_status no_faults later t1 decision i ''failed'' detail [])
         in ledger_status t1 i = Some ''completed'' \<and>
            map_option d_result_preview (select_first (\<lambda>r. d_delegation_id r = i) t1) = Some (Some p) \<and>
            ledger_status t2 i = Some ''failed'' \<and>
            map_option d_result_preview (select_first (\<lambda>r. d_delegation_id r = i) t2) = Some None"
  using assms
  by (simp add: SetStatus_def read_status_def decide_status_def transition_ok_iff write_status_def
      ledger_status_def select_key_update move_row_def unmarked.trunc_fits Let_def)

definition sample_delegation :: "string \<Rightarrow> instant option \<Rightarrow> instant \<Rightarrow> d_row" where
  "sample_delegation st beat deadline =
     \<lparr>d_delegation_id = ''d'', d_caller_id = ''a'', d_callee_id = ''b'', d_task_preview = ''task'',
      d_status = st, d_last_heartbeat = beat, d_deadline = deadline, d_result_preview = None,
      d_error_detail = None, d_created_at = 0, d_updated_at = 0, d_idempotency_key = None\<rparr>"

theorem SetStatus_race_witness:
  "let t = [sample_delegation ''in_progress'' None 3];
       decision = decide_status (read_status no_faults t ''d'') ''failed'' ''late'' [];
       t1 = fst (SetStatus no_faults 4 t ''d'' ''completed'' [] ''ok'');
       t2 = fst (write_status no_faults 5 t1 decision ''d'' ''failed'' ''late'' [])
   in ledger_status t1 ''d'' = Some ''completed'' \<and> ledger_status t2 ''d'' = Some ''failed''"
  using SetStatus_race [of "''d''" "[sample_delegation ''in_progress'' None 3]"
      "sample_delegation ''in_progress'' None 3" "''ok''" "''late''" 4 5]
  by (simp add: sample_delegation_def previewCap_def Let_def)

text \<open>C9: the effect of a sweep that meets no database error, on any ledger that satisfies the
  invariant: every in-flight row past its deadline becomes \<^verbatim>\<open>failed\<close>; otherwise a row whose last
  heartbeat is older than the threshold becomes \<^verbatim>\<open>stuck\<close> exactly when it is \<^verbatim>\<open>in_progress\<close>, while a
  silent \<^verbatim>\<open>queued\<close> or \<^verbatim>\<open>dispatched\<close> row stays as it is and is reported as an error; all other rows
  are untouched, and the three counters count exactly these rows.\<close>

theorem Sweep_correct:
  assumes "l_inv t"
  shows "Sweep s calm_sweep now t =
    (map (\<lambda>r. if overdue now r then move_row now ''failed'' ''deadline exceeded by sweeper'' [] r
              else if silent s now r \<and> d_status r = ''in_progress''
              then move_row now ''stuck'' (silence_note now r) [] r
              else r) t,
     \<lparr>DeadlineFailures = count_where (overdue now) t,
      StuckMarked = count_where (\<lambda>r. silent s now r \<and> d_status r = ''in_progress'') t,
      Errors = count_where (\<lambda>r. silent s now r \<and> d_status r \<noteq> ''in_progress'') t\<rparr>)"
proof -
  have "distinct (map d_delegation_id ([] @ t))" "\<forall>r \<in> set t. d_delegation_id r \<noteq> []"
    using assms by (simp_all add: l_inv_def row_ok_def)
  from sweep_fold [OF this, of s now "\<lparr>DeadlineFailures = 0, StuckMarked = 0, Errors = 0\<rparr>"]
  show ?thesis
    by (simp add: Sweep_def Let_def calm_sweep_def swept_row_def [abs_def] add_swept_def)
qed

theorem Sweep_correct_witness:
  "snd (Sweep \<lparr>sw_interval = minute, sw_threshold = minute\<rparr> calm_sweep hour
     [sample_delegation ''dispatched'' (Some 0) (2 * hour)]) =
   \<lparr>DeadlineFailures = 0, StuckMarked = 0, Errors = 1\<rparr>"
proof -
  have "l_inv [sample_delegation ''dispatched'' (Some 0) (2 * hour)]"
    by (simp add: l_inv_def row_ok_def lifecycle_def inflight_status_def sample_delegation_def previewCap_def)
  from Sweep_correct [OF this, of "\<lparr>sw_interval = minute, sw_threshold = minute\<rparr>" hour]
  show ?thesis
    by (simp add: overdue_def silent_def inflight_status_def sample_delegation_def duration_defs)
qed

text \<open>The configured durations. A positive decimal number of seconds up to 9223372036 gives exactly
  that duration, and everything that does not parse gives the default; but the next number up
  already overflows the nanosecond count, the interval becomes negative, and \<^verbatim>\<open>Start\<close> dies in
  \<^verbatim>\<open>time.NewTicker\<close> before its panic recovery is in place.\<close>

theorem envDuration_range:
  "(\<forall>n. getenv key = show_nat n \<and> 0 < n \<and> n \<le> 9223372036 \<longrightarrow>
        envDuration getenv key dflt = int n * second) \<and>
   (Atoi (getenv key) = None \<longrightarrow> envDuration getenv key dflt = dflt) \<and>
   (getenv ''DELEGATION_SWEEPER_INTERVAL_S'' = ''9223372037'' \<longrightarrow>
        Start (NewDelegationSweeper getenv) env now evs t = None)"
proof (intro conjI allI impI)
  fix n assume n: "getenv key = show_nat n \<and> 0 < n \<and> n \<le> 9223372036"
  have ne: "show_nat n \<noteq> []" by (simp add: show_nat.simps [of n])
  have "Atoi (show_nat n) = Some (int n)"
    by (rule Atoi_show_nat) (use n in \<open>simp add: in_int64_def\<close>)
  with n ne show "envDuration getenv key dflt = int n * second"
    by (simp add: envDuration_def Let_def in_int64_def second_def)
next
  assume "Atoi (getenv key) = None"
  then show "envDuration getenv key dflt = dflt" by (simp add: envDuration_def Let_def)
next
  assume v: "getenv ''DELEGATION_SWEEPER_INTERVAL_S'' = ''9223372037''"
  have "Atoi ''9223372037'' = Some 9223372037"
    by (simp add: Atoi_def parse_unsigned_def digit_val_def in_int64_def)
  with v show "Start (NewDelegationSweeper getenv) env now evs t = None"
    by (simp add: Start_def NewDelegationSweeper_def envDuration_def wrap64_def second_def)
qed

theorem envDuration_range_witness:
  "envDuration (\<lambda>_. ''90'') ''DELEGATION_STUCK_THRESHOLD_S'' minute = 90 * second \<and>
   Start (NewDelegationSweeper (\<lambda>_. ''9223372037'')) calm_sweep 0 [] [] = None"
proof -
  have "show_nat 90 = ''90''" by code_simp
  moreover have "\<forall>n. (\<lambda>_. ''90'') ''x'' = show_nat n \<and> 0 < n \<and> n \<le> 9223372036 \<longrightarrow>
      envDuration (\<lambda>_. ''90'') ''DELEGATION_STUCK_THRESHOLD_S'' minute = int n * second"
    by (rule conjunct1 [OF envDuration_range])
  ultimately have "envDuration (\<lambda>_. ''90'') ''DELEGATION_STUCK_THRESHOLD_S'' minute = int 90 * second"
    by (elim allE [of _ 90]) simp
  moreover have "Start (NewDelegationSweeper (\<lambda>_. ''9223372037'')) calm_sweep 0 [] [] = None"
    by (rule envDuration_range [THEN conjunct2, THEN conjunct2, rule_format]) simp
  ultimately show ?thesis by simp
qed

end
