(* ===== verification/A2A_Queue.thy ===== *)
theory A2A_Queue
  imports Text_Util Workspace_Tree Go_Std
begin

text \<open>
  \<^verbatim>\<open>internal/handlers/a2a_queue.go\<close>: the durable queue of A2A requests whose target was busy,
  with the helpers it takes from \<^verbatim>\<open>a2a_proxy.go\<close> and \<^verbatim>\<open>a2a_proxy_helpers.go\<close>. The table
  \<^verbatim>\<open>a2a_queue\<close> is a list of rows; every SQL statement is one definition on it, and a statement
  fault leaves it unchanged. The dispatch through the proxy, and the JSON readers of message
  bodies, are parameters of the drain.
\<close>

section \<open>Data\<close>

definition PriorityCritical :: int where "PriorityCritical = 100"
definition PriorityTask :: int where "PriorityTask = 50"
definition PriorityInfo :: int where "PriorityInfo = 10"

definition a2aQueueSweeperBatchCap :: int where "a2aQueueSweeperBatchCap = 8"

definition transientRetryBackoffSecs :: int where "transientRetryBackoffSecs = 5"

definition maxAttempts :: int where "maxAttempts = 5"

datatype q_status = Q_queued | Q_dispatched | Q_completed | Q_dropped | Q_failed

record q_row =
  q_id :: uuid
  q_workspace_id :: uuid
  q_caller_id :: "string option"
  q_priority :: int
  q_body :: string
  q_method :: "string option"
  q_idempotency_key :: "string option"
  q_enqueued_at :: instant
  q_dispatched_at :: "instant option"
  q_completed_at :: "instant option"
  q_expires_at :: "instant option"
  q_attempts :: int
  q_status :: q_status
  q_last_error :: "string option"
  q_next_attempt_at :: "instant option"
  q_response_body :: "string option"

type_synonym a2a_queue = "q_row list"

record QueuedItem =
  qi_ID :: uuid
  qi_WorkspaceID :: uuid
  qi_CallerID :: "string option"
  qi_Priority :: int
  qi_Body :: string
  qi_Method :: "string option"
  qi_Attempts :: int

datatype q_error = ErrDB | ErrNoRows

definition q_active :: "q_row \<Rightarrow> bool" where
  "q_active r \<longleftrightarrow> q_status r = Q_queued \<or> q_status r = Q_dispatched"

section \<open>EnqueueA2A\<close>

definition systemCallerPrefixes :: "string list" where
  "systemCallerPrefixes = [''webhook:'', ''system:'', ''test:'', ''channel:'']"

definition isSystemCaller :: "string \<Rightarrow> bool" where
  "isSystemCaller callerID = list_ex (\<lambda>p. has_prefix p callerID) systemCallerPrefixes"

text \<open>The row of \<^verbatim>\<open>(workspace_id, idempotency_key)\<close> in the partial unique index.\<close>

definition same_key :: "uuid \<Rightarrow> string \<Rightarrow> q_row \<Rightarrow> bool" where
  "same_key ws key r \<longleftrightarrow> q_workspace_id r = ws \<and> q_idempotency_key r = Some key"

definition superseded_reason :: string where
  "superseded_reason = ''superseded: expired before drain; replaced by a fresh enqueue''"

definition supersede_expired :: "instant \<Rightarrow> uuid \<Rightarrow> string \<Rightarrow> a2a_queue \<Rightarrow> a2a_queue" where
  "supersede_expired now ws key =
     update_where
       (\<lambda>r. same_key ws key r \<and> q_status r = Q_queued \<and>
            (case q_expires_at r of None \<Rightarrow> False | Some e \<Rightarrow> e \<le> now))
       (\<lambda>r. r\<lparr>q_status := Q_dropped, q_last_error := Some superseded_reason\<rparr>)"

definition fresh_row ::
  "instant \<Rightarrow> uuid \<Rightarrow> uuid \<Rightarrow> string option \<Rightarrow> int \<Rightarrow> string \<Rightarrow> string option \<Rightarrow> string option \<Rightarrow>
   instant option \<Rightarrow> q_row" where
  "fresh_row now newid ws caller priority body method key expiresAt =
     \<lparr>q_id = newid, q_workspace_id = ws, q_caller_id = caller, q_priority = priority,
      q_body = body, q_method = method, q_idempotency_key = key, q_enqueued_at = now,
      q_dispatched_at = None, q_completed_at = None, q_expires_at = expiresAt, q_attempts = 0,
      q_status = Q_queued, q_last_error = None, q_next_attempt_at = None,
      q_response_body = None\<rparr>"

text \<open>\<^verbatim>\<open>INSERT ... ON CONFLICT ... DO NOTHING RETURNING id\<close>: \<^term>\<open>None\<close> when the index has the key.\<close>

definition insert_row :: "a2a_queue \<Rightarrow> q_row \<Rightarrow> a2a_queue \<times> uuid option" where
  "insert_row q r =
     (case q_idempotency_key r of
        None \<Rightarrow> (q @ [r], Some (q_id r))
      | Some key \<Rightarrow>
          if list_ex (\<lambda>s. same_key (q_workspace_id r) key s \<and> q_active s) q
          then (q, None) else (q @ [r], Some (q_id r)))"

definition queue_depth :: "a2a_queue \<Rightarrow> uuid \<Rightarrow> nat" where
  "queue_depth q ws = count_where (\<lambda>r. q_workspace_id r = ws \<and> q_status r = Q_queued) q"

definition EnqueueA2A ::
  "faults \<Rightarrow> instant \<Rightarrow> uuid \<Rightarrow> a2a_queue \<Rightarrow> uuid \<Rightarrow> string \<Rightarrow> int \<Rightarrow> string \<Rightarrow> string \<Rightarrow> string \<Rightarrow>
   instant option \<Rightarrow> a2a_queue \<times> (q_error + uuid \<times> nat)" where
  "EnqueueA2A flt now newid q workspaceID callerID priority body method idempotencyKey expiresAt =
     (let keyArg = nullif_empty idempotencyKey;
          callerArg = (if callerID \<noteq> [] \<and> \<not> isSystemCaller callerID then Some callerID else None);
          methodArg = nullif_empty method;
          q1 = (if idempotencyKey \<noteq> [] \<and> \<not> flt 0
                then supersede_expired now workspaceID idempotencyKey q else q);
          row = fresh_row now newid workspaceID callerArg priority body methodArg keyArg expiresAt
      in if flt 1 then (q1, Inl ErrDB)
         else case insert_row q1 row of (q2, res) \<Rightarrow>
           (let found =
              (case res of
                 Some i \<Rightarrow> Inr i
               | None \<Rightarrow>
                   if idempotencyKey = [] then Inl ErrNoRows
                   else if flt 2 then Inl ErrDB
                   else case select_first (\<lambda>r. same_key workspaceID idempotencyKey r \<and> q_active r) q2 of
                          None \<Rightarrow> Inl ErrNoRows | Some r \<Rightarrow> Inr (q_id r))
            in case found of
                 Inl e \<Rightarrow> (q2, Inl e)
               | Inr i \<Rightarrow> (q2, Inr (i, if flt 3 then 0 else queue_depth q2 workspaceID))))"

section \<open>DequeueNext\<close>

definition eligible :: "instant \<Rightarrow> uuid \<Rightarrow> q_row \<Rightarrow> bool" where
  "eligible now ws r \<longleftrightarrow> q_workspace_id r = ws \<and> q_status r = Q_queued \<and>
     (case q_expires_at r of None \<Rightarrow> True | Some e \<Rightarrow> now < e) \<and>
     (case q_next_attempt_at r of None \<Rightarrow> True | Some t \<Rightarrow> t \<le> now)"

text \<open>\<^verbatim>\<open>ORDER BY priority DESC, enqueued_at ASC LIMIT 1\<close>\<close>

definition q_before :: "q_row \<Rightarrow> q_row \<Rightarrow> bool" where
  "q_before r s \<longleftrightarrow> q_priority s < q_priority r \<or>
     (q_priority r = q_priority s \<and> q_enqueued_at r < q_enqueued_at s)"

fun pick_next :: "q_row list \<Rightarrow> q_row option" where
  "pick_next [] = None"
| "pick_next (r # rs) =
     (case pick_next rs of None \<Rightarrow> Some r | Some s \<Rightarrow> if q_before s r then Some s else Some r)"

definition queued_item :: "q_row \<Rightarrow> QueuedItem" where
  "queued_item r =
     \<lparr>qi_ID = q_id r, qi_WorkspaceID = q_workspace_id r, qi_CallerID = q_caller_id r,
      qi_Priority = q_priority r, qi_Body = q_body r, qi_Method = q_method r,
      qi_Attempts = q_attempts r\<rparr>"

definition mark_dispatched :: "instant \<Rightarrow> uuid \<Rightarrow> a2a_queue \<Rightarrow> a2a_queue" where
  "mark_dispatched now i =
     update_where (\<lambda>r. q_id r = i)
       (\<lambda>r. r\<lparr>q_status := Q_dispatched, q_dispatched_at := Some now,
             q_attempts := q_attempts r + 1\<rparr>)"

text \<open>
  One transaction: begin, select, update, commit are its statements 0 to 3. \<open>locked\<close> are the
  rows held by other transactions, which \<^verbatim>\<open>FOR UPDATE SKIP LOCKED\<close> passes over.
\<close>

definition DequeueNext ::
  "faults \<Rightarrow> instant \<Rightarrow> (uuid \<Rightarrow> bool) \<Rightarrow> a2a_queue \<Rightarrow> uuid \<Rightarrow>
   a2a_queue \<times> (q_error + QueuedItem option)" where
  "DequeueNext flt now locked q workspaceID =
     (if flt 0 then (q, Inl ErrDB)
      else if flt 1 then (q, Inl ErrDB)
      else case pick_next (filter (\<lambda>r. eligible now workspaceID r \<and> \<not> locked (q_id r)) q) of
             None \<Rightarrow> (q, Inr None)
           | Some r \<Rightarrow>
               if flt 2 then (q, Inl ErrDB)
               else if flt 3 then (q, Inl ErrDB)
               else (mark_dispatched now (q_id r) q, Inr (Some (queued_item r))))"

section \<open>Settling a claimed item\<close>

definition MarkQueueItemCompleted ::
  "faults \<Rightarrow> instant \<Rightarrow> a2a_queue \<Rightarrow> uuid \<Rightarrow> string \<Rightarrow> a2a_queue" where
  "MarkQueueItemCompleted flt now q i responseBody =
     (if flt 0 then q
      else update_where (\<lambda>r. q_id r = i)
             (\<lambda>r. r\<lparr>q_status := Q_completed, q_completed_at := Some now,
                   q_response_body := nullif_empty responseBody\<rparr>) q)"

definition MarkQueueItemFailed :: "faults \<Rightarrow> a2a_queue \<Rightarrow> uuid \<Rightarrow> string \<Rightarrow> a2a_queue" where
  "MarkQueueItemFailed flt q i errMsg =
     (if flt 0 then q
      else update_where (\<lambda>r. q_id r = i)
             (\<lambda>r. r\<lparr>q_status := (if maxAttempts \<le> q_attempts r then Q_failed else Q_queued),
                   q_last_error := Some errMsg, q_dispatched_at := None\<rparr>) q)"

definition MarkQueueItemTransientRetry ::
  "faults \<Rightarrow> instant \<Rightarrow> a2a_queue \<Rightarrow> uuid \<Rightarrow> string \<Rightarrow> a2a_queue" where
  "MarkQueueItemTransientRetry flt now q i errMsg =
     (if flt 0 then q
      else update_where (\<lambda>r. q_id r = i)
             (\<lambda>r. r\<lparr>q_status := Q_queued, q_attempts := max (q_attempts r - 1) 0,
                   q_last_error := Some errMsg, q_dispatched_at := None,
                   q_next_attempt_at := Some (now + transientRetryBackoffSecs * second)\<rparr>) q)"

section \<open>DropStaleQueueItems\<close>

definition stale :: "instant \<Rightarrow> string \<Rightarrow> int \<Rightarrow> q_row \<Rightarrow> bool" where
  "stale now workspaceID maxAgeMinutes r \<longleftrightarrow>
     (workspaceID \<noteq> [] \<longrightarrow> q_workspace_id r = workspaceID) \<and> q_status r = Q_queued \<and>
     q_enqueued_at r < now - minute * maxAgeMinutes"

text \<open>
  \<open>nowText\<close> is \<^verbatim>\<open>now()::text\<close>. The reason is appended with \<^verbatim>\<open>||\<close>, which is NULL when
  \<^verbatim>\<open>last_error\<close> is.
\<close>

definition drop_reason :: "string \<Rightarrow> string" where
  "drop_reason nowText =
     CHR 0x0A # ''[DropStaleQueueItems] auto-dropped: queue item age exceeded the post-incident TTL. ''
     @ ''Dropped at '' @ nowText"

definition DropStaleQueueItems ::
  "faults \<Rightarrow> instant \<Rightarrow> string \<Rightarrow> (uuid \<Rightarrow> bool) \<Rightarrow> a2a_queue \<Rightarrow> string \<Rightarrow> int \<Rightarrow>
   a2a_queue \<times> (q_error + nat)" where
  "DropStaleQueueItems flt now nowText locked q workspaceID maxAgeMinutes =
     (let P = (\<lambda>r. stale now workspaceID maxAgeMinutes r \<and> \<not> locked (q_id r))
      in if flt 0 then (q, Inl ErrDB)
         else (update_where P
                 (\<lambda>r. r\<lparr>q_status := Q_dropped,
                       q_last_error := sql_concat (q_last_error r) (Some (drop_reason nowText))\<rparr>) q,
               Inr (count_where P q)))"

section \<open>DrainQueueForWorkspace\<close>

text \<open>
  The error value of the proxy: \<open>pe_error\<close> is the \<^verbatim>\<open>error\<close> member of its response when that is
  a string.
\<close>

record proxyA2AError =
  pe_Status :: int
  pe_error :: "string option"
  pe_Classification :: string

text \<open>Go's \<^verbatim>\<open>http.StatusText\<close>.\<close>

definition http_status_texts :: "(int \<times> string) list" where
  "http_status_texts =
     [(100, ''Continue''),
      (101, ''Switching Protocols''),
      (102, ''Processing''),
      (103, ''Early Hints''),
      (200, ''OK''),
      (201, ''Created''),
      (202, ''Accepted''),
      (203, ''Non-Authoritative Information''),
      (204, ''No Content''),
      (205, ''Reset Content''),
      (206, ''Partial Content''),
      (207, ''Multi-Status''),
      (208, ''Already Reported''),
      (226, ''IM Used''),
      (300, ''Multiple Choices''),
      (301, ''Moved Permanently''),
      (302, ''Found''),
      (303, ''See Other''),
      (304, ''Not Modified''),
      (305, ''Use Proxy''),
      (307, ''Temporary Redirect''),
      (308, ''Permanent Redirect''),
      (400, ''Bad Request''),
      (401, ''Unauthorized''),
      (402, ''Payment Required''),
      (403, ''Forbidden''),
      (404, ''Not Found''),
      (405, ''Method Not Allowed''),
      (406, ''Not Acceptable''),
      (407, ''Proxy Authentication Required''),
      (408, ''Request Timeout''),
      (409, ''Conflict''),
      (410, ''Gone''),
      (411, ''Length Required''),
      (412, ''Precondition Failed''),
      (413, ''Request Entity Too Large''),
      (414, ''Request URI Too Long''),
      (415, ''Unsupported Media Type''),
      (416, ''Requested Range Not Satisfiable''),
      (417, ''Expectation Failed''),
      (418, ''I'm a teapot''),
      (421, ''Misdirected Request''),
      (422, ''Unprocessable Entity''),
      (423, ''Locked''),
      (424, ''Failed Dependency''),
      (425, ''Too Early''),
      (426, ''Upgrade Required''),
      (428, ''Precondition Required''),
      (429, ''Too Many Requests''),
      (431, ''Request Header Fields Too Large''),
      (451, ''Unavailable For Legal Reasons''),
      (500, ''Internal Server Error''),
      (501, ''Not Implemented''),
      (502, ''Bad Gateway''),
      (503, ''Service Unavailable''),
      (504, ''Gateway Timeout''),
      (505, ''HTTP Version Not Supported''),
      (506, ''Variant Also Negotiates''),
      (507, ''Insufficient Storage''),
      (508, ''Loop Detected''),
      (510, ''Not Extended''),
      (511, ''Network Authentication Required'')]"

definition StatusText :: "int \<Rightarrow> string" where
  "StatusText code = (case map_of http_status_texts code of None \<Rightarrow> [] | Some t \<Rightarrow> t)"

definition isUpstreamDeadStatus :: "int \<Rightarrow> bool" where
  "isUpstreamDeadStatus status = List.member [502, 503, 504, 521, 522, 523, 524] status"

definition isGatewayOriginFailure :: "proxyA2AError option \<Rightarrow> bool" where
  "isGatewayOriginFailure proxyErr =
     (case proxyErr of
        None \<Rightarrow> False
      | Some e \<Rightarrow>
          if pe_Classification e = ''upstream_dead'' then False
          else isUpstreamDeadStatus (pe_Status e))"

definition recentHeartbeatWindow :: duration where
  "recentHeartbeatWindow = 15 * second"

text \<open>\<open>lastHB\<close>: the outcome of the lookup, \<^term>\<open>None\<close> for an error, \<^term>\<open>Some None\<close> for NULL.\<close>

definition hasRecentHeartbeat :: "instant \<Rightarrow> instant option option \<Rightarrow> bool" where
  "hasRecentHeartbeat now lastHB =
     (case lastHB of
        None \<Rightarrow> False
      | Some None \<Rightarrow> False
      | Some (Some t) \<Rightarrow> now - t \<le> recentHeartbeatWindow)"

definition classificationOrUnknown :: "string \<Rightarrow> string" where
  "classificationOrUnknown c = (if c = [] then ''unknown'' else c)"

definition drain_error_message :: "proxyA2AError \<Rightarrow> string" where
  "drain_error_message e =
     (let errMsg = (case pe_error e of None \<Rightarrow> [] | Some s \<Rightarrow> s)
      in if errMsg = [] then
           (if StatusText (pe_Status e) = [] then ''unknown drain dispatch error''
            else StatusText (pe_Status e))
         else errMsg)"

definition transient_message :: "proxyA2AError \<Rightarrow> string" where
  "transient_message e =
     ''transient gateway origin ('' @ classificationOrUnknown (pe_Classification e) @ '', status='' @
     show_int (pe_Status e) @ ''): '' @ drain_error_message e"

text \<open>
  The part of \<^verbatim>\<open>activity_logs\<close> the stitch reads and writes, and the \<^verbatim>\<open>DELEGATION_COMPLETE\<close> event it
  records (the constant \<^verbatim>\<open>via\<close> member apart).
\<close>

record act_row =
  act_workspace_id :: uuid
  act_method :: string
  act_target_id :: "uuid option"
  act_status :: string
  act_summary :: "string option"
  act_response_body :: "json option"

record delegation_complete_event =
  ev_source_id :: uuid
  ev_delegation_id :: string
  ev_target_id :: uuid
  ev_response_preview :: string

record drain_state =
  ds_queue :: a2a_queue
  ds_activity :: "act_row list"
  ds_events :: "delegation_complete_event list"

text \<open>
  Readers of message bodies and the broadcaster of the handler: \<open>cfg_delegation_id\<close> is
  \<^verbatim>\<open>extractDelegationIDFromBody\<close>, \<open>cfg_response_text\<close> is \<^verbatim>\<open>extractResponseText\<close>.
\<close>

record drain_config =
  cfg_delegation_id :: "string \<Rightarrow> string"
  cfg_response_text :: "string \<Rightarrow> string"
  cfg_has_broadcaster :: bool

definition stitchDrainResponseToDelegation ::
  "drain_config \<Rightarrow> faults \<Rightarrow> drain_state \<Rightarrow> uuid \<Rightarrow> uuid \<Rightarrow> string \<Rightarrow> string \<Rightarrow> drain_state" where
  "stitchDrainResponseToDelegation cfg flt s sourceID targetID delegationID respBody =
     (if sourceID = [] \<or> delegationID = [] then s
      else
        let responseText = cfg_response_text cfg respBody;
            respJSON = JObj [(''delegation_id'', JStr delegationID), (''text'', JStr responseText)];
            P = (\<lambda>a. act_workspace_id a = sourceID \<and> act_method a = ''delegate_result'' \<and>
                      act_target_id a = Some targetID \<and>
                      json_text (act_response_body a) ''delegation_id'' = Some delegationID)
        in if flt 0 then s
           else
             let s' = s\<lparr>ds_activity :=
                   update_where P
                     (\<lambda>a. a\<lparr>act_status := ''completed'',
                           act_summary := Some (''Delegation completed ('' @
                             TruncateBytes responseText 80 @ '')''),
                           act_response_body := Some respJSON\<rparr>) (ds_activity s)\<rparr>
             in if flt 1 then s'
                else if count_where P (ds_activity s) = 0 then s'
                else if cfg_has_broadcaster cfg \<and> \<not> flt 2 then
                  s'\<lparr>ds_events := ds_events s' @
                     [\<lparr>ev_source_id = sourceID, ev_delegation_id = delegationID,
                       ev_target_id = targetID,
                       ev_response_preview = TruncateBytes responseText 200\<rparr>]\<rparr>
                else s')"

text \<open>
  What one iteration of the drain meets: the clock, the rows other transactions hold, the
  statement faults, the answer of the last-heartbeat lookup, and the proxy, which may itself
  change the queue (a busy target is queued again) and returns a status, a body and possibly
  an error.
\<close>

record drain_env =
  env_now :: instant
  env_locked :: "uuid \<Rightarrow> bool"
  env_deq :: faults
  env_mark :: faults
  env_stitch :: faults
  env_lastHB :: "instant option option"
  env_proxy :: "a2a_queue \<Rightarrow> QueuedItem \<Rightarrow> string \<Rightarrow> a2a_queue \<times> int \<times> string \<times> proxyA2AError option"

definition drain_step ::
  "drain_config \<Rightarrow> drain_env \<Rightarrow> uuid \<Rightarrow> drain_state \<Rightarrow> drain_state \<times> bool" where
  "drain_step cfg env workspaceID s =
     (case DequeueNext (env_deq env) (env_now env) (env_locked env) (ds_queue s) workspaceID of
        (q, Inl e) \<Rightarrow> (s\<lparr>ds_queue := q\<rparr>, False)
      | (q, Inr None) \<Rightarrow> (s\<lparr>ds_queue := q\<rparr>, False)
      | (q, Inr (Some item)) \<Rightarrow>
          (let callerID = (case qi_CallerID item of None \<Rightarrow> [] | Some c \<Rightarrow> c)
           in case env_proxy env q item callerID of (q', status, respBody, proxyErr) \<Rightarrow>
             if status = 202 then
               (s\<lparr>ds_queue := MarkQueueItemCompleted (env_mark env) (env_now env) q' (qi_ID item) []\<rparr>, True)
             else case proxyErr of
               Some e \<Rightarrow>
                 if isGatewayOriginFailure proxyErr \<and> hasRecentHeartbeat (env_now env) (env_lastHB env)
                 then (s\<lparr>ds_queue := MarkQueueItemTransientRetry (env_mark env) (env_now env) q'
                           (qi_ID item) (transient_message e)\<rparr>, True)
                 else (s\<lparr>ds_queue := MarkQueueItemFailed (env_mark env) q' (qi_ID item)
                           (drain_error_message e)\<rparr>, True)
             | None \<Rightarrow>
                 (let s1 = s\<lparr>ds_queue :=
                        MarkQueueItemCompleted (env_mark env) (env_now env) q' (qi_ID item) respBody\<rparr>;
                      delegationID = cfg_delegation_id cfg (qi_Body item)
                  in if delegationID \<noteq> [] then
                       (stitchDrainResponseToDelegation cfg (env_stitch env) s1 callerID
                          (qi_WorkspaceID item) delegationID respBody, True)
                     else (s1, True))))"

fun drain_loop ::
  "drain_config \<Rightarrow> (nat \<Rightarrow> drain_env) \<Rightarrow> uuid \<Rightarrow> nat \<Rightarrow> nat \<Rightarrow> drain_state \<Rightarrow> drain_state" where
  "drain_loop cfg env ws 0 i s = s"
| "drain_loop cfg env ws (Suc n) i s =
     (case drain_step cfg (env i) ws s of
        (s', True) \<Rightarrow> drain_loop cfg env ws n (Suc i) s'
      | (s', False) \<Rightarrow> s')"

definition DrainQueueForWorkspace ::
  "drain_config \<Rightarrow> (nat \<Rightarrow> drain_env) \<Rightarrow> uuid \<Rightarrow> int \<Rightarrow> drain_state \<Rightarrow> drain_state" where
  "DrainQueueForWorkspace cfg env workspaceID capacity s =
     (if capacity \<le> 0 then s else drain_loop cfg env workspaceID (nat capacity) 0 s)"

text \<open>
  The busy branch of \<^verbatim>\<open>handleA2ADispatchError\<close>, which the proxy takes when the target is alive but
  mid-turn: queue the request under the message id found in its body and answer 202, or
  answer 503 when the queue is unavailable (the drain calls it with \<^verbatim>\<open>logActivity\<close> off). \<open>key_of\<close> and \<open>ttl_of\<close> are \<^verbatim>\<open>extractIdempotencyKey\<close> and
  \<^verbatim>\<open>extractExpiresInSeconds\<close>; \<open>marshal\<close> renders the response object.
\<close>

definition handleA2ADispatchError_busy ::
  "(string \<Rightarrow> string) \<Rightarrow> (string \<Rightarrow> int) \<Rightarrow> (json \<Rightarrow> string) \<Rightarrow> faults \<Rightarrow> instant \<Rightarrow> uuid \<Rightarrow> string \<Rightarrow>
   uuid \<Rightarrow> string \<Rightarrow> string \<Rightarrow> a2a_queue \<Rightarrow> a2a_queue \<times> int \<times> string \<times> proxyA2AError option" where
  "handleA2ADispatchError_busy key_of ttl_of marshal flt now newid a2aMethod workspaceID callerID body q =
     (let idempotencyKey = key_of body;
          secs = ttl_of body;
          expiresAt = (if 0 < secs then Some (now + wrap64 (secs * second)) else None)
      in case EnqueueA2A flt now newid q workspaceID callerID PriorityTask body a2aMethod
                idempotencyKey expiresAt of
           (q', Inr (qid, depth)) \<Rightarrow>
             (q', 202,
              marshal (JObj [(''message'', JStr (''workspace agent busy '' @ [CHR 0xE2, CHR 0x80, CHR 0x94] @
                               '' request queued, will dispatch when capacity available'')),
                             (''queue_depth'', JNum (int depth)),
                             (''queue_id'', JStr qid),
                             (''queued'', JBool True)]),
              None)
         | (q', Inl e) \<Rightarrow>
             (q', 0, [],
              Some \<lparr>pe_Status = 503,
                    pe_error = Some (''workspace agent busy '' @ [CHR 0xE2, CHR 0x80, CHR 0x94] @
                                      '' retry after a short backoff''),
                    pe_Classification = ''busy_retryable''\<rparr>))"

section \<open>The sweeper\<close>

definition online_or_degraded :: "ws_row \<Rightarrow> bool" where
  "online_or_degraded w \<longleftrightarrow> ws_status w = ''online'' \<or> ws_status w = ''degraded''"

definition pending :: "instant \<Rightarrow> q_row \<Rightarrow> bool" where
  "pending now r \<longleftrightarrow> q_status r = Q_queued \<and>
     (case q_expires_at r of None \<Rightarrow> True | Some e \<Rightarrow> now < e)"

text \<open>The scan of \<^verbatim>\<open>sweepA2AQueue\<close>: one entry per reachable workspace with pending rows.\<close>

definition sweep_rows :: "instant \<Rightarrow> ws_table \<Rightarrow> a2a_queue \<Rightarrow> (uuid \<times> int) list" where
  "sweep_rows now wst q =
     map (\<lambda>w. (w, case wst w of
                     Some r \<Rightarrow> (case ws_max_concurrent_tasks r of None \<Rightarrow> 1 | Some n \<Rightarrow> n)
                   | None \<Rightarrow> 1))
       (remdups (map q_workspace_id
          (filter (\<lambda>r. pending now r \<and>
                        (case wst (q_workspace_id r) of None \<Rightarrow> False | Some w \<Rightarrow> online_or_degraded w)) q)))"

definition sweep_capacity :: "int \<Rightarrow> int" where
  "sweep_capacity capacity =
     (if a2aQueueSweeperBatchCap < capacity then a2aQueueSweeperBatchCap else capacity)"

text \<open>
  The drains of one tick run in goroutines, one per workspace; here they run one after the
  other. \<open>scan_err\<close> says which rows of the scan fail (they are skipped), \<open>rows_err\<close> after how many
  rows the iteration breaks off.
\<close>

definition sweepA2AQueue ::
  "drain_config \<Rightarrow> faults \<Rightarrow> (uuid \<Rightarrow> bool) \<Rightarrow> nat option \<Rightarrow> instant \<Rightarrow> ws_table \<Rightarrow>
   (uuid \<Rightarrow> nat \<Rightarrow> drain_env) \<Rightarrow> drain_state \<Rightarrow> drain_state" where
  "sweepA2AQueue cfg flt scan_err rows_err now wst env s =
     (if flt 0 then s
      else
        let scanned = sweep_rows now wst (ds_queue s);
            delivered = (case rows_err of None \<Rightarrow> scanned | Some n \<Rightarrow> take n scanned)
        in foldl (\<lambda>s (w, capacity).
             let cap = sweep_capacity capacity
             in if scan_err w \<or> cap \<le> 0 then s else DrainQueueForWorkspace cfg (env w) w cap s)
             s delivered)"

definition CountStrandedQueueItems :: "faults \<Rightarrow> instant \<Rightarrow> ws_table \<Rightarrow> a2a_queue \<Rightarrow> q_error + nat" where
  "CountStrandedQueueItems flt now wst q =
     (if flt 0 then Inl ErrDB
      else Inr (count_where (\<lambda>r. pending now r \<and>
             (case wst (q_workspace_id r) of None \<Rightarrow> False | Some w \<Rightarrow> \<not> online_or_degraded w)) q))"

end
