(* ===== verification/Request_Store.thy ===== *)
theory Request_Store
  imports A2A_Queue
begin

text \<open>
  \<^verbatim>\<open>internal/handlers/request_store.go\<close>: the store behind the tasks and approvals inbox. Its state
  is the tables \<^verbatim>\<open>requests\<close> and \<^verbatim>\<open>request_messages\<close>, the recorded events, and the queue it notifies
  requester agents through. The queue type is left open: the store reaches it only through the
  injected \<^verbatim>\<open>requestNotifyEnqueue\<close>, whose contract is the locale of \<^verbatim>\<open>Request_Props\<close>.
\<close>

section \<open>Data\<close>

record RequestRow =
  r_id :: uuid
  r_kind :: string
  r_requester_type :: string
  r_requester_id :: string
  r_org_id :: "string option"
  r_recipient_type :: string
  r_recipient_id :: string
  r_title :: string
  r_detail :: "string option"
  r_status :: string
  r_responder_type :: "string option"
  r_responder_id :: "string option"
  r_priority :: "int option"
  r_created_at :: instant
  r_updated_at :: instant
  r_responded_at :: "instant option"
  r_last_nudged_at :: "instant option"

record RequestMessageRow =
  m_id :: uuid
  m_request_id :: uuid
  m_author_type :: string
  m_author_id :: string
  m_body :: string
  m_created_at :: instant

record CreateRequestInput =
  in_Kind :: string
  in_RequesterType :: string
  in_RequesterID :: string
  in_OrgID :: string
  in_RecipientType :: string
  in_RecipientID :: string
  in_Title :: string
  in_Detail :: string
  in_Priority :: "int option"

datatype req_error =
    ErrRequestNotFound
  | ErrInvalidRequestAction
  | ErrInvalidRequestKind
  | ErrInvalidRequestParty
  | ErrSelfResponse
  | ErrRequestDB

record req_event =
  ev_type :: string
  ev_workspace :: uuid
  ev_payload :: json

record 'q req_state =
  rs_requests :: "RequestRow list"
  rs_messages :: "RequestMessageRow list"
  rs_events :: "req_event list"
  rs_queue :: 'q

text \<open>The signature of \<^verbatim>\<open>enqueueFunc\<close>: target, caller, priority, body, method, key, expiry.\<close>

type_synonym 'q enqueueFunc =
  "'q \<Rightarrow> uuid \<Rightarrow> string \<Rightarrow> int \<Rightarrow> string \<Rightarrow> string \<Rightarrow> string \<Rightarrow> instant option \<Rightarrow>
   'q \<times> (q_error + uuid \<times> nat)"

text \<open>
  What a call meets: statement faults, the clock, the id the database generates, the fresh
  \<^verbatim>\<open>uuid.New()\<close>, the enqueue function, and the renderers \<^verbatim>\<open>json.Marshal\<close> (total on the maps built
  here) and \<^verbatim>\<open>%q\<close>.
\<close>

record 'q req_env =
  re_flt :: faults
  re_now :: instant
  re_newid :: uuid
  re_nonce :: string
  re_enqueue :: "'q enqueueFunc"
  re_marshal :: "json \<Rightarrow> string"
  re_quote :: "string \<Rightarrow> string"

definition req_open :: "string \<Rightarrow> bool" where
  "req_open st \<longleftrightarrow> st = ''pending'' \<or> st = ''info_requested''"

definition validParty :: "string \<Rightarrow> bool" where
  "validParty t \<longleftrightarrow> t = ''user'' \<or> t = ''agent''"

definition broadcastTarget :: "string \<Rightarrow> string \<Rightarrow> string \<Rightarrow> string \<Rightarrow> string" where
  "broadcastTarget requesterType requesterID recipientType recipientID =
     (if requesterType = ''agent'' \<and> requesterID \<noteq> [] then requesterID
      else if recipientType = ''agent'' \<and> recipientID \<noteq> [] then recipientID
      else [])"

text \<open>The recording half of \<^verbatim>\<open>RecordAndBroadcast\<close>, skipped for an empty target; its error is only logged.\<close>

definition record_event :: "bool \<Rightarrow> string \<Rightarrow> string \<Rightarrow> json \<Rightarrow> 'q req_state \<Rightarrow> 'q req_state" where
  "record_event fault target eventType payload s =
     (if target = [] \<or> fault then s
      else s\<lparr>rs_events := rs_events s @
             [\<lparr>ev_type = eventType, ev_workspace = target, ev_payload = payload\<rparr>]\<rparr>)"

definition notify_body :: "'q req_env \<Rightarrow> string \<Rightarrow> string \<Rightarrow> string" where
  "notify_body env idemKey note =
     re_marshal env
       (JObj [(''method'', JStr ''message/send''),
              (''params'', JObj [(''message'', JObj
                 [(''messageId'', JStr (idemKey @ ''-'' @ re_nonce env)),
                  (''parts'', JArr [JObj [(''kind'', JStr ''text''), (''text'', JStr note)]]),
                  (''role'', JStr ''user'')])])])"

definition notifyRequesterAgent ::
  "'q req_env \<Rightarrow> 'q req_state \<Rightarrow> RequestRow \<Rightarrow> string \<Rightarrow> string \<Rightarrow> 'q req_state" where
  "notifyRequesterAgent env s req idemKey note =
     s\<lparr>rs_queue := fst (re_enqueue env (rs_queue s) (r_requester_id req) [] PriorityInfo
         (notify_body env idemKey note) ''message/send'' idemKey None)\<rparr>"

section \<open>Create, Get and the listings\<close>

text \<open>A priority outside \<^verbatim>\<open>SMALLINT\<close> makes the insert fail.\<close>

definition smallint_ok :: "int option \<Rightarrow> bool" where
  "smallint_ok p = (case p of None \<Rightarrow> True | Some n \<Rightarrow> -32768 \<le> n \<and> n \<le> 32767)"

definition new_request :: "instant \<Rightarrow> uuid \<Rightarrow> CreateRequestInput \<Rightarrow> RequestRow" where
  "new_request now newid i =
     \<lparr>r_id = newid, r_kind = in_Kind i, r_requester_type = in_RequesterType i,
      r_requester_id = in_RequesterID i, r_org_id = nullif_empty (in_OrgID i),
      r_recipient_type = in_RecipientType i, r_recipient_id = in_RecipientID i,
      r_title = in_Title i, r_detail = nullif_empty (in_Detail i), r_status = ''pending'',
      r_responder_type = None, r_responder_id = None, r_priority = in_Priority i,
      r_created_at = now, r_updated_at = now, r_responded_at = None, r_last_nudged_at = None\<rparr>"

definition Store_Create ::
  "'q req_env \<Rightarrow> 'q req_state \<Rightarrow> CreateRequestInput \<Rightarrow> 'q req_state \<times> (req_error + uuid)" where
  "Store_Create env s i =
     (if in_Kind i \<noteq> ''task'' \<and> in_Kind i \<noteq> ''approval'' then (s, Inl ErrInvalidRequestKind)
      else if \<not> validParty (in_RequesterType i) \<or> \<not> validParty (in_RecipientType i)
      then (s, Inl ErrInvalidRequestParty)
      else if re_flt env 0 \<or> \<not> smallint_ok (in_Priority i) \<or>
              list_ex (\<lambda>r. r_id r = re_newid env) (rs_requests s)
      then (s, Inl ErrRequestDB)
      else
        let s1 = s\<lparr>rs_requests := rs_requests s @ [new_request (re_now env) (re_newid env) i]\<rparr>;
            target = broadcastTarget (in_RecipientType i) (in_RecipientID i)
                       (in_RequesterType i) (in_RequesterID i)
        in (record_event (re_flt env 1) target ''REQUEST_CREATED''
              (JObj [(''request_id'', JStr (re_newid env)), (''kind'', JStr (in_Kind i)),
                     (''recipient_type'', JStr (in_RecipientType i)),
                     (''recipient_id'', JStr (in_RecipientID i)),
                     (''title'', JStr (in_Title i))]) s1,
            Inr (re_newid env)))"

definition Store_Get :: "bool \<Rightarrow> 'q req_state \<Rightarrow> uuid \<Rightarrow> req_error + RequestRow" where
  "Store_Get fault s i =
     (if fault then Inl ErrRequestDB
      else case select_first (\<lambda>r. r_id r = i) (rs_requests s) of
             None \<Rightarrow> Inl ErrRequestNotFound
           | Some r \<Rightarrow> Inr r)"

text \<open>
  What a multi-row query meets: a failing query, rows whose scan fails (skipped), and an
  iteration cut short by an error after some rows (logged, the rows so far are returned).
\<close>

record list_env =
  le_query_err :: bool
  le_scan_err :: "uuid \<Rightarrow> bool"
  le_rows_err :: "nat option"

definition calm_list :: list_env where
  "calm_list = \<lparr>le_query_err = False, le_scan_err = (\<lambda>_. False), le_rows_err = None\<rparr>"

definition fetch_rows :: "list_env \<Rightarrow> ('r \<Rightarrow> uuid) \<Rightarrow> 'r list \<Rightarrow> req_error + 'r list" where
  "fetch_rows env key rows =
     (if le_query_err env then Inl ErrRequestDB
      else Inr (filter (\<lambda>r. \<not> le_scan_err env (key r))
                  (case le_rows_err env of None \<Rightarrow> rows | Some n \<Rightarrow> take n rows)))"

definition Store_Messages :: "list_env \<Rightarrow> 'q req_state \<Rightarrow> uuid \<Rightarrow> req_error + RequestMessageRow list" where
  "Store_Messages env s requestID =
     fetch_rows env m_id
       (take 200 (sort_key m_created_at (filter (\<lambda>m. m_request_id m = requestID) (rs_messages s))))"

text \<open>\<^verbatim>\<open>ORDER BY created_at DESC LIMIT n\<close>\<close>

definition newest :: "nat \<Rightarrow> RequestRow list \<Rightarrow> RequestRow list" where
  "newest n rows = take n (sort_key (\<lambda>r. - r_created_at r) rows)"

definition queryRequests :: "list_env \<Rightarrow> RequestRow list \<Rightarrow> req_error + RequestRow list" where
  "queryRequests env rows = fetch_rows env r_id rows"

definition Store_ListInbox ::
  "list_env \<Rightarrow> 'q req_state \<Rightarrow> string \<Rightarrow> string \<Rightarrow> string \<Rightarrow> req_error + RequestRow list" where
  "Store_ListInbox env s recipientType recipientID status =
     queryRequests env
       (newest 50 (filter (\<lambda>r. r_recipient_type r = recipientType \<and> r_recipient_id r = recipientID \<and>
                                (status \<noteq> [] \<longrightarrow> r_status r = status)) (rs_requests s)))"

definition Store_ListOutgoing ::
  "list_env \<Rightarrow> 'q req_state \<Rightarrow> string \<Rightarrow> string \<Rightarrow> string \<Rightarrow> req_error + RequestRow list" where
  "Store_ListOutgoing env s requesterType requesterID status =
     queryRequests env
       (newest 50 (filter (\<lambda>r. r_requester_type r = requesterType \<and> r_requester_id r = requesterID \<and>
                                (status \<noteq> [] \<longrightarrow> r_status r = status)) (rs_requests s)))"

text \<open>Each row with the name of the requesting agent's workspace, by the \<^verbatim>\<open>LEFT JOIN\<close>.\<close>

definition Store_ListPendingForOrg ::
  "list_env \<Rightarrow> ws_table \<Rightarrow> 'q req_state \<Rightarrow> string \<Rightarrow> string \<Rightarrow>
   req_error + (RequestRow \<times> string option) list" where
  "Store_ListPendingForOrg env wst s orgID kind =
     fetch_rows env (r_id \<circ> fst)
       (map (\<lambda>r. (r, if r_requester_type r = ''agent''
                     then Option.bind (wst (r_requester_id r)) ws_name else None))
          (newest 50 (filter (\<lambda>r. req_open (r_status r) \<and>
                                   (orgID \<noteq> [] \<longrightarrow> r_org_id r = Some orgID) \<and>
                                   (kind \<noteq> [] \<longrightarrow> r_kind r = kind)) (rs_requests s))))"

section \<open>Respond\<close>

definition actionToStatus :: "string \<Rightarrow> string \<Rightarrow> req_error + string" where
  "actionToStatus kind action =
     (if kind = ''approval'' then
        (if action = ''approved'' \<or> action = ''rejected'' then Inr action else Inl ErrInvalidRequestAction)
      else if kind = ''task'' then
        (if action = ''done'' \<or> action = ''rejected'' then Inr action else Inl ErrInvalidRequestAction)
      else Inl ErrInvalidRequestAction)"

definition responded_note :: "'q req_env \<Rightarrow> RequestRow \<Rightarrow> string \<Rightarrow> string \<Rightarrow> string \<Rightarrow> string" where
  "responded_note env req status responderType responderID =
     (let by_whom = (if responderType = ''agent'' then ''agent '' @ responderID else ''the user'')
      in ''Your '' @ r_kind req @ '' request '' @ re_quote env (r_title req) @ '' (id '' @ r_id req @
         '') was '' @ status @ '' by '' @ by_whom @
         ''. Use get_request for the thread or check_requests for all your outcomes. '' @
         ''If this outcome changes what you owe the user, acknowledge it briefly with '' @
         ''send_message_to_user '' @ [CHR 0xE2, CHR 0x80, CHR 0x94] @
         '' this notification is a background turn and does NOT appear in their chat.'')"

definition respond_row :: "instant \<Rightarrow> string \<Rightarrow> string \<Rightarrow> string \<Rightarrow> RequestRow \<Rightarrow> RequestRow" where
  "respond_row now status responderType responderID r =
     r\<lparr>r_status := status, r_responder_type := Some responderType,
       r_responder_id := Some responderID, r_responded_at := Some now, r_updated_at := now\<rparr>"

definition Store_Respond ::
  "'q req_env \<Rightarrow> 'q req_state \<Rightarrow> uuid \<Rightarrow> string \<Rightarrow> string \<Rightarrow> string \<Rightarrow>
   'q req_state \<times> (req_error + RequestRow)" where
  "Store_Respond env s i action responderType0 responderID0 =
     (let responderType = (if responderType0 = [] then ''user'' else responderType0);
          responderID = (if responderID0 = [] then ''human'' else responderID0)
      in if \<not> validParty responderType then (s, Inl ErrInvalidRequestParty)
         else case Store_Get (re_flt env 0) s i of
           Inl e \<Rightarrow> (s, Inl e)
         | Inr req \<Rightarrow>
             if responderType = r_requester_type req \<and> responderID = r_requester_id req
             then (s, Inl ErrSelfResponse)
             else case actionToStatus (r_kind req) action of
               Inl e \<Rightarrow> (s, Inl e)
             | Inr status \<Rightarrow>
                 if re_flt env 1 then (s, Inl ErrRequestDB)
                 else
                   let P = (\<lambda>r. r_id r = i \<and> req_open (r_status r));
                       s1 = s\<lparr>rs_requests := update_where P
                              (respond_row (re_now env) status responderType responderID)
                              (rs_requests s)\<rparr>
                   in if re_flt env 2 then (s1, Inl ErrRequestDB)
                      else if count_where P (rs_requests s) = 0 then (s1, Inl ErrRequestNotFound)
                      else
                        let target = broadcastTarget (r_requester_type req) (r_requester_id req)
                                       (r_recipient_type req) (r_recipient_id req);
                            s2 = record_event (re_flt env 3) target ''REQUEST_RESPONDED''
                                   (JObj [(''request_id'', JStr i), (''status'', JStr status),
                                          (''responder_type'', JStr responderType),
                                          (''responder_id'', JStr responderID),
                                          (''title'', JStr (r_title req)),
                                          (''kind'', JStr (r_kind req))]) s1;
                            s3 = (if r_requester_type req = ''agent'' \<and> r_requester_id req \<noteq> [] \<and>
                                     (responderType \<noteq> ''agent'' \<or> responderID \<noteq> r_requester_id req)
                                  then notifyRequesterAgent env s2 req (''request-responded:'' @ r_id req)
                                         (responded_note env req status responderType responderID)
                                  else s2)
                        in (s3, Inr (req\<lparr>r_status := status, r_responder_type := Some responderType,
                                         r_responder_id := Some responderID\<rparr>)))"

section \<open>RequestInfo, AddMessage and Cancel\<close>

definition set_open_status :: "instant \<Rightarrow> uuid \<Rightarrow> string \<Rightarrow> RequestRow list \<Rightarrow> RequestRow list" where
  "set_open_status now i st =
     update_where (\<lambda>r. r_id r = i \<and> req_open (r_status r))
       (\<lambda>r. r\<lparr>r_status := st, r_updated_at := now\<rparr>)"

definition set_open_call ::
  "'q req_env \<Rightarrow> 'q req_state \<Rightarrow> uuid \<Rightarrow> string \<Rightarrow> 'q req_state \<times> (req_error + unit)" where
  "set_open_call env s i st =
     (if re_flt env 0 then (s, Inl ErrRequestDB)
      else
        let s1 = s\<lparr>rs_requests := set_open_status (re_now env) i st (rs_requests s)\<rparr>
        in if re_flt env 1 then (s1, Inl ErrRequestDB)
           else if count_where (\<lambda>r. r_id r = i \<and> req_open (r_status r)) (rs_requests s) = 0
           then (s1, Inl ErrRequestNotFound)
           else (s1, Inr ()))"

definition Store_RequestInfo :: "'q req_env \<Rightarrow> 'q req_state \<Rightarrow> uuid \<Rightarrow> 'q req_state \<times> (req_error + unit)" where
  "Store_RequestInfo env s i = set_open_call env s i ''info_requested''"

definition Store_Cancel :: "'q req_env \<Rightarrow> 'q req_state \<Rightarrow> uuid \<Rightarrow> 'q req_state \<times> (req_error + unit)" where
  "Store_Cancel env s i = set_open_call env s i ''cancelled''"

definition more_info_note :: "'q req_env \<Rightarrow> RequestRow \<Rightarrow> string \<Rightarrow> string" where
  "more_info_note env req body =
     ''More info requested on your '' @ r_kind req @ '' request '' @ re_quote env (r_title req) @
     '' (id '' @ r_id req @ ''): '' @ body @ [CHR 0x0A] @ ''Reply with add_request_message.''"

definition Store_AddMessage ::
  "'q req_env \<Rightarrow> 'q req_state \<Rightarrow> uuid \<Rightarrow> string \<Rightarrow> string \<Rightarrow> string \<Rightarrow>
   'q req_state \<times> (req_error + uuid)" where
  "Store_AddMessage env s i authorType authorID body =
     (if \<not> validParty authorType then (s, Inl ErrInvalidRequestParty)
      else case Store_Get (re_flt env 0) s i of
        Inl e \<Rightarrow> (s, Inl e)
      | Inr req \<Rightarrow>
          if re_flt env 1 then (s, Inl ErrRequestDB)
          else
            let s1 = s\<lparr>rs_messages := rs_messages s @
                   [\<lparr>m_id = re_newid env, m_request_id = i, m_author_type = authorType,
                     m_author_id = authorID, m_body = body, m_created_at = re_now env\<rparr>]\<rparr>;
                authoredByRequester =
                  (authorType = r_requester_type req \<and> authorID = r_requester_id req);
                s2 = (if \<not> authoredByRequester \<and> \<not> re_flt env 2
                      then s1\<lparr>rs_requests :=
                             set_open_status (re_now env) i ''info_requested'' (rs_requests s1)\<rparr>
                      else s1);
                target = broadcastTarget (r_requester_type req) (r_requester_id req)
                           (r_recipient_type req) (r_recipient_id req);
                s3 = record_event (re_flt env 3) target ''REQUEST_MESSAGE''
                       (JObj [(''request_id'', JStr i), (''message_id'', JStr (re_newid env)),
                              (''author_type'', JStr authorType), (''author_id'', JStr authorID)]) s2;
                s4 = (if \<not> authoredByRequester \<and> r_requester_type req = ''agent'' \<and>
                         r_requester_id req \<noteq> []
                      then notifyRequesterAgent env s3 req (''request-message:'' @ re_newid env)
                             (more_info_note env req body)
                      else s3)
            in (s4, Inr (re_newid env)))"

end
