(* ===== verification/Request_Nudge.thy ===== *)
theory Request_Nudge
  imports Request_Store Delegation_Ledger
begin

text \<open>
  \<^verbatim>\<open>internal/handlers/request_nudge_sweeper.go\<close>: the periodic reminder to idle agents with stale
  inbox items, and its reader and writer of PostgreSQL text-array literals. Instants count from
  the Unix epoch.
\<close>

section \<open>Text arrays\<close>

text \<open>
  The loop of \<^verbatim>\<open>parsePGTextArray\<close>: elements so far, the current one, and the two flags. A Go
  \<^verbatim>\<open>nil\<close> slice is the empty list.
\<close>

fun parse_array_loop :: "string list \<Rightarrow> string \<Rightarrow> bool \<Rightarrow> bool \<Rightarrow> string \<Rightarrow> string list" where
  "parse_array_loop out cur inQuotes escaped [] = out @ [cur]"
| "parse_array_loop out cur inQuotes escaped (c # body) =
     (if escaped then parse_array_loop out (cur @ [c]) inQuotes False body
      else if c = CHR 0x5C then parse_array_loop out cur inQuotes True body
      else if c = CHR 0x22 then parse_array_loop out cur (\<not> inQuotes) False body
      else if c = CHR '','' \<and> \<not> inQuotes then parse_array_loop (out @ [cur]) [] inQuotes False body
      else parse_array_loop out (cur @ [c]) inQuotes False body)"

definition parsePGTextArray :: "string \<Rightarrow> string list" where
  "parsePGTextArray s =
     (if length s < 2 \<or> hd s \<noteq> CHR ''{'' \<or> last s \<noteq> CHR ''}'' then []
      else let body = butlast (tl s)
           in if body = [] then [] else parse_array_loop [] [] False False body)"

datatype scan_src = SrcNil | SrcText string | SrcOther

definition stringArray_Scan :: "scan_src \<Rightarrow> string list option" where
  "stringArray_Scan src =
     (case src of SrcNil \<Rightarrow> Some [] | SrcText s \<Rightarrow> Some (parsePGTextArray s) | SrcOther \<Rightarrow> None)"

definition escape_elem :: "string \<Rightarrow> string" where
  "escape_elem e = concat (map (\<lambda>c. if c = CHR 0x22 \<or> c = CHR 0x5C then [CHR 0x5C, c] else [c]) e)"

fun join_elems :: "bool \<Rightarrow> string list \<Rightarrow> string" where
  "join_elems first [] = []"
| "join_elems first (e # es) =
     (if first then [] else '','') @ [CHR 0x22] @ escape_elem e @ [CHR 0x22] @ join_elems False es"

text \<open>\<^term>\<open>None\<close> is the \<^verbatim>\<open>nil\<close> slice, bound as SQL NULL.\<close>

definition stringArray_Value :: "string list option \<Rightarrow> string option" where
  "stringArray_Value a =
     (case a of None \<Rightarrow> None | Some es \<Rightarrow> Some (''{'' @ join_elems True es @ ''}''))"

section \<open>The sweeper\<close>

definition defaultRequestNudgeInterval :: duration where
  "defaultRequestNudgeInterval = 5 * minute"

definition requestNudgeStaleAfter :: duration where
  "requestNudgeStaleAfter = 10 * minute"

definition requestNudgeReNudgeAfter :: duration where
  "requestNudgeReNudgeAfter = hour"

definition requestNudgeBatchLimit :: nat where
  "requestNudgeBatchLimit = 200"

record RequestNudgeSweeper =
  ns_interval :: duration
  ns_staleAfter :: duration
  ns_reNudgeWait :: duration
  ns_limit :: nat

definition NewRequestNudgeSweeper :: "(string \<Rightarrow> string) \<Rightarrow> RequestNudgeSweeper" where
  "NewRequestNudgeSweeper getenv =
     \<lparr>ns_interval = envDuration getenv ''REQUEST_NUDGE_SWEEPER_INTERVAL_S'' defaultRequestNudgeInterval,
      ns_staleAfter = requestNudgeStaleAfter, ns_reNudgeWait = requestNudgeReNudgeAfter,
      ns_limit = requestNudgeBatchLimit\<rparr>"

record NudgeResult =
  AgentsNudged :: nat
  ItemsCovered :: nat
  NudgeErrors :: nat

definition nudge_text :: "nat \<Rightarrow> string" where
  "nudge_text n =
     ''You have '' @ show_nat n @ '' unhandled inbox '' @ (if n \<noteq> 1 then ''requests'' else ''request'') @
     '' awaiting your response. '' @
     ''Use list_inbox to see them and respond_request / add_request_message to act.''"

definition buildNudgeBody :: "'q req_env \<Rightarrow> nat \<Rightarrow> string" where
  "buildNudgeBody env n =
     re_marshal env
       (JObj [(''method'', JStr ''message/send''),
              (''params'', JObj [(''message'', JObj
                 [(''messageId'', JStr (''inbox-nudge-'' @ re_nonce env)),
                  (''parts'', JArr [JObj [(''kind'', JStr ''text''), (''text'', JStr (nudge_text n))]]),
                  (''role'', JStr ''user'')])])])"

text \<open>The hour bucket \<^verbatim>\<open>now.Truncate(time.Hour).Unix()\<close>.\<close>

definition nudge_key :: "uuid \<Rightarrow> instant \<Rightarrow> string" where
  "nudge_key recipientID now =
     ''inbox-nudge:'' @ recipientID @ '':'' @ show_int (now div hour * (hour div second))"

definition nudgeAgent ::
  "'q req_env \<Rightarrow> 'q req_state \<Rightarrow> uuid \<Rightarrow> uuid list \<Rightarrow> instant \<Rightarrow> 'q req_state \<times> (req_error + unit)" where
  "nudgeAgent env s recipientID ids now =
     (case re_enqueue env (rs_queue s) recipientID [] PriorityInfo (buildNudgeBody env (length ids))
             ''message/send'' (nudge_key recipientID now) None of
        (q, Inl e) \<Rightarrow> (s\<lparr>rs_queue := q\<rparr>, Inl ErrRequestDB)
      | (q, Inr _) \<Rightarrow>
          if re_flt env 0 then (s\<lparr>rs_queue := q\<rparr>, Inl ErrRequestDB)
          else (s\<lparr>rs_queue := q,
                  rs_requests := update_where (\<lambda>r. r_id r \<in> set ids)
                    (\<lambda>r. r\<lparr>r_last_nudged_at := Some (re_now env)\<rparr>) (rs_requests s)\<rparr>, Inr ()))"

definition idle_online :: "ws_table \<Rightarrow> uuid \<Rightarrow> bool" where
  "idle_online wst w =
     (case wst w of
        None \<Rightarrow> False
      | Some r \<Rightarrow> ws_status r = ''online'' \<and>
                  (case ws_active_tasks r of None \<Rightarrow> 0 | Some n \<Rightarrow> n) = 0)"

definition nudge_due :: "RequestNudgeSweeper \<Rightarrow> instant \<Rightarrow> ws_table \<Rightarrow> RequestRow \<Rightarrow> bool" where
  "nudge_due sw now wst r \<longleftrightarrow>
     r_recipient_type r = ''agent'' \<and> req_open (r_status r) \<and>
     r_created_at r < now - ns_staleAfter sw \<and>
     (case r_last_nudged_at r of None \<Rightarrow> True | Some t \<Rightarrow> t < now - ns_reNudgeWait sw) \<and>
     idle_online wst (r_recipient_id r)"

text \<open>
  The result of the grouping query: per recipient the array literal of its due requests. The
  ids are UUID texts, which PostgreSQL prints without quotes.
\<close>

fun array_out :: "string list \<Rightarrow> string" where
  "array_out [] = []"
| "array_out [e] = e"
| "array_out (e # es) = e @ '','' @ array_out es"

definition nudge_groups ::
  "RequestNudgeSweeper \<Rightarrow> instant \<Rightarrow> ws_table \<Rightarrow> RequestRow list \<Rightarrow> (uuid \<times> scan_src) list" where
  "nudge_groups sw now wst rows =
     (let due = filter (nudge_due sw now wst) rows
      in take (ns_limit sw)
           (map (\<lambda>w. (w, SrcText (''{'' @ array_out (map r_id (filter (\<lambda>r. r_recipient_id r = w) due)) @ ''}'')))
             (remdups (map r_recipient_id due))))"

text \<open>What a sweep meets: query, scan and iteration errors, and per agent the surroundings of its nudge.\<close>

record 'q nudge_env =
  ne_query_err :: bool
  ne_scan_err :: "uuid \<Rightarrow> bool"
  ne_rows_err :: "nat option"
  ne_agent :: "uuid \<Rightarrow> 'q req_env"

definition nudge_one ::
  "'q nudge_env \<Rightarrow> instant \<Rightarrow> 'q req_state \<times> NudgeResult \<Rightarrow> uuid \<times> uuid list \<Rightarrow> 'q req_state \<times> NudgeResult" where
  "nudge_one env now acc g =
     (case acc of (s, res) \<Rightarrow> case g of (recipientID, ids) \<Rightarrow>
        (case nudgeAgent (ne_agent env recipientID) s recipientID ids now of
           (s', Inl e) \<Rightarrow> (s', res\<lparr>NudgeErrors := NudgeErrors res + 1\<rparr>)
         | (s', Inr u) \<Rightarrow> (s', res\<lparr>AgentsNudged := AgentsNudged res + 1,
                                  ItemsCovered := ItemsCovered res + length ids\<rparr>)))"

definition Nudge_Sweep ::
  "RequestNudgeSweeper \<Rightarrow> 'q nudge_env \<Rightarrow> instant \<Rightarrow> ws_table \<Rightarrow> 'q req_state \<Rightarrow>
   'q req_state \<times> NudgeResult" where
  "Nudge_Sweep sw env now wst s =
     (let res0 = \<lparr>AgentsNudged = 0, ItemsCovered = 0, NudgeErrors = 0\<rparr>
      in if ne_query_err env then (s, res0\<lparr>NudgeErrors := 1\<rparr>)
         else
           let groups = nudge_groups sw now wst (rs_requests s);
               delivered = (case ne_rows_err env of None \<Rightarrow> groups | Some n \<Rightarrow> take n groups);
               bad = (\<lambda>(w, src). ne_scan_err env w \<or> stringArray_Scan src = None);
               todo = filter (\<lambda>(w, ids). ids \<noteq> [])
                        (map (\<lambda>(w, src). (w, the (stringArray_Scan src)))
                          (filter (\<lambda>g. \<not> bad g) delivered));
               errs = count_where bad delivered + (case ne_rows_err env of None \<Rightarrow> 0 | Some _ \<Rightarrow> 1)
           in foldl (nudge_one env now) (s, res0\<lparr>NudgeErrors := errs\<rparr>) todo)"

text \<open>\<^verbatim>\<open>Start\<close>, as for the delegation sweeper: the ticker panics on a non-positive interval.\<close>

datatype 'q nudge_event = NudgeDone | NudgeTick "'q nudge_env" instant ws_table

fun nudge_loop :: "RequestNudgeSweeper \<Rightarrow> 'q nudge_event list \<Rightarrow> 'q req_state \<Rightarrow> 'q req_state" where
  "nudge_loop sw [] s = s"
| "nudge_loop sw (NudgeDone # evs) s = s"
| "nudge_loop sw (NudgeTick env now wst # evs) s =
     nudge_loop sw evs (fst (Nudge_Sweep sw env now wst s))"

definition Nudge_Start ::
  "RequestNudgeSweeper \<Rightarrow> 'q nudge_env \<Rightarrow> instant \<Rightarrow> ws_table \<Rightarrow> 'q nudge_event list \<Rightarrow> 'q req_state \<Rightarrow>
   'q req_state option" where
  "Nudge_Start sw env now wst evs s =
     (if ns_interval sw \<le> 0 then None
      else Some (nudge_loop sw evs (fst (Nudge_Sweep sw env now wst s))))"

end
