(* ===== verification/Requests_Handler.thy ===== *)
theory Requests_Handler
  imports Request_Store Org_Scope
begin

text \<open>
  \<^verbatim>\<open>internal/handlers/requests.go\<close>: the HTTP surface of the request store. A handler gets the path
  parameters, the bound body (\<^term>\<open>None\<close> when gin's binding rejects it, the \<^verbatim>\<open>required\<close> rule
  included) and answers with a status and a payload. \<open>pathID\<close> is the workspace of the
  workspace-token routes \<^verbatim>\<open>/workspaces/:id/requests/...\<close> and empty on the canvas routes.
\<close>

datatype hbody =
    BError string
  | BCreated uuid string
  | BMutation string uuid
  | BMessage string uuid uuid
  | BThread RequestRow "RequestMessageRow list"
  | BRows "RequestRow list"
  | BPending "(RequestRow \<times> string option) list"

type_synonym hresp = "int \<times> hbody"

text \<open>The texts of the sentinel errors; a wrapped database error is never shown to the client.\<close>

definition req_error_text :: "req_error \<Rightarrow> string" where
  "req_error_text e =
     (case e of
        ErrRequestNotFound \<Rightarrow> ''request: not found''
      | ErrInvalidRequestAction \<Rightarrow> ''request: invalid action for this request kind''
      | ErrInvalidRequestKind \<Rightarrow> ''request: kind must be 'task' or 'approval'' @ [CHR 0x27]
      | ErrInvalidRequestParty \<Rightarrow> ''request: type must be 'user' or 'agent'' @ [CHR 0x27]
      | ErrSelfResponse \<Rightarrow> ''request: responder cannot be the requester''
      | ErrRequestDB \<Rightarrow> [])"

section \<open>Bodies\<close>

record CreateRequestBody =
  cb_Kind :: string
  cb_RecipientType :: string
  cb_RecipientID :: string
  cb_Title :: string
  cb_Detail :: string
  cb_Priority :: "int option"

record RespondRequestBody =
  rb_Action :: string
  rb_ResponderType :: string
  rb_ResponderID :: string

record AddRequestMessageBody =
  mb_Body :: string
  mb_AuthorType :: string
  mb_AuthorID :: string

definition bind_required :: "('b \<Rightarrow> string list) \<Rightarrow> 'b option \<Rightarrow> 'b option" where
  "bind_required req b =
     (case b of None \<Rightarrow> None | Some x \<Rightarrow> if list_ex (\<lambda>f. f = []) (req x) then None else Some x)"

section \<open>Handlers\<close>

definition Handler_Create ::
  "'q req_env \<Rightarrow> bool \<Rightarrow> ws_table \<Rightarrow> uuid \<Rightarrow> CreateRequestBody option \<Rightarrow> 'q req_state \<Rightarrow>
   ('q req_state \<times> hresp) option" where
  "Handler_Create env orgFault wst workspaceID rawBody s =
     (case bind_required (\<lambda>b. [cb_Kind b, cb_RecipientType b, cb_Title b]) rawBody of
        None \<Rightarrow> Some (s, (400, BError ''invalid request body''))
      | Some body \<Rightarrow>
          (case orgRootID orgFault wst workspaceID of
             None \<Rightarrow> None
           | Some org \<Rightarrow>
               let orgID = (case org of Inl _ \<Rightarrow> [] | Inr r \<Rightarrow> r)
               in case Store_Create env s
                         \<lparr>in_Kind = cb_Kind body, in_RequesterType = ''agent'',
                          in_RequesterID = workspaceID, in_OrgID = orgID,
                          in_RecipientType = cb_RecipientType body,
                          in_RecipientID = cb_RecipientID body, in_Title = cb_Title body,
                          in_Detail = cb_Detail body, in_Priority = cb_Priority body\<rparr> of
                    (s', Inl e) \<Rightarrow>
                      (if e = ErrInvalidRequestKind \<or> e = ErrInvalidRequestParty
                       then Some (s', (400, BError (req_error_text e)))
                       else Some (s', (500, BError ''failed to create request'')))
                  | (s', Inr i) \<Rightarrow> Some (s', (201, BCreated i ''pending''))))"

definition rows_response :: "req_error + RequestRow list \<Rightarrow> hresp" where
  "rows_response r = (case r of Inl _ \<Rightarrow> (500, BError ''query failed'') | Inr rows \<Rightarrow> (200, BRows rows))"

definition Handler_ListInbox :: "list_env \<Rightarrow> 'q req_state \<Rightarrow> uuid \<Rightarrow> string \<Rightarrow> hresp" where
  "Handler_ListInbox env s workspaceID status =
     rows_response (Store_ListInbox env s ''agent'' workspaceID status)"

definition Handler_ListOutgoing :: "list_env \<Rightarrow> 'q req_state \<Rightarrow> uuid \<Rightarrow> string \<Rightarrow> hresp" where
  "Handler_ListOutgoing env s workspaceID status =
     rows_response (Store_ListOutgoing env s ''agent'' workspaceID status)"

definition isParty :: "RequestRow \<Rightarrow> uuid \<Rightarrow> bool" where
  "isParty req ws \<longleftrightarrow>
     (r_requester_type req = ''agent'' \<and> r_requester_id req = ws) \<or>
     (r_recipient_type req = ''agent'' \<and> r_recipient_id req = ws)"

definition Handler_Get :: "bool \<Rightarrow> list_env \<Rightarrow> 'q req_state \<Rightarrow> uuid \<Rightarrow> uuid \<Rightarrow> hresp" where
  "Handler_Get fault env s pathID requestID =
     (case Store_Get fault s requestID of
        Inl e \<Rightarrow> if e = ErrRequestNotFound then (404, BError ''request not found'')
                 else (500, BError ''query failed'')
      | Inr req \<Rightarrow>
          if pathID \<noteq> [] \<and> \<not> isParty req pathID then (403, BError ''not a participant'')
          else case Store_Messages env s requestID of
                 Inl _ \<Rightarrow> (500, BError ''query failed'')
               | Inr msgs \<Rightarrow> (200, BThread req msgs))"

text \<open>
  The authorisation lookup of the mutating workspace routes: the answer that ends the request,
  or \<^term>\<open>None\<close> to go on. \<open>fail\<close> is the message of the 500, \<open>missing\<close> of the 404, \<open>deny\<close> of the 403.
\<close>

definition authz ::
  "bool \<Rightarrow> 'q req_state \<Rightarrow> uuid \<Rightarrow> uuid \<Rightarrow> (RequestRow \<Rightarrow> bool) \<Rightarrow> string \<Rightarrow> string \<Rightarrow> string \<Rightarrow>
   hresp option" where
  "authz fault s pathID requestID allowed missing fail deny =
     (if pathID = [] then None
      else case Store_Get fault s requestID of
             Inl e \<Rightarrow> if e = ErrRequestNotFound then Some (404, BError missing)
                      else Some (500, BError fail)
           | Inr req \<Rightarrow> if allowed req then None else Some (403, BError deny))"

definition Handler_Respond ::
  "'q req_env \<Rightarrow> bool \<Rightarrow> uuid \<Rightarrow> uuid \<Rightarrow> RespondRequestBody option \<Rightarrow> 'q req_state \<Rightarrow>
   'q req_state \<times> hresp" where
  "Handler_Respond env authzFault pathID requestID rawBody s =
     (case bind_required (\<lambda>b. [rb_Action b]) rawBody of
        None \<Rightarrow> (s, (400, BError ''invalid request body''))
      | Some body \<Rightarrow>
          let responderType = (if pathID \<noteq> [] then ''agent'' else rb_ResponderType body);
              responderID = (if pathID \<noteq> [] then pathID else rb_ResponderID body)
          in case authz authzFault s pathID requestID
                    (\<lambda>req. r_recipient_type req = ''agent'' \<and> r_recipient_id req = pathID)
                    ''request not found or already resolved'' ''failed to respond'' ''not the recipient'' of
               Some resp \<Rightarrow> (s, resp)
             | None \<Rightarrow>
                 (case Store_Respond env s requestID (rb_Action body) responderType responderID of
                    (s', Inl e) \<Rightarrow>
                      if e = ErrRequestNotFound
                      then (s', (404, BError ''request not found or already resolved''))
                      else if e = ErrInvalidRequestAction \<or> e = ErrInvalidRequestParty \<or> e = ErrSelfResponse
                      then (s', (400, BError (req_error_text e)))
                      else (s', (500, BError ''failed to update''))
                  | (s', Inr _) \<Rightarrow> (s', (200, BMutation (rb_Action body) requestID))))"

definition Handler_AddMessage ::
  "'q req_env \<Rightarrow> bool \<Rightarrow> uuid \<Rightarrow> uuid \<Rightarrow> AddRequestMessageBody option \<Rightarrow> 'q req_state \<Rightarrow>
   'q req_state \<times> hresp" where
  "Handler_AddMessage env authzFault pathID requestID rawBody s =
     (case bind_required (\<lambda>b. [mb_Body b, mb_AuthorType b]) rawBody of
        None \<Rightarrow> (s, (400, BError ''invalid request body''))
      | Some body \<Rightarrow>
          let authorType = (if pathID \<noteq> [] then ''agent'' else mb_AuthorType body);
              authorID = (if pathID \<noteq> [] then pathID else mb_AuthorID body)
          in case authz authzFault s pathID requestID (\<lambda>req. isParty req pathID)
                    ''request not found'' ''failed to add message'' ''not a participant'' of
               Some resp \<Rightarrow> (s, resp)
             | None \<Rightarrow>
                 (case Store_AddMessage env s requestID authorType authorID (mb_Body body) of
                    (s', Inl e) \<Rightarrow>
                      if e = ErrRequestNotFound then (s', (404, BError ''request not found''))
                      else if e = ErrInvalidRequestParty then (s', (400, BError (req_error_text e)))
                      else (s', (500, BError ''failed to add message''))
                  | (s', Inr m) \<Rightarrow> (s', (201, BMessage ''created'' requestID m))))"

definition Handler_Cancel ::
  "'q req_env \<Rightarrow> bool \<Rightarrow> uuid \<Rightarrow> uuid \<Rightarrow> 'q req_state \<Rightarrow> 'q req_state \<times> hresp" where
  "Handler_Cancel env authzFault pathID requestID s =
     (case authz authzFault s pathID requestID
             (\<lambda>req. r_requester_type req = ''agent'' \<and> r_requester_id req = pathID)
             ''request not found or already resolved'' ''failed to cancel'' ''not the requester'' of
        Some resp \<Rightarrow> (s, resp)
      | None \<Rightarrow>
          (case Store_Cancel env s requestID of
             (s', Inl e) \<Rightarrow>
               if e = ErrRequestNotFound
               then (s', (404, BError ''request not found or already resolved''))
               else (s', (500, BError ''failed to cancel''))
           | (s', Inr _) \<Rightarrow> (s', (200, BMutation ''cancelled'' requestID))))"

definition Handler_ListPending ::
  "list_env \<Rightarrow> ws_table \<Rightarrow> 'q req_state \<Rightarrow> string \<Rightarrow> string \<Rightarrow> hresp" where
  "Handler_ListPending env wst s orgID kind =
     (if kind \<noteq> [] \<and> kind \<noteq> ''task'' \<and> kind \<noteq> ''approval''
      then (400, BError (''kind must be 'task' or 'approval'' @ [CHR 0x27]))
      else case Store_ListPendingForOrg env wst s orgID kind of
             Inl _ \<Rightarrow> (500, BError ''query failed'')
           | Inr rows \<Rightarrow> (200, BPending rows))"

end
