(* ===== verification/A2A_Queue_Props.thy ===== *)
theory A2A_Queue_Props
  imports A2A_Queue
begin

text \<open>
  Properties of the A2A queue. The statements of concurrent enqueuers, drainers and sweepers
  interleave arbitrarily; the machine \<open>q_step\<close> makes each statement one step and remembers
  which rows a drainer has claimed and not yet settled. Its invariant gives exclusive claims,
  at most one active row per idempotency key, the attempt cap and terminal statuses that
  never change.
\<close>

section \<open>The machine of interleaved statements\<close>

record q_sys =
  sys_queue :: a2a_queue
  sys_inflight :: "uuid list"

datatype q_op =
    OpSupersede instant uuid string
  | OpInsert instant uuid uuid "string option" int string "string option" "string option" "instant option"
  | OpClaim faults instant "uuid \<Rightarrow> bool" uuid
  | OpComplete faults instant uuid string
  | OpFail faults uuid string
  | OpTransient faults instant uuid string
  | OpDrop faults instant string "uuid \<Rightarrow> bool" string int
  | OpAbandon uuid

text \<open>
  An insert whose generated id is taken violates the primary key and has no effect. Only the
  drainer that claimed an item settles it. A drainer that dies leaves its row behind
  (\<open>OpAbandon\<close>).
\<close>

fun q_step :: "q_sys \<Rightarrow> q_op \<Rightarrow> q_sys" where
  "q_step s (OpSupersede now ws key) = s\<lparr>sys_queue := supersede_expired now ws key (sys_queue s)\<rparr>"
| "q_step s (OpInsert now newid ws caller prio body method key exp) =
     (if newid \<in> q_id ` set (sys_queue s) then s
      else s\<lparr>sys_queue := fst (insert_row (sys_queue s)
                             (fresh_row now newid ws caller prio body method key exp))\<rparr>)"
| "q_step s (OpClaim flt now locked ws) =
     (case DequeueNext flt now locked (sys_queue s) ws of
        (q, Inr (Some item)) \<Rightarrow> s\<lparr>sys_queue := q, sys_inflight := qi_ID item # sys_inflight s\<rparr>
      | (q, _) \<Rightarrow> s\<lparr>sys_queue := q\<rparr>)"
| "q_step s (OpComplete flt now i resp) =
     (if i \<in> set (sys_inflight s)
      then s\<lparr>sys_queue := MarkQueueItemCompleted flt now (sys_queue s) i resp,
             sys_inflight := remove1 i (sys_inflight s)\<rparr> else s)"
| "q_step s (OpFail flt i msg) =
     (if i \<in> set (sys_inflight s)
      then s\<lparr>sys_queue := MarkQueueItemFailed flt (sys_queue s) i msg,
             sys_inflight := remove1 i (sys_inflight s)\<rparr> else s)"
| "q_step s (OpTransient flt now i msg) =
     (if i \<in> set (sys_inflight s)
      then s\<lparr>sys_queue := MarkQueueItemTransientRetry flt now (sys_queue s) i msg,
             sys_inflight := remove1 i (sys_inflight s)\<rparr> else s)"
| "q_step s (OpDrop flt now nowText locked ws age) =
     s\<lparr>sys_queue := fst (DropStaleQueueItems flt now nowText locked (sys_queue s) ws age)\<rparr>"
| "q_step s (OpAbandon i) = s\<lparr>sys_inflight := remove1 i (sys_inflight s)\<rparr>"

definition q_empty :: q_sys where
  "q_empty = \<lparr>sys_queue = [], sys_inflight = []\<rparr>"

section \<open>The invariant\<close>

definition keyed :: "q_row \<Rightarrow> bool" where
  "keyed r \<longleftrightarrow> q_active r \<and> q_idempotency_key r \<noteq> None"

definition uniq_active :: "a2a_queue \<Rightarrow> bool" where
  "uniq_active q \<longleftrightarrow> distinct (map (\<lambda>r. (q_workspace_id r, q_idempotency_key r)) (filter keyed q))"

definition attempts_ok :: "q_row \<Rightarrow> bool" where
  "attempts_ok r \<longleftrightarrow> 0 \<le> q_attempts r \<and> q_attempts r \<le> maxAttempts \<and>
     (q_status r = Q_queued \<longrightarrow> q_attempts r < maxAttempts) \<and>
     (q_status r = Q_dispatched \<longrightarrow> 0 < q_attempts r)"

definition row_status :: "a2a_queue \<Rightarrow> uuid \<Rightarrow> q_status option" where
  "row_status q i = map_option q_status (select_first (\<lambda>r. q_id r = i) q)"

definition q_inv :: "q_sys \<Rightarrow> bool" where
  "q_inv s \<longleftrightarrow>
     distinct (map q_id (sys_queue s)) \<and> uniq_active (sys_queue s) \<and>
     (\<forall>r \<in> set (sys_queue s). attempts_ok r) \<and>
     distinct (sys_inflight s) \<and>
     (\<forall>i \<in> set (sys_inflight s). row_status (sys_queue s) i = Some Q_dispatched)"

lemma q_invI:
  assumes "distinct (map q_id q)" "uniq_active q" "\<forall>r \<in> set q. attempts_ok r" "distinct l"
    "\<And>i. i \<in> set l \<Longrightarrow> row_status q i = Some Q_dispatched"
  shows "q_inv (s\<lparr>sys_queue := q, sys_inflight := l\<rparr>)" "l = sys_inflight s \<Longrightarrow> q_inv (s\<lparr>sys_queue := q\<rparr>)"
  using assms by (auto simp: q_inv_def)

text \<open>Updates that leave the identifying columns alone.\<close>

definition key_preserving :: "(q_row \<Rightarrow> q_row) \<Rightarrow> bool" where
  "key_preserving f \<longleftrightarrow>
     (\<forall>r. q_id (f r) = q_id r \<and> q_workspace_id (f r) = q_workspace_id r \<and>
          q_idempotency_key (f r) = q_idempotency_key r)"

lemma row_status_update:
  assumes "key_preserving f"
  shows "row_status (update_where P f q) i =
    map_option (\<lambda>r. q_status (if P r then f r else r)) (select_first (\<lambda>r. q_id r = i) q)"
  using assms
  by (simp add: row_status_def key_preserving_def select_key_update_where option.map_comp comp_def)

lemma row_status_update_id:
  assumes "key_preserving f"
  shows "row_status (update_where (\<lambda>r. q_id r = i) f q) j =
    (if j = i then map_option (\<lambda>r. q_status (f r)) (select_first (\<lambda>r. q_id r = i) q)
     else row_status q j)"
  using assms
  by (simp add: row_status_def key_preserving_def select_key_update option.map_comp comp_def)

lemma row_status_update_queued:
  assumes "key_preserving f" "\<And>r. P r \<Longrightarrow> q_status r = Q_queued"
    "row_status q k = Some st" "st \<noteq> Q_queued"
  shows "row_status (update_where P f q) k = Some st"
proof -
  obtain r where "select_first (\<lambda>r. q_id r = k) q = Some r" "q_status r = st"
    using assms(3) by (auto simp: row_status_def)
  with assms(2,4) show ?thesis
    by (auto simp: row_status_update [OF assms(1)])
qed

lemma row_status_member:
  "distinct (map q_id q) \<Longrightarrow> r \<in> set q \<Longrightarrow> row_status q (q_id r) = Some (q_status r)"
  by (simp add: row_status_def select_first_distinct)

lemma row_status_SomeD:
  "row_status q i = Some st \<Longrightarrow> \<exists>r \<in> set q. q_id r = i \<and> q_status r = st"
  by (auto simp: row_status_def dest: select_first_SomeD)

lemma update_rows_ok:
  assumes "distinct (map q_id q)" "uniq_active q" "\<forall>r \<in> set q. attempts_ok r"
    and "key_preserving f"
    and "\<forall>r \<in> set q. P r \<longrightarrow> q_active r"
    and "\<forall>r \<in> set q. P r \<longrightarrow> attempts_ok (f r)"
  shows "distinct (map q_id (update_where P f q))" "uniq_active (update_where P f q)"
    "\<forall>r \<in> set (update_where P f q). attempts_ok r"
proof -
  show "distinct (map q_id (update_where P f q))"
    using assms(1,4) by (simp add: map_update_where key_preserving_def)
  show "uniq_active (update_where P f q)"
    unfolding uniq_active_def
    by (rule distinct_filter_update_where)
      (use assms in \<open>auto simp: uniq_active_def keyed_def key_preserving_def\<close>)
  show "\<forall>r \<in> set (update_where P f q). attempts_ok r"
    using assms(3,6) by (auto simp: set_update_where)
qed

text \<open>A row that a drainer holds is settled by an update of that row alone.\<close>

lemma settle_inv:
  assumes inv: "q_inv s" and i: "i \<in> set (sys_inflight s)" and kp: "key_preserving f"
    and ok: "\<And>r. q_status r = Q_dispatched \<Longrightarrow> attempts_ok r \<Longrightarrow> attempts_ok (f r)"
  shows "q_inv (s\<lparr>sys_queue := update_where (\<lambda>r. q_id r = i) f (sys_queue s),
                 sys_inflight := remove1 i (sys_inflight s)\<rparr>)"
proof -
  let ?q = "sys_queue s"
  have d: "distinct (map q_id ?q)" and u: "uniq_active ?q" and a: "\<forall>r \<in> set ?q. attempts_ok r"
    and fl: "\<forall>j \<in> set (sys_inflight s). row_status ?q j = Some Q_dispatched"
    and di: "distinct (sys_inflight s)"
    using inv by (auto simp: q_inv_def)
  have st: "q_status r = Q_dispatched" if "r \<in> set ?q" "q_id r = i" for r
    using row_status_member [OF d that(1)] that(2) fl i by auto
  have act: "\<forall>r \<in> set ?q. q_id r = i \<longrightarrow> q_active r"
    using st by (simp add: q_active_def)
  have att: "\<forall>r \<in> set ?q. q_id r = i \<longrightarrow> attempts_ok (f r)"
    using st ok a by simp
  note rows = update_rows_ok [OF d u a kp act att]
  have stat: "row_status (update_where (\<lambda>r. q_id r = i) f ?q) j = Some Q_dispatched"
    if "j \<in> set (remove1 i (sys_inflight s))" for j
    using that di fl by (simp add: row_status_update_id [OF kp])
  show ?thesis
    by (rule q_invI(1) [OF rows distinct_remove1 [OF di] stat])
qed

text \<open>An update of queued rows that leaves the claimed ones alone.\<close>

lemma retire_inv:
  assumes inv: "q_inv s" and kp: "key_preserving f"
    and P: "\<And>r. P r \<Longrightarrow> q_status r = Q_queued"
    and f: "\<And>r. q_status (f r) = Q_dropped \<and> q_attempts (f r) = q_attempts r"
  shows "q_inv (s\<lparr>sys_queue := update_where P f (sys_queue s)\<rparr>)"
proof -
  let ?q = "sys_queue s"
  have d: "distinct (map q_id ?q)" and u: "uniq_active ?q" and a: "\<forall>r \<in> set ?q. attempts_ok r"
    and fl: "\<forall>j \<in> set (sys_inflight s). row_status ?q j = Some Q_dispatched"
    and di: "distinct (sys_inflight s)"
    using inv by (auto simp: q_inv_def)
  have act: "\<forall>r \<in> set ?q. P r \<longrightarrow> q_active r"
    using P by (simp add: q_active_def)
  have att: "\<forall>r \<in> set ?q. P r \<longrightarrow> attempts_ok (f r)"
    using f a by (simp add: attempts_ok_def)
  note rows = update_rows_ok [OF d u a kp act att]
  have stat: "row_status (update_where P f ?q) j = Some Q_dispatched"
    if "j \<in> set (sys_inflight s)" for j
    by (rule row_status_update_queued [OF kp P]) (use that fl in simp_all)
  show ?thesis
    by (rule q_invI(2) [OF rows di stat refl])
qed

section \<open>Every statement keeps the invariant\<close>

lemma key_preserving_settlers [simp]:
  "key_preserving (\<lambda>r. r\<lparr>q_status := a r, q_completed_at := b r, q_response_body := c r\<rparr>)"
  "key_preserving (\<lambda>r. r\<lparr>q_status := a r, q_last_error := d r, q_dispatched_at := e r\<rparr>)"
  "key_preserving (\<lambda>r. r\<lparr>q_status := a r, q_attempts := n r, q_last_error := d r,
      q_dispatched_at := e r, q_next_attempt_at := t r\<rparr>)"
  "key_preserving (\<lambda>r. r\<lparr>q_status := a r, q_dispatched_at := e r, q_attempts := n r\<rparr>)"
  "key_preserving (\<lambda>r. r\<lparr>q_status := a r, q_last_error := d r\<rparr>)"
  by (simp_all add: key_preserving_def)

lemma forget_inv: "q_inv s \<Longrightarrow> q_inv (s\<lparr>sys_inflight := remove1 i (sys_inflight s)\<rparr>)"
  by (auto simp: q_inv_def dest: in_set_remove1)

lemma complete_inv: "q_inv s \<Longrightarrow> q_inv (q_step s (OpComplete flt now i resp))"
  by (cases "flt 0")
    (auto simp: MarkQueueItemCompleted_def forget_inv attempts_ok_def intro!: settle_inv)

lemma fail_inv: "q_inv s \<Longrightarrow> q_inv (q_step s (OpFail flt i msg))"
  by (cases "flt 0")
    (auto simp: MarkQueueItemFailed_def forget_inv attempts_ok_def intro!: settle_inv)

lemma transient_inv: "q_inv s \<Longrightarrow> q_inv (q_step s (OpTransient flt now i msg))"
  by (cases "flt 0")
    (auto simp: MarkQueueItemTransientRetry_def forget_inv attempts_ok_def maxAttempts_def
      intro!: settle_inv)

lemma drop_inv: "q_inv s \<Longrightarrow> q_inv (q_step s (OpDrop flt now nowText locked ws age))"
  by (cases "flt 0") (auto simp: DropStaleQueueItems_def Let_def stale_def intro!: retire_inv)

lemma supersede_inv: "q_inv s \<Longrightarrow> q_inv (q_step s (OpSupersede now ws key))"
  by (auto simp: supersede_expired_def intro!: retire_inv)

lemma insert_row_uniq:
  assumes "uniq_active q" "q_status r = Q_queued"
  shows "uniq_active (fst (insert_row q r))"
proof (cases "q_idempotency_key r")
  case None
  then show ?thesis using assms(1) by (simp add: insert_row_def uniq_active_def keyed_def)
next
  case (Some key)
  show ?thesis
  proof (cases "list_ex (\<lambda>s. same_key (q_workspace_id r) key s \<and> q_active s) q")
    case True
    then show ?thesis using Some assms(1) by (simp add: insert_row_def)
  next
    case False
    then have "(q_workspace_id r, Some key) \<notin>
        (\<lambda>r. (q_workspace_id r, q_idempotency_key r)) ` set (filter keyed q)"
      by (auto simp: keyed_def list_ex_iff same_key_def)
    with False Some assms(1) show ?thesis
      by (simp add: insert_row_def uniq_active_def keyed_def)
  qed
qed

lemma insert_inv: "q_inv s \<Longrightarrow> q_inv (q_step s (OpInsert now newid ws caller prio body method key exp))"
proof -
  assume inv: "q_inv s"
  let ?r = "fresh_row now newid ws caller prio body method key exp"
  show ?thesis
  proof (cases "newid \<in> q_id ` set (sys_queue s)")
    case False
    have cases: "fst (insert_row (sys_queue s) ?r) = sys_queue s \<or>
        fst (insert_row (sys_queue s) ?r) = sys_queue s @ [?r]"
      by (auto simp: insert_row_def split: option.splits)
    have "uniq_active (fst (insert_row (sys_queue s) ?r))"
      using inv by (intro insert_row_uniq) (auto simp: q_inv_def fresh_row_def)
    moreover have "attempts_ok ?r" by (simp add: attempts_ok_def fresh_row_def maxAttempts_def)
    moreover have "q_id ?r = newid" by (simp add: fresh_row_def)
    ultimately show ?thesis
      using cases inv False
      by (auto simp: q_inv_def row_status_def select_first_append)
  qed (use inv in simp)
qed

lemma pick_next_SomeD: "pick_next rs = Some r \<Longrightarrow> r \<in> set rs"
  by (induction rs arbitrary: r) (auto split: option.splits if_splits)

lemma q_before_asym: "q_before r s \<Longrightarrow> \<not> q_before s r"
  by (auto simp: q_before_def)

lemma q_before_irrefl: "\<not> q_before r r"
  by (simp add: q_before_def)

lemma q_before_negtrans: "\<not> q_before s m \<Longrightarrow> \<not> q_before m x \<Longrightarrow> \<not> q_before s x"
  by (auto simp: q_before_def)

lemma pick_next_best: "pick_next rs = Some r \<Longrightarrow> s \<in> set rs \<Longrightarrow> \<not> q_before s r"
proof (induction rs arbitrary: r)
  case (Cons x rs)
  show ?case
  proof (cases "pick_next rs")
    case None
    then have "rs = []" by (cases rs) (auto split: option.splits if_splits)
    with Cons.prems show ?thesis by (simp add: q_before_irrefl)
  next
    case (Some m)
    then have "\<not> q_before s m \<or> s = x" using Cons by auto
    with Some Cons.prems(1) show ?thesis
      by (auto split: if_splits simp: q_before_irrefl dest: q_before_asym q_before_negtrans)
  qed
qed simp

lemma pick_next_None_iff: "pick_next rs = None \<longleftrightarrow> rs = []"
  by (cases rs) (auto split: option.splits if_splits)

text \<open>What a claim does to the queue, on each of its outcomes.\<close>

lemma DequeueNext_cases:
  obtains (error) e where "DequeueNext flt now locked q ws = (q, Inl e)"
  | (empty) "DequeueNext flt now locked q ws = (q, Inr None)"
      "\<forall>r \<in> set q. \<not> (eligible now ws r \<and> \<not> locked (q_id r))"
  | (claimed) r where "DequeueNext flt now locked q ws =
        (mark_dispatched now (q_id r) q, Inr (Some (queued_item r)))"
      "r \<in> set q" "eligible now ws r" "\<not> locked (q_id r)"
      "\<And>s. s \<in> set q \<Longrightarrow> eligible now ws s \<Longrightarrow> \<not> locked (q_id s) \<Longrightarrow> \<not> q_before s r"
proof -
  let ?c = "filter (\<lambda>r. eligible now ws r \<and> \<not> locked (q_id r)) q"
  show thesis
  proof (cases "flt 0 \<or> flt 1 \<or> (pick_next ?c \<noteq> None \<and> (flt 2 \<or> flt 3))")
    case True
    then show thesis by (intro error [of ErrDB]) (auto simp: DequeueNext_def)
  next
    case False
    show thesis
    proof (cases "pick_next ?c")
      case None
      with False have "DequeueNext flt now locked q ws = (q, Inr None)"
        by (simp add: DequeueNext_def)
      moreover have "\<forall>r \<in> set q. \<not> (eligible now ws r \<and> \<not> locked (q_id r))"
        using None by (auto simp: pick_next_None_iff filter_empty_conv)
      ultimately show thesis by (rule empty)
    next
      case (Some r)
      with False have "DequeueNext flt now locked q ws =
          (mark_dispatched now (q_id r) q, Inr (Some (queued_item r)))"
        by (simp add: DequeueNext_def)
      moreover from Some have "r \<in> set ?c" by (rule pick_next_SomeD)
      moreover have "\<not> q_before s r" if "s \<in> set q" "eligible now ws s" "\<not> locked (q_id s)" for s
        using pick_next_best [OF Some, of s] that by simp
      ultimately show thesis by (intro claimed) auto
    qed
  qed
qed

lemma claim_inv: "q_inv s \<Longrightarrow> q_inv (q_step s (OpClaim flt now locked ws))"
proof -
  assume inv: "q_inv s"
  let ?q = "sys_queue s"
  show ?thesis
  proof (cases rule: DequeueNext_cases [of flt now locked ?q ws])
    case (error e)
    then show ?thesis using inv by simp
  next
    case empty
    then show ?thesis using inv by simp
  next
    case (claimed r)
    let ?f = "\<lambda>r. r\<lparr>q_status := Q_dispatched, q_dispatched_at := Some now,
                  q_attempts := q_attempts r + 1\<rparr>"
    have d: "distinct (map q_id ?q)" and u: "uniq_active ?q" and a: "\<forall>r \<in> set ?q. attempts_ok r"
      using inv by (auto simp: q_inv_def)
    have kp: "key_preserving ?f" by simp
    have st: "q_status r = Q_queued" using claimed(3) by (simp add: eligible_def)
    have only: "x = r" if "x \<in> set ?q" "q_id x = q_id r" for x
      using that claimed(2) d by (auto simp: distinct_map dest: inj_onD)
    have notin: "q_id r \<notin> set (sys_inflight s)"
      using row_status_member [OF d claimed(2)] st inv by (auto simp: q_inv_def)
    have "attempts_ok r" using a claimed(2) by blast
    then have att: "\<forall>x \<in> set ?q. q_id x = q_id r \<longrightarrow> attempts_ok (?f x)"
      using st by (auto simp: attempts_ok_def dest!: only)
    have act: "\<forall>x \<in> set ?q. q_id x = q_id r \<longrightarrow> q_active x"
      using only st by (auto simp: q_active_def)
    note rows = update_rows_ok [OF d u a kp act att]
    have stat: "row_status (mark_dispatched now (q_id r) ?q) i = Some Q_dispatched"
      if "i \<in> set (q_id r # sys_inflight s)" for i
    proof (cases "i = q_id r")
      case True
      then show ?thesis
        using select_first_distinct [OF d claimed(2)]
        by (simp add: mark_dispatched_def row_status_update_id)
    next
      case False
      with that inv show ?thesis
        by (simp add: mark_dispatched_def row_status_update_id q_inv_def)
    qed
    have "distinct (q_id r # sys_inflight s)"
      using notin inv by (simp add: q_inv_def)
    from q_invI(1) [OF rows [folded mark_dispatched_def] this stat]
    have "q_inv (s\<lparr>sys_queue := mark_dispatched now (q_id r) ?q,
        sys_inflight := q_id r # sys_inflight s\<rparr>)" .
    then show ?thesis by (simp add: claimed(1) queued_item_def)
  qed
qed

lemmas q_step_invs =
  supersede_inv insert_inv claim_inv complete_inv fail_inv transient_inv drop_inv

lemma q_step_inv: "q_inv s \<Longrightarrow> q_inv (q_step s op)"
  by (cases op) (simp_all only: q_step_invs q_step.simps(8) forget_inv)

lemma q_inv_empty: "q_inv q_empty"
  by (simp add: q_inv_def q_empty_def uniq_active_def)

section \<open>Terminal statuses\<close>

definition q_terminal :: "q_status \<Rightarrow> bool" where
  "q_terminal st \<longleftrightarrow> st = Q_completed \<or> st = Q_dropped \<or> st = Q_failed"

lemma terminal_settle:
  assumes "q_inv s" "i \<in> set (sys_inflight s)" "key_preserving f"
    "row_status (sys_queue s) k = Some st" "q_terminal st"
  shows "row_status (update_where (\<lambda>r. q_id r = i) f (sys_queue s)) k = Some st"
proof -
  have "k \<noteq> i" using assms(1,2,4,5) by (auto simp: q_inv_def q_terminal_def)
  with assms(3,4) show ?thesis by (simp add: row_status_update_id)
qed

lemma q_step_terminal:
  assumes inv: "q_inv s" and st: "row_status (sys_queue s) k = Some st" "q_terminal st"
  shows "row_status (sys_queue (q_step s op)) k = Some st"
proof (cases op)
  case (OpClaim flt now locked ws)
  show ?thesis
  proof (cases rule: DequeueNext_cases [of flt now locked "sys_queue s" ws])
    case (claimed r)
    have d: "distinct (map q_id (sys_queue s))" using inv by (simp add: q_inv_def)
    have "k \<noteq> q_id r"
      using row_status_member [OF d claimed(2)] claimed(3) st
      by (auto simp: eligible_def q_terminal_def)
    with st show ?thesis
      by (simp add: OpClaim claimed(1) mark_dispatched_def row_status_update_id)
  qed (use st OpClaim in auto)
next
  case (OpInsert now newid ws caller prio body meth key exp)
  then show ?thesis
    using st by (auto simp: insert_row_def row_status_def select_first_append split: option.splits)
next
  case (OpDrop flt now nowText locked ws age)
  then show ?thesis
    using st by (auto simp: DropStaleQueueItems_def Let_def stale_def q_terminal_def
        intro!: row_status_update_queued)
next
  case (OpSupersede now ws key)
  then show ?thesis
    using st by (auto simp: supersede_expired_def q_terminal_def
        intro!: row_status_update_queued)
qed (auto simp: st MarkQueueItemCompleted_def MarkQueueItemFailed_def
      MarkQueueItemTransientRetry_def intro!: terminal_settle inv)

interpretation qsys: forward_only_system q_step q_inv "\<lambda>s. row_status (sys_queue s)" q_terminal
  by unfold_locales (simp_all add: q_step_inv q_step_terminal)

section \<open>Properties\<close>

lemma uniq_active_count:
  assumes "uniq_active q"
  shows "length (filter (\<lambda>r. q_active r \<and> q_workspace_id r = ws \<and> q_idempotency_key r = Some key) q) \<le> 1"
proof -
  let ?f = "\<lambda>r. (q_workspace_id r, q_idempotency_key r)"
  have "filter (\<lambda>r. q_active r \<and> q_workspace_id r = ws \<and> q_idempotency_key r = Some key) q =
      filter (\<lambda>r. ?f r = (ws, Some key)) (filter keyed q)"
    by (auto simp: keyed_def intro: filter_cong)
  moreover have "length (filter (\<lambda>r. ?f r = y) xs) \<le> 1" if "distinct (map ?f xs)" for y and xs :: a2a_queue
    using that by (induction xs) (auto simp: filter_empty_conv image_iff)
  ultimately show ?thesis using assms by (simp only: uniq_active_def)
qed

text \<open>C1: whatever sequence of statements concurrent enqueuers, drainers and sweepers issue against an
  initially empty queue, faults and abandoned claims included: row ids are unique (the primary key
  refuses an insert under an id that exists), no row is claimed by two drainers at once, each claimed
  row is \<^verbatim>\<open>dispatched\<close>, the number of active rows per workspace and idempotency key is at most one, and
  the attempts of every row stay between zero and the cap of five.\<close>

theorem queue_invariant:
  "let s = foldl q_step q_empty ops in
     distinct (map q_id (sys_queue s)) \<and>
     distinct (sys_inflight s) \<and>
     (\<forall>i \<in> set (sys_inflight s). row_status (sys_queue s) i = Some Q_dispatched) \<and>
     (\<forall>ws key. length (filter (\<lambda>r. q_active r \<and> q_workspace_id r = ws \<and> q_idempotency_key r = Some key)
        (sys_queue s)) \<le> 1) \<and>
     (\<forall>r \<in> set (sys_queue s). 0 \<le> q_attempts r \<and> q_attempts r \<le> maxAttempts)"
proof -
  define s where "s = foldl q_step q_empty ops"
  have inv: "q_inv s" unfolding s_def by (rule qsys.inv_run [OF q_inv_empty])
  then have "uniq_active (sys_queue s)" by (simp add: q_inv_def)
  from uniq_active_count [OF this] inv show ?thesis
    unfolding Let_def s_def [symmetric] by (simp add: q_inv_def attempts_ok_def)
qed

theorem queue_invariant_witness:
  "let s = foldl q_step q_empty
       [OpInsert 0 ''i'' ''w'' None 50 ''b'' None (Some ''k'') None,
        OpInsert 0 ''j'' ''w'' None 50 ''b'' None (Some ''k'') None,
        OpClaim no_faults 1 (\<lambda>_. False) ''w''] in
     sys_inflight s = [''i''] \<and> row_status (sys_queue s) ''i'' = Some Q_dispatched"
proof -
  let ?ops = "[OpInsert 0 ''i'' ''w'' None 50 ''b'' None (Some ''k'') None,
        OpInsert 0 ''j'' ''w'' None 50 ''b'' None (Some ''k'') None,
        OpClaim no_faults 1 (\<lambda>_. False) ''w'']"
  have "sys_inflight (foldl q_step q_empty ?ops) = [''i'']"
    by (simp add: q_empty_def insert_row_def fresh_row_def same_key_def q_active_def
        DequeueNext_def eligible_def queued_item_def)
  with queue_invariant [of ?ops] show ?thesis
    unfolding Let_def by simp
qed

text \<open>C3: a row that is \<^verbatim>\<open>completed\<close>, \<^verbatim>\<open>dropped\<close> or \<^verbatim>\<open>failed\<close> after some sequence of statements keeps that
  status through every continuation: the updates of \<^verbatim>\<open>MarkQueueItem...\<close> carry no status guard,
  but only the holder of a claim issues them, and a claim is only ever made on a queued row.\<close>

theorem queue_terminal_final:
  assumes "row_status (sys_queue (foldl q_step q_empty ops)) i = Some st" and "q_terminal st"
  shows "row_status (sys_queue (foldl q_step q_empty (ops @ later_ops))) i = Some st"
  using qsys.terminal_run [OF qsys.inv_run [OF q_inv_empty] assms] by simp

theorem queue_terminal_final_witness:
  "row_status (sys_queue (foldl q_step q_empty
      ([OpInsert 0 ''i'' ''w'' None 50 ''b'' None None None, OpClaim no_faults 1 (\<lambda>_. False) ''w'',
        OpComplete no_faults 2 ''i'' ''ok''] @ [OpFail no_faults ''i'' ''late'']))) ''i'' = Some Q_completed"
proof (rule queue_terminal_final)
  show "row_status (sys_queue (foldl q_step q_empty
      [OpInsert 0 ''i'' ''w'' None 50 ''b'' None None None, OpClaim no_faults 1 (\<lambda>_. False) ''w'',
        OpComplete no_faults 2 ''i'' ''ok''])) ''i'' = Some Q_completed"
    by (simp add: q_empty_def insert_row_def fresh_row_def DequeueNext_def eligible_def
        queued_item_def mark_dispatched_def MarkQueueItemCompleted_def row_status_def)
qed (simp add: q_terminal_def)

text \<open>C2: \<^verbatim>\<open>DequeueNext\<close> without statement faults on a table with distinct ids: it returns no item
  exactly when no unlocked row of the workspace is queued, unexpired and past its back-off;
  otherwise it claims such a row, none of the others comes before it in (priority, then age),
  that row becomes \<^verbatim>\<open>dispatched\<close> with one more attempt, and no other row changes.\<close>

theorem DequeueNext_correct:
  assumes "distinct (map q_id q)"
  shows "(case DequeueNext no_faults now locked q ws of
      (q', Inl e) \<Rightarrow> False
    | (q', Inr None) \<Rightarrow> q' = q \<and> (\<forall>r \<in> set q. eligible now ws r \<longrightarrow> locked (q_id r))
    | (q', Inr (Some item)) \<Rightarrow>
        (\<exists>xs r ys. q = xs @ r # ys \<and> item = queued_item r \<and> eligible now ws r \<and> \<not> locked (q_id r) \<and>
           (\<forall>x \<in> set q. eligible now ws x \<and> \<not> locked (q_id x) \<longrightarrow> \<not> q_before x r) \<and>
           q' = xs @ r\<lparr>q_status := Q_dispatched, q_dispatched_at := Some now,
                       q_attempts := q_attempts r + 1\<rparr> # ys))"
proof (cases rule: DequeueNext_cases [of no_faults now locked q ws])
  case (error e)
  then show ?thesis by (simp add: DequeueNext_def split: option.splits)
next
  case empty
  then show ?thesis by auto
next
  case (claimed r)
  obtain xs ys where q: "q = xs @ r # ys" using split_list [OF claimed(2)] by blast
  have other: "x \<in> set xs \<or> x \<in> set ys \<Longrightarrow> q_id x \<noteq> q_id r" for x
    using assms unfolding q by (force simp: image_iff)
  have "mark_dispatched now (q_id r) q =
      xs @ r\<lparr>q_status := Q_dispatched, q_dispatched_at := Some now,
            q_attempts := q_attempts r + 1\<rparr> # ys"
    using other by (simp add: q mark_dispatched_def update_where_no_match)
  then show ?thesis
    using claimed q by (auto intro!: exI [of _ xs])
qed

theorem DequeueNext_correct_witness:
  "\<exists>q' item. DequeueNext no_faults 7 (\<lambda>_. False)
      [fresh_row 1 ''a'' ''w'' None 50 ''x'' None None None,
       fresh_row 2 ''b'' ''w'' None 100 ''y'' None None None] ''w'' = (q', Inr (Some item))
     \<and> item = queued_item (fresh_row 2 ''b'' ''w'' None 100 ''y'' None None None)"
proof -
  let ?q = "[fresh_row 1 ''a'' ''w'' None 50 ''x'' None None None,
       fresh_row 2 ''b'' ''w'' None 100 ''y'' None None None]"
  have d: "distinct (map q_id ?q)" by (simp add: fresh_row_def)
  show ?thesis
    using DequeueNext_correct [OF d, where now = 7 and locked = "\<lambda>_. False" and ws = "''w''"]
    by (simp add: DequeueNext_def eligible_def q_before_def fresh_row_def)
qed

definition fail_cycle :: "instant \<Rightarrow> string \<Rightarrow> q_row \<Rightarrow> q_row" where
  "fail_cycle now msg r =
     hd (MarkQueueItemFailed no_faults (mark_dispatched now (q_id r) [r]) (q_id r) msg)"

lemma fail_cycle_simps:
  "q_attempts (fail_cycle now msg r) = q_attempts r + 1"
  "q_status (fail_cycle now msg r) = (if maxAttempts \<le> q_attempts r + 1 then Q_failed else Q_queued)"
  by (simp_all add: fail_cycle_def mark_dispatched_def MarkQueueItemFailed_def)

text \<open>Five failing dispatches exhaust a queued row: a row with no attempts yet that is claimed and
  failed \<open>n\<close> times is still queued as long as \<open>n\<close> is below five, and the fifth cycle makes it
  \<^verbatim>\<open>failed\<close>, so a request that cannot be delivered does not circulate forever.\<close>

theorem fail_cap:
  assumes "q_attempts r = 0" and "0 < n"
  shows "q_status ((fail_cycle now msg ^^ n) r) =
    (if int n < maxAttempts then Q_queued else Q_failed)"
proof -
  have att: "q_attempts ((fail_cycle now msg ^^ k) r) = int k" for k
    using assms(1) by (induction k) (simp_all add: fail_cycle_simps)
  from assms(2) obtain m where n: "n = Suc m" by (cases n) auto
  show ?thesis
    using att [of m] by (simp add: n fail_cycle_simps maxAttempts_def)
qed

theorem fail_cap_witness:
  "q_status ((fail_cycle 1 ''down'' ^^ 5) (fresh_row 0 ''a'' ''w'' None 50 ''x'' None None None)) = Q_failed
   \<and> q_status ((fail_cycle 1 ''down'' ^^ 4) (fresh_row 0 ''a'' ''w'' None 50 ''x'' None None None)) = Q_queued"
  using fail_cap [of "fresh_row 0 ''a'' ''w'' None 50 ''x'' None None None" 5 1 "''down''"]
    fail_cap [of "fresh_row 0 ''a'' ''w'' None 50 ''x'' None None None" 4 1 "''down''"]
  by (simp add: fresh_row_def maxAttempts_def)

text \<open>A transient gateway failure does not count: after \<^verbatim>\<open>MarkQueueItemTransientRetry\<close> of a claimed
  row the attempt counter is what it was before the claim, and for the next five seconds no
  \<^verbatim>\<open>DequeueNext\<close> of any drainer returns that row again.\<close>

theorem transient_retry_backoff:
  assumes "distinct (map q_id q)" and "r \<in> set q" and "0 \<le> q_attempts r"
    and "now \<le> later" and "later < now + 5 * second"
  shows "let q' = MarkQueueItemTransientRetry no_faults now (mark_dispatched now (q_id r) q) (q_id r) msg in
     map_option q_attempts (select_first (\<lambda>x. q_id x = q_id r) q') = Some (q_attempts r) \<and>
     row_status q' (q_id r) = Some Q_queued \<and>
     (\<forall>flt locked ws q'' item. DequeueNext flt later locked q' ws = (q'', Inr (Some item)) \<longrightarrow>
        qi_ID item \<noteq> q_id r)"
proof -
  define q' where "q' = MarkQueueItemTransientRetry no_faults now
      (mark_dispatched now (q_id r) q) (q_id r) msg"
  have sel: "select_first (\<lambda>x. q_id x = q_id r) q = Some r"
    by (rule select_first_distinct [OF assms(1,2)])
  obtain r' where r': "select_first (\<lambda>x. q_id x = q_id r) q' = Some r'"
    "q_attempts r' = q_attempts r" "q_status r' = Q_queued"
    "q_next_attempt_at r' = Some (now + 5 * second)"
    using sel assms(3)
    by (simp add: q'_def MarkQueueItemTransientRetry_def mark_dispatched_def select_key_update
        transientRetryBackoffSecs_def)
  have dist: "distinct (map q_id q')"
    using assms(1)
    by (simp add: q'_def MarkQueueItemTransientRetry_def mark_dispatched_def map_update_where)
  have "qi_ID item \<noteq> q_id r" if "DequeueNext flt later locked q' ws = (q'', Inr (Some item))"
    for flt locked ws q'' item
  proof (cases rule: DequeueNext_cases [of flt later locked q' ws])
    case (claimed x)
    have "q_id x \<noteq> q_id r"
    proof
      assume "q_id x = q_id r"
      then have "x = r'"
        using select_first_distinct [OF dist claimed(2)] r'(1) by simp
      with claimed(3) r'(4) assms(5) show False by (simp add: eligible_def)
    qed
    with that claimed(1) show ?thesis by (auto simp: queued_item_def)
  qed (use that in auto)
  with r' show ?thesis
    unfolding Let_def q'_def [symmetric] by (auto simp: row_status_def)
qed

theorem transient_retry_backoff_witness:
  "let q' = MarkQueueItemTransientRetry no_faults 3
      (mark_dispatched 3 ''a'' [fresh_row 0 ''a'' ''w'' None 50 ''x'' None None None]) ''a'' ''502'' in
     row_status q' ''a'' = Some Q_queued \<and>
     \<not> (\<exists>q'' item. DequeueNext no_faults 4 (\<lambda>_. False) q' ''w'' = (q'', Inr (Some item)) \<and>
          qi_ID item = ''a'')"
  using transient_retry_backoff
    [of "[fresh_row 0 ''a'' ''w'' None 50 ''x'' None None None]"
      "fresh_row 0 ''a'' ''w'' None 50 ''x'' None None None" 3 4 "''502''"]
  by (auto simp: Let_def fresh_row_def second_def)

text \<open>The outcome of an enqueue under a key: an active row with that key, the first in the table.\<close>

lemma insert_row_keyed:
  assumes "q_idempotency_key r = Some key" "q_status r = Q_queued" "insert_row q r = (q', res)"
  shows "\<exists>x. select_first (\<lambda>x. same_key (q_workspace_id r) key x \<and> q_active x) q' = Some x \<and>
    (case res of None \<Rightarrow> True | Some i \<Rightarrow> i = q_id x)"
proof (cases "list_ex (\<lambda>s. same_key (q_workspace_id r) key s \<and> q_active s) q")
  case True
  then have "select_first (\<lambda>x. same_key (q_workspace_id r) key x \<and> q_active x) q \<noteq> None"
    by (auto simp: select_first_None_iff list_ex_iff)
  with True assms show ?thesis by (auto simp: insert_row_def)
next
  case False
  then have "select_first (\<lambda>x. same_key (q_workspace_id r) key x \<and> q_active x) q = None"
    by (auto simp: select_first_None_iff list_ex_iff)
  with False assms show ?thesis
    by (auto simp: insert_row_def select_first_append same_key_def q_active_def)
qed

lemma EnqueueA2A_keyed:
  assumes "key \<noteq> []"
  obtains q' x where
    "EnqueueA2A no_faults now newid q ws caller prio body method key exp =
       (q', Inr (q_id x, queue_depth q' ws))"
    "select_first (\<lambda>r. same_key ws key r \<and> q_active r) q' = Some x"
proof -
  let ?row = "fresh_row now newid ws
     (if caller \<noteq> [] \<and> \<not> isSystemCaller caller then Some caller else None) prio body
     (nullif_empty method) (nullif_empty key) exp"
  obtain q' res where ins: "insert_row (supersede_expired now ws key q) ?row = (q', res)"
    by fastforce
  have row: "q_workspace_id ?row = ws" "q_status ?row = Q_queued"
    "q_idempotency_key ?row = Some key"
    using assms by (simp_all add: fresh_row_def)
  obtain x where x: "select_first (\<lambda>x. same_key ws key x \<and> q_active x) q' = Some x"
    "case res of None \<Rightarrow> True | Some i \<Rightarrow> i = q_id x"
    using insert_row_keyed [OF row(3,2) ins, unfolded row(1)] by blast
  have "EnqueueA2A no_faults now newid q ws caller prio body method key exp =
       (q', Inr (q_id x, queue_depth q' ws))"
  proof (cases res)
    case None
    with ins assms x(1) show ?thesis by (simp add: EnqueueA2A_def Let_def)
  next
    case (Some i)
    with ins assms x(2) show ?thesis by (simp add: EnqueueA2A_def Let_def)
  qed
  with x(1) that show thesis by blast
qed

text \<open>A repeated insert under the key of an unexpired active row changes nothing and reports it.\<close>

lemma EnqueueA2A_collapse:
  assumes "key \<noteq> []" "select_first (\<lambda>r. same_key ws key r \<and> q_active r) q = Some x"
    and "\<And>r e. r \<in> set q \<Longrightarrow> same_key ws key r \<Longrightarrow> q_status r = Q_queued \<Longrightarrow>
           q_expires_at r = Some e \<Longrightarrow> now < e"
  shows "EnqueueA2A no_faults now newid q ws caller prio body method key exp =
     (q, Inr (q_id x, queue_depth q ws))"
proof -
  have sup: "supersede_expired now ws key q = q"
    unfolding supersede_expired_def
    by (rule update_where_no_match) (use assms(3) in \<open>fastforce split: option.splits\<close>)
  have ex: "list_ex (\<lambda>s. same_key ws key s \<and> q_active s) q"
    using select_first_SomeD [OF assms(2)] by (auto simp: list_ex_iff)
  have "insert_row q (fresh_row now newid ws c prio body m (nullif_empty key) exp) = (q, None)" for c m
    using assms(1) ex by (auto simp: insert_row_def fresh_row_def split: option.splits)
  then show ?thesis
    using assms(1,2) by (simp add: EnqueueA2A_def Let_def sup)
qed

text \<open>C4: an enqueue under a non-empty idempotency key succeeds when no statement fails and names an
  active row of that workspace and key; enqueuing again under the same key, before that row
  expires, adds no row and returns the same queue id, whatever the second body.\<close>

theorem EnqueueA2A_idempotent:
  assumes "key \<noteq> []"
    and "EnqueueA2A no_faults now newid q ws caller prio body method key exp = (q1, res)"
    and "\<And>r e. r \<in> set q1 \<Longrightarrow> same_key ws key r \<Longrightarrow> q_status r = Q_queued \<Longrightarrow>
           q_expires_at r = Some e \<Longrightarrow> now2 < e"
  shows "\<exists>x \<in> set q1. res = Inr (q_id x, queue_depth q1 ws) \<and> same_key ws key x \<and> q_active x \<and>
     EnqueueA2A no_faults now2 newid2 q1 ws caller2 prio2 body2 method2 key exp2 =
       (q1, Inr (q_id x, queue_depth q1 ws))"
proof -
  obtain q' x where e: "EnqueueA2A no_faults now newid q ws caller prio body method key exp =
       (q', Inr (q_id x, queue_depth q' ws))"
    and x: "select_first (\<lambda>r. same_key ws key r \<and> q_active r) q' = Some x"
    by (rule EnqueueA2A_keyed [OF assms(1)])
  have q': "q' = q1" and res: "res = Inr (q_id x, queue_depth q1 ws)"
    using e assms(2) by auto
  have "EnqueueA2A no_faults now2 newid2 q1 ws caller2 prio2 body2 method2 key exp2 =
       (q1, Inr (q_id x, queue_depth q1 ws))"
    by (rule EnqueueA2A_collapse [OF assms(1) x [unfolded q']]) (rule assms(3))
  with select_first_SomeD [OF x] res q' show ?thesis by blast
qed

theorem EnqueueA2A_idempotent_witness:
  "\<exists>q1 res. EnqueueA2A no_faults 0 ''a'' [] ''w'' [] 50 ''x'' [] ''k'' None = (q1, res) \<and>
     (\<exists>x \<in> set q1. res = Inr (q_id x, queue_depth q1 ''w'') \<and> same_key ''w'' ''k'' x \<and> q_active x \<and>
       EnqueueA2A no_faults 9 ''b'' q1 ''w'' [] 50 ''y'' [] ''k'' None =
         (q1, Inr (q_id x, queue_depth q1 ''w'')))"
proof -
  obtain q1 res where e: "EnqueueA2A no_faults 0 ''a'' [] ''w'' [] 50 ''x'' [] ''k'' None = (q1, res)"
    by fastforce
  have "q1 = [fresh_row 0 ''a'' ''w'' None 50 ''x'' None (Some ''k'') None]"
    using e by (simp add: EnqueueA2A_def Let_def insert_row_def fresh_row_def supersede_expired_def
        no_faults_def)
  then have fr: "\<And>r e. r \<in> set q1 \<Longrightarrow> q_expires_at r = Some e \<Longrightarrow> 9 < e"
    by (simp add: fresh_row_def)
  have "\<exists>x \<in> set q1. res = Inr (q_id x, queue_depth q1 ''w'') \<and> same_key ''w'' ''k'' x \<and> q_active x \<and>
       EnqueueA2A no_faults 9 ''b'' q1 ''w'' [] 50 ''y'' [] ''k'' None =
         (q1, Inr (q_id x, queue_depth q1 ''w''))"
    by (rule EnqueueA2A_idempotent [OF _ e]) (simp_all add: fr)
  with e show ?thesis by blast
qed

section \<open>Re-queueing from the drain\<close>

text \<open>The active row of a key is the only one: what the partial unique index gives.\<close>

lemma uniq_activeD:
  assumes "uniq_active q" "r \<in> set q" "x \<in> set q" "same_key ws key r" "same_key ws key x"
    "q_active r" "q_active x"
  shows "x = r"
proof -
  have "r \<in> set (filter keyed q)" "x \<in> set (filter keyed q)"
    using assms by (auto simp: keyed_def same_key_def)
  moreover have "inj_on (\<lambda>r. (q_workspace_id r, q_idempotency_key r)) (set (filter keyed q))"
    using assms(1) by (simp add: uniq_active_def distinct_map)
  ultimately show ?thesis
    using assms(4,5) by (auto simp: same_key_def dest!: inj_onD)
qed

lemma claimed_row_collapse:
  assumes "uniq_active q" "distinct (map q_id q)" "r \<in> set q" "q_status r = Q_queued"
    "same_key ws key r" "key \<noteq> []"
  shows "EnqueueA2A no_faults now newid (mark_dispatched t (q_id r) q) ws caller prio body method key exp =
     (mark_dispatched t (q_id r) q, Inr (q_id r, queue_depth (mark_dispatched t (q_id r) q) ws))"
proof -
  let ?f = "\<lambda>r. r\<lparr>q_status := Q_dispatched, q_dispatched_at := Some t, q_attempts := q_attempts r + 1\<rparr>"
  have only: "y = ?f r" if y: "y \<in> set (mark_dispatched t (q_id r) q)" "same_key ws key y" "q_active y" for y
  proof -
    obtain x where x: "x \<in> set q" "y = (if q_id x = q_id r then ?f x else x)"
      using y(1) by (auto simp: mark_dispatched_def set_update_where)
    show ?thesis
    proof (cases "q_id x = q_id r")
      case True
      then have "x = r" using assms(2,3) x(1) by (auto simp: distinct_map dest: inj_onD)
      with x True show ?thesis by simp
    next
      case False
      then have "y = r"
        using uniq_activeD [OF assms(1,3) x(1) assms(5)] x(2) y assms(4) by (simp add: q_active_def)
      with False x show ?thesis by simp
    qed
  qed
  have mem: "?f r \<in> set (mark_dispatched t (q_id r) q)"
    using assms(3) by (force simp: mark_dispatched_def set_update_where)
  have act: "same_key ws key (?f r) \<and> q_active (?f r)"
    using assms(5) by (simp add: same_key_def q_active_def)
  obtain x where x: "select_first (\<lambda>r. same_key ws key r \<and> q_active r) (mark_dispatched t (q_id r) q) = Some x"
    using mem act by (metis not_Some_eq select_first_None_iff)
  then have "x = ?f r" using select_first_SomeD [OF x] only by blast
  then have "q_id x = q_id r" by simp
  moreover have "EnqueueA2A no_faults now newid (mark_dispatched t (q_id r) q) ws caller prio body method key exp =
     (mark_dispatched t (q_id r) q, Inr (q_id x, queue_depth (mark_dispatched t (q_id r) q) ws))"
  proof (rule EnqueueA2A_collapse [OF assms(6) x])
    fix y e assume y: "y \<in> set (mark_dispatched t (q_id r) q)" "same_key ws key y" "q_status y = Q_queued"
    then have "y = ?f r" using only by (simp add: q_active_def)
    with y(3) show "now < e" by simp
  qed
  ultimately show ?thesis by simp
qed

text \<open>C16: a drain that finds its target still busy loses the message. The proxy queues the request
  under the message id, which is the idempotency key of the very row being drained; that row
  is \<^verbatim>\<open>dispatched\<close>, hence still active, so the insert collapses onto it and no new row appears.
  The drain then marks the row \<^verbatim>\<open>completed\<close> with no response: no active row for the message is
  left, although it was never delivered.\<close>

theorem drain_busy_loses_message:
  assumes "q_inv \<lparr>sys_queue = ds_queue s, sys_inflight = l\<rparr>"
    and "DequeueNext no_faults now (env_locked env) (ds_queue s) ws = (q', Inr (Some (queued_item r)))"
    and "r \<in> set (ds_queue s)" and "key_of (q_body r) \<noteq> []"
    and "q_idempotency_key r = Some (key_of (q_body r))"
    and "env_now env = now" and "env_deq env = no_faults" and "env_mark env = no_faults"
    and "env_proxy env = (\<lambda>q item caller. handleA2ADispatchError_busy key_of ttl_of marshal no_faults now
            newid a2aMethod (qi_WorkspaceID item) caller (qi_Body item) q)"
  shows "let q'' = ds_queue (fst (drain_step cfg env ws s)) in
     length q'' = length (ds_queue s) \<and>
     (\<exists>x \<in> set q''. q_id x = q_id r \<and> q_status x = Q_completed \<and> q_response_body x = None) \<and>
     (\<forall>x \<in> set q''. same_key (q_workspace_id r) (key_of (q_body r)) x \<longrightarrow> \<not> q_active x)"
proof -
  let ?q = "ds_queue s"
  let ?c = "\<lambda>r. r\<lparr>q_status := Q_completed, q_completed_at := Some now, q_response_body := None\<rparr>"
  have d: "distinct (map q_id ?q)" and u: "uniq_active ?q"
    using assms(1) by (simp_all add: q_inv_def)
  have q': "q' = mark_dispatched now (q_id r) ?q" and st: "q_status r = Q_queued"
  proof -
    obtain r2 where r2: "q' = mark_dispatched now (q_id r2) ?q" "queued_item r2 = queued_item r"
      "r2 \<in> set ?q" "eligible now ws r2"
      by (cases rule: DequeueNext_cases [of no_faults now "env_locked env" ?q ws]) (use assms(2) in auto)
    then have "q_id r2 = q_id r" by (simp add: queued_item_def)
    then have "r2 = r" using r2(3) assms(3) d by (auto simp: distinct_map dest: inj_onD)
    with r2 show "q' = mark_dispatched now (q_id r) ?q" "q_status r = Q_queued"
      by (simp_all add: eligible_def)
  qed
  have sk: "same_key (q_workspace_id r) (key_of (q_body r)) r" using assms(5) by (simp add: same_key_def)
  note enq = claimed_row_collapse [OF u d assms(3) st sk assms(4)]
  have res: "ds_queue (fst (drain_step cfg env ws s)) =
      update_where (\<lambda>x. q_id x = q_id r) ?c (mark_dispatched now (q_id r) ?q)"
    using assms(2,6-9)
    by (simp add: drain_step_def queued_item_def handleA2ADispatchError_busy_def q' enq
        MarkQueueItemCompleted_def)
  have fin: "update_where (\<lambda>x. q_id x = q_id r) ?c (mark_dispatched now (q_id r) ?q) =
     update_where (\<lambda>x. q_id x = q_id r)
       (\<lambda>x. x\<lparr>q_dispatched_at := Some now, q_attempts := q_attempts x + 1, q_status := Q_completed,
             q_completed_at := Some now, q_response_body := None\<rparr>) ?q"
    unfolding mark_dispatched_def by (subst update_where_twice) simp_all
  let ?g = "\<lambda>x. x\<lparr>q_dispatched_at := Some now, q_attempts := q_attempts x + 1, q_status := Q_completed,
             q_completed_at := Some now, q_response_body := None\<rparr>"
  have rest: "\<not> q_active y" if "y \<in> set ?q" "q_id y \<noteq> q_id r"
    "same_key (q_workspace_id r) (key_of (q_body r)) y" for y
    using uniq_activeD [OF u assms(3) that(1) sk that(3)] that(2) st by (auto simp: q_active_def)
  have mem: "?g r \<in> set (update_where (\<lambda>x. q_id x = q_id r) ?g ?q)"
    using imageI [OF assms(3), of "\<lambda>x. if q_id x = q_id r then ?g x else x"]
    by (simp add: set_update_where)
  have "\<not> q_active y" if y: "y \<in> set (update_where (\<lambda>x. q_id x = q_id r) ?g ?q)"
    "same_key (q_workspace_id r) (key_of (q_body r)) y" for y
  proof -
    obtain x where x: "x \<in> set ?q" "y = (if q_id x = q_id r then ?g x else x)"
      using y(1) by (auto simp: set_update_where)
    show ?thesis
      using x y(2) rest by (cases "q_id x = q_id r") (simp_all add: q_active_def)
  qed
  with mem show ?thesis
    unfolding Let_def res fin by (intro conjI ballI impI bexI [OF _ mem]) simp_all
qed

definition quiet_config :: drain_config where
  "quiet_config = \<lparr>cfg_delegation_id = (\<lambda>_. []), cfg_response_text = (\<lambda>_. []), cfg_has_broadcaster = False\<rparr>"

theorem drain_busy_loses_message_witness:
  "let r = fresh_row 0 ''a'' ''w'' None 50 ''body'' None (Some ''k'') None;
       env = \<lparr>env_now = 7, env_locked = (\<lambda>_. False), env_deq = no_faults, env_mark = no_faults,
              env_stitch = no_faults, env_lastHB = None,
              env_proxy = (\<lambda>q item caller. handleA2ADispatchError_busy (\<lambda>_. ''k'') (\<lambda>_. 0) (\<lambda>_. []) no_faults 7
                 ''b'' ''message/send'' (qi_WorkspaceID item) caller (qi_Body item) q)\<rparr>;
       q'' = ds_queue (fst (drain_step quiet_config env ''w'' \<lparr>ds_queue = [r], ds_activity = [], ds_events = []\<rparr>))
   in length q'' = 1 \<and> (\<forall>x \<in> set q''. same_key ''w'' ''k'' x \<longrightarrow> \<not> q_active x)"
proof -
  let ?r = "fresh_row 0 ''a'' ''w'' None 50 ''body'' None (Some ''k'') None"
  let ?s = "\<lparr>ds_queue = [?r], ds_activity = [], ds_events = []\<rparr>"
  let ?env = "\<lparr>env_now = 7, env_locked = (\<lambda>_. False), env_deq = no_faults, env_mark = no_faults,
              env_stitch = no_faults, env_lastHB = None,
              env_proxy = (\<lambda>q item caller. handleA2ADispatchError_busy (\<lambda>_. ''k'') (\<lambda>_. 0) (\<lambda>_. []) no_faults 7
                 ''b'' ''message/send'' (qi_WorkspaceID item) caller (qi_Body item) q)\<rparr>"
  have inv: "q_inv \<lparr>sys_queue = ds_queue ?s, sys_inflight = []\<rparr>"
    by (simp add: q_inv_def uniq_active_def fresh_row_def attempts_ok_def maxAttempts_def keyed_def q_active_def)
  have deq: "DequeueNext no_faults 7 (env_locked ?env) (ds_queue ?s) ''w'' =
      (mark_dispatched 7 ''a'' [?r], Inr (Some (queued_item ?r)))"
    by (simp add: DequeueNext_def eligible_def fresh_row_def)
  show ?thesis
    using drain_busy_loses_message [OF inv deq, where key_of = "\<lambda>_. ''k''" and cfg = quiet_config
        and ttl_of = "\<lambda>_. 0" and marshal = "\<lambda>_. []" and newid = "''b''" and a2aMethod = "''message/send''"]
    by (simp add: Let_def fresh_row_def)
qed

text \<open>
  A row that was never attempted has a NULL \<^verbatim>\<open>last_error\<close>, and appending to NULL gives NULL:
  such a row is dropped without the reason the statement means to leave behind.
\<close>

lemma drop_reason_lost:
  assumes "enq < now - minute * age" "ws = [] \<or> ws = w" "\<not> locked i"
  shows "DropStaleQueueItems no_faults now nowText locked [fresh_row enq i w c prio b m k e] ws age =
    ([(fresh_row enq i w c prio b m k e)\<lparr>q_status := Q_dropped\<rparr>], Inr 1)"
  using assms by (auto simp: DropStaleQueueItems_def Let_def stale_def fresh_row_def)

end
