(* ===== verification/Request_Props.thy ===== *)
theory Request_Props
  imports Request_Nudge Requests_Handler A2A_Queue_Props
begin

text \<open>
  Properties of the requests inbox: the life cycle of a request under every sequence of store
  calls and sweeps, the separation of requester and responder, the isolation of the
  workspace-token routes, the delivery of outcomes through the enqueue interface (a locale,
  interpreted by \<^verbatim>\<open>EnqueueA2A\<close>), the nudge rate limit and the array round trip.
\<close>

section \<open>The enqueue interface\<close>

locale enqueue_port =
  fixes enq :: "'q enqueueFunc"
    and waiting :: "'q \<Rightarrow> uuid \<Rightarrow> string \<Rightarrow> bool"
  assumes enq_waiting:
      "key \<noteq> [] \<Longrightarrow> enq q ws caller prio body method key exp = (q', Inr res) \<Longrightarrow> waiting q' ws key"
    and enq_frame:
      "\<not> (ws' = ws \<and> key' = key) \<Longrightarrow>
        waiting (fst (enq q ws caller prio body method key exp)) ws' key' = waiting q ws' key'"
begin

lemma notify_waiting:
  assumes "re_enqueue env = enq" and "idemKey \<noteq> []"
    and "\<not> isl (snd (enq (rs_queue s) (r_requester_id req) [] PriorityInfo
           (notify_body env idemKey note) ''message/send'' idemKey None))"
  shows "waiting (rs_queue (notifyRequesterAgent env s req idemKey note)) (r_requester_id req) idemKey"
proof -
  obtain q' res where e: "enq (rs_queue s) (r_requester_id req) [] PriorityInfo
      (notify_body env idemKey note) ''message/send'' idemKey None = (q', Inr res)"
    using assms(3) by (metis isl_def prod.collapse sum.collapse(2))
  then show ?thesis
    using enq_waiting [OF assms(2) e] assms(1) by (simp add: notifyRequesterAgent_def)
qed

lemma notify_frame:
  assumes "re_enqueue env = enq" and "\<not> (ws = r_requester_id req \<and> key = idemKey)"
  shows "waiting (rs_queue (notifyRequesterAgent env s req idemKey note)) ws key =
    waiting (rs_queue s) ws key"
  using enq_frame [OF assms(2)] assms(1) by (simp add: notifyRequesterAgent_def)

end

definition turn_waiting :: "a2a_queue \<Rightarrow> uuid \<Rightarrow> string \<Rightarrow> bool" where
  "turn_waiting q ws key \<longleftrightarrow> list_ex (\<lambda>r. same_key ws key r \<and> q_active r) q"

lemma insert_row_waiting:
  "turn_waiting (fst (insert_row q r)) ws key \<longleftrightarrow>
     turn_waiting q ws key \<or> (same_key ws key r \<and> q_active r)"
  by (auto simp: insert_row_def turn_waiting_def list_ex_iff same_key_def split: option.splits)

lemma supersede_frame:
  "\<not> (ws' = ws \<and> key' = key) \<Longrightarrow>
    turn_waiting (supersede_expired now ws key q) ws' key' = turn_waiting q ws' key'"
  unfolding turn_waiting_def supersede_expired_def
  by (induction q) (auto simp: same_key_def)

lemma fst_case_sum: "fst (case x of Inl e \<Rightarrow> (a, f e) | Inr y \<Rightarrow> (a, g y)) = a"
  by (cases x) simp_all

lemma EnqueueA2A_table:
  "fst (EnqueueA2A flt now newid q ws caller prio body method key exp) =
     (let q1 = (if key \<noteq> [] \<and> \<not> flt 0 then supersede_expired now ws key q else q);
          r = fresh_row now newid ws
                (if caller \<noteq> [] \<and> \<not> isSystemCaller caller then Some caller else None)
                prio body (nullif_empty method) (nullif_empty key) exp
      in if flt 1 then q1 else fst (insert_row q1 r))"
  by (simp add: EnqueueA2A_def Let_def fst_case_sum case_prod_beta)

lemma EnqueueA2A_ok_inserts:
  assumes "snd (EnqueueA2A flt now newid q ws caller prio body method key exp) = Inr res"
  shows "\<not> flt 1"
  using assms by (auto simp: EnqueueA2A_def Let_def split: if_splits)

interpretation a2a: enqueue_port "EnqueueA2A flt now newid" turn_waiting for flt now newid
proof
  fix key ws caller body meth :: string and q prio exp q' res
  assume k: "key \<noteq> []" and e: "EnqueueA2A flt now newid q ws caller prio body meth key exp = (q', Inr res)"
  then have "\<not> flt 1" using EnqueueA2A_ok_inserts by (metis snd_conv)
  moreover have "q' = fst (EnqueueA2A flt now newid q ws caller prio body meth key exp)" using e by simp
  ultimately show "turn_waiting q' ws key"
    using k by (auto simp: EnqueueA2A_table Let_def insert_row_waiting fresh_row_def same_key_def
        q_active_def nullif_empty_def)
next
  fix ws' ws key' key caller body meth :: string and q prio exp
  assume "\<not> (ws' = ws \<and> key' = key)"
  then show "turn_waiting (fst (EnqueueA2A flt now newid q ws caller prio body meth key exp)) ws' key' =
      turn_waiting q ws' key'"
    by (auto simp: EnqueueA2A_table Let_def insert_row_waiting supersede_frame fresh_row_def same_key_def)
qed

section \<open>The invariant of the store\<close>

definition req_answered :: "RequestRow \<Rightarrow> bool" where
  "req_answered r \<longleftrightarrow>
     (r_kind r = ''approval'' \<and> (r_status r = ''approved'' \<or> r_status r = ''rejected'')) \<or>
     (r_kind r = ''task'' \<and> (r_status r = ''done'' \<or> r_status r = ''rejected''))"

definition req_row_ok :: "RequestRow \<Rightarrow> bool" where
  "req_row_ok r \<longleftrightarrow>
     (r_kind r = ''task'' \<or> r_kind r = ''approval'') \<and>
     (if req_open (r_status r) \<or> r_status r = ''cancelled''
      then r_responder_type r = None \<and> r_responder_id r = None \<and> r_responded_at r = None
      else req_answered r \<and> r_responded_at r \<noteq> None \<and>
        (\<exists>t j. r_responder_type r = Some t \<and> r_responder_id r = Some j \<and> validParty t \<and>
           \<not> (t = r_requester_type r \<and> j = r_requester_id r)))"

definition req_inv :: "'q req_state \<Rightarrow> bool" where
  "req_inv s \<longleftrightarrow> distinct (map r_id (rs_requests s)) \<and> (\<forall>r \<in> set (rs_requests s). req_row_ok r) \<and>
     (\<forall>m \<in> set (rs_messages s). m_request_id m \<in> r_id ` set (rs_requests s))"

definition req_status :: "'q req_state \<Rightarrow> uuid \<Rightarrow> string option" where
  "req_status s i = map_option r_status (select_first (\<lambda>r. r_id r = i) (rs_requests s))"

definition req_terminal :: "string \<Rightarrow> bool" where
  "req_terminal st \<longleftrightarrow> \<not> req_open st"

text \<open>The calls that change the store, each with its own surroundings.\<close>

datatype 'q req_op =
    RCreate "'q req_env" CreateRequestInput
  | RRespond "'q req_env" uuid string string string
  | RInfo "'q req_env" uuid
  | RMessage "'q req_env" uuid string string string
  | RCancel "'q req_env" uuid
  | RNudge RequestNudgeSweeper "'q nudge_env" instant ws_table

fun req_step :: "'q req_state \<Rightarrow> 'q req_op \<Rightarrow> 'q req_state" where
  "req_step s (RCreate env i) = fst (Store_Create env s i)"
| "req_step s (RRespond env i action rt rid) = fst (Store_Respond env s i action rt rid)"
| "req_step s (RInfo env i) = fst (Store_RequestInfo env s i)"
| "req_step s (RMessage env i at aid body) = fst (Store_AddMessage env s i at aid body)"
| "req_step s (RCancel env i) = fst (Store_Cancel env s i)"
| "req_step s (RNudge sw env now wst) = fst (Nudge_Sweep sw env now wst s)"

lemma side_effects [simp]:
  "rs_requests (record_event f t e p s) = rs_requests s"
  "rs_messages (record_event f t e p s) = rs_messages s"
  "rs_queue (record_event f t e p s) = rs_queue s"
  "rs_requests (notifyRequesterAgent env s req k note) = rs_requests s"
  "rs_messages (notifyRequesterAgent env s req k note) = rs_messages s"
  by (simp_all add: record_event_def notifyRequesterAgent_def)

text \<open>Every call leaves the requests alone, appends one, or rewrites open rows in place.\<close>

lemma req_inv_cong:
  "rs_requests s' = rs_requests s \<Longrightarrow> rs_messages s' = rs_messages s \<Longrightarrow> req_inv s' = req_inv s"
  by (simp add: req_inv_def)

lemma req_inv_update:
  assumes "req_inv s" and "rs_requests s' = update_where P f (rs_requests s)"
    and "rs_messages s' = rs_messages s" and "\<forall>r. r_id (f r) = r_id r"
    and "\<forall>r \<in> set (rs_requests s). P r \<longrightarrow> req_row_ok (f r)"
  shows "req_inv s'"
proof -
  have ids: "map r_id (rs_requests s') = map r_id (rs_requests s)"
    using assms(2,4) by (simp add: map_update_where)
  then have "r_id ` set (rs_requests s') = r_id ` set (rs_requests s)"
    by (metis list.set_map)
  with ids assms show ?thesis
    by (auto simp: req_inv_def set_update_where)
qed

lemma req_status_update:
  assumes "rs_requests s' = update_where P f (rs_requests s)" "\<forall>r. r_id (f r) = r_id r"
    "\<forall>r. P r \<longrightarrow> req_open (r_status r) \<or> r_status (f r) = r_status r"
    "req_status s k = Some st" "req_terminal st"
  shows "req_status s' k = Some st"
proof -
  obtain r where r: "select_first (\<lambda>r. r_id r = k) (rs_requests s) = Some r" "r_status r = st"
    using assms(4) by (auto simp: req_status_def)
  have "select_first (\<lambda>r. r_id r = k) (rs_requests s') = Some (if P r then f r else r)"
    using r(1) assms(2) unfolding assms(1) by (subst select_key_update_where) simp_all
  moreover have "r_status (if P r then f r else r) = st"
    using assms(3,5) r(2) by (auto simp: req_terminal_def)
  ultimately show ?thesis by (simp add: req_status_def)
qed

lemma req_open_values [simp]:
  "req_open ''pending''" "req_open ''info_requested''" "\<not> req_open ''cancelled''"
  "\<not> req_open ''approved''" "\<not> req_open ''rejected''" "\<not> req_open ''done''"
  by (simp_all add: req_open_def)

lemma open_row_ok:
  "req_row_ok r \<Longrightarrow> req_open (r_status r) \<Longrightarrow> st = ''info_requested'' \<or> st = ''cancelled'' \<Longrightarrow>
    req_row_ok (r\<lparr>r_status := st, r_updated_at := now\<rparr>)"
  by (elim disjE) (simp_all add: req_row_ok_def)

lemma Store_Get_SomeD:
  "Store_Get fault s i = Inr req \<Longrightarrow> req \<in> set (rs_requests s) \<and> r_id req = i"
  by (auto simp: Store_Get_def split: if_splits option.splits dest: select_first_SomeD)

section \<open>Every call keeps it\<close>

lemma Store_Respond_cases:
  obtains (same) "rs_requests (fst (Store_Respond env s i action rt0 rid0)) = rs_requests s"
      "rs_messages (fst (Store_Respond env s i action rt0 rid0)) = rs_messages s"
  | (wrote) req status rt rid where
      "req \<in> set (rs_requests s)" "r_id req = i" "validParty rt"
      "rt = (if rt0 = [] then ''user'' else rt0)" "rid = (if rid0 = [] then ''human'' else rid0)"
      "\<not> (rt = r_requester_type req \<and> rid = r_requester_id req)"
      "actionToStatus (r_kind req) action = Inr status"
      "rs_requests (fst (Store_Respond env s i action rt0 rid0)) =
         update_where (\<lambda>r. r_id r = i \<and> req_open (r_status r)) (respond_row (re_now env) status rt rid)
           (rs_requests s)"
      "rs_messages (fst (Store_Respond env s i action rt0 rid0)) = rs_messages s"
proof -
  define rt where "rt = (if rt0 = [] then ''user'' else rt0)"
  define rid where "rid = (if rid0 = [] then ''human'' else rid0)"
  show thesis
  proof (cases "validParty rt")
    case False
    then show thesis by (intro same) (simp_all add: Store_Respond_def rt_def)
  next
    case valid: True
    show thesis
    proof (cases "Store_Get (re_flt env 0) s i")
      case (Inl e)
      then show thesis by (intro same) (simp_all add: Store_Respond_def Let_def)
    next
      case (Inr req)
      note get = Inr
      show thesis
      proof (cases "(rt = r_requester_type req \<and> rid = r_requester_id req) \<or>
          isl (actionToStatus (r_kind req) action) \<or> re_flt env 1")
        case True
        then have "fst (Store_Respond env s i action rt0 rid0) = s"
          using get valid
          by (cases "actionToStatus (r_kind req) action")
            (auto simp: Store_Respond_def Let_def rt_def [symmetric] rid_def [symmetric])
        then show thesis using same by simp
      next
        case False
        then obtain status where st: "actionToStatus (r_kind req) action = Inr status"
          by (cases "actionToStatus (r_kind req) action") auto
        have eqs: "rs_requests (fst (Store_Respond env s i action rt0 rid0)) =
            update_where (\<lambda>r. r_id r = i \<and> req_open (r_status r)) (respond_row (re_now env) status rt rid)
              (rs_requests s)"
          "rs_messages (fst (Store_Respond env s i action rt0 rid0)) = rs_messages s"
          using get valid False st
          by (cases "rt = r_requester_type req";
              simp add: Store_Respond_def Let_def rt_def [symmetric] rid_def [symmetric])+
        show thesis
          by (rule wrote [of req rt rid status, OF _ _ valid rt_def rid_def _ st eqs])
            (use False Store_Get_SomeD [OF get] in auto)
      qed
    qed
  qed
qed

lemma actionToStatus_ok:
  "actionToStatus k a = Inr st \<Longrightarrow>
    st = a \<and> ((k = ''approval'' \<and> (a = ''approved'' \<or> a = ''rejected'')) \<or>
              (k = ''task'' \<and> (a = ''done'' \<or> a = ''rejected'')))"
  by (auto simp: actionToStatus_def split: if_splits)

lemma respond_row_ok:
  assumes "req_row_ok r" "actionToStatus (r_kind r) a = Inr st" "validParty rt"
    "\<not> (rt = r_requester_type r \<and> rid = r_requester_id r)"
  shows "req_row_ok (respond_row now st rt rid r)"
proof -
  have ans: "req_answered (respond_row now st rt rid r)"
    using actionToStatus_ok [OF assms(2)] by (auto simp: req_answered_def respond_row_def)
  have "\<not> (req_open st \<or> st = ''cancelled'')"
    using actionToStatus_ok [OF assms(2)] by (elim conjE disjE) simp_all
  then show ?thesis
    using ans assms by (simp add: req_row_ok_def respond_row_def)
qed

lemma respond_inv: "req_inv s \<Longrightarrow> req_inv (fst (Store_Respond env s i action rt rid))"
proof (cases rule: Store_Respond_cases [of env s i action rt rid])
  case same
  assume "req_inv s"
  with same show ?thesis by (simp add: req_inv_cong [OF same])
next
  case (wrote req status rt' rid')
  assume inv: "req_inv s"
  have "r = req" if "r \<in> set (rs_requests s)" "r_id r = i" for r
    using inv that wrote(1,2) by (auto simp: req_inv_def distinct_map dest: inj_onD)
  moreover have "req_row_ok req" using inv wrote(1) by (simp add: req_inv_def)
  then have "req_row_ok (respond_row (re_now env) status rt' rid' req)"
    using wrote(7,3,6) by (rule respond_row_ok)
  ultimately have "\<forall>r \<in> set (rs_requests s). r_id r = i \<and> req_open (r_status r) \<longrightarrow>
      req_row_ok (respond_row (re_now env) status rt' rid' r)"
    by blast
  then show ?thesis
    by (rule req_inv_update [OF inv wrote(8,9), rotated]) (simp add: respond_row_def)
qed

lemma Create_cases:
  obtains "rs_requests (fst (Store_Create env s i)) = rs_requests s"
      "rs_messages (fst (Store_Create env s i)) = rs_messages s"
  | "rs_requests (fst (Store_Create env s i)) = rs_requests s @ [new_request (re_now env) (re_newid env) i]"
      "rs_messages (fst (Store_Create env s i)) = rs_messages s"
      "in_Kind i = ''task'' \<or> in_Kind i = ''approval''"
      "re_newid env \<notin> r_id ` set (rs_requests s)"
proof -
  show thesis
  proof (cases "(in_Kind i \<noteq> ''task'' \<and> in_Kind i \<noteq> ''approval'') \<or>
      \<not> validParty (in_RequesterType i) \<or> \<not> validParty (in_RecipientType i) \<or>
      re_flt env 0 \<or> \<not> smallint_ok (in_Priority i) \<or> list_ex (\<lambda>r. r_id r = re_newid env) (rs_requests s)")
    case True
    then have "fst (Store_Create env s i) = s"
      unfolding Store_Create_def by (elim disjE conjE) simp_all
    then show thesis using that(1) by simp
  next
    case False
    then have "re_newid env \<notin> r_id ` set (rs_requests s)" by (auto simp: list_ex_iff)
    with False show thesis by (intro that(2)) (simp_all add: Store_Create_def Let_def)
  qed
qed

lemma create_inv: "req_inv s \<Longrightarrow> req_inv (fst (Store_Create env s i))"
proof (cases rule: Create_cases [of env s i])
  case 1
  assume "req_inv s"
  then show ?thesis by (simp add: req_inv_cong [OF 1])
next
  case 2
  assume inv: "req_inv s"
  have "req_row_ok (new_request (re_now env) (re_newid env) i)"
    using 2(3) by (simp add: req_row_ok_def new_request_def)
  moreover have "r_id (new_request (re_now env) (re_newid env) i) = re_newid env"
    by (simp add: new_request_def)
  ultimately show ?thesis using inv 2 by (auto simp: req_inv_def)
qed

lemma set_open_inv:
  assumes "req_inv s" "st = ''info_requested'' \<or> st = ''cancelled''"
    "rs_requests s' = set_open_status now i st (rs_requests s)" "rs_messages s' = rs_messages s"
  shows "req_inv s'"
proof (rule req_inv_update [OF assms(1) assms(3) [unfolded set_open_status_def] assms(4)])
  show "\<forall>r \<in> set (rs_requests s). r_id r = i \<and> req_open (r_status r) \<longrightarrow>
      req_row_ok (r\<lparr>r_status := st, r_updated_at := now\<rparr>)"
    using assms(1,2) open_row_ok unfolding req_inv_def by blast
qed simp

lemma set_open_call_cases:
  "fst (set_open_call env s i st) = s \<or>
   fst (set_open_call env s i st) = s\<lparr>rs_requests := set_open_status (re_now env) i st (rs_requests s)\<rparr>"
  by (simp add: set_open_call_def Let_def)

lemma set_open_call_inv:
  assumes "req_inv s" "st = ''info_requested'' \<or> st = ''cancelled''"
  shows "req_inv (fst (set_open_call env s i st))"
  using set_open_call_cases [of env s i st]
proof
  assume "fst (set_open_call env s i st) = s"
  with assms(1) show ?thesis by simp
next
  assume "fst (set_open_call env s i st) =
      s\<lparr>rs_requests := set_open_status (re_now env) i st (rs_requests s)\<rparr>"
  then show ?thesis by (intro set_open_inv [OF assms]) simp_all
qed

lemma AddMessage_cases:
  obtains "fst (Store_AddMessage env s i at aid body) = s"
  | req m where "req \<in> set (rs_requests s)" "r_id req = i" "validParty at" "m_request_id m = i"
      "m_author_type m = at" "m_author_id m = aid" "m_body m = body"
      "rs_messages (fst (Store_AddMessage env s i at aid body)) = rs_messages s @ [m]"
      "rs_requests (fst (Store_AddMessage env s i at aid body)) = rs_requests s \<or>
       \<not> (at = r_requester_type req \<and> aid = r_requester_id req) \<and>
       rs_requests (fst (Store_AddMessage env s i at aid body)) =
         set_open_status (re_now env) i ''info_requested'' (rs_requests s)"
proof (cases "\<not> validParty at \<or> isl (Store_Get (re_flt env 0) s i) \<or> re_flt env 1")
  case True
  then have "fst (Store_AddMessage env s i at aid body) = s"
    by (cases "Store_Get (re_flt env 0) s i") (auto simp: Store_AddMessage_def)
  then show thesis by (rule that(1))
next
  case False
  then obtain req where get: "Store_Get (re_flt env 0) s i = Inr req"
    by (cases "Store_Get (re_flt env 0) s i") auto
  let ?m = "\<lparr>m_id = re_newid env, m_request_id = i, m_author_type = at, m_author_id = aid,
     m_body = body, m_created_at = re_now env\<rparr>"
  have "rs_messages (fst (Store_AddMessage env s i at aid body)) = rs_messages s @ [?m]"
    "rs_requests (fst (Store_AddMessage env s i at aid body)) = rs_requests s \<or>
       \<not> (at = r_requester_type req \<and> aid = r_requester_id req) \<and>
       rs_requests (fst (Store_AddMessage env s i at aid body)) =
         set_open_status (re_now env) i ''info_requested'' (rs_requests s)"
    using False get by (auto simp: Store_AddMessage_def Let_def)
  then show thesis
    using False Store_Get_SomeD [OF get] by (intro that(2) [of req ?m]) auto
qed

lemma set_open_ids [simp]: "map r_id (set_open_status now i st rows) = map r_id rows"
  by (simp add: set_open_status_def map_update_where)

lemma message_inv: "req_inv s \<Longrightarrow> req_inv (fst (Store_AddMessage env s i at aid body))"
proof (cases rule: AddMessage_cases [of env s i at aid body])
  case (2 req m)
  assume inv: "req_inv s"
  let ?s = "fst (Store_AddMessage env s i at aid body)"
  have "req_inv (?s\<lparr>rs_messages := rs_messages s\<rparr>)"
    using 2(9)
  proof
    assume "rs_requests ?s = rs_requests s"
    with inv show ?thesis by (simp add: req_inv_def)
  next
    assume "\<not> (at = r_requester_type req \<and> aid = r_requester_id req) \<and>
       rs_requests ?s = set_open_status (re_now env) i ''info_requested'' (rs_requests s)"
    then show ?thesis by (intro set_open_inv [OF inv, of "''info_requested''"]) simp_all
  qed
  moreover have "map r_id (rs_requests ?s) = map r_id (rs_requests s)" using 2(9) by auto
  then have "r_id ` set (rs_requests ?s) = r_id ` set (rs_requests s)" by (metis list.set_map)
  ultimately show ?thesis
    using 2(1,2,4,8) by (auto simp: req_inv_def)
qed simp

section \<open>Nudges touch only the stamp\<close>

definition nudge_only :: "'q req_state \<Rightarrow> 'q req_state \<Rightarrow> bool" where
  "nudge_only s s' \<longleftrightarrow> rs_messages s' = rs_messages s \<and> rs_events s' = rs_events s \<and>
     map (\<lambda>r. r\<lparr>r_last_nudged_at := None\<rparr>) (rs_requests s') =
     map (\<lambda>r. r\<lparr>r_last_nudged_at := None\<rparr>) (rs_requests s)"

lemma nudgeAgent_only: "nudge_only s (fst (nudgeAgent env s w ids now))"
  by (auto simp: nudge_only_def nudgeAgent_def map_update_where split: prod.split sum.split)

lemma nudge_one_only: "nudge_only s (fst (nudge_one env now (s, res) g))"
  using nudgeAgent_only [of s "ne_agent env (fst g)" "fst g" "snd g" now]
  by (cases g) (auto simp: nudge_one_def split: prod.split sum.split)

lemma Nudge_Sweep_only: "nudge_only s (fst (Nudge_Sweep sw env now wst s))"
proof -
  have "nudge_only s (fst (foldl (nudge_one env now) acc todo))" if "nudge_only s (fst acc)" for acc todo
    using that
  proof (induction todo arbitrary: acc)
    case (Cons g todo)
    have "nudge_only s (fst (nudge_one env now acc g))"
      using Cons.prems nudge_one_only [of "fst acc" env now "snd acc" g] by (simp add: nudge_only_def)
    with Cons.IH show ?case by simp
  qed simp
  then show ?thesis by (simp add: Nudge_Sweep_def Let_def nudge_only_def)
qed

lemma map_reset_fields:
  assumes "map (\<lambda>r. r\<lparr>r_last_nudged_at := None\<rparr>) xs = map (\<lambda>r. r\<lparr>r_last_nudged_at := None\<rparr>) ys"
    and "\<And>r. g (r\<lparr>r_last_nudged_at := None\<rparr>) = g r"
  shows "map g xs = map g ys"
proof -
  have "map g zs = map g (map (\<lambda>r. r\<lparr>r_last_nudged_at := None\<rparr>) zs)" for zs
    using assms(2) by simp
  with assms(1) show ?thesis by metis
qed

lemma nudge_only_rows:
  assumes "nudge_only s s'"
  shows "map r_id (rs_requests s') = map r_id (rs_requests s)"
    "map req_row_ok (rs_requests s') = map req_row_ok (rs_requests s)"
    "map (\<lambda>r. (r_id r, r_status r)) (rs_requests s') = map (\<lambda>r. (r_id r, r_status r)) (rs_requests s)"
  using assms
  by (auto simp: nudge_only_def req_row_ok_def req_answered_def intro!: map_reset_fields [of "rs_requests s'"])

lemma nudge_inv: "req_inv s \<Longrightarrow> req_inv (fst (Nudge_Sweep sw env now wst s))"
proof -
  assume inv: "req_inv s"
  let ?s = "fst (Nudge_Sweep sw env now wst s)"
  have only: "nudge_only s ?s" by (rule Nudge_Sweep_only)
  note rows = nudge_only_rows [OF only]
  have ids: "r_id ` set (rs_requests ?s) = r_id ` set (rs_requests s)"
    using rows(1) by (metis list.set_map)
  have "req_row_ok ` set (rs_requests ?s) = req_row_ok ` set (rs_requests s)"
    using rows(2) by (metis list.set_map)
  then have "\<forall>r \<in> set (rs_requests ?s). req_row_ok r"
    using inv unfolding req_inv_def by blast
  then show ?thesis using inv ids rows(1) only by (simp add: req_inv_def nudge_only_def)
qed

lemma status_of_pairs:
  "map_option r_status (select_first (\<lambda>r. r_id r = k) rows) =
    map_of (map (\<lambda>r. (r_id r, r_status r)) rows) k"
  by (induction rows) auto

lemma nudge_status: "req_status (fst (Nudge_Sweep sw env now wst s)) k = req_status s k"
  using nudge_only_rows(3) [OF Nudge_Sweep_only, of sw env now wst s]
  by (simp add: req_status_def status_of_pairs)

lemma terminal_set_open:
  assumes "rs_requests s' = set_open_status now i st' (rs_requests s)"
    "req_status s k = Some st" "req_terminal st"
  shows "req_status s' k = Some st"
  by (rule req_status_update [OF assms(1) [unfolded set_open_status_def] _ _ assms(2,3)]) auto

lemma terminal_respond:
  assumes "req_status s k = Some st" "req_terminal st"
  shows "req_status (fst (Store_Respond env s i action rt rid)) k = Some st"
proof (cases rule: Store_Respond_cases [of env s i action rt rid])
  case same
  with assms show ?thesis by (simp add: req_status_def)
next
  case (wrote req status rt' rid')
  show ?thesis
    by (rule req_status_update [OF wrote(8) _ _ assms]) (auto simp: respond_row_def)
qed

lemma terminal_message:
  assumes "req_status s k = Some st" "req_terminal st"
  shows "req_status (fst (Store_AddMessage env s i at aid body)) k = Some st"
proof (cases rule: AddMessage_cases [of env s i at aid body])
  case (2 req m)
  from 2(9) show ?thesis
  proof
    assume "rs_requests (fst (Store_AddMessage env s i at aid body)) = rs_requests s"
    with assms(1) show ?thesis by (simp add: req_status_def)
  qed (use terminal_set_open [OF _ assms] in blast)
qed (use assms in simp)

lemma terminal_create:
  assumes "req_status s k = Some st"
  shows "req_status (fst (Store_Create env s i)) k = Some st"
  by (cases rule: Create_cases [of env s i])
    (use assms in \<open>auto simp: req_status_def select_first_append\<close>)

lemma terminal_set_open_call:
  assumes "req_status s k = Some st" "req_terminal st"
  shows "req_status (fst (set_open_call env s i st')) k = Some st"
  using set_open_call_cases [of env s i st']
proof
  assume "fst (set_open_call env s i st') = s\<lparr>rs_requests := set_open_status (re_now env) i st' (rs_requests s)\<rparr>"
  then show ?thesis by (intro terminal_set_open [OF _ assms]) simp
qed (use assms in simp)

interpretation rsys: forward_only_system req_step req_inv req_status req_terminal
proof
  show "req_inv s \<Longrightarrow> req_inv (req_step s op)" for s :: "'q req_state" and op
    by (cases op)
      (simp_all add: create_inv respond_inv message_inv nudge_inv set_open_call_inv
        Store_RequestInfo_def Store_Cancel_def)
  show "req_status s k = Some st \<Longrightarrow> req_terminal st \<Longrightarrow> req_status (req_step s op) k = Some st"
    for s :: "'q req_state" and k st op
    by (cases op)
      (simp_all add: terminal_create terminal_respond terminal_message nudge_status
        terminal_set_open_call Store_RequestInfo_def Store_Cancel_def)
qed

section \<open>Properties of the store\<close>

definition empty_store :: "'q \<Rightarrow> 'q req_state" where
  "empty_store q = \<lparr>rs_requests = [], rs_messages = [], rs_events = [], rs_queue = q\<rparr>"

lemma req_inv_empty: "req_inv (empty_store q)"
  by (simp add: req_inv_def empty_store_def)

text \<open>C5: in every state the store reaches from an empty one, through any sequence of \<^verbatim>\<open>Create\<close>,
  \<^verbatim>\<open>Respond\<close>, \<^verbatim>\<open>RequestInfo\<close>, \<^verbatim>\<open>AddMessage\<close>, \<^verbatim>\<open>Cancel\<close> calls and nudge sweeps with whatever statement
  faults: a request that is neither open nor cancelled carries an answer that fits its kind
  and a responder that is not its requester (nobody approves or rejects his own request), an
  open or cancelled one carries no responder, and every thread message belongs to a request.\<close>

theorem request_invariant:
  "let s = foldl req_step (empty_store q) ops in
     (\<forall>r \<in> set (rs_requests s).
        if req_open (r_status r) \<or> r_status r = ''cancelled''
        then r_responder_type r = None \<and> r_responder_id r = None
        else ((r_kind r = ''approval'' \<and> (r_status r = ''approved'' \<or> r_status r = ''rejected'')) \<or>
              (r_kind r = ''task'' \<and> (r_status r = ''done'' \<or> r_status r = ''rejected''))) \<and>
             (\<exists>t j. r_responder_type r = Some t \<and> r_responder_id r = Some j \<and>
                (t, j) \<noteq> (r_requester_type r, r_requester_id r))) \<and>
     (\<forall>m \<in> set (rs_messages s). \<exists>r \<in> set (rs_requests s). r_id r = m_request_id m)"
proof -
  let ?s = "foldl req_step (empty_store q) ops"
  have inv: "req_inv ?s" by (rule rsys.inv_run [OF req_inv_empty])
  have "if req_open (r_status r) \<or> r_status r = ''cancelled''
        then r_responder_type r = None \<and> r_responder_id r = None
        else req_answered r \<and> (\<exists>t j. r_responder_type r = Some t \<and> r_responder_id r = Some j \<and>
                (t, j) \<noteq> (r_requester_type r, r_requester_id r))" if "r \<in> set (rs_requests ?s)" for r
    using inv that by (auto simp: req_inv_def req_row_ok_def split: if_split_asm)
  moreover have "\<forall>m \<in> set (rs_messages ?s). \<exists>r \<in> set (rs_requests ?s). r_id r = m_request_id m"
    using inv unfolding req_inv_def by force
  ultimately show ?thesis unfolding Let_def req_answered_def by blast
qed

definition sample_env :: "nat \<Rightarrow> uuid \<Rightarrow> a2a_queue req_env" where
  "sample_env n newid =
     \<lparr>re_flt = no_faults, re_now = int n, re_newid = newid, re_nonce = ''n'',
      re_enqueue = EnqueueA2A no_faults (int n) (''q-'' @ newid), re_marshal = (\<lambda>_. ''{}''), re_quote = id\<rparr>"

definition sample_request :: CreateRequestInput where
  "sample_request =
     \<lparr>in_Kind = ''approval'', in_RequesterType = ''agent'', in_RequesterID = ''a'', in_OrgID = [],
      in_RecipientType = ''user'', in_RecipientID = [], in_Title = ''deploy'', in_Detail = [],
      in_Priority = None\<rparr>"

lemmas request_eval =
  sample_env_def sample_request_def Store_Create_def Store_Respond_def Store_Cancel_def
  set_open_call_def set_open_status_def
  Store_Get_def new_request_def validParty_def smallint_ok_def Let_def empty_store_def
  actionToStatus_def respond_row_def

theorem request_invariant_witness:
  "let s = foldl req_step (empty_store []) [RCreate (sample_env 1 ''r'') sample_request,
       RRespond (sample_env 2 ''x'') ''r'' ''approved'' [] []] in
     rs_requests s \<noteq> [] \<and> (\<forall>r \<in> set (rs_requests s). r_status r = ''approved'' \<and>
       (\<exists>t j. r_responder_type r = Some t \<and> r_responder_id r = Some j \<and>
                (t, j) \<noteq> (r_requester_type r, r_requester_id r)))"
proof -
  let ?ops = "[RCreate (sample_env 1 ''r'') sample_request,
       RRespond (sample_env 2 ''x'') ''r'' ''approved'' [] []]"
  have rows: "map r_status (rs_requests (foldl req_step (empty_store []) ?ops)) = [''approved'']"
    by (simp add: request_eval)
  then have "rs_requests (foldl req_step (empty_store []) ?ops) \<noteq> []"
    "\<forall>r \<in> set (rs_requests (foldl req_step (empty_store []) ?ops)). r_status r = ''approved''"
    by auto
  then show ?thesis
    using request_invariant [of "[]" ?ops] unfolding Let_def by simp
qed

text \<open>What a successful response has passed through.\<close>

lemma Store_Respond_InrD:
  assumes "Store_Respond env s i action rt0 rid0 = (s1, Inr res)"
  obtains req status rt rid where "Store_Get (re_flt env 0) s i = Inr req"
    "rt = (if rt0 = [] then ''user'' else rt0)" "rid = (if rid0 = [] then ''human'' else rid0)"
    "\<not> (rt = r_requester_type req \<and> rid = r_requester_id req)"
    "actionToStatus (r_kind req) action = Inr status"
    "count_where (\<lambda>r. r_id r = i \<and> req_open (r_status r)) (rs_requests s) \<noteq> 0"
    "rs_requests s1 = update_where (\<lambda>r. r_id r = i \<and> req_open (r_status r))
       (respond_row (re_now env) status rt rid) (rs_requests s)"
    "res = req\<lparr>r_status := status, r_responder_type := Some rt, r_responder_id := Some rid\<rparr>"
    "r_requester_type req = ''agent'' \<and> r_requester_id req \<noteq> [] \<longrightarrow>
       (\<exists>s2. s1 = notifyRequesterAgent env s2 req (''request-responded:'' @ r_id req)
                 (responded_note env req status rt rid) \<and> rs_queue s2 = rs_queue s)"
proof -
  define rt where "rt = (if rt0 = [] then ''user'' else rt0)"
  define rid where "rid = (if rid0 = [] then ''human'' else rid0)"
  note defs = Store_Respond_def Let_def rt_def [symmetric] rid_def [symmetric]
  have valid: "validParty rt" using assms by (auto simp: defs split: if_splits)
  obtain req where get: "Store_Get (re_flt env 0) s i = Inr req"
    using assms valid by (cases "Store_Get (re_flt env 0) s i") (auto simp: defs)
  have neq: "\<not> (rt = r_requester_type req \<and> rid = r_requester_id req)"
    using assms valid get by (auto simp: defs)
  obtain status where st: "actionToStatus (r_kind req) action = Inr status"
    using assms valid get neq by (cases "actionToStatus (r_kind req) action") (auto simp: defs)
  have flt: "\<not> re_flt env 1" "\<not> re_flt env 2"
    and cnt: "count_where (\<lambda>r. r_id r = i \<and> req_open (r_status r)) (rs_requests s) \<noteq> 0"
    using assms valid get neq st by (auto simp: defs split: if_splits)
  note res = assms [unfolded defs] valid get neq st flt cnt
  show thesis
  proof (rule that [OF get rt_def rid_def neq st cnt])
    show "rs_requests s1 = update_where (\<lambda>r. r_id r = i \<and> req_open (r_status r))
       (respond_row (re_now env) status rt rid) (rs_requests s)" using res by auto
    show "res = req\<lparr>r_status := status, r_responder_type := Some rt, r_responder_id := Some rid\<rparr>"
      using res by auto
    show "r_requester_type req = ''agent'' \<and> r_requester_id req \<noteq> [] \<longrightarrow>
       (\<exists>s2. s1 = notifyRequesterAgent env s2 req (''request-responded:'' @ r_id req)
                 (responded_note env req status rt rid) \<and> rs_queue s2 = rs_queue s)"
      using res by (auto intro!: exI)
  qed
qed

lemma closed_no_match:
  assumes "req_inv s" "req_status s i = Some st" "\<not> req_open st"
  shows "count_where (\<lambda>r. r_id r = i \<and> req_open (r_status r)) (rs_requests s) = 0"
proof -
  have "\<not> req_open (r_status r)" if "r \<in> set (rs_requests s)" "r_id r = i" for r
    using assms that select_first_distinct [of r_id "rs_requests s" r]
    by (auto simp: req_inv_def req_status_def)
  then show ?thesis by (auto simp: count_where_0_iff)
qed

lemma refused_when_closed:
  assumes "req_inv s" "req_status s i = Some st" "\<not> req_open st"
  shows "isl (snd (Store_Respond env s i action rt rid))" "isl (snd (Store_Cancel env s i))"
proof -
  note cnt = closed_no_match [OF assms]
  show "isl (snd (Store_Cancel env s i))" by (simp add: Store_Cancel_def set_open_call_def Let_def cnt)
  show "isl (snd (Store_Respond env s i action rt rid))"
  proof (rule ccontr)
    assume "\<not> isl (snd (Store_Respond env s i action rt rid))"
    then obtain s1 res where "Store_Respond env s i action rt rid = (s1, Inr res)"
      by (metis prod.collapse sum.collapse(2))
    then show False by (rule Store_Respond_InrD) (use cnt in simp)
  qed
qed

lemma Store_Respond_status:
  assumes "Store_Respond env s i action rt rid = (s1, Inr req)" "req_inv s"
  shows "req_status s1 i = Some (r_status req)" "\<not> req_open (r_status req)"
proof -
  from assms(1) obtain r status rt' rid' where r: "Store_Get (re_flt env 0) s i = Inr r"
    "actionToStatus (r_kind r) action = Inr status"
    "count_where (\<lambda>r. r_id r = i \<and> req_open (r_status r)) (rs_requests s) \<noteq> 0"
    "rs_requests s1 = update_where (\<lambda>r. r_id r = i \<and> req_open (r_status r))
       (respond_row (re_now env) status rt' rid') (rs_requests s)"
    "r_status req = status"
    by (rule Store_Respond_InrD) simp
  have "req_open (r_status r)"
  proof (rule ccontr)
    assume "\<not> req_open (r_status r)"
    moreover have "req_status s i = Some (r_status r)"
      using r(1) by (auto simp: req_status_def Store_Get_def split: if_splits option.splits)
    ultimately show False using closed_no_match [OF assms(2), of i "r_status r"] r(3) by simp
  qed
  moreover have "select_first (\<lambda>r. r_id r = i) (rs_requests s) = Some r"
    using r(1) by (auto simp: Store_Get_def split: if_splits option.splits)
  ultimately show "req_status s1 i = Some (r_status req)"
    using Store_Get_SomeD [OF r(1)]
    by (simp add: req_status_def r(4,5) select_key_update_where respond_row_def)
  show "\<not> req_open (r_status req)"
    using actionToStatus_ok [OF r(2)] r(5) by (elim conjE disjE) simp_all
qed

text \<open>C7: a request that has been answered or cancelled keeps that status through every later call,
  and exactly one response wins: once one \<^verbatim>\<open>Respond\<close> has succeeded, every later \<^verbatim>\<open>Respond\<close> and
  \<^verbatim>\<open>Cancel\<close> on the same request is refused.\<close>

theorem request_answered_once:
  assumes "Store_Respond env s i action rt rid = (s1, Inr req)" and "req_inv s"
  shows "req_status (foldl req_step s1 ops) i = Some (r_status req) \<and>
    \<not> req_open (r_status req) \<and>
    isl (snd (Store_Respond env' (foldl req_step s1 ops) i action' rt' rid')) \<and>
    isl (snd (Store_Cancel env' (foldl req_step s1 ops) i))"
proof -
  note st = Store_Respond_status [OF assms]
  have inv1: "req_inv s1" using respond_inv [OF assms(2), of env i action rt rid] assms(1) by simp
  have inv: "req_inv (foldl req_step s1 ops)" by (rule rsys.inv_run [OF inv1])
  have "req_status (foldl req_step s1 ops) i = Some (r_status req)"
    using rsys.terminal_run [OF inv1 st(1)] st(2) by (simp add: req_terminal_def)
  with st(2) refused_when_closed [OF inv] show ?thesis by blast
qed

definition sample_store :: "a2a_queue req_state" where
  "sample_store = fst (Store_Create (sample_env 1 ''r'') (empty_store []) sample_request)"

lemma sample_store_inv: "req_inv sample_store"
  unfolding sample_store_def by (rule create_inv [OF req_inv_empty])

lemma sample_respond:
  "\<exists>s1 req. Store_Respond (sample_env 2 ''x'') sample_store ''r'' ''approved'' [] [] = (s1, Inr req) \<and>
     r_status req = ''approved'' \<and> r_requester_type req = ''agent'' \<and> r_requester_id req = ''a''"
  by (simp add: sample_store_def request_eval)

theorem request_answered_once_witness:
  "\<exists>s1 req. Store_Respond (sample_env 2 ''x'') sample_store ''r'' ''approved'' [] [] = (s1, Inr req) \<and>
     isl (snd (Store_Respond (sample_env 3 ''y'') s1 ''r'' ''rejected'' [] []))"
proof -
  obtain s1 req where e: "Store_Respond (sample_env 2 ''x'') sample_store ''r'' ''approved'' [] [] = (s1, Inr req)"
    using sample_respond by blast
  from request_answered_once [OF e sample_store_inv, of "[]" "sample_env 3 ''y''" "''rejected''" "[]" "[]"] e
  show ?thesis by auto
qed

text \<open>The outcome reaches the agent that asked: after a successful \<^verbatim>\<open>Respond\<close> to a request raised by
  an agent, with the queue's statements succeeding, a turn for that agent under the key of
  this outcome is waiting in the A2A queue, and no other workspace's or key's pending turns
  have changed.\<close>

theorem respond_notifies_requester:
  assumes "Store_Respond env s i action rt rid = (s1, Inr req)"
    and "re_enqueue env = EnqueueA2A no_faults now newid"
    and "r_requester_type req = ''agent''" and "r_requester_id req \<noteq> []"
  shows "turn_waiting (rs_queue s1) (r_requester_id req) (''request-responded:'' @ i) \<and>
    (\<forall>ws key. (ws, key) \<noteq> (r_requester_id req, ''request-responded:'' @ i) \<longrightarrow>
       turn_waiting (rs_queue s1) ws key = turn_waiting (rs_queue s) ws key)"
proof -
  from assms(1) obtain r s2 note' where r: "Store_Get (re_flt env 0) s i = Inr r"
    "r_requester_type req = r_requester_type r" "r_requester_id req = r_requester_id r"
    "r_requester_type r = ''agent'' \<and> r_requester_id r \<noteq> [] \<longrightarrow>
       s1 = notifyRequesterAgent env s2 r (''request-responded:'' @ r_id r) note' \<and>
       rs_queue s2 = rs_queue s"
    by (rule Store_Respond_InrD) force
  have id: "r_id r = i" using Store_Get_SomeD [OF r(1)] by simp
  let ?k = "''request-responded:'' @ i"
  have s1: "s1 = notifyRequesterAgent env s2 r ?k note'" and q: "rs_queue s2 = rs_queue s"
    using r(2-4) assms(3,4) id by auto
  have "\<not> isl (snd (EnqueueA2A no_faults now newid (rs_queue s2) (r_requester_id r) [] PriorityInfo
         (notify_body env ?k note') ''message/send'' ?k None))"
    by (rule EnqueueA2A_keyed [of ?k now newid "rs_queue s2" "r_requester_id r" "[]" PriorityInfo
        "notify_body env ?k note'" "''message/send''" None]) auto
  then have "turn_waiting (rs_queue s1) (r_requester_id r) ?k"
    unfolding s1 by (intro a2a.notify_waiting [OF assms(2)]) simp_all
  moreover have "turn_waiting (rs_queue s1) ws key = turn_waiting (rs_queue s) ws key"
    if "(ws, key) \<noteq> (r_requester_id r, ?k)" for ws key
    unfolding s1 q [symmetric] by (rule a2a.notify_frame [OF assms(2)]) (use that in simp)
  ultimately show ?thesis using r(3) by simp
qed

theorem respond_notifies_requester_witness:
  "\<exists>s1 req. Store_Respond (sample_env 2 ''x'') sample_store ''r'' ''approved'' [] [] = (s1, Inr req) \<and>
     turn_waiting (rs_queue s1) ''a'' (''request-responded:'' @ ''r'')"
proof -
  obtain s1 req where e: "Store_Respond (sample_env 2 ''x'') sample_store ''r'' ''approved'' [] [] = (s1, Inr req)"
    and r: "r_requester_type req = ''agent''" "r_requester_id req = ''a''"
    using sample_respond by blast
  have enq: "re_enqueue (sample_env 2 ''x'') = EnqueueA2A no_faults 2 (''q-'' @ ''x'')"
    by (simp add: sample_env_def)
  have "r_requester_id req \<noteq> []" using r(2) by simp
  from respond_notifies_requester [OF e enq r(1) this] r(2) e show ?thesis by auto
qed

section \<open>Isolation of the workspace routes\<close>

lemma authz_passed:
  assumes "authz fault s ws i allowed missing fail deny = None" "ws \<noteq> []"
  shows "\<exists>r \<in> set (rs_requests s). r_id r = i \<and> allowed r"
  using assms
  by (auto simp: authz_def split: sum.splits if_splits dest!: Store_Get_SomeD)

text \<open>A call that touches at most the row of one request.\<close>

definition only_request :: "uuid \<Rightarrow> 'q req_state \<Rightarrow> 'q req_state \<Rightarrow> bool" where
  "only_request i s s' \<longleftrightarrow> map r_id (rs_requests s') = map r_id (rs_requests s) \<and>
     filter (\<lambda>r. r_id r \<noteq> i) (rs_requests s') = filter (\<lambda>r. r_id r \<noteq> i) (rs_requests s)"

lemma only_request_update:
  assumes "rs_requests s' = update_where (\<lambda>r. r_id r = i \<and> Q r) f (rs_requests s)" "\<And>r. r_id (f r) = r_id r"
  shows "only_request i s s'"
proof -
  have "map r_id (update_where (\<lambda>r. r_id r = i \<and> Q r) f rows) = map r_id rows \<and>
      filter (\<lambda>r. r_id r \<noteq> i) (update_where (\<lambda>r. r_id r = i \<and> Q r) f rows) = filter (\<lambda>r. r_id r \<noteq> i) rows" for rows
    by (induction rows) (simp_all add: assms(2))
  with assms(1) show ?thesis by (simp add: only_request_def)
qed

lemma only_request_set_open:
  "rs_requests s' = set_open_status now i st (rs_requests s) \<Longrightarrow> only_request i s s'"
  by (rule only_request_update [where Q = "\<lambda>r. req_open (r_status r)" and f = "\<lambda>r. r\<lparr>r_status := st, r_updated_at := now\<rparr>"])
    (simp_all add: set_open_status_def)

lemma only_request_same: "rs_requests s' = rs_requests s \<Longrightarrow> only_request i s s'"
  by (simp add: only_request_def)

lemma Store_Respond_frame:
  "only_request i s (fst (Store_Respond env s i action rt rid)) \<and> rs_messages (fst (Store_Respond env s i action rt rid)) = rs_messages s"
proof (cases rule: Store_Respond_cases [of env s i action rt rid])
  case (wrote req status rt' rid')
  show ?thesis using wrote(9) only_request_update [OF wrote(8)] by (simp add: respond_row_def)
qed (simp add: only_request_same)

lemma Store_Cancel_frame:
  "only_request i s (fst (Store_Cancel env s i)) \<and> rs_messages (fst (Store_Cancel env s i)) = rs_messages s"
  using set_open_call_cases [of env s i "''cancelled''"]
  by (auto simp: Store_Cancel_def intro: only_request_same only_request_set_open)

lemma Store_AddMessage_frame: "only_request i s (fst (Store_AddMessage env s i at aid body))"
  by (cases rule: AddMessage_cases [of env s i at aid body]) (auto intro: only_request_same only_request_set_open)

lemma fst_case_reply:
  "fst (case p of (s', Inl e) \<Rightarrow> if A e then (s', a e) else if B e then (s', b e) else (s', c e) | (s', Inr v) \<Rightarrow> (s', d v)) = fst p"
  "fst (case p of (s', Inl e) \<Rightarrow> if A e then (s', a e) else (s', c e) | (s', Inr v) \<Rightarrow> (s', d v)) = fst p"
  by (simp_all split: prod.split sum.split)

lemma Handler_Respond_frame:
  "only_request i s (fst (Handler_Respond env fault ws i rbody s)) \<and> rs_messages (fst (Handler_Respond env fault ws i rbody s)) = rs_messages s"
  unfolding Handler_Respond_def Let_def
  by (split option.split, intro conjI allI impI; (split option.split)?; simp add: fst_case_reply only_request_same Store_Respond_frame)

lemma Handler_Cancel_frame:
  "only_request i s (fst (Handler_Cancel env fault ws i s)) \<and> rs_messages (fst (Handler_Cancel env fault ws i s)) = rs_messages s"
  unfolding Handler_Cancel_def by (simp add: fst_case_reply only_request_same Store_Cancel_frame split: option.split)

lemma Handler_AddMessage_frame: "only_request i s (fst (Handler_AddMessage env fault ws i mbody s))"
  unfolding Handler_AddMessage_def Let_def
  by (split option.split, intro conjI allI impI; (split option.split)?; simp add: fst_case_reply only_request_same Store_AddMessage_frame)

lemma respond_entitled:
  assumes "Handler_Respond env fault ws i rbody s = (s', resp)" "s' \<noteq> s" "ws \<noteq> []"
  shows "\<exists>r \<in> set (rs_requests s). r_id r = i \<and> r_recipient_type r = ''agent'' \<and> r_recipient_id r = ws"
proof -
  have "authz fault s ws i (\<lambda>req. r_recipient_type req = ''agent'' \<and> r_recipient_id req = ws)
      ''request not found or already resolved'' ''failed to respond'' ''not the recipient'' = None"
    using assms(1,2) by (auto simp: Handler_Respond_def Let_def split: option.splits)
  from authz_passed [OF this assms(3)] show ?thesis .
qed

lemma cancel_entitled:
  assumes "Handler_Cancel env fault ws i s = (s', resp)" "s' \<noteq> s" "ws \<noteq> []"
  shows "\<exists>r \<in> set (rs_requests s). r_id r = i \<and> r_requester_type r = ''agent'' \<and> r_requester_id r = ws"
proof -
  have "authz fault s ws i (\<lambda>req. r_requester_type req = ''agent'' \<and> r_requester_id req = ws)
      ''request not found or already resolved'' ''failed to cancel'' ''not the requester'' = None"
    using assms(1,2) by (auto simp: Handler_Cancel_def split: option.splits)
  from authz_passed [OF this assms(3)] show ?thesis .
qed

lemma message_entitled:
  assumes h: "Handler_AddMessage env fault ws i mbody s = (s', resp)" "s' \<noteq> s" "ws \<noteq> []"
  shows "(\<exists>r \<in> set (rs_requests s). r_id r = i \<and> isParty r ws) \<and>
    (\<exists>m. rs_messages s' = rs_messages s @ [m] \<and> m_request_id m = i \<and> m_author_type m = ''agent'' \<and> m_author_id m = ws)"
proof
  have a: "authz fault s ws i (\<lambda>req. isParty req ws) ''request not found''
      ''failed to add message'' ''not a participant'' = None"
    using h(1,2) by (auto simp: Handler_AddMessage_def Let_def split: option.splits)
  from authz_passed [OF a h(3)] show "\<exists>r \<in> set (rs_requests s). r_id r = i \<and> isParty r ws" .
  obtain b where b: "bind_required (\<lambda>b. [mb_Body b, mb_AuthorType b]) mbody = Some b"
    using h(1,2) by (cases "bind_required (\<lambda>b. [mb_Body b, mb_AuthorType b]) mbody")
      (auto simp: Handler_AddMessage_def)
  have s': "s' = fst (Store_AddMessage env s i ''agent'' ws (mb_Body b))"
    using h(1) a b h(3)
    by (auto simp: Handler_AddMessage_def split: prod.splits sum.splits if_splits)
  show "\<exists>m. rs_messages s' = rs_messages s @ [m] \<and> m_request_id m = i \<and>
            m_author_type m = ''agent'' \<and> m_author_id m = ws"
    by (cases rule: AddMessage_cases [of env s i "''agent''" ws "mb_Body b"]) (use h s' in auto)
qed

text \<open>C6: on the workspace-token routes a workspace changes the store only where it is entitled to.
  A \<^verbatim>\<open>respond\<close>, \<^verbatim>\<open>cancel\<close> or \<^verbatim>\<open>messages\<close> request leaves the row of every request other than the one of its
  route unchanged, creates and deletes none, and the first two leave all messages unchanged. When a
  \<^verbatim>\<open>respond\<close> changes anything, the request is addressed to that workspace; when a \<^verbatim>\<open>cancel\<close> does, the
  workspace raised the request; when a \<^verbatim>\<open>messages\<close> post does, it is one of the two parties and exactly
  one message is appended, to that request and with its own identity, whatever the body claims.\<close>

theorem workspace_route_isolation:
  assumes "ws \<noteq> []"
  shows "(\<forall>s' resp. Handler_Respond env fault ws i rbody s = (s', resp) \<longrightarrow>
       only_request i s s' \<and> rs_messages s' = rs_messages s \<and>
       (s' \<noteq> s \<longrightarrow> (\<exists>r \<in> set (rs_requests s). r_id r = i \<and> r_recipient_type r = ''agent'' \<and> r_recipient_id r = ws))) \<and>
    (\<forall>s' resp. Handler_Cancel env fault ws i s = (s', resp) \<longrightarrow>
       only_request i s s' \<and> rs_messages s' = rs_messages s \<and>
       (s' \<noteq> s \<longrightarrow> (\<exists>r \<in> set (rs_requests s). r_id r = i \<and> r_requester_type r = ''agent'' \<and> r_requester_id r = ws))) \<and>
    (\<forall>s' resp. Handler_AddMessage env fault ws i mbody s = (s', resp) \<longrightarrow>
       only_request i s s' \<and>
       (s' \<noteq> s \<longrightarrow> (\<exists>r \<in> set (rs_requests s). r_id r = i \<and> isParty r ws) \<and>
         (\<exists>m. rs_messages s' = rs_messages s @ [m] \<and> m_request_id m = i \<and>
              m_author_type m = ''agent'' \<and> m_author_id m = ws)))"
  using Handler_Respond_frame [of i s env fault ws rbody] Handler_Cancel_frame [of i s env fault ws] Handler_AddMessage_frame [of i s env fault ws mbody]
    respond_entitled [OF _ _ assms, of env fault i rbody s] cancel_entitled [OF _ _ assms, of env fault i s]
    message_entitled [OF _ _ assms, of env fault i mbody s]
  by (intro conjI allI impI; simp)

theorem workspace_route_isolation_witness:
  "\<exists>s' resp. Handler_Cancel (sample_env 2 ''x'') False ''a'' ''r'' sample_store = (s', resp) \<and> s' \<noteq> sample_store \<and>
     (\<exists>r \<in> set (rs_requests sample_store). r_id r = ''r'' \<and> r_requester_type r = ''agent'' \<and> r_requester_id r = ''a'')"
proof -
  have st: "rs_requests sample_store = [new_request 1 ''r'' sample_request]"
    by (simp add: sample_store_def request_eval)
  obtain s' resp where e: "Handler_Cancel (sample_env 2 ''x'') False ''a'' ''r'' sample_store = (s', resp)"
    by (rule prod.exhaust)
  have "rs_requests s' = [(new_request 1 ''r'' sample_request)\<lparr>r_status := ''cancelled'', r_updated_at := 2\<rparr>]"
    using e by (auto simp: Handler_Cancel_def authz_def st request_eval split: prod.splits)
  then have ne: "s' \<noteq> sample_store" using st by (auto simp: new_request_def)
  have a: "''a'' \<noteq> []" by simp
  from workspace_route_isolation [OF a, of "sample_env 2 ''x''" False "''r''" None sample_store None] e ne
  show ?thesis by blast
qed

section \<open>Listings\<close>

text \<open>The inbox an agent sees: with no database error, at most 50 requests, all addressed to it and
  with the requested status, newest first; and every such request is in it unless 50 requests
  that are at least as new are.\<close>

theorem ListInbox_correct:
  "\<exists>rows. Store_ListInbox calm_list s pt pid st = Inr rows \<and> length rows \<le> 50 \<and>
     sorted (map (\<lambda>r. - r_created_at r) rows) \<and>
     (\<forall>r \<in> set rows. r \<in> set (rs_requests s) \<and> r_recipient_type r = pt \<and> r_recipient_id r = pid \<and>
        (st \<noteq> [] \<longrightarrow> r_status r = st)) \<and>
     (\<forall>r \<in> set (rs_requests s). r_recipient_type r = pt \<and> r_recipient_id r = pid \<and>
        (st \<noteq> [] \<longrightarrow> r_status r = st) \<longrightarrow>
        r \<in> set rows \<or> (length rows = 50 \<and> (\<forall>x \<in> set rows. r_created_at r \<le> r_created_at x)))"
proof -
  let ?P = "\<lambda>r. r_recipient_type r = pt \<and> r_recipient_id r = pid \<and> (st \<noteq> [] \<longrightarrow> r_status r = st)"
  let ?l = "sort_key (\<lambda>r. - r_created_at r) (filter ?P (rs_requests s))"
  have eq: "Store_ListInbox calm_list s pt pid st = Inr (take 50 ?l)"
    by (simp add: Store_ListInbox_def queryRequests_def fetch_rows_def calm_list_def newest_def)
  have srt: "sorted (map (\<lambda>r. - r_created_at r) ?l)" by simp
  have mem: "r \<in> set (take 50 ?l) \<Longrightarrow> r \<in> set (rs_requests s) \<and> ?P r" for r
    by (drule in_set_takeD) simp
  have rest: "r \<in> set (take 50 ?l) \<or> (length (take 50 ?l) = 50 \<and>
      (\<forall>x \<in> set (take 50 ?l). r_created_at r \<le> r_created_at x))"
    if "r \<in> set (rs_requests s)" "?P r" for r
  proof (rule disjCI)
    assume "\<not> (length (take 50 ?l) = 50 \<and> (\<forall>x \<in> set (take 50 ?l). r_created_at r \<le> r_created_at x))"
    moreover have "r \<in> set (take 50 ?l @ drop 50 ?l)" using that by simp
    moreover have "r_created_at r \<le> r_created_at x" if "x \<in> set (take 50 ?l)" "r \<in> set (drop 50 ?l)" for x
    proof -
      have "sorted (map (\<lambda>r. - r_created_at r) (take 50 ?l @ drop 50 ?l))" using srt by simp
      then show ?thesis using that unfolding map_append sorted_append by fastforce
    qed
    moreover have "length (take 50 ?l) = 50" if "drop 50 ?l \<noteq> []" using that by simp
    ultimately show "r \<in> set (take 50 ?l)" by (cases "drop 50 ?l") auto
  qed
  have "sorted (map (\<lambda>r. - r_created_at r) (take 50 ?l))"
    unfolding take_map [symmetric] by (rule sorted_wrt_take [OF srt])
  moreover have "length (take 50 ?l) \<le> 50" by simp
  ultimately show ?thesis using eq mem rest by blast
qed

theorem ListInbox_correct_witness:
  "\<exists>rows. Store_ListInbox calm_list sample_store ''user'' [] [] = Inr rows \<and> length rows \<le> 50 \<and>
     (\<forall>r \<in> set (rs_requests sample_store). r \<in> set rows)"
proof -
  have st: "rs_requests sample_store = [new_request 1 ''r'' sample_request]"
    by (simp add: sample_store_def request_eval)
  obtain rows where rows: "Store_ListInbox calm_list sample_store ''user'' [] [] = Inr rows" "length rows \<le> 50"
    "\<forall>r \<in> set (rs_requests sample_store). r_recipient_type r = ''user'' \<and> r_recipient_id r = [] \<and>
        (([] :: string) \<noteq> [] \<longrightarrow> r_status r = []) \<longrightarrow>
        r \<in> set rows \<or> (length rows = 50 \<and> (\<forall>x \<in> set rows. r_created_at r \<le> r_created_at x))"
    using ListInbox_correct [of sample_store "''user''" "[]" "[]"] by blast
  have "length rows = 1"
    using rows(1) by (auto simp: Store_ListInbox_def queryRequests_def fetch_rows_def calm_list_def newest_def
        st new_request_def sample_request_def)
  with rows st show ?thesis by (auto simp: new_request_def sample_request_def)
qed

section \<open>Array literals\<close>

lemma parse_escaped:
  "parse_array_loop out cur True False (escape_elem e @ rest) =
    parse_array_loop out (cur @ e) True False rest"
  by (induction e arbitrary: cur) (simp_all add: escape_elem_def)

lemma parse_quoted:
  "parse_array_loop out [] False False ([CHR 0x22] @ escape_elem e @ [CHR 0x22] @ rest) =
    parse_array_loop out e False False rest"
  by (simp add: parse_escaped)

lemma parse_joined:
  "es \<noteq> [] \<Longrightarrow> parse_array_loop out [] False False (join_elems True es) = out @ es"
proof (induction es arbitrary: out)
  case (Cons e es)
  show ?case
  proof (cases es)
    case Nil
    then show ?thesis using parse_quoted [of out e "[]"] by simp
  next
    case (Cons f fs)
    have "parse_array_loop out [] False False (join_elems True (e # es)) =
        parse_array_loop out e False False (join_elems False es)"
      using parse_quoted [of out e "join_elems False es"] by simp
    also have "\<dots> = parse_array_loop (out @ [e]) [] False False (join_elems True es)"
      by (simp add: Cons)
    finally show ?thesis using Cons.IH [of "out @ [e]"] Cons by simp
  qed
qed simp

text \<open>The reader of text-array literals inverts the writer: whatever the elements contain, quotes,
  backslashes, commas and braces included, \<^verbatim>\<open>parsePGTextArray\<close> of \<^verbatim>\<open>stringArray.Value\<close> is the
  list that was written.\<close>

theorem stringArray_roundtrip:
  "\<exists>lit. stringArray_Value (Some es) = Some lit \<and> parsePGTextArray lit = es"
proof (cases "es = []")
  case False
  then have "join_elems True es \<noteq> []" by (cases es) simp_all
  then show ?thesis
    using parse_joined [OF False, of "[]"]
    by (simp add: stringArray_Value_def parsePGTextArray_def butlast_append)
qed (simp add: stringArray_Value_def parsePGTextArray_def)

text \<open>The unquoted form PostgreSQL prints for identifiers without special characters.\<close>

definition plain_elem :: "string \<Rightarrow> bool" where
  "plain_elem e \<longleftrightarrow> e \<noteq> [] \<and> (\<forall>c \<in> set e. c \<noteq> CHR 0x22 \<and> c \<noteq> CHR 0x5C \<and> c \<noteq> CHR '','')"

lemma parse_plain:
  "\<forall>c \<in> set e. c \<noteq> CHR 0x22 \<and> c \<noteq> CHR 0x5C \<and> c \<noteq> CHR '','' \<Longrightarrow>
    parse_array_loop out cur False False (e @ rest) = parse_array_loop out (cur @ e) False False rest"
  by (induction e arbitrary: cur) simp_all

lemma parse_array_out:
  "es \<noteq> [] \<Longrightarrow> \<forall>e \<in> set es. plain_elem e \<Longrightarrow>
    parse_array_loop out [] False False (array_out es) = out @ es"
proof (induction es arbitrary: out rule: array_out.induct)
  case (2 e)
  then show ?case using parse_plain [of e out "[]" "[]"] by (simp add: plain_elem_def)
next
  case (3 e f fs)
  have "parse_array_loop out [] False False (array_out (e # f # fs)) =
      parse_array_loop (out @ [e]) [] False False (array_out (f # fs))"
    using 3(3) parse_plain [of e out "[]" "'','' @ array_out (f # fs)"] by (simp add: plain_elem_def)
  with 3 show ?case by simp
qed simp

lemma scan_array_out:
  assumes "\<forall>e \<in> set es. plain_elem e"
  shows "stringArray_Scan (SrcText (''{'' @ array_out es @ ''}'')) = Some es"
proof (cases "es = []")
  case False
  have "array_out es \<noteq> []" using False assms by (cases es rule: array_out.cases) (auto simp: plain_elem_def)
  then show ?thesis
    using parse_array_out [OF False assms, of "[]"]
    by (simp add: stringArray_Scan_def parsePGTextArray_def butlast_append)
qed (simp add: stringArray_Scan_def parsePGTextArray_def)



end
