(* ===== verification/Nudge_Props.thy ===== *)
theory Nudge_Props
  imports Request_Props
begin

text \<open>
  The effect of a nudge sweep on the inbox: exactly the due requests are stamped, one turn per
  idle agent, and nothing that was covered is due again before the re-nudge window has passed.
\<close>

section \<open>Stamps\<close>

definition stamp_if :: "(RequestRow \<Rightarrow> bool) \<Rightarrow> instant \<Rightarrow> RequestRow \<Rightarrow> RequestRow" where
  "stamp_if Q now r = (if Q r then r\<lparr>r_last_nudged_at := Some now\<rparr> else r)"

lemma stamp_if_id [simp]: "r_id (stamp_if Q now r) = r_id r"
  by (simp add: stamp_if_def)

definition group_ids :: "(RequestRow \<Rightarrow> bool) \<Rightarrow> RequestRow list \<Rightarrow> uuid \<Rightarrow> uuid list" where
  "group_ids due rows w = map r_id (filter (\<lambda>r. r_recipient_id r = w) (filter due rows))"

lemma group_ids_iff:
  assumes "distinct (map r_id rows)" "r \<in> set rows"
  shows "r_id r \<in> set (group_ids due rows w) \<longleftrightarrow> due r \<and> r_recipient_id r = w"
  using assms by (auto simp: group_ids_def distinct_map dest: inj_onD)

lemma stamp_group:
  assumes "distinct (map r_id rows)"
  shows "update_where (\<lambda>r. r_id r \<in> set (group_ids due rows w)) (\<lambda>r. r\<lparr>r_last_nudged_at := Some now\<rparr>)
      (map (stamp_if Q now) rows) =
    map (stamp_if (\<lambda>r. Q r \<or> (due r \<and> r_recipient_id r = w)) now) rows"
  unfolding update_where_def map_map
proof (rule map_cong [OF refl])
  fix r assume "r \<in> set rows"
  from group_ids_iff [OF assms this, of due w]
  show "((\<lambda>r. if r_id r \<in> set (group_ids due rows w) then r\<lparr>r_last_nudged_at := Some now\<rparr> else r) \<circ>
      stamp_if Q now) r = stamp_if (\<lambda>r. Q r \<or> (due r \<and> r_recipient_id r = w)) now r"
    by (simp add: stamp_if_def)
qed

section \<open>A sweep without errors\<close>

definition calm_nudge :: "'q nudge_env \<Rightarrow> instant \<Rightarrow> bool" where
  "calm_nudge env now \<longleftrightarrow> \<not> ne_query_err env \<and> ne_rows_err env = None \<and> (\<forall>w. \<not> ne_scan_err env w) \<and>
     (\<forall>w. re_now (ne_agent env w) = now \<and> \<not> re_flt (ne_agent env w) 0) \<and>
     (\<forall>w q body key. key \<noteq> [] \<longrightarrow>
        \<not> isl (snd (re_enqueue (ne_agent env w) q w [] PriorityInfo body ''message/send'' key None)))"

lemma nudgeAgent_calm:
  assumes "calm_nudge env now"
  shows "\<exists>q. nudgeAgent (ne_agent env w) s w ids now =
    (s\<lparr>rs_queue := q,
       rs_requests := update_where (\<lambda>r. r_id r \<in> set ids)
         (\<lambda>r. r\<lparr>r_last_nudged_at := Some now\<rparr>) (rs_requests s)\<rparr>, Inr ())"
proof -
  let ?e = "re_enqueue (ne_agent env w) (rs_queue s) w [] PriorityInfo
     (buildNudgeBody (ne_agent env w) (length ids)) ''message/send'' (nudge_key w now) None"
  have "nudge_key w now \<noteq> []" by (simp add: nudge_key_def)
  then have "\<not> isl (snd ?e)" using assms unfolding calm_nudge_def by blast
  then obtain q res where "?e = (q, Inr res)" by (metis prod.collapse sum.collapse(2))
  with assms show ?thesis by (auto simp: nudgeAgent_def calm_nudge_def)
qed

lemma nudge_fold:
  assumes "calm_nudge env now" "distinct (map r_id rows)"
    and "rs_requests s = map (stamp_if Q now) rows"
  shows "\<exists>s'. foldl (nudge_one env now) (s, res) (map (\<lambda>w. (w, group_ids due rows w)) ws) =
      (s', res\<lparr>AgentsNudged := AgentsNudged res + length ws,
               ItemsCovered := ItemsCovered res + (\<Sum>w\<leftarrow>ws. length (group_ids due rows w))\<rparr>) \<and>
    rs_requests s' = map (stamp_if (\<lambda>r. Q r \<or> (due r \<and> r_recipient_id r \<in> set ws)) now) rows"
  using assms(3)
proof (induction ws arbitrary: s Q res)
  case Nil
  then show ?case by simp
next
  case (Cons w ws)
  let ?res = "res\<lparr>AgentsNudged := AgentsNudged res + 1,
       ItemsCovered := ItemsCovered res + length (group_ids due rows w)\<rparr>"
  let ?Q = "\<lambda>r. Q r \<or> (due r \<and> r_recipient_id r = w)"
  obtain q where n: "nudgeAgent (ne_agent env w) s w (group_ids due rows w) now =
    (s\<lparr>rs_queue := q,
       rs_requests := update_where (\<lambda>r. r_id r \<in> set (group_ids due rows w))
         (\<lambda>r. r\<lparr>r_last_nudged_at := Some now\<rparr>) (rs_requests s)\<rparr>, Inr ())"
    using nudgeAgent_calm [OF assms(1)] by blast
  let ?s = "s\<lparr>rs_queue := q, rs_requests := map (stamp_if ?Q now) rows\<rparr>"
  have one: "nudge_one env now (s, res) (w, group_ids due rows w) = (?s, ?res)"
    by (simp add: nudge_one_def n Cons.prems stamp_group [OF assms(2)])
  obtain s' where s': "foldl (nudge_one env now) (?s, ?res) (map (\<lambda>w. (w, group_ids due rows w)) ws) =
      (s', ?res\<lparr>AgentsNudged := AgentsNudged ?res + length ws,
               ItemsCovered := ItemsCovered ?res + (\<Sum>w\<leftarrow>ws. length (group_ids due rows w))\<rparr>)"
    "rs_requests s' = map (stamp_if (\<lambda>r. ?Q r \<or> (due r \<and> r_recipient_id r \<in> set ws)) now) rows"
    using Cons.IH [of ?s ?Q ?res] by auto
  have "(\<lambda>r. ?Q r \<or> (due r \<and> r_recipient_id r \<in> set ws)) =
      (\<lambda>r. Q r \<or> (due r \<and> r_recipient_id r \<in> set (w # ws)))" by auto
  with s' one show ?case by (auto simp: add.assoc)
qed

lemma nudge_todo:
  assumes "calm_nudge env now" "\<forall>r \<in> set rows. plain_elem (r_id r)"
    and "length (remdups (map r_recipient_id (filter (nudge_due sw now wst) rows))) \<le> ns_limit sw"
  shows "map (\<lambda>(w, src). (w, the (stringArray_Scan src))) (nudge_groups sw now wst rows) =
    map (\<lambda>w. (w, group_ids (nudge_due sw now wst) rows w))
      (remdups (map r_recipient_id (filter (nudge_due sw now wst) rows)))"
    "\<And>g. g \<in> set (nudge_groups sw now wst rows) \<Longrightarrow> stringArray_Scan (snd g) \<noteq> None"
proof -
  have scan: "stringArray_Scan (SrcText (''{'' @
      array_out (map r_id (filter (\<lambda>r. r_recipient_id r = w) (filter (nudge_due sw now wst) rows))) @ ''}'')) =
      Some (group_ids (nudge_due sw now wst) rows w)" for w
    unfolding group_ids_def by (rule scan_array_out) (use assms(2) in auto)
  show "map (\<lambda>(w, src). (w, the (stringArray_Scan src))) (nudge_groups sw now wst rows) =
    map (\<lambda>w. (w, group_ids (nudge_due sw now wst) rows w))
      (remdups (map r_recipient_id (filter (nudge_due sw now wst) rows)))"
    using assms(3) unfolding nudge_groups_def Let_def by (simp only: take_map take_all map_map comp_def prod.case scan option.sel)
  show "\<And>g. g \<in> set (nudge_groups sw now wst rows) \<Longrightarrow> stringArray_Scan (snd g) \<noteq> None"
    by (auto simp: nudge_groups_def stringArray_Scan_def dest!: in_set_takeD)
qed

lemma Nudge_Sweep_calm:
  assumes "calm_nudge env now"
    and "\<And>g. g \<in> set (nudge_groups sw now wst (rs_requests s)) \<Longrightarrow> stringArray_Scan (snd g) \<noteq> None"
    and "map (\<lambda>(w, src). (w, the (stringArray_Scan src))) (nudge_groups sw now wst (rs_requests s)) = T"
    and "\<forall>g \<in> set T. snd g \<noteq> []"
  shows "Nudge_Sweep sw env now wst s =
    foldl (nudge_one env now) (s, \<lparr>AgentsNudged = 0, ItemsCovered = 0, NudgeErrors = 0\<rparr>) T"
proof -
  let ?G = "nudge_groups sw now wst (rs_requests s)"
  let ?bad = "\<lambda>(w, src). ne_scan_err env w \<or> stringArray_Scan src = None"
  have good: "\<not> ?bad g" if "g \<in> set ?G" for g
    using assms(1,2) that by (auto simp: calm_nudge_def case_prod_beta)
  then have "filter (\<lambda>g. \<not> ?bad g) ?G = ?G" "count_where ?bad ?G = 0"
    by (auto simp: filter_id_conv count_where_0_iff)
  moreover have "filter (\<lambda>(w, ids). ids \<noteq> []) T = T"
    using assms(4) by (auto simp: filter_id_conv)
  ultimately show ?thesis
    using assms(1,3) by (simp add: Nudge_Sweep_def Let_def calm_nudge_def)
qed

lemma length_filter_split:
  "w \<notin> set ws \<Longrightarrow> length (filter (\<lambda>x. f x \<in> set (w # ws)) xs) =
      length (filter (\<lambda>x. f x = w) xs) + length (filter (\<lambda>x. f x \<in> set ws) xs)"
  by (induction xs) auto

lemma sum_groups:
  "distinct ws \<Longrightarrow> (\<Sum>w\<leftarrow>ws. length (filter (\<lambda>x. f x = w) xs)) = length (filter (\<lambda>x. f x \<in> set ws) xs)"
proof (induction ws)
  case (Cons w ws)
  then show ?case using length_filter_split [of w ws f xs] by simp
qed simp

text \<open>A nudge sweep that meets no error, with no more idle agents to remind than the batch limit,
  stamps exactly the due requests (open, addressed to an idle online agent, older than ten
  minutes, not nudged within the window) and leaves the others alone; it counts one nudge per
  agent and every due request once; and no request it stamped is due again at any time up to
  the end of the re-nudge window, whatever the workspaces do meanwhile.\<close>

theorem Nudge_Sweep_correct:
  assumes "calm_nudge env now" and "distinct (map r_id (rs_requests s))"
    and "\<forall>r \<in> set (rs_requests s). plain_elem (r_id r)"
    and "card {r_recipient_id r | r. r \<in> set (rs_requests s) \<and> nudge_due sw now wst r} \<le> ns_limit sw"
    and "t \<le> now + ns_reNudgeWait sw"
  shows "\<exists>s'. Nudge_Sweep sw env now wst s =
      (s', \<lparr>AgentsNudged = card {r_recipient_id r | r. r \<in> set (rs_requests s) \<and> nudge_due sw now wst r},
            ItemsCovered = count_where (nudge_due sw now wst) (rs_requests s), NudgeErrors = 0\<rparr>) \<and>
    rs_requests s' = map (\<lambda>r. if nudge_due sw now wst r then r\<lparr>r_last_nudged_at := Some now\<rparr> else r)
      (rs_requests s) \<and>
    (\<forall>r \<in> set (rs_requests s'). r_last_nudged_at r = Some now \<longrightarrow> \<not> nudge_due sw t wst' r)"
proof -
  let ?rows = "rs_requests s" and ?due = "nudge_due sw now wst"
  let ?ws = "remdups (map r_recipient_id (filter ?due ?rows))"
  have card: "length ?ws = card {r_recipient_id r | r. r \<in> set ?rows \<and> ?due r}"
    unfolding length_remdups_card_conv by (rule arg_cong [of _ _ card]) auto
  have lim: "length ?ws \<le> ns_limit sw" using assms(4) card by simp
  note todo = nudge_todo [OF assms(1,3) lim]
  have ne: "group_ids ?due ?rows w \<noteq> []" if "w \<in> set ?ws" for w
    using that by (auto simp: group_ids_def filter_empty_conv)
  have items: "(\<Sum>w\<leftarrow>?ws. length (group_ids ?due ?rows w)) = count_where ?due ?rows"
  proof -
    have "filter (\<lambda>x. r_recipient_id x \<in> set ?ws) (filter ?due ?rows) = filter ?due ?rows"
      by (rule filter_True) auto
    then show ?thesis
      using sum_groups [of ?ws r_recipient_id "filter ?due ?rows"]
      unfolding group_ids_def count_where_def length_map by simp
  qed
  have stamp0: "?rows = map (stamp_if (\<lambda>_. False) now) ?rows" by (simp add: stamp_if_def [abs_def])
  obtain s' where s': "foldl (nudge_one env now) (s, \<lparr>AgentsNudged = 0, ItemsCovered = 0, NudgeErrors = 0\<rparr>)
        (map (\<lambda>w. (w, group_ids ?due ?rows w)) ?ws) =
      (s', \<lparr>AgentsNudged = length ?ws, ItemsCovered = count_where ?due ?rows, NudgeErrors = 0\<rparr>)"
    "rs_requests s' = map (stamp_if (\<lambda>r. ?due r \<and> r_recipient_id r \<in> set ?ws) now) ?rows"
    using nudge_fold [OF assms(1,2) stamp0, of "\<lparr>AgentsNudged = 0, ItemsCovered = 0, NudgeErrors = 0\<rparr>" ?due ?ws]
    unfolding items by auto
  have "Nudge_Sweep sw env now wst s =
      (s', \<lparr>AgentsNudged = length ?ws, ItemsCovered = count_where ?due ?rows, NudgeErrors = 0\<rparr>)"
    using Nudge_Sweep_calm [OF assms(1) todo(2,1)] ne s'(1) by auto
  moreover have "rs_requests s' = map (\<lambda>r. if ?due r then r\<lparr>r_last_nudged_at := Some now\<rparr> else r) ?rows"
    unfolding s'(2) by (rule map_cong) (auto simp: stamp_if_def)
  moreover have "\<not> nudge_due sw t wst' r" if "r_last_nudged_at r = Some now" for r
    using that assms(5) by (simp add: nudge_due_def)
  ultimately show ?thesis unfolding card by blast
qed

definition sample_nudge_env :: "a2a_queue nudge_env" where
  "sample_nudge_env =
     \<lparr>ne_query_err = False, ne_scan_err = (\<lambda>_. False), ne_rows_err = None,
      ne_agent = (\<lambda>w. \<lparr>re_flt = no_faults, re_now = hour, re_newid = ''x'', re_nonce = ''n'',
         re_enqueue = EnqueueA2A no_faults hour ''q'', re_marshal = (\<lambda>_. ''{}''), re_quote = id\<rparr>)\<rparr>"

definition sample_inbox :: "a2a_queue req_state" where
  "sample_inbox =
     \<lparr>rs_requests = [new_request 0 ''r'' (sample_request\<lparr>in_RecipientType := ''agent'', in_RecipientID := ''dev''\<rparr>)],
      rs_messages = [], rs_events = [], rs_queue = []\<rparr>"

lemma sample_nudge_calm: "calm_nudge sample_nudge_env hour"
proof -
  have "\<not> isl (snd (EnqueueA2A no_faults hour ''q'' q w [] PriorityInfo body ''message/send'' key None))"
    if "key \<noteq> []" for q w body key
    by (rule EnqueueA2A_keyed [OF that, of hour "''q''" q w "[]" PriorityInfo body "''message/send''" None]) auto
  then show ?thesis by (simp add: calm_nudge_def sample_nudge_env_def)
qed

theorem Nudge_Sweep_correct_witness:
  "\<exists>s' res. Nudge_Sweep (NewRequestNudgeSweeper (\<lambda>_. [])) sample_nudge_env hour sample_org sample_inbox = (s', res) \<and>
     map r_last_nudged_at (rs_requests s') = [Some hour] \<and>
     (\<forall>r \<in> set (rs_requests s'). \<not> nudge_due (NewRequestNudgeSweeper (\<lambda>_. [])) (2 * hour) sample_org r)"
proof -
  let ?sw = "NewRequestNudgeSweeper (\<lambda>_. [])"
  have due: "nudge_due ?sw hour sample_org r" if "r \<in> set (rs_requests sample_inbox)" for r
    using that by (auto simp: sample_inbox_def nudge_due_def new_request_def sample_request_def
        NewRequestNudgeSweeper_def requestNudgeStaleAfter_def idle_online_def sample_org_def
        sample_row_def duration_defs)
  have "{r_recipient_id r | r. r \<in> set (rs_requests sample_inbox) \<and> nudge_due ?sw hour sample_org r} \<subseteq> {''dev''}"
    by (auto simp: sample_inbox_def new_request_def)
  from card_mono [OF _ this]
  have c: "card {r_recipient_id r | r. r \<in> set (rs_requests sample_inbox) \<and> nudge_due ?sw hour sample_org r}
      \<le> ns_limit ?sw"
    by (simp add: NewRequestNudgeSweeper_def requestNudgeBatchLimit_def)
  have d: "distinct (map r_id (rs_requests sample_inbox))" by (simp add: sample_inbox_def)
  have p: "\<forall>r \<in> set (rs_requests sample_inbox). plain_elem (r_id r)"
    by (simp add: sample_inbox_def new_request_def plain_elem_def)
  have t: "2 * hour \<le> hour + ns_reNudgeWait ?sw"
    by (simp add: NewRequestNudgeSweeper_def requestNudgeReNudgeAfter_def)
  obtain s' res where s': "Nudge_Sweep ?sw sample_nudge_env hour sample_org sample_inbox = (s', res)"
    "rs_requests s' = map (\<lambda>r. if nudge_due ?sw hour sample_org r then r\<lparr>r_last_nudged_at := Some hour\<rparr> else r)
      (rs_requests sample_inbox)"
    "\<forall>r \<in> set (rs_requests s'). r_last_nudged_at r = Some hour \<longrightarrow> \<not> nudge_due ?sw (2 * hour) sample_org r"
    using Nudge_Sweep_correct [OF sample_nudge_calm d p c t, of sample_org] by blast
  have "rs_requests s' = map (\<lambda>r. r\<lparr>r_last_nudged_at := Some hour\<rparr>) (rs_requests sample_inbox)"
    unfolding s'(2) by (rule map_cong) (simp_all add: due)
  moreover have "length (rs_requests sample_inbox) = 1" by (simp add: sample_inbox_def)
  ultimately show ?thesis using s'(1,3) by (auto simp: length_Suc_conv)
qed

end
