(* ===== verification/Tunnel_Pool.thy ===== *)
theory Tunnel_Pool
  imports Prelude "HOL-Library.Char_ord"
begin

text \<open>
  \<^verbatim>\<open>internal/handlers/eic_tunnel_pool.go\<close>: the reference-counted pool of SSH tunnels. Tunnels are
  heap objects (the pool map, the releasers and the callers share pointers to them), so the
  state has an explicit store: a tunnel is an index into \<open>pl_heap\<close>, the pool map holds indices,
  and every releaser closure captures one. \<open>pl_closed\<close> lists the tunnels whose cleanup was
  started, in order. Each definition with a pool argument is one critical section of the
  mutex; the slow tunnel setup runs between two of them.
\<close>

section \<open>State\<close>

type_synonym addr = nat

definition poolTTL :: duration where
  "poolTTL = 50 * second"

definition poolMaxEntries :: nat where
  "poolMaxEntries = 32"

record pooledTunnel =
  pt_expiresAt :: instant
  pt_lastUsed :: instant
  pt_refcount :: int
  pt_poisoned :: bool

text \<open>A releaser closure: the instance and the tunnel it captured, and its \<^verbatim>\<open>released\<close> flag.\<close>

record releaser_state =
  rel_instanceID :: string
  rel_pt :: addr
  rel_released :: bool

abbreviation new_releaser :: "string \<Rightarrow> addr \<Rightarrow> releaser_state" where
  "new_releaser i a \<equiv> \<lparr>rel_instanceID = i, rel_pt = a, rel_released = False\<rparr>"

record eicTunnelPool =
  pl_heap :: "pooledTunnel list"
  pl_entries :: "(string \<times> addr) list"
  pl_pendingSetups :: "string list"
  pl_releasers :: "releaser_state list"
  pl_closed :: "addr list"

definition newEICTunnelPool :: eicTunnelPool where
  "newEICTunnelPool = \<lparr>pl_heap = [], pl_entries = [], pl_pendingSetups = [], pl_releasers = [], pl_closed = []\<rparr>"

definition delete_entry :: "string \<Rightarrow> (string \<times> addr) list \<Rightarrow> (string \<times> addr) list" where
  "delete_entry k = filter (\<lambda>e. fst e \<noteq> k)"

definition healthy :: "instant \<Rightarrow> pooledTunnel \<Rightarrow> bool" where
  "healthy now pt \<longleftrightarrow> \<not> pt_poisoned pt \<and> now < pt_expiresAt pt"

section \<open>acquire\<close>

datatype acquire_result = Session addr nat | WaitSetup | BuildSetup

text \<open>\<open>Session a h\<close>: tunnel \<open>a\<close> with releaser number \<open>h\<close>.\<close>

definition acquire_locked :: "eicTunnelPool \<Rightarrow> string \<Rightarrow> instant \<Rightarrow> eicTunnelPool \<times> acquire_result" where
  "acquire_locked p instanceID now =
     (let build =
        (if List.member (pl_pendingSetups p) instanceID then (p, WaitSetup)
         else
           let p1 = (case map_of (pl_entries p) instanceID of
                       None \<Rightarrow> p
                     | Some a \<Rightarrow>
                         if pt_refcount (pl_heap p ! a) = 0
                         then p\<lparr>pl_entries := delete_entry instanceID (pl_entries p),
                                pl_closed := pl_closed p @ [a]\<rparr>
                         else p)
           in (p1\<lparr>pl_pendingSetups := instanceID # pl_pendingSetups p1\<rparr>, BuildSetup))
      in case map_of (pl_entries p) instanceID of
           None \<Rightarrow> build
         | Some a \<Rightarrow>
             if healthy now (pl_heap p ! a)
             then (p\<lparr>pl_heap := (pl_heap p)[a := (pl_heap p ! a)
                        \<lparr>pt_refcount := pt_refcount (pl_heap p ! a) + 1, pt_lastUsed := now\<rparr>],
                     pl_releasers := pl_releasers p @ [new_releaser instanceID a]\<rparr>,
                   Session a (length (pl_releasers p)))
             else build)"

text \<open>The idle entry other than \<open>skip\<close> that was used longest ago.\<close>

fun oldest_idle :: "pooledTunnel list \<Rightarrow> string \<Rightarrow> (string \<times> addr) list \<Rightarrow> (string \<times> addr) option \<Rightarrow>
    (string \<times> addr) option" where
  "oldest_idle heap skip [] best = best"
| "oldest_idle heap skip ((k, a) # es) best =
     (if k = skip then oldest_idle heap skip es best
      else if 0 < pt_refcount (heap ! a) then oldest_idle heap skip es best
      else case best of
             None \<Rightarrow> oldest_idle heap skip es (Some (k, a))
           | Some (_, b) \<Rightarrow>
               oldest_idle heap skip es
                 (if pt_lastUsed (heap ! a) < pt_lastUsed (heap ! b) then Some (k, a) else best))"

definition evictLRUIfFullLocked :: "eicTunnelPool \<Rightarrow> string \<Rightarrow> eicTunnelPool" where
  "evictLRUIfFullLocked p skipInstance =
     (if length (pl_entries p) < poolMaxEntries then p
      else case oldest_idle (pl_heap p) skipInstance (pl_entries p) None of
             None \<Rightarrow> p
           | Some (k, a) \<Rightarrow> p\<lparr>pl_entries := delete_entry k (pl_entries p), pl_closed := pl_closed p @ [a]\<rparr>)"

text \<open>The second critical section, after the setup has returned (\<open>ok\<close>) or failed.\<close>

definition acquire_finish :: "eicTunnelPool \<Rightarrow> string \<Rightarrow> instant \<Rightarrow> bool \<Rightarrow> eicTunnelPool \<times> (addr \<times> nat) option" where
  "acquire_finish p instanceID now ok =
     (let p1 = p\<lparr>pl_pendingSetups := filter (\<lambda>k. k \<noteq> instanceID) (pl_pendingSetups p)\<rparr>
      in if \<not> ok then (p1, None)
         else
           let p2 = evictLRUIfFullLocked p1 instanceID;
               a = length (pl_heap p2);
               pt = \<lparr>pt_expiresAt = now + poolTTL, pt_lastUsed = now, pt_refcount = 1, pt_poisoned = False\<rparr>
           in (p2\<lparr>pl_heap := pl_heap p2 @ [pt],
                  pl_entries := (instanceID, a) # delete_entry instanceID (pl_entries p2),
                  pl_releasers := pl_releasers p2 @ [new_releaser instanceID a]\<rparr>,
               Some (a, length (pl_releasers p2))))"

section \<open>Release, janitor and stop\<close>

text \<open>The bookkeeping of a first release: flag, reference count and poison.\<close>

definition mark_released :: "eicTunnelPool \<Rightarrow> nat \<Rightarrow> bool \<Rightarrow> eicTunnelPool" where
  "mark_released p h poisoned =
     (let rel = pl_releasers p ! h; pt = pl_heap p ! rel_pt rel
      in p\<lparr>pl_releasers := (pl_releasers p)[h := rel\<lparr>rel_released := True\<rparr>],
           pl_heap := (pl_heap p)[rel_pt rel :=
             pt\<lparr>pt_refcount := pt_refcount pt - 1, pt_poisoned := pt_poisoned pt \<or> poisoned\<rparr>]\<rparr>)"

definition releaser :: "eicTunnelPool \<Rightarrow> nat \<Rightarrow> bool \<Rightarrow> instant \<Rightarrow> eicTunnelPool" where
  "releaser p h poisoned now =
     (let rel = pl_releasers p ! h; instanceID = rel_instanceID rel; a = rel_pt rel
      in if rel_released rel then p
         else
           let p1 = mark_released p h poisoned; pt = pl_heap p1 ! a
           in if pt_refcount pt = 0 \<and> (pt_poisoned pt \<or> pt_expiresAt pt < now)
              then p1\<lparr>pl_entries :=
                        (if map_of (pl_entries p1) instanceID = Some a
                         then delete_entry instanceID (pl_entries p1) else pl_entries p1),
                      pl_closed := pl_closed p1 @ [a]\<rparr>
              else p1)"

definition drop_entries :: "(pooledTunnel \<Rightarrow> bool) \<Rightarrow> eicTunnelPool \<Rightarrow> eicTunnelPool" where
  "drop_entries P p =
     p\<lparr>pl_entries := filter (\<lambda>e. \<not> P (pl_heap p ! snd e)) (pl_entries p),
       pl_closed := pl_closed p @ map snd (filter (\<lambda>e. P (pl_heap p ! snd e)) (pl_entries p))\<rparr>"

definition sweep :: "eicTunnelPool \<Rightarrow> instant \<Rightarrow> eicTunnelPool" where
  "sweep p now = drop_entries (\<lambda>pt. pt_refcount pt = 0 \<and> pt_expiresAt pt < now) p"

text \<open>\<^verbatim>\<open>stop\<close>, after it has ended the janitor.\<close>

definition stop :: "eicTunnelPool \<Rightarrow> eicTunnelPool" where
  "stop p = drop_entries (\<lambda>pt. pt_refcount pt = 0) p"

section \<open>Tunnel faults\<close>

definition low :: "char \<Rightarrow> char" where
  "low b = (if CHR ''A'' \<le> b \<and> b \<le> CHR ''Z'' then char_of (of_char b + (32 :: nat)) else b)"

fun match_at :: "string \<Rightarrow> string \<Rightarrow> bool" where
  "match_at s [] = True"
| "match_at [] (c # t) = False"
| "match_at (b # s) (c # t) = (low b = low c \<and> match_at s t)"

fun contains_loop :: "string \<Rightarrow> string \<Rightarrow> bool" where
  "contains_loop [] t = (t = [])"
| "contains_loop (b # s) t = (length t \<le> length (b # s) \<and> (match_at (b # s) t \<or> contains_loop s t))"

definition containsCaseInsensitive :: "string \<Rightarrow> string \<Rightarrow> bool" where
  "containsCaseInsensitive s substr =
     (if length s < length substr then False else contains_loop s substr)"

definition tunnel_fault_markers :: "string list" where
  "tunnel_fault_markers =
     [''connection refused'', ''connection closed'', ''broken pipe'', ''Connection reset by peer'',
      ''kex_exchange_identification'', ''port forwarding failed'', ''Permission denied'',
      ''Authentication failed'']"

definition fnErrIndicatesTunnelFault :: "string option \<Rightarrow> bool" where
  "fnErrIndicatesTunnelFault err =
     (case err of None \<Rightarrow> False
      | Some msg \<Rightarrow> list_ex (containsCaseInsensitive msg) tunnel_fault_markers)"

text \<open>How the caller's function ends: a panic, or a return with an error text or without.\<close>

datatype fn_outcome = Panics | Returns "string option"

text \<open>
  \<^verbatim>\<open>pooledWithEICTunnel\<close>, its critical sections one after the other: the times are those of the
  acquire, of the end of the setup and of the release; \<^term>\<open>None\<close> when no tunnel could be built or
  the context ended while another caller's setup was in flight. The flag handed to the deferred release is true unless the function returned.
\<close>

definition poison_flag :: "fn_outcome \<Rightarrow> bool" where
  "poison_flag out = (case out of Panics \<Rightarrow> True | Returns err \<Rightarrow> fnErrIndicatesTunnelFault err)"

definition pooledWithEICTunnel ::
  "eicTunnelPool \<Rightarrow> string \<Rightarrow> instant \<Rightarrow> instant \<Rightarrow> bool \<Rightarrow> fn_outcome \<Rightarrow> instant \<Rightarrow>
   eicTunnelPool \<times> fn_outcome option" where
  "pooledWithEICTunnel p instanceID t1 t2 setup_ok out t3 =
     (case acquire_locked p instanceID t1 of
        (p1, Session a h) \<Rightarrow> (releaser p1 h (poison_flag out) t3, Some out)
      | (p1, WaitSetup) \<Rightarrow> (p1, None)
      | (p1, BuildSetup) \<Rightarrow>
          (case acquire_finish p1 instanceID t2 setup_ok of
             (p2, None) \<Rightarrow> (p2, None)
           | (p2, Some (a, h)) \<Rightarrow> (releaser p2 h (poison_flag out) t3, Some out)))"

end
