(* ===== verification/Tunnel_Props.thy ===== *)
theory Tunnel_Props
  imports Tunnel_Pool
begin

text \<open>
  Properties of the tunnel pool. The machine runs the critical sections of any number of
  concurrent callers in any order. Its invariant ties reference counts to outstanding
  releasers, which gives that no tunnel is closed while somebody uses it and none is closed
  twice; with a clock that moves between sections, no idle tunnel is ever lost.
\<close>

section \<open>The machine of critical sections\<close>

datatype t_op =
    TAcquire string instant
  | TFinish string instant bool
  | TRelease nat bool instant
  | TSweep instant
  | TStop instant

text \<open>A setup ends only for an instance whose slot is reserved; a releaser exists before it is called.\<close>

fun t_step :: "eicTunnelPool \<Rightarrow> t_op \<Rightarrow> eicTunnelPool" where
  "t_step p (TAcquire i now) = fst (acquire_locked p i now)"
| "t_step p (TFinish i now ok) =
     (if i \<in> set (pl_pendingSetups p) then fst (acquire_finish p i now ok) else p)"
| "t_step p (TRelease h poisoned now) =
     (if h < length (pl_releasers p) then releaser p h poisoned now else p)"
| "t_step p (TSweep now) = sweep p now"
| "t_step p (TStop now) = stop p"

fun op_time :: "t_op \<Rightarrow> instant" where
  "op_time (TAcquire i now) = now"
| "op_time (TFinish i now ok) = now"
| "op_time (TRelease h poisoned now) = now"
| "op_time (TSweep now) = now"
| "op_time (TStop now) = now"

definition users :: "eicTunnelPool \<Rightarrow> addr \<Rightarrow> nat" where
  "users p a = count_where (\<lambda>r. rel_pt r = a \<and> \<not> rel_released r) (pl_releasers p)"

definition t_inv :: "eicTunnelPool \<Rightarrow> bool" where
  "t_inv p \<longleftrightarrow>
     (\<forall>a < length (pl_heap p). pt_refcount (pl_heap p ! a) = int (users p a)) \<and>
     (\<forall>r \<in> set (pl_releasers p). rel_pt r < length (pl_heap p)) \<and>
     distinct (map fst (pl_entries p)) \<and> distinct (map snd (pl_entries p)) \<and>
     (\<forall>e \<in> set (pl_entries p). snd e < length (pl_heap p) \<and> snd e \<notin> set (pl_closed p)) \<and>
     (\<forall>r \<in> set (pl_releasers p). \<forall>e \<in> set (pl_entries p). snd e = rel_pt r \<longrightarrow> fst e = rel_instanceID r) \<and>
     distinct (pl_closed p) \<and>
     (\<forall>a \<in> set (pl_closed p). a < length (pl_heap p) \<and> users p a = 0)"

lemma t_invD:
  assumes "t_inv p"
  shows "a < length (pl_heap p) \<Longrightarrow> pt_refcount (pl_heap p ! a) = int (users p a)"
    "r \<in> set (pl_releasers p) \<Longrightarrow> rel_pt r < length (pl_heap p)"
    "distinct (map fst (pl_entries p))" "distinct (map snd (pl_entries p))"
    "e \<in> set (pl_entries p) \<Longrightarrow> snd e < length (pl_heap p)"
    "e \<in> set (pl_entries p) \<Longrightarrow> snd e \<notin> set (pl_closed p)"
    "r \<in> set (pl_releasers p) \<Longrightarrow> e \<in> set (pl_entries p) \<Longrightarrow> snd e = rel_pt r \<Longrightarrow> fst e = rel_instanceID r"
    "distinct (pl_closed p)" "a \<in> set (pl_closed p) \<Longrightarrow> a < length (pl_heap p)"
    "a \<in> set (pl_closed p) \<Longrightarrow> users p a = 0"
  using assms unfolding t_inv_def by blast+

text \<open>Retiring entries whose tunnels nobody uses.\<close>

lemma retire_entries:
  assumes inv: "t_inv p" and es: "pl_entries q = filter (\<lambda>e. \<not> R e) (pl_entries p)"
    and cl: "pl_closed q = pl_closed p @ map snd (filter R (pl_entries p))"
    and idle: "\<And>e. e \<in> set (pl_entries p) \<Longrightarrow> R e \<Longrightarrow> pt_refcount (pl_heap p ! snd e) = 0"
    and same: "pl_heap q = pl_heap p" "pl_releasers q = pl_releasers p"
  shows "t_inv q"
proof -
  note D = t_invD [OF inv]
  have us: "users q a = users p a" for a by (simp add: users_def same(2))
  have "users p (snd e) = 0" if "e \<in> set (pl_entries p)" "R e" for e
    using idle [OF that] D(1) [OF D(5) [OF that(1)]] by simp
  moreover have "distinct (map snd (filter R (pl_entries p)))" using D(4) by (rule distinct_map_filter)
  moreover have "snd e \<notin> snd ` set (filter R (pl_entries p))" if "e \<in> set (pl_entries p)" "\<not> R e" for e
    using that D(4) by (auto simp: distinct_map dest: inj_onD)
  ultimately show ?thesis
    using D unfolding t_inv_def us same es cl
    by (auto simp: distinct_map_filter)
qed

lemma delete_entry_filter: "delete_entry k es = filter (\<lambda>e. \<not> (fst e = k)) es"
  by (simp add: delete_entry_def)

lemma filter_key_single:
  assumes "distinct (map fst es)" "map_of es k = Some a"
  shows "filter (\<lambda>e. fst e = k) es = [(k, a)]"
  using assms
proof (induction es)
  case (Cons e es)
  then show ?case
    by (cases e) (auto simp: filter_empty_conv image_iff split: if_splits)
qed simp

lemma drop_one_entry:
  assumes "t_inv p" "map_of (pl_entries p) k = Some a" "pt_refcount (pl_heap p ! a) = 0"
  shows "t_inv (p\<lparr>pl_entries := delete_entry k (pl_entries p), pl_closed := pl_closed p @ [a]\<rparr>)"
proof (rule retire_entries [OF assms(1), of _ "\<lambda>e. fst e = k"])
  have single: "filter (\<lambda>e. fst e = k) (pl_entries p) = [(k, a)]"
    by (rule filter_key_single [OF t_invD(3) [OF assms(1)] assms(2)])
  then show "pl_closed (p\<lparr>pl_entries := delete_entry k (pl_entries p), pl_closed := pl_closed p @ [a]\<rparr>) =
      pl_closed p @ map snd (filter (\<lambda>e. fst e = k) (pl_entries p))" by simp
  show "pt_refcount (pl_heap p ! snd e) = 0" if "e \<in> set (pl_entries p)" "fst e = k" for e
  proof -
    have "e \<in> set (filter (\<lambda>e. fst e = k) (pl_entries p))" using that by simp
    then show ?thesis using single assms(3) by simp
  qed
qed (simp_all add: delete_entry_filter)

lemma pending_irrelevant [simp]: "t_inv (p\<lparr>pl_pendingSetups := x\<rparr>) = t_inv p"
  by (simp add: t_inv_def users_def)

section \<open>Every critical section keeps the invariant\<close>

lemma users_append:
  "users (p\<lparr>pl_heap := h, pl_entries := es, pl_releasers := pl_releasers p @ [new_releaser i b]\<rparr>) a =
    users p a + (if a = b then 1 else 0)"
  by (simp add: users_def)

lemma acquire_hit_inv:
  assumes inv: "t_inv p" and a: "map_of (pl_entries p) i = Some a"
  shows "t_inv (p\<lparr>pl_heap := (pl_heap p)[a := (pl_heap p ! a)
       \<lparr>pt_refcount := pt_refcount (pl_heap p ! a) + 1, pt_lastUsed := now\<rparr>],
     pl_releasers := pl_releasers p @ [new_releaser i a]\<rparr>)"
proof -
  note D = t_invD [OF inv]
  have e: "(i, a) \<in> set (pl_entries p)" by (rule map_of_SomeD [OF a])
  have "a < length (pl_heap p)" "a \<notin> set (pl_closed p)" using D(5,6) [OF e] by simp_all
  moreover have "fst x = i" if "x \<in> set (pl_entries p)" "snd x = a" for x
    using inj_onD [of snd "set (pl_entries p)" x "(i, a)"] D(4) e that by (auto simp: distinct_map)
  ultimately show ?thesis
    using D unfolding t_inv_def by (auto simp: users_def nth_list_update)
qed

lemma acquire_locked_inv: "t_inv p \<Longrightarrow> t_inv (fst (acquire_locked p i now))"
  by (auto simp: acquire_locked_def Let_def drop_one_entry acquire_hit_inv split: option.splits)

lemma oldest_idle_step:
  "\<exists>best'. oldest_idle heap skip (e # es) best = oldest_idle heap skip es best' \<and>
     (best' = best \<or> (best' = Some e \<and> pt_refcount (heap ! snd e) \<le> 0 \<and> fst e \<noteq> skip))"
proof (cases "fst e = skip \<or> 0 < pt_refcount (heap ! snd e)")
  case True
  then show ?thesis by (cases e) auto
next
  case False
  then show ?thesis by (cases e; cases best) auto
qed

lemma oldest_idle_SomeD:
  assumes "oldest_idle heap skip es best = Some e"
  shows "best = Some e \<or> (e \<in> set es \<and> pt_refcount (heap ! snd e) \<le> 0 \<and> fst e \<noteq> skip)"
  using assms
proof (induction es arbitrary: best)
  case (Cons x es)
  obtain best' where b: "oldest_idle heap skip (x # es) best = oldest_idle heap skip es best'"
    "best' = best \<or> (best' = Some x \<and> pt_refcount (heap ! snd x) \<le> 0 \<and> fst x \<noteq> skip)"
    using oldest_idle_step by blast
  from Cons.IH [of best'] Cons.prems b show ?case by auto
qed simp

lemma evict_inv: "t_inv p \<Longrightarrow> t_inv (evictLRUIfFullLocked p i)"
proof -
  assume inv: "t_inv p"
  show ?thesis
  proof (cases "length (pl_entries p) < poolMaxEntries \<or>
      oldest_idle (pl_heap p) i (pl_entries p) None = None")
    case True
    then show ?thesis using inv by (auto simp: evictLRUIfFullLocked_def)
  next
    case False
    then obtain k a where ka: "oldest_idle (pl_heap p) i (pl_entries p) None = Some (k, a)" by auto
    have mem: "(k, a) \<in> set (pl_entries p)" and le: "pt_refcount (pl_heap p ! a) \<le> 0"
      using oldest_idle_SomeD [OF ka] by simp_all
    have a: "a < length (pl_heap p)" using t_invD(5) [OF inv mem] by simp
    have "pt_refcount (pl_heap p ! a) = 0" using le t_invD(1) [OF inv a] by simp
    moreover have "map_of (pl_entries p) k = Some a"
      using mem t_invD(3) [OF inv] by (simp add: map_of_is_SomeI)
    ultimately show ?thesis
      using ka False drop_one_entry [OF inv] by (simp add: evictLRUIfFullLocked_def)
  qed
qed

lemma evict_frame [simp]:
  "pl_heap (evictLRUIfFullLocked p i) = pl_heap p"
  "pl_releasers (evictLRUIfFullLocked p i) = pl_releasers p"
  "pl_pendingSetups (evictLRUIfFullLocked p i) = pl_pendingSetups p"
  by (auto simp: evictLRUIfFullLocked_def split: option.splits)

lemma new_tunnel_inv:
  assumes inv: "t_inv p" and pt: "pt_refcount pt = 1"
  shows "t_inv (p\<lparr>pl_heap := pl_heap p @ [pt],
     pl_entries := (i, length (pl_heap p)) # delete_entry i (pl_entries p),
     pl_releasers := pl_releasers p @ [new_releaser i (length (pl_heap p))]\<rparr>)"
proof -
  note D = t_invD [OF inv]
  have fresh: "users p (length (pl_heap p)) = 0"
    using D(2) by (fastforce simp: users_def count_where_0_iff)
  have "length (pl_heap p) \<notin> set (pl_closed p)" using D(9) by blast
  moreover have "length (pl_heap p) \<notin> snd ` set (delete_entry i (pl_entries p))"
    using D(5) by (force simp: delete_entry_def)
  moreover have "distinct (map fst (delete_entry i (pl_entries p)))" "distinct (map snd (delete_entry i (pl_entries p)))"
    using D(3,4) by (simp_all add: delete_entry_def distinct_map_filter)
  moreover have "i \<notin> fst ` set (delete_entry i (pl_entries p))" by (auto simp: delete_entry_def)
  moreover have "(k, length (pl_heap p)) \<notin> set (pl_entries p)" for k
    using D(5) [of "(k, length (pl_heap p))"] by auto
  moreover have "rel_pt r < Suc (length (pl_heap p)) \<and> length (pl_heap p) \<noteq> rel_pt r"
    if "r \<in> set (pl_releasers p)" for r
    using D(2) [OF that] by simp
  ultimately show ?thesis
    using D fresh pt unfolding t_inv_def
    by (auto simp: users_def nth_append less_Suc_eq delete_entry_def)
qed

lemma acquire_finish_inv: "t_inv p \<Longrightarrow> t_inv (fst (acquire_finish p i now ok))"
proof -
  assume inv: "t_inv p"
  let ?p1 = "p\<lparr>pl_pendingSetups := filter (\<lambda>k. k \<noteq> i) (pl_pendingSetups p)\<rparr>"
  have "t_inv (evictLRUIfFullLocked ?p1 i)" using inv by (simp add: evict_inv)
  from new_tunnel_inv [OF this, of "\<lparr>pt_expiresAt = now + poolTTL, pt_lastUsed = now, pt_refcount = 1, pt_poisoned = False\<rparr>" i]
  show ?thesis using inv by (simp add: acquire_finish_def Let_def)
qed

lemma count_where_list_update:
  "h < length xs \<Longrightarrow> int (count_where P (xs[h := y])) =
    int (count_where P xs) - (if P (xs ! h) then 1 else 0) + (if P y then 1 else 0)"
proof (induction xs arbitrary: h)
  case (Cons x xs)
  show ?case
  proof (cases h)
    case (Suc k)
    with Cons.prems Cons.IH [of k] show ?thesis by (auto split: if_splits)
  qed simp
qed simp

lemma drop_entries_inv:
  assumes "t_inv p" "\<And>pt. P pt \<Longrightarrow> pt_refcount pt = 0"
  shows "t_inv (drop_entries P p)"
  by (rule retire_entries [OF assms(1), of _ "\<lambda>e. P (pl_heap p ! snd e)"])
    (simp_all add: drop_entries_def assms(2))

lemma sweep_inv: "t_inv p \<Longrightarrow> t_inv (sweep p now)" "t_inv p \<Longrightarrow> t_inv (stop p)"
  unfolding sweep_def stop_def by (auto intro!: drop_entries_inv)

lemma close_unlisted:
  assumes inv: "t_inv p" and "\<forall>e \<in> set (pl_entries p). snd e \<noteq> a" and "users p a = 0"
    and "a \<notin> set (pl_closed p)" and "a < length (pl_heap p)"
  shows "t_inv (p\<lparr>pl_closed := pl_closed p @ [a]\<rparr>)"
proof -
  have us: "users (p\<lparr>pl_closed := pl_closed p @ [a]\<rparr>) b = users p b" for b by (simp add: users_def)
  show ?thesis using assms t_invD [OF inv] unfolding t_inv_def us by simp
qed

lemma mark_released_frame [simp]:
  "pl_entries (mark_released p h poisoned) = pl_entries p"
  "pl_closed (mark_released p h poisoned) = pl_closed p"
  "pl_pendingSetups (mark_released p h poisoned) = pl_pendingSetups p"
  "length (pl_heap (mark_released p h poisoned)) = length (pl_heap p)"
  by (simp_all add: mark_released_def Let_def)

lemma mark_released_rels:
  assumes "x \<in> set (pl_releasers (mark_released p h poisoned))" "h < length (pl_releasers p)"
  shows "\<exists>y \<in> set (pl_releasers p). rel_pt x = rel_pt y \<and> rel_instanceID x = rel_instanceID y"
proof -
  have "x \<in> insert ((pl_releasers p ! h)\<lparr>rel_released := True\<rparr>) (set (pl_releasers p))"
    using assms(1) set_update_subset_insert by (fastforce simp: mark_released_def Let_def)
  then show ?thesis using assms(2) by fastforce
qed

lemma released_users:
  assumes "h < length (pl_releasers p)" "\<not> rel_released (pl_releasers p ! h)"
  shows "int (users (mark_released p h poisoned) b) =
    int (users p b) - (if b = rel_pt (pl_releasers p ! h) then 1 else 0)"
  using assms by (simp add: users_def count_where_list_update mark_released_def Let_def)

lemma released_not_closed:
  assumes "t_inv p" "h < length (pl_releasers p)" "\<not> rel_released (pl_releasers p ! h)"
  shows "rel_pt (pl_releasers p ! h) \<notin> set (pl_closed p)"
proof
  assume "rel_pt (pl_releasers p ! h) \<in> set (pl_closed p)"
  then have "users p (rel_pt (pl_releasers p ! h)) = 0" by (rule t_invD(10) [OF assms(1)])
  then show False
    using assms(3) nth_mem [OF assms(2)] unfolding users_def count_where_0_iff by blast
qed

lemma mark_released_inv:
  assumes inv: "t_inv p" and h: "h < length (pl_releasers p)"
    and rel: "\<not> rel_released (pl_releasers p ! h)"
  shows "t_inv (mark_released p h poisoned)"
proof -
  let ?p = "mark_released p h poisoned" and ?a = "rel_pt (pl_releasers p ! h)"
  note D = t_invD [OF inv] and us = released_users [OF h rel, of poisoned]
  have "pt_refcount (pl_heap ?p ! b) = int (users ?p b)" if "b < length (pl_heap p)" for b
    using that D(1) [of b] us [of b] by (auto simp: mark_released_def Let_def nth_list_update)
  moreover have "users ?p b = 0" if "b \<in> set (pl_closed p)" for b
    using us [of b] D(10) [OF that] that released_not_closed [OF inv h rel] by (auto split: if_splits)
  moreover have "rel_pt x < length (pl_heap p)" if "x \<in> set (pl_releasers ?p)" for x
    using mark_released_rels [OF that h] D(2) by auto
  moreover have "fst e = rel_instanceID x"
    if xe: "x \<in> set (pl_releasers ?p)" "e \<in> set (pl_entries p)" "snd e = rel_pt x" for x e
  proof -
    obtain y where "y \<in> set (pl_releasers p)" "rel_pt x = rel_pt y" "rel_instanceID x = rel_instanceID y"
      using mark_released_rels [OF xe(1) h] by blast
    then show ?thesis using D(7) [of y e] xe(2,3) by simp
  qed
  ultimately show ?thesis using D(3-6,8,9) unfolding t_inv_def by simp
qed

lemma release_inv:
  assumes inv: "t_inv p" and h: "h < length (pl_releasers p)"
  shows "t_inv (releaser p h poisoned now)"
proof (cases "rel_released (pl_releasers p ! h)")
  case True
  then show ?thesis using inv by (simp add: releaser_def Let_def)
next
  case False
  let ?p = "mark_released p h poisoned" and ?r = "pl_releasers p ! h" and ?a = "rel_pt (pl_releasers p ! h)"
  note inv1 = mark_released_inv [OF inv h False, of poisoned]
  have a: "?a < length (pl_heap p)" using t_invD(2) [OF inv nth_mem [OF h]] .
  have key: "fst e = rel_instanceID ?r" if "e \<in> set (pl_entries p)" "snd e = ?a" for e
    by (rule t_invD(7) [OF inv nth_mem [OF h] that])
  consider (keep) "\<not> (pt_refcount (pl_heap ?p ! ?a) = 0 \<and>
        (pt_poisoned (pl_heap ?p ! ?a) \<or> pt_expiresAt (pl_heap ?p ! ?a) < now))"
    | (drop) "pt_refcount (pl_heap ?p ! ?a) = 0" "pt_poisoned (pl_heap ?p ! ?a) \<or> pt_expiresAt (pl_heap ?p ! ?a) < now"
        "map_of (pl_entries p) (rel_instanceID ?r) = Some ?a"
    | (only_close) "pt_refcount (pl_heap ?p ! ?a) = 0" "pt_poisoned (pl_heap ?p ! ?a) \<or> pt_expiresAt (pl_heap ?p ! ?a) < now"
        "map_of (pl_entries p) (rel_instanceID ?r) \<noteq> Some ?a"
    by blast
  then show ?thesis
  proof cases
    case keep
    show ?thesis unfolding releaser_def Let_def if_not_P [OF False] if_not_P [OF keep] by (rule inv1)
  next
    case drop
    then show ?thesis
      using False drop_one_entry [OF inv1, of "rel_instanceID ?r" ?a] by (simp add: releaser_def Let_def)
  next
    case only_close
    have "snd e \<noteq> ?a" if "e \<in> set (pl_entries p)" for e
    proof
      assume "snd e = ?a"
      then have "(rel_instanceID ?r, ?a) \<in> set (pl_entries p)" using that key [of e] by (cases e) auto
      then show False using only_close(3) t_invD(3) [OF inv] by simp
    qed
    moreover have "users ?p ?a = 0" using t_invD(1) [OF inv1, of ?a] only_close(1) a by simp
    ultimately have "t_inv (?p\<lparr>pl_closed := pl_closed ?p @ [?a]\<rparr>)"
      using released_not_closed [OF inv h False] a by (intro close_unlisted [OF inv1]) auto
    then have "t_inv (?p\<lparr>pl_entries := pl_entries p, pl_closed := pl_closed p @ [?a]\<rparr>)"
      by (simp add: t_inv_def users_def)
    with only_close False show ?thesis by (simp add: releaser_def Let_def)
  qed
qed

lemma t_step_inv: "t_inv p \<Longrightarrow> t_inv (t_step p op)"
  by (cases op) (simp_all add: acquire_locked_inv acquire_finish_inv release_inv sweep_inv)

interpretation tpool: invariant_system t_step t_inv
  by unfold_locales (rule t_step_inv)

lemma t_inv_new: "t_inv newEICTunnelPool"
  by (simp add: t_inv_def newEICTunnelPool_def)

section \<open>No tunnel is lost\<close>

definition past_use :: "instant \<Rightarrow> pooledTunnel \<Rightarrow> bool" where
  "past_use clk pt \<longleftrightarrow> pt_poisoned pt \<or> pt_expiresAt pt \<le> clk"

definition held_stale :: "instant \<Rightarrow> eicTunnelPool \<Rightarrow> addr \<Rightarrow> bool" where
  "held_stale clk p a \<longleftrightarrow> 0 < users p a \<and> past_use clk (pl_heap p ! a)"

definition kept :: "instant \<Rightarrow> eicTunnelPool \<Rightarrow> bool" where
  "kept clk p \<longleftrightarrow>
     (\<forall>a < length (pl_heap p). a \<in> set (pl_closed p) \<or> a \<in> snd ` set (pl_entries p) \<or> held_stale clk p a) \<and>
     (\<forall>e \<in> set (pl_entries p). fst e \<in> set (pl_pendingSetups p) \<longrightarrow> held_stale clk p (snd e))"

lemma past_use_mono: "past_use clk pt \<Longrightarrow> clk \<le> now \<Longrightarrow> past_use now pt"
  by (auto simp: past_use_def)

lemma keptD:
  assumes "kept clk p"
  shows "a < length (pl_heap p) \<Longrightarrow> a \<notin> set (pl_closed p) \<Longrightarrow> a \<notin> snd ` set (pl_entries p) \<Longrightarrow> held_stale clk p a"
    "e \<in> set (pl_entries p) \<Longrightarrow> fst e \<in> set (pl_pendingSetups p) \<Longrightarrow> held_stale clk p (snd e)"
  using assms unfolding kept_def by blast+

lemma keptI:
  assumes "\<And>a. a < length (pl_heap p) \<Longrightarrow> a \<notin> set (pl_closed p) \<Longrightarrow> a \<notin> snd ` set (pl_entries p) \<Longrightarrow> held_stale clk p a"
    "\<And>e. e \<in> set (pl_entries p) \<Longrightarrow> fst e \<in> set (pl_pendingSetups p) \<Longrightarrow> held_stale clk p (snd e)"
  shows "kept clk p"
  using assms unfolding kept_def by blast

text \<open>Entries that leave the map are closed with it.\<close>

lemma kept_retire:
  assumes k: "kept clk p" and t: "clk \<le> now"
    and es: "pl_entries q = filter (\<lambda>e. \<not> R e) (pl_entries p)"
    and cl: "set (pl_closed p) \<union> snd ` set (filter R (pl_entries p)) \<subseteq> set (pl_closed q)"
    and same: "pl_heap q = pl_heap p" "pl_releasers q = pl_releasers p"
    and pend: "set (pl_pendingSetups q) \<subseteq> set (pl_pendingSetups p)"
  shows "kept now q"
proof -
  have h: "held_stale clk p a \<Longrightarrow> held_stale now q a" for a
    using t past_use_mono by (auto simp: held_stale_def users_def same)
  show ?thesis
  proof (rule keptI)
    fix a assume a: "a < length (pl_heap q)" "a \<notin> set (pl_closed q)" "a \<notin> snd ` set (pl_entries q)"
    have "a \<notin> snd ` set (pl_entries p)"
    proof
      assume "a \<in> snd ` set (pl_entries p)"
      then obtain e where "e \<in> set (pl_entries p)" "a = snd e" by blast
      then show False using a(2,3) es cl by (cases "R e") auto
    qed
    then show "held_stale now q a" using a cl same keptD(1) [OF k, of a] h by auto
  next
    fix e assume "e \<in> set (pl_entries q)" "fst e \<in> set (pl_pendingSetups q)"
    then show "held_stale now q (snd e)" using es pend keptD(2) [OF k, of e] h by auto
  qed
qed

lemma kept_drop_one:
  assumes "kept clk p" "clk \<le> now" "t_inv p" "map_of (pl_entries p) k = Some a"
  shows "kept now (p\<lparr>pl_entries := delete_entry k (pl_entries p), pl_closed := pl_closed p @ [a]\<rparr>)"
  by (rule kept_retire [OF assms(1,2), of _ "\<lambda>e. fst e = k"])
    (simp_all add: delete_entry_filter filter_key_single [OF t_invD(3) [OF assms(3)] assms(4)] flip: set_filter)

lemma kept_later: "kept clk p \<Longrightarrow> clk \<le> now \<Longrightarrow> kept now p"
  by (rule kept_retire [of clk p now p "\<lambda>_. False"]) auto

lemma kept_hit:
  assumes k: "kept clk p" and t: "clk \<le> now" and inv: "t_inv p" and a: "map_of (pl_entries p) i = Some a"
  shows "kept now (p\<lparr>pl_heap := (pl_heap p)[a := (pl_heap p ! a)
       \<lparr>pt_refcount := pt_refcount (pl_heap p ! a) + 1, pt_lastUsed := now\<rparr>],
     pl_releasers := pl_releasers p @ [new_releaser i a]\<rparr>)" (is "kept now ?q")
proof -
  have "a < length (pl_heap p)" using t_invD(5) [OF inv map_of_SomeD [OF a]] by simp
  then have h: "held_stale clk p b \<Longrightarrow> held_stale now ?q b" for b
    using t past_use_mono by (auto simp: held_stale_def users_def past_use_def nth_list_update)
  show ?thesis
    by (rule keptI) (use keptD [OF k] h in simp_all)
qed

lemma kept_reserve:
  assumes "kept now p" and "\<And>a. (i, a) \<in> set (pl_entries p) \<Longrightarrow> held_stale now p a"
  shows "kept now (p\<lparr>pl_pendingSetups := i # pl_pendingSetups p\<rparr>)" (is "kept now ?q")
proof -
  have h: "held_stale now ?q b = held_stale now p b" for b by (simp add: held_stale_def users_def)
  show ?thesis
  proof (rule keptI)
    fix e assume "e \<in> set (pl_entries ?q)" "fst e \<in> set (pl_pendingSetups ?q)"
    then show "held_stale now ?q (snd e)"
      using keptD(2) [OF assms(1), of e] assms(2) [of "snd e"] unfolding h by (cases e) auto
  qed (use keptD(1) [OF assms(1)] h in simp)
qed

lemma kept_acquire:
  assumes k: "kept clk p" and t: "clk \<le> now" and inv: "t_inv p"
  shows "kept now (fst (acquire_locked p i now))"
proof (cases "map_of (pl_entries p) i")
  case None
  then have "(i, a) \<notin> set (pl_entries p)" for a by (auto simp: map_of_eq_None_iff image_iff)
  then have "kept now (p\<lparr>pl_pendingSetups := i # pl_pendingSetups p\<rparr>)"
    using kept_reserve [OF kept_later [OF k t], of i] by blast
  moreover have "fst (acquire_locked p i now) =
      (if i \<in> set (pl_pendingSetups p) then p else p\<lparr>pl_pendingSetups := i # pl_pendingSetups p\<rparr>)"
    unfolding acquire_locked_def Let_def None by simp
  ultimately show ?thesis using kept_later [OF k t] by presburger
next
  case (Some a)
  have a: "a < length (pl_heap p)" using t_invD(5) [OF inv map_of_SomeD [OF Some]] by simp
  have only: "(i, b) \<in> set (pl_entries p) \<Longrightarrow> b = a" for b
    using map_of_is_SomeI [OF t_invD(3) [OF inv], of i b] Some by simp
  consider (hit) "healthy now (pl_heap p ! a)" | (wait) "\<not> healthy now (pl_heap p ! a)" "i \<in> set (pl_pendingSetups p)"
    | (drop) "\<not> healthy now (pl_heap p ! a)" "i \<notin> set (pl_pendingSetups p)" "pt_refcount (pl_heap p ! a) = 0"
    | (hot) "\<not> healthy now (pl_heap p ! a)" "i \<notin> set (pl_pendingSetups p)" "pt_refcount (pl_heap p ! a) \<noteq> 0"
    by blast
  then show ?thesis
  proof cases
    case hit
    then show ?thesis using Some kept_hit [OF k t inv Some] by (simp add: acquire_locked_def Let_def)
  next
    case wait
    then show ?thesis using Some kept_later [OF k t] by (simp add: acquire_locked_def Let_def)
  next
    case drop
    have "kept now ((p\<lparr>pl_entries := delete_entry i (pl_entries p), pl_closed := pl_closed p @ [a]\<rparr>)
        \<lparr>pl_pendingSetups := i # pl_pendingSetups p\<rparr>)"
      using kept_reserve [OF kept_drop_one [OF k t inv Some], of i] by (simp add: delete_entry_def)
    with drop Some show ?thesis by (simp add: acquire_locked_def Let_def)
  next
    case hot
    have "held_stale now p a"
      using hot t_invD(1) [OF inv a] by (auto simp: held_stale_def healthy_def past_use_def)
    then have "kept now (p\<lparr>pl_pendingSetups := i # pl_pendingSetups p\<rparr>)"
      using only by (intro kept_reserve [OF kept_later [OF k t]]) auto
    with hot Some show ?thesis by (simp add: acquire_locked_def Let_def)
  qed
qed

lemma kept_evict:
  assumes "kept clk p" "clk \<le> now" "t_inv p"
  shows "kept now (evictLRUIfFullLocked p i)"
proof (cases "length (pl_entries p) < poolMaxEntries \<or>
    oldest_idle (pl_heap p) i (pl_entries p) None = None")
  case True
  then show ?thesis using kept_later [OF assms(1,2)] by (auto simp: evictLRUIfFullLocked_def)
next
  case False
  then obtain k a where ka: "oldest_idle (pl_heap p) i (pl_entries p) None = Some (k, a)" by auto
  then have "map_of (pl_entries p) k = Some a"
    using oldest_idle_SomeD [OF ka] t_invD(3) [OF assms(3)] by simp
  from kept_drop_one [OF assms this] False ka show ?thesis by (simp add: evictLRUIfFullLocked_def)
qed

lemma evict_entries: "set (pl_entries (evictLRUIfFullLocked p i)) \<subseteq> set (pl_entries p)"
  by (auto simp: evictLRUIfFullLocked_def delete_entry_def split: option.splits)

lemma kept_new_tunnel:
  assumes k: "kept now p" and inv: "t_inv p" and old: "\<And>a. (i, a) \<in> set (pl_entries p) \<Longrightarrow> held_stale now p a"
    and free: "i \<notin> set (pl_pendingSetups p)"
  shows "kept now (p\<lparr>pl_heap := pl_heap p @ [pt],
     pl_entries := (i, length (pl_heap p)) # delete_entry i (pl_entries p),
     pl_releasers := pl_releasers p @ [new_releaser i (length (pl_heap p))]\<rparr>)" (is "kept now ?q")
proof -
  have h: "held_stale now p b \<Longrightarrow> b < length (pl_heap p) \<Longrightarrow> held_stale now ?q b" for b
    by (auto simp: held_stale_def users_def nth_append)
  show ?thesis
  proof (rule keptI)
    fix a assume a: "a < length (pl_heap ?q)" "a \<notin> set (pl_closed ?q)" "a \<notin> snd ` set (pl_entries ?q)"
    then have lt: "a < length (pl_heap p)" by auto
    show "held_stale now ?q a"
    proof (cases "a \<in> snd ` set (pl_entries p)")
      case True
      then have "(i, a) \<in> set (pl_entries p)" using a(3) by (fastforce simp: delete_entry_def)
      then show ?thesis using h [OF old lt] by blast
    next
      case False
      then show ?thesis using a(2) lt keptD(1) [OF k lt] h by simp
    qed
  next
    fix e assume "e \<in> set (pl_entries ?q)" "fst e \<in> set (pl_pendingSetups ?q)"
    then show "held_stale now ?q (snd e)"
      using free keptD(2) [OF k, of e] t_invD(5) [OF inv, of e] h by (auto simp: delete_entry_def)
  qed
qed

lemma kept_finish:
  assumes k: "kept clk p" and t: "clk \<le> now" and inv: "t_inv p" and i: "i \<in> set (pl_pendingSetups p)"
  shows "kept now (fst (acquire_finish p i now ok))"
proof -
  let ?p1 = "p\<lparr>pl_pendingSetups := filter (\<lambda>k. k \<noteq> i) (pl_pendingSetups p)\<rparr>"
  let ?p2 = "evictLRUIfFullLocked ?p1 i"
  have k1: "kept now ?p1" by (rule kept_retire [OF k t, of _ "\<lambda>_. False"]) auto
  have inv1: "t_inv ?p1" using inv by simp
  have k2: "kept now ?p2" by (rule kept_evict [OF k1 order_refl inv1])
  have inv2: "t_inv ?p2" by (rule evict_inv [OF inv1])
  have old: "held_stale now ?p2 a" if "(i, a) \<in> set (pl_entries ?p2)" for a
  proof -
    have "(i, a) \<in> set (pl_entries p)" using that evict_entries [of ?p1 i] by auto
    then have "held_stale clk p a" using keptD(2) [OF k, of "(i, a)"] i by simp
    then show ?thesis using t past_use_mono by (auto simp: held_stale_def users_def)
  qed
  have "i \<notin> set (pl_pendingSetups ?p2)" by simp
  from kept_new_tunnel [OF k2 inv2 old this,
      where pt = "\<lparr>pt_expiresAt = now + poolTTL, pt_lastUsed = now, pt_refcount = 1, pt_poisoned = False\<rparr>"]
  show ?thesis using k1 by (simp add: acquire_finish_def Let_def)
qed

lemma kept_mark_released:
  assumes k: "kept clk p" and t: "clk < now" and inv: "t_inv p" and h: "h < length (pl_releasers p)"
    and rel: "\<not> rel_released (pl_releasers p ! h)" and ne: "b \<noteq> rel_pt (pl_releasers p ! h) \<or> 1 < users p b"
    and st: "held_stale clk p b"
  shows "held_stale now (mark_released p h poisoned) b"
proof -
  have "rel_pt (pl_releasers p ! h) < length (pl_heap p)" using t_invD(2) [OF inv nth_mem [OF h]] .
  then have "past_use now (pl_heap (mark_released p h poisoned) ! b)"
    using st t by (auto simp: held_stale_def past_use_def mark_released_def Let_def nth_list_update)
  moreover have "0 < users (mark_released p h poisoned) b"
    using released_users [OF h rel, of poisoned b] ne st by (auto simp: held_stale_def split: if_splits)
  ultimately show ?thesis by (simp add: held_stale_def)
qed

lemma kept_released:
  assumes k: "kept clk p" and t: "clk < now" and inv: "t_inv p" and h: "h < length (pl_releasers p)"
    and rel: "\<not> rel_released (pl_releasers p ! h)"
    and R: "\<And>e. e \<in> set (pl_entries p) \<Longrightarrow> R e \<longleftrightarrow> dr \<and> snd e = rel_pt (pl_releasers p ! h)"
    and last_use: "held_stale clk p (rel_pt (pl_releasers p ! h)) \<Longrightarrow> users p (rel_pt (pl_releasers p ! h)) = 1 \<Longrightarrow> dr"
  shows "kept now ((mark_released p h poisoned)
    \<lparr>pl_entries := filter (\<lambda>e. \<not> R e) (pl_entries p),
     pl_closed := pl_closed p @ (if dr then [rel_pt (pl_releasers p ! h)] else [])\<rparr>)" (is "kept now ?q")
proof -
  let ?a = "rel_pt (pl_releasers p ! h)"
  have st: "held_stale now ?q b" if "held_stale clk p b" "b \<noteq> ?a \<or> \<not> dr" for b
  proof -
    have "0 < users p b" using that(1) by (simp add: held_stale_def)
    then have "b \<noteq> ?a \<or> 1 < users p b" using that last_use by fastforce
    from kept_mark_released [OF k t inv h rel this that(1)] show ?thesis by (simp add: held_stale_def users_def)
  qed
  show ?thesis
  proof (rule keptI)
    fix b assume b: "b < length (pl_heap ?q)" "b \<notin> set (pl_closed ?q)" "b \<notin> snd ` set (pl_entries ?q)"
    have nd: "b \<noteq> ?a \<or> \<not> dr" using b(2) by auto
    have "b \<notin> snd ` set (pl_entries p)"
    proof
      assume "b \<in> snd ` set (pl_entries p)"
      then obtain e where e: "e \<in> set (pl_entries p)" "b = snd e" by blast
      then show False using b(3) nd R [OF e(1)] by auto
    qed
    then show "held_stale now ?q b" using b keptD(1) [OF k, of b] st [OF _ nd] by simp
  next
    fix e assume e: "e \<in> set (pl_entries ?q)" "fst e \<in> set (pl_pendingSetups ?q)"
    then have "e \<in> set (pl_entries p)" "\<not> R e" "fst e \<in> set (pl_pendingSetups p)" by simp_all
    then show "held_stale now ?q (snd e)" using keptD(2) [OF k] st [of "snd e"] R by blast
  qed
qed

lemma kept_release:
  assumes k: "kept clk p" and t: "clk < now" and inv: "t_inv p" and h: "h < length (pl_releasers p)"
  shows "kept now (releaser p h poisoned now)"
proof (cases "rel_released (pl_releasers p ! h)")
  case True
  then show ?thesis using kept_later [OF k, of now] t by (simp add: releaser_def Let_def)
next
  case False
  let ?r = "pl_releasers p ! h" and ?p = "mark_released p h poisoned"
  let ?a = "rel_pt ?r" and ?i = "rel_instanceID ?r"
  define dr where "dr \<longleftrightarrow> pt_refcount (pl_heap ?p ! ?a) = 0 \<and>
    (pt_poisoned (pl_heap ?p ! ?a) \<or> pt_expiresAt (pl_heap ?p ! ?a) < now)"
  define R where "R e \<longleftrightarrow> dr \<and> map_of (pl_entries p) ?i = Some ?a \<and> fst e = ?i" for e :: "string \<times> addr"
  have a: "?a < length (pl_heap p)" using t_invD(2) [OF inv nth_mem [OF h]] .
  have R: "R e \<longleftrightarrow> dr \<and> snd e = ?a" if e: "e \<in> set (pl_entries p)" for e
  proof -
    have m: "map_of (pl_entries p) (fst e) = Some (snd e)" using e t_invD(3) [OF inv] by simp
    have "snd e = ?a \<Longrightarrow> fst e = ?i" using t_invD(7) [OF inv nth_mem [OF h] e] .
    with m show ?thesis unfolding R_def by auto
  qed
  have "dr" if "held_stale clk p ?a" "users p ?a = 1"
    using that a t t_invD(1) [OF inv a]
    by (auto simp: dr_def held_stale_def past_use_def mark_released_def Let_def)
  from kept_released [OF k t inv h False R this, of poisoned]
  have "kept now (?p\<lparr>pl_entries := filter (\<lambda>e. \<not> R e) (pl_entries p),
      pl_closed := pl_closed p @ (if dr then [?a] else [])\<rparr>)" .
  moreover have "releaser p h poisoned now = ?p\<lparr>pl_entries := filter (\<lambda>e. \<not> R e) (pl_entries p),
      pl_closed := pl_closed p @ (if dr then [?a] else [])\<rparr>"
    using False by (simp add: releaser_def Let_def R_def delete_entry_def flip: dr_def)
  ultimately show ?thesis by simp
qed

lemma kept_drop_entries: "kept clk p \<Longrightarrow> clk \<le> now \<Longrightarrow> kept now (drop_entries P p)"
  by (rule kept_retire [of clk p now _ "\<lambda>e. P (pl_heap p ! snd e)"]) (simp_all add: drop_entries_def)

lemma kept_step:
  assumes "kept clk p" "t_inv p" "clk < op_time op"
  shows "kept (op_time op) (t_step p op)"
proof (cases op)
  case (TFinish i now ok)
  then show ?thesis
    using kept_finish [OF assms(1) _ assms(2), of now i ok] kept_later [OF assms(1), of now] assms(3) by simp
next
  case (TRelease h poisoned now)
  then show ?thesis
    using kept_release [OF assms(1) _ assms(2), of now h poisoned] kept_later [OF assms(1), of now] assms(3) by simp
qed (use assms kept_acquire kept_drop_entries in \<open>simp_all add: sweep_def stop_def\<close>)

fun clock_runs :: "instant \<Rightarrow> t_op list \<Rightarrow> bool" where
  "clock_runs clk [] = True"
| "clock_runs clk (op # ops) = (clk < op_time op \<and> clock_runs (op_time op) ops)"

lemma kept_run:
  "kept clk p \<Longrightarrow> t_inv p \<Longrightarrow> clock_runs clk ops \<Longrightarrow> \<exists>now. kept now (foldl t_step p ops)"
proof (induction ops arbitrary: clk p)
  case (Cons op ops)
  then have "kept (op_time op) (t_step p op)" using kept_step by simp
  from Cons.IH [OF this t_step_inv [OF Cons.prems(2)]] Cons.prems(3) show ?case by simp
qed auto

section \<open>Properties\<close>

abbreviation pool_after :: "t_op list \<Rightarrow> eicTunnelPool" where
  "pool_after ops \<equiv> foldl t_step newEICTunnelPool ops"

lemma pool_after_inv: "t_inv (pool_after ops)"
  by (rule tpool.inv_run [OF t_inv_new])

lemma users_0_iff: "users p a = 0 \<longleftrightarrow> (\<forall>r \<in> set (pl_releasers p). rel_pt r = a \<longrightarrow> rel_released r)"
  by (auto simp: users_def count_where_0_iff)

text \<open>C12: Whatever the interleaving of acquires, setups, releases, janitor sweeps and stops: a
  tunnel's reference count is the number of releasers handed out for it and not yet called; the
  tunnel of such a releaser has not been closed; no tunnel is closed twice; and the pool map never
  offers a closed tunnel and never holds two entries for an instance.\<close>

theorem pool_safety:
  defines "pool \<equiv> \<lambda>ops. pool_after ops"
  shows "(\<forall>a < length (pl_heap (pool ops)). pt_refcount (pl_heap (pool ops) ! a) =
       int (count_where (\<lambda>r. rel_pt r = a \<and> \<not> rel_released r) (pl_releasers (pool ops)))) \<and>
     (\<forall>r \<in> set (pl_releasers (pool ops)). \<not> rel_released r \<longrightarrow> rel_pt r \<notin> set (pl_closed (pool ops))) \<and>
     distinct (pl_closed (pool ops)) \<and>
     (\<forall>e \<in> set (pl_entries (pool ops)). snd e \<notin> set (pl_closed (pool ops))) \<and>
     distinct (map fst (pl_entries (pool ops)))"
proof -
  note D = t_invD [OF pool_after_inv [of ops]]
  have "rel_pt r \<notin> set (pl_closed (pool_after ops))" if "r \<in> set (pl_releasers (pool_after ops))" "\<not> rel_released r" for r
    using D(10) [of "rel_pt r"] that unfolding users_0_iff by blast
  with D(1,3,6,8) show ?thesis unfolding pool_def users_def by blast
qed

text \<open>C13: No tunnel leaks: when the clock advances between critical sections, every tunnel ever
  built is closed, in the pool map or still in use; so once every caller has released,
  \<^verbatim>\<open>stop\<close> empties the map and every tunnel ever built has been closed.\<close>

theorem pool_no_leak:
  assumes "clock_runs start ops"
  shows "(\<forall>a < length (pl_heap (pool_after ops)). a \<in> set (pl_closed (pool_after ops)) \<or>
       a \<in> snd ` set (pl_entries (pool_after ops)) \<or>
       (\<exists>r \<in> set (pl_releasers (pool_after ops)). rel_pt r = a \<and> \<not> rel_released r)) \<and>
     ((\<forall>r \<in> set (pl_releasers (pool_after ops)). rel_released r) \<longrightarrow>
       pl_entries (stop (pool_after ops)) = [] \<and>
       set (pl_closed (stop (pool_after ops))) = {..< length (pl_heap (pool_after ops))})"
proof -
  let ?p = "pool_after ops"
  note D = t_invD [OF pool_after_inv [of ops]]
  have "kept start newEICTunnelPool" by (simp add: kept_def newEICTunnelPool_def)
  from kept_run [OF this t_inv_new assms] obtain now where k: "kept now ?p" by blast
  have all: "a \<in> set (pl_closed ?p) \<or> a \<in> snd ` set (pl_entries ?p) \<or> 0 < users ?p a" if "a < length (pl_heap ?p)" for a
    using that keptD(1) [OF k] by (metis held_stale_def)
  have "pl_entries (stop ?p) = [] \<and> set (pl_closed (stop ?p)) = {..< length (pl_heap ?p)}"
    if "\<forall>r \<in> set (pl_releasers ?p). rel_released r"
  proof -
    have "users ?p a = 0" for a using that by (simp add: users_0_iff)
    then have "pt_refcount (pl_heap ?p ! snd e) = 0" if "e \<in> set (pl_entries ?p)" for e
      using that D(1) [OF D(5) [OF that]] by simp
    then have "stop ?p = ?p\<lparr>pl_entries := [], pl_closed := pl_closed ?p @ map snd (pl_entries ?p)\<rparr>"
      by (simp add: stop_def drop_entries_def)
    moreover have "a \<in> set (pl_closed ?p) \<or> a \<in> snd ` set (pl_entries ?p) \<longleftrightarrow> a < length (pl_heap ?p)" for a
      using all [of a] D(5,9) \<open>users ?p a = 0\<close> by fastforce
    ultimately show ?thesis by auto
  qed
  moreover have "0 < users ?p a \<longleftrightarrow> (\<exists>r \<in> set (pl_releasers ?p). rel_pt r = a \<and> \<not> rel_released r)" for a
    using users_0_iff [of ?p a] by (simp only: neq0_conv [symmetric]) blast
  ultimately show ?thesis using all by simp
qed

lemma oldest_idle_none:
  "oldest_idle heap skip es best = None \<Longrightarrow>
    best = None \<and> (\<forall>e \<in> set es. fst e = skip \<or> 0 < pt_refcount (heap ! snd e))"
proof (induction es arbitrary: best)
  case (Cons e es)
  obtain k a where e: "e = (k, a)" by force
  show ?case
  proof (cases "k = skip \<or> 0 < pt_refcount (heap ! a)")
    case True
    then have "oldest_idle heap skip (e # es) best = oldest_idle heap skip es best" using e by auto
    with Cons.prems Cons.IH [of best] True show ?thesis unfolding e by simp
  next
    case False
    then have "\<exists>b. oldest_idle heap skip (e # es) best = oldest_idle heap skip es (Some b)"
      using e by (cases best) (simp, blast, simp split: prod.split, blast)
    then obtain b where "oldest_idle heap skip (e # es) best = oldest_idle heap skip es (Some b)" ..
    then show ?thesis using Cons.prems Cons.IH [of "Some b"] by simp
  qed
qed simp

lemma oldest_idle_oldest:
  "oldest_idle heap skip es best = Some (k, a) \<Longrightarrow>
    (\<forall>b. best = Some b \<longrightarrow> pt_lastUsed (heap ! a) \<le> pt_lastUsed (heap ! snd b)) \<and>
    (\<forall>e \<in> set es. fst e \<noteq> skip \<longrightarrow> \<not> 0 < pt_refcount (heap ! snd e) \<longrightarrow>
       pt_lastUsed (heap ! a) \<le> pt_lastUsed (heap ! snd e))"
  by (induction heap skip es best rule: oldest_idle.induct) (force split: if_splits option.splits)+

text \<open>\<^verbatim>\<open>evictLRUIfFullLocked\<close> in any reachable pool: below the bound nothing changes. At
  the bound, it closes and removes exactly one entry, the idle one that was used longest ago
  and is not the new tunnel's own instance, so that the map has room again; it changes nothing
  only when every entry of another instance is in use.\<close>

theorem evictLRU_correct:
  fixes ops skip
  defines "p \<equiv> pool_after ops"
  defines "idle \<equiv> \<lambda>e. e \<in> set (pl_entries p) \<and> fst e \<noteq> skip \<and> pt_refcount (pl_heap p ! snd e) = 0"
  shows "(if length (pl_entries p) < poolMaxEntries \<or> (\<forall>e. \<not> idle e) then evictLRUIfFullLocked p skip = p
     else \<exists>e. idle e \<and> (\<forall>f. idle f \<longrightarrow> pt_lastUsed (pl_heap p ! snd e) \<le> pt_lastUsed (pl_heap p ! snd f)) \<and>
       evictLRUIfFullLocked p skip =
         p\<lparr>pl_entries := filter (\<lambda>f. f \<noteq> e) (pl_entries p), pl_closed := pl_closed p @ [snd e]\<rparr> \<and>
       length (pl_entries (evictLRUIfFullLocked p skip)) = length (pl_entries p) - 1)"
proof -
  have inv: "t_inv p" unfolding p_def by (rule pool_after_inv)
  have nn: "0 \<le> pt_refcount (pl_heap p ! snd e)" if "e \<in> set (pl_entries p)" for e
    using t_invD(1) [OF inv t_invD(5) [OF inv that]] by simp
  show ?thesis
  proof (cases "oldest_idle (pl_heap p) skip (pl_entries p) None")
    case None
    have "\<not> idle e" for e using oldest_idle_none [OF None] unfolding idle_def by force
    then show ?thesis using None by (simp add: evictLRUIfFullLocked_def)
  next
    case (Some e)
    obtain k a where e: "e = (k, a)" by force
    have mem: "e \<in> set (pl_entries p)" "fst e \<noteq> skip" "pt_refcount (pl_heap p ! snd e) = 0"
      using oldest_idle_SomeD [OF Some] nn [of e] by auto
    then have "idle e" by (simp add: idle_def)
    moreover have "pt_lastUsed (pl_heap p ! snd e) \<le> pt_lastUsed (pl_heap p ! snd f)" if "idle f" for f
      using oldest_idle_oldest [OF Some [unfolded e]] that e unfolding idle_def by simp
    moreover have del: "delete_entry k (pl_entries p) = filter (\<lambda>f. f \<noteq> e) (pl_entries p)"
      unfolding delete_entry_def
    proof (rule filter_cong [OF refl])
      fix f assume "f \<in> set (pl_entries p)"
      then show "(fst f \<noteq> k) = (f \<noteq> e)"
        using inj_onD [of fst "set (pl_entries p)" f e] mem(1) t_invD(3) [OF inv] e by (auto simp: distinct_map)
    qed
    moreover have "filter (\<lambda>f. f \<noteq> e) (pl_entries p) = remove1 e (pl_entries p)"
      using t_invD(3) [OF inv] by (auto simp: distinct_map distinct_remove1_removeAll removeAll_filter_not_eq intro: filter_cong)
    then have "length (filter (\<lambda>f. f \<noteq> e) (pl_entries p)) = length (pl_entries p) - 1"
      using mem(1) by (simp add: length_remove1)
    moreover have "evictLRUIfFullLocked p skip = (if length (pl_entries p) < poolMaxEntries then p
        else p\<lparr>pl_entries := filter (\<lambda>f. f \<noteq> e) (pl_entries p), pl_closed := pl_closed p @ [snd e]\<rparr>)"
      using Some e del by (simp add: evictLRUIfFullLocked_def)
    ultimately show ?thesis
      by (cases "length (pl_entries p) < poolMaxEntries") (simp, subst if_not_P, blast, intro exI [of _ e], simp)
  qed
qed

section \<open>A whole call\<close>

text \<open>Releasing a fresh handle leaves no user behind and retires a faulty tunnel.\<close>

lemma release_users:
  assumes "h < length (pl_releasers p)" "\<not> rel_released (pl_releasers p ! h)"
  shows "int (users (releaser p h poisoned now) b) =
    int (users p b) - (if b = rel_pt (pl_releasers p ! h) then 1 else 0)"
proof -
  have "users (releaser p h poisoned now) b = users (mark_released p h poisoned) b"
    using assms(2) by (simp add: releaser_def Let_def users_def)
  with released_users [OF assms, of poisoned b] show ?thesis by simp
qed

lemma release_poisoned:
  assumes inv: "t_inv p" and h: "h < length (pl_releasers p)" and rel: "\<not> rel_released (pl_releasers p ! h)"
    and b: "map_of (pl_entries (releaser p h True now)) (rel_instanceID (pl_releasers p ! h)) = Some b"
    and m: "map_of (pl_entries p) (rel_instanceID (pl_releasers p ! h)) = Some (rel_pt (pl_releasers p ! h))"
  shows "pt_poisoned (pl_heap (releaser p h True now) ! b)"
proof -
  have a: "rel_pt (pl_releasers p ! h) < length (pl_heap p)" using t_invD(2) [OF inv nth_mem [OF h]] .
  have gone: "map_of (delete_entry i es) i = None" for i and es :: "(string \<times> addr) list"
    by (auto simp: delete_entry_def map_of_eq_None_iff)
  show ?thesis
    using a rel b m gone
    by (auto simp: releaser_def Let_def mark_released_def nth_list_update split: if_splits)
qed

lemma acquire_session:
  assumes "acquire_locked p i now = (p1, Session a h)"
  shows "map_of (pl_entries p) i = Some a" "healthy now (pl_heap p ! a)" "h = length (pl_releasers p)"
    "pl_releasers p1 = pl_releasers p @ [new_releaser i a]" "pl_entries p1 = pl_entries p"
  using assms by (auto simp: acquire_locked_def Let_def split: option.splits if_splits)

lemma finish_session:
  assumes "acquire_finish p i now ok = (p2, Some (a, h))"
  shows "a = length (pl_heap p)" "h = length (pl_releasers p)" "map_of (pl_entries p2) i = Some a"
    "pl_releasers p2 = pl_releasers p @ [new_releaser i a]"
  using assms by (auto simp: acquire_finish_def Let_def split: if_splits)

lemma build_releasers:
  assumes "acquire_locked p i now = (p1, r)" "\<forall>a h. r \<noteq> Session a h"
  shows "pl_releasers p1 = pl_releasers p" "pl_heap p1 = pl_heap p"
  using assms by (auto simp: acquire_locked_def Let_def split: option.splits if_splits)

text \<open>A session that was just opened, and its release.\<close>

lemma session_release:
  assumes inv: "t_inv p1" and rels: "pl_releasers p1 = pl_releasers p @ [new_releaser i a]"
    and h: "h = length (pl_releasers p)" and m: "map_of (pl_entries p1) i = Some a"
    and q: "q = releaser p1 h (poison_flag out) t"
  shows "users q b = users p b"
    "poison_flag out \<Longrightarrow> map_of (pl_entries q) i = Some c \<Longrightarrow> pt_poisoned (pl_heap q ! c)"
proof -
  have r: "h < length (pl_releasers p1)" "pl_releasers p1 ! h = new_releaser i a" using rels h by simp_all
  have "int (users p1 b) = int (users p b) + (if b = a then 1 else 0)" by (simp add: users_def rels)
  then show "users q b = users p b"
    using release_users [OF r(1), of "poison_flag out" t b] r(2) q by (simp split: if_splits)
  show "pt_poisoned (pl_heap q ! c)" if "poison_flag out" "map_of (pl_entries q) i = Some c"
    using release_poisoned [OF inv r(1), of t c] r(2) m q that by simp
qed

definition hits :: "eicTunnelPool \<Rightarrow> string \<Rightarrow> instant \<Rightarrow> bool" where
  "hits p i now \<longleftrightarrow> (\<exists>a. map_of (pl_entries p) i = Some a \<and> healthy now (pl_heap p ! a))"

lemma acquire_no_hit:
  "acquire_locked p i now = (p1, res) \<Longrightarrow> \<forall>a h. res \<noteq> Session a h \<Longrightarrow> \<not> hits p i now"
  by (auto simp: acquire_locked_def Let_def hits_def)

text \<open>The two ways a call can go: no tunnel, or one session that is released at the end.\<close>

lemma pooled_cases:
  assumes inv: "t_inv p" and call: "pooledWithEICTunnel p i t1 t2 ok out t3 = (q, r)"
  obtains (failed) "r = None" "pl_releasers q = pl_releasers p" "\<not> hits p i t1"
    | (ran) p1 a h where "t_inv p1" "pl_releasers p1 = pl_releasers p @ [new_releaser i a]"
        "h = length (pl_releasers p)" "map_of (pl_entries p1) i = Some a"
        "q = releaser p1 h (poison_flag out) t3" "r = Some out"
        "hits p i t1 \<longrightarrow> length (pl_heap q) = length (pl_heap p)"
proof -
  obtain p1 res where acq: "acquire_locked p i t1 = (p1, res)" by force
  have inv1: "t_inv p1" using acquire_locked_inv [OF inv, of i t1] acq by simp
  show thesis
  proof (cases res)
    case (Session a h)
    note s = acquire_session [OF acq [unfolded Session]]
    have q: "q = releaser p1 h (poison_flag out) t3" "r = Some out"
      using call acq Session by (simp_all add: pooledWithEICTunnel_def)
    have "length (pl_heap q) = length (pl_heap p)"
      using acq Session q(1) by (auto simp: acquire_locked_def Let_def releaser_def split: option.splits if_splits)
    then show thesis using s(1,5) by (intro ran [OF inv1 s(4,3) _ q]) simp_all
  next
    case WaitSetup
    then have nohit: "\<not> hits p i t1" by (intro acquire_no_hit [OF acq]) simp
    have "pl_releasers p1 = pl_releasers p" by (rule build_releasers(1) [OF acq]) (simp add: WaitSetup)
    then show thesis using call acq WaitSetup nohit by (intro failed) (simp_all add: pooledWithEICTunnel_def)
  next
    case BuildSetup
    then have nohit: "\<not> hits p i t1" by (intro acquire_no_hit [OF acq]) simp
    have rels: "pl_releasers p1 = pl_releasers p" by (rule build_releasers(1) [OF acq]) (simp add: BuildSetup)
    obtain p2 f where fin: "acquire_finish p1 i t2 ok = (p2, f)" by force
    have inv2: "t_inv p2" using acquire_finish_inv [OF inv1, of i t2 ok] fin by simp
    note facts = call acq BuildSetup fin
    show thesis
    proof (cases f)
      case None
      then have "pl_releasers p2 = pl_releasers p"
        using fin rels by (auto simp: acquire_finish_def Let_def split: if_splits)
      then show thesis using facts None nohit by (intro failed) (simp_all add: pooledWithEICTunnel_def)
    next
      case (Some ah)
      obtain a h where ah: "ah = (a, h)" by force
      note s = finish_session [OF fin [unfolded Some ah], unfolded rels]
      show thesis
        using facts Some ah nohit by (intro ran [OF inv2 s(4,2,3)]) (simp_all add: pooledWithEICTunnel_def)
    qed
  qed
qed

text \<open>A whole \<^verbatim>\<open>pooledWithEICTunnel\<close> call leaves every tunnel with as many users as before, also
  when the caller's function panics or the setup fails; it returns the function's own outcome;
  and after a panic or an error that indicates a tunnel fault, the instance's entry, if any is
  left, is poisoned, so the next acquire does not reuse it. A call on a healthy entry builds
  nothing.\<close>

theorem pooledWithEICTunnel_correct:
  fixes ops
  defines "p \<equiv> pool_after ops"
  assumes call: "pooledWithEICTunnel p i t1 t2 ok out t3 = (q, r)"
  shows "(\<forall>b. count_where (\<lambda>x. rel_pt x = b \<and> \<not> rel_released x) (pl_releasers q) =
      count_where (\<lambda>x. rel_pt x = b \<and> \<not> rel_released x) (pl_releasers p)) \<and>
    (r = None \<or> r = Some out) \<and>
    (r \<noteq> None \<longrightarrow> poison_flag out \<longrightarrow>
      (\<forall>b. map_of (pl_entries q) i = Some b \<longrightarrow> pt_poisoned (pl_heap q ! b))) \<and>
    (\<forall>a. map_of (pl_entries p) i = Some a \<longrightarrow> healthy t1 (pl_heap p ! a) \<longrightarrow>
      r = Some out \<and> length (pl_heap q) = length (pl_heap p))"
proof -
  have inv: "t_inv p" unfolding p_def by (rule pool_after_inv)
  from inv call show ?thesis
  proof (cases rule: pooled_cases)
    case failed
    then show ?thesis by (auto simp: hits_def)
  next
    case (ran p1 a h)
    note sr = session_release [OF ran(1-5)]
    from ran(6,7) sr(2) show ?thesis unfolding hits_def users_def [symmetric] sr(1) by blast
  qed
qed

section \<open>Fault texts\<close>

lemma match_at_iff: "match_at s t \<longleftrightarrow> (\<exists>m v. s = m @ v \<and> map low m = map low t)"
proof (induction s t rule: match_at.induct)
  case (3 b s c t)
  show ?case
  proof
    assume "match_at (b # s) (c # t)"
    then obtain m v where "low b = low c" "s = m @ v" "map low m = map low t" using 3 by auto
    then show "\<exists>m v. b # s = m @ v \<and> map low m = map low (c # t)"
      by (intro exI [of _ "b # m"] exI [of _ v]) simp
  next
    assume "\<exists>m v. b # s = m @ v \<and> map low m = map low (c # t)"
    then obtain m v where mv: "b # s = m @ v" "map low m = map low (c # t)" by blast
    then show "match_at (b # s) (c # t)" using 3 by (cases m) auto
  qed
qed auto

lemma contains_loop_iff: "contains_loop s t \<longleftrightarrow> (\<exists>u m v. s = u @ m @ v \<and> map low m = map low t)"
proof (induction s)
  case step: (Cons b s)
  show ?case
  proof
    assume "contains_loop (b # s) t"
    then consider "match_at (b # s) t" | "contains_loop s t" by auto
    then show "\<exists>u m v. b # s = u @ m @ v \<and> map low m = map low t"
    proof cases
      case 1
      then obtain m v where "b # s = m @ v" "map low m = map low t" unfolding match_at_iff by blast
      then show ?thesis by (intro exI [of _ "[]"] exI [of _ m] exI [of _ v]) simp
    next
      case 2
      then obtain u m v where "s = u @ m @ v" "map low m = map low t" using step by blast
      then show ?thesis by (intro exI [of _ "b # u"] exI [of _ m] exI [of _ v]) simp
    qed
  next
    assume "\<exists>u m v. b # s = u @ m @ v \<and> map low m = map low t"
    then obtain u m v where umv: "b # s = u @ m @ v" "map low m = map low t" by blast
    have "length t \<le> length (b # s)" using arg_cong [OF umv(2), of length] umv(1) by simp
    moreover have "match_at (b # s) t \<or> contains_loop s t"
    proof (cases u)
      case Nil
      then show ?thesis using umv unfolding match_at_iff by auto
    next
      case (Cons x us)
      then show ?thesis using umv unfolding step by auto
    qed
    ultimately show "contains_loop (b # s) t" by simp
  qed
qed auto

text \<open>\<^verbatim>\<open>fnErrIndicatesTunnelFault\<close> is true exactly of the error texts in which one of the
  markers occurs as a contiguous substring, upper and lower case ASCII letters being equal; the
  hand-written scan neither misses an occurrence nor reads out of range.\<close>

theorem fnErrIndicatesTunnelFault_iff:
  "fnErrIndicatesTunnelFault err \<longleftrightarrow>
    (\<exists>msg. err = Some msg \<and>
      (\<exists>t \<in> set tunnel_fault_markers. \<exists>u m v. msg = u @ m @ v \<and> map low m = map low t))"
proof -
  have "containsCaseInsensitive s t \<longleftrightarrow> (\<exists>u m v. s = u @ m @ v \<and> map low m = map low t)" for s t
  proof (cases "length s < length t")
    case True
    then have "\<not> (\<exists>u m v. s = u @ m @ v \<and> map low m = map low t)" by (auto dest: map_eq_imp_length_eq)
    with True show ?thesis by (simp add: containsCaseInsensitive_def)
  qed (simp add: containsCaseInsensitive_def contains_loop_iff)
  then show ?thesis by (auto simp: fnErrIndicatesTunnelFault_def list_ex_iff split: option.splits)
qed

section \<open>Witnesses\<close>

text \<open>Two callers share a tunnel; the second one reports a fault and leaves last.\<close>

definition demo_pool_ops :: "t_op list" where
  "demo_pool_ops =
    [TAcquire ''i-1'' 1, TFinish ''i-1'' 2 True, TAcquire ''i-1'' 3, TRelease 1 True 4, TSweep 5,
     TAcquire ''i-1'' 6, TFinish ''i-1'' 7 True, TRelease 0 False 8, TRelease 2 False 9]"

lemma demo_pool:
  "pl_closed (pool_after demo_pool_ops) = [0]" "length (pl_heap (pool_after demo_pool_ops)) = 2"
  "list_all rel_released (pl_releasers (pool_after demo_pool_ops))" "clock_runs 0 demo_pool_ops"
  by code_simp+

theorem pool_safety_witness:
  "pl_closed (pool_after demo_pool_ops) = [0] \<and> distinct (pl_closed (pool_after demo_pool_ops)) \<and>
   set (pl_closed (pool_after demo_pool_ops)) \<inter> snd ` set (pl_entries (pool_after demo_pool_ops)) = {}"
  using pool_safety [of demo_pool_ops] demo_pool(1) by fast

theorem pool_no_leak_witness:
  "clock_runs 0 demo_pool_ops \<and> pl_entries (stop (pool_after demo_pool_ops)) = [] \<and>
   set (pl_closed (stop (pool_after demo_pool_ops))) = {..< 2}"
  using pool_no_leak [OF demo_pool(4)] demo_pool(2-4) by (simp add: list_all_iff)

text \<open>A full pool: every instance is set up once and released, in the order of the instances.\<close>

definition demo_full_ops :: "t_op list" where
  "demo_full_ops = concat (map (\<lambda>(n, c). [TAcquire [c] (int n), TFinish [c] (int n) True, TRelease n False (int n)])
     (enumerate 0 ''abcdefghijklmnopqrstuvwxyzABCDEF''))"

lemma demo_full:
  "let p = pool_after demo_full_ops
   in length (pl_entries p) = 32 \<and> List.member (pl_entries p) (''a'', 0) \<and> pt_refcount (pl_heap p ! 0) = 0"
  by code_simp

theorem evictLRU_correct_witness:
  "length (pl_entries (pool_after demo_full_ops)) = poolMaxEntries \<and>
   length (pl_entries (evictLRUIfFullLocked (pool_after demo_full_ops) ''new'')) = 31"
proof -
  have full: "length (pl_entries (pool_after demo_full_ops)) = 32"
    "(''a'', 0) \<in> set (pl_entries (pool_after demo_full_ops))" "pt_refcount (pl_heap (pool_after demo_full_ops) ! 0) = 0"
    using demo_full by (simp_all add: Let_def)
  then show ?thesis
    using evictLRU_correct [of demo_full_ops "''new''"]
    by (force simp: poolMaxEntries_def split: if_splits)
qed

text \<open>The function of a call on the shared tunnel panics.\<close>

lemma demo_call:
  "case pooledWithEICTunnel (pool_after demo_pool_ops) ''i-1'' 10 11 True Panics 12 of
     (q, r) \<Rightarrow> r = Some Panics \<and> pl_closed q = [0, 1]"
  by code_simp

theorem pooledWithEICTunnel_correct_witness:
  "case pooledWithEICTunnel (pool_after demo_pool_ops) ''i-1'' 10 11 True Panics 12 of
     (q, r) \<Rightarrow> r = Some Panics \<and> pl_closed q = [0, 1] \<and>
       count_where (\<lambda>x. rel_pt x = 1 \<and> \<not> rel_released x) (pl_releasers q) = 0"
proof -
  obtain q r where call: "pooledWithEICTunnel (pool_after demo_pool_ops) ''i-1'' 10 11 True Panics 12 = (q, r)" by force
  have "count_where (\<lambda>x. rel_pt x = 1 \<and> \<not> rel_released x) (pl_releasers (pool_after demo_pool_ops)) = 0"
    using demo_pool(3) by (simp add: count_where_0_iff list_all_iff)
  then show ?thesis
    using pooledWithEICTunnel_correct [OF call] demo_call call by simp
qed

end
