(* ===== verification/Workspace_Compute.thy ===== *)
theory Workspace_Compute
  imports Go_Std Text_Util Workspace_Tree
begin

text \<open>
  \<^verbatim>\<open>internal/handlers/workspace_compute.go\<close> and the compute types of \<^verbatim>\<open>internal/models/workspace.go\<close>:
  the tables of cloud providers and machine sizes, their consistency check, validation, the
  stored JSON form and the display route. A \<^verbatim>\<open>jsonb\<close> column is a \<^typ>\<open>json\<close> value; Go's decoder
  works on it member by member.
\<close>

section \<open>Types\<close>

record WorkspaceComputeVolume =
  vol_RootGB :: int

record WorkspaceComputeDisplay =
  dp_Mode :: string
  dp_Width :: int
  dp_Height :: int
  dp_Protocol :: string

record WorkspaceCompute =
  wc_InstanceType :: string
  wc_Volume :: WorkspaceComputeVolume
  wc_Display :: WorkspaceComputeDisplay
  wc_DataPersistence :: string
  wc_Provider :: string

definition zero_display :: WorkspaceComputeDisplay where
  "zero_display = \<lparr>dp_Mode = [], dp_Width = 0, dp_Height = 0, dp_Protocol = []\<rparr>"

definition zero_compute :: WorkspaceCompute where
  "zero_compute = \<lparr>wc_InstanceType = [], wc_Volume = \<lparr>vol_RootGB = 0\<rparr>, wc_Display = zero_display,
     wc_DataPersistence = [], wc_Provider = []\<rparr>"

section \<open>The provider tables\<close>

definition workspaceComputeDiskFloorGB :: int where "workspaceComputeDiskFloorGB = 30"
definition workspaceComputeDiskCeilingGB :: int where "workspaceComputeDiskCeilingGB = 500"
definition workspaceDisplayMinWidth :: int where "workspaceDisplayMinWidth = 800"
definition workspaceDisplayMaxWidth :: int where "workspaceDisplayMaxWidth = 3840"
definition workspaceDisplayMinHeight :: int where "workspaceDisplayMinHeight = 600"
definition workspaceDisplayMaxHeight :: int where "workspaceDisplayMaxHeight = 2160"

definition workspaceComputeProvidersOrdered :: "string list" where
  "workspaceComputeProvidersOrdered = [''aws'', ''hetzner'', ''gcp'']"

definition workspaceComputeInstanceTypesOrdered :: "(string \<times> string list) list" where
  "workspaceComputeInstanceTypesOrdered =
     [(''aws'',
       [''t3.medium'', ''t3.large'', ''t3.xlarge'', ''t3.2xlarge'', ''m6i.large'', ''m6i.xlarge'', ''c6i.xlarge'']),
      (''hetzner'',
       [''cpx11'', ''cpx21'', ''cpx31'', ''cpx41'', ''cpx51'', ''cax11'', ''cax21'', ''cax31'', ''cax41'']),
      (''gcp'',
       [''e2-small'', ''e2-medium'', ''e2-standard-2'', ''e2-standard-4'', ''e2-standard-8''])]"

definition workspaceComputeDefaultInstanceByProvider :: "(string \<times> string) list" where
  "workspaceComputeDefaultInstanceByProvider =
     [(''aws'', ''t3.medium''), (''hetzner'', ''cpx31''), (''gcp'', ''e2-standard-2'')]"

definition workspaceComputeDisplayDefaultByProvider :: "(string \<times> string) list" where
  "workspaceComputeDisplayDefaultByProvider =
     [(''aws'', ''t3.xlarge''), (''hetzner'', ''cpx41''), (''gcp'', ''e2-standard-4'')]"

definition workspaceComputeProviderLabels :: "(string \<times> string) list" where
  "workspaceComputeProviderLabels =
     [(''aws'', ''AWS (default)''), (''gcp'', ''GCP''), (''hetzner'', ''Hetzner'')]"

definition workspaceComputeMetadataRenderOrder :: "string list" where
  "workspaceComputeMetadataRenderOrder = [''aws'', ''gcp'', ''hetzner'']"

text \<open>The sets filled by the two \<^verbatim>\<open>init\<close> functions.\<close>

definition workspaceComputeInstanceAllowlist :: "(string \<times> string list) list" where
  "workspaceComputeInstanceAllowlist = map (\<lambda>(p, types). (p, remdups types)) workspaceComputeInstanceTypesOrdered"

definition workspaceComputeProviderAllowlist :: "string list" where
  "workspaceComputeProviderAllowlist = remdups workspaceComputeProvidersOrdered"

definition normalizeCloudProvider :: "string \<Rightarrow> string" where
  "normalizeCloudProvider p = (if p = [] then ''aws'' else p)"

definition instanceTypeAllowedForProvider :: "string \<Rightarrow> string \<Rightarrow> bool" where
  "instanceTypeAllowedForProvider provider instanceType =
     (if instanceType = [] then True
      else let p = (if provider = [] then ''aws'' else provider)
           in case map_of workspaceComputeInstanceAllowlist p of
                None \<Rightarrow> False
              | Some types \<Rightarrow> List.member types instanceType)"

section \<open>The consistency check of the tables\<close>

text \<open>The panics of \<^verbatim>\<open>checkComputeSSOTConsistency\<close>.\<close>

datatype ssot_panic =
    LabelNotProvider string
  | ProviderNoLabel string
  | RenderNotProvider string
  | RenderDuplicate string
  | ProviderNotRendered string
  | NoDefault string
  | NoDisplayDefault string
  | NoInstanceTypes string

text \<open>A loop that stops at the first element with a panic.\<close>

fun first_panic :: "('a \<Rightarrow> 'e option) \<Rightarrow> 'a list \<Rightarrow> 'e option" where
  "first_panic f [] = None"
| "first_panic f (x # xs) = (case f x of Some e \<Rightarrow> Some e | None \<Rightarrow> first_panic f xs)"

fun render_loop :: "string list \<Rightarrow> string list \<Rightarrow> string list \<Rightarrow> ssot_panic option" where
  "render_loop providers seen [] = None"
| "render_loop providers seen (p # ps) =
     (if \<not> List.member providers p then Some (RenderNotProvider p)
      else if List.member seen p then Some (RenderDuplicate p)
      else render_loop providers (p # seen) ps)"

definition types_of :: "(string \<times> string list) list \<Rightarrow> string \<Rightarrow> string list" where
  "types_of instanceTypes p = (case map_of instanceTypes p of None \<Rightarrow> [] | Some ts \<Rightarrow> ts)"

definition checkComputeSSOTConsistency ::
  "string list \<Rightarrow> (string \<times> string) list \<Rightarrow> string list \<Rightarrow> (string \<times> string) list \<Rightarrow>
   (string \<times> string) list \<Rightarrow> (string \<times> string list) list \<Rightarrow> ssot_panic option" where
  "checkComputeSSOTConsistency providers labels renderOrder defaults displayDefaults instanceTypes =
     (case first_panic (\<lambda>p. if List.member providers p then None else Some (LabelNotProvider p)) (map fst labels) of
        Some e \<Rightarrow> Some e
      | None \<Rightarrow>
     (case first_panic (\<lambda>p. if List.member (map fst labels) p then None else Some (ProviderNoLabel p)) providers of
        Some e \<Rightarrow> Some e
      | None \<Rightarrow>
     (case render_loop providers [] renderOrder of
        Some e \<Rightarrow> Some e
      | None \<Rightarrow>
     (case first_panic (\<lambda>p. if List.member renderOrder p then None else Some (ProviderNotRendered p)) providers of
        Some e \<Rightarrow> Some e
      | None \<Rightarrow>
        first_panic (\<lambda>p.
          if map_of defaults p = None then Some (NoDefault p)
          else if map_of displayDefaults p = None then Some (NoDisplayDefault p)
          else if types_of instanceTypes p = [] then Some (NoInstanceTypes p) else None) renderOrder))))"

definition compute_init :: "ssot_panic option" where
  "compute_init =
     checkComputeSSOTConsistency workspaceComputeProvidersOrdered workspaceComputeProviderLabels
       workspaceComputeMetadataRenderOrder workspaceComputeDefaultInstanceByProvider
       workspaceComputeDisplayDefaultByProvider workspaceComputeInstanceTypesOrdered"

section \<open>Validation\<close>

datatype compute_error =
    UnsupportedProvider
  | UnsupportedInstanceType string string
  | RootGBOutOfRange
  | UnsupportedMode
  | UnsupportedProtocol
  | NegativeDimensions
  | WidthOutOfRange
  | HeightOutOfRange
  | UnsupportedPersistence

definition validateWorkspaceDisplayDimensions :: "int \<Rightarrow> int \<Rightarrow> compute_error option" where
  "validateWorkspaceDisplayDimensions width height =
     (if width < 0 \<or> height < 0 then Some NegativeDimensions
      else if width \<noteq> 0 \<and> (width < workspaceDisplayMinWidth \<or> workspaceDisplayMaxWidth < width)
        then Some WidthOutOfRange
      else if height \<noteq> 0 \<and> (height < workspaceDisplayMinHeight \<or> workspaceDisplayMaxHeight < height)
        then Some HeightOutOfRange
      else None)"

definition display_modes :: "string list" where
  "display_modes = [[], ''none'', ''desktop-control'', ''gpu-desktop-control'']"

definition display_protocols :: "string list" where
  "display_protocols = [[], ''dcv'', ''novnc'']"

definition validateWorkspaceDisplayConfig :: "WorkspaceComputeDisplay \<Rightarrow> compute_error option" where
  "validateWorkspaceDisplayConfig display =
     (if \<not> List.member display_modes (dp_Mode display) then Some UnsupportedMode
      else if \<not> List.member display_protocols (dp_Protocol display) then Some UnsupportedProtocol
      else validateWorkspaceDisplayDimensions (dp_Width display) (dp_Height display))"

definition validateWorkspaceCompute :: "WorkspaceCompute \<Rightarrow> compute_error option" where
  "validateWorkspaceCompute compute =
     (if wc_Provider compute \<noteq> [] \<and> \<not> List.member workspaceComputeProviderAllowlist (wc_Provider compute)
        then Some UnsupportedProvider
      else if \<not> instanceTypeAllowedForProvider (wc_Provider compute) (wc_InstanceType compute)
        then Some (UnsupportedInstanceType (wc_InstanceType compute)
               (if wc_Provider compute = [] then ''aws'' else wc_Provider compute))
      else if vol_RootGB (wc_Volume compute) \<noteq> 0 \<and>
              (vol_RootGB (wc_Volume compute) < workspaceComputeDiskFloorGB \<or>
               workspaceComputeDiskCeilingGB < vol_RootGB (wc_Volume compute))
        then Some RootGBOutOfRange
      else if \<not> List.member display_modes (dp_Mode (wc_Display compute)) then Some UnsupportedMode
      else if \<not> List.member display_protocols (dp_Protocol (wc_Display compute)) then Some UnsupportedProtocol
      else case validateWorkspaceDisplayDimensions (dp_Width (wc_Display compute)) (dp_Height (wc_Display compute)) of
             Some e \<Rightarrow> Some e
           | None \<Rightarrow>
               if \<not> List.member [[], ''persist'', ''ephemeral''] (wc_DataPersistence compute)
               then Some UnsupportedPersistence else None)"

section \<open>Options offered to the user interface\<close>

record workspaceComputeOptionsResponse =
  opt_Providers :: "string list"
  opt_InstanceTypes :: "(string \<times> string list) list"
  opt_Defaults :: "(string \<times> string) list"
  opt_DisplayDefaults :: "(string \<times> string) list"

definition text_of :: "(string \<times> string) list \<Rightarrow> string \<Rightarrow> string" where
  "text_of m k = (case map_of m k of None \<Rightarrow> [] | Some v \<Rightarrow> v)"

definition ComputeMetadata :: workspaceComputeOptionsResponse where
  "ComputeMetadata =
     \<lparr>opt_Providers = workspaceComputeMetadataRenderOrder,
      opt_InstanceTypes = map (\<lambda>i. (i, types_of workspaceComputeInstanceTypesOrdered i)) workspaceComputeMetadataRenderOrder,
      opt_Defaults = map (\<lambda>i. (i, text_of workspaceComputeDefaultInstanceByProvider i)) workspaceComputeMetadataRenderOrder,
      opt_DisplayDefaults =
        map (\<lambda>i. (i, text_of workspaceComputeDisplayDefaultByProvider i)) workspaceComputeMetadataRenderOrder\<rparr>"

definition buildComputeOptions :: workspaceComputeOptionsResponse where
  "buildComputeOptions =
     \<lparr>opt_Providers = workspaceComputeProvidersOrdered,
      opt_InstanceTypes = map (\<lambda>p. (p, types_of workspaceComputeInstanceTypesOrdered p)) workspaceComputeProvidersOrdered,
      opt_Defaults = workspaceComputeDefaultInstanceByProvider,
      opt_DisplayDefaults = workspaceComputeDisplayDefaultByProvider\<rparr>"

section \<open>The stored form\<close>

text \<open>The text of a JSON string that \<^verbatim>\<open>json.Marshal\<close> writes: ill-formed bytes become U+FFFD.\<close>

function json_string :: "string \<Rightarrow> string" where
  "json_string s =
     (if s = [] then []
      else case rune_len s of
             None \<Rightarrow> [CHR 0xEF, CHR 0xBF, CHR 0xBD] @ json_string (tl s)
           | Some w \<Rightarrow> take w s @ json_string (drop w s))"
  by pat_completeness auto
termination
  by (relation "measure length") (auto dest: rune_len_bounds)

declare json_string.simps [simp del]

definition workspaceComputeIsZero :: "WorkspaceCompute \<Rightarrow> bool" where
  "workspaceComputeIsZero compute \<longleftrightarrow>
     wc_InstanceType compute = [] \<and> vol_RootGB (wc_Volume compute) = 0 \<and>
     dp_Mode (wc_Display compute) = [] \<and> dp_Width (wc_Display compute) = 0 \<and>
     dp_Height (wc_Display compute) = 0 \<and> dp_Protocol (wc_Display compute) = [] \<and>
     wc_Provider compute = [] \<and> wc_DataPersistence compute = []"

definition opt_str :: "string \<Rightarrow> string \<Rightarrow> (string \<times> json) list" where
  "opt_str k s = (if s \<noteq> [] then [(k, JStr (json_string s))] else [])"

definition opt_num :: "string \<Rightarrow> int \<Rightarrow> (string \<times> json) list" where
  "opt_num k n = (if n \<noteq> 0 then [(k, JNum n)] else [])"

definition opt_obj :: "string \<Rightarrow> (string \<times> json) list \<Rightarrow> (string \<times> json) list" where
  "opt_obj k members = (if members \<noteq> [] then [(k, JObj members)] else [])"

text \<open>\<^verbatim>\<open>json.Marshal\<close> writes the members of a map in key order.\<close>

definition display_members :: "WorkspaceComputeDisplay \<Rightarrow> (string \<times> json) list" where
  "display_members d =
     opt_num ''height'' (dp_Height d) @ opt_str ''mode'' (dp_Mode d) @
     opt_str ''protocol'' (dp_Protocol d) @ opt_num ''width'' (dp_Width d)"

definition workspaceComputeJSON :: "WorkspaceCompute \<Rightarrow> json" where
  "workspaceComputeJSON compute =
     (if workspaceComputeIsZero compute then JObj []
      else JObj (opt_str ''data_persistence'' (wc_DataPersistence compute) @
                 opt_obj ''display'' (display_members (wc_Display compute)) @
                 opt_str ''instance_type'' (wc_InstanceType compute) @
                 opt_str ''provider'' (wc_Provider compute) @
                 opt_obj ''volume'' (opt_num ''root_gb'' (vol_RootGB (wc_Volume compute)))))"

subsection \<open>json.Unmarshal\<close>

text \<open>
  Member names are compared after folding case: the ASCII letters, the long s (U+017F) and
  the Kelvin sign (U+212A) fold to ASCII letters. A JSON null leaves the field as it is, a value
  of another type is an error, other members are skipped.
\<close>

fun fold_name :: "string \<Rightarrow> string" where
  "fold_name [] = []"
| "fold_name (c # s) =
     (if c = CHR 0xC5 \<and> s \<noteq> [] \<and> hd s = CHR 0xBF then CHR ''s'' # fold_name (tl s)
      else if c = CHR 0xE2 \<and> take 2 s = [CHR 0x84, CHR 0xAA] then CHR ''k'' # fold_name (drop 2 s)
      else (if 65 \<le> byte c \<and> byte c \<le> 90 then char_of (byte c + 32) else c) # fold_name s)"

declare fold_name.simps [simp del]

definition dec_string :: "string \<Rightarrow> json \<Rightarrow> string option" where
  "dec_string old j = (case j of JStr s \<Rightarrow> Some s | JNull \<Rightarrow> Some old | _ \<Rightarrow> None)"

definition dec_int :: "int \<Rightarrow> json \<Rightarrow> int option" where
  "dec_int old j =
     (case j of JNum n \<Rightarrow> if in_int64 n then Some n else None | JNull \<Rightarrow> Some old | _ \<Rightarrow> None)"

fun dec_members :: "('s \<Rightarrow> string \<Rightarrow> json \<Rightarrow> 's option) \<Rightarrow> 's \<Rightarrow> (string \<times> json) list \<Rightarrow> 's option" where
  "dec_members f s [] = Some s"
| "dec_members f s ((k, j) # kvs) =
     (case f s (fold_name k) j of None \<Rightarrow> None | Some s' \<Rightarrow> dec_members f s' kvs)"

definition dec_struct :: "('s \<Rightarrow> string \<Rightarrow> json \<Rightarrow> 's option) \<Rightarrow> 's \<Rightarrow> json \<Rightarrow> 's option" where
  "dec_struct f old j = (case j of JObj kvs \<Rightarrow> dec_members f old kvs | JNull \<Rightarrow> Some old | _ \<Rightarrow> None)"

definition volume_member :: "WorkspaceComputeVolume \<Rightarrow> string \<Rightarrow> json \<Rightarrow> WorkspaceComputeVolume option" where
  "volume_member v k j =
     (if k = ''root_gb'' then map_option (\<lambda>n. v\<lparr>vol_RootGB := n\<rparr>) (dec_int (vol_RootGB v) j) else Some v)"

definition display_member :: "WorkspaceComputeDisplay \<Rightarrow> string \<Rightarrow> json \<Rightarrow> WorkspaceComputeDisplay option" where
  "display_member d k j =
     (if k = ''mode'' then map_option (\<lambda>x. d\<lparr>dp_Mode := x\<rparr>) (dec_string (dp_Mode d) j)
      else if k = ''width'' then map_option (\<lambda>x. d\<lparr>dp_Width := x\<rparr>) (dec_int (dp_Width d) j)
      else if k = ''height'' then map_option (\<lambda>x. d\<lparr>dp_Height := x\<rparr>) (dec_int (dp_Height d) j)
      else if k = ''protocol'' then map_option (\<lambda>x. d\<lparr>dp_Protocol := x\<rparr>) (dec_string (dp_Protocol d) j)
      else Some d)"

definition compute_member :: "WorkspaceCompute \<Rightarrow> string \<Rightarrow> json \<Rightarrow> WorkspaceCompute option" where
  "compute_member c k j =
     (if k = ''instance_type'' then map_option (\<lambda>x. c\<lparr>wc_InstanceType := x\<rparr>) (dec_string (wc_InstanceType c) j)
      else if k = ''volume'' then map_option (\<lambda>x. c\<lparr>wc_Volume := x\<rparr>) (dec_struct volume_member (wc_Volume c) j)
      else if k = ''display'' then map_option (\<lambda>x. c\<lparr>wc_Display := x\<rparr>) (dec_struct display_member (wc_Display c) j)
      else if k = ''data_persistence'' then
        map_option (\<lambda>x. c\<lparr>wc_DataPersistence := x\<rparr>) (dec_string (wc_DataPersistence c) j)
      else if k = ''provider'' then map_option (\<lambda>x. c\<lparr>wc_Provider := x\<rparr>) (dec_string (wc_Provider c) j)
      else Some c)"

definition unmarshal_compute :: "json \<Rightarrow> WorkspaceCompute option" where
  "unmarshal_compute j = dec_struct compute_member zero_compute j"

section \<open>Readers of the stored form\<close>

text \<open>
  The columns of \<^verbatim>\<open>workspaces\<close> these readers select: \<^term>\<open>Inl\<close> a database error, \<^term>\<open>Inr None\<close> no such
  row. A NULL \<^verbatim>\<open>compute\<close> column reads as the empty object.
\<close>

record compute_row =
  cr_compute :: "json option"
  cr_instance_id :: "string option"
  cr_template :: "string option"

type_synonym compute_lookup = "unit + compute_row option"

definition raw_compute :: "compute_row \<Rightarrow> json" where
  "raw_compute r = (case cr_compute r of None \<Rightarrow> JObj [] | Some j \<Rightarrow> j)"

definition withStoredCompute :: "compute_lookup \<Rightarrow> WorkspaceCompute \<Rightarrow> WorkspaceCompute" where
  "withStoredCompute row payload =
     (if \<not> workspaceComputeIsZero payload then payload
      else case row of
             Inl _ \<Rightarrow> payload
           | Inr None \<Rightarrow> payload
           | Inr (Some r) \<Rightarrow>
               if raw_compute r = JObj [] then payload
               else case unmarshal_compute (raw_compute r) of
                      None \<Rightarrow> payload
                    | Some compute \<Rightarrow>
                        if validateWorkspaceCompute compute \<noteq> None then payload else compute)"

definition storedWorkspaceTemplate :: "compute_lookup \<Rightarrow> string" where
  "storedWorkspaceTemplate row =
     (case row of
        Inl _ \<Rightarrow> []
      | Inr None \<Rightarrow> []
      | Inr (Some r) \<Rightarrow> TrimSpace (case cr_template r of None \<Rightarrow> [] | Some t \<Rightarrow> t))"

record workspaceDisplayResponse =
  dr_Available :: bool
  dr_Reason :: string
  dr_Mode :: string
  dr_Protocol :: string
  dr_Width :: int
  dr_Height :: int
  dr_Status :: string

datatype display_result = DispError int string | DispOK workspaceDisplayResponse

text \<open>The stored display configuration, shared by the three display routes; \<^term>\<open>None\<close> when it is invalid.\<close>

definition stored_display :: "compute_row \<Rightarrow> WorkspaceComputeDisplay option" where
  "stored_display r =
     (if raw_compute r = JObj [] then Some zero_display
      else case unmarshal_compute (raw_compute r) of
             None \<Rightarrow> None
           | Some compute \<Rightarrow>
               if validateWorkspaceDisplayConfig (wc_Display compute) \<noteq> None then None
               else Some (wc_Display compute))"

definition Display :: "compute_lookup \<Rightarrow> display_result" where
  "Display row =
     (case row of
        Inl _ \<Rightarrow> DispError 500 ''failed to load display config''
      | Inr None \<Rightarrow> DispError 404 ''workspace not found''
      | Inr (Some r) \<Rightarrow>
          (case stored_display r of
             None \<Rightarrow> DispError 500 ''invalid display config''
           | Some d \<Rightarrow>
               if dp_Mode d = [] \<or> dp_Mode d = ''none'' then
                 DispOK \<lparr>dr_Available = False, dr_Reason = ''display_not_enabled'', dr_Mode = [],
                         dr_Protocol = [], dr_Width = 0, dr_Height = 0, dr_Status = []\<rparr>
               else if cr_instance_id r \<noteq> None \<and> cr_instance_id r \<noteq> Some [] then
                 DispOK \<lparr>dr_Available = True, dr_Reason = [], dr_Mode = dp_Mode d,
                         dr_Protocol = dp_Protocol d, dr_Width = dp_Width d, dr_Height = dp_Height d,
                         dr_Status = ''ready''\<rparr>
               else
                 DispOK \<lparr>dr_Available = False, dr_Reason = ''display_session_unavailable'',
                         dr_Mode = dp_Mode d, dr_Protocol = dp_Protocol d, dr_Width = dp_Width d,
                         dr_Height = dp_Height d, dr_Status = ''not_configured''\<rparr>))"

section \<open>The consistency check\<close>

lemma first_panic_None: "first_panic f xs = None \<longleftrightarrow> (\<forall>x \<in> set xs. f x = None)"
  by (induction xs) (auto split: option.splits)

lemma render_loop_None:
  "render_loop providers seen ps = None \<longleftrightarrow>
    set ps \<subseteq> set providers \<and> distinct ps \<and> set ps \<inter> set seen = {}"
  by (induction ps arbitrary: seen) auto

text \<open>The consistency check of the compute tables panics unless every demand of its contract
  is met: the labels name exactly the providers, the render order is a permutation of them without
  repetition, and each provider has a default, a display default and a machine size. The tables
  the server ships pass, so the process starts.\<close>

theorem checkComputeSSOTConsistency_iff:
  "(checkComputeSSOTConsistency providers labels renderOrder defaults displayDefaults instanceTypes = None \<longleftrightarrow>
      fst ` set labels = set providers \<and>
      set renderOrder = set providers \<and> distinct renderOrder \<and>
      set providers \<subseteq> dom (map_of defaults) \<inter> dom (map_of displayDefaults) \<and>
      {p \<in> set providers. types_of instanceTypes p = []} = {}) \<and>
   compute_init = None"
proof
  have l: "first_panic (\<lambda>p. if List.member ys p then None else Some (E p)) xs = None \<longleftrightarrow> set xs \<subseteq> set ys"
    for E :: "string \<Rightarrow> ssot_panic" and xs ys
    by (auto simp: first_panic_None split: if_splits)
  have r: "first_panic (\<lambda>p. if map_of defaults p = None then Some (NoDefault p)
      else if map_of displayDefaults p = None then Some (NoDisplayDefault p)
      else if types_of instanceTypes p = [] then Some (NoInstanceTypes p) else None) renderOrder = None \<longleftrightarrow>
    set renderOrder \<subseteq> dom (map_of defaults) \<inter> dom (map_of displayDefaults) \<and>
    {p \<in> set renderOrder. types_of instanceTypes p = []} = {}"
    by (auto simp: first_panic_None split: if_splits)
  have n: "(case x of Some e \<Rightarrow> Some e | None \<Rightarrow> y) = None \<longleftrightarrow> x = None \<and> y = None" for x y :: "ssot_panic option"
    by (cases x) auto
  show "checkComputeSSOTConsistency providers labels renderOrder defaults displayDefaults instanceTypes = None \<longleftrightarrow>
      fst ` set labels = set providers \<and> set renderOrder = set providers \<and> distinct renderOrder \<and>
      set providers \<subseteq> dom (map_of defaults) \<inter> dom (map_of displayDefaults) \<and>
      {p \<in> set providers. types_of instanceTypes p = []} = {}"
    unfolding checkComputeSSOTConsistency_def n l r render_loop_None set_map list.set by blast
  show "compute_init = None" by code_simp
qed

section \<open>Offered and accepted machine sizes\<close>

definition offers :: "workspaceComputeOptionsResponse \<Rightarrow> string \<Rightarrow> string \<Rightarrow> bool" where
  "offers r p t \<longleftrightarrow> List.member (opt_Providers r) p \<and> List.member (types_of (opt_InstanceTypes r) p) t"

abbreviation chosen :: "string \<Rightarrow> string \<Rightarrow> WorkspaceCompute" where
  "chosen p t \<equiv> zero_compute\<lparr>wc_Provider := p, wc_InstanceType := t\<rparr>"

definition default_pairs :: "workspaceComputeOptionsResponse \<Rightarrow> (string \<times> string) list" where
  "default_pairs r = opt_Defaults r @ opt_DisplayDefaults r"

lemma validate_chosen:
  "p \<noteq> [] \<Longrightarrow> t \<noteq> [] \<Longrightarrow> validateWorkspaceCompute (chosen p t) = None \<longleftrightarrow>
    List.member workspaceComputeProviderAllowlist p \<and> instanceTypeAllowedForProvider p t"
  by (simp add: validateWorkspaceCompute_def zero_compute_def zero_display_def display_modes_def
      display_protocols_def validateWorkspaceDisplayDimensions_def)

lemma types_of_map: "p \<in> set ps \<Longrightarrow> types_of (map (\<lambda>q. (q, f q)) ps) p = f p"
  by (induction ps) (auto simp: types_of_def)

lemma types_of_allowlist:
  "types_of workspaceComputeInstanceAllowlist p = remdups (types_of workspaceComputeInstanceTypesOrdered p)"
  unfolding workspaceComputeInstanceAllowlist_def types_of_def map_of_map by (simp split: option.split)

lemma allowed_types:
  "t \<noteq> [] \<Longrightarrow> p \<noteq> [] \<Longrightarrow>
    instanceTypeAllowedForProvider p t \<longleftrightarrow> t \<in> set (types_of workspaceComputeInstanceTypesOrdered p)"
  using arg_cong [OF types_of_allowlist [of p], of set]
  by (auto simp: instanceTypeAllowedForProvider_def types_of_def split: option.splits)

lemma render_order_set: "set workspaceComputeMetadataRenderOrder = set workspaceComputeProvidersOrdered"
  by (auto simp: workspaceComputeMetadataRenderOrder_def workspaceComputeProvidersOrdered_def)

lemma offers_iff:
  assumes "r \<in> {ComputeMetadata, buildComputeOptions}"
  shows "offers r p t \<longleftrightarrow>
    p \<in> set workspaceComputeProvidersOrdered \<and> t \<in> set (types_of workspaceComputeInstanceTypesOrdered p)"
  using assms types_of_map [of p] render_order_set
  by (auto simp: offers_def ComputeMetadata_def buildComputeOptions_def)

lemma allowed_iff_offered:
  "t \<noteq> [] \<Longrightarrow> p \<noteq> [] \<Longrightarrow> r \<in> {ComputeMetadata, buildComputeOptions} \<Longrightarrow>
    (List.member workspaceComputeProviderAllowlist p \<and> instanceTypeAllowedForProvider p t) = offers r p t"
  by (simp add: offers_iff allowed_types workspaceComputeProviderAllowlist_def)

text \<open>The user interface and the validation agree: both option routes offer a provider with a
  machine size exactly when \<^verbatim>\<open>validateWorkspaceCompute\<close> accepts the pair, and every default
  they announce, also for display boxes, is a pair they offer.\<close>

theorem compute_options_agree:
  assumes "p \<noteq> []" "t \<noteq> []" "r \<in> {ComputeMetadata, buildComputeOptions}"
  shows "(validateWorkspaceCompute (chosen p t) = None \<longleftrightarrow> offers r p t) \<and>
    list_all (\<lambda>(q, d). offers r q d) (default_pairs r)"
proof -
  have "list_all (\<lambda>(q, d). offers r q d) (default_pairs r)" if "r = ComputeMetadata" unfolding that by code_simp
  moreover have "list_all (\<lambda>(q, d). offers r q d) (default_pairs r)" if "r = buildComputeOptions" unfolding that by code_simp
  ultimately show ?thesis using assms validate_chosen [of p t] allowed_iff_offered [of t p r] by auto
qed

theorem compute_options_agree_witness:
  "validateWorkspaceCompute (chosen ''hetzner'' ''cax21'') = None \<and>
   validateWorkspaceCompute (chosen ''hetzner'' ''t3.large'') \<noteq> None"
proof -
  have "offers ComputeMetadata ''hetzner'' ''cax21''" "\<not> offers ComputeMetadata ''hetzner'' ''t3.large''" by code_simp+
  then show ?thesis
    using compute_options_agree [of "''hetzner''" "''cax21''" ComputeMetadata]
      compute_options_agree [of "''hetzner''" "''t3.large''" ComputeMetadata] by simp
qed

section \<open>The stored form reads back\<close>

lemma json_string_valid: "valid_utf8 s \<Longrightarrow> json_string s = s"
proof (induction s rule: valid_utf8.induct)
  case (1 s)
  show ?case
  proof (cases "s = []")
    case False
    then obtain w where w: "rune_len s = Some w" using "1.prems" valid_utf8_rune by blast
    then have "json_string (drop w s) = drop w s" using 1 False valid_utf8_step [OF w] by blast
    then show ?thesis using w False by (simp add: json_string.simps [of s])
  qed (simp add: json_string.simps)
qed

lemma dec_members_append:
  "dec_members f s (xs @ ys) = (case dec_members f s xs of None \<Rightarrow> None | Some s' \<Rightarrow> dec_members f s' ys)"
  by (induction f s xs rule: dec_members.induct) (auto split: option.splits)

lemma dec_opt_str:
  "dec_members f s (opt_str k v) = (if v = [] then Some s else f s (fold_name k) (JStr (json_string v)))"
  by (simp add: opt_str_def split: option.split)

lemma dec_opt_num:
  "dec_members f s (opt_num k n) = (if n = 0 then Some s else f s (fold_name k) (JNum n))"
  by (simp add: opt_num_def split: option.split)

lemma fold_field_names:
  "fold_name ''height'' = ''height''" "fold_name ''mode'' = ''mode''" "fold_name ''protocol'' = ''protocol''"
  "fold_name ''width'' = ''width''" "fold_name ''display'' = ''display''" "fold_name ''volume'' = ''volume''"
  "fold_name ''instance_type'' = ''instance_type''" "fold_name ''provider'' = ''provider''"
  "fold_name ''data_persistence'' = ''data_persistence''" "fold_name ''root_gb'' = ''root_gb''"
  by code_simp+

text \<open>What validation leaves of the strings and numbers of a compute.\<close>

lemma known_names_valid:
  "list_all valid_utf8 (workspaceComputeProviderAllowlist @ display_modes @ display_protocols @
     [[], ''persist'', ''ephemeral''] @ concat (map snd workspaceComputeInstanceAllowlist))"
  by code_simp

lemma allowed_type_known:
  "instanceTypeAllowedForProvider p t \<Longrightarrow>
    t = [] \<or> t \<in> set (concat (map snd workspaceComputeInstanceAllowlist))"
  by (force simp: instanceTypeAllowedForProvider_def Let_def split: option.splits if_splits dest: map_of_SomeD)

lemma validated_strings:
  assumes "validateWorkspaceCompute c = None"
  shows "valid_utf8 (wc_InstanceType c)" "valid_utf8 (wc_Provider c)" "valid_utf8 (wc_DataPersistence c)"
    "valid_utf8 (dp_Mode (wc_Display c))" "valid_utf8 (dp_Protocol (wc_Display c))"
proof -
  note V = assms [unfolded validateWorkspaceCompute_def] and K = known_names_valid [unfolded list_all_iff]
  have "instanceTypeAllowedForProvider (wc_Provider c) (wc_InstanceType c)"
    "wc_Provider c = [] \<or> wc_Provider c \<in> set workspaceComputeProviderAllowlist"
    "dp_Mode (wc_Display c) \<in> set display_modes" "dp_Protocol (wc_Display c) \<in> set display_protocols"
    "wc_DataPersistence c \<in> set [[], ''persist'', ''ephemeral'']"
    using V by (auto split: if_splits option.splits)
  with allowed_type_known [of "wc_Provider c" "wc_InstanceType c"] K valid_utf8_Nil
  show "valid_utf8 (wc_InstanceType c)" "valid_utf8 (wc_Provider c)" "valid_utf8 (wc_DataPersistence c)"
    "valid_utf8 (dp_Mode (wc_Display c))" "valid_utf8 (dp_Protocol (wc_Display c))"
    by (simp_all only: set_append Un_iff Ball_def) metis+
qed

lemma validated_numbers:
  assumes "validateWorkspaceCompute c = None"
  shows "in_int64 (vol_RootGB (wc_Volume c))" "in_int64 (dp_Width (wc_Display c))" "in_int64 (dp_Height (wc_Display c))"
proof -
  have "validateWorkspaceDisplayDimensions (dp_Width (wc_Display c)) (dp_Height (wc_Display c)) = None"
    "vol_RootGB (wc_Volume c) = 0 \<or> (30 \<le> vol_RootGB (wc_Volume c) \<and> vol_RootGB (wc_Volume c) \<le> 500)"
    using assms by (auto simp: validateWorkspaceCompute_def workspaceComputeDiskFloorGB_def
        workspaceComputeDiskCeilingGB_def split: if_splits option.splits)
  then show "in_int64 (vol_RootGB (wc_Volume c))" "in_int64 (dp_Width (wc_Display c))" "in_int64 (dp_Height (wc_Display c))"
    by (auto simp: in_int64_def validateWorkspaceDisplayDimensions_def workspaceDisplayMaxWidth_def
        workspaceDisplayMaxHeight_def split: if_splits)
qed

text \<open>Decoding one optional member, for a field that still has its zero value.\<close>

lemma display_member_decode:
  "json_string v = v \<Longrightarrow> dp_Mode d = [] \<Longrightarrow>
    dec_members display_member d (opt_str ''mode'' v) = Some (d\<lparr>dp_Mode := v\<rparr>)"
  "json_string v = v \<Longrightarrow> dp_Protocol d = [] \<Longrightarrow>
    dec_members display_member d (opt_str ''protocol'' v) = Some (d\<lparr>dp_Protocol := v\<rparr>)"
  "in_int64 n \<Longrightarrow> dp_Width d = 0 \<Longrightarrow>
    dec_members display_member d (opt_num ''width'' n) = Some (d\<lparr>dp_Width := n\<rparr>)"
  "in_int64 n \<Longrightarrow> dp_Height d = 0 \<Longrightarrow>
    dec_members display_member d (opt_num ''height'' n) = Some (d\<lparr>dp_Height := n\<rparr>)"
  by (simp_all add: dec_opt_str dec_opt_num fold_field_names display_member_def dec_string_def dec_int_def)

lemma compute_member_decode:
  "json_string v = v \<Longrightarrow> wc_InstanceType c = [] \<Longrightarrow>
    dec_members compute_member c (opt_str ''instance_type'' v) = Some (c\<lparr>wc_InstanceType := v\<rparr>)"
  "json_string v = v \<Longrightarrow> wc_Provider c = [] \<Longrightarrow>
    dec_members compute_member c (opt_str ''provider'' v) = Some (c\<lparr>wc_Provider := v\<rparr>)"
  "json_string v = v \<Longrightarrow> wc_DataPersistence c = [] \<Longrightarrow>
    dec_members compute_member c (opt_str ''data_persistence'' v) = Some (c\<lparr>wc_DataPersistence := v\<rparr>)"
  by (simp_all add: dec_opt_str fold_field_names compute_member_def dec_string_def)

lemma display_members_decode:
  assumes "json_string (dp_Mode d) = dp_Mode d" "json_string (dp_Protocol d) = dp_Protocol d"
    "in_int64 (dp_Width d)" "in_int64 (dp_Height d)"
  shows "dec_members display_member zero_display (display_members d) = Some d"
  using assms by (simp add: display_members_def dec_members_append display_member_decode zero_display_def)

lemma display_field_decode:
  assumes "dec_members display_member zero_display ms = Some d" "wc_Display c = zero_display"
  shows "dec_members compute_member c (opt_obj ''display'' ms) = Some (c\<lparr>wc_Display := d\<rparr>)"
  using assms by (auto simp: opt_obj_def compute_member_def dec_struct_def fold_field_names)

lemma volume_field_decode:
  assumes "in_int64 n" "wc_Volume c = \<lparr>vol_RootGB = 0\<rparr>"
  shows "dec_members compute_member c (opt_obj ''volume'' (opt_num ''root_gb'' n)) =
    Some (c\<lparr>wc_Volume := \<lparr>vol_RootGB = n\<rparr>\<rparr>)"
  using assms
  by (auto simp: opt_obj_def opt_num_def compute_member_def dec_struct_def volume_member_def dec_int_def fold_field_names)

lemma zero_compute_eq: "workspaceComputeIsZero c \<longleftrightarrow> c = zero_compute"
  by (cases c; cases "wc_Display c"; cases "wc_Volume c")
    (auto simp: workspaceComputeIsZero_def zero_compute_def zero_display_def)

lemma unmarshal_workspaceComputeJSON:
  assumes "validateWorkspaceCompute c = None"
  shows "unmarshal_compute (workspaceComputeJSON c) = Some c"
proof (cases "workspaceComputeIsZero c")
  case True
  then show ?thesis by (simp add: zero_compute_eq workspaceComputeJSON_def unmarshal_compute_def dec_struct_def)
next
  case False
  note S = validated_strings [OF assms, THEN json_string_valid] and N = validated_numbers [OF assms]
  note D = display_field_decode [OF display_members_decode [OF S(4,5) N(2,3)]]
  have z: "wc_InstanceType zero_compute = []" "wc_Provider zero_compute = []" "wc_DataPersistence zero_compute = []"
    "wc_Display zero_compute = zero_display" "wc_Volume zero_compute = \<lparr>vol_RootGB = 0\<rparr>"
    by (simp_all add: zero_compute_def)
  have "unmarshal_compute (workspaceComputeJSON c) =
      Some (zero_compute\<lparr>wc_DataPersistence := wc_DataPersistence c, wc_Display := wc_Display c,
        wc_InstanceType := wc_InstanceType c, wc_Provider := wc_Provider c,
        wc_Volume := \<lparr>vol_RootGB = vol_RootGB (wc_Volume c)\<rparr>\<rparr>)"
    using False by (simp add: workspaceComputeJSON_def unmarshal_compute_def dec_struct_def
        dec_members_append compute_member_decode S z D volume_field_decode [OF N(1)])
  then show ?thesis by (simp add: zero_compute_def)
qed

text \<open>C25: A validated compute configuration survives the database: decoding what
  \<^verbatim>\<open>workspaceComputeJSON\<close> wrote gives it back, \<^verbatim>\<open>withStoredCompute\<close> restores it for a
  payload without one, and never replaces a payload that has one or restores a stored value that
  does not validate.\<close>

theorem compute_stored_roundtrip:
  assumes "validateWorkspaceCompute c = None"
  shows "unmarshal_compute (workspaceComputeJSON c) = Some c \<and>
    withStoredCompute (Inr (Some (r\<lparr>cr_compute := Some (workspaceComputeJSON c)\<rparr>))) zero_compute = c \<and>
    (\<not> workspaceComputeIsZero payload \<longrightarrow> withStoredCompute row payload = payload) \<and>
    (withStoredCompute row payload = payload \<or> validateWorkspaceCompute (withStoredCompute row payload) = None)"
proof -
  note u = unmarshal_workspaceComputeJSON [OF assms]
  have "c = zero_compute" if "workspaceComputeJSON c = JObj []"
    using u that by (simp add: unmarshal_compute_def dec_struct_def)
  then have "withStoredCompute (Inr (Some (r\<lparr>cr_compute := Some (workspaceComputeJSON c)\<rparr>))) zero_compute = c"
    using u assms by (auto simp: withStoredCompute_def raw_compute_def zero_compute_eq)
  with u show ?thesis by (simp add: withStoredCompute_def split: sum.split option.split)
qed

definition demo_compute :: WorkspaceCompute where
  "demo_compute = \<lparr>wc_InstanceType = ''cpx41'', wc_Volume = \<lparr>vol_RootGB = 80\<rparr>,
     wc_Display = \<lparr>dp_Mode = ''desktop-control'', dp_Width = 1920, dp_Height = 1080, dp_Protocol = ''novnc''\<rparr>,
     wc_DataPersistence = ''persist'', wc_Provider = ''hetzner''\<rparr>"

theorem compute_stored_roundtrip_witness:
  "validateWorkspaceCompute demo_compute = None \<and>
   unmarshal_compute (workspaceComputeJSON demo_compute) = Some demo_compute"
proof -
  have "validateWorkspaceCompute demo_compute = None" by code_simp
  with compute_stored_roundtrip show ?thesis by simp
qed

end
