(* ===== verification/Display_Control.thy ===== *)
theory Display_Control
  imports Workspace_Compute
begin

text \<open>
  \<^verbatim>\<open>internal/handlers/workspace_display_control.go\<close> and the guard of
  \<^verbatim>\<open>workspace_display_session.go\<close>: the lease of a workspace's desktop, kept in the table
  \<^verbatim>\<open>workspace_display_control_locks\<close>, and the signed tokens that open a session under it. The
  environment variables, the caller's identity and HMAC-SHA256 are arguments. Instants count
  from the Unix epoch.
\<close>

section \<open>base64.RawURLEncoding\<close>

definition b64_alphabet :: string where
  "b64_alphabet = ''ABCDEFGHIJKLMNOPQRSTUVWXYZabcdefghijklmnopqrstuvwxyz0123456789-_''"

definition b64_char :: "nat \<Rightarrow> char" where
  "b64_char n = b64_alphabet ! n"

fun index_of :: "char \<Rightarrow> string \<Rightarrow> nat option" where
  "index_of c [] = None"
| "index_of c (d # ds) = (if c = d then Some 0 else map_option Suc (index_of c ds))"

definition b64_val :: "char \<Rightarrow> nat option" where
  "b64_val c = index_of c b64_alphabet"

fun b64_encode :: "string \<Rightarrow> string" where
  "b64_encode [] = []"
| "b64_encode [a] = [b64_char (byte a div 4), b64_char (byte a mod 4 * 16)]"
| "b64_encode [a, b] =
     [b64_char (byte a div 4), b64_char (byte a mod 4 * 16 + byte b div 16), b64_char (byte b mod 16 * 4)]"
| "b64_encode (a # b # c # s) =
     b64_char (byte a div 4) # b64_char (byte a mod 4 * 16 + byte b div 16) #
     b64_char (byte b mod 16 * 4 + byte c div 64) # b64_char (byte c mod 64) # b64_encode s"

definition byte1 :: "nat \<Rightarrow> nat \<Rightarrow> char" where "byte1 p q = char_of (p * 4 + q div 16)"
definition byte2 :: "nat \<Rightarrow> nat \<Rightarrow> char" where "byte2 q r = char_of (q mod 16 * 16 + r div 4)"
definition byte3 :: "nat \<Rightarrow> nat \<Rightarrow> char" where "byte3 r t = char_of (r mod 4 * 64 + t)"

text \<open>The decoder is not strict: the unused low bits of the last group are dropped.\<close>

fun b64_quanta :: "nat list \<Rightarrow> string option" where
  "b64_quanta [] = Some []"
| "b64_quanta [p] = None"
| "b64_quanta [p, q] = Some [byte1 p q]"
| "b64_quanta [p, q, r] = Some [byte1 p q, byte2 q r]"
| "b64_quanta (p # q # r # t # s) =
     map_option (\<lambda>rest. byte1 p q # byte2 q r # byte3 r t # rest) (b64_quanta s)"

text \<open>Line breaks are skipped, any other byte outside the alphabet is an error.\<close>

fun b64_vals :: "string \<Rightarrow> nat list option" where
  "b64_vals [] = Some []"
| "b64_vals (c # s) =
     (if c = CHR 0x0A \<or> c = CHR 0x0D then b64_vals s
      else case b64_val c of None \<Rightarrow> None | Some v \<Rightarrow> map_option ((#) v) (b64_vals s))"

definition b64_decode :: "string \<Rightarrow> string option" where
  "b64_decode s = Option.bind (b64_vals s) b64_quanta"

section \<open>Configuration and callers\<close>

record display_config =
  dc_ADMIN_TOKEN :: string
  dc_SIGNING_SECRET :: string
  dc_hmac :: "string \<Rightarrow> string \<Rightarrow> string"

text \<open>What the authentication middleware put into the request context, and the header.\<close>

record caller =
  ca_org_token_prefix :: "string option"
  ca_cp_session_actor :: "string option"
  ca_Authorization :: string

definition BearerTokenFromHeader :: "string \<Rightarrow> string" where
  "BearerTokenFromHeader h =
     (if \<not> has_prefix ''Bearer '' h then [] else TrimSpace (drop (length ''Bearer '') h))"

definition displayControlIsAdminToken :: "display_config \<Rightarrow> caller \<Rightarrow> bool" where
  "displayControlIsAdminToken cfg c =
     (if dc_ADMIN_TOKEN cfg = [] then False
      else BearerTokenFromHeader (ca_Authorization c) = dc_ADMIN_TOKEN cfg)"

definition actorOrgTokenPrefix :: string where "actorOrgTokenPrefix = ''org-token:''"
definition actorAdminToken :: string where "actorAdminToken = ''admin-token''"

definition displayControlActor :: "display_config \<Rightarrow> caller \<Rightarrow> string option" where
  "displayControlActor cfg c =
     (case ca_org_token_prefix c of
        Some (x # xs) \<Rightarrow> Some (actorOrgTokenPrefix @ x # xs)
      | _ \<Rightarrow>
          (case ca_cp_session_actor c of
             Some (x # xs) \<Rightarrow> Some (x # xs)
           | _ \<Rightarrow> if displayControlIsAdminToken cfg c then Some actorAdminToken else None))"

section \<open>Session tokens\<close>

definition zero_time :: instant where
  "zero_time = - 62135596800 * second"

definition unix :: "instant \<Rightarrow> int" where
  "unix t = t div second"

definition token_payload :: "uuid \<Rightarrow> string \<Rightarrow> instant \<Rightarrow> string" where
  "token_payload workspaceID controlledBy expiresAt =
     workspaceID @ ''|'' @ controlledBy @ ''|'' @ show_int (unix expiresAt)"

definition signDisplaySessionToken :: "display_config \<Rightarrow> uuid \<Rightarrow> string \<Rightarrow> instant \<Rightarrow> string" where
  "signDisplaySessionToken cfg workspaceID controlledBy expiresAt =
     (if dc_SIGNING_SECRET cfg = [] \<or> workspaceID = [] \<or> controlledBy = [] \<or> expiresAt = zero_time then []
      else let payload = token_payload workspaceID controlledBy expiresAt
           in b64_encode payload @ ''.'' @ b64_encode (dc_hmac cfg (dc_SIGNING_SECRET cfg) payload))"

definition validateDisplaySessionToken ::
  "display_config \<Rightarrow> instant \<Rightarrow> string \<Rightarrow> uuid \<Rightarrow> string \<Rightarrow> instant \<Rightarrow> bool" where
  "validateDisplaySessionToken cfg now token workspaceID controlledBy expiresAt =
     (case split_on (CHR ''.'') token of
        [p0, p1] \<Rightarrow>
          if dc_SIGNING_SECRET cfg = [] \<or> workspaceID = [] \<or> controlledBy = [] \<or>
             expiresAt = zero_time \<or> expiresAt < now then False
          else (case b64_decode p0 of
                  None \<Rightarrow> False
                | Some payload \<Rightarrow>
                    if payload \<noteq> token_payload workspaceID controlledBy expiresAt then False
                    else (case b64_decode p1 of
                            None \<Rightarrow> False
                          | Some sig \<Rightarrow> sig = dc_hmac cfg (dc_SIGNING_SECRET cfg) payload))
      | _ \<Rightarrow> False)"

text \<open>\<^verbatim>\<open>url.PathEscape\<close> leaves unreserved bytes and a few others alone and writes the rest as percent codes.\<close>

definition hex_digit :: "nat \<Rightarrow> char" where
  "hex_digit n = ''0123456789ABCDEF'' ! n"

definition PathEscape :: "string \<Rightarrow> string" where
  "PathEscape s =
     concat (map (\<lambda>c.
       if List.member ''ABCDEFGHIJKLMNOPQRSTUVWXYZabcdefghijklmnopqrstuvwxyz0123456789-_.~$&+=:@'' c then [c]
       else [CHR ''%'', hex_digit (byte c div 16), hex_digit (byte c mod 16)]) s)"

definition signedDisplaySessionURL :: "display_config \<Rightarrow> uuid \<Rightarrow> string \<Rightarrow> instant \<Rightarrow> string" where
  "signedDisplaySessionURL cfg workspaceID controlledBy expiresAt =
     (let token = signDisplaySessionToken cfg workspaceID controlledBy expiresAt
      in if token = [] then []
         else ''/workspaces/'' @ PathEscape workspaceID @ ''/display/session/websockify#token='' @ token)"

section \<open>The lock table and its statements\<close>

record dc_lock =
  lk_controller :: string
  lk_controlled_by :: string
  lk_expires_at :: instant

text \<open>The primary key is the workspace; \<open>ds_log\<close> is the part of \<^verbatim>\<open>structure_events\<close> written here.\<close>

record display_state =
  ds_locks :: "uuid \<Rightarrow> dc_lock option"
  ds_log :: "(string \<times> uuid \<times> json) list"

text \<open>
  What a request meets: the database clock at each of its statements and the clock of the process,
  faults of its statements and of the two event inserts, the text of such an error, and the
  elapsed milliseconds.
\<close>

record display_env =
  de_now :: "nat \<Rightarrow> instant"
  de_clock :: instant
  de_flt :: faults
  de_event_flt :: faults
  de_error :: string
  de_ms :: int

definition emitDisplayControlEvent ::
  "bool \<Rightarrow> string \<Rightarrow> uuid \<Rightarrow> (string \<times> json) list \<Rightarrow> display_state \<Rightarrow> display_state" where
  "emitDisplayControlEvent fault eventType workspaceID payload s =
     (if fault then s else s\<lparr>ds_log := ds_log s @ [(eventType, workspaceID, JObj payload)]\<rparr>)"

definition rune_count :: "string \<Rightarrow> nat" where
  "rune_count s = length (filter RuneStart s)"

text \<open>The text type takes valid UTF-8 without NUL; the CHECK bounds the length to 1..200 characters.\<close>

definition actor_storable :: "string \<Rightarrow> bool" where
  "actor_storable a \<longleftrightarrow> valid_utf8 a \<and> \<not> List.member a (CHR 0x00) \<and> 0 < rune_count a \<and> rune_count a \<le> 200"

definition upsert_lock ::
  "instant \<Rightarrow> uuid \<Rightarrow> string \<Rightarrow> string \<Rightarrow> int \<Rightarrow> (uuid \<Rightarrow> dc_lock option) \<Rightarrow>
   (uuid \<Rightarrow> dc_lock option) \<times> dc_lock option" where
  "upsert_lock now ws controller who ttl locks =
     (let new = \<lparr>lk_controller = controller, lk_controlled_by = who, lk_expires_at = now + ttl * second\<rparr>
      in case locks ws of
           None \<Rightarrow> (locks(ws := Some new), Some new)
         | Some cur \<Rightarrow>
             if lk_expires_at cur \<le> now \<or> lk_controlled_by cur = who
             then (locks(ws := Some new), Some new) else (locks, None))"

definition delete_lock ::
  "uuid \<Rightarrow> string \<Rightarrow> bool \<Rightarrow> (uuid \<Rightarrow> dc_lock option) \<Rightarrow> (uuid \<Rightarrow> dc_lock option) \<times> nat" where
  "delete_lock ws who force locks =
     (case locks ws of
        None \<Rightarrow> (locks, 0)
      | Some cur \<Rightarrow> if force \<or> lk_controlled_by cur = who then (locks(ws := None), 1) else (locks, 0))"

definition loadActiveDisplayControl ::
  "bool \<Rightarrow> instant \<Rightarrow> display_state \<Rightarrow> uuid \<Rightarrow> unit + dc_lock option" where
  "loadActiveDisplayControl fault now s ws =
     (if fault then Inl ()
      else Inr (case ds_locks s ws of
                  None \<Rightarrow> None
                | Some lk \<Rightarrow> if now < lk_expires_at lk then Some lk else None))"

section \<open>The control routes\<close>

datatype 'a body = NoBody | Malformed | Body 'a

record acquireDisplayControlRequest =
  aq_Controller :: string
  aq_TTLSeconds :: int

record releaseDisplayControlRequest =
  rq_Force :: bool

text \<open>Response bodies: \<open>DCurrent\<close> is a 409 with the current lease, \<open>DLock\<close> a lease with its session URL.\<close>

datatype display_body = DError string | DNone | DLock dc_lock string | DCurrent string "dc_lock option"

type_synonym display_resp = "int \<times> display_body"

definition displayControlDefaultTTLSeconds :: int where "displayControlDefaultTTLSeconds = 300"
definition displayControlMinTTLSeconds :: int where "displayControlMinTTLSeconds = 30"
definition displayControlMaxTTLSeconds :: int where "displayControlMaxTTLSeconds = 3600"

definition DisplayControl :: "bool \<Rightarrow> instant \<Rightarrow> display_state \<Rightarrow> uuid \<Rightarrow> display_resp" where
  "DisplayControl fault now s ws =
     (case loadActiveDisplayControl fault now s ws of
        Inl _ \<Rightarrow> (500, DError ''failed to load display control'')
      | Inr None \<Rightarrow> (200, DNone)
      | Inr (Some lk) \<Rightarrow> (200, DLock lk []))"

definition parseWorkspaceDisplayCompute :: "compute_row \<Rightarrow> WorkspaceComputeDisplay option" where
  "parseWorkspaceDisplayCompute r =
     (if raw_compute r = JObj [] then Some zero_display
      else case unmarshal_compute (raw_compute r) of
             None \<Rightarrow> None
           | Some compute \<Rightarrow>
               if validateWorkspaceDisplayConfig (wc_Display compute) \<noteq> None then None
               else Some (wc_Display compute))"

text \<open>\<^term>\<open>None\<close> when enabled, otherwise the response that was written.\<close>

definition displayControlEnabled :: "compute_lookup \<Rightarrow> display_resp option" where
  "displayControlEnabled row =
     (case row of
        Inl _ \<Rightarrow> Some (500, DError ''failed to load display config'')
      | Inr None \<Rightarrow> Some (404, DError ''workspace not found'')
      | Inr (Some r) \<Rightarrow>
          (case parseWorkspaceDisplayCompute r of
             None \<Rightarrow> Some (500, DError ''invalid display config'')
           | Some d \<Rightarrow>
               if dp_Mode d = [] \<or> dp_Mode d = ''none'' then Some (400, DError ''display not enabled'')
               else None))"

text \<open>The checks of \<^verbatim>\<open>AcquireDisplayControl\<close> before it touches the table: the actor and the lifetime.\<close>

definition acquire_checks ::
  "display_config \<Rightarrow> compute_lookup \<Rightarrow> acquireDisplayControlRequest body \<Rightarrow> caller \<Rightarrow>
   display_resp + string \<times> string \<times> int" where
  "acquire_checks cfg row body c =
     (case body of
        Malformed \<Rightarrow> Inl (400, DError ''invalid display control request'')
      | _ \<Rightarrow>
          let controller0 = (case body of Body req \<Rightarrow> aq_Controller req | _ \<Rightarrow> []);
              ttl0 = (case body of Body req \<Rightarrow> aq_TTLSeconds req | _ \<Rightarrow> 0);
              controller = (if controller0 = [] then ''user'' else controller0);
              ttl = (if ttl0 = 0 then displayControlDefaultTTLSeconds else ttl0)
          in if controller \<noteq> ''user'' then
               Inl (400, DError ''browser callers may only acquire user display control'')
             else if ttl < displayControlMinTTLSeconds \<or> displayControlMaxTTLSeconds < ttl then
               Inl (400, DError ''ttl_seconds must be between 30 and 3600'')
             else case displayControlEnabled row of
               Some resp \<Rightarrow> Inl resp
             | None \<Rightarrow>
                 (case displayControlActor cfg c of
                    None \<Rightarrow> Inl (403, DError ''display control requires admin-token or org-token auth'')
                  | Some who \<Rightarrow>
                      if dc_SIGNING_SECRET cfg = [] then
                        Inl (503, DError ''display session signing secret is not configured'')
                      else Inr (controller, who, ttl)))"

text \<open>Statement 0 is the upsert, 1 the load of the current lease.\<close>

definition AcquireDisplayControl ::
  "display_config \<Rightarrow> display_env \<Rightarrow> compute_lookup \<Rightarrow> acquireDisplayControlRequest body \<Rightarrow> caller \<Rightarrow>
   uuid \<Rightarrow> display_state \<Rightarrow> display_state \<times> display_resp" where
  "AcquireDisplayControl cfg env row body c ws s =
     (case acquire_checks cfg row body c of
        Inl resp \<Rightarrow> (s, resp)
      | Inr (controller, who, ttl) \<Rightarrow>
          let s1 = emitDisplayControlEvent (de_event_flt env 0) ''display.control.acquire.started'' ws
                [(''controller'', JStr controller), (''controlled_by'', JStr who), (''ttl_seconds'', JNum ttl)] s;
              failed = emitDisplayControlEvent (de_event_flt env 1) ''display.control.acquire.failed'' ws
          in if de_flt env 0 \<or> \<not> actor_storable who then
               (failed [(''controlled_by'', JStr who), (''duration_ms'', JNum (de_ms env)),
                        (''error'', JStr (de_error env))] s1,
                (500, DError ''failed to acquire display control''))
             else case upsert_lock (de_now env 0) ws controller who ttl (ds_locks s1) of
               (locks, Some lk) \<Rightarrow>
                 (emitDisplayControlEvent (de_event_flt env 1) ''display.control.acquire.completed'' ws
                    [(''controller'', JStr (lk_controller lk)), (''controlled_by'', JStr (lk_controlled_by lk)),
                     (''ttl_seconds'', JNum ttl), (''duration_ms'', JNum (de_ms env))]
                    (s1\<lparr>ds_locks := locks\<rparr>),
                  (200, DLock lk (signedDisplaySessionURL cfg ws (lk_controlled_by lk) (lk_expires_at lk))))
             | (locks, None) \<Rightarrow>
                 (case loadActiveDisplayControl (de_flt env 1) (de_now env 1) s1 ws of
                    Inl _ \<Rightarrow>
                      (failed [(''controlled_by'', JStr who), (''duration_ms'', JNum (de_ms env)),
                               (''error'', JStr (de_error env))] s1,
                       (500, DError ''failed to load display control''))
                  | Inr current \<Rightarrow>
                      (failed [(''controlled_by'', JStr who), (''duration_ms'', JNum (de_ms env)),
                               (''error'', JStr ''display control already held'')] s1,
                       (409, DCurrent ''display control already held'' current))))"

text \<open>The checks of \<^verbatim>\<open>ReleaseDisplayControl\<close>: the actor and the force flag.\<close>

definition release_checks ::
  "display_config \<Rightarrow> releaseDisplayControlRequest body \<Rightarrow> caller \<Rightarrow> display_resp + string \<times> bool" where
  "release_checks cfg body c =
     (case body of
        Malformed \<Rightarrow> Inl (400, DError ''invalid display control release request'')
      | _ \<Rightarrow>
          let force = (case body of Body req \<Rightarrow> rq_Force req | _ \<Rightarrow> False)
          in if force \<and> \<not> displayControlIsAdminToken cfg c then
               Inl (403, DError ''force release requires admin-token auth'')
             else case displayControlActor cfg c of
               None \<Rightarrow> Inl (403, DError ''display control requires admin-token or org-token auth'')
             | Some who \<Rightarrow> Inr (who, force))"

text \<open>Statement 0 is the delete, 1 its row count, 2 the load of the current lease.\<close>

definition ReleaseDisplayControl ::
  "display_config \<Rightarrow> display_env \<Rightarrow> releaseDisplayControlRequest body \<Rightarrow> caller \<Rightarrow> uuid \<Rightarrow>
   display_state \<Rightarrow> display_state \<times> display_resp" where
  "ReleaseDisplayControl cfg env body c ws s =
     (case release_checks cfg body c of
        Inl resp \<Rightarrow> (s, resp)
      | Inr (who, force) \<Rightarrow>
          let s1 = emitDisplayControlEvent (de_event_flt env 0) ''display.control.release.started'' ws
                [(''controlled_by'', JStr who), (''force'', JBool force)] s;
              failed = (\<lambda>err. emitDisplayControlEvent (de_event_flt env 1) ''display.control.release.failed'' ws
                [(''controlled_by'', JStr who), (''duration_ms'', JNum (de_ms env)), (''error'', JStr err),
                 (''force'', JBool force)]);
              completed = (\<lambda>n. emitDisplayControlEvent (de_event_flt env 1) ''display.control.release.completed'' ws
                [(''controlled_by'', JStr who), (''duration_ms'', JNum (de_ms env)), (''force'', JBool force),
                 (''rows_affected'', JNum (int n))])
          in if de_flt env 0 then
               (failed (de_error env) s1, (500, DError ''failed to release display control''))
             else case delete_lock ws who force (ds_locks s1) of (locks, n) \<Rightarrow>
               (let s2 = s1\<lparr>ds_locks := locks\<rparr>
                in if de_flt env 1 then
                     (failed (de_error env) s2, (500, DError ''failed to release display control''))
                   else if n = 0 then
                     (case loadActiveDisplayControl (de_flt env 2) (de_now env 2) s2 ws of
                        Inl _ \<Rightarrow> (failed (de_error env) s2, (500, DError ''failed to load display control''))
                      | Inr None \<Rightarrow> (completed n s2, (200, DNone))
                      | Inr (Some current) \<Rightarrow>
                          (failed ''display control held by another caller'' s2,
                           (409, DCurrent ''display control held by another caller'' (Some current))))
                   else (completed n s2, (200, DNone))))"

section \<open>The session route\<close>

definition displaySessionTokenProtocolPrefix :: string where
  "displaySessionTokenProtocolPrefix = ''molecule-display-token.''"

fun find_token :: "string list \<Rightarrow> string" where
  "find_token [] = []"
| "find_token (part # parts) =
     (let protocol = TrimSpace part
      in if has_prefix displaySessionTokenProtocolPrefix protocol
         then drop (length displaySessionTokenProtocolPrefix) protocol else find_token parts)"

definition displaySessionTokenFromRequest :: "string \<Rightarrow> string" where
  "displaySessionTokenFromRequest header = find_token (split_on (CHR '','') header)"

text \<open>The configuration and the instance of the session's target.\<close>

definition loadWorkspaceDisplaySessionTarget ::
  "compute_lookup \<Rightarrow> bool + WorkspaceComputeDisplay \<times> string" where
  "loadWorkspaceDisplaySessionTarget row =
     (case row of
        Inl _ \<Rightarrow> Inl False
      | Inr None \<Rightarrow> Inl True
      | Inr (Some r) \<Rightarrow>
          (case stored_display r of
             None \<Rightarrow> Inl False
           | Some d \<Rightarrow> Inr (d, case cr_instance_id r of None \<Rightarrow> [] | Some i \<Rightarrow> i)))"

text \<open>\<open>Forward i\<close>: the request is proxied to instance \<open>i\<close>.\<close>

datatype session_result = Refuse int string | Forward string

definition DisplaySession ::
  "display_config \<Rightarrow> display_env \<Rightarrow> compute_lookup \<Rightarrow> string \<Rightarrow> string \<Rightarrow> uuid \<Rightarrow> display_state \<Rightarrow>
   session_result" where
  "DisplaySession cfg env row proxyPath protocols ws s =
     (case loadWorkspaceDisplaySessionTarget row of
        Inl missing \<Rightarrow>
          if missing then Refuse 404 ''workspace not found'' else Refuse 500 ''failed to load display session''
      | Inr (display, instanceID) \<Rightarrow>
          if dp_Mode display = [] \<or> dp_Mode display = ''none'' then Refuse 404 ''display not enabled''
          else if instanceID = [] then Refuse 503 ''display session unavailable''
          else if proxyPath \<noteq> ''/websockify'' then Refuse 404 ''display session path not found''
          else case loadActiveDisplayControl (de_flt env 0) (de_now env 0) s ws of
                 Inl _ \<Rightarrow> Refuse 500 ''failed to load display control''
               | Inr None \<Rightarrow> Refuse 403 ''display control required''
               | Inr (Some lk) \<Rightarrow>
                   if validateDisplaySessionToken cfg (de_clock env) (displaySessionTokenFromRequest protocols)
                        ws (lk_controlled_by lk) (lk_expires_at lk)
                   then Forward instanceID else Refuse 403 ''display control required'')"

end
