(* ===== verification/Display_Props.thy ===== *)
theory Display_Props
  imports Display_Control
begin

text \<open>
  Properties of the display lease: the encoder of session tokens, the refinement of the routes
  to an abstract lease, what may end a live lease, and who gets a session.
\<close>

section \<open>Base64\<close>

lemma index_of_nth: "distinct xs \<Longrightarrow> n < length xs \<Longrightarrow> index_of (xs ! n) xs = Some n"
proof (induction xs arbitrary: n)
  case (Cons x xs)
  then show ?case by (cases n) (auto dest: nth_mem)
qed simp

lemma b64_alphabet_facts:
  "distinct b64_alphabet" "length b64_alphabet = 64"
  "CHR 0x0A \<notin> set b64_alphabet" "CHR 0x0D \<notin> set b64_alphabet" "CHR ''.'' \<notin> set b64_alphabet"
  "CHR '','' \<notin> set b64_alphabet"
  by (simp_all add: b64_alphabet_def)

lemma b64_char_in: "n < 64 \<Longrightarrow> b64_char n \<in> set b64_alphabet"
  by (simp add: b64_char_def b64_alphabet_facts)

lemma b64_vals_char: "n < 64 \<Longrightarrow> b64_vals (b64_char n # s) = map_option ((#) n) (b64_vals s)"
proof -
  assume n: "n < 64"
  have "b64_val (b64_char n) = Some n"
    using index_of_nth [OF b64_alphabet_facts(1), of n] n by (simp add: b64_val_def b64_char_def b64_alphabet_facts)
  moreover have "b64_char n \<noteq> CHR 0x0A" "b64_char n \<noteq> CHR 0x0D"
    using b64_char_in [OF n] b64_alphabet_facts by metis+
  ultimately show ?thesis by simp
qed

lemma byte_bound: "byte c < 256"
  by (simp add: byte_def)

lemma byte_parts:
  "byte a div 4 < 64" "byte a mod 4 * 16 < 64" "byte a mod 4 * 16 + byte b div 16 < 64"
  "byte b mod 16 * 4 < 64" "byte b mod 16 * 4 + byte c div 64 < 64" "byte c mod 64 < 64"
  using byte_bound [of a] byte_bound [of b] byte_bound [of c] by (auto simp: less_mult_imp_div_less)

lemma char_of_byte [simp]: "char_of (byte c) = c"
  by (simp add: byte_def)

text \<open>Splitting a byte over two digits and putting it together again.\<close>

lemma rejoin:
  "byte1 (byte a div 4) (byte a mod 4 * 16 + byte b div 16) = a"
  "byte2 (k * 16 + byte b div 16) (byte b mod 16 * 4 + byte c div 64) = b"
  "byte3 (k * 4 + byte c div 64) (byte c mod 64) = c"
  "byte1 (byte a div 4) (byte a mod 4 * 16) = a"
  "byte2 (k * 16 + byte b div 16) (byte b mod 16 * 4) = b"
proof -
  have B: "byte b div 16 < 16" "byte c div 64 < 4" using byte_bound [of b] byte_bound [of c] by (auto simp: less_mult_imp_div_less)
  have "byte a div 4 * 4 + (byte a mod 4 * 16 + byte b div 16) div 16 = byte a" using B by simp
  then show "byte1 (byte a div 4) (byte a mod 4 * 16 + byte b div 16) = a" by (simp add: byte1_def)
  have "(k * 16 + byte b div 16) mod 16 * 16 + (byte b mod 16 * 4 + byte c div 64) div 4 = byte b" using B by simp
  then show "byte2 (k * 16 + byte b div 16) (byte b mod 16 * 4 + byte c div 64) = b" by (simp add: byte2_def)
  have "(k * 4 + byte c div 64) mod 4 * 64 + byte c mod 64 = byte c" using B by simp
  then show "byte3 (k * 4 + byte c div 64) (byte c mod 64) = c" by (simp add: byte3_def)
  show "byte1 (byte a div 4) (byte a mod 4 * 16) = a" by (simp add: byte1_def)
  have "(k * 16 + byte b div 16) mod 16 * 16 + byte b mod 16 * 4 div 4 = byte b" using B by simp
  then show "byte2 (k * 16 + byte b div 16) (byte b mod 16 * 4) = b" by (simp add: byte2_def)
qed

lemma b64_encode_vals: "\<exists>vs. b64_vals (b64_encode s) = Some vs \<and> b64_quanta vs = Some s"
proof (induction s rule: b64_encode.induct)
  case (4 a b c s)
  then obtain vs where "b64_vals (b64_encode s) = Some vs" "b64_quanta vs = Some s" by blast
  then show ?case by (simp add: b64_vals_char byte_parts rejoin del: b64_vals.simps(2))
qed (simp_all add: b64_vals_char byte_parts rejoin del: b64_vals.simps(2))

lemma b64_decode_encode: "b64_decode (b64_encode s) = Some s"
  using b64_encode_vals [of s] by (auto simp: b64_decode_def)

lemma b64_encode_alphabet: "set (b64_encode s) \<subseteq> set b64_alphabet"
  by (induction s rule: b64_encode.induct) (auto simp: byte_parts intro!: b64_char_in)

section \<open>Tokens\<close>

lemma show_nat_digits: "set (show_nat n) \<subseteq> set ''0123456789''"
proof (induction n rule: show_nat.induct)
  case (1 n)
  have "list_all (\<lambda>k :: nat. List.member ''0123456789'' (char_of (48 + k))) [0..<10]" by code_simp
  then have d: "char_of (48 + k) \<in> set ''0123456789''" if "k < 10" for k :: nat
    using that unfolding list_all_iff by auto
  show ?case
  proof (cases "n < 10")
    case True
    then show ?thesis using d [of n] by (simp add: show_nat.simps [of n])
  next
    case False
    then show ?thesis using 1 d [of "n mod 10"] by (simp add: show_nat.simps [of n])
  qed
qed

lemma show_int_no_bar: "CHR ''|'' \<notin> set (show_int i)"
proof -
  have "CHR ''|'' \<notin> set ''0123456789''" by simp
  then have "CHR ''|'' \<notin> set (show_nat n)" for n using show_nat_digits by blast
  then show ?thesis by (simp add: show_int_def)
qed

lemma show_nat_inj: "show_nat m = show_nat n \<Longrightarrow> m = n"
  by (metis parse_show_nat option.inject of_nat_eq_iff)

lemma show_int_inj: "show_int i = show_int j \<Longrightarrow> i = j"
proof -
  have "CHR ''-'' \<notin> set ''0123456789''" by simp
  then have "CHR ''-'' \<notin> set (show_nat n)" for n using show_nat_digits by blast
  then have m: "show_nat n \<noteq> CHR ''-'' # s" for n s by (metis list.set_intros(1))
  assume eq: "show_int i = show_int j"
  show "i = j"
  proof (cases "i < 0 \<longleftrightarrow> j < 0")
    case True
    show ?thesis
    proof (cases "i < 0")
      case neg: True
      then have "show_nat (nat (- i)) = show_nat (nat (- j))" using eq True by (simp add: show_int_def)
      from show_nat_inj [OF this] neg True show ?thesis by linarith
    next
      case pos: False
      then have "show_nat (nat i) = show_nat (nat j)" using eq True by (simp add: show_int_def)
      from show_nat_inj [OF this] pos True show ?thesis by linarith
    qed
  next
    case False
    then consider "i < 0" "\<not> j < 0" | "\<not> i < 0" "j < 0" by blast
    then have False
    proof cases
      case 1
      then show ?thesis using eq m [of "nat j" "show_nat (nat (- i))"] by (simp add: show_int_def)
    next
      case 2
      then show ?thesis using eq m [of "nat i" "show_nat (nat (- j))"] by (simp add: show_int_def)
    qed
    then show ?thesis ..
  qed
qed

lemma last_bar_unique:
  assumes "a @ CHR ''|'' # u = b @ CHR ''|'' # v" "CHR ''|'' \<notin> set u" "CHR ''|'' \<notin> set v"
  shows "a = b \<and> u = v"
  using assms by (auto simp: append_eq_append_conv2 Cons_eq_append_conv append_eq_Cons_conv)

lemma token_payload_inj:
  assumes "token_payload ws a e = token_payload ws b f"
  shows "a = b \<and> unix e = unix f"
proof -
  have "a @ CHR ''|'' # show_int (unix e) = b @ CHR ''|'' # show_int (unix f)"
    using assms by (simp add: token_payload_def)
  from last_bar_unique [OF this show_int_no_bar show_int_no_bar] show ?thesis using show_int_inj by blast
qed

lemma split_two_parts:
  "CHR ''.'' \<notin> set p \<Longrightarrow> CHR ''.'' \<notin> set q \<Longrightarrow> split_on (CHR ''.'') (p @ CHR ''.'' # q) = [p, q]"
  by (simp add: split_on_append split_on_none)

lemma b64_no_dot: "CHR ''.'' \<notin> set (b64_encode s)"
  using b64_encode_alphabet [of s] b64_alphabet_facts by blast

lemma signed_token_valid_iff:
  assumes "dc_SIGNING_SECRET cfg \<noteq> []" "ws \<noteq> []" "a \<noteq> []" "e \<noteq> zero_time"
  shows "validateDisplaySessionToken cfg now (signDisplaySessionToken cfg ws a e) ws b f \<longleftrightarrow>
    b \<noteq> [] \<and> f \<noteq> zero_time \<and> now \<le> f \<and> a = b \<and> unix e = unix f"
proof -
  have "token_payload ws a e = token_payload ws b f \<longleftrightarrow> a = b \<and> unix e = unix f"
    using token_payload_inj by (auto simp: token_payload_def)
  then show ?thesis
    using assms
    by (simp add: validateDisplaySessionToken_def signDisplaySessionToken_def Let_def
        split_two_parts b64_no_dot b64_decode_encode not_less conj_ac)
qed

section \<open>The routes refine a lease\<close>

text \<open>
  The specification: at most one holder per workspace, with the end of its lease. \<open>Take\<close> at time
  \<open>t\<close> is granted unless another holder's lease runs beyond \<open>t\<close>; \<open>Give\<close> ends the lease of its caller, or
  anyone's when forced; a lease that has ended is forgotten.
\<close>

type_synonym lease = "uuid \<Rightarrow> (string \<times> instant) option"

datatype lease_op =
    Take uuid string int instant
  | Give uuid string bool instant
  | Tick instant

datatype lease_out = Granted string instant | NotGranted

definition expire :: "instant \<Rightarrow> lease \<Rightarrow> lease" where
  "expire t l = (\<lambda>ws. case l ws of Some (h, u) \<Rightarrow> if t < u then Some (h, u) else None | None \<Rightarrow> None)"

fun lease_step :: "lease \<Rightarrow> lease_op \<Rightarrow> lease \<times> lease_out" where
  "lease_step l (Take ws who ttl t) =
     (case expire t l ws of
        Some (h, u) \<Rightarrow>
          if h \<noteq> who then (expire t l, NotGranted)
          else ((expire t l)(ws := Some (who, t + ttl * second)), Granted who (t + ttl * second))
      | None \<Rightarrow> ((expire t l)(ws := Some (who, t + ttl * second)), Granted who (t + ttl * second)))"
| "lease_step l (Give ws who force t) =
     (case expire t l ws of
        Some (h, u) \<Rightarrow> if force \<or> h = who then ((expire t l)(ws := None), NotGranted) else (expire t l, NotGranted)
      | None \<Rightarrow> (expire t l, NotGranted))"
| "lease_step l (Tick t) = (expire t l, NotGranted)"

text \<open>Requests to the control routes, and the lease operation each one amounts to.\<close>

datatype display_op =
    OpAcquire display_env compute_lookup "acquireDisplayControlRequest body" caller uuid
  | OpRelease display_env "releaseDisplayControlRequest body" caller uuid

fun op_env :: "display_op \<Rightarrow> display_env" where
  "op_env (OpAcquire env row b c ws) = env"
| "op_env (OpRelease env b c ws) = env"

fun op_caller :: "display_op \<Rightarrow> caller" where
  "op_caller (OpAcquire env row b c ws) = c"
| "op_caller (OpRelease env b c ws) = c"

definition display_time :: "display_op \<Rightarrow> instant" where
  "display_time op = de_now (op_env op) 0"

fun lease_op_of :: "display_config \<Rightarrow> display_op \<Rightarrow> lease_op" where
  "lease_op_of cfg (OpAcquire env row b c ws) =
     (case acquire_checks cfg row b c of
        Inr (controller, who, ttl) \<Rightarrow>
          if de_flt env 0 \<or> \<not> actor_storable who then Tick (de_now env 0) else Take ws who ttl (de_now env 0)
      | Inl _ \<Rightarrow> Tick (de_now env 0))"
| "lease_op_of cfg (OpRelease env b c ws) =
     (case release_checks cfg b c of
        Inr (who, force) \<Rightarrow> if de_flt env 0 then Tick (de_now env 0) else Give ws who force (de_now env 0)
      | Inl _ \<Rightarrow> Tick (de_now env 0))"

fun observe :: "display_resp \<Rightarrow> lease_out" where
  "observe (code, DLock lk url) = (if code = 200 then Granted (lk_controlled_by lk) (lk_expires_at lk) else NotGranted)"
| "observe (code, b) = NotGranted"

fun display_call :: "display_config \<Rightarrow> display_state \<Rightarrow> display_op \<Rightarrow> display_state \<times> display_resp" where
  "display_call cfg s (OpAcquire env row b c ws) = AcquireDisplayControl cfg env row b c ws s"
| "display_call cfg s (OpRelease env b c ws) = ReleaseDisplayControl cfg env b c ws s"

definition display_step :: "display_config \<Rightarrow> display_state \<Rightarrow> display_op \<Rightarrow> display_state \<times> lease_out" where
  "display_step cfg s op = (let (s', resp) = display_call cfg s op in (s', observe resp))"

definition lease_call :: "display_config \<Rightarrow> lease \<Rightarrow> display_op \<Rightarrow> lease \<times> lease_out" where
  "lease_call cfg l op = lease_step l (lease_op_of cfg op)"

definition live :: "instant \<Rightarrow> (uuid \<Rightarrow> dc_lock option) \<Rightarrow> lease" where
  "live t locks = (\<lambda>ws. case locks ws of
     Some lk \<Rightarrow> if t < lk_expires_at lk then Some (lk_controlled_by lk, lk_expires_at lk) else None | None \<Rightarrow> None)"

abbreviation active :: "instant \<Rightarrow> display_state \<Rightarrow> lease" where
  "active t s \<equiv> live t (ds_locks s)"

lemma emit_locks [simp]: "ds_locks (emitDisplayControlEvent f e ws p s) = ds_locks s"
  by (simp add: emitDisplayControlEvent_def)

lemma expire_live: "t \<le> t' \<Longrightarrow> expire t' (live t locks) = live t' locks"
  by (rule ext) (auto simp: expire_def live_def split: option.splits)

lemma live_upd:
  "live t (locks(ws := x)) =
    (live t locks)(ws := case x of
       Some lk \<Rightarrow> if t < lk_expires_at lk then Some (lk_controlled_by lk, lk_expires_at lk) else None | None \<Rightarrow> None)"
  by (simp add: live_def fun_eq_iff)

lemma live_apply:
  "live t locks ws = (case locks ws of
     Some lk \<Rightarrow> if t < lk_expires_at lk then Some (lk_controlled_by lk, lk_expires_at lk) else None | None \<Rightarrow> None)"
  by (simp add: live_def)

lemma live_None: "live t locks ws = None \<Longrightarrow> (live t locks)(ws := None) = live t locks"
  by (simp add: fun_eq_iff)

text \<open>The two statements on the table are the two lease operations.\<close>

lemma upsert_is_take:
  assumes "t0 \<le> t" "0 < ttl"
  shows "lease_step (live t0 locks) (Take ws who ttl t) =
    (live t (fst (upsert_lock t ws controller who ttl locks)),
     case snd (upsert_lock t ws controller who ttl locks) of
       None \<Rightarrow> NotGranted | Some lk \<Rightarrow> Granted (lk_controlled_by lk) (lk_expires_at lk))"
proof -
  have "0 < ttl * second" using assms(2) by (simp add: second_def)
  then show ?thesis
    by (cases "locks ws") (auto simp: expire_live [OF assms(1)] upsert_lock_def Let_def live_upd live_apply)
qed

lemma delete_is_give:
  assumes "t0 \<le> t"
  shows "lease_step (live t0 locks) (Give ws who force t) =
    (live t (fst (delete_lock ws who force locks)), NotGranted)"
  by (cases "locks ws") (auto simp: expire_live [OF assms] delete_lock_def live_upd live_apply live_None)

text \<open>The lock row after each handler, and what its response grants.\<close>

lemma checks_reject:
  assumes "acquire_checks cfg row b c = Inl resp \<or> release_checks cfg rb c = Inl resp"
  shows "observe resp = NotGranted"
proof -
  have en: "displayControlEnabled row = Some resp \<Longrightarrow> observe resp = NotGranted"
    by (auto simp: displayControlEnabled_def split: sum.splits option.splits if_splits)
  have "acquire_checks cfg row b c = Inl resp \<Longrightarrow> observe resp = NotGranted"
    using en by (cases b) (auto simp: acquire_checks_def Let_def split: option.splits if_splits)
  moreover have "release_checks cfg rb c = Inl resp \<Longrightarrow> observe resp = NotGranted"
    by (cases rb) (auto simp: release_checks_def Let_def split: option.splits if_splits)
  ultimately show ?thesis using assms by blast
qed

lemma acquire_cases:
  shows "AcquireDisplayControl cfg env row b c ws s = (s', resp) \<Longrightarrow>
    ds_locks s' =
     (case acquire_checks cfg row b c of
        Inl _ \<Rightarrow> ds_locks s
      | Inr (controller, who, ttl) \<Rightarrow>
          if de_flt env 0 \<or> \<not> actor_storable who then ds_locks s
          else fst (upsert_lock (de_now env 0) ws controller who ttl (ds_locks s))) \<and>
    observe resp =
     (case acquire_checks cfg row b c of
        Inl _ \<Rightarrow> NotGranted
      | Inr (controller, who, ttl) \<Rightarrow>
          if de_flt env 0 \<or> \<not> actor_storable who then NotGranted
          else case snd (upsert_lock (de_now env 0) ws controller who ttl (ds_locks s)) of
                 None \<Rightarrow> NotGranted
               | Some lk \<Rightarrow> Granted (lk_controlled_by lk) (lk_expires_at lk))"
proof (cases "acquire_checks cfg row b c")
  case (Inl r)
  then show "AcquireDisplayControl cfg env row b c ws s = (s', resp) \<Longrightarrow> ?thesis"
    using checks_reject [OF disjI1, OF Inl] by (auto simp: AcquireDisplayControl_def)
next
  case (Inr x)
  obtain controller who ttl where x: "x = (controller, who, ttl)" by (cases x)
  obtain locks r where u: "upsert_lock (de_now env 0) ws controller who ttl (ds_locks s) = (locks, r)" by force
  have "r = None \<Longrightarrow> locks = ds_locks s" using u by (auto simp: upsert_lock_def Let_def split: option.splits if_splits)
  then show "AcquireDisplayControl cfg env row b c ws s = (s', resp) \<Longrightarrow> ?thesis"
    using Inr x u
    by (cases "de_flt env 0 \<or> \<not> actor_storable who"; cases r)
      (auto simp: AcquireDisplayControl_def Let_def split: sum.splits)
qed

lemma acquire_effect:
  "ds_locks (fst (AcquireDisplayControl cfg env row b c ws s)) =
     (case acquire_checks cfg row b c of
        Inl _ \<Rightarrow> ds_locks s
      | Inr (controller, who, ttl) \<Rightarrow>
          if de_flt env 0 \<or> \<not> actor_storable who then ds_locks s
          else fst (upsert_lock (de_now env 0) ws controller who ttl (ds_locks s)))"
  "observe (snd (AcquireDisplayControl cfg env row b c ws s)) =
     (case acquire_checks cfg row b c of
        Inl _ \<Rightarrow> NotGranted
      | Inr (controller, who, ttl) \<Rightarrow>
          if de_flt env 0 \<or> \<not> actor_storable who then NotGranted
          else case snd (upsert_lock (de_now env 0) ws controller who ttl (ds_locks s)) of
                 None \<Rightarrow> NotGranted
               | Some lk \<Rightarrow> Granted (lk_controlled_by lk) (lk_expires_at lk))"
  using acquire_cases [OF surjective_pairing] by blast+

lemma release_effect:
  "ds_locks (fst (ReleaseDisplayControl cfg env b c ws s)) =
     (case release_checks cfg b c of
        Inl _ \<Rightarrow> ds_locks s
      | Inr (who, force) \<Rightarrow>
          if de_flt env 0 then ds_locks s else fst (delete_lock ws who force (ds_locks s)))"
  "observe (snd (ReleaseDisplayControl cfg env b c ws s)) = NotGranted"
proof -
  have "ds_locks (fst (ReleaseDisplayControl cfg env b c ws s)) =
     (case release_checks cfg b c of
        Inl _ \<Rightarrow> ds_locks s
      | Inr (who, force) \<Rightarrow>
          if de_flt env 0 then ds_locks s else fst (delete_lock ws who force (ds_locks s))) \<and>
    observe (snd (ReleaseDisplayControl cfg env b c ws s)) = NotGranted"
  proof (cases "release_checks cfg b c")
    case (Inl r)
    then show ?thesis using checks_reject [OF disjI2, OF Inl] by (auto simp: ReleaseDisplayControl_def)
  next
    case (Inr x)
    obtain who force where x: "x = (who, force)" by (cases x)
    obtain locks n where d: "delete_lock ws who force (ds_locks s) = (locks, n)" by force
    show ?thesis
      using Inr x d
      by (cases "de_flt env 0"; cases "de_flt env 1"; cases "n = 0")
        (auto simp: ReleaseDisplayControl_def Let_def split: sum.split option.split)
  qed
  then show "ds_locks (fst (ReleaseDisplayControl cfg env b c ws s)) =
     (case release_checks cfg b c of
        Inl _ \<Rightarrow> ds_locks s
      | Inr (who, force) \<Rightarrow>
          if de_flt env 0 then ds_locks s else fst (delete_lock ws who force (ds_locks s)))"
    "observe (snd (ReleaseDisplayControl cfg env b c ws s)) = NotGranted" by blast+
qed

lemma acquire_ttl_pos: "acquire_checks cfg row b c = Inr (controller, who, ttl) \<Longrightarrow> 0 < ttl"
  by (auto simp: acquire_checks_def Let_def displayControlMinTTLSeconds_def split: body.splits if_splits option.splits)

lemma acquire_refines:
  assumes "t \<le> de_now env 0"
  shows "lease_call cfg (active t s) (OpAcquire env row b c ws) =
    (active (de_now env 0) (fst (AcquireDisplayControl cfg env row b c ws s)),
     observe (snd (AcquireDisplayControl cfg env row b c ws s)))"
proof (cases "acquire_checks cfg row b c")
  case (Inl resp)
  then show ?thesis using assms by (simp add: lease_call_def acquire_effect expire_live)
next
  case (Inr x)
  obtain controller who ttl where x: "x = (controller, who, ttl)" by (cases x)
  show ?thesis
    using assms Inr x upsert_is_take [OF assms acquire_ttl_pos [OF Inr [unfolded x]], of "ds_locks s" ws who controller]
    by (simp add: lease_call_def acquire_effect expire_live)
qed

lemma release_refines:
  assumes "t \<le> de_now env 0"
  shows "lease_call cfg (active t s) (OpRelease env b c ws) =
    (active (de_now env 0) (fst (ReleaseDisplayControl cfg env b c ws s)),
     observe (snd (ReleaseDisplayControl cfg env b c ws s)))"
  using delete_is_give [OF assms, of "ds_locks s" ws] assms
  by (simp add: lease_call_def release_effect expire_live split: sum.split prod.split)

interpretation lease_sim: timed_simulation "display_step cfg" "lease_call cfg" display_time "\<lambda>t s l. l = active t s"
  for cfg
proof
  fix t s l op
  assume "l = active t s" "t \<le> display_time op"
  then have "lease_call cfg l op = (active (display_time op) (fst (display_step cfg s op)), snd (display_step cfg s op))"
    by (cases op) (simp_all add: display_time_def acquire_refines release_refines display_step_def case_prod_beta)
  then show "snd (display_step cfg s op) = snd (lease_call cfg l op)"
    and "fst (lease_call cfg l op) = active (display_time op) (fst (display_step cfg s op))"
    by simp_all
qed

section \<open>Properties\<close>

definition no_display :: display_state where
  "no_display = \<lparr>ds_locks = (\<lambda>_. None), ds_log = []\<rparr>"

text \<open>C14: The control routes implement the abstract lease. For every sequence of acquire and
  release requests in the order of the database clock, with any faults, callers and bodies, the
  requests that are granted, to whom and until when, are those the lease grants; and at the end
  the rows that have not expired are the leases that run.\<close>

theorem display_control_refines_lease:
  assumes "clock_from display_time t0 ops"
  shows "snd (run_outputs (display_step cfg) no_display ops) = snd (run_outputs (lease_call cfg) Map.empty ops) \<and>
    live (last_time display_time t0 ops) (ds_locks (fst (run_outputs (display_step cfg) no_display ops))) =
      fst (run_outputs (lease_call cfg) Map.empty ops)"
proof -
  have "Map.empty = live t0 (ds_locks no_display)" by (simp add: live_def no_display_def)
  from lease_sim.sim_run [OF this assms] show ?thesis by simp
qed

text \<open>A lease that runs is protected: a request that changes the lock row of a workspace
  before it expires was made under the identity that holds it, or is a forced release that
  carries the admin token.\<close>

theorem display_lease_protected:
  assumes "ds_locks s ws = Some lk" "display_time op < lk_expires_at lk"
    "ds_locks (fst (display_call cfg s op)) ws \<noteq> Some lk"
  shows "displayControlActor cfg (op_caller op) = Some (lk_controlled_by lk) \<or>
    (\<exists>env b c. op = OpRelease env (Body b) c ws \<and> rq_Force b \<and> displayControlIsAdminToken cfg c)"
proof (cases op)
  case (OpAcquire env row b c ws')
  have act: "acquire_checks cfg row b c = Inr (ctl, who, ttl) \<Longrightarrow> displayControlActor cfg c = Some who" for ctl who ttl
    by (cases b) (auto simp: acquire_checks_def Let_def split: option.splits if_splits)
  show ?thesis
    using assms OpAcquire act
    by (auto simp: acquire_effect upsert_lock_def Let_def display_time_def split: sum.splits prod.splits if_splits option.splits)
next
  case (OpRelease env b c ws')
  have act: "displayControlActor cfg c = Some who \<and>
      (force \<longrightarrow> displayControlIsAdminToken cfg c \<and> (\<exists>r. b = Body r \<and> rq_Force r))"
    if "release_checks cfg b c = Inr (who, force)" for who force
    using that by (cases b) (auto simp: release_checks_def Let_def split: option.splits if_splits)
  obtain who force where rc: "release_checks cfg b c = Inr (who, force)"
    using assms OpRelease by (auto simp: release_effect split: sum.splits)
  then show ?thesis
    using assms OpRelease act [OF rc]
    by (auto simp: release_effect delete_lock_def split: if_splits option.splits)
qed

text \<open>A session is opened only under the lease that runs: the request is forwarded only to the
  workspace's own instance and while an unexpired row exists; and a token minted for a holder and
  an end of lease opens it exactly when that holder still has the lease with that end (to the
  second), the lease has not expired on the server's clock either, and the display is enabled.\<close>

theorem display_session_requires_lease:
  assumes "dc_SIGNING_SECRET cfg \<noteq> []" "ws \<noteq> []" "a \<noteq> []" "e \<noteq> zero_time"
    and "displaySessionTokenFromRequest hdr = signDisplaySessionToken cfg ws a e"
  shows "DisplaySession cfg env row path hdr ws s = Forward i \<longleftrightarrow>
    (\<exists>d lk. loadWorkspaceDisplaySessionTarget row = Inr (d, i) \<and> i \<noteq> [] \<and> dp_Mode d \<notin> {[], ''none''} \<and>
       path = ''/websockify'' \<and> \<not> de_flt env 0 \<and> ds_locks s ws = Some lk \<and> de_now env 0 < lk_expires_at lk \<and>
       de_clock env \<le> lk_expires_at lk \<and> lk_expires_at lk \<noteq> zero_time \<and>
       lk_controlled_by lk = a \<and> unix (lk_expires_at lk) = unix e)"
proof -
  note v = signed_token_valid_iff [OF assms(1-4)]
  show ?thesis
  proof (cases "loadActiveDisplayControl (de_flt env 0) (de_now env 0) s ws")
    case (Inl u)
    then show ?thesis
      by (auto simp: DisplaySession_def loadActiveDisplayControl_def split: sum.splits prod.splits if_splits)
  next
    case (Inr r)
    have r: "\<not> de_flt env 0" "r = (case ds_locks s ws of None \<Rightarrow> None | Some lk \<Rightarrow> if de_now env 0 < lk_expires_at lk then Some lk else None)"
      using Inr by (simp_all add: loadActiveDisplayControl_def split: if_splits)
    then show ?thesis
      using Inr assms(3) unfolding DisplaySession_def assms(5)
      by (cases r) (auto simp: v split: sum.splits prod.splits option.splits if_splits)
  qed
qed

section \<open>Witnesses\<close>

definition demo_dcfg :: display_config where
  "demo_dcfg = \<lparr>dc_ADMIN_TOKEN = ''root'', dc_SIGNING_SECRET = ''key'', dc_hmac = (\<lambda>k m. rev m @ k)\<rparr>"

definition demo_row :: compute_lookup where
  "demo_row = Inr (Some \<lparr>cr_compute = Some (workspaceComputeJSON demo_compute), cr_instance_id = Some ''i-7'',
     cr_template = None\<rparr>)"

definition demo_denv :: "int \<Rightarrow> display_env" where
  "demo_denv t = \<lparr>de_now = (\<lambda>_. t * second), de_clock = t * second, de_flt = (\<lambda>_. False), de_event_flt = (\<lambda>_. False),
     de_error = [], de_ms = 1\<rparr>"

definition org_caller :: "string \<Rightarrow> caller" where
  "org_caller p = \<lparr>ca_org_token_prefix = Some p, ca_cp_session_actor = None, ca_Authorization = []\<rparr>"

definition admin_caller :: caller where
  "admin_caller = \<lparr>ca_org_token_prefix = None, ca_cp_session_actor = None, ca_Authorization = ''Bearer root''\<rparr>"

definition demo_display_ops :: "display_op list" where
  "demo_display_ops =
    [OpAcquire (demo_denv 10) demo_row NoBody (org_caller ''aa'') ''w1'',
     OpAcquire (demo_denv 20) demo_row NoBody (org_caller ''bb'') ''w1'',
     OpRelease (demo_denv 30) (Body \<lparr>rq_Force = True\<rparr>) admin_caller ''w1'',
     OpAcquire (demo_denv 40) demo_row NoBody (org_caller ''bb'') ''w1'']"

theorem display_control_refines_lease_witness:
  "snd (run_outputs (display_step demo_dcfg) no_display demo_display_ops) =
    [Granted ''org-token:aa'' (310 * second), NotGranted, NotGranted, Granted ''org-token:bb'' (340 * second)]"
proof -
  have "clock_from display_time 0 demo_display_ops" by code_simp
  moreover have "snd (run_outputs (lease_call demo_dcfg) Map.empty demo_display_ops) =
    [Granted ''org-token:aa'' (310 * second), NotGranted, NotGranted, Granted ''org-token:bb'' (340 * second)]"
    by code_simp
  ultimately show ?thesis using display_control_refines_lease [of 0 demo_display_ops demo_dcfg] by simp
qed

definition demo_held :: display_state where
  "demo_held = fst (run_outputs (display_step demo_dcfg) no_display (take 1 demo_display_ops))"

definition demo_lock :: dc_lock where
  "demo_lock = \<lparr>lk_controller = ''user'', lk_controlled_by = ''org-token:aa'', lk_expires_at = 310 * second\<rparr>"

lemma demo_held_lock: "ds_locks demo_held ''w1'' = Some demo_lock"
  by code_simp

theorem display_lease_protected_witness:
  "ds_locks (fst (display_call demo_dcfg demo_held (OpAcquire (demo_denv 20) demo_row NoBody (org_caller ''bb'') ''w1''))) ''w1'' =
    Some demo_lock"
proof -
  let ?op = "OpAcquire (demo_denv 20) demo_row NoBody (org_caller ''bb'') ''w1''"
  have "display_time ?op < lk_expires_at demo_lock" by code_simp
  moreover have "displayControlActor demo_dcfg (op_caller ?op) \<noteq> Some (lk_controlled_by demo_lock)" by code_simp
  ultimately show ?thesis using display_lease_protected [OF demo_held_lock, of ?op demo_dcfg] by auto
qed

theorem display_session_requires_lease_witness:
  "DisplaySession demo_dcfg (demo_denv 50) demo_row ''/websockify''
     (''binary, '' @ displaySessionTokenProtocolPrefix @ signDisplaySessionToken demo_dcfg ''w1'' ''org-token:aa'' (310 * second))
     ''w1'' demo_held = Forward ''i-7''"
proof -
  let ?tok = "signDisplaySessionToken demo_dcfg ''w1'' ''org-token:aa'' (310 * second)"
  have tok: "displaySessionTokenFromRequest (''binary, '' @ displaySessionTokenProtocolPrefix @ ?tok) = ?tok"
    by code_simp
  have row: "loadWorkspaceDisplaySessionTarget demo_row = Inr (wc_Display demo_compute, ''i-7'')" by code_simp
  have "dc_SIGNING_SECRET demo_dcfg \<noteq> []" "310 * second \<noteq> zero_time"
    by (simp_all add: demo_dcfg_def zero_time_def second_def)
  from display_session_requires_lease [OF this(1) _ _ this(2) tok, of "demo_denv 50" demo_row "''/websockify''" demo_held "''i-7''"]
  show ?thesis
    by (simp add: row demo_held_lock demo_lock_def demo_compute_def demo_denv_def second_def zero_time_def)
qed

end
