(* ===== verification/Rate_Limiter.thy ===== *)
theory Rate_Limiter
  imports Go_Std
begin

text \<open>
  \<^verbatim>\<open>internal/middleware/ratelimit.go\<close> and \<^verbatim>\<open>mcp_ratelimit.go\<close>: the two request limiters with
  their bucket maps, the key of a request and the periodic cleanup. Every definition on a limiter
  is one critical section of its mutex, with one reading of the clock. SHA-256 in hexadecimal is an
  argument. The properties bound what a caller gets through in any window of time.
\<close>

section \<open>Limiters\<close>

record bucket =
  b_tokens :: int
  b_lastReset :: instant

record RateLimiter =
  rl_buckets :: "string \<Rightarrow> bucket option"
  rl_rate :: int
  rl_interval :: duration

definition NewRateLimiter :: "int \<Rightarrow> duration \<Rightarrow> RateLimiter" where
  "NewRateLimiter rate interval = \<lparr>rl_buckets = (\<lambda>_. None), rl_rate = rate, rl_interval = interval\<rparr>"

text \<open>One pass of the cleanup goroutine.\<close>

definition rl_cleanup :: "instant \<Rightarrow> RateLimiter \<Rightarrow> RateLimiter" where
  "rl_cleanup now rl =
     (let cutoff = now - 10 * minute
      in rl\<lparr>rl_buckets := (\<lambda>k. case rl_buckets rl k of
           None \<Rightarrow> None | Some b \<Rightarrow> if b_lastReset b < cutoff then None else Some b)\<rparr>)"

section \<open>The key of a request\<close>

definition lower_ascii :: "char \<Rightarrow> char" where
  "lower_ascii c = (let n = (of_char c :: nat) in if 65 \<le> n \<and> n \<le> 90 then char_of (n + 32) else c)"

definition bearerFromHeader :: "string \<Rightarrow> string" where
  "bearerFromHeader authHeader =
     (let n = length ''Bearer ''
      in if n < length authHeader \<and> map lower_ascii (take n authHeader) = map lower_ascii ''Bearer ''
         then drop n authHeader else [])"

record request =
  rq_OrgId :: string
  rq_Authorization :: string
  rq_ClientIP :: string

definition keyFor :: "(string \<Rightarrow> string) \<Rightarrow> request \<Rightarrow> string" where
  "keyFor tokenKey r =
     (if TrimSpace (rq_OrgId r) \<noteq> [] then ''org:'' @ TrimSpace (rq_OrgId r)
      else if bearerFromHeader (rq_Authorization r) \<noteq> [] then
        ''tok:'' @ tokenKey (bearerFromHeader (rq_Authorization r))
      else ''ip:'' @ rq_ClientIP r)"

definition isLocalDevEnv :: "string \<Rightarrow> bool" where
  "isLocalDevEnv env = List.member [''development'', ''dev''] (map lower_ascii (TrimSpace env))"

section \<open>The middlewares\<close>

record rl_headers =
  hd_Limit :: int
  hd_Remaining :: int
  hd_Reset :: int

datatype rl_verdict = Unlimited | Unauthorized | Pass rl_headers | Throttled rl_headers

text \<open>\<^verbatim>\<open>int(d.Seconds())\<close>, at least zero.\<close>

definition reset_seconds :: "duration \<Rightarrow> int" where
  "reset_seconds d = (if d < 0 then 0 else d div second)"

text \<open>The section both middlewares run under the mutex.\<close>

definition current_bucket :: "RateLimiter \<Rightarrow> string \<Rightarrow> instant \<Rightarrow> bucket" where
  "current_bucket rl key now =
     (let b = (case rl_buckets rl key of
                 None \<Rightarrow> \<lparr>b_tokens = rl_rate rl, b_lastReset = now\<rparr> | Some b \<Rightarrow> b)
      in if rl_interval rl \<le> now - b_lastReset b
         then \<lparr>b_tokens = rl_rate rl, b_lastReset = now\<rparr> else b)"

definition take_token :: "RateLimiter \<Rightarrow> string \<Rightarrow> instant \<Rightarrow> RateLimiter \<times> rl_verdict" where
  "take_token rl key now =
     (let b = current_bucket rl key now;
          remaining = (if b_tokens b - 1 < 0 then 0 else b_tokens b - 1);
          headers = \<lparr>hd_Limit = rl_rate rl, hd_Remaining = remaining,
                     hd_Reset = reset_seconds (b_lastReset b + rl_interval rl - now)\<rparr>
      in if b_tokens b \<le> 0 then (rl\<lparr>rl_buckets := (rl_buckets rl)(key := Some b)\<rparr>, Throttled headers)
         else (rl\<lparr>rl_buckets := (rl_buckets rl)(key := Some (b\<lparr>b_tokens := b_tokens b - 1\<rparr>))\<rparr>, Pass headers))"

definition RateLimiter_Middleware ::
  "(string \<Rightarrow> string) \<Rightarrow> string \<Rightarrow> RateLimiter \<Rightarrow> request \<Rightarrow> instant \<Rightarrow> RateLimiter \<times> rl_verdict" where
  "RateLimiter_Middleware tokenKey env rl r now =
     (if isLocalDevEnv env then (rl, Unlimited) else take_token rl (keyFor tokenKey r) now)"

definition MCPRateLimiter_Middleware ::
  "(string \<Rightarrow> string) \<Rightarrow> RateLimiter \<Rightarrow> request \<Rightarrow> instant \<Rightarrow> RateLimiter \<times> rl_verdict" where
  "MCPRateLimiter_Middleware tokenKey rl r now =
     (let tok = bearerFromHeader (rq_Authorization r)
      in if tok = [] then (rl, Unauthorized) else take_token rl (tokenKey tok) now)"

section \<open>Runs\<close>

text \<open>Requests, by key, and cleanup passes, in the order of the clock.\<close>

datatype rl_op = RReq string instant | RCleanup instant

fun rl_time :: "rl_op \<Rightarrow> instant" where
  "rl_time (RReq k t) = t"
| "rl_time (RCleanup t) = t"

fun passes :: "rl_verdict \<Rightarrow> bool" where
  "passes (Pass h) = True"
| "passes v = False"

fun rl_step :: "RateLimiter \<Rightarrow> rl_op \<Rightarrow> RateLimiter \<times> bool" where
  "rl_step rl (RReq k t) = (let (rl', v) = take_token rl k t in (rl', passes v))"
| "rl_step rl (RCleanup t) = (rl_cleanup t rl, False)"

text \<open>The requests of a key that pass at a time in \<open>[T, T + I)\<close>.\<close>

fun admitted :: "RateLimiter \<Rightarrow> string \<Rightarrow> instant \<Rightarrow> duration \<Rightarrow> rl_op list \<Rightarrow> nat" where
  "admitted rl k T I [] = 0"
| "admitted rl k T I (op # ops) =
     (let (rl', p) = rl_step rl op
      in (if p \<and> op = RReq k (rl_time op) \<and> T \<le> rl_time op \<and> rl_time op < T + I then 1 else 0) +
         admitted rl' k T I ops)"

lemma rl_step_frame [simp]:
  "rl_rate (fst (rl_step rl op)) = rl_rate rl" "rl_interval (fst (rl_step rl op)) = rl_interval rl"
  by (cases op; simp add: take_token_def Let_def rl_cleanup_def)+

text \<open>What is left to a key, as a bound on the requests that can still pass in the window.\<close>

definition allowance :: "RateLimiter \<Rightarrow> string \<Rightarrow> instant \<Rightarrow> instant \<Rightarrow> int" where
  "allowance rl k T clk =
     (if T + rl_interval rl \<le> clk then 0
      else if clk < T then 2 * rl_rate rl
      else case rl_buckets rl k of
             None \<Rightarrow> rl_rate rl
           | Some b \<Rightarrow> if T \<le> b_lastReset b then b_tokens b else b_tokens b + rl_rate rl)"

definition rl_ok :: "RateLimiter \<Rightarrow> instant \<Rightarrow> bool" where
  "rl_ok rl clk \<longleftrightarrow> 0 \<le> rl_rate rl \<and> 0 < rl_interval rl \<and>
     (\<forall>k b. rl_buckets rl k = Some b \<longrightarrow> 0 \<le> b_tokens b \<and> b_tokens b \<le> rl_rate rl \<and> b_lastReset b \<le> clk)"

lemma rl_okD:
  assumes "rl_ok rl clk"
  shows "0 \<le> rl_rate rl" "0 < rl_interval rl"
    "rl_buckets rl k = Some b \<Longrightarrow> 0 \<le> b_tokens b \<and> b_tokens b \<le> rl_rate rl \<and> b_lastReset b \<le> clk"
  using assms unfolding rl_ok_def by blast+

lemma rl_ok_new: "0 \<le> rate \<Longrightarrow> 0 < interval \<Longrightarrow> rl_ok (NewRateLimiter rate interval) clk"
  by (simp add: rl_ok_def NewRateLimiter_def)

lemma current_bucket_ok:
  assumes "rl_ok rl clk" "clk \<le> t"
  shows "0 \<le> b_tokens (current_bucket rl k t) \<and> b_tokens (current_bucket rl k t) \<le> rl_rate rl \<and>
    b_lastReset (current_bucket rl k t) \<le> t"
  using rl_okD(1,2) [OF assms(1)] rl_okD(3) [OF assms(1), of k] assms(2)
  by (cases "rl_buckets rl k") (auto simp: current_bucket_def Let_def)

lemma rl_step_ok:
  assumes "rl_ok rl clk" "clk \<le> rl_time op"
  shows "rl_ok (fst (rl_step rl op)) (rl_time op)"
proof (cases op)
  case (RReq k t)
  have mono: "0 \<le> b_tokens b \<and> b_tokens b \<le> rl_rate rl \<and> b_lastReset b \<le> t" if "rl_buckets rl j = Some b" for j b
    using rl_okD(3) [OF assms(1) that] assms(2) RReq by auto
  show ?thesis
    using RReq rl_okD(1,2) [OF assms(1)] mono current_bucket_ok [OF assms(1), of t k] assms(2)
    by (auto simp: rl_ok_def take_token_def Let_def)
next
  case (RCleanup t)
  then show ?thesis
    using rl_okD [OF assms(1)] assms(2)
    by (force simp: rl_ok_def rl_cleanup_def Let_def split: option.splits if_splits)
qed

lemma allowance_mono:
  assumes "rl_ok rl clk" "clk \<le> t"
  shows "allowance rl k T t \<le> allowance rl k T clk"
  using rl_okD(1,2) [OF assms(1)] rl_okD(3) [OF assms(1), of k] assms(2)
  by (cases "rl_buckets rl k") (force simp: allowance_def split: if_splits)+

lemma allowance_nonneg: "rl_ok rl clk \<Longrightarrow> 0 \<le> allowance rl k T clk"
  using rl_okD(1) rl_okD(3) [of rl clk k]
  by (cases "rl_buckets rl k") (force simp: allowance_def)+

lemma allowance_cleanup:
  assumes "rl_ok rl clk" "clk \<le> t" "rl_interval rl \<le> 10 * minute"
  shows "allowance (rl_cleanup t rl) k T t \<le> allowance rl k T clk"
proof (cases "rl_buckets rl k")
  case None
  then have "allowance (rl_cleanup t rl) k T t = allowance rl k T t" by (simp add: allowance_def rl_cleanup_def Let_def)
  then show ?thesis using allowance_mono [OF assms(1,2)] by simp
next
  case (Some b)
  show ?thesis
  proof (cases "b_lastReset b < t - 10 * minute")
    case False
    then have "allowance (rl_cleanup t rl) k T t = allowance rl k T t"
      using Some by (simp add: allowance_def rl_cleanup_def Let_def)
    then show ?thesis using allowance_mono [OF assms(1,2)] by simp
  next
    case True
    then have a: "allowance (rl_cleanup t rl) k T t =
        (if T + rl_interval rl \<le> t then 0 else if t < T then 2 * rl_rate rl else rl_rate rl)"
      using Some by (simp add: allowance_def rl_cleanup_def Let_def)
    show ?thesis
      unfolding a using True Some rl_okD(1,2) [OF assms(1)] rl_okD(3) [OF assms(1) Some] assms(2,3)
      by (auto simp: allowance_def)
  qed
qed

lemma take_token_frame:
  "rl_rate (fst (take_token rl k t)) = rl_rate rl" "rl_interval (fst (take_token rl k t)) = rl_interval rl"
  "k' \<noteq> k \<Longrightarrow> rl_buckets (fst (take_token rl k t)) k' = rl_buckets rl k'"
  by (simp_all add: take_token_def Let_def)

lemma allowance_other: "k' \<noteq> k \<Longrightarrow> allowance (fst (take_token rl k' t)) k T t = allowance rl k T t"
  unfolding allowance_def take_token_frame(1,2) by (simp add: take_token_frame(3))

lemma allowance_request:
  assumes "rl_ok rl clk" "clk \<le> t"
  shows "(if passes (snd (take_token rl k t)) \<and> T \<le> t \<and> t < T + rl_interval rl then 1 else 0) +
    allowance (fst (take_token rl k t)) k T t \<le> allowance rl k T clk"
proof -
  let ?b = "current_bucket rl k t"
  note ok = current_bucket_ok [OF assms, of k] and pos = rl_okD(1,2) [OF assms(1)]
  have after: "allowance (fst (take_token rl k t)) k T t =
      (if T + rl_interval rl \<le> t then 0 else if t < T then 2 * rl_rate rl
       else (if T \<le> b_lastReset ?b then 0 else rl_rate rl) + max 0 (b_tokens ?b - 1))"
    using ok by (auto simp: allowance_def take_token_def Let_def)
  have pass: "passes (snd (take_token rl k t)) \<longleftrightarrow> 0 < b_tokens ?b"
    by (simp add: take_token_def Let_def)
  have "(if T \<le> b_lastReset ?b then 0 else rl_rate rl) + b_tokens ?b \<le> allowance rl k T clk"
    if "T \<le> t" "t < T + rl_interval rl"
    using that assms(2) pos rl_okD(3) [OF assms(1), of k]
    by (cases "rl_buckets rl k") (auto simp: current_bucket_def Let_def allowance_def)
  moreover have "0 \<le> allowance rl k T clk" by (rule allowance_nonneg [OF assms(1)])
  moreover have "2 * rl_rate rl \<le> allowance rl k T clk" if "t < T" using that assms(2) pos by (simp add: allowance_def)
  ultimately show ?thesis unfolding after pass using ok by auto
qed

lemma admitted_allowance:
  assumes "rl_ok rl clk" "clock_from rl_time clk ops" "rl_interval rl \<le> 10 * minute"
  shows "int (admitted rl k T (rl_interval rl) ops) \<le> allowance rl k T clk"
  using assms
proof (induction ops arbitrary: rl clk)
  case Nil
  then show ?case using allowance_nonneg by simp
next
  case (Cons op ops)
  let ?rl = "fst (rl_step rl op)"
  have t: "clk \<le> rl_time op" using Cons.prems by simp
  have "int (admitted ?rl k T (rl_interval ?rl) ops) \<le> allowance ?rl k T (rl_time op)"
    using Cons.prems by (intro Cons.IH rl_step_ok [OF Cons.prems(1) t]) simp_all
  moreover have "(if snd (rl_step rl op) \<and> op = RReq k (rl_time op) \<and> T \<le> rl_time op \<and>
        rl_time op < T + rl_interval rl then 1 else 0) + allowance ?rl k T (rl_time op) \<le> allowance rl k T clk"
  proof (cases op)
    case (RReq k' u)
    show ?thesis
    proof (cases "k' = k")
      case True
      then show ?thesis using RReq t allowance_request [OF Cons.prems(1), of u k T] by (simp add: case_prod_beta)
    next
      case False
      then show ?thesis
        using RReq t allowance_other [OF False, of rl u T] allowance_mono [OF Cons.prems(1), of u k T]
        by (simp add: case_prod_beta)
    qed
  next
    case (RCleanup u)
    then show ?thesis using t allowance_cleanup [OF Cons.prems(1) _ Cons.prems(3), of u k T] by simp
  qed
  ultimately show ?case by (auto simp: case_prod_beta Let_def split: if_splits)
qed

section \<open>Properties\<close>

text \<open>C24: No caller gets more than twice the configured rate through in any window of one interval:
  for a limiter whose interval is at most the ten minutes of the cleanup, whatever requests and
  cleanup passes happen in the order of the clock and wherever the window starts. A window that
  starts where the bucket was created admits the plain rate.\<close>

theorem rate_limit_window:
  assumes "0 \<le> rate" "0 < interval" "interval \<le> 10 * minute" "clock_from rl_time t0 ops"
  shows "int (admitted (NewRateLimiter rate interval) k T interval ops) \<le> 2 * rate \<and>
    (T \<le> t0 \<longrightarrow> int (admitted (NewRateLimiter rate interval) k T interval ops) \<le> rate)"
proof -
  have "int (admitted (NewRateLimiter rate interval) k T (rl_interval (NewRateLimiter rate interval)) ops) \<le>
      allowance (NewRateLimiter rate interval) k T t0"
    by (rule admitted_allowance [OF rl_ok_new [OF assms(1,2)] assms(4)]) (simp add: assms(3) NewRateLimiter_def)
  then show ?thesis using assms(1) by (auto simp: allowance_def NewRateLimiter_def split: if_splits)
qed

definition demo_rl_ops :: "rl_op list" where
  "demo_rl_ops = [RReq ''ip:1'' 0, RReq ''ip:1'' 1, RReq ''ip:1'' 2, RCleanup 3, RReq ''ip:1'' minute]"

theorem rate_limit_window_witness:
  "clock_from rl_time 0 demo_rl_ops \<and> admitted (NewRateLimiter 2 minute) ''ip:1'' 0 minute demo_rl_ops = 2 \<and>
   int (admitted (NewRateLimiter 2 minute) ''ip:1'' 1 minute demo_rl_ops) \<le> 4"
proof -
  have "clock_from rl_time 0 demo_rl_ops" "admitted (NewRateLimiter 2 minute) ''ip:1'' 0 minute demo_rl_ops = 2"
    by code_simp+
  then show ?thesis using rate_limit_window [of 2 minute 0 demo_rl_ops "''ip:1''" 1] by (simp add: duration_defs)
qed

text \<open>
  The limiter of \<^verbatim>\<open>POST /org/tokens\<close> in \<^verbatim>\<open>internal/router/router.go\<close> has an interval of one hour, so
  the cleanup removes its buckets long before they may be refilled.
\<close>

definition orgTokenMintLimiter :: RateLimiter where
  "orgTokenMintLimiter = NewRateLimiter 10 hour"

definition mint_burst :: "int \<Rightarrow> rl_op list" where
  "mint_burst m = replicate 10 (RReq ''org:o'' (m * minute))"

definition cleanup_at :: "int list \<Rightarrow> rl_op list" where
  "cleanup_at ms = map (\<lambda>m. RCleanup (m * minute)) ms"

definition mint_ops :: "rl_op list" where
  "mint_ops = mint_burst 0 @ cleanup_at [1, 6, 11] @ mint_burst 11 @ cleanup_at [16, 21, 26] @ mint_burst 26 @
     cleanup_at [31, 36, 41] @ mint_burst 41 @ cleanup_at [46, 51, 56] @ mint_burst 56"

fun spaced_ticks :: "duration \<Rightarrow> instant \<Rightarrow> rl_op list \<Rightarrow> bool" where
  "spaced_ticks d t [] = True"
| "spaced_ticks d t (RReq k u # ops) = spaced_ticks d t ops"
| "spaced_ticks d t (RCleanup u # ops) = (u = t + d \<and> spaced_ticks d u ops)"

text \<open>The limiter of the token mint does not hold its documented ten mints per hour: with the
  cleanup running every five minutes as the code starts it, there is a run in the order of the
  clock in which one caller mints fifty tokens within one hour, five times the limit and more than
  the two windows of the general bound.\<close>

theorem mint_limiter_exceeded:
  "clock_from rl_time 0 mint_ops \<and> spaced_ticks (5 * minute) (- 4 * minute) mint_ops \<and>
   admitted orgTokenMintLimiter ''org:o'' 0 hour mint_ops = 50 \<and> rl_rate orgTokenMintLimiter = 10"
proof -
  have "clock_from rl_time 0 mint_ops" "spaced_ticks (5 * minute) (- 4 * minute) mint_ops" by code_simp+
  moreover have "admitted orgTokenMintLimiter ''org:o'' 0 hour mint_ops = 50" by code_simp
  ultimately show ?thesis by (simp add: orgTokenMintLimiter_def NewRateLimiter_def)
qed

end
