(* ===== verification/SSRF_Guard.thy ===== *)
theory SSRF_Guard
  imports Rate_Limiter "HOL-Library.Word"
begin

unbundle bit_operations_syntax

text \<open>
  \<^verbatim>\<open>internal/handlers/ssrf.go\<close> and \<^verbatim>\<open>saasMode\<close> of \<^verbatim>\<open>registry.go\<close>: the guard of outbound URLs. An
  address (\<^verbatim>\<open>net.IP\<close>) is its 128-bit value, IPv4 in its mapped form; \<^verbatim>\<open>url.Parse\<close>, \<^verbatim>\<open>net.ParseIP\<close>
  and the resolver are arguments. The main property replaces the byte masks of the code by plain
  ranges of addresses.
\<close>

section \<open>Addresses\<close>

type_synonym ip = "128 word"
type_synonym ip4 = "32 word"

text \<open>\<^verbatim>\<open>ip.To4()\<close>: the low 32 bits when the upper 96 are those of the mapped prefix.\<close>

definition To4 :: "ip \<Rightarrow> ip4 option" where
  "To4 x = (if drop_bit 32 x = 0xFFFF then Some (ucast x) else None)"

definition from4 :: "ip4 \<Rightarrow> ip" where
  "from4 a = 0xFFFF00000000 OR ucast a"

text \<open>The bytes of an address, most significant first.\<close>

definition byte4 :: "ip4 \<Rightarrow> nat \<Rightarrow> nat" where
  "byte4 a i = unat (drop_bit (8 * (3 - i)) a AND 0xFF)"

definition byte16 :: "ip \<Rightarrow> nat \<Rightarrow> nat" where
  "byte16 x i = unat (drop_bit (8 * (15 - i)) x AND 0xFF)"

definition IsLoopback :: "ip \<Rightarrow> bool" where
  "IsLoopback x = (case To4 x of Some a \<Rightarrow> byte4 a 0 = 127 | None \<Rightarrow> x = 1)"

definition IsUnspecified :: "ip \<Rightarrow> bool" where
  "IsUnspecified x \<longleftrightarrow> x = from4 0 \<or> x = 0"

definition IsLinkLocalUnicast :: "ip \<Rightarrow> bool" where
  "IsLinkLocalUnicast x =
     (case To4 x of Some a \<Rightarrow> byte4 a 0 = 169 \<and> byte4 a 1 = 254
      | None \<Rightarrow> byte16 x 0 = 0xFE \<and> byte16 x 1 AND 0xC0 = 0x80)"

definition IsLinkLocalMulticast :: "ip \<Rightarrow> bool" where
  "IsLinkLocalMulticast x =
     (case To4 x of Some a \<Rightarrow> byte4 a 0 = 224 \<and> byte4 a 1 = 0 \<and> byte4 a 2 = 0
      | None \<Rightarrow> byte16 x 0 = 0xFF \<and> byte16 x 1 AND 0x0F = 0x02)"

definition IsInterfaceLocalMulticast :: "ip \<Rightarrow> bool" where
  "IsInterfaceLocalMulticast x \<longleftrightarrow> byte16 x 0 = 0xFF \<and> byte16 x 1 AND 0x0F = 0x01"

text \<open>\<^verbatim>\<open>net.IPNet\<close>: the network number and the prefix length, compared under the mask.\<close>

definition contains4 :: "ip4 \<times> nat \<Rightarrow> ip4 \<Rightarrow> bool" where
  "contains4 net a = (case net of (n, len) \<Rightarrow>
     a AND push_bit (32 - len) (mask len) = n AND push_bit (32 - len) (mask len))"

definition contains16 :: "ip \<times> nat \<Rightarrow> ip \<Rightarrow> bool" where
  "contains16 net x = (case net of (n, len) \<Rightarrow>
     x AND push_bit (128 - len) (mask len) = n AND push_bit (128 - len) (mask len))"

text \<open>An IPv4 address from its four bytes.\<close>

definition quad :: "nat \<Rightarrow> nat \<Rightarrow> nat \<Rightarrow> nat \<Rightarrow> ip4" where
  "quad a b c d = of_nat (a * 2 ^ 24 + b * 2 ^ 16 + c * 2 ^ 8 + d)"

section \<open>The forbidden ranges\<close>

definition metadataV4 :: "ip4 \<times> nat" where "metadataV4 = (quad 169 254 0 0, 16)"
definition cgnatV4 :: "ip4 \<times> nat" where "cgnatV4 = (quad 100 64 0 0, 10)"

definition privateV4 :: "(ip4 \<times> nat) list" where
  "privateV4 = [(quad 10 0 0 0, 8), (quad 172 16 0 0, 12), (quad 192 168 0 0, 16)]"

definition docRangesV4 :: "(ip4 \<times> nat) list" where
  "docRangesV4 = [(quad 192 0 2 0, 24), (quad 198 51 100 0, 24), (quad 203 0 113 0, 24)]"

definition ulaV6 :: "ip \<times> nat" where "ulaV6 = (0xFC00 * 2 ^ 112, 7)"
definition fd00V6 :: "ip \<times> nat" where "fd00V6 = (0xFD00 * 2 ^ 112, 8)"

text \<open>The environment variables and the two test switches.\<close>

record ssrf_config =
  sc_MOLECULE_ENV :: string
  sc_MOLECULE_DEPLOY_MODE :: string
  sc_MOLECULE_ORG_ID :: string
  sc_ssrfCheckEnabled :: bool
  sc_testAllowLoopback :: bool

definition devModeAllowsLoopback :: "ssrf_config \<Rightarrow> bool" where
  "devModeAllowsLoopback cfg =
     (let env = map lower_ascii (TrimSpace (sc_MOLECULE_ENV cfg)) in env = ''development'' \<or> env = ''dev'')"

definition saasMode :: "ssrf_config \<Rightarrow> bool" where
  "saasMode cfg =
     (let trimmed = TrimSpace (sc_MOLECULE_DEPLOY_MODE cfg)
      in if trimmed \<noteq> [] then map lower_ascii trimmed = ''saas''
         else TrimSpace (sc_MOLECULE_ORG_ID cfg) \<noteq> [])"

definition isPrivateOrMetadataIP :: "ssrf_config \<Rightarrow> ip \<Rightarrow> bool" where
  "isPrivateOrMetadataIP cfg x =
     (let saas = saasMode cfg \<or> devModeAllowsLoopback cfg
      in case To4 x of
           Some a \<Rightarrow>
             if contains4 metadataV4 a then True
             else if list_ex (\<lambda>r. contains4 r a) docRangesV4 then True
             else if contains4 cgnatV4 a then True
             else if list_ex (\<lambda>r. contains4 r a) privateV4 then \<not> saas
             else False
         | None \<Rightarrow>
             if IsLoopback x \<and> \<not> sc_testAllowLoopback cfg \<and> \<not> devModeAllowsLoopback cfg then True
             else if IsLinkLocalUnicast x then True
             else if contains16 ulaV6 x then \<not> (saas \<and> contains16 fd00V6 x)
             else False)"

section \<open>isSafeURL\<close>

datatype ssrf_error =
    InvalidURL
  | ForbiddenScheme string
  | EmptyHostname
  | ForbiddenLocal ip
  | ForbiddenPrivate ip
  | DNSFailed
  | DNSEmpty

record parsed_url =
  pu_Scheme :: string
  pu_Hostname :: string

definition local_check :: "ssrf_config \<Rightarrow> ip \<Rightarrow> bool" where
  "local_check cfg x \<longleftrightarrow>
     (IsLoopback x \<and> \<not> sc_testAllowLoopback cfg \<and> \<not> devModeAllowsLoopback cfg) \<or> IsUnspecified x \<or>
     IsLinkLocalUnicast x \<or> IsLinkLocalMulticast x \<or> IsInterfaceLocalMulticast x"

definition check_ip :: "ssrf_config \<Rightarrow> ip \<Rightarrow> ssrf_error option" where
  "check_ip cfg x =
     (if local_check cfg x then Some (ForbiddenLocal x)
      else if isPrivateOrMetadataIP cfg x then Some (ForbiddenPrivate x) else None)"

fun check_addrs :: "ssrf_config \<Rightarrow> (string \<Rightarrow> ip option) \<Rightarrow> string list \<Rightarrow> ssrf_error option" where
  "check_addrs cfg ParseIP [] = None"
| "check_addrs cfg ParseIP (addr # addrs) =
     (case ParseIP addr of
        None \<Rightarrow> check_addrs cfg ParseIP addrs
      | Some x \<Rightarrow> (case check_ip cfg x of Some e \<Rightarrow> Some e | None \<Rightarrow> check_addrs cfg ParseIP addrs))"

text \<open>\<^term>\<open>None\<close>: the URL is safe.\<close>

definition isSafeURL ::
  "ssrf_config \<Rightarrow> (string \<Rightarrow> parsed_url option) \<Rightarrow> (string \<Rightarrow> ip option) \<Rightarrow> (string \<Rightarrow> string list option) \<Rightarrow>
   string \<Rightarrow> ssrf_error option" where
  "isSafeURL cfg Parse ParseIP LookupHost rawURL =
     (if \<not> sc_ssrfCheckEnabled cfg then None
      else case Parse rawURL of
             None \<Rightarrow> Some InvalidURL
           | Some u \<Rightarrow>
               if pu_Scheme u \<noteq> ''http'' \<and> pu_Scheme u \<noteq> ''https'' then Some (ForbiddenScheme (pu_Scheme u))
               else if pu_Hostname u = [] then Some EmptyHostname
               else case ParseIP (pu_Hostname u) of
                      Some x \<Rightarrow> check_ip cfg x
                    | None \<Rightarrow>
                        (case LookupHost (pu_Hostname u) of
                           None \<Rightarrow> Some DNSFailed
                         | Some addrs \<Rightarrow>
                             if addrs = [] then Some DNSEmpty else check_addrs cfg ParseIP addrs))"

section \<open>validateRelPath\<close>

text \<open>
  \<^verbatim>\<open>filepath.Clean\<close> on Unix: empty and \<^verbatim>\<open>.\<close> elements vanish, \<^verbatim>\<open>..\<close> removes the element before it,
  is dropped at the root of an absolute path and kept at the front of a relative one.
\<close>

fun clean_elems :: "bool \<Rightarrow> string list \<Rightarrow> string list \<Rightarrow> string list" where
  "clean_elems rooted acc [] = rev acc"
| "clean_elems rooted acc (e # es) =
     (if e = [] \<or> e = ''.'' then clean_elems rooted acc es
      else if e = ''..'' then
        (case acc of
           [] \<Rightarrow> clean_elems rooted (if rooted then [] else [''..'']) es
         | a # as \<Rightarrow> if a = ''..'' then clean_elems rooted (''..'' # acc) es else clean_elems rooted as es)
      else clean_elems rooted (e # acc) es)"

fun join_slash :: "string list \<Rightarrow> string" where
  "join_slash [] = []"
| "join_slash [e] = e"
| "join_slash (e # es) = e @ CHR ''/'' # join_slash es"

definition IsAbs :: "string \<Rightarrow> bool" where
  "IsAbs p = has_prefix ''/'' p"

definition Clean :: "string \<Rightarrow> string" where
  "Clean p =
     (if p = [] then ''.''
      else let body = join_slash (clean_elems (IsAbs p) [] (split_on (CHR ''/'') p))
           in if IsAbs p then CHR ''/'' # body else if body = [] then ''.'' else body)"

fun contains_dotdot :: "string \<Rightarrow> bool" where
  "contains_dotdot (a # b # s) = ((a = CHR ''.'' \<and> b = CHR ''.'') \<or> contains_dotdot (b # s))"
| "contains_dotdot s = False"

text \<open>True: the path is accepted.\<close>

definition validateRelPath :: "string \<Rightarrow> bool" where
  "validateRelPath filePath =
     (if filePath = [] \<or> filePath = ''.'' then False
      else let clean = Clean filePath
           in if IsAbs clean then False
              else if contains_dotdot filePath \<or> contains_dotdot clean then False
              else True)"

section \<open>Masks are ranges\<close>

lemma and_high_mask:
  fixes x :: "'a::len word"
  assumes "k + len = LENGTH('a)"
  shows "x AND push_bit k (mask len) = push_bit k (drop_bit k x)"
  by (rule bit_word_eqI) (use assms in \<open>auto simp: bit_simps\<close>)

lemma unat_div_drop: "unat (drop_bit k x) = unat x div 2 ^ k" for x :: "'a::len word"
  unfolding unat_drop_bit_eq by (rule drop_bit_eq_div)

lemma unat_low_byte: "8 \<le> LENGTH('a) \<Longrightarrow> unat (x AND 0xFF) = unat x mod 256" for x :: "'a::len word"
proof -
  have "x AND 0xFF = take_bit 8 x" by (simp add: take_bit_eq_mask mask_eq_exp_minus_1)
  then have "unat (x AND 0xFF) = take_bit 8 (unat x)" by (simp only: unsigned_take_bit_eq)
  then show ?thesis by (simp only: take_bit_eq_mod) simp
qed

lemma push_drop_eq_iff:
  fixes x y :: "'a::len word"
  shows "push_bit k (drop_bit k x) = push_bit k (drop_bit k y) \<longleftrightarrow> unat x div 2 ^ k = unat y div 2 ^ k"
proof
  assume "push_bit k (drop_bit k x) = push_bit k (drop_bit k y)"
  then have "drop_bit k (push_bit k (drop_bit k x)) = drop_bit k (push_bit k (drop_bit k y))" by simp
  moreover have "drop_bit k (push_bit k (drop_bit k z)) = drop_bit k z" for z :: "'a word"
    by (rule bit_word_eqI) (auto simp: bit_simps dest: bit_imp_le_length)
  ultimately have "drop_bit k x = drop_bit k y" by simp
  then show "unat x div 2 ^ k = unat y div 2 ^ k" unfolding unat_div_drop [symmetric] by simp
next
  assume "unat x div 2 ^ k = unat y div 2 ^ k"
  then have "unat (drop_bit k x) = unat (drop_bit k y)" unfolding unat_div_drop .
  then have "drop_bit k x = drop_bit k y" by (simp only: word_unat_eq_iff)
  then show "push_bit k (drop_bit k x) = push_bit k (drop_bit k y)" by simp
qed

lemma div_eq_range: "0 < (d :: nat) \<Longrightarrow> n div d = q \<longleftrightarrow> q * d \<le> n \<and> n < q * d + d"
  by (metis add.commute div_nat_eqI dividend_less_div_times div_times_less_eq_dividend mult.commute mult_Suc)

lemma contains4_range:
  assumes "len \<le> 32"
  shows "contains4 (n, len) a \<longleftrightarrow> unat a div 2 ^ (32 - len) = unat n div 2 ^ (32 - len)"
  unfolding contains4_def using assms by (simp add: and_high_mask push_drop_eq_iff)

lemma contains16_range:
  assumes "len \<le> 128"
  shows "contains16 (n, len) x \<longleftrightarrow> unat x div 2 ^ (128 - len) = unat n div 2 ^ (128 - len)"
  unfolding contains16_def using assms by (simp add: and_high_mask push_drop_eq_iff)

lemma byte4_div: "byte4 a i = unat a div 2 ^ (8 * (3 - i)) mod 256"
  unfolding byte4_def by (subst unat_low_byte) (simp_all add: unat_div_drop)

lemma byte16_div: "byte16 x i = unat x div 2 ^ (8 * (15 - i)) mod 256"
  unfolding byte16_def by (subst unat_low_byte) (simp_all add: unat_div_drop)

section \<open>The guard as ranges of addresses\<close>

definition addr4 :: "nat \<Rightarrow> nat \<Rightarrow> nat \<Rightarrow> nat \<Rightarrow> nat" where
  "addr4 a b c d = a * 2 ^ 24 + b * 2 ^ 16 + c * 2 ^ 8 + d"

definition loopback_ok :: "ssrf_config \<Rightarrow> bool" where
  "loopback_ok cfg \<longleftrightarrow> sc_testAllowLoopback cfg \<or> devModeAllowsLoopback cfg"

definition relaxed :: "ssrf_config \<Rightarrow> bool" where
  "relaxed cfg \<longleftrightarrow> saasMode cfg \<or> devModeAllowsLoopback cfg"

text \<open>First and last address of each blocked IPv4 range.\<close>

definition always_blocked4 :: "(nat \<times> nat) list" where
  "always_blocked4 =
     [(addr4 0 0 0 0, addr4 0 0 0 0), (addr4 169 254 0 0, addr4 169 254 255 255),
      (addr4 192 0 2 0, addr4 192 0 2 255), (addr4 198 51 100 0, addr4 198 51 100 255),
      (addr4 203 0 113 0, addr4 203 0 113 255), (addr4 100 64 0 0, addr4 100 127 255 255),
      (addr4 224 0 0 0, addr4 224 0 0 255)]"

definition blocked4 :: "ssrf_config \<Rightarrow> (nat \<times> nat) list" where
  "blocked4 cfg = always_blocked4 @
     (if loopback_ok cfg then [] else [(addr4 127 0 0 0, addr4 127 255 255 255)]) @
     (if relaxed cfg then []
      else [(addr4 10 0 0 0, addr4 10 255 255 255), (addr4 172 16 0 0, addr4 172 31 255 255),
            (addr4 192 168 0 0, addr4 192 168 255 255)])"

definition in_ranges :: "nat \<Rightarrow> (nat \<times> nat) list \<Rightarrow> bool" where
  "in_ranges n rs = list_ex (\<lambda>(lo, hi). lo \<le> n \<and> n \<le> hi) rs"

text \<open>The blocked IPv6 addresses, by the first of the eight groups.\<close>

definition blocked6 :: "ssrf_config \<Rightarrow> nat \<Rightarrow> bool" where
  "blocked6 cfg n \<longleftrightarrow>
     (let g = n div 2 ^ 112
      in n = 0 \<or> (n = 1 \<and> \<not> loopback_ok cfg) \<or> (0xFE80 \<le> g \<and> g \<le> 0xFEBF) \<or>
         (0xFF00 \<le> g \<and> (g mod 16 = 1 \<or> g mod 16 = 2)) \<or>
         (0xFC00 \<le> g \<and> g < 0xFD00) \<or> (0xFD00 \<le> g \<and> g < 0xFE00 \<and> \<not> relaxed cfg))"

lemma unat4_lt: "unat (a :: ip4) < 2 ^ 32"
  using unsigned_less [of a] by simp

lemma unat16_lt: "unat (x :: ip) < 2 ^ 128"
  using unsigned_less [of x] by simp

lemma quad_unat: "addr4 a b c d < 2 ^ 32 \<Longrightarrow> unat (quad a b c d) = addr4 a b c d"
proof -
  have "unat (of_nat n :: ip4) = n" if "n < 2 ^ 32" for n using that by (simp add: unat_of_nat take_bit_nat_eq_self)
  then show "addr4 a b c d < 2 ^ 32 \<Longrightarrow> unat (quad a b c d) = addr4 a b c d" unfolding quad_def addr4_def .
qed

lemma To4_value:
  assumes "To4 x = Some a"
  shows "unat x = 0xFFFF * 2 ^ 32 + unat a"
proof -
  have "drop_bit 32 x = 0xFFFF" "a = ucast x" using assms by (auto simp: To4_def split: if_splits)
  then have "unat (drop_bit 32 x) = unat (0xFFFF :: ip)" "unat a = unat x mod 2 ^ 32"
    by (simp_all add: unsigned_ucast_eq take_bit_eq_mod)
  then have "unat x div 2 ^ 32 = 0xFFFF" "unat a = unat x mod 2 ^ 32" unfolding unat_div_drop by simp_all
  then show ?thesis by (metis div_mult_mod_eq)
qed

lemma v4_unspecified: "To4 x = Some a \<Longrightarrow> IsUnspecified x \<longleftrightarrow> unat a = 0"
proof -
  assume "To4 x = Some a"
  from To4_value [OF this] have v: "unat x = 0xFFFF * 2 ^ 32 + unat a" .
  have "unat (from4 0) = 0xFFFF * 2 ^ 32" by (simp add: from4_def)
  then show ?thesis unfolding IsUnspecified_def word_unat_eq_iff using v by simp
qed

lemma v4_not_interface_local: "To4 x = Some a \<Longrightarrow> \<not> IsInterfaceLocalMulticast x"
proof -
  assume "To4 x = Some a"
  from To4_value [OF this] have "unat x < 2 ^ 48" using unat4_lt [of a] by simp
  then have "unat x div 2 ^ 120 = 0" by simp
  then show ?thesis by (simp add: IsInterfaceLocalMulticast_def byte16_div)
qed

text \<open>A number is determined by its base-256 digits.\<close>

lemma digits_eq: "n div 256 = p \<and> n mod 256 = q \<longleftrightarrow> n = p * 256 + q" if "q < 256" for n p q :: nat
  using that by (auto simp: div_mult_mod_eq)

lemma v4_tests:
  assumes "To4 x = Some a"
  shows "IsLoopback x \<longleftrightarrow> unat a div 2 ^ 24 = 127"
    "IsLinkLocalUnicast x \<longleftrightarrow> unat a div 2 ^ 16 = 169 * 256 + 254"
    "IsLinkLocalMulticast x \<longleftrightarrow> unat a div 2 ^ 8 = (224 * 256 + 0) * 256 + 0"
proof -
  have "unat a div 2 ^ 24 < 256" using unat4_lt [of a] by simp
  then have b0: "byte4 a 0 = unat a div 2 ^ 24" by (simp add: byte4_div)
  have b: "byte4 a 1 = unat a div 2 ^ 16 mod 256" "byte4 a 2 = unat a div 2 ^ 8 mod 256"
    by (simp_all add: byte4_div)
  have d: "unat a div 2 ^ 24 = unat a div 2 ^ 16 div 256" "unat a div 2 ^ 16 = unat a div 2 ^ 8 div 256"
    by (simp_all add: div_mult2_eq [symmetric])
  show "IsLoopback x \<longleftrightarrow> unat a div 2 ^ 24 = 127"
    unfolding IsLoopback_def assms option.case b0 ..
  show link: "IsLinkLocalUnicast x \<longleftrightarrow> unat a div 2 ^ 16 = 169 * 256 + 254"
    unfolding IsLinkLocalUnicast_def assms option.case b0 b d(1) by (rule digits_eq) simp
  have "byte4 a 0 = 224 \<and> byte4 a 1 = 0 \<longleftrightarrow> unat a div 2 ^ 16 = 224 * 256 + 0"
    unfolding b0 b d(1) by (rule digits_eq) simp
  moreover have "unat a div 2 ^ 16 = 224 * 256 + 0 \<and> byte4 a 2 = 0 \<longleftrightarrow> unat a div 2 ^ 8 = (224 * 256 + 0) * 256 + 0"
    unfolding b d(2) by (rule digits_eq) simp
  ultimately show "IsLinkLocalMulticast x \<longleftrightarrow> unat a div 2 ^ 8 = (224 * 256 + 0) * 256 + 0"
    unfolding IsLinkLocalMulticast_def assms option.case by blast
qed

lemma range_of_block: "n div 2 ^ k = c \<longleftrightarrow> c * 2 ^ k \<le> n \<and> n \<le> c * 2 ^ k + (2 ^ k - 1)" for n :: nat
proof -
  have "(0 :: nat) < 2 ^ k" by simp
  then show ?thesis using div_eq_range [of "2 ^ k" n c] by linarith
qed

lemma contains_quad:
  assumes "len \<le> 32" "addr4 a b c d < 2 ^ 32" "addr4 a b c d = m * 2 ^ (32 - len)"
  shows "contains4 (quad a b c d, len) n \<longleftrightarrow> m * 2 ^ (32 - len) \<le> unat n \<and> unat n \<le> m * 2 ^ (32 - len) + (2 ^ (32 - len) - 1)"
  unfolding contains4_range [OF assms(1)] quad_unat [OF assms(2)] assms(3) by (simp add: range_of_block)

lemma v4_nets:
  "contains4 metadataV4 n \<longleftrightarrow> addr4 169 254 0 0 \<le> unat n \<and> unat n \<le> addr4 169 254 255 255"
  "contains4 cgnatV4 n \<longleftrightarrow> addr4 100 64 0 0 \<le> unat n \<and> unat n \<le> addr4 100 127 255 255"
  "list_ex (\<lambda>r. contains4 r n) docRangesV4 \<longleftrightarrow>
    (addr4 192 0 2 0 \<le> unat n \<and> unat n \<le> addr4 192 0 2 255) \<or>
    (addr4 198 51 100 0 \<le> unat n \<and> unat n \<le> addr4 198 51 100 255) \<or>
    (addr4 203 0 113 0 \<le> unat n \<and> unat n \<le> addr4 203 0 113 255)"
  "list_ex (\<lambda>r. contains4 r n) privateV4 \<longleftrightarrow>
    (addr4 10 0 0 0 \<le> unat n \<and> unat n \<le> addr4 10 255 255 255) \<or>
    (addr4 172 16 0 0 \<le> unat n \<and> unat n \<le> addr4 172 31 255 255) \<or>
    (addr4 192 168 0 0 \<le> unat n \<and> unat n \<le> addr4 192 168 255 255)"
  unfolding metadataV4_def cgnatV4_def docRangesV4_def privateV4_def
  using contains_quad [of 16 169 254 0 0 43518 n] contains_quad [of 10 100 64 0 0 401 n]
    contains_quad [of 24 192 0 2 0 12582914 n] contains_quad [of 24 198 51 100 0 12989284 n]
    contains_quad [of 24 203 0 113 0 13303921 n]
    contains_quad [of 8 10 0 0 0 10 n] contains_quad [of 12 172 16 0 0 2753 n] contains_quad [of 16 192 168 0 0 49320 n]
  by (simp_all add: addr4_def)

lemma check_ip_v4:
  assumes "To4 x = Some a"
  shows "check_ip cfg x = None \<longleftrightarrow> \<not> in_ranges (unat a) (blocked4 cfg)"
proof -
  note t = v4_tests [OF assms, unfolded range_of_block]
  have l: "local_check cfg x \<longleftrightarrow>
      (\<not> loopback_ok cfg \<and> addr4 127 0 0 0 \<le> unat a \<and> unat a \<le> addr4 127 255 255 255) \<or> unat a = 0 \<or>
      (addr4 169 254 0 0 \<le> unat a \<and> unat a \<le> addr4 169 254 255 255) \<or>
      (addr4 224 0 0 0 \<le> unat a \<and> unat a \<le> addr4 224 0 0 255)"
    unfolding local_check_def t v4_unspecified [OF assms] loopback_ok_def
    using v4_not_interface_local [OF assms] by (simp add: addr4_def) blast
  have z: "unat a = 0 \<longleftrightarrow> addr4 0 0 0 0 \<le> unat a \<and> unat a \<le> addr4 0 0 0 0" by (simp add: addr4_def)
  show ?thesis
    unfolding check_ip_def isPrivateOrMetadataIP_def assms option.case Let_def v4_nets l z
      in_ranges_def blocked4_def always_blocked4_def relaxed_def [symmetric]
    by (cases "loopback_ok cfg"; cases "relaxed cfg") auto
qed

lemma byte_masks:
  "b < 256 \<Longrightarrow> b AND 0xC0 = 0x80 \<longleftrightarrow> 128 \<le> b \<and> b < 192" "b AND 0x0F = b mod 16" for b :: nat
proof -
  have "b AND push_bit 6 (mask 2) = push_bit 6 (take_bit 2 (drop_bit 6 b))"
    by (rule bit_eqI) (auto simp: bit_simps)
  moreover have "push_bit 6 (mask 2) = (0xC0 :: nat)" by (simp add: push_bit_eq_mult mask_eq_exp_minus_1)
  ultimately have c: "b AND 0xC0 = b div 64 mod 4 * 64"
    by (simp add: push_bit_eq_mult take_bit_eq_mod drop_bit_eq_div)
  show "b AND 0xC0 = 0x80 \<longleftrightarrow> 128 \<le> b \<and> b < 192" if "b < 256"
  proof -
    have "b div 64 < 4" using that by simp
    then show ?thesis unfolding c using div_eq_range [of 64 b 2] by simp
  qed
  have "b AND 0x0F = take_bit 4 b" by (simp add: take_bit_eq_mask mask_eq_exp_minus_1)
  then show "b AND 0x0F = b mod 16" by (simp only: take_bit_eq_mod) simp
qed

lemma v6_bytes:
  "byte16 x 0 = unat x div 2 ^ 112 div 256" "byte16 x 1 = unat x div 2 ^ 112 mod 256"
proof -
  have "unat x div 2 ^ 120 < 256" using unat16_lt [of x] by (simp add: less_mult_imp_div_less)
  moreover have "unat x div 2 ^ 112 div 256 = unat x div 2 ^ 120"
    unfolding div_mult2_eq [symmetric] by simp
  ultimately show "byte16 x 0 = unat x div 2 ^ 112 div 256" "byte16 x 1 = unat x div 2 ^ 112 mod 256"
    by (simp_all add: byte16_div)
qed

lemma group_lt: "unat x div 2 ^ 112 < 65536" for x :: ip
  using unat16_lt [of x] by (simp add: less_mult_imp_div_less)

lemma v6_nets:
  "contains16 ulaV6 x \<longleftrightarrow> 0xFC00 \<le> unat x div 2 ^ 112 \<and> unat x div 2 ^ 112 < 0xFE00"
  "contains16 fd00V6 x \<longleftrightarrow> 0xFD00 \<le> unat x div 2 ^ 112 \<and> unat x div 2 ^ 112 < 0xFE00"
proof -
  have d: "unat x div 2 ^ 121 = unat x div 2 ^ 112 div 512" "unat x div 2 ^ 120 = unat x div 2 ^ 112 div 256"
    unfolding div_mult2_eq [symmetric] by simp_all
  have g: "m div 512 = 126 \<longleftrightarrow> 0xFC00 \<le> m \<and> m < 0xFE00" "m div 256 = 253 \<longleftrightarrow> 0xFD00 \<le> m \<and> m < 0xFE00" for m :: nat
    using div_eq_range [of 512 m 126] div_eq_range [of 256 m 253] by simp_all
  have "contains16 ulaV6 x \<longleftrightarrow> unat x div 2 ^ 121 = 126"
    unfolding ulaV6_def using contains16_range [of 7 "0xFC00 * 2 ^ 112" x] by simp
  then show "contains16 ulaV6 x \<longleftrightarrow> 0xFC00 \<le> unat x div 2 ^ 112 \<and> unat x div 2 ^ 112 < 0xFE00"
    unfolding d g .
  have "contains16 fd00V6 x \<longleftrightarrow> unat x div 2 ^ 120 = 253"
    unfolding fd00V6_def using contains16_range [of 8 "0xFD00 * 2 ^ 112" x] by simp
  then show "contains16 fd00V6 x \<longleftrightarrow> 0xFD00 \<le> unat x div 2 ^ 112 \<and> unat x div 2 ^ 112 < 0xFE00"
    unfolding d g .
qed

lemma v6_tests:
  assumes "To4 x = None"
  shows "IsLoopback x \<longleftrightarrow> unat x = 1" "IsUnspecified x \<longleftrightarrow> unat x = 0"
    "IsLinkLocalUnicast x \<longleftrightarrow> 0xFE80 \<le> unat x div 2 ^ 112 \<and> unat x div 2 ^ 112 \<le> 0xFEBF"
    "IsLinkLocalMulticast x \<longleftrightarrow> 0xFF00 \<le> unat x div 2 ^ 112 \<and> unat x div 2 ^ 112 mod 16 = 2"
    "IsInterfaceLocalMulticast x \<longleftrightarrow> 0xFF00 \<le> unat x div 2 ^ 112 \<and> unat x div 2 ^ 112 mod 16 = 1"
proof -
  show "IsLoopback x \<longleftrightarrow> unat x = 1" by (simp add: IsLoopback_def assms word_unat_eq_iff)
  have "To4 (from4 0) = Some 0" by (simp add: To4_def from4_def)
  then have "x \<noteq> from4 0" using assms by auto
  then show "IsUnspecified x \<longleftrightarrow> unat x = 0" by (simp add: IsUnspecified_def word_unat_eq_iff)
  have m: "g mod 256 mod 16 = g mod 16" for g :: nat by (simp add: mod_mod_cancel)
  have ff: "g < 65536 \<Longrightarrow> g div 256 = 0xFF \<longleftrightarrow> 0xFF00 \<le> g" for g :: nat
    using div_eq_range [of 256 g 255] by simp
  have fe: "g div 256 = 0xFE \<and> 128 \<le> g mod 256 \<and> g mod 256 < 192 \<longleftrightarrow> 0xFE80 \<le> g \<and> g \<le> 0xFEBF" for g :: nat
  proof -
    have "g div 256 = 0xFE \<Longrightarrow> g = 65024 + g mod 256" using div_mult_mod_eq [of g 256] by simp
    then show ?thesis using div_eq_range [of 256 g 254] by linarith
  qed
  show "IsLinkLocalUnicast x \<longleftrightarrow> 0xFE80 \<le> unat x div 2 ^ 112 \<and> unat x div 2 ^ 112 \<le> 0xFEBF"
    unfolding fe [symmetric] IsLinkLocalUnicast_def assms option.case v6_bytes by (simp add: byte_masks(1))
  show "IsLinkLocalMulticast x \<longleftrightarrow> 0xFF00 \<le> unat x div 2 ^ 112 \<and> unat x div 2 ^ 112 mod 16 = 2"
    unfolding ff [OF group_lt, symmetric] IsLinkLocalMulticast_def assms option.case v6_bytes byte_masks(2) m ..
  show "IsInterfaceLocalMulticast x \<longleftrightarrow> 0xFF00 \<le> unat x div 2 ^ 112 \<and> unat x div 2 ^ 112 mod 16 = 1"
    unfolding ff [OF group_lt, symmetric] IsInterfaceLocalMulticast_def v6_bytes byte_masks(2) m ..
qed

lemma check_ip_v6:
  assumes "To4 x = None"
  shows "check_ip cfg x = None \<longleftrightarrow> \<not> blocked6 cfg (unat x)"
proof -
  define n g where "n = unat x" and "g = unat x div 2 ^ 112"
  note t = v6_tests [OF assms, folded g_def, folded n_def] and w = v6_nets [of x, folded g_def]
  have b: "blocked6 cfg (unat x) \<longleftrightarrow>
     n = 0 \<or> (n = 1 \<and> \<not> loopback_ok cfg) \<or> (0xFE80 \<le> g \<and> g \<le> 0xFEBF) \<or>
     (0xFF00 \<le> g \<and> (g mod 16 = 1 \<or> g mod 16 = 2)) \<or>
     (0xFC00 \<le> g \<and> g < 0xFD00) \<or> (0xFD00 \<le> g \<and> g < 0xFE00 \<and> \<not> relaxed cfg)"
    by (simp only: blocked6_def Let_def n_def g_def)
  have o: "g < 0xFD00 \<longleftrightarrow> \<not> 0xFD00 \<le> g" "0xFD00 \<le> g \<Longrightarrow> 0xFC00 \<le> g" "\<not> 0xFD00 \<le> g \<Longrightarrow> g < 0xFE00"
    by linarith+
  have l: "(\<not> sc_testAllowLoopback cfg \<and> \<not> devModeAllowsLoopback cfg) = (\<not> loopback_ok cfg)"
    by (simp add: loopback_ok_def)
  show ?thesis
    unfolding b check_ip_def local_check_def isPrivateOrMetadataIP_def assms option.case Let_def t w l
      relaxed_def [symmetric] o(1)
    by (simp split: if_split) (use o(2,3) in blast)
qed

section \<open>Properties\<close>

definition ip_allowed :: "ssrf_config \<Rightarrow> ip \<Rightarrow> bool" where
  "ip_allowed cfg x =
     (case To4 x of Some a \<Rightarrow> \<not> in_ranges (unat a) (blocked4 cfg) | None \<Rightarrow> \<not> blocked6 cfg (unat x))"

lemma check_ip_iff: "check_ip cfg x = None \<longleftrightarrow> ip_allowed cfg x"
  by (cases "To4 x") (simp_all add: ip_allowed_def check_ip_v4 check_ip_v6)

lemma check_addrs_iff:
  "check_addrs cfg ParseIP addrs = None \<longleftrightarrow> (\<forall>x \<in> {x. \<exists>addr \<in> set addrs. ParseIP addr = Some x}. ip_allowed cfg x)"
  by (induction addrs) (auto simp: check_ip_iff [symmetric] split: option.splits)

text \<open>C19: The guard of outbound URLs accepts exactly the URLs with scheme http or https and a
  host whose addresses are all outside the blocked ranges, for every parser and resolver: the
  literal address, or all addresses the name resolves to (at least one entry, unparsable ones
  being skipped). The ranges are given by first and last address: this network, loopback,
  link-local with the cloud metadata service, documentation, carrier-grade NAT and local
  multicast in every mode, the private ranges outside SaaS mode, and their IPv6 counterparts.\<close>

theorem isSafeURL_iff:
  assumes "sc_ssrfCheckEnabled cfg"
  shows "isSafeURL cfg Parse ParseIP LookupHost rawURL = None \<longleftrightarrow>
    (\<exists>u. Parse rawURL = Some u \<and> pu_Scheme u \<in> {''http'', ''https''} \<and> pu_Hostname u \<noteq> [] \<and>
       (case ParseIP (pu_Hostname u) of
          Some x \<Rightarrow> ip_allowed cfg x
        | None \<Rightarrow> \<exists>addrs. LookupHost (pu_Hostname u) = Some addrs \<and> addrs \<noteq> [] \<and>
            {x. \<exists>addr \<in> set addrs. ParseIP addr = Some x} \<subseteq> Collect (ip_allowed cfg)))"
proof (cases "Parse rawURL")
  case (Some u)
  show ?thesis
  proof (cases "ParseIP (pu_Hostname u)")
    case None
    then show ?thesis
      using assms Some by (cases "LookupHost (pu_Hostname u)") (auto simp: isSafeURL_def check_addrs_iff)
  qed (use assms Some in \<open>auto simp: isSafeURL_def check_ip_iff\<close>)
qed (simp add: isSafeURL_def assms)

definition saas_config :: ssrf_config where
  "saas_config = \<lparr>sc_MOLECULE_ENV = ''production'', sc_MOLECULE_DEPLOY_MODE = ''saas'', sc_MOLECULE_ORG_ID = [],
     sc_ssrfCheckEnabled = True, sc_testAllowLoopback = False\<rparr>"

definition demo_parse :: "string \<Rightarrow> parsed_url option" where
  "demo_parse s = (if s = ''http://meta/'' then Some \<lparr>pu_Scheme = ''http'', pu_Hostname = ''meta''\<rparr> else None)"

definition demo_parse_ip :: "string \<Rightarrow> ip option" where
  "demo_parse_ip s = (if s = ''169.254.169.254'' then Some (from4 (quad 169 254 169 254)) else None)"

definition demo_lookup :: "string \<Rightarrow> string list option" where
  "demo_lookup s = Some [''169.254.169.254'']"

theorem isSafeURL_iff_witness:
  "isSafeURL saas_config demo_parse demo_parse_ip demo_lookup ''http://meta/'' \<noteq> None"
proof -
  have t: "To4 (from4 (quad 169 254 169 254)) = Some (quad 169 254 169 254)"
    by (simp add: To4_def from4_def quad_def)
  have "\<not> ip_allowed saas_config (from4 (quad 169 254 169 254))"
    unfolding ip_allowed_def t option.case
    by (simp add: in_ranges_def blocked4_def always_blocked4_def addr4_def quad_def)
  then show ?thesis
    using isSafeURL_iff [of saas_config demo_parse demo_parse_ip demo_lookup "''http://meta/''"]
    by (auto simp: saas_config_def demo_parse_def demo_parse_ip_def demo_lookup_def)
qed

text \<open>The metadata service of the cloud provider on IPv6, fd00:ec2::254.\<close>

definition imds_v6 :: ip where
  "imds_v6 = 0xFD000EC2000000000000000000000254"

text \<open>In SaaS mode the guard lets the cloud metadata service through when it is named by its
  IPv6 address fd00:ec2::254, which lies in the locally assigned range that mode opens; strict
  mode blocks it.\<close>

theorem saas_allows_metadata_v6:
  "check_ip saas_config imds_v6 = None \<and>
   check_ip (saas_config\<lparr>sc_MOLECULE_DEPLOY_MODE := ''self-hosted''\<rparr>) imds_v6 = Some (ForbiddenPrivate imds_v6)"
proof -
  have n: "To4 imds_v6 = None" by (simp add: To4_def imds_v6_def)
  have g: "unat imds_v6 div 2 ^ 112 = 0xFD00" "1 < unat imds_v6" by (simp_all add: imds_v6_def)
  have dev: "\<not> devModeAllowsLoopback saas_config" "\<not> devModeAllowsLoopback (saas_config\<lparr>sc_MOLECULE_DEPLOY_MODE := ''self-hosted''\<rparr>)"
    by code_simp+
  have mode: "saasMode saas_config" "\<not> saasMode (saas_config\<lparr>sc_MOLECULE_DEPLOY_MODE := ''self-hosted''\<rparr>)"
    by code_simp+
  have "\<not> local_check cfg imds_v6" for cfg using g by (simp add: local_check_def v6_tests [OF n])
  moreover have "isPrivateOrMetadataIP (saas_config\<lparr>sc_MOLECULE_DEPLOY_MODE := ''self-hosted''\<rparr>) imds_v6"
    using g dev mode by (simp add: isPrivateOrMetadataIP_def n v6_tests [OF n] v6_nets)
  moreover have "\<not> isPrivateOrMetadataIP saas_config imds_v6"
    using g dev mode by (simp add: isPrivateOrMetadataIP_def n v6_tests [OF n] v6_nets)
  ultimately show ?thesis by (simp add: check_ip_def)
qed

section \<open>Relative paths\<close>

lemma contains_dotdot_slash:
  "contains_dotdot (s @ CHR ''/'' # t) \<longleftrightarrow> contains_dotdot s \<or> contains_dotdot t"
  by (induction s rule: contains_dotdot.induct) (cases t; auto)+

lemma split_on_dotdot: "contains_dotdot s \<longleftrightarrow> (\<exists>e \<in> set (split_on (CHR ''/'') s). contains_dotdot e)"
proof (induction "length s" arbitrary: s rule: less_induct)
  case less
  show ?case
  proof (cases "CHR ''/'' \<in> set s")
    case True
    then obtain e t where s: "s = e @ CHR ''/'' # t" "CHR ''/'' \<notin> set e" using split_list_first by metis
    then show ?thesis using less [of t] by (auto simp: split_on_append contains_dotdot_slash)
  qed (simp add: split_on_none)
qed

lemma clean_elems_plain:
  "''..'' \<notin> set es \<Longrightarrow> clean_elems rooted acc es = rev acc @ filter (\<lambda>e. e \<noteq> [] \<and> e \<noteq> ''.'') es"
  by (induction rooted acc es rule: clean_elems.induct) auto

lemma join_slash_dotdot: "contains_dotdot (join_slash es) \<longleftrightarrow> (\<exists>e \<in> set es. contains_dotdot e)"
  by (induction es rule: join_slash.induct) (auto simp: contains_dotdot_slash)

lemma Clean_dotdot:
  assumes "\<not> contains_dotdot p"
  shows "\<not> contains_dotdot (Clean p)"
proof -
  have e: "\<not> contains_dotdot e" if "e \<in> set (split_on (CHR ''/'') p)" for e
    using assms that by (auto simp: split_on_dotdot [of p])
  have "''..'' \<notin> set (split_on (CHR ''/'') p)" using e [of "''..''"] by auto
  then have "\<not> contains_dotdot (join_slash (clean_elems r [] (split_on (CHR ''/'') p)))" for r
    using e by (auto simp: clean_elems_plain join_slash_dotdot)
  moreover have "\<not> contains_dotdot (CHR ''/'' # t) \<longleftrightarrow> \<not> contains_dotdot t" for t
    using contains_dotdot_slash [of "[]" t] by simp
  ultimately show ?thesis by (simp add: Clean_def Let_def)
qed

lemma IsAbs_simps: "\<not> IsAbs []" "IsAbs (c # s) \<longleftrightarrow> c = CHR ''/''"
  by (auto simp: IsAbs_def has_prefix_def)

lemma join_slash_rel: "[] \<notin> set es \<Longrightarrow> \<forall>e \<in> set es. \<not> IsAbs e \<Longrightarrow> \<not> IsAbs (join_slash es)"
proof (induction es rule: join_slash.induct)
  case (3 e d es)
  then show ?case by (cases e) (auto simp: IsAbs_simps)
qed (auto simp: IsAbs_simps)

lemma split_on_rel: "e \<in> set (split_on (CHR ''/'') s) \<Longrightarrow> \<not> IsAbs e"
proof (induction "length s" arbitrary: s rule: less_induct)
  case less
  show ?case
  proof (cases "CHR ''/'' \<in> set s")
    case True
    then obtain d t where s: "s = d @ CHR ''/'' # t" "CHR ''/'' \<notin> set d" using split_list_first by metis
    have "\<not> IsAbs d" using s(2) by (cases d) (auto simp: IsAbs_simps)
    moreover have "e = d \<or> e \<in> set (split_on (CHR ''/'') t)" using less.prems s by (simp add: split_on_append)
    ultimately show ?thesis using less.hyps [of t] s by auto
  next
    case False
    then show ?thesis using less.prems by (cases s) (auto simp: split_on_none IsAbs_simps)
  qed
qed

lemma Clean_IsAbs: "\<not> contains_dotdot p \<Longrightarrow> IsAbs (Clean p) = IsAbs p"
proof -
  assume p: "\<not> contains_dotdot p"
  then have "''..'' \<notin> set (split_on (CHR ''/'') p)" by (auto simp: split_on_dotdot [of p])
  then have "\<not> IsAbs (join_slash (clean_elems r [] (split_on (CHR ''/'') p)))" for r
    using join_slash_rel [of "filter (\<lambda>e. e \<noteq> [] \<and> e \<noteq> ''.'') (split_on (CHR ''/'') p)"] split_on_rel [of _ p]
    by (simp add: clean_elems_plain)
  then show ?thesis by (simp add: Clean_def Let_def IsAbs_simps)
qed

text \<open>
  A path is accepted exactly when it is neither empty nor a single dot, is not absolute, and does
  not contain two dots in a row: the checks of the cleaned path add nothing to those of the raw
  one. Paths such as \<^verbatim>\<open>./\<close> that clean to a single dot are accepted.
\<close>

lemma validateRelPath_iff:
  "validateRelPath p \<longleftrightarrow> p \<noteq> [] \<and> p \<noteq> ''.'' \<and> \<not> IsAbs p \<and> \<not> contains_dotdot p"
  using Clean_dotdot [of p] Clean_IsAbs [of p] by (auto simp: validateRelPath_def Let_def)

lemma validateRelPath_dot_slash: "validateRelPath ''./'' \<and> Clean ''./'' = ''.''"
  by code_simp

end
