(* ===== verification/Agent_URL.thy ===== *)
theory Agent_URL
  imports SSRF_Guard
begin

text \<open>
  \<^verbatim>\<open>validateAgentURL\<close> of \<^verbatim>\<open>internal/handlers/registry.go\<close>, the guard of the URL an agent registers
  under, with \<^verbatim>\<open>isPlatformTunnelHostname\<close> and \<^verbatim>\<open>isProvisionerHostPortURL\<close>, and how it relates to the
  guard of \<^verbatim>\<open>ssrf.go\<close> the proxy applies to the same URL at every dispatch.
\<close>

section \<open>Provisioner URLs\<close>

text \<open>The text after the last occurrence of a character (\<^verbatim>\<open>u[strings.LastIndex(u, ":")+1:]\<close>).\<close>

definition after_last :: "char \<Rightarrow> string \<Rightarrow> string" where
  "after_last c s = last (split_on c s)"

definition isProvisionerHostPortURL :: "string \<Rightarrow> bool" where
  "isProvisionerHostPortURL u =
     (if u = [] then False
      else if \<not> has_prefix ''http://127.0.0.1:'' u \<and> \<not> has_prefix ''http://localhost:'' u then False
      else let port = after_last (CHR '':'') u
           in if port = [] then False
              else case Atoi port of None \<Rightarrow> False | Some n \<Rightarrow> n \<noteq> 8000)"

section \<open>Networks of both families\<close>

text \<open>
  \<^verbatim>\<open>net.ParseCIDR\<close> gives a network of one family; \<^verbatim>\<open>Contains\<close> first reduces a mapped address to its
  four bytes and never matches across families.
\<close>

datatype ipnet = Net4 "ip4 \<times> nat" | Net6 "ip \<times> nat"

definition Contains :: "ipnet \<Rightarrow> ip \<Rightarrow> bool" where
  "Contains net x =
     (case net of
        Net4 n \<Rightarrow> (case To4 x of Some a \<Rightarrow> contains4 n a | None \<Rightarrow> False)
      | Net6 n \<Rightarrow> (case To4 x of Some a \<Rightarrow> False | None \<Rightarrow> contains16 n x))"

record blockedRange =
  br_cidr :: ipnet
  br_label :: string

definition always_ranges :: "blockedRange list" where
  "always_ranges =
     [\<lparr>br_cidr = Net4 (quad 169 254 0 0, 16), br_label = ''link-local address (cloud metadata endpoint)''\<rparr>,
      \<lparr>br_cidr = Net4 (quad 127 0 0 0, 8), br_label = ''loopback address''\<rparr>,
      \<lparr>br_cidr = Net6 (0xFE80 * 2 ^ 112, 10), br_label = ''IPv6 link-local address (cloud metadata analogue)''\<rparr>,
      \<lparr>br_cidr = Net6 (1, 128), br_label = ''IPv6 loopback address''\<rparr>,
      \<lparr>br_cidr = Net4 (quad 192 0 2 0, 24), br_label = ''TEST-NET-1 documentation range (RFC-5737)''\<rparr>,
      \<lparr>br_cidr = Net4 (quad 198 51 100 0, 24), br_label = ''TEST-NET-2 documentation range (RFC-5737)''\<rparr>,
      \<lparr>br_cidr = Net4 (quad 203 0 113 0, 24), br_label = ''TEST-NET-3 documentation range (RFC-5737)''\<rparr>,
      \<lparr>br_cidr = Net4 (quad 100 64 0 0, 10), br_label = ''carrier-grade NAT address (RFC-6598)''\<rparr>,
      \<lparr>br_cidr = Net4 (quad 224 0 0 0, 4), br_label = ''IPv4 multicast address''\<rparr>,
      \<lparr>br_cidr = Net6 (0xFC00 * 2 ^ 112, 8), br_label = ''IPv6 ULA non-routable prefix (fc00::/8)''\<rparr>,
      \<lparr>br_cidr = Net6 (0x20010DB8 * 2 ^ 96, 32), br_label = ''IPv6 documentation address (RFC-3849 reserved)''\<rparr>]"

definition strict_ranges :: "blockedRange list" where
  "strict_ranges =
     [\<lparr>br_cidr = Net4 (quad 10 0 0 0, 8), br_label = ''RFC-1918 private address''\<rparr>,
      \<lparr>br_cidr = Net4 (quad 172 16 0 0, 12), br_label = ''RFC-1918 private address''\<rparr>,
      \<lparr>br_cidr = Net4 (quad 192 168 0 0, 16), br_label = ''RFC-1918 private address''\<rparr>,
      \<lparr>br_cidr = Net6 (0xFD00 * 2 ^ 112, 8), br_label = ''IPv6 ULA address (RFC-4193 private)''\<rparr>]"

definition blockedRanges :: "ssrf_config \<Rightarrow> blockedRange list" where
  "blockedRanges cfg = always_ranges @ (if saasMode cfg then [] else strict_ranges)"

text \<open>The closure \<^verbatim>\<open>checkIP\<close>: the label of the first matching range.\<close>

definition checkIP :: "ssrf_config \<Rightarrow> ip \<Rightarrow> string option" where
  "checkIP cfg x = map_option br_label (find (\<lambda>r. Contains (br_cidr r) x) (blockedRanges cfg))"

section \<open>validateAgentURL\<close>

definition TrimSuffix :: "string \<Rightarrow> string \<Rightarrow> string" where
  "TrimSuffix s suf = (if has_prefix (rev suf) (rev s) then take (length s - length suf) s else s)"

definition HasSuffix :: "string \<Rightarrow> string \<Rightarrow> bool" where
  "HasSuffix s suf = has_prefix (rev suf) (rev s)"

definition isPlatformTunnelHostname :: "string \<Rightarrow> string \<Rightarrow> bool" where
  "isPlatformTunnelHostname MOLECULE_APP_DOMAIN h0 =
     (let h = map lower_ascii (TrimSuffix h0 ''.'')
      in if \<not> has_prefix ''ws-'' h then False
         else let d = map lower_ascii (TrimSpace MOLECULE_APP_DOMAIN);
                  d = (if d = [] then ''moleculesai.app'' else d);
                  d = map lower_ascii (TrimSuffix d ''.'')
              in HasSuffix h (''.'' @ d))"

datatype agent_url_error =
    URLRequired
  | URLInvalid
  | BadScheme string
  | BlockedAddress string
  | Unresolvable string
  | ResolvesToBlocked string string

fun check_resolved :: "ssrf_config \<Rightarrow> string \<Rightarrow> ip list \<Rightarrow> agent_url_error option" where
  "check_resolved cfg hostname [] = None"
| "check_resolved cfg hostname (x # xs) =
     (case checkIP cfg x of
        Some label \<Rightarrow> Some (ResolvesToBlocked hostname label)
      | None \<Rightarrow> check_resolved cfg hostname xs)"

definition validateAgentURL ::
  "ssrf_config \<Rightarrow> string \<Rightarrow> (string \<Rightarrow> parsed_url option) \<Rightarrow> (string \<Rightarrow> ip option) \<Rightarrow> (string \<Rightarrow> ip list option) \<Rightarrow>
   string \<Rightarrow> agent_url_error option" where
  "validateAgentURL cfg app_domain Parse ParseIP LookupIP rawURL =
     (if rawURL = [] then Some URLRequired
      else case Parse rawURL of
             None \<Rightarrow> Some URLInvalid
           | Some parsed \<Rightarrow>
               if pu_Scheme parsed \<noteq> ''http'' \<and> pu_Scheme parsed \<noteq> ''https'' then Some (BadScheme (pu_Scheme parsed))
               else let hostname = pu_Hostname parsed
                    in case ParseIP hostname of
                         Some x \<Rightarrow> map_option BlockedAddress (checkIP cfg x)
                       | None \<Rightarrow>
                           if hostname = ''localhost'' then None
                           else case LookupIP hostname of
                                  None \<Rightarrow>
                                    if saasMode cfg \<and> isPlatformTunnelHostname app_domain hostname then None
                                    else Some (Unresolvable hostname)
                                | Some ips \<Rightarrow> check_resolved cfg hostname ips)"

section \<open>The ranges of the registration guard\<close>

lemma checkIP_None_iff:
  "checkIP cfg x = None \<longleftrightarrow>
     (\<forall>r \<in> set always_ranges. \<not> Contains (br_cidr r) x) \<and>
     (saasMode cfg \<or> (\<forall>r \<in> set strict_ranges. \<not> Contains (br_cidr r) x))"
  by (auto simp: checkIP_def blockedRanges_def find_None_iff)

lemma check_resolved_None_iff:
  "check_resolved cfg hostname ips = None \<longleftrightarrow> (\<forall>x \<in> set ips. checkIP cfg x = None)"
  by (induction ips) (auto split: option.splits)

lemma Contains_v4:
  assumes "To4 x = Some a"
  shows "Contains (Net4 n) x = contains4 n a" "\<not> Contains (Net6 m) x"
  using assms by (simp_all add: Contains_def)

lemma Contains_v6:
  assumes "To4 x = None"
  shows "\<not> Contains (Net4 n) x" "Contains (Net6 m) x = contains16 m x"
  using assms by (simp_all add: Contains_def)

definition agent_ranges4 :: "ssrf_config \<Rightarrow> (nat \<times> nat) list" where
  "agent_ranges4 cfg =
     [(addr4 169 254 0 0, addr4 169 254 255 255), (addr4 127 0 0 0, addr4 127 255 255 255),
      (addr4 192 0 2 0, addr4 192 0 2 255), (addr4 198 51 100 0, addr4 198 51 100 255),
      (addr4 203 0 113 0, addr4 203 0 113 255), (addr4 100 64 0 0, addr4 100 127 255 255),
      (addr4 224 0 0 0, addr4 239 255 255 255)] @
     (if saasMode cfg then []
      else [(addr4 10 0 0 0, addr4 10 255 255 255), (addr4 172 16 0 0, addr4 172 31 255 255),
            (addr4 192 168 0 0, addr4 192 168 255 255)])"

lemma checkIP_v4:
  assumes "To4 x = Some a"
  shows "checkIP cfg x = None \<longleftrightarrow> \<not> in_ranges (unat a) (agent_ranges4 cfg)"
  unfolding checkIP_None_iff always_ranges_def strict_ranges_def in_ranges_def agent_ranges4_def
  using contains_quad [of 16 169 254 0 0 43518 a] contains_quad [of 10 100 64 0 0 401 a]
    contains_quad [of 24 192 0 2 0 12582914 a] contains_quad [of 24 198 51 100 0 12989284 a]
    contains_quad [of 24 203 0 113 0 13303921 a] contains_quad [of 8 127 0 0 0 127 a] contains_quad [of 4 224 0 0 0 14 a]
    contains_quad [of 8 10 0 0 0 10 a] contains_quad [of 12 172 16 0 0 2753 a] contains_quad [of 16 192 168 0 0 49320 a]
  by (simp add: Contains_v4 [OF assms] addr4_def)

text \<open>Every IPv4 range of the proxy guard but the first is, or lies inside, a range of the registration guard.\<close>

lemma blocked4_covered:
  "set (blocked4 cfg) \<subseteq> {(addr4 0 0 0 0, addr4 0 0 0 0), (addr4 224 0 0 0, addr4 224 0 0 255)} \<union> set (agent_ranges4 cfg)"
proof -
  have "set always_blocked4 \<subseteq> {(addr4 0 0 0 0, addr4 0 0 0 0), (addr4 224 0 0 0, addr4 224 0 0 255)} \<union> set (agent_ranges4 cfg)"
    unfolding always_blocked4_def agent_ranges4_def list.set set_append by blast
  moreover have "\<not> relaxed cfg \<Longrightarrow> \<not> saasMode cfg" by (simp add: relaxed_def)
  ultimately show ?thesis unfolding blocked4_def agent_ranges4_def by (cases "relaxed cfg") auto
qed

lemma in_ranges_covered:
  assumes "\<not> in_ranges n (agent_ranges4 cfg)"
  shows "in_ranges n (blocked4 cfg) \<longleftrightarrow> n = 0"
proof
  assume "in_ranges n (blocked4 cfg)"
  then obtain lo hi where r: "(lo, hi) \<in> set (blocked4 cfg)" "lo \<le> n" "n \<le> hi"
    unfolding in_ranges_def list_ex_iff by blast
  have no: "\<not> (lo \<le> n \<and> n \<le> hi)" if "(lo, hi) \<in> set (agent_ranges4 cfg)" for lo hi
    using assms that unfolding in_ranges_def list_ex_iff by blast
  have "(addr4 224 0 0 0, addr4 239 255 255 255) \<in> set (agent_ranges4 cfg)"
    unfolding agent_ranges4_def by simp
  from no [OF this] have "\<not> (addr4 224 0 0 0 \<le> n \<and> n \<le> addr4 224 0 0 255)"
    unfolding addr4_def by linarith
  with r no [of lo hi] blocked4_covered [of cfg] have "(lo, hi) = (addr4 0 0 0 0, addr4 0 0 0 0)" by blast
  with r show "n = 0" by (simp add: addr4_def)
next
  assume "n = 0"
  moreover have "(addr4 0 0 0 0, addr4 0 0 0 0) \<in> set (blocked4 cfg)"
    unfolding blocked4_def always_blocked4_def by simp
  ultimately show "in_ranges n (blocked4 cfg)" unfolding in_ranges_def list_ex_iff
    by (intro bexI) (auto simp: addr4_def)
qed

lemma checkIP_v6:
  assumes "To4 x = None"
  shows "checkIP cfg x = None \<longleftrightarrow>
    \<not> (let g = unat x div 2 ^ 112
       in unat x = 1 \<or> (0xFE80 \<le> g \<and> g \<le> 0xFEBF) \<or> (0xFC00 \<le> g \<and> g < 0xFD00) \<or>
          unat x div 2 ^ 96 = 0x20010DB8 \<or> (0xFD00 \<le> g \<and> g < 0xFE00 \<and> \<not> saasMode cfg))"
proof -
  have d: "unat x div 2 ^ 118 = unat x div 2 ^ 112 div 64" "unat x div 2 ^ 120 = unat x div 2 ^ 112 div 256"
    unfolding div_mult2_eq [symmetric] by simp_all
  have g: "m div 64 = 1018 \<longleftrightarrow> 0xFE80 \<le> m \<and> m \<le> 0xFEBF" "m div 256 = 252 \<longleftrightarrow> 0xFC00 \<le> m \<and> m < 0xFD00"
    "m div 256 = 253 \<longleftrightarrow> 0xFD00 \<le> m \<and> m < 0xFE00" for m :: nat
    using div_eq_range [of 64 m 1018] div_eq_range [of 256 m 252] div_eq_range [of 256 m 253] by auto
  have "contains16 (0xFE80 * 2 ^ 112, 10) x \<longleftrightarrow> unat x div 2 ^ 118 = 1018"
    using contains16_range [of 10 "0xFE80 * 2 ^ 112" x] by simp
  moreover have "contains16 (1, 128) x \<longleftrightarrow> unat x = 1"
    using contains16_range [of 128 1 x] by simp
  moreover have "contains16 (0xFC00 * 2 ^ 112, 8) x \<longleftrightarrow> unat x div 2 ^ 120 = 252"
    using contains16_range [of 8 "0xFC00 * 2 ^ 112" x] by simp
  moreover have "contains16 (0xFD00 * 2 ^ 112, 8) x \<longleftrightarrow> unat x div 2 ^ 120 = 253"
    using contains16_range [of 8 "0xFD00 * 2 ^ 112" x] by simp
  moreover have "contains16 (0x20010DB8 * 2 ^ 96, 32) x \<longleftrightarrow> unat x div 2 ^ 96 = 0x20010DB8"
    using contains16_range [of 32 "0x20010DB8 * 2 ^ 96" x] by simp
  ultimately have "checkIP cfg x = None \<longleftrightarrow>
     \<not> (unat x div 2 ^ 118 = 1018 \<or> unat x = 1 \<or> unat x div 2 ^ 120 = 252 \<or> unat x div 2 ^ 96 = 0x20010DB8) \<and>
     (saasMode cfg \<or> unat x div 2 ^ 120 \<noteq> 253)"
    unfolding checkIP_None_iff always_ranges_def strict_ranges_def
    by (simp add: Contains_v6 [OF assms] del: mult_numeral_1 )
  then show ?thesis unfolding d g Let_def by blast
qed

section \<open>The two guards\<close>

text \<open>IPv6 multicast of interface or link scope, ff\<^emph>\<open>x\<close>1::/16 and ff\<^emph>\<open>x\<close>2::/16.\<close>

definition local_multicast6 :: "ip \<Rightarrow> bool" where
  "local_multicast6 x \<longleftrightarrow> To4 x = None \<and> 0xFF00 \<le> unat x div 2 ^ 112 \<and>
     (unat x div 2 ^ 112 mod 16 = 1 \<or> unat x div 2 ^ 112 mod 16 = 2)"

text \<open>An address that passes the registration guard passes the guard of the proxy as well, in
  every deployment mode, unless it is the unspecified address of either family or an IPv6
  multicast address of interface or link scope; those four classes register and are refused at
  every dispatch.\<close>

theorem registered_address_dispatchable:
  assumes "checkIP cfg x = None"
  shows "check_ip cfg x = None \<longleftrightarrow> \<not> IsUnspecified x \<and> \<not> local_multicast6 x"
proof (cases "To4 x")
  case (Some a)
  have "\<not> local_multicast6 x" by (simp add: local_multicast6_def Some)
  then show ?thesis
    using assms in_ranges_covered [of "unat a" cfg]
    unfolding check_ip_v4 [OF Some] checkIP_v4 [OF Some] v4_unspecified [OF Some] by simp
next
  case None
  show ?thesis
    using assms unfolding check_ip_v6 [OF None] checkIP_v6 [OF None] v6_tests(2) [OF None] local_multicast6_def
    by (auto simp: blocked6_def Let_def None relaxed_def)
qed

theorem registered_address_dispatchable_witness:
  "check_ip saas_config (from4 (quad 10 0 0 7)) = None \<and> check_ip saas_config (from4 (quad 0 0 0 0)) \<noteq> None"
proof -
  have t: "To4 (from4 (quad 10 0 0 7)) = Some (quad 10 0 0 7)" "To4 (from4 (quad 0 0 0 0)) = Some (quad 0 0 0 0)"
    by (simp_all add: To4_def from4_def quad_def)
  have s: "saasMode saas_config" by code_simp
  have "checkIP saas_config (from4 (quad 10 0 0 7)) = None" "checkIP saas_config (from4 (quad 0 0 0 0)) = None"
    unfolding checkIP_v4 [OF t(1)] checkIP_v4 [OF t(2)] by (simp_all add: s in_ranges_def agent_ranges4_def addr4_def quad_def)
  moreover have "\<not> IsUnspecified (from4 (quad 10 0 0 7))" "IsUnspecified (from4 (quad 0 0 0 0))"
    by (simp_all add: IsUnspecified_def from4_def quad_def)
  ultimately show ?thesis
    using registered_address_dispatchable [of saas_config "from4 (quad 10 0 0 7)"]
      registered_address_dispatchable [of saas_config "from4 (quad 0 0 0 0)"]
    by (simp add: local_multicast6_def t)
qed

end
