(* ===== verification/Chat_Names.thy ===== *)
theory Chat_Names
  imports Text_Util Go_Std
begin

text \<open>
  The text helpers of \<^verbatim>\<open>internal/handlers/chat_files.go\<close>: \<^verbatim>\<open>SanitizeFilename\<close>, \<^verbatim>\<open>safeMimetype\<close>,
  \<^verbatim>\<open>urlPathEscape\<close> and \<^verbatim>\<open>contentDispositionAttachment\<close>, over the bytes of Go strings. The lemmas show
  that a stored name is safe and stable, and that no stored text can break out of a response
  header.
\<close>

section \<open>File names\<close>

text \<open>\<^verbatim>\<open>filepath.Base\<close> on Unix.\<close>

definition strip_slashes :: "string \<Rightarrow> string" where
  "strip_slashes p = rev (dropWhile (\<lambda>c. c = CHR ''/'') (rev p))"

definition Base :: "string \<Rightarrow> string" where
  "Base p =
     (if p = [] then ''.''
      else let p = strip_slashes p;
               p = last (split_on (CHR ''/'') p)
           in if p = [] then ''/'' else p)"

definition safe_name_char :: "char \<Rightarrow> bool" where
  "safe_name_char c \<longleftrightarrow>
     (97 \<le> byte c \<and> byte c \<le> 122) \<or> (65 \<le> byte c \<and> byte c \<le> 90) \<or> (48 \<le> byte c \<and> byte c \<le> 57) \<or>
     c = CHR ''.'' \<or> c = CHR ''_'' \<or> c = CHR ''-''"

text \<open>
  \<^verbatim>\<open>unsafeFilenameChars.ReplaceAllString\<close>: the expression matches one rune, or one byte that is not
  part of a well-formed rune.
\<close>

function replace_unsafe :: "string \<Rightarrow> string" where
  "replace_unsafe s =
     (case s of
        [] \<Rightarrow> []
      | c # r \<Rightarrow> (if safe_name_char c then c else CHR ''_'') # replace_unsafe (drop (rune_step s) s))"
  by pat_completeness auto
termination
  by (relation "measure length") (auto simp: diff_less)

declare replace_unsafe.simps [simp del]

definition spaces_to_underscore :: "string \<Rightarrow> string" where
  "spaces_to_underscore s = map (\<lambda>c. if c = CHR '' '' then CHR ''_'' else c) s"

text \<open>The extension kept by the cut: at most 16 bytes from the last dot, the dot included.\<close>

definition kept_ext :: "string \<Rightarrow> string" where
  "kept_ext base =
     (if CHR ''.'' \<in> set base
      then let ext = CHR ''.'' # last (split_on (CHR ''.'') base)
           in if length ext \<le> 16 then ext else []
      else [])"

definition SanitizeFilename :: "string \<Rightarrow> string" where
  "SanitizeFilename name =
     (let base = replace_unsafe (spaces_to_underscore (Base name));
          base = (if 100 < length base
                  then let ext = kept_ext base in take (100 - length ext) base @ ext
                  else base)
      in if base = [] \<or> base = ''.'' \<or> base = ''..'' then ''file'' else base)"

section \<open>Header values\<close>

definition fallback_mimetype :: string where
  "fallback_mimetype = ''application/octet-stream''"

definition safeMimetype :: "string \<Rightarrow> string" where
  "safeMimetype raw0 =
     (let raw = TrimSpace (takeWhile (\<lambda>c. c \<noteq> CHR '';'') raw0)
      in if raw = [] then []
         else if list_ex (\<lambda>c. byte c < 0x21 \<or> byte c > 0x7E) raw then fallback_mimetype
         else let parts = split_on (CHR ''/'') raw
              in if length parts \<noteq> 2 \<or> parts ! 0 = [] \<or> parts ! 1 = [] then fallback_mimetype else raw)"

definition unreserved :: "char \<Rightarrow> bool" where
  "unreserved c \<longleftrightarrow>
     (65 \<le> byte c \<and> byte c \<le> 90) \<or> (97 \<le> byte c \<and> byte c \<le> 122) \<or> (48 \<le> byte c \<and> byte c \<le> 57) \<or>
     c = CHR ''-'' \<or> c = CHR ''.'' \<or> c = CHR ''_'' \<or> c = CHR ''~''"

definition hex_upper :: "nat \<Rightarrow> char" where
  "hex_upper d = char_of (if d < 10 then 48 + d else 55 + d)"

fun urlPathEscape :: "string \<Rightarrow> string" where
  "urlPathEscape [] = []"
| "urlPathEscape (c # s) =
     (if unreserved c then c # urlPathEscape s
      else CHR ''%'' # hex_upper (byte c div 16) # hex_upper (byte c mod 16) # urlPathEscape s)"

text \<open>U+FFFD, what \<^verbatim>\<open>range\<close> yields for an ill-formed byte, in its encoding.\<close>

definition replacement_char :: string where
  "replacement_char = [CHR 0xEF, CHR 0xBF, CHR 0xBD]"

function quoted_name :: "string \<Rightarrow> string" where
  "quoted_name s =
     (case s of
        [] \<Rightarrow> []
      | c # r \<Rightarrow>
          (if rune_len s = None then replacement_char
           else if c = CHR 0x0D \<or> c = CHR 0x0A then []
           else if c = CHR 0x22 \<or> c = CHR 0x5C then [CHR 0x5C, c]
           else if byte c < 0x20 \<or> byte c = 0x7F then []
           else take (rune_step s) s) @ quoted_name (drop (rune_step s) s))"
  by pat_completeness auto
termination
  by (relation "measure length") (auto simp: diff_less)

declare quoted_name.simps [simp del]

definition contentDispositionAttachment :: "string \<Rightarrow> string" where
  "contentDispositionAttachment name =
     ''attachment; filename='' @ [CHR 0x22] @ quoted_name name @ [CHR 0x22] @ ''; filename*=UTF-8'' @
     [CHR 0x27, CHR 0x27] @ urlPathEscape name"

section \<open>Sanitized names\<close>

lemma replace_unsafe_Nil [simp]: "replace_unsafe [] = []"
  by (subst replace_unsafe.simps) simp

lemma replace_unsafe_Cons:
  "replace_unsafe (c # r) = (if safe_name_char c then c else CHR ''_'') # replace_unsafe (drop (rune_step (c # r)) (c # r))"
  by (subst replace_unsafe.simps) simp

lemma safe_underscore [simp]: "safe_name_char (CHR ''_'')" "safe_name_char (CHR ''.'')"
  by (simp_all add: safe_name_char_def)

lemma replace_unsafe_safe: "set (replace_unsafe s) \<subseteq> Collect safe_name_char"
proof (induction s rule: replace_unsafe.induct)
  case (1 s)
  then show ?case by (cases s) (auto simp: replace_unsafe_Cons)
qed

lemma safe_ascii: "safe_name_char c \<Longrightarrow> byte c < 128"
  by (auto simp: safe_name_char_def byte_def)

lemma rune_step_ascii: "byte c < 128 \<Longrightarrow> rune_step (c # r) = 1"
  by (simp add: rune_step_def)

lemma replace_unsafe_id: "set s \<subseteq> Collect safe_name_char \<Longrightarrow> replace_unsafe s = s"
  by (induction s) (auto simp: replace_unsafe_Cons rune_step_ascii safe_ascii)

lemma spaces_id: "set s \<subseteq> Collect safe_name_char \<Longrightarrow> spaces_to_underscore s = s"
  by (induction s) (auto simp: spaces_to_underscore_def safe_name_char_def byte_def)

lemma slash_unsafe: "set s \<subseteq> Collect safe_name_char \<Longrightarrow> CHR ''/'' \<notin> set s"
  by (auto simp: safe_name_char_def byte_def)

lemma Base_id: "s \<noteq> [] \<Longrightarrow> CHR ''/'' \<notin> set s \<Longrightarrow> Base s = s"
proof -
  assume s: "s \<noteq> []" "CHR ''/'' \<notin> set s"
  then have "strip_slashes s = s"
    by (cases s rule: rev_cases) (auto simp: strip_slashes_def)
  with s show ?thesis by (simp add: Base_def split_on_none Let_def)
qed

lemma split_on_subset: "x \<in> set (split_on sep s) \<Longrightarrow> set x \<subseteq> set s"
proof (induction s arbitrary: x rule: split_on.induct)
  case (2 sep c s)
  obtain y ys where ys: "split_on sep s = y # ys" by (cases "split_on sep s") auto
  have IH: "z \<in> set (y # ys) \<Longrightarrow> set z \<subseteq> set s" for z using "2.IH" ys by (cases "c = sep") auto
  have "x = [] \<or> x \<in> set (y # ys) \<or> x = c # y" using "2.prems" ys by (auto split: if_splits)
  with IH [of x] IH [of y] show ?case by auto
qed simp

lemma kept_ext_length: "length (kept_ext base) \<le> 16"
  by (simp add: kept_ext_def Let_def)

lemma kept_ext_subset: "set (kept_ext base) \<subseteq> set base"
  using split_on_subset [of "last (split_on (CHR ''.'') base)" "CHR ''.''" base]
  by (auto simp: kept_ext_def Let_def)

text \<open>A sanitized file name is never empty, a single dot or two dots, has at most 100 bytes, all
  of them letters, digits, dot, underscore or dash (so it holds no separator and no control byte),
  and sanitizing it again changes nothing.\<close>

theorem SanitizeFilename_safe:
  "SanitizeFilename name \<notin> {[], ''.'', ''..''} \<and> length (SanitizeFilename name) \<le> 100 \<and>
   set (SanitizeFilename name) \<subseteq> Collect safe_name_char \<and>
   SanitizeFilename (SanitizeFilename name) = SanitizeFilename name"
proof -
  define b where "b = replace_unsafe (spaces_to_underscore (Base name))"
  define d where "d = (if 100 < length b then take (100 - length (kept_ext b)) b @ kept_ext b else b)"
  have s: "SanitizeFilename name = (if d = [] \<or> d = ''.'' \<or> d = ''..'' then ''file'' else d)"
    unfolding SanitizeFilename_def Let_def b_def d_def ..
  have "set b \<subseteq> Collect safe_name_char" unfolding b_def by (rule replace_unsafe_safe)
  then have d_safe: "set d \<subseteq> Collect safe_name_char"
    using kept_ext_subset [of b] unfolding d_def by (auto dest: in_set_takeD)
  have d_len: "length d \<le> 100" using kept_ext_length [of b] unfolding d_def by auto
  have "set ''file'' \<subseteq> Collect safe_name_char" by (simp add: safe_name_char_def byte_def)
  with s d_safe d_len have r: "SanitizeFilename name \<notin> {[], ''.'', ''..''}" "length (SanitizeFilename name) \<le> 100"
    "set (SanitizeFilename name) \<subseteq> Collect safe_name_char" by auto
  have "SanitizeFilename x = x" if "x \<notin> {[], ''.'', ''..''}" "length x \<le> 100" "set x \<subseteq> Collect safe_name_char" for x
    using that Base_id [of x] slash_unsafe [of x] by (simp add: SanitizeFilename_def Let_def spaces_id replace_unsafe_id)
  from this [OF r] r show ?thesis by simp
qed

section \<open>Header values cannot break out\<close>

text \<open>How a client reads the value: a quoted-string up to the first quote without a backslash, and percent escapes.\<close>

fun read_quoted :: "string \<Rightarrow> (string \<times> string) option" where
  "read_quoted [] = None"
| "read_quoted (c # s) =
     (if c = CHR 0x22 then Some ([], s)
      else if c = CHR 0x5C then (case s of [] \<Rightarrow> None | d # t \<Rightarrow> map_option (apfst (Cons d)) (read_quoted t))
      else map_option (apfst (Cons c)) (read_quoted s))"

definition hex_value :: "char \<Rightarrow> nat" where
  "hex_value c = (if byte c < 58 then byte c - 48 else byte c - 55)"

fun percent_decode :: "string \<Rightarrow> string" where
  "percent_decode (c # h # l # s) =
     (if c = CHR ''%'' then char_of (16 * hex_value h + hex_value l) # percent_decode s
      else c # percent_decode (h # l # s))"
| "percent_decode s = s"

text \<open>The name without its control bytes, ill-formed bytes replaced.\<close>

function plain_name :: "string \<Rightarrow> string" where
  "plain_name s =
     (case s of
        [] \<Rightarrow> []
      | c # r \<Rightarrow>
          (if rune_len s = None then replacement_char
           else if byte c < 0x20 \<or> byte c = 0x7F then [] else take (rune_step s) s) @ plain_name (drop (rune_step s) s))"
  by pat_completeness auto
termination
  by (relation "measure length") (auto simp: diff_less)

declare plain_name.simps [simp del]

lemma byte_of_nat [simp]: "byte (char_of n) = n mod 256" for n :: nat
  by (simp add: byte_def)

lemma byte_lt: "byte c < 256"
  using of_char_of [of "of_char c :: nat"] unfolding byte_def by (metis char_of_char mod_less_divisor zero_less_numeral)

lemma hex_value_upper: "d < 16 \<Longrightarrow> hex_value (hex_upper d) = d"
  by (auto simp: hex_value_def hex_upper_def)

lemma percent_decode_Cons: "c \<noteq> CHR ''%'' \<Longrightarrow> percent_decode (c # s) = c # percent_decode s"
  by (cases s rule: percent_decode.cases) (auto simp: neq_Nil_conv)

lemma percent_roundtrip: "percent_decode (urlPathEscape s) = s"
proof (induction s)
  case (Cons c s)
  have "16 * (byte c div 16) + byte c mod 16 = byte c" by simp
  moreover have "byte c div 16 < 16" using byte_lt [of c] by (simp add: less_mult_imp_div_less)
  moreover have "char_of (byte c) = c" by (simp add: byte_def)
  moreover have "\<not> unreserved (CHR ''%'')" by (simp add: unreserved_def byte_def)
  ultimately show ?case
    using Cons percent_decode_Cons [of c "urlPathEscape s"] by (cases "unreserved c") (auto simp: hex_value_upper)
qed simp

lemma urlPathEscape_visible: "set (urlPathEscape s) \<subseteq> {c. 0x20 \<le> byte c \<and> byte c \<noteq> 0x7F}"
proof (induction s)
  case (Cons c s)
  have h: "0x20 \<le> byte (hex_upper d) \<and> byte (hex_upper d) \<noteq> 0x7F" if "d < 16" for d
    using that by (auto simp: hex_upper_def)
  have "byte c div 16 < 16" using byte_lt [of c] by (simp add: less_mult_imp_div_less)
  with h Cons show ?case by (auto simp: unreserved_def byte_def)
qed simp

lemma multibyte_high:
  assumes "rune_len s = Some w" "128 \<le> byte (hd s)"
  shows "set (take w s) \<subseteq> {c. 128 \<le> byte c}"
  using assms by (cases s) (auto split: if_splits list.splits simp: cont_byte_def second_ok_def)

lemma quoted_name_Cons:
  "quoted_name (c # r) =
     (if rune_len (c # r) = None then replacement_char
      else if c = CHR 0x0D \<or> c = CHR 0x0A then []
      else if c = CHR 0x22 \<or> c = CHR 0x5C then [CHR 0x5C, c]
      else if byte c < 0x20 \<or> byte c = 0x7F then []
      else take (rune_step (c # r)) (c # r)) @ quoted_name (drop (rune_step (c # r)) (c # r))"
  by (subst quoted_name.simps) simp

lemma plain_name_Cons:
  "plain_name (c # r) =
     (if rune_len (c # r) = None then replacement_char
      else if byte c < 0x20 \<or> byte c = 0x7F then [] else take (rune_step (c # r)) (c # r)) @
     plain_name (drop (rune_step (c # r)) (c # r))"
  by (subst plain_name.simps) simp

lemma name_Nil [simp]: "quoted_name [] = []" "plain_name [] = []"
  by (simp_all add: quoted_name.simps plain_name.simps)

lemma read_quoted_plain:
  "CHR 0x22 \<notin> set p \<Longrightarrow> CHR 0x5C \<notin> set p \<Longrightarrow> read_quoted (p @ s) = map_option (apfst ((@) p)) (read_quoted s)"
  by (induction p) (auto simp: apfst_def map_prod_def option.map_comp o_def map_option_case split: option.splits)

lemma replacement_char_bytes: "set replacement_char \<subseteq> {c. 128 \<le> byte c}"
  by (simp add: replacement_char_def byte_def)

lemma byte_eq_iff: "byte c = byte d \<longleftrightarrow> c = d"
  by (simp add: byte_def)

lemma mark_bytes:
  "byte (CHR 0x0D) = 13" "byte (CHR 0x0A) = 10" "byte (CHR 0x22) = 34" "byte (CHR 0x5C) = 92"
  by (simp_all add: byte_def)

text \<open>One rune of the loop in its escaped and its plain form.\<close>

definition rune_forms :: "string \<Rightarrow> string \<Rightarrow> bool" where
  "rune_forms q p \<longleftrightarrow>
     (q = p \<and> CHR 0x22 \<notin> set p \<and> CHR 0x5C \<notin> set p \<and> set p \<subseteq> {c. 0x20 \<le> byte c \<and> byte c \<noteq> 0x7F}) \<or>
     (\<exists>c \<in> {CHR 0x22, CHR 0x5C}. q = [CHR 0x5C, c] \<and> p = [c])"

lemma high_forms: "set p \<subseteq> {c. 128 \<le> byte c} \<Longrightarrow> rune_forms p p"
  using mark_bytes unfolding rune_forms_def by force

lemma rune_forms_visible: "rune_forms q p \<Longrightarrow> set q \<subseteq> {c. 0x20 \<le> byte c \<and> byte c \<noteq> 0x7F}"
  unfolding rune_forms_def by (auto simp: byte_def)

lemma read_rune: "rune_forms q p \<Longrightarrow> read_quoted s = Some (v, rest) \<Longrightarrow> read_quoted (q @ s) = Some (p @ v, rest)"
  unfolding rune_forms_def by (auto simp: read_quoted_plain)

lemma quoted_step:
  assumes "s \<noteq> []"
  shows "\<exists>q p. quoted_name s = q @ quoted_name (drop (rune_step s) s) \<and>
    plain_name s = p @ plain_name (drop (rune_step s) s) \<and> rune_forms q p"
proof -
  obtain c r where s: "s = c # r" using assms by (cases s) auto
  note eqs = quoted_name_Cons [of c r, folded s] plain_name_Cons [of c r, folded s]
  consider "rune_len s = None" | w where "rune_len s = Some w" "128 \<le> byte c" | "byte c < 128" by fastforce
  then show ?thesis
  proof cases
    case 1
    then show ?thesis using eqs high_forms [OF replacement_char_bytes] by auto
  next
    case (2 w)
    have "rune_forms (take w s) (take w s)" using multibyte_high [of s w] 2 by (simp add: s high_forms)
    moreover have "c \<noteq> CHR 0x0D" "c \<noteq> CHR 0x0A" "c \<noteq> CHR 0x22" "c \<noteq> CHR 0x5C" using 2(2) mark_bytes by auto
    ultimately show ?thesis using eqs 2 by (auto simp: rune_step_def)
  next
    case 3
    then have w: "rune_len s = Some 1" "rune_step s = 1" "take 1 s = [c]" by (simp_all add: s rune_step_ascii)
    have x: "(byte c = 13 \<or> byte c = 10 \<longrightarrow> byte c < 0x20) \<and> (byte c = 34 \<or> byte c = 92 \<longrightarrow> \<not> (byte c < 0x20 \<or> byte c = 0x7F))" by auto
    have m: "c = CHR 0x0D \<longleftrightarrow> byte c = 13" "c = CHR 0x0A \<longleftrightarrow> byte c = 10" "c = CHR 0x22 \<longleftrightarrow> byte c = 34" "c = CHR 0x5C \<longleftrightarrow> byte c = 92"
      using byte_eq_iff [of c "CHR 0x0D"] byte_eq_iff [of c "CHR 0x0A"] byte_eq_iff [of c "CHR 0x22"] byte_eq_iff [of c "CHR 0x5C"]
      unfolding mark_bytes by blast+
    show ?thesis
    proof (cases "byte c < 0x20 \<or> byte c = 0x7F")
      case True
      then have "rune_forms [] []" "c \<noteq> CHR 0x22" "c \<noteq> CHR 0x5C" using x m by (auto simp: rune_forms_def)
      then show ?thesis using eqs w True by auto
    next
      case False
      then have "c \<noteq> CHR 0x0D" "c \<noteq> CHR 0x0A" using x m by blast+
      moreover have "rune_forms (if c = CHR 0x22 \<or> c = CHR 0x5C then [CHR 0x5C, c] else [c]) [c]"
        using False by (auto simp: rune_forms_def)
      ultimately show ?thesis using eqs w False by auto
    qed
  qed
qed

lemma quoted_name_visible: "set (quoted_name s) \<subseteq> {c. 0x20 \<le> byte c \<and> byte c \<noteq> 0x7F}"
proof (induction s rule: quoted_name.induct)
  case (1 s)
  show ?case
  proof (cases s)
    case (Cons c r)
    with quoted_step [of s] obtain q p where "quoted_name s = q @ quoted_name (drop (rune_step s) s)" "rune_forms q p" by auto
    with rune_forms_visible [of q p] 1 [OF Cons] show ?thesis by auto
  qed simp
qed

lemma read_quoted_name: "read_quoted (quoted_name s @ CHR 0x22 # rest) = Some (plain_name s, rest)"
proof (induction s rule: quoted_name.induct)
  case (1 s)
  show ?case
  proof (cases s)
    case (Cons c r)
    with quoted_step [of s] obtain q p where "quoted_name s = q @ quoted_name (drop (rune_step s) s)"
      "plain_name s = p @ plain_name (drop (rune_step s) s)" "rune_forms q p" by auto
    with read_rune [OF _ 1 [OF Cons], of q p] show ?thesis by simp
  qed simp
qed

text \<open>For every file name, the Content-Disposition header holds no control byte, so it cannot
  end its header line; a client that reads the quoted filename stops at the quote the server
  wrote and gets the name without its control characters; and the encoded filename decodes to the
  exact name.\<close>

theorem contentDisposition_safe:
  "set (contentDispositionAttachment name) \<subseteq> {c. 0x20 \<le> byte c \<and> byte c \<noteq> 0x7F} \<and>
   (\<exists>q. contentDispositionAttachment name = ''attachment; filename='' @ CHR 0x22 # q \<and>
      read_quoted q = Some (plain_name name, ''; filename*=UTF-8'' @ [CHR 0x27, CHR 0x27] @ urlPathEscape name)) \<and>
   percent_decode (urlPathEscape name) = name"
proof -
  have "set (''attachment; filename='' @ [CHR 0x22]) \<union> set ([CHR 0x22] @ ''; filename*=UTF-8'' @ [CHR 0x27, CHR 0x27]) \<subseteq>
      {c. 0x20 \<le> byte c \<and> byte c \<noteq> 0x7F}"
    by (simp add: byte_def)
  then have "set (contentDispositionAttachment name) \<subseteq> {c. 0x20 \<le> byte c \<and> byte c \<noteq> 0x7F}"
    using quoted_name_visible [of name] urlPathEscape_visible [of name]
    unfolding contentDispositionAttachment_def set_append by blast
  moreover have "\<exists>q. contentDispositionAttachment name = ''attachment; filename='' @ CHR 0x22 # q \<and>
      read_quoted q = Some (plain_name name, ''; filename*=UTF-8'' @ [CHR 0x27, CHR 0x27] @ urlPathEscape name)"
    by (rule exI [of _ "quoted_name name @ CHR 0x22 # ''; filename*=UTF-8'' @ [CHR 0x27, CHR 0x27] @ urlPathEscape name"])
      (simp add: contentDispositionAttachment_def read_quoted_name)
  ultimately show ?thesis using percent_roundtrip by blast
qed

text \<open>A stored media type is empty or consists of visible characters with one slash between two nonempty parts.\<close>

lemma safeMimetype_safe:
  "safeMimetype raw = [] \<or>
   (set (safeMimetype raw) \<subseteq> {c. 0x21 \<le> byte c \<and> byte c \<le> 0x7E} \<and>
    (\<exists>t u. split_on (CHR ''/'') (safeMimetype raw) = [t, u] \<and> t \<noteq> [] \<and> u \<noteq> []))"
proof -
  have f: "set fallback_mimetype \<subseteq> {c. 0x21 \<le> byte c \<and> byte c \<le> 0x7E}"
    "split_on (CHR ''/'') fallback_mimetype = [''application'', ''octet-stream'']"
    by (simp_all add: fallback_mimetype_def byte_def)
  define r where "r = TrimSpace (takeWhile (\<lambda>c. c \<noteq> CHR '';'') raw)"
  define bad two where "bad \<longleftrightarrow> list_ex (\<lambda>c. byte c < 0x21 \<or> byte c > 0x7E) r"
    and "two \<longleftrightarrow> length (split_on (CHR ''/'') r) = 2 \<and> split_on (CHR ''/'') r ! 0 \<noteq> [] \<and> split_on (CHR ''/'') r ! 1 \<noteq> []"
  have e: "safeMimetype raw = (if r = [] then [] else if bad then fallback_mimetype else if two then r else fallback_mimetype)"
    unfolding safeMimetype_def Let_def r_def [symmetric] bad_def two_def by simp
  show ?thesis
  proof (cases "r \<noteq> [] \<and> \<not> bad \<and> two")
    case True
    then obtain t u where "split_on (CHR ''/'') r = [t, u]" "t \<noteq> []" "u \<noteq> []"
      by (auto simp: two_def length_Suc_conv eval_nat_numeral)
    with True e show ?thesis by (auto simp: bad_def list_ex_iff not_less)
  qed (use e f in auto)
qed

end
