(* ===== verification/Pending_Uploads.thy ===== *)
theory Pending_Uploads
  imports Chat_Names
begin

text \<open>
  \<^verbatim>\<open>internal/pendinguploads/storage.go\<close> and \<^verbatim>\<open>sweeper.go\<close>, the staging table of chat uploads for
  workspaces that poll, with the fetch and acknowledge routes of
  \<^verbatim>\<open>internal/handlers/pending_uploads.go\<close>. The table \<^verbatim>\<open>pending_uploads\<close> is the list of its rows; the
  column defaults and CHECK constraints are those of its migrations. Identifiers
  (\<^verbatim>\<open>gen_random_uuid()\<close>) and the clock are arguments, and \<^verbatim>\<open>uuid.Parse\<close> with \<^verbatim>\<open>UUID.String\<close> are
  parameters, as is the type of a parsed identifier. The interface \<^verbatim>\<open>Storage\<close> is the locale
  \<open>upload_storage\<close>.
\<close>

section \<open>The table\<close>

text \<open>\<^verbatim>\<open>uploads.DefaultUploadLimits\<close>\<close>

record UploadLimits =
  PerFileBytes :: int
  PerRequestBytes :: int
  MaxAttachmentsPerMessage :: int

definition DefaultUploadLimits :: UploadLimits where
  "DefaultUploadLimits =
     \<lparr>PerFileBytes = 100 * 1024 * 1024, PerRequestBytes = 100 * 1024 * 1024, MaxAttachmentsPerMessage = 10\<rparr>"

definition MaxFileBytes :: int where
  "MaxFileBytes = PerFileBytes DefaultUploadLimits"

record 'u Record =
  FileID :: 'u
  WorkspaceID :: 'u
  Content :: string
  Filename :: string
  Mimetype :: string
  SizeBytes :: int
  CreatedAt :: instant
  FetchedAt :: "instant option"
  AckedAt :: "instant option"
  ExpiresAt :: instant

record PutItem =
  pi_Content :: string
  pi_Filename :: string
  pi_Mimetype :: string

record UploadSweepResult =
  sr_Acked :: nat
  sr_Expired :: nat

definition Total :: "UploadSweepResult \<Rightarrow> nat" where
  "Total r = sr_Acked r + sr_Expired r"

text \<open>The errors; the index is that of the item in a batch.\<close>

datatype upload_error =
    ErrNotFound
  | ErrTooLarge
  | EmptyContent "nat option"
  | EmptyFilename "nat option"
  | FilenameTooLong "nat option"
  | InsertFailed "nat option"
  | BeginFailed
  | CommitFailed
  | SelectFailed
  | MarkFailed
  | AckFailed
  | AckDisambiguateFailed
  | SweepFailed

text \<open>
  The INSERT with the primary key and the CHECK constraints of the table; \<^verbatim>\<open>length(filename)\<close>
  counts characters, that is bytes that start a rune.
\<close>

definition upload_checks :: "'u Record \<Rightarrow> bool" where
  "upload_checks r \<longleftrightarrow> 0 < SizeBytes r \<and> SizeBytes r \<le> 104857600 \<and>
     0 < length (filter RuneStart (Filename r)) \<and> length (filter RuneStart (Filename r)) \<le> 100"

definition new_upload :: "instant \<Rightarrow> 'u \<Rightarrow> 'u \<Rightarrow> PutItem \<Rightarrow> 'u Record" where
  "new_upload now fid wid it =
     \<lparr>FileID = fid, WorkspaceID = wid, Content = pi_Content it, Filename = pi_Filename it,
      Mimetype = pi_Mimetype it, SizeBytes = int (length (pi_Content it)), CreatedAt = now,
      FetchedAt = None, AckedAt = None, ExpiresAt = now + 24 * hour\<rparr>"

definition insert_upload :: "'u Record \<Rightarrow> 'u Record list \<Rightarrow> 'u Record list option" where
  "insert_upload r rows =
     (if FileID r \<in> FileID ` set rows \<or> \<not> upload_checks r then None else Some (rows @ [r]))"

section \<open>Put\<close>

definition put_checks :: "nat option \<Rightarrow> PutItem \<Rightarrow> upload_error option" where
  "put_checks i it =
     (if pi_Content it = [] then Some (EmptyContent i)
      else if MaxFileBytes < int (length (pi_Content it)) then Some ErrTooLarge
      else if pi_Filename it = [] then Some (EmptyFilename i)
      else if 100 < length (pi_Filename it) then Some (FilenameTooLong i)
      else None)"

definition Put ::
  "instant \<Rightarrow> bool \<Rightarrow> 'u \<Rightarrow> 'u \<Rightarrow> PutItem \<Rightarrow> 'u Record list \<Rightarrow> (upload_error + 'u) \<times> 'u Record list" where
  "Put now fault fid wid it rows =
     (case put_checks None it of
        Some e \<Rightarrow> (Inl e, rows)
      | None \<Rightarrow>
          (case (if fault then None else insert_upload (new_upload now fid wid it) rows) of
             None \<Rightarrow> (Inl (InsertFailed None), rows)
           | Some rows' \<Rightarrow> (Inr fid, rows')))"

fun validatePutBatchItems :: "nat \<Rightarrow> PutItem list \<Rightarrow> upload_error option" where
  "validatePutBatchItems i [] = None"
| "validatePutBatchItems i (it # its) =
     (case put_checks (Some i) it of Some e \<Rightarrow> Some e | None \<Rightarrow> validatePutBatchItems (Suc i) its)"

text \<open>The loop of INSERTs inside the transaction; \<open>fids i\<close> is the identifier generated for item \<open>i\<close>.\<close>

fun putBatchInsertRows ::
  "instant \<Rightarrow> faults \<Rightarrow> (nat \<Rightarrow> 'u) \<Rightarrow> 'u \<Rightarrow> nat \<Rightarrow> PutItem list \<Rightarrow> 'u Record list \<Rightarrow>
   upload_error + 'u list \<times> 'u Record list" where
  "putBatchInsertRows now flt fids wid i [] rows = Inr ([], rows)"
| "putBatchInsertRows now flt fids wid i (it # its) rows =
     (case (if flt i then None else insert_upload (new_upload now (fids i) wid it) rows) of
        None \<Rightarrow> Inl (InsertFailed (Some i))
      | Some rows' \<Rightarrow>
          (case putBatchInsertRows now flt fids wid (Suc i) its rows' of
             Inl e \<Rightarrow> Inl e
           | Inr (ids, rows'') \<Rightarrow> Inr (fids i # ids, rows'')))"

text \<open>
  \<^verbatim>\<open>PutBatchTx\<close> works on the state of the caller's transaction. \<^verbatim>\<open>PutBatch\<close> owns its transaction: the
  table changes only by a commit.
\<close>

definition PutBatchTx ::
  "instant \<Rightarrow> faults \<Rightarrow> (nat \<Rightarrow> 'u) \<Rightarrow> 'u \<Rightarrow> PutItem list \<Rightarrow> 'u Record list \<Rightarrow>
   upload_error + 'u list \<times> 'u Record list" where
  "PutBatchTx now flt fids wid items rows =
     (if items = [] then Inr ([], rows)
      else case validatePutBatchItems 0 items of
             Some e \<Rightarrow> Inl e
           | None \<Rightarrow> putBatchInsertRows now flt fids wid 0 items rows)"

record batch_faults =
  bf_begin :: bool
  bf_insert :: faults
  bf_commit :: bool

definition PutBatch ::
  "instant \<Rightarrow> batch_faults \<Rightarrow> (nat \<Rightarrow> 'u) \<Rightarrow> 'u \<Rightarrow> PutItem list \<Rightarrow> 'u Record list \<Rightarrow>
   (upload_error + 'u list) \<times> 'u Record list" where
  "PutBatch now bf fids wid items rows =
     (if items = [] then (Inr [], rows)
      else case validatePutBatchItems 0 items of
             Some e \<Rightarrow> (Inl e, rows)
           | None \<Rightarrow>
               if bf_begin bf then (Inl BeginFailed, rows)
               else case putBatchInsertRows now (bf_insert bf) fids wid 0 items rows of
                      Inl e \<Rightarrow> (Inl e, rows)
                    | Inr (ids, rows') \<Rightarrow>
                        if bf_commit bf then (Inl CommitFailed, rows) else (Inr ids, rows'))"

section \<open>Get, MarkFetched and Ack\<close>

definition live_upload :: "instant \<Rightarrow> 'u \<Rightarrow> 'u Record \<Rightarrow> bool" where
  "live_upload now fid r \<longleftrightarrow> FileID r = fid \<and> now < ExpiresAt r"

definition Get :: "instant \<Rightarrow> bool \<Rightarrow> 'u \<Rightarrow> 'u Record list \<Rightarrow> upload_error + 'u Record" where
  "Get now fault fid rows =
     (if fault then Inl SelectFailed
      else case select_first (live_upload now fid) rows of None \<Rightarrow> Inl ErrNotFound | Some r \<Rightarrow> Inr r)"

text \<open>The second fault is that of \<^verbatim>\<open>RowsAffected\<close>: the UPDATE took effect and the call still fails.\<close>

definition MarkFetched :: "instant \<Rightarrow> faults \<Rightarrow> 'u \<Rightarrow> 'u Record list \<Rightarrow> upload_error option \<times> 'u Record list" where
  "MarkFetched now flt fid rows =
     (if flt 0 then (Some MarkFailed, rows)
      else let rows' = update_where (live_upload now fid) (\<lambda>r. r\<lparr>FetchedAt := Some now\<rparr>) rows;
               n = count_where (live_upload now fid) rows
           in if flt 1 then (Some MarkFailed, rows')
              else if n = 0 then (Some ErrNotFound, rows') else (None, rows'))"

definition ackable :: "instant \<Rightarrow> 'u \<Rightarrow> 'u Record \<Rightarrow> bool" where
  "ackable now fid r \<longleftrightarrow> FileID r = fid \<and> AckedAt r = None \<and> now < ExpiresAt r"

definition ack_update :: "instant \<Rightarrow> 'u \<Rightarrow> 'u Record list \<Rightarrow> 'u Record list" where
  "ack_update now fid rows = update_where (ackable now fid) (\<lambda>r. r\<lparr>AckedAt := Some now\<rparr>) rows"

text \<open>
  \<^verbatim>\<open>Ack\<close>. Between its UPDATE and the re-query other statements may run: \<open>env\<close> is what they do to
  the table, \<open>now'\<close> the time of the re-query. Both answers of the re-query for an existing row are
  success.
\<close>

definition Storage_Ack ::
  "instant \<Rightarrow> instant \<Rightarrow> faults \<Rightarrow> ('u Record list \<Rightarrow> 'u Record list) \<Rightarrow> 'u \<Rightarrow> 'u Record list \<Rightarrow>
   upload_error option \<times> 'u Record list" where
  "Storage_Ack now now' flt env fid rows =
     (if flt 0 then (Some AckFailed, rows)
      else let n = count_where (ackable now fid) rows; rows1 = ack_update now fid rows
           in if flt 1 then (Some AckFailed, rows1)
              else if n = 1 then (None, rows1)
              else let rows2 = env rows1
                   in if flt 2 then (Some AckDisambiguateFailed, rows2)
                      else case select_first (live_upload now' fid) rows2 of
                             None \<Rightarrow> (Some ErrNotFound, rows2)
                           | Some r \<Rightarrow> (case AckedAt r of Some _ \<Rightarrow> (None, rows2) | None \<Rightarrow> (None, rows2)))"

section \<open>Sweep\<close>

text \<open>
  \<^verbatim>\<open>int64(ackRetention.Seconds())\<close> cuts to whole seconds. (The intermediate float64 is exact enough
  for that on whole seconds and on every duration below \<open>2 ^ 22\<close> seconds, 48 days.)
\<close>

definition retention_secs :: "duration \<Rightarrow> int" where
  "retention_secs ackRetention = (if ackRetention < 0 then 0 else ackRetention) div second"

definition sweepable :: "instant \<Rightarrow> duration \<Rightarrow> 'u Record \<Rightarrow> bool" where
  "sweepable now ackRetention r =
     (case AckedAt r of
        Some a \<Rightarrow> a < now - retention_secs ackRetention * second
      | None \<Rightarrow> ExpiresAt r < now)"

definition Storage_Sweep ::
  "instant \<Rightarrow> bool \<Rightarrow> duration \<Rightarrow> 'u Record list \<Rightarrow> (upload_error + UploadSweepResult) \<times> 'u Record list" where
  "Storage_Sweep now fault ackRetention rows =
     (if fault then (Inl SweepFailed, rows)
      else let deleted = filter (sweepable now ackRetention) rows
           in (Inr \<lparr>sr_Acked = count_where (\<lambda>r. AckedAt r \<noteq> None) deleted,
                    sr_Expired = count_where (\<lambda>r. AckedAt r = None) deleted\<rparr>,
               filter (\<lambda>r. \<not> sweepable now ackRetention r) rows))"

section \<open>The sweeper\<close>

definition SweepInterval :: duration where "SweepInterval = 5 * minute"
definition DefaultAckRetention :: duration where "DefaultAckRetention = hour"

text \<open>The counters of \<^verbatim>\<open>internal/metrics\<close> the sweeper writes.\<close>

record sweep_metrics =
  pendingUploadsSweptAcked :: nat
  pendingUploadsSweptExpired :: nat
  pendingUploadsSweepErrors :: nat

definition PendingUploadsSwept :: "nat \<Rightarrow> nat \<Rightarrow> sweep_metrics \<Rightarrow> sweep_metrics" where
  "PendingUploadsSwept acked expired m =
     (let m = (if 0 < acked then m\<lparr>pendingUploadsSweptAcked := pendingUploadsSweptAcked m + acked\<rparr> else m)
      in if 0 < expired then m\<lparr>pendingUploadsSweptExpired := pendingUploadsSweptExpired m + expired\<rparr> else m)"

definition PendingUploadsSweepError :: "sweep_metrics \<Rightarrow> sweep_metrics" where
  "PendingUploadsSweepError m = m\<lparr>pendingUploadsSweepErrors := pendingUploadsSweepErrors m + 1\<rparr>"

definition sweepOnce ::
  "instant \<Rightarrow> bool \<Rightarrow> duration \<Rightarrow> 'u Record list \<times> sweep_metrics \<Rightarrow> 'u Record list \<times> sweep_metrics" where
  "sweepOnce now fault ackRetention = (\<lambda>(rows, m).
     case Storage_Sweep now fault ackRetention rows of
       (Inl e, rows') \<Rightarrow> (rows', PendingUploadsSweepError m)
     | (Inr res, rows') \<Rightarrow> (rows', PendingUploadsSwept (sr_Acked res) (sr_Expired res) m))"

text \<open>
  The loop: what the \<^verbatim>\<open>select\<close> receives. A tick carries its time, whether the context is cancelled by
  then, whether its DELETE fails, and what other callers did to the table since the last event.
\<close>

datatype 'u gc_event =
    GcDone
  | GcTick (gc_now: instant) (gc_cancelled: bool) (gc_fault: bool) (gc_env: "'u Record list \<Rightarrow> 'u Record list")

fun gc_loop :: "duration \<Rightarrow> 'u gc_event list \<Rightarrow> 'u Record list \<times> sweep_metrics \<Rightarrow> 'u Record list \<times> sweep_metrics" where
  "gc_loop ret [] st = st"
| "gc_loop ret (GcDone # evs) st = st"
| "gc_loop ret (GcTick now cancelled fault env # evs) st =
     (let st = apfst env st
      in if cancelled then gc_loop ret evs st else gc_loop ret evs (sweepOnce now fault ret st))"

text \<open>\<^term>\<open>False\<close> for \<open>storage\<close>: it is nil and the sweeper does nothing.\<close>

definition startSweeperWithInterval ::
  "bool \<Rightarrow> duration \<Rightarrow> instant \<Rightarrow> bool \<Rightarrow> 'u gc_event list \<Rightarrow> 'u Record list \<times> sweep_metrics \<Rightarrow>
   'u Record list \<times> sweep_metrics" where
  "startSweeperWithInterval storage ackRetention now fault evs st =
     (if \<not> storage then st
      else let ret = (if ackRetention = 0 then DefaultAckRetention else ackRetention)
           in gc_loop ret evs (sweepOnce now fault ret st))"

section \<open>The routes of the workspace\<close>

datatype upload_response =
    UploadBytes (ub_type: string) (ub_disposition: string) (ub_length: int) (ub_body: string)
  | Acked (acked_raced: bool)
  | UploadErr (ue_status: nat) (ue_text: string)

definition GetContent ::
  "(string \<Rightarrow> 'u option) \<Rightarrow> ('u \<Rightarrow> string) \<Rightarrow> instant \<Rightarrow> bool \<Rightarrow> bool \<Rightarrow> instant \<Rightarrow> faults \<Rightarrow>
   ('u Record list \<Rightarrow> 'u Record list) \<Rightarrow> string \<Rightarrow> string \<Rightarrow> 'u Record list \<Rightarrow> upload_response \<times> 'u Record list" where
  "GetContent Parse String now get_fault write_fault now' mark_flt env workspaceID fileIDStr rows =
     (if Parse workspaceID = None then (UploadErr 400 ''invalid workspace ID'', rows)
      else case Parse fileIDStr of
             None \<Rightarrow> (UploadErr 400 ''invalid file_id'', rows)
           | Some fileID \<Rightarrow>
               (case Get now get_fault fileID rows of
                  Inl e \<Rightarrow>
                    if e = ErrNotFound then (UploadErr 404 ''pending upload not found or expired'', rows)
                    else (UploadErr 500 ''storage error'', rows)
                | Inr r \<Rightarrow>
                    if String (WorkspaceID r) \<noteq> workspaceID then (UploadErr 404 ''pending upload not found'', rows)
                    else let resp = UploadBytes (if Mimetype r = [] then ''application/octet-stream'' else Mimetype r)
                               (contentDispositionAttachment (Filename r)) (SizeBytes r) (Content r)
                         in if write_fault then (resp, rows)
                            else (resp, snd (MarkFetched now' mark_flt fileID (env rows)))))"

definition Handler_Ack ::
  "(string \<Rightarrow> 'u option) \<Rightarrow> ('u \<Rightarrow> string) \<Rightarrow> instant \<Rightarrow> bool \<Rightarrow> instant \<Rightarrow> instant \<Rightarrow> faults \<Rightarrow>
   ('u Record list \<Rightarrow> 'u Record list) \<Rightarrow> ('u Record list \<Rightarrow> 'u Record list) \<Rightarrow> string \<Rightarrow> string \<Rightarrow>
   'u Record list \<Rightarrow> upload_response \<times> 'u Record list" where
  "Handler_Ack Parse String now get_fault now' now'' flt env env' workspaceID fileIDStr rows =
     (if Parse workspaceID = None then (UploadErr 400 ''invalid workspace ID'', rows)
      else case Parse fileIDStr of
             None \<Rightarrow> (UploadErr 400 ''invalid file_id'', rows)
           | Some fileID \<Rightarrow>
               (case Get now get_fault fileID rows of
                  Inl e \<Rightarrow>
                    if e = ErrNotFound then (UploadErr 404 ''pending upload not found, expired, or already acked'', rows)
                    else (UploadErr 500 ''storage error'', rows)
                | Inr r \<Rightarrow>
                    if String (WorkspaceID r) \<noteq> workspaceID then (UploadErr 404 ''pending upload not found'', rows)
                    else (case Storage_Ack now' now'' flt env' fileID (env rows) of
                            (Some e, rows') \<Rightarrow>
                              if e = ErrNotFound then (Acked True, rows') else (UploadErr 500 ''storage error'', rows')
                          | (None, rows') \<Rightarrow> (Acked False, rows'))))"

end
