(* ===== verification/Upload_Props.thy ===== *)
theory Upload_Props
  imports Pending_Uploads
begin

text \<open>
  Properties of the staging table of chat uploads: its invariant under every interleaving of
  statements, atomic batches that read back, availability until expiry, isolation of the
  workspaces, and the collection of old rows as an instance of \<open>collected_store\<close>.
\<close>

section \<open>Statements on the table\<close>

text \<open>The statements that change the table, in whatever order the callers issue them.\<close>

datatype 'u upload_op =
    UPut instant bool 'u 'u PutItem
  | UBatch instant batch_faults "nat \<Rightarrow> 'u" 'u "PutItem list"
  | UMark instant faults 'u
  | UAck instant 'u
  | USweep instant bool duration

fun upload_step :: "'u Record list \<Rightarrow> 'u upload_op \<Rightarrow> 'u Record list" where
  "upload_step rows (UPut now fault fid wid it) = snd (Put now fault fid wid it rows)"
| "upload_step rows (UBatch now bf fids wid items) = snd (PutBatch now bf fids wid items rows)"
| "upload_step rows (UMark now flt fid) = snd (MarkFetched now flt fid rows)"
| "upload_step rows (UAck now fid) = ack_update now fid rows"
| "upload_step rows (USweep now fault ret) = snd (Storage_Sweep now fault ret rows)"

fun upload_time :: "'u upload_op \<Rightarrow> instant" where
  "upload_time (UPut now fault fid wid it) = now"
| "upload_time (UBatch now bf fids wid items) = now"
| "upload_time (UMark now flt fid) = now"
| "upload_time (UAck now fid) = now"
| "upload_time (USweep now fault ret) = now"

text \<open>What every row satisfies, and the table.\<close>

definition upload_ok :: "'u Record \<Rightarrow> bool" where
  "upload_ok r \<longleftrightarrow> upload_checks r \<and> SizeBytes r = int (length (Content r)) \<and> length (Filename r) \<le> 100 \<and>
     ExpiresAt r = CreatedAt r + 24 * hour \<and> (case AckedAt r of None \<Rightarrow> True | Some a \<Rightarrow> a < ExpiresAt r)"

definition upload_inv :: "'u Record list \<Rightarrow> bool" where
  "upload_inv rows \<longleftrightarrow> distinct (map FileID rows) \<and> list_all upload_ok rows"

lemma upload_inv_Nil [simp]: "upload_inv []"
  by (simp add: upload_inv_def)

lemma put_checks_fits:
  "put_checks i it = None \<Longrightarrow>
    0 < length (pi_Content it) \<and> int (length (pi_Content it)) \<le> 104857600 \<and> pi_Filename it \<noteq> [] \<and> length (pi_Filename it) \<le> 100"
  by (auto simp: put_checks_def MaxFileBytes_def DefaultUploadLimits_def split: if_splits)

lemma new_upload_ok: "put_checks i it = None \<Longrightarrow> upload_checks (new_upload now fid wid it) \<Longrightarrow> upload_ok (new_upload now fid wid it)"
  using put_checks_fits [of i it] by (auto simp: upload_ok_def new_upload_def)

lemma insert_upload_inv:
  assumes "insert_upload r rows = Some rows'" "upload_inv rows" "upload_checks r \<Longrightarrow> upload_ok r"
  shows "upload_inv rows'"
  using assms by (auto simp: insert_upload_def upload_inv_def split: if_splits)

lemma validate_all:
  "validatePutBatchItems i items = None \<Longrightarrow> it \<in> set items \<Longrightarrow> \<exists>j. put_checks j it = None"
  by (induction i items rule: validatePutBatchItems.induct) (auto split: option.splits)

lemma batch_rows_inv:
  assumes "putBatchInsertRows now flt fids wid i items rows = Inr (ids, rows')" "upload_inv rows"
    and "\<forall>it \<in> set items. \<exists>j. put_checks j it = None"
  shows "upload_inv rows'"
  using assms
proof (induction now flt fids wid i items rows arbitrary: ids rows' rule: putBatchInsertRows.induct)
  case (2 now flt fids wid i it its rows)
  from "2.prems"(1) obtain mid ids' where m: "\<not> flt i" "insert_upload (new_upload now (fids i) wid it) rows = Some mid"
    "putBatchInsertRows now flt fids wid (Suc i) its mid = Inr (ids', rows')"
    by (auto split: option.splits if_splits sum.splits)
  moreover from "2.prems"(3) obtain j where "put_checks j it = None" by auto
  then have "upload_inv mid" by (rule insert_upload_inv [OF m(2) "2.prems"(2) new_upload_ok])
  ultimately show ?case using "2.IH" "2.prems"(3) by auto
qed simp

lemma update_where_inv:
  assumes "upload_inv rows" "\<And>r. upload_ok r \<Longrightarrow> P r \<Longrightarrow> upload_ok (f r)" "\<And>r. FileID (f r) = FileID r"
  shows "upload_inv (update_where P f rows)"
proof -
  have "map FileID (update_where P f rows) = map FileID rows"
    by (induction rows) (auto simp: assms(3))
  then show ?thesis using assms(1,2) by (auto simp: upload_inv_def list_all_iff set_update_where)
qed

lemma upload_step_inv: "upload_inv rows \<Longrightarrow> upload_inv (upload_step rows op)"
proof (cases op)
  case (UPut now fault fid wid it)
  assume "upload_inv rows"
  with UPut show ?thesis
    using insert_upload_inv [of "new_upload now fid wid it" rows] new_upload_ok [of None it now fid wid]
    by (auto simp: Put_def split: option.splits)
next
  case (UBatch now bf fids wid items)
  assume "upload_inv rows"
  with UBatch show ?thesis
    using batch_rows_inv [of now "bf_insert bf" fids wid 0 items rows] validate_all [of 0 items]
    by (auto simp: PutBatch_def split: option.splits sum.splits)
next
  case (UMark now flt fid)
  assume "upload_inv rows"
  then have "upload_inv (update_where (live_upload now fid) (\<lambda>r. r\<lparr>FetchedAt := Some now\<rparr>) rows)"
    by (rule update_where_inv) (auto simp: upload_ok_def upload_checks_def split: option.splits)
  with \<open>upload_inv rows\<close> UMark show ?thesis by (simp add: MarkFetched_def Let_def)
next
  case (UAck now fid)
  assume "upload_inv rows"
  then have "upload_inv (ack_update now fid rows)"
    unfolding ack_update_def by (rule update_where_inv) (auto simp: upload_ok_def upload_checks_def ackable_def)
  with UAck show ?thesis by simp
next
  case (USweep now fault ret)
  assume "upload_inv rows"
  with USweep show ?thesis
    by (auto simp: Storage_Sweep_def Let_def upload_inv_def list_all_iff distinct_map_filter)
qed

interpretation uploads: invariant_system upload_step upload_inv
  by unfold_locales (rule upload_step_inv)

text \<open>Under every interleaving of the statements of all callers, faults included, the rows of
  the staging table have distinct identifiers, a size that is the length of the content and
  between 1 byte and 100 MB, a name of 1 to 100 bytes, expire 24 hours after their creation, and
  are acknowledged, if at all, before that.\<close>

theorem upload_invariant:
  "distinct (map FileID (foldl upload_step [] ops)) \<and>
   set (foldl upload_step [] ops) \<subseteq>
     {r. SizeBytes r = int (length (Content r)) \<and> 0 < SizeBytes r \<and> SizeBytes r \<le> PerFileBytes DefaultUploadLimits \<and>
         Filename r \<noteq> [] \<and> length (Filename r) \<le> 100 \<and> ExpiresAt r = CreatedAt r + 24 * hour \<and>
         AckedAt r \<notin> Some ` {ExpiresAt r..}}"
proof -
  have "upload_inv (foldl upload_step [] ops)" using uploads.inv_run [of "[]" ops] by simp
  moreover have "Filename r \<noteq> []" if "upload_checks r" for r :: "'a Record"
    using that by (auto simp: upload_checks_def)
  ultimately show ?thesis
    unfolding upload_inv_def list_all_iff
    by (auto simp: upload_ok_def upload_checks_def DefaultUploadLimits_def split: option.splits)
qed

section \<open>Batches\<close>

text \<open>The rows of a batch, in the order of its items.\<close>

definition batch_rows :: "instant \<Rightarrow> (nat \<Rightarrow> 'u) \<Rightarrow> 'u \<Rightarrow> nat \<Rightarrow> PutItem list \<Rightarrow> 'u Record list" where
  "batch_rows now fids wid i items = map (\<lambda>(k, it). new_upload now (fids k) wid it) (enumerate i items)"

lemma batch_rows_Cons [simp]:
  "batch_rows now fids wid i [] = []"
  "batch_rows now fids wid i (it # its) = new_upload now (fids i) wid it # batch_rows now fids wid (Suc i) its"
  by (simp_all add: batch_rows_def)

lemma upt_length_Cons: "[i..<i + length (x # xs)] = i # [Suc i..<Suc i + length xs]"
  by (simp add: upt_conv_Cons del: upt_Suc)

lemma putBatchInsertRows_ok:
  "putBatchInsertRows now flt fids wid i items rows = Inr (ids, rows') \<Longrightarrow>
    ids = map fids [i..<i + length items] \<and> rows' = rows @ batch_rows now fids wid i items"
proof (induction now flt fids wid i items rows arbitrary: ids rows' rule: putBatchInsertRows.induct)
  case (2 now flt fids wid i it its rows)
  from "2.prems" obtain mid ids' where m: "\<not> flt i" "insert_upload (new_upload now (fids i) wid it) rows = Some mid"
    "putBatchInsertRows now flt fids wid (Suc i) its mid = Inr (ids', rows')" "ids = fids i # ids'"
    by (auto split: option.splits if_splits sum.splits)
  moreover from m(2) have "mid = rows @ [new_upload now (fids i) wid it]" by (simp add: insert_upload_def split: if_splits)
  ultimately show ?case using "2.IH" [OF _ m(3)] unfolding upt_length_Cons by (simp del: upt_Suc)
qed simp

lemma putBatchInsertRows_total:
  assumes "\<forall>k \<in> {i..<i + length items}. \<not> flt k" "distinct (map fids [i..<i + length items])"
    and "fids ` {i..<i + length items} \<inter> FileID ` set rows = {}"
    and "list_all (\<lambda>it. upload_checks (new_upload now wid wid it)) items"
  shows "\<exists>y. putBatchInsertRows now flt fids wid i items rows = Inr y"
  using assms
proof (induction items arbitrary: i rows)
  case (Cons it its)
  define r where "r = new_upload now (fids i) wid it"
  have "{i..<i + length (it # its)} = insert i {Suc i..<Suc i + length its}" by auto
  note set_eq = this
  have d: "distinct (map fids [Suc i..<Suc i + length its])" "fids i \<notin> fids ` {Suc i..<Suc i + length its}"
    using Cons.prems(2) unfolding upt_length_Cons by (auto simp del: upt_Suc)
  have "upload_checks r" "FileID r = fids i" using Cons.prems(4) by (auto simp: r_def upload_checks_def new_upload_def)
  moreover have "fids i \<notin> FileID ` set rows" using Cons.prems(3) unfolding set_eq by blast
  ultimately have ins: "insert_upload r rows = Some (rows @ [r])" by (simp add: insert_upload_def)
  have "\<exists>y. putBatchInsertRows now flt fids wid (Suc i) its (rows @ [r]) = Inr y"
  proof (rule Cons.IH)
    show "\<forall>k \<in> {Suc i..<Suc i + length its}. \<not> flt k" using Cons.prems(1) unfolding set_eq by blast
    show "fids ` {Suc i..<Suc i + length its} \<inter> FileID ` set (rows @ [r]) = {}"
      using Cons.prems(3) d(2) \<open>FileID r = fids i\<close> unfolding set_eq by auto
  qed (use d Cons.prems(4) in simp_all)
  moreover have "\<not> flt i" using Cons.prems(1) unfolding set_eq by blast
  ultimately show ?case using ins by (auto simp: r_def)
qed simp

lemma Get_batch_row:
  assumes "upload_inv (rows @ new)" "r \<in> set new" "t < ExpiresAt r"
  shows "Get t False (FileID r) (rows @ new) = Inr r"
proof -
  have "select_first (live_upload t (FileID r)) (rows @ new) = Some r"
    using assms by (intro select_first_key [where k = FileID]) (auto simp: upload_inv_def live_upload_def)
  then show ?thesis by (simp add: Get_def)
qed

lemma batch_rows_nth:
  "k < length items \<Longrightarrow> batch_rows now fids wid i items ! k = new_upload now (fids (i + k)) wid (items ! k)"
  by (simp add: batch_rows_def nth_enumerate_eq)

lemma length_batch_rows [simp]: "length (batch_rows now fids wid i items) = length items"
  by (simp add: batch_rows_def)

lemma PutBatch_cases:
  assumes "PutBatch now bf fids wid items rows = (res, rows')"
  obtains (err) e where "res = Inl e" "rows' = rows"
  | (ok) "res = Inr (map fids [0..<length items])" "rows' = rows @ batch_rows now fids wid 0 items"
proof (cases res)
  case (Inl e)
  with assms show ?thesis by (intro err) (auto simp: PutBatch_def split: if_splits option.splits sum.splits)
next
  case (Inr ids)
  with assms have "items = [] \<and> ids = [] \<and> rows' = rows \<or>
      putBatchInsertRows now (bf_insert bf) fids wid 0 items rows = Inr (ids, rows')"
    by (auto simp: PutBatch_def split: if_splits option.splits sum.splits)
  then show ?thesis
  proof
    assume "putBatchInsertRows now (bf_insert bf) fids wid 0 items rows = Inr (ids, rows')"
    from putBatchInsertRows_ok [OF this] Inr show ?thesis by (intro ok) simp_all
  qed (use Inr in \<open>intro ok; simp\<close>)
qed

definition batch_ready :: "batch_faults \<Rightarrow> (nat \<Rightarrow> 'u) \<Rightarrow> PutItem list \<Rightarrow> 'u Record list \<Rightarrow> bool" where
  "batch_ready bf fids items rows \<longleftrightarrow>
     \<not> bf_begin bf \<and> \<not> bf_commit bf \<and> list_all (\<lambda>k. \<not> bf_insert bf k) [0..<length items] \<and>
     distinct (map fids [0..<length items] @ map FileID rows) \<and>
     list_all (\<lambda>it. put_checks None it = None \<and> filter RuneStart (pi_Filename it) \<noteq> []) items"

lemma put_checks_index: "put_checks i it = None \<longleftrightarrow> put_checks j it = None"
  by (simp add: put_checks_def)

lemma validate_None: "validatePutBatchItems i items = None \<longleftrightarrow> list_all (\<lambda>it. put_checks None it = None) items"
proof (induction i items rule: validatePutBatchItems.induct)
  case (2 i it its)
  then show ?case using put_checks_index [of "Some i" it None] by (auto split: option.splits)
qed simp

lemma PutBatch_total:
  assumes "batch_ready bf fids items rows" "distinct (map FileID rows)"
  shows "\<exists>ids rows'. PutBatch now bf fids wid items rows = (Inr ids, rows')"
proof (cases "items = []")
  case False
  note r = assms(1) [unfolded batch_ready_def]
  have "upload_checks (new_upload now wid wid it)" if "it \<in> set items" for it
  proof -
    have "put_checks None it = None" "filter RuneStart (pi_Filename it) \<noteq> []" using r that by (auto simp: list_all_iff)
    then show ?thesis
      using put_checks_fits [of None it] le_trans [OF length_filter_le, of "pi_Filename it" 100 RuneStart]
      by (auto simp: upload_checks_def new_upload_def)
  qed
  then have "\<exists>y. putBatchInsertRows now (bf_insert bf) fids wid 0 items rows = Inr y"
    using r by (intro putBatchInsertRows_total) (auto simp: list_all_iff)
  moreover have "validatePutBatchItems 0 items = None" unfolding validate_None using r by (auto simp: list_all_iff)
  ultimately show ?thesis using r False by (auto simp: PutBatch_def)
qed (simp add: PutBatch_def)

text \<open>A batch is staged whole or not at all. On every error the table is unchanged; on success
  it has gained exactly one row per item, in the order of the items and of the returned
  identifiers, the rows it had before are untouched, and until it expires each identifier reads
  back its own item. A batch of valid items with fresh identifiers and no database fault succeeds.\<close>

theorem PutBatch_correct:
  assumes "upload_inv rows" and "PutBatch now bf fids wid items rows = (res, rows')"
  shows "((\<exists>e. res = Inl e \<and> rows' = rows) \<or>
     (\<exists>ids new. res = Inr ids \<and> rows' = rows @ new \<and> length ids = length items \<and> length new = length items \<and>
        distinct ids \<and>
        (\<forall>k t. k < length items \<longrightarrow> new ! k = new_upload now (ids ! k) wid (items ! k) \<and>
           (t < now + 24 * hour \<longrightarrow> Get t False (ids ! k) rows' = Inr (new ! k))))) \<and>
     (batch_ready bf fids items rows \<longrightarrow> (\<exists>ids. res = Inr ids))"
proof (intro conjI impI)
  show "\<exists>ids. res = Inr ids" if "batch_ready bf fids items rows"
    using PutBatch_total [OF that, of now wid] assms by (auto simp: upload_inv_def)
  show "(\<exists>e. res = Inl e \<and> rows' = rows) \<or>
     (\<exists>ids new. res = Inr ids \<and> rows' = rows @ new \<and> length ids = length items \<and> length new = length items \<and>
        distinct ids \<and>
        (\<forall>k t. k < length items \<longrightarrow> new ! k = new_upload now (ids ! k) wid (items ! k) \<and>
           (t < now + 24 * hour \<longrightarrow> Get t False (ids ! k) rows' = Inr (new ! k))))"
    using assms(2)
  proof (cases rule: PutBatch_cases)
    case ok
    define new where "new = batch_rows now fids wid 0 items"
    define ids where "ids = map fids [0..<length items]"
    have inv: "upload_inv (rows @ new)"
      using upload_step_inv [OF assms(1), of "UBatch now bf fids wid items"] assms(2) ok by (simp add: new_def)
    have nth: "new ! k = new_upload now (ids ! k) wid (items ! k)" if "k < length items" for k
      using that batch_rows_nth [of k items now fids wid 0] by (simp add: new_def ids_def)
    have "map FileID new = ids"
      by (rule nth_equalityI) (use nth in \<open>simp_all add: new_def ids_def new_upload_def\<close>)
    then have "distinct ids" using inv by (auto simp: upload_inv_def)
    moreover have "Get t False (ids ! k) rows' = Inr (new ! k)" if "k < length items" "t < now + 24 * hour" for k t
      using Get_batch_row [OF inv, of "new ! k" t] that nth [OF that(1)] ok(2) by (simp add: new_def new_upload_def)
    ultimately show ?thesis
      using ok nth by (intro disjI2 exI [of _ ids] exI [of _ new]) (simp add: ids_def new_def)
  qed simp
qed

definition demo_items :: "PutItem list" where
  "demo_items = [\<lparr>pi_Content = ''hello'', pi_Filename = ''a.txt'', pi_Mimetype = ''text/plain''\<rparr>,
     \<lparr>pi_Content = ''x'', pi_Filename = ''b'', pi_Mimetype = []\<rparr>]"

definition no_batch_faults :: batch_faults where
  "no_batch_faults = \<lparr>bf_begin = False, bf_insert = no_faults, bf_commit = False\<rparr>"

theorem PutBatch_correct_witness:
  "\<exists>ids. fst (PutBatch 0 no_batch_faults (\<lambda>k. k) (7 :: nat) demo_items []) = Inr ids"
proof -
  have "batch_ready no_batch_faults (\<lambda>k. k) demo_items ([] :: nat Record list)"
    by (simp add: batch_ready_def no_batch_faults_def demo_items_def put_checks_def MaxFileBytes_def
        DefaultUploadLimits_def RuneStart_def byte_def)
  then show ?thesis
    using PutBatch_correct [of "[]" 0 no_batch_faults "\<lambda>k. k" "7 :: nat" demo_items
        "fst (PutBatch 0 no_batch_faults (\<lambda>k. k) (7 :: nat) demo_items [])"
        "snd (PutBatch 0 no_batch_faults (\<lambda>k. k) (7 :: nat) demo_items [])"]
    by simp
qed

section \<open>Availability\<close>

definition same_upload :: "'u Record \<Rightarrow> 'u Record \<Rightarrow> bool" where
  "same_upload r r' \<longleftrightarrow> FileID r' = FileID r \<and> WorkspaceID r' = WorkspaceID r \<and> Content r' = Content r \<and>
     Filename r' = Filename r \<and> Mimetype r' = Mimetype r \<and> SizeBytes r' = SizeBytes r \<and>
     CreatedAt r' = CreatedAt r \<and> ExpiresAt r' = ExpiresAt r"

text \<open>Acknowledged, if at all, less than the retention before \<open>t\<close>.\<close>

definition retained :: "instant \<Rightarrow> duration \<Rightarrow> 'u Record \<Rightarrow> bool" where
  "retained t ret r = (case AckedAt r of None \<Rightarrow> True | Some a \<Rightarrow> t \<le> a + ret)"

definition harmless :: "instant \<Rightarrow> duration \<Rightarrow> 'u \<Rightarrow> 'u upload_op \<Rightarrow> bool" where
  "harmless t ret fid op \<longleftrightarrow> upload_time op \<le> t \<and>
     (case op of
        UAck a f \<Rightarrow> f = fid \<longrightarrow> t \<le> a + ret
      | USweep _ _ q \<Rightarrow> ret \<le> retention_secs q * second
      | _ \<Rightarrow> True)"

lemma same_upload_refl [simp]: "same_upload r r"
  by (simp add: same_upload_def)

lemma same_upload_trans: "same_upload r s \<Longrightarrow> same_upload s u \<Longrightarrow> same_upload r u"
  by (simp add: same_upload_def)

lemma harmless_step:
  assumes "r \<in> set rows" "t < ExpiresAt r" "retained t ret r" "harmless t ret (FileID r) op"
  shows "\<exists>r' \<in> set (upload_step rows op). same_upload r r' \<and> retained t ret r'"
proof (cases op)
  case (UPut now fault fid wid it)
  with assms show ?thesis
    by (auto simp: Put_def insert_upload_def split: option.splits if_splits intro!: bexI [of _ r])
next
  case (UBatch now bf fids wid items)
  have "set rows \<subseteq> set (snd (PutBatch now bf fids wid items rows))"
    by (cases "PutBatch now bf fids wid items rows" rule: prod.exhaust) (auto elim!: PutBatch_cases)
  with UBatch assms show ?thesis by (auto intro!: bexI [of _ r])
next
  case (UMark now flt fid)
  show ?thesis
  proof (cases "flt 0")
    case False
    then have "upload_step rows op = update_where (live_upload now fid) (\<lambda>r. r\<lparr>FetchedAt := Some now\<rparr>) rows"
      using UMark by (simp add: MarkFetched_def Let_def)
    with update_where_mem [OF assms(1), of "live_upload now fid" "\<lambda>r. r\<lparr>FetchedAt := Some now\<rparr>"] assms(3)
    show ?thesis by (intro bexI) (auto simp: same_upload_def retained_def)
  qed (use UMark assms in \<open>auto simp: MarkFetched_def intro!: bexI [of _ r]\<close>)
next
  case (UAck now fid)
  with update_where_mem [OF assms(1), of "ackable now fid" "\<lambda>r. r\<lparr>AckedAt := Some now\<rparr>"] assms(3,4)
  show ?thesis
    by (intro bexI) (auto simp: ack_update_def same_upload_def retained_def harmless_def ackable_def)
next
  case (USweep now fault q)
  then have "now \<le> t" "ret \<le> retention_secs q * second" using assms(4) by (simp_all add: harmless_def)
  then have "\<not> sweepable now q r" using assms(2,3) by (auto simp: sweepable_def retained_def split: option.splits)
  with USweep assms show ?thesis by (auto simp: Storage_Sweep_def Let_def intro!: bexI [of _ r])
qed

lemma harmless_run:
  "r \<in> set rows \<Longrightarrow> t < ExpiresAt r \<Longrightarrow> retained t ret r \<Longrightarrow> list_all (harmless t ret (FileID r)) ops \<Longrightarrow>
    \<exists>r' \<in> set (foldl upload_step rows ops). same_upload r r' \<and> retained t ret r'"
proof (induction ops arbitrary: r rows)
  case (Cons op ops)
  then obtain r1 where r1: "r1 \<in> set (upload_step rows op)" "same_upload r r1" "retained t ret r1"
    using harmless_step [of r rows t ret op] by auto
  then have "t < ExpiresAt r1" "FileID r1 = FileID r" using Cons.prems(2) by (simp_all add: same_upload_def)
  with Cons.IH [OF r1(1) _ r1(3)] Cons.prems(4) r1(2) show ?case by (auto intro: same_upload_trans)
qed (auto intro!: bexI)

text \<open>C17: A staged file can be read, unchanged, at every time before its expiry, after any
  interleaving of other statements: uploads, fetches, acknowledgements and sweeps. Acknowledging
  it does not take it away at once; it stays readable for the retention the sweeps use.\<close>

theorem upload_available:
  assumes "upload_inv rows" and "r \<in> set rows" and "t < ExpiresAt r" and "retained t ret r"
    and "list_all (harmless t ret (FileID r)) ops"
  shows "\<exists>r'. Get t False (FileID r) (foldl upload_step rows ops) = Inr r' \<and> same_upload r r'"
proof -
  obtain r' where r': "r' \<in> set (foldl upload_step rows ops)" "same_upload r r'"
    using harmless_run [OF assms(2-5)] by auto
  then have live: "live_upload t (FileID r) r'" using assms(3) by (simp add: live_upload_def same_upload_def)
  have "distinct (map FileID (foldl upload_step rows ops))"
    using uploads.inv_run [OF assms(1)] by (simp add: upload_inv_def)
  then have "select_first (live_upload t (FileID r)) (foldl upload_step rows ops) = Some r'"
    using r' live by (intro select_first_key [where k = FileID]) (auto simp: live_upload_def same_upload_def)
  with r' show ?thesis by (auto simp: Get_def)
qed

definition demo_file :: "nat Record" where
  "demo_file = new_upload 0 1 7 \<lparr>pi_Content = ''hello'', pi_Filename = ''a.txt'', pi_Mimetype = ''text/plain''\<rparr>"

lemma demo_file_inv: "upload_inv [demo_file]"
  by (simp add: upload_inv_def demo_file_def new_upload_def upload_ok_def upload_checks_def RuneStart_def byte_def)

theorem upload_available_witness:
  "\<exists>r'. Get (10 * minute) False 1
      (foldl upload_step [demo_file] [UAck minute 1, USweep (5 * minute) False DefaultAckRetention]) = Inr r' \<and>
    same_upload demo_file r'"
  using upload_available [OF demo_file_inv, of demo_file "10 * minute" hour
      "[UAck minute 1, USweep (5 * minute) False DefaultAckRetention]"]
  by (simp add: demo_file_def new_upload_def retained_def harmless_def DefaultAckRetention_def retention_secs_def duration_defs)

section \<open>Collection\<close>

text \<open>The production sweep: the retention of \<^verbatim>\<open>StartSweeper\<close> with its default, and no database error.\<close>

fun production_sweep :: "'u upload_op \<Rightarrow> bool" where
  "production_sweep (USweep now fault ret) \<longleftrightarrow> \<not> fault \<and> ret = DefaultAckRetention"
| "production_sweep op \<longleftrightarrow> False"

lemma retention_default [simp]: "retention_secs DefaultAckRetention * second = hour"
  by (simp add: retention_secs_def DefaultAckRetention_def duration_defs)

lemma unswept_young:
  assumes "upload_ok r" "\<not> sweepable now DefaultAckRetention r"
  shows "now \<le> CreatedAt r + 25 * hour"
proof -
  have "0 \<le> hour" by (simp add: duration_defs)
  with assms show ?thesis by (auto simp: upload_ok_def sweepable_def split: option.splits)
qed

lemma update_where_born:
  "(\<And>r. CreatedAt (f r) = CreatedAt r) \<Longrightarrow> r \<in> set (update_where P f rows) \<Longrightarrow> \<exists>r0 \<in> set rows. CreatedAt r0 = CreatedAt r"
  by (auto simp: set_update_where)

lemma upload_origin:
  assumes "r \<in> set (upload_step rows op)"
  shows "CreatedAt r = upload_time op \<or> (\<exists>r0 \<in> set rows. CreatedAt r0 = CreatedAt r)"
proof (cases op)
  case (UPut now fault fid wid it)
  with assms show ?thesis
    by (auto simp: Put_def insert_upload_def new_upload_def split: option.splits if_splits)
next
  case (UBatch now bf fids wid items)
  obtain res rows' where p: "PutBatch now bf fids wid items rows = (res, rows')" by (rule prod.exhaust)
  then have "set rows' \<subseteq> set rows \<union> set (batch_rows now fids wid 0 items)"
    by (cases rule: PutBatch_cases) auto
  then show ?thesis using assms UBatch p by (auto simp: batch_rows_def new_upload_def)
next
  case (UMark now flt fid)
  with assms show ?thesis
    using update_where_born [of "\<lambda>r. r\<lparr>FetchedAt := Some now\<rparr>" r "live_upload now fid" rows]
    by (auto simp: MarkFetched_def Let_def split: if_splits)
next
  case (UAck now fid)
  with assms show ?thesis
    using update_where_born [of "\<lambda>r. r\<lparr>AckedAt := Some now\<rparr>" r "ackable now fid" rows] by (auto simp: ack_update_def)
next
  case (USweep now fault ret)
  with assms show ?thesis by (auto simp: Storage_Sweep_def Let_def split: if_splits)
qed

interpretation gc: collected_store upload_step upload_inv set CreatedAt upload_time production_sweep "25 * hour"
proof
  fix rows :: "'a Record list" and op :: "'a upload_op" and r
  assume "upload_inv rows" "production_sweep op" "r \<in> set (upload_step rows op)"
  then obtain now where "op = USweep now False DefaultAckRetention" "r \<in> set rows" "\<not> sweepable now DefaultAckRetention r"
    by (cases op) (auto simp: Storage_Sweep_def Let_def)
  then show "upload_time op \<le> CreatedAt r + 25 * hour"
    using unswept_young [of r now] \<open>upload_inv rows\<close> by (simp add: upload_inv_def list_all_iff)
qed (rule upload_origin)

text \<open>The ticks of the loop, with the statements other callers ran before each, as one sequence of statements.\<close>

type_synonym 'u tick = "instant \<times> bool \<times> bool \<times> 'u upload_op list"

definition tick_event :: "'u tick \<Rightarrow> 'u gc_event" where
  "tick_event = (\<lambda>(t, cancelled, fault, ops). GcTick t cancelled fault (\<lambda>rows. foldl upload_step rows ops))"

definition tick_ops :: "duration \<Rightarrow> 'u tick \<Rightarrow> 'u upload_op list" where
  "tick_ops ret = (\<lambda>(t, cancelled, fault, ops). ops @ (if cancelled then [] else [USweep t fault ret]))"

lemma fst_sweepOnce: "fst (sweepOnce t fault ret st) = upload_step (fst st) (USweep t fault ret)"
  by (cases st) (auto simp: sweepOnce_def split: prod.splits sum.splits)

lemma fst_gc_loop:
  "fst (gc_loop ret (map tick_event ticks) st) = foldl upload_step (fst st) (concat (map (tick_ops ret) ticks))"
proof (induction ticks arbitrary: st)
  case (Cons x ticks)
  obtain t cancelled fault ops where x: "x = (t, cancelled, fault, ops)" by (metis prod_cases4)
  show ?case
    by (cases cancelled) (simp_all add: x tick_event_def tick_ops_def Let_def Cons [unfolded tick_event_def tick_ops_def] fst_sweepOnce)
qed simp

text \<open>C18: Every staged file is eventually deleted. Whatever the callers and the sweeper did before
  and do afterwards, once one tick of the production sweeper at time t runs without a database
  error no file staged more than 25 hours before t is left in the table: 24 hours to expiry and
  one hour of retention.\<close>

theorem uploads_collected:
  assumes "upload_inv rows" and "clock_from upload_time t (concat (map (tick_ops DefaultAckRetention) after))"
  shows "set (fst (startSweeperWithInterval True 0 now0 fault0
      (map tick_event (before @ [(t, False, False, ops)] @ after)) (rows, metrics))) \<subseteq> {r. t \<le> CreatedAt r + 25 * hour}"
proof
  define pre where "pre = foldl upload_step rows
    (USweep now0 fault0 DefaultAckRetention # concat (map (tick_ops DefaultAckRetention) before) @ ops)"
  define sw where "sw = (USweep t False DefaultAckRetention :: 'a upload_op)"
  fix r
  assume "r \<in> set (fst (startSweeperWithInterval True 0 now0 fault0
      (map tick_event (before @ [(t, False, False, ops)] @ after)) (rows, metrics)))"
  then have "r \<in> set (foldl upload_step pre (sw # concat (map (tick_ops DefaultAckRetention) after)))"
    unfolding startSweeperWithInterval_def Let_def fst_gc_loop if_not_P simp_thms if_True if_False
    by (simp add: fst_sweepOnce fst_gc_loop pre_def sw_def tick_ops_def)
  moreover have "upload_inv pre" unfolding pre_def by (rule uploads.inv_run [OF assms(1)])
  moreover have "production_sweep sw" "upload_time sw = t" "0 \<le> 25 * hour" by (simp_all add: sw_def duration_defs)
  ultimately show "r \<in> {r. t \<le> CreatedAt r + 25 * hour}"
    using gc.collected_run [of pre sw "concat (map (tick_ops DefaultAckRetention) after)" r] assms(2) by simp
qed

theorem uploads_collected_witness:
  "set (fst (startSweeperWithInterval True 0 0 False
      (map tick_event ([(hour, False, True, [])] @ [(26 * hour, False, False, [])] @ [(27 * hour, False, True, [])]))
      ([demo_file], \<lparr>pendingUploadsSweptAcked = 0, pendingUploadsSweptExpired = 0, pendingUploadsSweepErrors = 0\<rparr>))) \<subseteq>
    {r. 26 * hour \<le> CreatedAt r + 25 * hour}"
  by (rule uploads_collected [OF demo_file_inv]) (simp add: tick_ops_def duration_defs)

section \<open>Isolation\<close>

definition foreign :: "('u \<Rightarrow> string) \<Rightarrow> string \<Rightarrow> 'u Record \<Rightarrow> bool" where
  "foreign String ws r \<longleftrightarrow> String (WorkspaceID r) \<noteq> ws"

lemma Get_SomeD: "Get now fault fid rows = Inr r \<Longrightarrow> r \<in> set rows \<and> FileID r = fid \<and> now < ExpiresAt r"
  by (auto simp: Get_def live_upload_def dest!: select_first_SomeD split: if_splits option.splits)

text \<open>A statement on the row of one identifier leaves the rows of other workspaces alone.\<close>

lemma foreign_update:
  assumes "upload_inv rows" "r \<in> set rows" "\<not> foreign String ws r" "\<And>x. P x \<Longrightarrow> FileID x = FileID r"
    and "\<And>x. WorkspaceID (f x) = WorkspaceID x"
  shows "filter (foreign String ws) (update_where P f rows) = filter (foreign String ws) rows"
proof -
  have "\<not> foreign String ws x" if "x \<in> set rows" "P x" for x
  proof -
    have "x = r" using assms(1,2,4) that by (auto simp: upload_inv_def distinct_map dest: inj_onD)
    with assms(3) show ?thesis by simp
  qed
  then have "x \<in> set rows \<Longrightarrow> P x \<Longrightarrow> \<not> foreign String ws x \<and> \<not> foreign String ws (f x)" for x
    using assms(5) by (simp add: foreign_def)
  then show ?thesis by (induction rows) auto
qed

lemma GetContent_foreign:
  assumes "upload_inv rows"
  shows "filter (foreign String ws) (snd (GetContent Parse String now gf wflt now' mf (\<lambda>rows. rows) ws fs rows)) = filter (foreign String ws) rows"
proof -
  have "filter (foreign String ws) (snd (MarkFetched now' mf fid rows)) = filter (foreign String ws) rows"
    if "Get now gf fid rows = Inr r" "String (WorkspaceID r) = ws" for fid r
    using foreign_update [OF assms, of r String ws "live_upload now' fid" "\<lambda>r. r\<lparr>FetchedAt := Some now'\<rparr>"] Get_SomeD [OF that(1)] that(2)
    by (auto simp: MarkFetched_def Let_def foreign_def live_upload_def)
  then show ?thesis by (auto simp: GetContent_def Let_def split: option.splits sum.splits)
qed

lemma Handler_Ack_foreign:
  assumes "upload_inv rows"
  shows "filter (foreign String ws) (snd (Handler_Ack Parse String now gf now' now'' flt (\<lambda>rows. rows) (\<lambda>rows. rows) ws fs rows)) =
    filter (foreign String ws) rows"
proof -
  have a: "filter (foreign String ws) (ack_update now' fid rows) = filter (foreign String ws) rows"
    if "Get now gf fid rows = Inr r" "String (WorkspaceID r) = ws" for fid r
    using foreign_update [OF assms, of r String ws "ackable now' fid" "\<lambda>r. r\<lparr>AckedAt := Some now'\<rparr>"] Get_SomeD [OF that(1)] that(2)
    by (auto simp: ack_update_def foreign_def ackable_def)
  have b: "snd (Storage_Ack now' now'' flt (\<lambda>rows. rows) fid rows) \<in> {rows, ack_update now' fid rows}" for fid
    by (auto simp: Storage_Ack_def Let_def split: option.splits)
  have c: "filter (foreign String ws) x = filter (foreign String ws) rows"
    if "Get now gf fid rows = Inr r" "String (WorkspaceID r) = ws"
      "Storage_Ack now' now'' flt (\<lambda>rows. rows) fid rows = (e, x)" for fid r e x
    using b [of fid] a [OF that(1,2)] that(3) by auto
  show ?thesis by (auto simp: Handler_Ack_def split: option.splits sum.splits prod.splits) (metis c)+
qed

text \<open>On the fetch and acknowledge routes a workspace reaches only its own files. The bytes a
  fetch returns are those of an unexpired row of the calling workspace under the requested
  identifier, an acknowledgement succeeds only for such a row, and neither changes any row of
  another workspace.\<close>

theorem upload_isolation:
  assumes "upload_inv rows"
    and "GetContent Parse String now gf wflt now' mf (\<lambda>rows. rows) ws fs rows = (resp, rows')"
    and "Handler_Ack Parse String now gf now' now'' flt (\<lambda>rows. rows) (\<lambda>rows. rows) ws fs rows = (ack, rows'')"
  shows "(\<forall>ty disp len body. resp = UploadBytes ty disp len body \<longrightarrow>
      (\<exists>r \<in> set rows. Parse fs = Some (FileID r) \<and> String (WorkspaceID r) = ws \<and> now < ExpiresAt r \<and>
         body = Content r \<and> len = int (length body) \<and> disp = contentDispositionAttachment (Filename r))) \<and>
    (\<forall>raced. ack = Acked raced \<longrightarrow>
      (\<exists>r \<in> set rows. Parse fs = Some (FileID r) \<and> String (WorkspaceID r) = ws \<and> now < ExpiresAt r)) \<and>
    filter (foreign String ws) rows' = filter (foreign String ws) rows \<and>
    filter (foreign String ws) rows'' = filter (foreign String ws) rows"
proof (intro conjI allI impI)
  have size: "SizeBytes r = int (length (Content r))" if "r \<in> set rows" for r
    using assms(1) that by (simp add: upload_inv_def list_all_iff upload_ok_def)
  show "\<exists>r \<in> set rows. Parse fs = Some (FileID r) \<and> String (WorkspaceID r) = ws \<and> now < ExpiresAt r \<and>
      body = Content r \<and> len = int (length body) \<and> disp = contentDispositionAttachment (Filename r)"
    if "resp = UploadBytes ty disp len body" for ty disp len body
    using assms(2) that size
    by (auto simp: GetContent_def Let_def dest!: Get_SomeD split: option.splits sum.splits if_splits)
  show "\<exists>r \<in> set rows. Parse fs = Some (FileID r) \<and> String (WorkspaceID r) = ws \<and> now < ExpiresAt r"
    if "ack = Acked raced" for raced
    using assms(3) that
    by (auto simp: Handler_Ack_def dest!: Get_SomeD split: option.splits sum.splits if_splits prod.splits)
  show "filter (foreign String ws) rows' = filter (foreign String ws) rows"
    using GetContent_foreign [OF assms(1), of String ws Parse now gf wflt now' mf fs] assms(2) by simp
  show "filter (foreign String ws) rows'' = filter (foreign String ws) rows"
    using Handler_Ack_foreign [OF assms(1), of String ws Parse now gf now' now'' flt fs] assms(3) by simp
qed

theorem upload_isolation_witness:
  "filter (foreign show_nat ''8'') (snd (GetContent (map_option nat \<circ> Atoi) show_nat hour False False hour no_faults
      (\<lambda>rows. rows) ''8'' ''1'' [demo_file])) = [demo_file]"
proof -
  define g where "g = GetContent (map_option nat \<circ> Atoi) show_nat hour False False hour no_faults (\<lambda>rows. rows) ''8'' ''1'' [demo_file]"
  define a where "a = Handler_Ack (map_option nat \<circ> Atoi) show_nat hour False hour hour no_faults (\<lambda>rows. rows) (\<lambda>rows. rows) ''8'' ''1'' [demo_file]"
  have "filter (foreign show_nat ''8'') (snd g) = filter (foreign show_nat ''8'') [demo_file]"
    using upload_isolation [OF demo_file_inv, of "map_option nat \<circ> Atoi" show_nat hour False False hour no_faults "''8''" "''1''"
        "fst g" "snd g" hour no_faults "fst a" "snd a"] unfolding g_def a_def by simp
  moreover have "foreign show_nat ''8'' demo_file" unfolding foreign_def demo_file_def new_upload_def by code_simp
  ultimately show ?thesis by (simp add: g_def)
qed

end
