(* ===== verification/Activity_Log.thy ===== *)
theory Activity_Log
  imports Go_Std
begin

text \<open>
  The writer of \<^verbatim>\<open>activity_logs\<close> in \<^verbatim>\<open>internal/handlers/activity.go\<close>: \<^verbatim>\<open>logActivityExec\<close> with its three
  callers. One statement inserts the row, or attaches the completion to the row of the same
  message, and stamps the workspace. \<^verbatim>\<open>json.Marshal\<close> of a body and the two regular-expression
  replacements of the error redaction are arguments.
\<close>

section \<open>Rows and parameters\<close>

record 'b ActivityParams =
  ap_WorkspaceID :: string
  ap_ActivityType :: string
  ap_SourceID :: "string option"
  ap_TargetID :: "string option"
  ap_Method :: "string option"
  ap_Summary :: "string option"
  ap_RequestBody :: "'b option"
  ap_ResponseBody :: "'b option"
  ap_ToolTrace :: string
  ap_DurationMs :: "int option"
  ap_Status :: string
  ap_MessageId :: string
  ap_ErrorDetail :: "string option"

record activity_log =
  al_workspace_id :: string
  al_activity_type :: string
  al_source_id :: "string option"
  al_target_id :: "string option"
  al_method :: "string option"
  al_summary :: "string option"
  al_request_body :: "string option"
  al_response_body :: "string option"
  al_tool_trace :: "string option"
  al_duration_ms :: "int option"
  al_status :: string
  al_error_detail :: "string option"
  al_message_id :: "string option"

text \<open>The table and the column \<^verbatim>\<open>workspaces.last_activity_at\<close> of the workspaces that exist.\<close>

record activity_db =
  ad_logs :: "activity_log list"
  ad_last_activity :: "string \<rightharpoonup> instant option"

text \<open>The \<^verbatim>\<open>ACTIVITY_LOGGED\<close> broadcast.\<close>

record activity_event =
  ae_workspace :: string
  ae_activity_type :: string
  ae_method :: "string option"
  ae_summary :: "string option"
  ae_status :: string
  ae_source_id :: "string option"
  ae_target_id :: "string option"
  ae_duration_ms :: "int option"
  ae_tool_trace :: "string option"
  ae_request_body :: "string option"
  ae_response_body :: "string option"
  ae_error_detail :: "string option"
  ae_message_id :: "string option"

definition errorDetailBroadcastCap :: nat where
  "errorDetailBroadcastCap = 4096"

definition sanitizeErrorDetailForBroadcast :: "(string \<Rightarrow> string) \<Rightarrow> string \<Rightarrow> string" where
  "sanitizeErrorDetailForBroadcast redact s =
     (if s = [] then s
      else redact (if errorDetailBroadcastCap < length s
                   then take errorDetailBroadcastCap s @ [CHR 0xE2, CHR 0x80, CHR 0xA6] @ ''[truncated]''
                   else s))"

section \<open>logActivityExec\<close>

definition marshalled :: "('b \<Rightarrow> string option) \<Rightarrow> 'b option \<Rightarrow> string option" where
  "marshalled Marshal body =
     (case body of None \<Rightarrow> None | Some b \<Rightarrow> Some (case Marshal b of None \<Rightarrow> ''null'' | Some s \<Rightarrow> s))"

definition activity_row :: "('b \<Rightarrow> string option) \<Rightarrow> 'b ActivityParams \<Rightarrow> activity_log" where
  "activity_row Marshal p =
     \<lparr>al_workspace_id = ap_WorkspaceID p, al_activity_type = ap_ActivityType p, al_source_id = ap_SourceID p,
      al_target_id = ap_TargetID p, al_method = ap_Method p, al_summary = ap_Summary p,
      al_request_body = marshalled Marshal (ap_RequestBody p), al_response_body = marshalled Marshal (ap_ResponseBody p),
      al_tool_trace = nullif_empty (ap_ToolTrace p), al_duration_ms = ap_DurationMs p, al_status = ap_Status p,
      al_error_detail = ap_ErrorDetail p, al_message_id = nullif_empty (ap_MessageId p)\<rparr>"

text \<open>The conflict target, a partial unique index, and the update of the conflicting row.\<close>

definition same_message :: "activity_log \<Rightarrow> activity_log \<Rightarrow> bool" where
  "same_message new r \<longleftrightarrow> al_message_id r \<noteq> None \<and> al_workspace_id r = al_workspace_id new \<and> al_message_id r = al_message_id new"

definition attach_completion :: "activity_log \<Rightarrow> activity_log \<Rightarrow> activity_log" where
  "attach_completion new r = r\<lparr>
     al_response_body := coalesce (al_response_body new) (al_response_body r),
     al_status := al_status new,
     al_duration_ms := coalesce (al_duration_ms new) (al_duration_ms r),
     al_error_detail := al_error_detail new,
     al_tool_trace := (if al_tool_trace new \<noteq> None then al_tool_trace new else al_tool_trace r)\<rparr>"

definition upsert_activity :: "activity_log \<Rightarrow> activity_log list \<Rightarrow> activity_log list" where
  "upsert_activity new logs =
     (if \<exists>r \<in> set logs. same_message new r then update_where (same_message new) (attach_completion new) logs
      else logs @ [new])"

definition stamp_workspace :: "instant \<Rightarrow> string \<Rightarrow> (string \<rightharpoonup> instant option) \<Rightarrow> (string \<rightharpoonup> instant option)" where
  "stamp_workspace now ws m = (if m ws = None then m else m(ws \<mapsto> Some now))"

definition activity_event_of ::
  "(string \<Rightarrow> string) \<Rightarrow> ('b \<Rightarrow> string option) \<Rightarrow> 'b ActivityParams \<Rightarrow> activity_event" where
  "activity_event_of redact Marshal p =
     \<lparr>ae_workspace = ap_WorkspaceID p, ae_activity_type = ap_ActivityType p, ae_method = ap_Method p,
      ae_summary = ap_Summary p, ae_status = ap_Status p, ae_source_id = ap_SourceID p, ae_target_id = ap_TargetID p,
      ae_duration_ms = ap_DurationMs p, ae_tool_trace = nullif_empty (ap_ToolTrace p),
      ae_request_body = marshalled Marshal (ap_RequestBody p), ae_response_body = marshalled Marshal (ap_ResponseBody p),
      ae_error_detail = (case ap_ErrorDetail p of
          None \<Rightarrow> None
        | Some d \<Rightarrow> if d = [] then None else Some (sanitizeErrorDetailForBroadcast redact d)),
      ae_message_id = nullif_empty (ap_MessageId p)\<rparr>"

text \<open>
  \<^term>\<open>None\<close>: the statement failed. Otherwise the new state and the commit hook, as the events it
  will emit: none without a broadcaster.
\<close>

definition logActivityExec ::
  "(string \<Rightarrow> string) \<Rightarrow> ('b \<Rightarrow> string option) \<Rightarrow> bool \<Rightarrow> instant \<Rightarrow> bool \<Rightarrow> 'b ActivityParams \<Rightarrow> activity_db \<Rightarrow>
   (activity_db \<times> activity_event list) option" where
  "logActivityExec redact Marshal broadcaster now fault p db =
     (if fault then None
      else Some (db\<lparr>ad_logs := upsert_activity (activity_row Marshal p) (ad_logs db),
                    ad_last_activity := stamp_workspace now (ap_WorkspaceID p) (ad_last_activity db)\<rparr>,
                 if broadcaster then [activity_event_of redact Marshal p] else []))"

definition LogActivity ::
  "(string \<Rightarrow> string) \<Rightarrow> ('b \<Rightarrow> string option) \<Rightarrow> bool \<Rightarrow> instant \<Rightarrow> bool \<Rightarrow> 'b ActivityParams \<Rightarrow> activity_db \<Rightarrow>
   activity_db \<times> activity_event list" where
  "LogActivity redact Marshal broadcaster now fault p db =
     (case logActivityExec redact Marshal broadcaster now fault p db of None \<Rightarrow> (db, []) | Some r \<Rightarrow> r)"

definition LogActivityTx ::
  "(string \<Rightarrow> string) \<Rightarrow> ('b \<Rightarrow> string option) \<Rightarrow> bool \<Rightarrow> instant \<Rightarrow> bool \<Rightarrow> 'b ActivityParams \<Rightarrow> activity_db \<Rightarrow>
   (activity_db \<times> activity_event list) option" where
  "LogActivityTx redact Marshal broadcaster now fault p db = logActivityExec redact Marshal broadcaster now fault p db"

section \<open>One row per message\<close>

text \<open>The unique index.\<close>

definition message_key :: "activity_log \<Rightarrow> string \<times> string option" where
  "message_key r = (al_workspace_id r, al_message_id r)"

definition activity_inv :: "activity_log list \<Rightarrow> bool" where
  "activity_inv logs \<longleftrightarrow> distinct (map message_key (filter (\<lambda>r. al_message_id r \<noteq> None) logs))"

lemma attach_keeps [simp]:
  "message_key (attach_completion new r) = message_key r" "al_message_id (attach_completion new r) = al_message_id r"
  "al_request_body (attach_completion new r) = al_request_body r"
  by (simp_all add: attach_completion_def message_key_def)

lemma upsert_activity_inv: "activity_inv logs \<Longrightarrow> activity_inv (upsert_activity new logs)"
proof (cases "\<exists>r \<in> set logs. same_message new r")
  case True
  assume "activity_inv logs"
  with True show ?thesis
    unfolding upsert_activity_def activity_inv_def
    using distinct_filter_update_where [of logs "same_message new" "\<lambda>r. al_message_id r \<noteq> None" "attach_completion new" message_key]
    by simp
next
  case False
  assume "activity_inv logs"
  with False show ?thesis
    by (auto simp: upsert_activity_def activity_inv_def message_key_def same_message_def)
qed

definition log_step ::
  "(string \<Rightarrow> string) \<Rightarrow> ('b \<Rightarrow> string option) \<Rightarrow> activity_log list \<Rightarrow> instant \<times> bool \<times> 'b ActivityParams \<Rightarrow> activity_log list" where
  "log_step redact Marshal logs =
     (\<lambda>(now, fault, p). ad_logs (fst (LogActivity redact Marshal True now fault p \<lparr>ad_logs = logs, ad_last_activity = Map.empty\<rparr>)))"

lemma log_step_eq: "log_step redact Marshal logs (now, fault, p) = (if fault then logs else upsert_activity (activity_row Marshal p) logs)"
  by (simp add: log_step_def LogActivity_def logActivityExec_def)

interpretation activity: invariant_system "log_step redact Marshal" activity_inv for redact Marshal
  by unfold_locales (auto simp: log_step_eq upsert_activity_inv)

lemma upsert_message:
  assumes "activity_inv logs" "al_message_id new \<noteq> None"
  shows "\<exists>r. filter (same_message new) (upsert_activity new logs) = [r] \<and> al_status r = al_status new \<and>
     (al_response_body new \<noteq> None \<longrightarrow> al_response_body r = al_response_body new) \<and>
     al_request_body r = (case select_first (same_message new) logs of None \<Rightarrow> al_request_body new | Some r0 \<Rightarrow> al_request_body r0)"
proof (cases "select_first (same_message new) logs")
  case None
  then have none: "\<forall>r \<in> set logs. \<not> same_message new r" by (simp add: select_first_None_iff)
  then have "filter (same_message new) (upsert_activity new logs) = [new]"
    using assms(2) by (auto simp: upsert_activity_def same_message_def)
  with None show ?thesis by simp
next
  case (Some r0)
  then have r0: "r0 \<in> set logs" "same_message new r0" using select_first_SomeD [OF Some] by auto
  have m: "same_message new (attach_completion new r) = same_message new r" for r
    by (simp add: same_message_def attach_completion_def)
  have "filter (same_message new) logs = [r0]"
    using assms(1) [unfolded activity_inv_def] r0
    by (rule filter_unique_key) (use r0 in \<open>auto simp: same_message_def message_key_def\<close>)
  moreover have "filter (same_message new) (update_where P f rows) = map f (filter (same_message new) rows)"
    if "\<And>r. P r = same_message new r" "\<And>r. same_message new (f r) = same_message new r" for P f rows
    using that by (induction rows) auto
  ultimately have "filter (same_message new) (upsert_activity new logs) = [attach_completion new r0]"
    using r0 m by (auto simp: upsert_activity_def)
  with Some show ?thesis by (auto simp: attach_completion_def coalesce_def split: option.splits)
qed

text \<open>However the writers interleave and fail, each message has one row in the activity log:
  after a write for a message has succeeded, exactly one row carries its identifier in that
  workspace, with the latest status and the latest response, and with the request body of the
  first write, so a completion never duplicates or blanks the message it answers.\<close>

theorem activity_row_per_message:
  assumes "ap_MessageId p \<noteq> []" and "logs = foldl (log_step redact Marshal) [] writes"
  shows "\<exists>r. filter (\<lambda>x. al_workspace_id x = ap_WorkspaceID p \<and> al_message_id x = Some (ap_MessageId p))
            (log_step redact Marshal logs (now, False, p)) = [r] \<and>
     al_status r = ap_Status p \<and>
     (ap_ResponseBody p \<noteq> None \<longrightarrow> al_response_body r = marshalled Marshal (ap_ResponseBody p)) \<and>
     al_request_body r =
       (case select_first (\<lambda>x. al_workspace_id x = ap_WorkspaceID p \<and> al_message_id x = Some (ap_MessageId p)) logs of
          None \<Rightarrow> marshalled Marshal (ap_RequestBody p)
        | Some r0 \<Rightarrow> al_request_body r0)"
proof -
  have "activity_inv logs"
    unfolding assms(2) by (rule activity.inv_run) (simp add: activity_inv_def)
  moreover have row: "al_status (activity_row Marshal p) = ap_Status p"
      "al_response_body (activity_row Marshal p) = marshalled Marshal (ap_ResponseBody p)"
      "al_request_body (activity_row Marshal p) = marshalled Marshal (ap_RequestBody p)"
      "al_message_id (activity_row Marshal p) = Some (ap_MessageId p)"
    using assms(1) by (simp_all add: activity_row_def)
  moreover have resp: "marshalled Marshal (ap_ResponseBody p) \<noteq> None \<longleftrightarrow> ap_ResponseBody p \<noteq> None"
    by (simp add: marshalled_def split: option.splits)
  moreover have "same_message (activity_row Marshal p) =
      (\<lambda>x. al_workspace_id x = ap_WorkspaceID p \<and> al_message_id x = Some (ap_MessageId p))"
    unfolding same_message_def row by (auto simp: activity_row_def)
  ultimately show ?thesis
    using upsert_message [of logs "activity_row Marshal p", unfolded row resp] by (simp add: log_step_eq)
qed

definition demo_activity :: "string \<Rightarrow> string option \<Rightarrow> string option \<Rightarrow> string ActivityParams" where
  "demo_activity status req resp =
     \<lparr>ap_WorkspaceID = ''w'', ap_ActivityType = ''a2a_receive'', ap_SourceID = None, ap_TargetID = None, ap_Method = None,
      ap_Summary = None, ap_RequestBody = req, ap_ResponseBody = resp, ap_ToolTrace = [], ap_DurationMs = None,
      ap_Status = status, ap_MessageId = ''m1'', ap_ErrorDetail = None\<rparr>"

theorem activity_row_per_message_witness:
  "\<exists>r. filter (\<lambda>x. al_workspace_id x = ''w'' \<and> al_message_id x = Some ''m1'')
      (log_step id Some (foldl (log_step id Some) [] [(0, False, demo_activity ''pending'' (Some ''question'') None)])
        (1, False, demo_activity ''ok'' None (Some ''answer''))) = [r] \<and>
    al_status r = ''ok'' \<and> al_response_body r = Some ''answer'' \<and> al_request_body r = Some ''question''"
  using activity_row_per_message [of "demo_activity ''ok'' None (Some ''answer'')" _ id Some
      "[(0, False, demo_activity ''pending'' (Some ''question'') None)]" 1, OF _ refl]
  by (simp add: demo_activity_def log_step_eq upsert_activity_def activity_row_def marshalled_def)

end
