(* ===== verification/Chat_Uploads.thy ===== *)
theory Chat_Uploads
  imports Upload_Props Activity_Log
begin

text \<open>
  \<^verbatim>\<open>uploadPollMode\<close> of \<^verbatim>\<open>internal/handlers/chat_files.go\<close>: a chat upload for a workspace that polls
  stages its files and writes one activity row per file in one transaction. The multipart parser
  is an outcome of the request, \<^verbatim>\<open>json.Marshal\<close> of the manifest an argument. The main property joins
  the staging table, the activity log, the name helpers and the fetch route.
\<close>

section \<open>The request and the reply\<close>

text \<open>A part: the size its header claims, and its bytes unless reading fails.\<close>

record file_part =
  fp_Filename :: string
  fp_Size :: int
  fp_ContentType :: string
  fp_read :: "string option"

record uploadedFile =
  uf_URI :: string
  uf_Name :: string
  uf_Mimetype :: string
  uf_Size :: int

record manifest =
  mf_file_id :: string
  mf_name :: string
  mf_mimeType :: string
  mf_size :: int
  mf_uri :: string

datatype poll_response =
    PollFiles "uploadedFile list"
  | PollTooLarge string int
  | PollErr nat string

record 'u upload_state =
  us_rows :: "'u Record list"
  us_activity :: activity_db
  us_events :: "activity_event list"

section \<open>Phase 1: reading the parts\<close>

fun prepare_parts :: "file_part list \<Rightarrow> poll_response + PutItem list" where
  "prepare_parts [] = Inr []"
| "prepare_parts (fh # fhs) =
     (if MaxFileBytes < fp_Size fh then Inl (PollTooLarge (fp_Filename fh) (fp_Size fh))
      else case fp_read fh of
             None \<Rightarrow> Inl (PollErr 400 ''could not read file part'')
           | Some content \<Rightarrow>
               if MaxFileBytes < int (length content) then Inl (PollTooLarge (fp_Filename fh) (int (length content)))
               else (case prepare_parts fhs of
                       Inl e \<Rightarrow> Inl e
                     | Inr items \<Rightarrow>
                         Inr (\<lparr>pi_Content = content, pi_Filename = SanitizeFilename (fp_Filename fh),
                               pi_Mimetype = safeMimetype (fp_ContentType fh)\<rparr> # items)))"

section \<open>Phase 2: the transaction\<close>

definition pending_uri :: "('u \<Rightarrow> string) \<Rightarrow> string \<Rightarrow> 'u \<Rightarrow> string" where
  "pending_uri String workspaceID fid = ''platform-pending:'' @ workspaceID @ ''/'' @ String fid"

definition upload_activity :: "('u \<Rightarrow> string) \<Rightarrow> string \<Rightarrow> 'u \<Rightarrow> PutItem \<Rightarrow> manifest ActivityParams" where
  "upload_activity String workspaceID fid it =
     \<lparr>ap_WorkspaceID = workspaceID, ap_ActivityType = ''a2a_receive'', ap_SourceID = None, ap_TargetID = Some workspaceID,
      ap_Method = Some ''chat_upload_receive'', ap_Summary = Some (''chat_upload_receive: '' @ pi_Filename it),
      ap_RequestBody = Some \<lparr>mf_file_id = String fid, mf_name = pi_Filename it, mf_mimeType = pi_Mimetype it,
         mf_size = int (length (pi_Content it)), mf_uri = pending_uri String workspaceID fid\<rparr>,
      ap_ResponseBody = None, ap_ToolTrace = [], ap_DurationMs = None, ap_Status = ''ok'', ap_MessageId = [],
      ap_ErrorDetail = None\<rparr>"

definition uploaded_file :: "('u \<Rightarrow> string) \<Rightarrow> string \<Rightarrow> 'u \<Rightarrow> PutItem \<Rightarrow> uploadedFile" where
  "uploaded_file String workspaceID fid it =
     \<lparr>uf_URI = pending_uri String workspaceID fid, uf_Name = pi_Filename it, uf_Mimetype = pi_Mimetype it,
      uf_Size = int (length (pi_Content it))\<rparr>"

text \<open>The loop over the files; \<^term>\<open>None\<close>: an activity row could not be inserted.\<close>

fun log_uploads ::
  "(manifest \<Rightarrow> string option) \<Rightarrow> ('u \<Rightarrow> string) \<Rightarrow> bool \<Rightarrow> instant \<Rightarrow> faults \<Rightarrow> string \<Rightarrow> nat \<Rightarrow> 'u list \<Rightarrow> PutItem list \<Rightarrow>
   activity_db \<Rightarrow> (activity_db \<times> activity_event list \<times> uploadedFile list) option" where
  "log_uploads Marshal String broadcaster now flt workspaceID i (fid # fids) (it # items) db =
     (case LogActivityTx id Marshal broadcaster now (flt i) (upload_activity String workspaceID fid it) db of
        None \<Rightarrow> None
      | Some (db', evs) \<Rightarrow>
          (case log_uploads Marshal String broadcaster now flt workspaceID (Suc i) fids items db' of
             None \<Rightarrow> None
           | Some (db'', evs', out) \<Rightarrow> Some (db'', evs @ evs', uploaded_file String workspaceID fid it # out)))"
| "log_uploads Marshal String broadcaster now flt workspaceID i _ _ db = Some (db, [], [])"

record poll_faults =
  pf_begin :: bool
  pf_insert :: faults
  pf_activity :: faults
  pf_commit :: bool

text \<open>
  The outcome of the multipart parser: \<^term>\<open>None\<close> for a malformed body, otherwise the parts of the field
  \<^verbatim>\<open>files\<close>.
\<close>

definition uploadPollMode ::
  "(string \<Rightarrow> 'u option) \<Rightarrow> ('u \<Rightarrow> string) \<Rightarrow> (manifest \<Rightarrow> string option) \<Rightarrow> bool \<Rightarrow> instant \<Rightarrow> poll_faults \<Rightarrow> (nat \<Rightarrow> 'u) \<Rightarrow>
   string \<Rightarrow> file_part list option \<Rightarrow> 'u upload_state \<Rightarrow> poll_response \<times> 'u upload_state" where
  "uploadPollMode Parse String Marshal broadcaster now pf fids workspaceID form st =
     (case form of
        None \<Rightarrow> (PollErr 400 ''malformed multipart body'', st)
      | Some headers \<Rightarrow>
          if headers = [] then (PollErr 400 ''no files field in request'', st)
          else if 64 < length headers then (PollErr 400 ''too many files (limit 64)'', st)
          else case Parse workspaceID of
                 None \<Rightarrow> (PollErr 400 ''invalid workspace ID'', st)
               | Some wsUUID \<Rightarrow>
                   (case prepare_parts headers of
                      Inl e \<Rightarrow> (e, st)
                    | Inr items \<Rightarrow>
                        if pf_begin pf then (PollErr 500 ''could not stage files'', st)
                        else case PutBatchTx now (pf_insert pf) fids wsUUID items (us_rows st) of
                               Inl e \<Rightarrow>
                                 if e = ErrTooLarge then (PollErr 413 ''one or more files exceed per-file cap'', st)
                                 else (PollErr 500 ''could not stage files'', st)
                             | Inr (ids, rows) \<Rightarrow>
                                 (case log_uploads Marshal String broadcaster now (pf_activity pf) workspaceID 0 ids items (us_activity st) of
                                    None \<Rightarrow> (PollErr 500 ''could not log upload activity'', st)
                                  | Some (db, evs, out) \<Rightarrow>
                                      if pf_commit pf then (PollErr 500 ''could not stage files'', st)
                                      else (PollFiles out, \<lparr>us_rows = rows, us_activity = db, us_events = us_events st @ evs\<rparr>))))"

section \<open>Properties\<close>

lemma log_uploads_ok:
  assumes "log_uploads Marshal String broadcaster now flt ws i ids items db = Some (db', evs, out)" "length ids = length items"
  shows "out = map2 (uploaded_file String ws) ids items \<and>
    evs = (if broadcaster then map2 (\<lambda>fid it. activity_event_of id Marshal (upload_activity String ws fid it)) ids items else []) \<and>
    ad_logs db' = ad_logs db @ map2 (\<lambda>fid it. activity_row Marshal (upload_activity String ws fid it)) ids items"
  using assms
proof (induction Marshal String broadcaster now flt ws i ids items db arbitrary: db' evs out rule: log_uploads.induct)
  case (1 Marshal String broadcaster now flt ws i fid fids it items db)
  define p where "p = upload_activity String ws fid it"
  have plain: "upsert_activity (activity_row Marshal p) logs = logs @ [activity_row Marshal p]" for logs
    by (auto simp: upsert_activity_def same_message_def activity_row_def p_def upload_activity_def)
  from "1.prems"(1) obtain db1 evs1 evs2 out2 where s: "logActivityExec id Marshal broadcaster now (flt i) p db = Some (db1, evs1)"
    "log_uploads Marshal String broadcaster now flt ws (Suc i) fids items db1 = Some (db', evs2, out2)"
    "evs = evs1 @ evs2" "out = uploaded_file String ws fid it # out2"
    by (auto simp: LogActivityTx_def p_def split: option.splits prod.splits)
  from s(1) have "ad_logs db1 = ad_logs db @ [activity_row Marshal p]"
    "evs1 = (if broadcaster then [activity_event_of id Marshal p] else [])"
    by (auto simp: logActivityExec_def plain split: if_splits)
  moreover from s have l: "LogActivityTx id Marshal broadcaster now (flt i) (upload_activity String ws fid it) db = Some (db1, evs1)"
    by (simp add: LogActivityTx_def p_def)
  ultimately show ?case
    using "1.IH" [OF l refl s(2)] "1.prems"(2) s(3,4) by (simp add: p_def)
qed simp_all

lemma prepare_parts_ok:
  "prepare_parts parts = Inr items \<Longrightarrow> length items = length parts \<and>
    (\<forall>k < length parts. fp_read (parts ! k) = Some (pi_Content (items ! k)) \<and>
       pi_Filename (items ! k) = SanitizeFilename (fp_Filename (parts ! k)) \<and>
       pi_Mimetype (items ! k) = safeMimetype (fp_ContentType (parts ! k)))"
proof (induction parts arbitrary: items)
  case (Cons p parts)
  then obtain c its where "fp_read p = Some c" "prepare_parts parts = Inr its"
    "items = \<lparr>pi_Content = c, pi_Filename = SanitizeFilename (fp_Filename p), pi_Mimetype = safeMimetype (fp_ContentType p)\<rparr> # its"
    by (auto split: if_splits option.splits sum.splits)
  with Cons.IH [of its] show ?case by (auto simp: less_Suc_eq_0_disj)
qed simp

lemma PutBatchTx_ok:
  assumes "PutBatchTx now flt fids wid items rows = Inr (ids, rows')"
  shows "ids = map fids [0..<length items] \<and> rows' = rows @ batch_rows now fids wid 0 items \<and> (upload_inv rows \<longrightarrow> upload_inv rows')"
proof (cases "items = []")
  case False
  with assms have v: "validatePutBatchItems 0 items = None" "putBatchInsertRows now flt fids wid 0 items rows = Inr (ids, rows')"
    by (auto simp: PutBatchTx_def split: option.splits)
  have "\<forall>it \<in> set items. \<exists>j. put_checks j it = None" using validate_all [OF v(1)] by blast
  with putBatchInsertRows_ok [OF v(2)] batch_rows_inv [OF v(2)] show ?thesis by simp
qed (use assms in \<open>simp add: PutBatchTx_def\<close>)

lemma uploadPollMode_cases:
  assumes "uploadPollMode Parse String Marshal broadcaster now pf fids ws form st = (resp, st')"
  obtains (err) "\<forall>out. resp \<noteq> PollFiles out" "st' = st"
  | (ok) parts u items ids rows db evs out where "form = Some parts" "parts \<noteq> []" "length parts \<le> 64" "Parse ws = Some u"
    "prepare_parts parts = Inr items" "PutBatchTx now (pf_insert pf) fids u items (us_rows st) = Inr (ids, rows)"
    "log_uploads Marshal String broadcaster now (pf_activity pf) ws 0 ids items (us_activity st) = Some (db, evs, out)"
    "resp = PollFiles out" "st' = \<lparr>us_rows = rows, us_activity = db, us_events = us_events st @ evs\<rparr>"
proof -
  have prep: "prepare_parts parts = Inl e \<Longrightarrow> e \<noteq> PollFiles out" for parts e out
    by (induction parts) (auto split: if_splits option.splits sum.splits)
  consider "\<forall>out. resp \<noteq> PollFiles out" | out where "resp = PollFiles out" by blast
  then show ?thesis
  proof cases
    case 1
    with assms show ?thesis
      by (intro err) (auto simp: uploadPollMode_def split: option.splits if_splits sum.splits)
  next
    case (2 out)
    with assms show ?thesis
      by (auto simp: uploadPollMode_def split: option.splits if_splits sum.splits dest!: prep)
        (rule ok, assumption, assumption, simp, assumption+)
  qed
qed

text \<open>A fetch of a staged row by its workspace, under the canonical form of the identifiers.\<close>

lemma GetContent_staged:
  assumes "upload_inv rows" "r \<in> set rows" "t < ExpiresAt r" "Parse (String (FileID r)) = Some (FileID r)"
    and "Parse ws \<noteq> None" "String (WorkspaceID r) = ws"
  shows "fst (GetContent Parse String t False wflt t' mf env ws (String (FileID r)) rows) =
    UploadBytes (if Mimetype r = [] then ''application/octet-stream'' else Mimetype r)
      (contentDispositionAttachment (Filename r)) (SizeBytes r) (Content r)"
proof -
  have "Get t False (FileID r) rows = Inr r"
    using Get_batch_row [of "[]" rows r t] assms(1-3) by simp
  then show ?thesis using assms(4-6) by (auto simp: GetContent_def Let_def)
qed

text \<open>An upload for a polling workspace takes effect whole or not at all. Unless it answers with
  the list of files, nothing has changed: no staged row, no activity row, no event. Otherwise
  there is, for each part and in the order of the parts, one staged row with its exact bytes, its
  sanitized name and its safe media type, one activity row whose manifest names that row, one
  event if there is a broadcaster, and one reply entry; and until it expires the workspace that
  fetches the identifier of part k gets the bytes of part k.\<close>

theorem uploadPollMode_correct:
  assumes "\<And>x. Parse (String x) = Some x" and "upload_inv (us_rows st)"
    and "uploadPollMode Parse String Marshal broadcaster now pf fids ws form st = (resp, st')"
  shows "((\<forall>out. resp \<noteq> PollFiles out) \<and> st' = st) \<or>
    (\<exists>parts u new acts out. form = Some parts \<and> 0 < length parts \<and> length parts \<le> 64 \<and> Parse ws = Some u \<and> resp = PollFiles out \<and>
       us_rows st' = us_rows st @ new \<and> ad_logs (us_activity st') = ad_logs (us_activity st) @ acts \<and>
       length new = length parts \<and> length acts = length parts \<and> length out = length parts \<and>
       length (us_events st') = length (us_events st) + (if broadcaster then length parts else 0) \<and>
       (\<forall>k < length parts. \<exists>it.
          fp_read (parts ! k) = Some (pi_Content it) \<and> pi_Filename it = SanitizeFilename (fp_Filename (parts ! k)) \<and>
          pi_Mimetype it = safeMimetype (fp_ContentType (parts ! k)) \<and>
          new ! k = new_upload now (fids k) u it \<and>
          acts ! k = activity_row Marshal (upload_activity String ws (fids k) it) \<and>
          out ! k = uploaded_file String ws (fids k) it \<and>
          (\<forall>t wflt t' mf env. String u = ws \<and> t < now + 24 * hour \<longrightarrow>
             fst (GetContent Parse String t False wflt t' mf env ws (String (fids k)) (us_rows st')) =
               UploadBytes (if pi_Mimetype it = [] then ''application/octet-stream'' else pi_Mimetype it)
                 (contentDispositionAttachment (pi_Filename it)) (int (length (pi_Content it))) (pi_Content it))))"
  using assms(3)
proof (cases rule: uploadPollMode_cases)
  case (ok parts u items ids rows db evs out)
  note prep = prepare_parts_ok [OF ok(5)] and batch = PutBatchTx_ok [OF ok(6)]
  define new where "new = batch_rows now fids u 0 items"
  define acts where "acts = map2 (\<lambda>fid it. activity_row Marshal (upload_activity String ws fid it)) ids items"
  have len: "length items = length parts" "length ids = length items" using prep batch by simp_all
  note log = log_uploads_ok [OF ok(7) len(2)]
  have inv: "upload_inv (us_rows st @ new)" using batch assms(2) unfolding new_def by blast
  have part: "\<exists>it. fp_read (parts ! k) = Some (pi_Content it) \<and> pi_Filename it = SanitizeFilename (fp_Filename (parts ! k)) \<and>
          pi_Mimetype it = safeMimetype (fp_ContentType (parts ! k)) \<and>
          new ! k = new_upload now (fids k) u it \<and>
          acts ! k = activity_row Marshal (upload_activity String ws (fids k) it) \<and>
          out ! k = uploaded_file String ws (fids k) it \<and>
          (\<forall>t wflt t' mf env. String u = ws \<and> t < now + 24 * hour \<longrightarrow>
             fst (GetContent Parse String t False wflt t' mf env ws (String (fids k)) (us_rows st')) =
               UploadBytes (if pi_Mimetype it = [] then ''application/octet-stream'' else pi_Mimetype it)
                 (contentDispositionAttachment (pi_Filename it)) (int (length (pi_Content it))) (pi_Content it))"
    if k: "k < length parts" for k
  proof (intro exI [of _ "items ! k"] conjI allI impI)
    show n: "new ! k = new_upload now (fids k) u (items ! k)"
      using k len batch_rows_nth [of k items now fids u 0] by (simp add: new_def)
    show "fst (GetContent Parse String t False wflt t' mf env ws (String (fids k)) (us_rows st')) =
         UploadBytes (if pi_Mimetype (items ! k) = [] then ''application/octet-stream'' else pi_Mimetype (items ! k))
           (contentDispositionAttachment (pi_Filename (items ! k))) (int (length (pi_Content (items ! k)))) (pi_Content (items ! k))"
      if "String u = ws \<and> t < now + 24 * hour" for t wflt t' mf env
    proof -
      have "new ! k \<in> set (us_rows st @ new)" using k len by (simp add: new_def)
      from GetContent_staged [OF inv this, of t Parse String ws] that ok(4,9) batch n assms(1)
      show ?thesis by (simp add: new_upload_def new_def)
    qed
  qed (use k len prep batch log in \<open>auto simp: acts_def\<close>)
  have "us_rows st' = us_rows st @ new" "ad_logs (us_activity st') = ad_logs (us_activity st) @ acts"
    "length (us_events st') = length (us_events st) + (if broadcaster then length parts else 0)"
    "length new = length parts" "length acts = length parts" "length out = length parts"
    using ok(9) batch log len by (simp_all add: new_def acts_def)
  then show ?thesis using ok(1-4,8) part
    by (intro disjI2 exI [of _ parts] exI [of _ u] exI [of _ new] exI [of _ acts] exI [of _ out]) simp
qed simp

definition demo_upload :: "poll_response \<times> string upload_state" where
  "demo_upload = uploadPollMode Some id (\<lambda>m. Some (mf_uri m)) True 0
     \<lparr>pf_begin = False, pf_insert = no_faults, pf_activity = no_faults, pf_commit = False\<rparr> (\<lambda>k. ''f'') ''w''
     (Some [\<lparr>fp_Filename = ''x/a b.txt'', fp_Size = 5, fp_ContentType = ''text/plain; charset=utf-8'', fp_read = Some ''hello''\<rparr>])
     \<lparr>us_rows = [], us_activity = \<lparr>ad_logs = [], ad_last_activity = Map.empty\<rparr>, us_events = []\<rparr>"

lemma demo_upload_reply:
  "fst demo_upload = PollFiles [\<lparr>uf_URI = ''platform-pending:w/f'', uf_Name = ''a_b.txt'', uf_Mimetype = ''text/plain'', uf_Size = 5\<rparr>]"
  by code_simp

theorem uploadPollMode_correct_witness:
  "fst (GetContent Some id hour False False hour no_faults (\<lambda>rows. rows) ''w'' ''f'' (us_rows (snd demo_upload))) =
     UploadBytes (safeMimetype ''text/plain; charset=utf-8'')
       (contentDispositionAttachment (SanitizeFilename ''x/a b.txt'')) 5 ''hello''"
proof -
  define form where "form = Some [\<lparr>fp_Filename = ''x/a b.txt'', fp_Size = 5, fp_ContentType = ''text/plain; charset=utf-8'', fp_read = Some ''hello''\<rparr>]"
  have mime: "safeMimetype ''text/plain; charset=utf-8'' \<noteq> []" by code_simp
  have t: "hour < 24 * hour" by (simp add: duration_defs)
  have "uploadPollMode Some id (\<lambda>m. Some (mf_uri m)) True 0
     \<lparr>pf_begin = False, pf_insert = no_faults, pf_activity = no_faults, pf_commit = False\<rparr> (\<lambda>k. ''f'') ''w'' form
     \<lparr>us_rows = [], us_activity = \<lparr>ad_logs = [], ad_last_activity = Map.empty\<rparr>, us_events = []\<rparr> = (fst demo_upload, snd demo_upload)"
    by (simp add: demo_upload_def form_def)
  from uploadPollMode_correct [OF _ _ this] show ?thesis
    by (auto simp: demo_upload_reply form_def mime t) (drule arg_cong [where f = length], simp)
qed

text \<open>
  An empty file passes the checks of phase 1; the batch then refuses it and the whole upload is
  answered with an internal error, although nothing is wrong with the database.
\<close>

lemma prepare_parts_empty:
  assumes "prepare_parts parts = Inr items" "Some [] \<in> fp_read ` set parts"
  shows "\<exists>e. validatePutBatchItems i items = Some e \<and> e \<noteq> ErrTooLarge"
  using assms
proof (induction parts arbitrary: items i)
  case (Cons p parts)
  then obtain c its where c: "fp_read p = Some c" "int (length c) \<le> MaxFileBytes" "prepare_parts parts = Inr its"
    "items = \<lparr>pi_Content = c, pi_Filename = SanitizeFilename (fp_Filename p), pi_Mimetype = safeMimetype (fp_ContentType p)\<rparr> # its"
    by (auto simp: not_less split: if_splits option.splits sum.splits)
  show ?case
  proof (cases "c = []")
    case False
    then have "Some [] \<in> fp_read ` set parts" using Cons.prems(2) c(1) by auto
    with Cons.IH [OF c(3) this, of "Suc i"] c(2,4) show ?thesis by (auto simp: put_checks_def split: option.splits if_splits)
  qed (simp add: c put_checks_def)
qed simp

lemma uploadPollMode_empty_file:
  assumes "prepare_parts parts = Inr items" "Some [] \<in> fp_read ` set parts" "length parts \<le> 64" "Parse ws = Some u"
  shows "uploadPollMode Parse String Marshal broadcaster now pf fids ws (Some parts) st = (PollErr 500 ''could not stage files'', st)"
proof -
  obtain e where e: "validatePutBatchItems 0 items = Some e" "e \<noteq> ErrTooLarge"
    using prepare_parts_empty [OF assms(1,2)] by blast
  have "parts \<noteq> []" using assms(2) by auto
  moreover have "items \<noteq> []" using e by auto
  ultimately show ?thesis using e assms by (simp add: uploadPollMode_def PutBatchTx_def)
qed

end
