(* ===== verification/Auth_Tokens.thy ===== *)
theory Auth_Tokens
  imports Display_Control
begin

text \<open>
  \<^verbatim>\<open>internal/wsauth/tokens.go\<close> and \<^verbatim>\<open>internal/orgtoken\<close>: the bearer tokens of workspaces and of
  organisations. The tables are lists of rows with the unique index on the hash; SHA-256 is an
  argument, so is the random text of a new token. Of \<^verbatim>\<open>workspaces\<close> only the status is read. The
  lemmas say who holds a live token, and that revocation is final.
\<close>

section \<open>Tables\<close>

record ws_token =
  wt_id :: string
  wt_workspace_id :: string
  wt_token_hash :: string
  wt_prefix :: string
  wt_kind :: string
  wt_last_used_at :: "instant option"
  wt_revoked_at :: "instant option"

record org_token =
  ot_id :: string
  ot_token_hash :: string
  ot_prefix :: string
  ot_name :: "string option"
  ot_created_by :: "string option"
  ot_org_id :: "string option"
  ot_created_at :: instant
  ot_last_used_at :: "instant option"
  ot_revoked_at :: "instant option"
  ot_expires_at :: "instant option"

datatype AuditAction = AuditActionMint | AuditActionRevoke | AuditActionValidateFail

record audit_event =
  au_token_id :: "string option"
  au_action :: AuditAction
  au_actor :: string
  au_org_id :: "string option"

record auth_db =
  db_ws_tokens :: "ws_token list"
  db_org_tokens :: "org_token list"
  db_audit :: "audit_event list"
  db_status :: "string \<rightharpoonup> string"

definition tokenPrefixLen :: nat where "tokenPrefixLen = 8"

section \<open>Workspace tokens\<close>

text \<open>
  \<open>plaintext\<close> is the encoding of the random bytes, \<open>rid\<close> the generated identifier. The INSERT fails
  on a taken hash or identifier and on a workspace that does not exist.
\<close>

definition issueTokenKind ::
  "(string \<Rightarrow> string) \<Rightarrow> bool \<Rightarrow> string \<Rightarrow> string \<Rightarrow> string \<Rightarrow> string \<Rightarrow> auth_db \<Rightarrow> string option \<times> auth_db" where
  "issueTokenKind sha fault rid plaintext workspaceID kind db =
     (if fault \<or> sha plaintext \<in> wt_token_hash ` set (db_ws_tokens db) \<or> rid \<in> wt_id ` set (db_ws_tokens db) \<or>
         db_status db workspaceID = None
      then (None, db)
      else (Some plaintext, db\<lparr>db_ws_tokens := db_ws_tokens db @
              [\<lparr>wt_id = rid, wt_workspace_id = workspaceID, wt_token_hash = sha plaintext,
                wt_prefix = take tokenPrefixLen plaintext, wt_kind = kind, wt_last_used_at = None, wt_revoked_at = None\<rparr>]\<rparr>))"

definition IssueToken where
  "IssueToken sha fault rid plaintext workspaceID db = issueTokenKind sha fault rid plaintext workspaceID ''instance'' db"

definition IssueAPIToken where
  "IssueAPIToken sha fault rid plaintext workspaceID db = issueTokenKind sha fault rid plaintext workspaceID ''api'' db"

definition live_ws_token :: "auth_db \<Rightarrow> string \<Rightarrow> ws_token \<Rightarrow> bool" where
  "live_ws_token db hash t \<longleftrightarrow> wt_token_hash t = hash \<and> wt_revoked_at t = None \<and>
     (case db_status db (wt_workspace_id t) of None \<Rightarrow> False | Some st \<Rightarrow> st \<noteq> ''removed'')"

definition lookupTokenByHash :: "bool \<Rightarrow> string \<Rightarrow> auth_db \<Rightarrow> (string \<times> string) option" where
  "lookupTokenByHash fault hash db =
     (if fault then None
      else map_option (\<lambda>t. (wt_id t, wt_workspace_id t)) (select_first (live_ws_token db hash) (db_ws_tokens db)))"

definition touch_ws_token :: "instant \<Rightarrow> string \<Rightarrow> auth_db \<Rightarrow> auth_db" where
  "touch_ws_token now tokenID db = db\<lparr>db_ws_tokens :=
     update_where (\<lambda>t. wt_id t = tokenID) (\<lambda>t. t\<lparr>wt_last_used_at := Some now\<rparr>) (db_ws_tokens db)\<rparr>"

text \<open>The result says whether the token is accepted (\<^verbatim>\<open>err == nil\<close>).\<close>

definition ValidateToken ::
  "(string \<Rightarrow> string) \<Rightarrow> instant \<Rightarrow> faults \<Rightarrow> string \<Rightarrow> string \<Rightarrow> auth_db \<Rightarrow> bool \<times> auth_db" where
  "ValidateToken sha now flt expectedWorkspaceID plaintext db =
     (if plaintext = [] \<or> expectedWorkspaceID = [] then (False, db)
      else case lookupTokenByHash (flt 0) (sha plaintext) db of
             None \<Rightarrow> (False, db)
           | Some (tokenID, workspaceID) \<Rightarrow>
               if workspaceID \<noteq> expectedWorkspaceID then (False, db)
               else (True, if flt 1 then db else touch_ws_token now tokenID db))"

definition WorkspaceFromToken :: "(string \<Rightarrow> string) \<Rightarrow> bool \<Rightarrow> string \<Rightarrow> auth_db \<Rightarrow> string option" where
  "WorkspaceFromToken sha fault plaintext db =
     (if plaintext = [] then None else map_option snd (lookupTokenByHash fault (sha plaintext) db))"

definition ValidateAnyToken ::
  "(string \<Rightarrow> string) \<Rightarrow> instant \<Rightarrow> faults \<Rightarrow> string \<Rightarrow> auth_db \<Rightarrow> bool \<times> auth_db" where
  "ValidateAnyToken sha now flt plaintext db =
     (if plaintext = [] then (False, db)
      else case lookupTokenByHash (flt 0) (sha plaintext) db of
             None \<Rightarrow> (False, db)
           | Some (tokenID, _) \<Rightarrow> (True, if flt 1 then db else touch_ws_token now tokenID db))"

definition RevokeAllForWorkspace :: "instant \<Rightarrow> bool \<Rightarrow> string \<Rightarrow> auth_db \<Rightarrow> bool \<times> auth_db" where
  "RevokeAllForWorkspace now fault workspaceID db =
     (if fault then (False, db)
      else (True, db\<lparr>db_ws_tokens := update_where (\<lambda>t. wt_workspace_id t = workspaceID \<and> wt_revoked_at t = None)
              (\<lambda>t. t\<lparr>wt_revoked_at := Some now\<rparr>) (db_ws_tokens db)\<rparr>))"

definition RevokeInstanceTokensForWorkspace :: "instant \<Rightarrow> bool \<Rightarrow> string \<Rightarrow> auth_db \<Rightarrow> bool \<times> auth_db" where
  "RevokeInstanceTokensForWorkspace now fault workspaceID db =
     (if fault then (False, db)
      else (True, db\<lparr>db_ws_tokens :=
              update_where (\<lambda>t. wt_workspace_id t = workspaceID \<and> wt_revoked_at t = None \<and> wt_kind t = ''instance'')
                (\<lambda>t. t\<lparr>wt_revoked_at := Some now\<rparr>) (db_ws_tokens db)\<rparr>))"

text \<open>The predicates on live tokens; \<^term>\<open>None\<close> is a database error.\<close>

definition HasLiveInstanceToken :: "bool \<Rightarrow> string \<Rightarrow> auth_db \<Rightarrow> bool option" where
  "HasLiveInstanceToken fault workspaceID db =
     (if fault then None
      else Some (0 < count_where (\<lambda>t. wt_workspace_id t = workspaceID \<and> wt_revoked_at t = None \<and> wt_kind t = ''instance'')
             (db_ws_tokens db)))"

definition HasAnyLiveToken :: "bool \<Rightarrow> string \<Rightarrow> auth_db \<Rightarrow> bool option" where
  "HasAnyLiveToken fault workspaceID db =
     (if fault then None
      else Some (0 < count_where (\<lambda>t. wt_workspace_id t = workspaceID \<and> wt_revoked_at t = None) (db_ws_tokens db)))"

definition HasAnyLiveTokenGlobal :: "bool \<Rightarrow> auth_db \<Rightarrow> bool option" where
  "HasAnyLiveTokenGlobal fault db =
     (if fault then None else Some (0 < count_where (\<lambda>t. wt_revoked_at t = None) (db_ws_tokens db)))"

section \<open>Organisation tokens\<close>

definition defaultMintCeiling :: int where "defaultMintCeiling = 100"

definition mintCeiling :: "string \<Rightarrow> int" where
  "mintCeiling ORG_TOKEN_MINT_CEILING =
     (if ORG_TOKEN_MINT_CEILING \<noteq> []
      then case Atoi ORG_TOKEN_MINT_CEILING of Some n \<Rightarrow> n | None \<Rightarrow> defaultMintCeiling
      else defaultMintCeiling)"

text \<open>The audit row; its client address, agent and metadata are not kept here.\<close>

definition LogAuditEvent :: "bool \<Rightarrow> string option \<Rightarrow> AuditAction \<Rightarrow> string \<Rightarrow> string \<Rightarrow> auth_db \<Rightarrow> auth_db" where
  "LogAuditEvent fault tokenID action actor orgID db =
     (if fault then db
      else db\<lparr>db_audit := db_audit db @
             [\<lparr>au_token_id = (case tokenID of None \<Rightarrow> None | Some s \<Rightarrow> nullif_empty s), au_action = action,
               au_actor = actor, au_org_id = nullif_empty orgID\<rparr>]\<rparr>)"

datatype org_token_error =
    PastExpiry
  | MintCeilingExceeded
  | CountFailed
  | PersistFailed

definition valid_org_token :: "instant \<Rightarrow> org_token \<Rightarrow> bool" where
  "valid_org_token now t \<longleftrightarrow> ot_revoked_at t = None \<and> (case ot_expires_at t of None \<Rightarrow> True | Some e \<Rightarrow> now < e)"

definition live_org_count :: "instant \<Rightarrow> string \<Rightarrow> auth_db \<Rightarrow> nat" where
  "live_org_count now orgID db = count_where (\<lambda>t. ot_org_id t = Some orgID \<and> valid_org_token now t) (db_org_tokens db)"

text \<open>
  A zero time is given as \<^term>\<open>None\<close>. A mint has two statements with no lock around them: the check of the expiry
  and the count of the live tokens, and the INSERT (unique hash and identifier, an organisation that is a
  workspace) with its audit row. \<^verbatim>\<open>IssueWithExpiry\<close> is one call on its own; calls that overlap are the
  interleavings of their two statements.
\<close>

definition mint_check :: "int \<Rightarrow> instant \<Rightarrow> bool \<Rightarrow> string \<Rightarrow> instant option \<Rightarrow> auth_db \<Rightarrow> org_token_error option" where
  "mint_check ceiling now fault orgID expiresAt db =
     (if (case expiresAt of Some e \<Rightarrow> e < now | None \<Rightarrow> False) then Some PastExpiry
      else if 0 < ceiling \<and> orgID \<noteq> []
      then (if fault then Some CountFailed
            else if ceiling \<le> int (live_org_count now orgID db) then Some MintCeilingExceeded else None)
      else None)"

definition mint_insert ::
  "(string \<Rightarrow> string) \<Rightarrow> instant \<Rightarrow> bool \<Rightarrow> bool \<Rightarrow> string \<Rightarrow> string \<Rightarrow> string \<Rightarrow> string \<Rightarrow> string \<Rightarrow> instant option \<Rightarrow>
   auth_db \<Rightarrow> (org_token_error + string \<times> string) \<times> auth_db" where
  "mint_insert sha now fault auditFault rid plaintext name createdBy orgID expiresAt db =
     (if fault \<or> sha plaintext \<in> ot_token_hash ` set (db_org_tokens db) \<or> rid \<in> ot_id ` set (db_org_tokens db) \<or>
        orgID \<noteq> [] \<and> db_status db orgID = None
      then (Inl PersistFailed, db)
      else (Inr (plaintext, rid), LogAuditEvent auditFault (Some rid) AuditActionMint createdBy orgID
             (db\<lparr>db_org_tokens := db_org_tokens db @
                [\<lparr>ot_id = rid, ot_token_hash = sha plaintext, ot_prefix = take tokenPrefixLen plaintext,
                  ot_name = nullif_empty name, ot_created_by = nullif_empty createdBy, ot_org_id = nullif_empty orgID,
                  ot_created_at = now, ot_last_used_at = None, ot_revoked_at = None, ot_expires_at = expiresAt\<rparr>]\<rparr>)))"

definition IssueWithExpiry ::
  "(string \<Rightarrow> string) \<Rightarrow> int \<Rightarrow> instant \<Rightarrow> faults \<Rightarrow> string \<Rightarrow> string \<Rightarrow> string \<Rightarrow> string \<Rightarrow> string \<Rightarrow> instant option \<Rightarrow>
   auth_db \<Rightarrow> (org_token_error + string \<times> string) \<times> auth_db" where
  "IssueWithExpiry sha ceiling now flt rid plaintext name createdBy orgID expiresAt db =
     (case mint_check ceiling now (flt 0) orgID expiresAt db of
        Some e \<Rightarrow> (Inl e, db)
      | None \<Rightarrow> mint_insert sha now (flt 1) (flt 2) rid plaintext name createdBy orgID expiresAt db)"

lemmas issue_defs = IssueWithExpiry_def mint_check_def mint_insert_def

definition Issue where
  "Issue sha ceiling now flt rid plaintext name createdBy orgID db =
     IssueWithExpiry sha ceiling now flt rid plaintext name createdBy orgID None db"

definition touch_org_token :: "instant \<Rightarrow> string \<Rightarrow> auth_db \<Rightarrow> auth_db" where
  "touch_org_token now tokenID db = db\<lparr>db_org_tokens :=
     update_where (\<lambda>t. ot_id t = tokenID) (\<lambda>t. t\<lparr>ot_last_used_at := Some now\<rparr>) (db_org_tokens db)\<rparr>"

text \<open>
  \<^verbatim>\<open>Validate\<close>: identifier, prefix and organisation of the token, or \<^term>\<open>None\<close> for \<^verbatim>\<open>ErrInvalidToken\<close>, the
  only error there is: a failed query is mapped to it as well.
\<close>

definition Validate ::
  "(string \<Rightarrow> string) \<Rightarrow> instant \<Rightarrow> faults \<Rightarrow> string \<Rightarrow> string \<Rightarrow> bool \<Rightarrow> auth_db \<Rightarrow>
   (string \<times> string \<times> string) option \<times> auth_db" where
  "Validate sha now flt plaintext actor auditInvalid db =
     (if plaintext = [] then (None, db)
      else if flt 0 then (None, db)
      else case select_first (\<lambda>t. ot_token_hash t = sha plaintext \<and> ot_revoked_at t = None) (db_org_tokens db) of
             None \<Rightarrow>
               (None, if auditInvalid
                      then LogAuditEvent (flt 1) None AuditActionValidateFail
                             (if actor \<noteq> [] then actor
                              else if tokenPrefixLen \<le> length plaintext then ''org-token:'' @ take tokenPrefixLen plaintext
                              else ''org-token:<short>'') [] db
                      else db)
           | Some t \<Rightarrow>
               if (case ot_expires_at t of Some e \<Rightarrow> e < now | None \<Rightarrow> False) then (None, db)
               else (Some (ot_id t, ot_prefix t, case ot_org_id t of None \<Rightarrow> [] | Some g \<Rightarrow> g),
                     if flt 2 then db else touch_org_token now (ot_id t) db))"

definition Revoke :: "instant \<Rightarrow> faults \<Rightarrow> string \<Rightarrow> string \<Rightarrow> auth_db \<Rightarrow> bool option \<times> auth_db" where
  "Revoke now flt tid actor db =
     (if flt 0 then (None, db)
      else let hit = (\<lambda>t. ot_id t = tid \<and> ot_revoked_at t = None);
               n = count_where hit (db_org_tokens db);
               db' = db\<lparr>db_org_tokens := update_where hit (\<lambda>t. t\<lparr>ot_revoked_at := Some now\<rparr>) (db_org_tokens db)\<rparr>
           in if flt 1 then (None, db')
              else (Some (0 < n), if 0 < n then LogAuditEvent (flt 2) (Some tid) AuditActionRevoke actor [] db' else db'))"

definition HasAnyLive :: "bool \<Rightarrow> auth_db \<Rightarrow> bool option" where
  "HasAnyLive fault db = (if fault then None else Some (list_ex (\<lambda>t. ot_revoked_at t = None) (db_org_tokens db)))"

definition OrgIDByTokenID :: "bool \<Rightarrow> string \<Rightarrow> auth_db \<Rightarrow> string option" where
  "OrgIDByTokenID fault tokenID db =
     (if fault then None
      else case select_first (\<lambda>t. ot_id t = tokenID) (db_org_tokens db) of
             None \<Rightarrow> None
           | Some t \<Rightarrow> Some (case ot_org_id t of None \<Rightarrow> [] | Some g \<Rightarrow> g))"

end
