(* ===== verification/Auth_Middleware.thy ===== *)
theory Auth_Middleware
  imports Auth_Tokens
begin

text \<open>
  \<^verbatim>\<open>internal/middleware/wsauth_middleware.go\<close>: the middlewares in front of the routes and the keys they
  set in the request context. The control plane that verifies session cookies
  (\<^verbatim>\<open>VerifiedCPSession\<close>) and SHA-256 are arguments, in the environment record.
\<close>

section \<open>Requests, environment and context\<close>

record auth_request =
  rq_Authorization :: string
  rq_Cookie :: string
  rq_Host :: string
  rq_Referer :: string
  rq_Origin :: string

text \<open>\<open>en_session\<close>: the user of a verified session cookie, \<^term>\<open>None\<close> for one the control plane does not confirm.\<close>

record auth_env =
  en_ADMIN_TOKEN :: string
  en_sha :: "string \<Rightarrow> string"
  en_hex :: "string \<Rightarrow> string"
  en_session :: "string \<Rightarrow> string option"
  en_slug :: string
  en_canvasProxyActive :: bool

text \<open>The keys of the gin context; \<^term>\<open>None\<close> is an unset key.\<close>

record gin_context =
  gc_org_token_id :: "string option"
  gc_org_token_prefix :: "string option"
  gc_org_id :: "string option"
  gc_caller_is_admin_token :: "bool option"
  gc_caller_credential_class :: "string option"
  gc_cp_session_actor :: "string option"
  gc_cp_session_user_id :: "string option"

definition empty_context :: gin_context where
  "empty_context = \<lparr>gc_org_token_id = None, gc_org_token_prefix = None, gc_org_id = None,
     gc_caller_is_admin_token = None, gc_caller_credential_class = None, gc_cp_session_actor = None,
     gc_cp_session_user_id = None\<rparr>"

datatype auth_result = Abort nat string | Next gin_context

definition cpSessionActor :: "auth_env \<Rightarrow> string \<Rightarrow> string" where
  "cpSessionActor env cookieHeader = ''session:'' @ take 16 (en_hex env (en_slug env @ [CHR 0x00] @ cookieHeader))"

definition session_context :: "auth_env \<Rightarrow> string \<Rightarrow> string \<Rightarrow> gin_context" where
  "session_context env cookie userID =
     empty_context\<lparr>gc_cp_session_actor := Some (cpSessionActor env cookie), gc_cp_session_user_id := Some userID\<rparr>"

definition org_context :: "string \<times> string \<times> string \<Rightarrow> gin_context" where
  "org_context = (\<lambda>(tid, prefix, orgID).
     empty_context\<lparr>gc_org_token_id := Some tid, gc_org_token_prefix := Some prefix, gc_org_id := nullif_empty orgID\<rparr>)"

definition abortAuthLookupError :: auth_result where
  "abortAuthLookupError = Abort 503 ''platform datastore unavailable''"

section \<open>The middlewares\<close>

text \<open>\<^verbatim>\<open>Validate\<close> has no error but \<^verbatim>\<open>ErrInvalidToken\<close>, so the 503 branch after it is never taken.\<close>

definition WorkspaceAuth ::
  "auth_env \<Rightarrow> instant \<Rightarrow> faults \<Rightarrow> string \<Rightarrow> auth_request \<Rightarrow> auth_db \<Rightarrow> auth_result \<times> auth_db" where
  "WorkspaceAuth env now flt workspaceID req db =
     (if workspaceID = [] then (Abort 401 ''missing workspace ID'', db)
      else let tok = BearerTokenFromHeader (rq_Authorization req)
           in if tok \<noteq> [] then
                if en_ADMIN_TOKEN env \<noteq> [] \<and> tok = en_ADMIN_TOKEN env then (Next empty_context, db)
                else (case Validate (en_sha env) now flt tok [] False db of
                        (Some org, db') \<Rightarrow> (Next (org_context org), db')
                      | (None, db') \<Rightarrow>
                          (case ValidateToken (en_sha env) now (\<lambda>i. flt (i + 3)) workspaceID tok db' of
                             (True, db'') \<Rightarrow> (Next empty_context, db'')
                           | (False, db'') \<Rightarrow> (Abort 401 ''invalid workspace auth token'', db'')))
              else case (if rq_Cookie req = [] then None else en_session env (rq_Cookie req)) of
                     Some userID \<Rightarrow> (Next (session_context env (rq_Cookie req) userID), db)
                   | None \<Rightarrow> (Abort 401 ''missing workspace auth token'', db))"

definition AdminAuth :: "auth_env \<Rightarrow> instant \<Rightarrow> faults \<Rightarrow> auth_request \<Rightarrow> auth_db \<Rightarrow> auth_result \<times> auth_db" where
  "AdminAuth env now flt req db =
     (if HasAnyLiveTokenGlobal (flt 0) db = None then (abortAuthLookupError, db)
      else case (if rq_Cookie req = [] then None else en_session env (rq_Cookie req)) of
             Some userID \<Rightarrow> (Next (session_context env (rq_Cookie req) userID), db)
           | None \<Rightarrow>
               (let tok = BearerTokenFromHeader (rq_Authorization req)
                in if tok = [] then (Abort 401 ''admin auth required'', db)
                   else case Validate (en_sha env) now (\<lambda>i. flt (i + 1)) tok [] False db of
                          (Some org, db') \<Rightarrow> (Next (org_context org), db')
                        | (None, db') \<Rightarrow>
                            if en_ADMIN_TOKEN env \<noteq> [] then
                              if tok \<noteq> en_ADMIN_TOKEN env then (Abort 401 ''invalid admin auth token'', db')
                              else (Next (empty_context\<lparr>gc_caller_is_admin_token := Some True,
                                      gc_caller_credential_class := Some ''admin-token''\<rparr>), db')
                            else (case ValidateAnyToken (en_sha env) now (\<lambda>i. flt (i + 4)) tok db' of
                                    (False, db'') \<Rightarrow> (Abort 401 ''invalid admin auth token'', db'')
                                  | (True, db'') \<Rightarrow>
                                      (Next (empty_context\<lparr>gc_caller_is_admin_token := Some True,
                                         gc_caller_credential_class := Some ''admin-token-tier3-fallback''\<rparr>), db''))))"

definition isSameOriginCanvas :: "auth_env \<Rightarrow> auth_request \<Rightarrow> bool" where
  "isSameOriginCanvas env req =
     (let host = rq_Host req; referer = rq_Referer req
      in if \<not> en_canvasProxyActive env then False
         else if host = [] then False
         else if referer \<noteq> [] \<and>
           (has_prefix (''https://'' @ host @ ''/'') referer \<or> has_prefix (''http://'' @ host @ ''/'') referer \<or>
            referer = ''https://'' @ host \<or> referer = ''http://'' @ host) then True
         else rq_Origin req = ''https://'' @ host \<or> rq_Origin req = ''http://'' @ host)"

definition CanvasOrBearer :: "auth_env \<Rightarrow> instant \<Rightarrow> faults \<Rightarrow> auth_request \<Rightarrow> auth_db \<Rightarrow> auth_result \<times> auth_db" where
  "CanvasOrBearer env now flt req db =
     (if HasAnyLiveTokenGlobal (flt 0) db = None then (abortAuthLookupError, db)
      else let tok = BearerTokenFromHeader (rq_Authorization req)
           in if tok \<noteq> [] then
                if en_ADMIN_TOKEN env \<noteq> [] \<and> tok = en_ADMIN_TOKEN env then (Next empty_context, db)
                else (case ValidateAnyToken (en_sha env) now (\<lambda>i. flt (i + 1)) tok db of
                        (False, db') \<Rightarrow> (Abort 401 ''invalid admin auth token'', db')
                      | (True, db') \<Rightarrow> (Next empty_context, db'))
              else if isSameOriginCanvas env req then (Next empty_context, db)
              else (Abort 401 ''admin auth required'', db))"

section \<open>Caller classes\<close>

definition callerHoldsOrgToken :: "gin_context \<Rightarrow> bool" where
  "callerHoldsOrgToken c = (gc_org_token_id c \<noteq> None)"

definition callerIsAdminToken :: "gin_context \<Rightarrow> bool" where
  "callerIsAdminToken c = (case gc_caller_is_admin_token c of None \<Rightarrow> False | Some b \<Rightarrow> b)"

definition callerVerifiedSessionActor :: "gin_context \<Rightarrow> string" where
  "callerVerifiedSessionActor c = (case gc_cp_session_actor c of None \<Rightarrow> [] | Some s \<Rightarrow> s)"

definition actorSession :: string where "actorSession = ''session''"

definition orgTokenActorClass :: "gin_context \<Rightarrow> string" where
  "orgTokenActorClass c =
     (let class_label = (case gc_caller_credential_class c of None \<Rightarrow> [] | Some s \<Rightarrow> s);
          prefix = (case gc_org_token_prefix c of None \<Rightarrow> [] | Some s \<Rightarrow> s)
      in if class_label \<noteq> [] then class_label
         else if prefix \<noteq> [] then actorOrgTokenPrefix @ prefix
         else if callerVerifiedSessionActor c \<noteq> [] then actorSession
         else actorAdminToken)"

definition callerOrg :: "bool \<Rightarrow> gin_context \<Rightarrow> auth_db \<Rightarrow> string" where
  "callerOrg fault c db =
     (case gc_org_token_id c of
        None \<Rightarrow> []
      | Some tokID \<Rightarrow> if tokID = [] then [] else (case OrgIDByTokenID fault tokID db of None \<Rightarrow> [] | Some g \<Rightarrow> g))"

definition approvalAnchorForGate :: "string \<Rightarrow> bool \<Rightarrow> gin_context \<Rightarrow> auth_db \<Rightarrow> string" where
  "approvalAnchorForGate MOLECULE_PLATFORM_WORKSPACE_ID fault c db =
     (let orgID = callerOrg fault c db
      in if orgID \<noteq> [] then orgID
         else if callerIsAdminToken c then MOLECULE_PLATFORM_WORKSPACE_ID else [])"

definition orgTokenActor :: "bool \<Rightarrow> gin_context \<Rightarrow> auth_db \<Rightarrow> string \<times> string" where
  "orgTokenActor fault c db =
     (let rest = (if callerVerifiedSessionActor c \<noteq> [] then
                    (case gc_cp_session_user_id c of
                       Some s \<Rightarrow> if s \<noteq> [] then (actorSession @ '':'' @ s, []) else (callerVerifiedSessionActor c, [])
                     | None \<Rightarrow> (callerVerifiedSessionActor c, []))
                  else (actorAdminToken, []))
      in case gc_org_token_prefix c of
           Some p \<Rightarrow> if p \<noteq> [] then (actorOrgTokenPrefix @ p, callerOrg fault c db) else rest
         | None \<Rightarrow> rest)"

end
