(* ===== verification/Approvals.thy ===== *)
theory Approvals
  imports Auth_Middleware
begin

text \<open>
  \<^verbatim>\<open>internal/approvals/policy.go\<close>, \<^verbatim>\<open>internal/handlers/approval_gate.go\<close> and \<^verbatim>\<open>approvals.go\<close>: the gate in
  front of destructive operations and the routes that create, decide and withdraw approvals. The
  table \<^verbatim>\<open>approval_requests\<close> is the list of its rows. \<^verbatim>\<open>json.Marshal\<close> of the operation's context is given
  by its text, the hex digest of SHA-256 is an argument.
\<close>

section \<open>Policy and table\<close>

definition ActionDeleteWorkspace :: string where "ActionDeleteWorkspace = ''delete_workspace''"
definition ActionDeprovision :: string where "ActionDeprovision = ''deprovision_workspace''"
definition ActionSecretWrite :: string where "ActionSecretWrite = ''secret_write''"
definition ActionOrgTokenMint :: string where "ActionOrgTokenMint = ''org_token_mint''"

definition IsGated :: "string \<Rightarrow> bool" where
  "IsGated action \<longleftrightarrow> action \<in> {ActionSecretWrite, ActionOrgTokenMint}"

record approval =
  av_id :: string
  av_workspace_id :: string
  av_task_id :: "string option"
  av_action :: string
  av_reason :: string
  av_context :: string
  av_request_hash :: "string option"
  av_status :: string
  av_decided_by :: "string option"
  av_decided_at :: "instant option"
  av_consumed_at :: "instant option"
  av_created_at :: instant

datatype approval_event =
    ApprovalRequested string string string string
  | ApprovalEscalated string string string
  | ApprovalDecided string string string string
  | ApprovalWithdrawn string string

record approval_state =
  as_rows :: "approval list"
  as_events :: "approval_event list"

definition emit :: "bool \<Rightarrow> approval_event \<Rightarrow> approval_state \<Rightarrow> approval_state" where
  "emit fault e st = (if fault then st else st\<lparr>as_events := as_events st @ [e]\<rparr>)"

definition new_approval ::
  "instant \<Rightarrow> string \<Rightarrow> string \<Rightarrow> string option \<Rightarrow> string \<Rightarrow> string \<Rightarrow> string \<Rightarrow> string option \<Rightarrow> approval" where
  "new_approval now aid ws task action reason context hash =
     \<lparr>av_id = aid, av_workspace_id = ws, av_task_id = task, av_action = action, av_reason = reason, av_context = context,
      av_request_hash = hash, av_status = ''pending'', av_decided_by = None, av_decided_at = None, av_consumed_at = None,
      av_created_at = now\<rparr>"

section \<open>The gate\<close>

definition context_json :: "string option \<Rightarrow> string" where
  "context_json cj = (case cj of None \<Rightarrow> ''{}'' | Some s \<Rightarrow> s)"

definition approvalRequestHash :: "(string \<Rightarrow> string) \<Rightarrow> string \<Rightarrow> string \<Rightarrow> string option \<Rightarrow> string" where
  "approvalRequestHash hex workspaceID action cj =
     hex (workspaceID @ [CHR 0x00] @ action @ [CHR 0x00] @ context_json cj)"

definition same_request :: "string \<Rightarrow> string \<Rightarrow> string \<Rightarrow> approval \<Rightarrow> bool" where
  "same_request ws action hash r \<longleftrightarrow> av_workspace_id r = ws \<and> av_action r = action \<and> av_request_hash r = Some hash"

definition consumable :: "string \<Rightarrow> string \<Rightarrow> string \<Rightarrow> approval \<Rightarrow> bool" where
  "consumable ws action hash r \<longleftrightarrow> same_request ws action hash r \<and> av_status r = ''approved'' \<and> av_consumed_at r = None"

text \<open>\<^verbatim>\<open>ORDER BY decided_at DESC NULLS LAST LIMIT 1\<close>\<close>

definition decided_later :: "approval \<Rightarrow> approval \<Rightarrow> bool" where
  "decided_later r s =
     (case av_decided_at s of None \<Rightarrow> True | Some b \<Rightarrow> (case av_decided_at r of None \<Rightarrow> False | Some a \<Rightarrow> b \<le> a))"

fun latest_decided :: "approval list \<Rightarrow> approval option" where
  "latest_decided [] = None"
| "latest_decided (r # rs) =
     (case latest_decided rs of None \<Rightarrow> Some r | Some s \<Rightarrow> Some (if decided_later r s then r else s))"

text \<open>
  The first statement: consume an approved request that nobody used. \<open>locked\<close> are the rows other
  transactions hold (\<^verbatim>\<open>SKIP LOCKED\<close>).
\<close>

definition consume_approval ::
  "instant \<Rightarrow> (string \<Rightarrow> bool) \<Rightarrow> string \<Rightarrow> string \<Rightarrow> string \<Rightarrow> approval list \<Rightarrow> string option \<times> approval list" where
  "consume_approval now locked ws action hash rows =
     (case latest_decided (filter (\<lambda>r. consumable ws action hash r \<and> \<not> locked (av_id r)) rows) of
        None \<Rightarrow> (None, rows)
      | Some r \<Rightarrow> (Some (av_id r), update_where (\<lambda>x. av_id x = av_id r) (\<lambda>x. x\<lparr>av_consumed_at := Some now\<rparr>) rows))"

text \<open>The second: reuse a pending request for the same operation, or insert one.\<close>

definition create_or_reuse ::
  "instant \<Rightarrow> string \<Rightarrow> string \<Rightarrow> string \<Rightarrow> string \<Rightarrow> string \<Rightarrow> string \<Rightarrow> approval list \<Rightarrow> (string \<times> approval list) option" where
  "create_or_reuse now aid ws action hash reason context rows =
     (case select_first (\<lambda>r. same_request ws action hash r \<and> av_status r = ''pending'') rows of
        Some r \<Rightarrow> Some (av_id r, rows)
      | None \<Rightarrow>
          if aid \<in> av_id ` set rows then None
          else Some (aid, rows @ [new_approval now aid ws None action reason context (Some hash)]))"

record gate_env =
  ge_hex :: "string \<Rightarrow> string"
  ge_broadcaster :: bool
  ge_parent :: "string \<Rightarrow> string option"
  ge_MOLECULE_PLATFORM_APPROVAL_GATE :: string

text \<open>\<^verbatim>\<open>(true, id, nil)\<close>, \<^verbatim>\<open>(false, id, nil)\<close> and the error.\<close>

datatype gate_outcome = Approved string | Pending string | GateError

definition requireApproval ::
  "gate_env \<Rightarrow> instant \<Rightarrow> faults \<Rightarrow> (string \<Rightarrow> bool) \<Rightarrow> string \<Rightarrow> string \<Rightarrow> string \<Rightarrow> string \<Rightarrow> string option \<Rightarrow> approval_state \<Rightarrow>
   gate_outcome \<times> approval_state" where
  "requireApproval env now flt locked aid workspaceID action reason cj st =
     (let hash = approvalRequestHash (ge_hex env) workspaceID action cj
      in if flt 0 then (GateError, st)
         else case consume_approval now locked workspaceID action hash (as_rows st) of
                (Some consumedID, rows) \<Rightarrow> (Approved consumedID, st\<lparr>as_rows := rows\<rparr>)
              | (None, _) \<Rightarrow>
                  (case (if flt 1 then None
                         else create_or_reuse now aid workspaceID action hash reason (context_json cj) (as_rows st)) of
                     None \<Rightarrow> (GateError, st)
                   | Some (approvalID, rows) \<Rightarrow>
                       let st1 = st\<lparr>as_rows := rows\<rparr>;
                           st2 = (if ge_broadcaster env
                                  then emit (flt 2) (ApprovalRequested workspaceID approvalID action reason) st1 else st1);
                           parentID = (if flt 3 then None else ge_parent env workspaceID);
                           st3 = (case parentID of
                                    Some p \<Rightarrow> if ge_broadcaster env then emit (flt 4) (ApprovalEscalated p approvalID workspaceID) st2 else st2
                                  | None \<Rightarrow> st2)
                       in (Pending approvalID, st3)))"

definition destructiveGateEnabled :: "gate_env \<Rightarrow> bool" where
  "destructiveGateEnabled env \<longleftrightarrow> ge_MOLECULE_PLATFORM_APPROVAL_GATE env \<in> {''1'', ''true''}"

text \<open>The caller proceeds, or the response has been written.\<close>

datatype gate_reply = Proceed | Reply nat string

definition gateDestructive ::
  "gate_env \<Rightarrow> instant \<Rightarrow> faults \<Rightarrow> (string \<Rightarrow> bool) \<Rightarrow> string \<Rightarrow> gin_context \<Rightarrow> string \<Rightarrow> string \<Rightarrow> string \<Rightarrow> string option \<Rightarrow>
   approval_state \<Rightarrow> gate_reply \<times> approval_state" where
  "gateDestructive env now flt locked aid c workspaceID action reason cj st =
     (if \<not> IsGated action then (Proceed, st)
      else if \<not> callerIsAdminToken c \<and> \<not> destructiveGateEnabled env then (Proceed, st)
      else if \<not> callerIsAdminToken c \<and> \<not> callerHoldsOrgToken c then (Proceed, st)
      else case requireApproval env now flt locked aid workspaceID action reason cj st of
             (GateError, st') \<Rightarrow> (Reply 500 ''approval gate failed'', st')
           | (Pending approvalID, st') \<Rightarrow> (Reply 202 approvalID, st')
           | (Approved _, st') \<Rightarrow> (Proceed, st'))"

section \<open>The routes\<close>

datatype approval_reply =
    ApprovalCreated string
  | ApprovalList "approval list"
  | ApprovalStatus string string
  | ApprovalErr nat string

record create_body =
  cb_TaskID :: string
  cb_Action :: string
  cb_Reason :: string
  cb_Context :: "string option"

text \<open>\<^term>\<open>None\<close> as body: binding failed, a missing action included. A nil map marshals to \<^verbatim>\<open>null\<close>.\<close>

definition Approvals_Create ::
  "gate_env \<Rightarrow> instant \<Rightarrow> faults \<Rightarrow> string \<Rightarrow> string \<Rightarrow> create_body option \<Rightarrow> approval_state \<Rightarrow> approval_reply \<times> approval_state" where
  "Approvals_Create env now flt aid workspaceID body st =
     (case body of
        None \<Rightarrow> (ApprovalErr 400 ''invalid request body'', st)
      | Some b \<Rightarrow>
          if cb_Action b = [] then (ApprovalErr 400 ''invalid request body'', st)
          else if flt 0 \<or> aid \<in> av_id ` set (as_rows st) then (ApprovalErr 500 ''failed to create approval'', st)
          else let st1 = st\<lparr>as_rows := as_rows st @ [new_approval now aid workspaceID (Some (cb_TaskID b)) (cb_Action b)
                                 (cb_Reason b) (context_json (cb_Context b)) None]\<rparr>;
                   st2 = emit (flt 1) (ApprovalRequested workspaceID aid (cb_Action b) (cb_Reason b)) st1;
                   st3 = (case (if flt 2 then None else ge_parent env workspaceID) of
                            Some p \<Rightarrow> emit (flt 3) (ApprovalEscalated p aid workspaceID) st2
                          | None \<Rightarrow> st2)
               in (ApprovalCreated aid, st3))"

text \<open>The listings, newest first and at most 50; rows that do not scan are skipped.\<close>

definition newest_first :: "approval list \<Rightarrow> approval list" where
  "newest_first rows = sort_key (\<lambda>r. - av_created_at r) rows"

definition Approvals_ListAll :: "bool \<Rightarrow> (string \<Rightarrow> bool) \<Rightarrow> (approval \<Rightarrow> bool) \<Rightarrow> approval_state \<Rightarrow> approval_reply" where
  "Approvals_ListAll fault workspace_exists scan_err st =
     (if fault then ApprovalErr 500 ''query failed''
      else ApprovalList (filter (\<lambda>r. \<not> scan_err r) (take 50 (newest_first
             (filter (\<lambda>r. av_status r = ''pending'' \<and> workspace_exists (av_workspace_id r)) (as_rows st))))))"

definition Approvals_List :: "bool \<Rightarrow> (approval \<Rightarrow> bool) \<Rightarrow> string \<Rightarrow> approval_state \<Rightarrow> approval_reply" where
  "Approvals_List fault scan_err workspaceID st =
     (if fault then ApprovalErr 500 ''query failed''
      else ApprovalList (filter (\<lambda>r. \<not> scan_err r) (take 50 (newest_first
             (filter (\<lambda>r. av_workspace_id r = workspaceID) (as_rows st))))))"

definition decidable_row :: "string \<Rightarrow> string \<Rightarrow> approval \<Rightarrow> bool" where
  "decidable_row approvalID workspaceID r \<longleftrightarrow> av_id r = approvalID \<and> av_workspace_id r = workspaceID \<and> av_status r = ''pending''"

definition decide_update :: "instant \<Rightarrow> string \<Rightarrow> string \<Rightarrow> string \<Rightarrow> string \<Rightarrow> approval list \<Rightarrow> approval list" where
  "decide_update now decision decidedBy approvalID workspaceID rows =
     update_where (decidable_row approvalID workspaceID)
       (\<lambda>r. r\<lparr>av_status := decision, av_decided_by := Some decidedBy, av_decided_at := Some now\<rparr>) rows"

text \<open>The body: decision and \<^verbatim>\<open>decided_by\<close>. The faults are the UPDATE, \<^verbatim>\<open>RowsAffected\<close> and the broadcast.\<close>

definition Approvals_Decide ::
  "instant \<Rightarrow> faults \<Rightarrow> string \<Rightarrow> string \<Rightarrow> (string \<times> string) option \<Rightarrow> approval_state \<Rightarrow> approval_reply \<times> approval_state" where
  "Approvals_Decide now flt workspaceID approvalID body st =
     (case body of
        None \<Rightarrow> (ApprovalErr 400 ''invalid request body'', st)
      | Some (decision, by) \<Rightarrow>
          if decision = [] then (ApprovalErr 400 ''invalid request body'', st)
          else if decision \<noteq> ''approved'' \<and> decision \<noteq> ''denied''
          then (ApprovalErr 400 (''decision must be '' @ [CHR 0x27] @ ''approved'' @ [CHR 0x27] @ '' or '' @ [CHR 0x27] @ ''denied'' @ [CHR 0x27]), st)
          else let decidedBy = (if by = [] then ''human'' else by)
               in if flt 0 then (ApprovalErr 500 ''failed to update'', st)
                  else let n = count_where (decidable_row approvalID workspaceID) (as_rows st);
                           st1 = st\<lparr>as_rows := decide_update now decision decidedBy approvalID workspaceID (as_rows st)\<rparr>
                       in if flt 1 then (ApprovalErr 500 ''failed to update'', st1)
                          else if n = 0 then (ApprovalErr 404 ''approval not found or already decided'', st1)
                          else (ApprovalStatus decision approvalID,
                                emit (flt 2) (ApprovalDecided workspaceID approvalID decision decidedBy) st1))"

definition withdraw_update :: "instant \<Rightarrow> string \<Rightarrow> approval list \<Rightarrow> approval list" where
  "withdraw_update now approvalID rows =
     update_where (\<lambda>r. av_id r = approvalID \<and> av_status r = ''pending'')
       (\<lambda>r. r\<lparr>av_status := ''withdrawn'', av_decided_by := Some ''requester'', av_decided_at := Some now\<rparr>) rows"

text \<open>
  \<^verbatim>\<open>Withdraw\<close> reads the creator first; other statements may run before its UPDATE (\<open>env\<close>). A failed
  read, whatever the reason, is 404.
\<close>

definition Approvals_Withdraw ::
  "instant \<Rightarrow> faults \<Rightarrow> (approval list \<Rightarrow> approval list) \<Rightarrow> string \<Rightarrow> string \<Rightarrow> approval_state \<Rightarrow> approval_reply \<times> approval_state" where
  "Approvals_Withdraw now flt env workspaceID approvalID st =
     (case (if flt 0 then None else select_first (\<lambda>r. av_id r = approvalID) (as_rows st)) of
        None \<Rightarrow> (ApprovalErr 404 ''approval not found'', st)
      | Some r \<Rightarrow>
          if workspaceID \<noteq> [] \<and> workspaceID \<noteq> av_workspace_id r then (ApprovalErr 403 ''not the requester'', st)
          else let st0 = st\<lparr>as_rows := env (as_rows st)\<rparr>
               in if flt 1 then (ApprovalErr 500 ''failed to withdraw'', st0)
                  else let n = count_where (\<lambda>r. av_id r = approvalID \<and> av_status r = ''pending'') (as_rows st0);
                           st1 = st0\<lparr>as_rows := withdraw_update now approvalID (as_rows st0)\<rparr>
                       in if flt 2 then (ApprovalErr 500 ''failed to withdraw'', st1)
                          else if n = 0 then (ApprovalErr 409 ''approval not pending (already decided or withdrawn)'', st1)
                          else (ApprovalStatus ''withdrawn'' approvalID,
                                emit (flt 3) (ApprovalWithdrawn (av_workspace_id r) approvalID) st1))"

end
