(* ===== verification/Approval_Props.thy ===== *)
theory Approval_Props
  imports Approvals
begin

text \<open>
  Properties of the approval gate: an approval is used at most once and only for the operation it
  was given for, under every interleaving of statements; and which callers the gate stops.
\<close>

section \<open>Statements and their log\<close>

text \<open>
  The statements of all callers on \<^verbatim>\<open>approval_requests\<close>, with what each observed written to a log: a
  gate that let an operation pass, and a decision that took effect.
\<close>

datatype approval_op =
    AConsume instant "string \<Rightarrow> bool" string string string
  | ARequest instant string string string string string string
  | ACreate instant string string "string option" string string string
  | ADecide instant string string string string
  | AWithdraw instant string

datatype gate_log = Passed string "string \<times> string \<times> string" | Decided string string

definition decision_ok :: "string \<Rightarrow> bool" where
  "decision_ok d \<longleftrightarrow> d = ''approved'' \<or> d = ''denied''"

fun approval_step :: "approval list \<times> gate_log list \<Rightarrow> approval_op \<Rightarrow> approval list \<times> gate_log list" where
  "approval_step (rows, lg) (AConsume now locked ws action hash) =
     (case consume_approval now locked ws action hash rows of
        (None, rows') \<Rightarrow> (rows', lg)
      | (Some aid, rows') \<Rightarrow> (rows', lg @ [Passed aid (ws, action, hash)]))"
| "approval_step (rows, lg) (ARequest now aid ws action hash reason ctx) =
     (case create_or_reuse now aid ws action hash reason ctx rows of None \<Rightarrow> (rows, lg) | Some (_, rows') \<Rightarrow> (rows', lg))"
| "approval_step (rows, lg) (ACreate now aid ws task action reason ctx) =
     (if aid \<in> av_id ` set rows then (rows, lg) else (rows @ [new_approval now aid ws task action reason ctx None], lg))"
| "approval_step (rows, lg) (ADecide now decision by aid ws) =
     (if decision_ok decision
      then (decide_update now decision by aid ws rows,
            lg @ (if 0 < count_where (decidable_row aid ws) rows then [Decided aid decision] else []))
      else (rows, lg))"
| "approval_step (rows, lg) (AWithdraw now aid) = (withdraw_update now aid rows, lg)"

definition passed_ids :: "gate_log list \<Rightarrow> string list" where
  "passed_ids lg = concat (map (\<lambda>e. case e of Passed aid _ \<Rightarrow> [aid] | Decided _ _ \<Rightarrow> []) lg)"

lemma passed_ids_simps [simp]:
  "passed_ids [] = []" "passed_ids (lg @ [Passed aid k]) = passed_ids lg @ [aid]" "passed_ids (lg @ [Decided aid d]) = passed_ids lg"
  by (simp_all add: passed_ids_def)

lemma passed_ids_iff: "aid \<in> set (passed_ids lg) \<longleftrightarrow> (\<exists>k. Passed aid k \<in> set lg)"
  by (force simp: passed_ids_def split: gate_log.splits)

text \<open>How rows and log hang together.\<close>

definition row_ok :: "gate_log list \<Rightarrow> approval \<Rightarrow> bool" where
  "row_ok lg r \<longleftrightarrow>
     (av_status r = ''approved'' \<longrightarrow> Decided (av_id r) ''approved'' \<in> set lg) \<and>
     (av_consumed_at r \<noteq> None \<longrightarrow> av_status r = ''approved'') \<and>
     (av_id r \<in> set (passed_ids lg) \<longrightarrow> av_consumed_at r \<noteq> None)"

definition used_by :: "approval \<Rightarrow> string \<Rightarrow> string \<times> string \<times> string \<Rightarrow> bool" where
  "used_by r aid k \<longleftrightarrow> av_id r = aid \<and> k = (av_workspace_id r, av_action r, case av_request_hash r of None \<Rightarrow> [] | Some h \<Rightarrow> h) \<and>
     av_request_hash r \<noteq> None \<and> av_status r = ''approved'' \<and> av_consumed_at r \<noteq> None"

definition gate_inv :: "approval list \<times> gate_log list \<Rightarrow> bool" where
  "gate_inv = (\<lambda>(rows, lg). distinct (map av_id rows) \<and> distinct (passed_ids lg) \<and>
     (\<forall>r \<in> set rows. row_ok lg r) \<and> (\<forall>aid k. Passed aid k \<in> set lg \<longrightarrow> (\<exists>r \<in> set rows. used_by r aid k)))"

lemma gate_invI:
  assumes "distinct (map av_id rows)" "distinct (passed_ids lg)" "\<And>r. r \<in> set rows \<Longrightarrow> row_ok lg r"
    and "\<And>aid k. Passed aid k \<in> set lg \<Longrightarrow> \<exists>r \<in> set rows. used_by r aid k"
  shows "gate_inv (rows, lg)"
  using assms by (simp add: gate_inv_def)

lemma gate_invD:
  assumes "gate_inv (rows, lg)"
  shows "distinct (map av_id rows)" "distinct (passed_ids lg)" "r \<in> set rows \<Longrightarrow> row_ok lg r"
    "Passed aid k \<in> set lg \<Longrightarrow> \<exists>r \<in> set rows. used_by r aid k"
  using assms unfolding gate_inv_def prod.case by blast+

lemma update_where_ids: "(\<And>r. av_id (f r) = av_id r) \<Longrightarrow> map av_id (update_where P f rows) = map av_id rows"
  by (induction rows) auto

text \<open>Statements that leave used approvals alone and add no passage.\<close>

lemma gate_inv_update:
  assumes inv: "gate_inv (rows, lg)" and ids: "\<And>r. av_id (f r) = av_id r" and lg: "passed_ids lg' = passed_ids lg"
    and old: "set lg \<subseteq> set lg'" and new: "\<And>aid k. Passed aid k \<in> set lg' \<Longrightarrow> Passed aid k \<in> set lg"
    and ok: "\<And>r. r \<in> set rows \<Longrightarrow> row_ok lg r \<Longrightarrow> P r \<Longrightarrow> row_ok lg' (f r)"
    and pend: "\<And>r. P r \<Longrightarrow> av_status r \<noteq> ''approved''"
  shows "gate_inv (update_where P f rows, lg')"
proof (rule gate_invI)
  show "distinct (map av_id (update_where P f rows))"
    using gate_invD(1) [OF inv] by (simp add: update_where_ids ids)
  show "distinct (passed_ids lg')" using gate_invD(2) [OF inv] lg by simp
next
  fix r assume "r \<in> set (update_where P f rows)"
  then consider r0 where "r0 \<in> set rows" "P r0" "r = f r0" | "r \<in> set rows" "\<not> P r"
    by (auto simp: set_update_where)
  then show "row_ok lg' r"
  proof cases
    case 2
    then show ?thesis using gate_invD(3) [OF inv 2(1)] old lg by (auto simp: row_ok_def)
  qed (use gate_invD(3) [OF inv] ok in blast)
next
  fix aid k assume "Passed aid k \<in> set lg'"
  then obtain r where r: "r \<in> set rows" "used_by r aid k" using gate_invD(4) [OF inv] new by blast
  then have "\<not> P r" using pend by (auto simp: used_by_def)
  with update_where_mem [OF r(1), of P f] r(2) show "\<exists>r \<in> set (update_where P f rows). used_by r aid k" by auto
qed

lemma gate_inv_insert:
  assumes inv: "gate_inv (rows, lg)" and fresh: "av_id r \<notin> av_id ` set rows" and r: "av_status r = ''pending''" "av_consumed_at r = None"
  shows "gate_inv (rows @ [r], lg)"
proof (rule gate_invI)
  show "distinct (map av_id (rows @ [r]))" using gate_invD(1) [OF inv] fresh by auto
  have "av_id r \<notin> set (passed_ids lg)"
  proof
    assume "av_id r \<in> set (passed_ids lg)"
    then obtain k where "Passed (av_id r) k \<in> set lg" by (auto simp: passed_ids_iff)
    from gate_invD(4) [OF inv this] fresh show False by (auto simp: used_by_def image_iff)
  qed
  then show "row_ok lg x" if "x \<in> set (rows @ [r])" for x
    using that gate_invD(3) [OF inv] r by (auto simp: row_ok_def)
  show "\<exists>x \<in> set (rows @ [r]). used_by x aid k" if "Passed aid k \<in> set lg" for aid k
    using gate_invD(4) [OF inv that] by auto
qed (rule gate_invD(2) [OF inv])

lemma latest_decided_in: "latest_decided rows = Some r \<Longrightarrow> r \<in> set rows"
  by (induction rows arbitrary: r) (auto split: option.splits if_splits)

lemma latest_decided_None [simp]: "latest_decided rows = None \<longleftrightarrow> rows = []"
  by (induction rows) (auto split: option.splits)

lemma consume_cases:
  assumes "consume_approval now locked ws action hash rows = (res, rows')"
  obtains (none) "res = None" "rows' = rows" "\<And>r. r \<in> set rows \<Longrightarrow> consumable ws action hash r \<Longrightarrow> locked (av_id r)"
  | (hit) r where "r \<in> set rows" "consumable ws action hash r" "\<not> locked (av_id r)" "res = Some (av_id r)"
    "rows' = update_where (\<lambda>x. av_id x = av_id r) (\<lambda>x. x\<lparr>av_consumed_at := Some now\<rparr>) rows"
proof (cases "latest_decided (filter (\<lambda>r. consumable ws action hash r \<and> \<not> locked (av_id r)) rows)")
  case None
  then show ?thesis using assms by (intro none) (auto simp: consume_approval_def filter_empty_conv)
next
  case (Some r)
  from latest_decided_in [OF Some] show ?thesis using assms Some by (intro hit [of r]) (auto simp: consume_approval_def)
qed

lemma gate_inv_consume:
  assumes inv: "gate_inv (rows, lg)" and r: "r \<in> set rows" "consumable ws action hash r"
  shows "gate_inv (update_where (\<lambda>x. av_id x = av_id r) (\<lambda>x. x\<lparr>av_consumed_at := Some now\<rparr>) rows, lg @ [Passed (av_id r) (ws, action, hash)])"
    (is "gate_inv (?rows, ?lg)")
proof (rule gate_invI)
  have r': "av_workspace_id r = ws" "av_action r = action" "av_request_hash r = Some hash" "av_status r = ''approved''" "av_consumed_at r = None"
    using r(2) by (simp_all add: consumable_def same_request_def)
  have rok: "row_ok lg r" by (rule gate_invD(3) [OF inv r(1)])
  have other: "x = r" if "x \<in> set rows" "av_id x = av_id r" for x
    using gate_invD(1) [OF inv] that r(1) by (auto simp: distinct_map dest: inj_onD)
  show "distinct (map av_id ?rows)" using gate_invD(1) [OF inv] by (simp add: update_where_ids)
  show "distinct (passed_ids ?lg)" using gate_invD(2) [OF inv] rok r'(5) by (auto simp: row_ok_def)
  show "row_ok ?lg x" if "x \<in> set ?rows" for x
  proof -
    from that consider "x = r\<lparr>av_consumed_at := Some now\<rparr>" | "x \<in> set rows" "av_id x \<noteq> av_id r"
      using other by (auto simp: set_update_where)
    then show ?thesis
    proof cases
      case 1
      then show ?thesis using rok r'(4) by (simp add: row_ok_def)
    next
      case 2
      then show ?thesis using gate_invD(3) [OF inv 2(1)] by (auto simp: row_ok_def)
    qed
  qed
  have hit: "r\<lparr>av_consumed_at := Some now\<rparr> \<in> set ?rows" using update_where_mem [OF r(1), of "\<lambda>x. av_id x = av_id r" "\<lambda>x. x\<lparr>av_consumed_at := Some now\<rparr>"] by simp
  show "\<exists>x \<in> set ?rows. used_by x aid k" if "Passed aid k \<in> set ?lg" for aid k
  proof (cases "Passed aid k \<in> set lg")
    case True
    then obtain x where x: "x \<in> set rows" "used_by x aid k" using gate_invD(4) [OF inv] by blast
    then have "av_id x \<noteq> av_id r" using other [OF x(1)] x(2) r'(5) by (auto simp: used_by_def)
    with update_where_mem [OF x(1), of "\<lambda>x. av_id x = av_id r" "\<lambda>x. x\<lparr>av_consumed_at := Some now\<rparr>"] x(2) show ?thesis by auto
  next
    case False
    with that have "aid = av_id r" "k = (ws, action, hash)" by auto
    with hit r' show ?thesis by (auto simp: used_by_def intro!: bexI [OF _ hit])
  qed
qed

lemma approval_step_inv: "gate_inv s \<Longrightarrow> gate_inv (approval_step s op)"
proof (cases s)
  case (Pair rows lg)
  assume "gate_inv s"
  then have inv: "gate_inv (rows, lg)" by (simp add: Pair)
  show ?thesis
  proof (cases op)
    case (AConsume now locked ws action hash)
    obtain res rows' where c: "consume_approval now locked ws action hash rows = (res, rows')" by (rule prod.exhaust)
    then show ?thesis
      by (cases rule: consume_cases) (use AConsume Pair inv c gate_inv_consume [OF inv] in auto)
  next
    case (ARequest now aid ws action hash reason ctx)
    with Pair inv show ?thesis
      by (auto simp: create_or_reuse_def new_approval_def intro!: gate_inv_insert split: option.splits)
  next
    case (ACreate now aid ws task action reason ctx)
    with Pair inv show ?thesis by (auto simp: new_approval_def intro!: gate_inv_insert)
  next
    case (ADecide now decision dby aid ws)
    define lg' where "lg' = lg @ (if 0 < count_where (decidable_row aid ws) rows then [Decided aid decision] else [])"
    have p: "passed_ids lg' = passed_ids lg" by (simp add: lg'_def)
    have "gate_inv (decide_update now decision dby aid ws rows, lg')" if "decision_ok decision"
      unfolding decide_update_def
    proof (rule gate_inv_update [OF inv _ p])
      show "row_ok lg' (r\<lparr>av_status := decision, av_decided_by := Some dby, av_decided_at := Some now\<rparr>)"
        if "r \<in> set rows" "row_ok lg r" "decidable_row aid ws r" for r
      proof -
        have "count_where (decidable_row aid ws) rows \<noteq> 0" using that(1,3) unfolding count_where_0_iff by blast
        then show ?thesis using that(2,3) p by (auto simp: row_ok_def lg'_def decidable_row_def)
      qed
    qed (auto simp: lg'_def decidable_row_def split: if_splits)
    then show ?thesis using ADecide Pair inv by (auto simp: lg'_def)
  next
    case (AWithdraw now aid)
    have "gate_inv (withdraw_update now aid rows, lg)"
      unfolding withdraw_update_def by (rule gate_inv_update [OF inv]) (auto simp: row_ok_def)
    then show ?thesis using AWithdraw Pair by simp
  qed
qed

interpretation gate: invariant_system approval_step gate_inv
  by unfold_locales (rule approval_step_inv)

section \<open>Single use\<close>

text \<open>The gate as its statements: a passage is a consumption, anything else leaves every approval as it was.\<close>

lemma requireApproval_consumes:
  assumes "requireApproval env now flt locked aid ws action reason cj st = (out, st')"
    and "hash = approvalRequestHash (ge_hex env) ws action cj"
  shows "(\<exists>cid. out = Approved cid \<and> consume_approval now locked ws action hash (as_rows st) = (Some cid, as_rows st')) \<or>
    ((\<forall>cid. out \<noteq> Approved cid) \<and> (\<exists>new. as_rows st' = as_rows st @ new \<and> set new \<subseteq> {r. av_status r = ''pending''}))"
proof -
  have e: "as_rows (emit fault ev s) = as_rows s" for fault ev s by (simp add: emit_def)
  have c: "\<exists>new. rows = as_rows st @ new \<and> set new \<subseteq> {r. av_status r = ''pending''}"
    if "create_or_reuse now aid ws action hash reason (context_json cj) (as_rows st) = Some (x, rows)" for x rows
    using that by (auto simp: create_or_reuse_def new_approval_def split: option.splits if_splits)
  show ?thesis
  proof (cases "flt 0")
    case True
    with assms show ?thesis by (auto simp: requireApproval_def)
  next
    case False
    obtain res rows where k: "consume_approval now locked ws action hash (as_rows st) = (res, rows)" by (rule prod.exhaust)
    show ?thesis
    proof (cases res)
      case (Some cid)
      with assms False k show ?thesis by (auto simp: requireApproval_def Let_def)
    next
      case None
      with assms False k c show ?thesis
        by (auto simp: requireApproval_def Let_def e split: option.splits if_splits prod.splits)
    qed
  qed
qed

text \<open>C20: An approval opens the gate once. Under every interleaving of the statements of all
  callers, whatever rows their transactions lock, each passage of the gate used a different
  approval; that approval had been decided approved, and it was requested for the same workspace,
  the same action and the same digest of the operation's context.\<close>

theorem gate_single_use:
  assumes "foldl approval_step ([], []) ops = (rows, lg)"
  shows "distinct (passed_ids lg) \<and>
    (\<forall>aid ws action hash. Passed aid (ws, action, hash) \<in> set lg \<longrightarrow>
       Decided aid ''approved'' \<in> set lg \<and>
       (\<exists>r \<in> set rows. av_id r = aid \<and> av_workspace_id r = ws \<and> av_action r = action \<and> av_request_hash r = Some hash))"
proof -
  have "gate_inv (rows, lg)"
    using gate.inv_run [of "([], [])" ops] assms by (simp add: gate_inv_def)
  note inv = gate_invD [OF this]
  show ?thesis
  proof (intro conjI allI impI inv(2))
    fix aid ws action hash assume "Passed aid (ws, action, hash) \<in> set lg"
    then obtain r where r: "r \<in> set rows" "used_by r aid (ws, action, hash)" using inv(4) by blast
    with inv(3) [OF r(1)] show "Decided aid ''approved'' \<in> set lg" by (simp add: row_ok_def used_by_def)
    from r show "\<exists>r \<in> set rows. av_id r = aid \<and> av_workspace_id r = ws \<and> av_action r = action \<and> av_request_hash r = Some hash"
      by (intro bexI [of _ r]) (auto simp: used_by_def)
  qed
qed

definition demo_gate_ops :: "approval_op list" where
  "demo_gate_ops = [ARequest 0 ''a1'' ''w'' ''secret_write'' ''h'' ''write'' ''{}'', AConsume 1 (\<lambda>_. False) ''w'' ''secret_write'' ''h'',
     ADecide 2 ''approved'' ''human'' ''a1'' ''w'', AConsume 3 (\<lambda>_. False) ''w'' ''secret_write'' ''h'',
     AConsume 4 (\<lambda>_. False) ''w'' ''secret_write'' ''h'']"

theorem gate_single_use_witness:
  "\<exists>rows. foldl approval_step ([], []) demo_gate_ops =
      (rows, [Decided ''a1'' ''approved'', Passed ''a1'' (''w'', ''secret_write'', ''h'')]) \<and> rows \<noteq> []"
proof -
  obtain rows lg where run: "foldl approval_step ([], []) demo_gate_ops = (rows, lg)" by (rule prod.exhaust)
  have lg: "lg = [Decided ''a1'' ''approved'', Passed ''a1'' (''w'', ''secret_write'', ''h'')]"
    using run unfolding demo_gate_ops_def
    by (simp add: create_or_reuse_def new_approval_def consume_approval_def consumable_def same_request_def
        decide_update_def decidable_row_def decision_ok_def passed_ids_def)
  then have "Passed ''a1'' (''w'', ''secret_write'', ''h'') \<in> set lg" by simp
  with gate_single_use [OF run] have "rows \<noteq> []" by fastforce
  with run lg show ?thesis by blast
qed

section \<open>Who is stopped\<close>

text \<open>The bearer of the admin token is not stopped at the workspace routes. On a route behind
  the workspace middleware, such as the one that writes workspace secrets, a request with the
  admin token passes the gate for every gated action in every state, with no approval requested,
  decided or used, whether the rollout flag is set or not.\<close>

theorem admin_token_bypasses_gate:
  assumes "en_ADMIN_TOKEN aenv \<noteq> []" and "BearerTokenFromHeader (rq_Authorization req) = en_ADMIN_TOKEN aenv" and "ws \<noteq> []"
  shows "\<exists>c. WorkspaceAuth aenv now aflt ws req db = (Next c, db) \<and>
    gateDestructive genv now flt locked aid c ws action reason cj st = (Proceed, st)"
  using assms
  by (simp add: WorkspaceAuth_def gateDestructive_def callerIsAdminToken_def callerHoldsOrgToken_def empty_context_def)

definition demo_auth_env :: auth_env where
  "demo_auth_env = \<lparr>en_ADMIN_TOKEN = ''adm'', en_sha = id, en_hex = id, en_session = (\<lambda>_. None), en_slug = [],
     en_canvasProxyActive = False\<rparr>"

definition demo_auth_request :: auth_request where
  "demo_auth_request = \<lparr>rq_Authorization = ''Bearer adm'', rq_Cookie = [], rq_Host = [], rq_Referer = [], rq_Origin = []\<rparr>"

definition demo_gate_env :: gate_env where
  "demo_gate_env = \<lparr>ge_hex = id, ge_broadcaster = False, ge_parent = (\<lambda>_. None), ge_MOLECULE_PLATFORM_APPROVAL_GATE = ''1''\<rparr>"

lemma demo_bearer: "BearerTokenFromHeader (rq_Authorization demo_auth_request) = en_ADMIN_TOKEN demo_auth_env"
  by code_simp

theorem admin_token_bypasses_gate_witness:
  "\<exists>c. WorkspaceAuth demo_auth_env 0 no_faults ''w'' demo_auth_request \<lparr>db_ws_tokens = [], db_org_tokens = [], db_audit = [], db_status = Map.empty\<rparr>
      = (Next c, \<lparr>db_ws_tokens = [], db_org_tokens = [], db_audit = [], db_status = Map.empty\<rparr>) \<and>
    gateDestructive demo_gate_env 0 no_faults (\<lambda>_. False) ''a'' c ''w'' ActionSecretWrite ''write secret K'' (Some ''{}'')
      \<lparr>as_rows = [], as_events = []\<rparr> = (Proceed, \<lparr>as_rows = [], as_events = []\<rparr>)"
  by (rule admin_token_bypasses_gate [OF _ demo_bearer]) (simp_all add: demo_auth_env_def)

text \<open>
  On the admin routes the same credential is stopped: unless an approval for this very operation
  is waiting, the reply is not Proceed and no approval is used.
\<close>

lemma admin_route_gated:
  assumes "callerIsAdminToken c" "IsGated action" "hash = approvalRequestHash (ge_hex env) ws action cj"
    and "gateDestructive env now flt locked aid c ws action reason cj st = (Proceed, st')"
  shows "\<exists>r \<in> set (as_rows st). consumable ws action hash r \<and>
    as_rows st' = update_where (\<lambda>x. av_id x = av_id r) (\<lambda>x. x\<lparr>av_consumed_at := Some now\<rparr>) (as_rows st)"
proof -
  obtain out st1 where ra: "requireApproval env now flt locked aid ws action reason cj st = (out, st1)" by (rule prod.exhaust)
  with assms have "\<exists>cid. out = Approved cid" "st1 = st'" by (auto simp: gateDestructive_def split: gate_outcome.splits)
  with requireApproval_consumes [OF ra assms(3)] obtain cid where
    "consume_approval now locked ws action hash (as_rows st) = (Some cid, as_rows st')" by auto
  then show ?thesis by (cases rule: consume_cases) auto
qed

text \<open>
  Nothing in the decision route asks who decides: whoever may call it on the workspace can approve
  the request it raised itself, and its next attempt passes.
\<close>

lemma self_approval:
  assumes "callerIsAdminToken c" "IsGated action" "\<not> locked aid" "aid \<notin> av_id ` set (as_rows st)"
    and "\<not> flt 0" "\<not> flt 1" "\<not> flt' 0" "\<not> flt' 1"
    and "filter (same_request ws action (approvalRequestHash (ge_hex env) ws action cj)) (as_rows st) = []"
  shows "\<exists>st1 st2 st3. gateDestructive env now flt locked aid c ws action reason cj st = (Reply 202 aid, st1) \<and>
    Approvals_Decide now' flt' ws aid (Some (''approved'', [])) st1 = (ApprovalStatus ''approved'' aid, st2) \<and>
    gateDestructive env now'' flt locked aid' c ws action reason cj st2 = (Proceed, st3)"
proof -
  define hash where "hash = approvalRequestHash (ge_hex env) ws action cj"
  define row where "row = new_approval now aid ws None action reason (context_json cj) (Some hash)"
  have none: "\<not> same_request ws action hash r" if "r \<in> set (as_rows st)" for r
    using assms(9) that by (auto simp: hash_def filter_empty_conv)
  have e: "as_rows (emit fault ev s) = as_rows s" for fault ev s by (simp add: emit_def)
  have f: "filter (\<lambda>r. consumable ws action hash r \<and> \<not> locked (av_id r)) (as_rows st) = []"
    using none by (auto simp: consumable_def filter_empty_conv)
  have "select_first (\<lambda>r. same_request ws action hash r \<and> av_status r = ''pending'') (as_rows st) = None"
    using none by (auto simp: select_first_None_iff)
  then have cr: "create_or_reuse now aid ws action hash reason (context_json cj) (as_rows st) = Some (aid, as_rows st @ [row])"
    using assms(4) by (simp add: create_or_reuse_def row_def)
  obtain st1 where g1: "requireApproval env now flt locked aid ws action reason cj st = (Pending aid, st1)"
    and r1: "as_rows st1 = as_rows st @ [row]"
    using assms(5,6) cr f by (auto simp: requireApproval_def Let_def hash_def [symmetric] consume_approval_def e split: option.splits)
  have st1: "gateDestructive env now flt locked aid c ws action reason cj st = (Reply 202 aid, st1)"
    using assms(1,2) g1 by (simp add: gateDestructive_def)
  define row' where "row' = row\<lparr>av_status := ''approved'', av_decided_by := Some ''human'', av_decided_at := Some now'\<rparr>"
  have old: "\<not> decidable_row aid ws r" if "r \<in> set (as_rows st)" for r
    using assms(4) that by (auto simp: decidable_row_def)
  have rd: "decidable_row aid ws row" by (simp add: row_def decidable_row_def new_approval_def)
  have du: "decide_update now' ''approved'' ''human'' aid ws (as_rows st1) = as_rows st @ [row']"
    using old rd update_where_no_match [of "as_rows st" "decidable_row aid ws"] by (simp add: decide_update_def r1 row'_def)
  obtain st2 where st2: "Approvals_Decide now' flt' ws aid (Some (''approved'', [])) st1 = (ApprovalStatus ''approved'' aid, st2)"
    and r2: "as_rows st2 = as_rows st @ [row']"
    using assms(7,8) rd du by (auto simp: Approvals_Decide_def Let_def r1 e)
  have "consumable ws action hash row' \<and> \<not> locked (av_id row')"
    using assms(3) by (simp add: row'_def row_def new_approval_def consumable_def same_request_def)
  then have "\<exists>rows. consume_approval now'' locked ws action hash (as_rows st2) = (Some (av_id row'), rows)"
    using f by (simp add: consume_approval_def r2)
  then obtain st3 where "gateDestructive env now'' flt locked aid' c ws action reason cj st2 = (Proceed, st3)"
    using assms(1,2,5) by (auto simp: gateDestructive_def requireApproval_def Let_def hash_def [symmetric])
  with st1 st2 show ?thesis by blast
qed

end
