(* ===== verification/Token_Props.thy ===== *)
theory Token_Props
  imports Auth_Middleware
begin

text \<open>
  Properties of the bearer tokens: who is accepted, that a revoked token stays dead whatever the
  other callers do, and the ceiling on the tokens of an organisation.
\<close>

section \<open>Operations\<close>

text \<open>
  What changes the token tables: the calls of both packages, and the life of the workspaces. A
  deleted workspace takes its tokens with it (\<^verbatim>\<open>ON DELETE CASCADE\<close>) and leaves organisation tokens without
  an organisation (\<^verbatim>\<open>SET NULL\<close>).
\<close>

datatype token_op =
    TIssue instant bool string string string string
  | TMint instant int faults string string string string string "instant option"
  | TValidate instant faults string string
  | TValidateAny instant faults string
  | TValidateOrg instant faults string
  | TRevokeAll instant bool string
  | TRevokeInstance instant bool string
  | TRevokeOrg instant faults string string
  | TSetStatus instant string string
  | TDelete instant string

fun token_time :: "token_op \<Rightarrow> instant" where
  "token_time (TIssue now _ _ _ _ _) = now"
| "token_time (TMint now _ _ _ _ _ _ _ _) = now"
| "token_time (TValidate now _ _ _) = now"
| "token_time (TValidateAny now _ _) = now"
| "token_time (TValidateOrg now _ _) = now"
| "token_time (TRevokeAll now _ _) = now"
| "token_time (TRevokeInstance now _ _) = now"
| "token_time (TRevokeOrg now _ _ _) = now"
| "token_time (TSetStatus now _ _) = now"
| "token_time (TDelete now _) = now"

definition delete_workspace :: "string \<Rightarrow> auth_db \<Rightarrow> auth_db" where
  "delete_workspace ws db = db\<lparr>db_ws_tokens := filter (\<lambda>t. wt_workspace_id t \<noteq> ws) (db_ws_tokens db),
     db_org_tokens := update_where (\<lambda>t. ot_org_id t = Some ws) (\<lambda>t. t\<lparr>ot_org_id := None\<rparr>) (db_org_tokens db),
     db_status := (db_status db)(ws := None)\<rparr>"

fun token_step :: "(string \<Rightarrow> string) \<Rightarrow> auth_db \<Rightarrow> token_op \<Rightarrow> auth_db" where
  "token_step sha db (TIssue now fault rid tok ws kind) = snd (issueTokenKind sha fault rid tok ws kind db)"
| "token_step sha db (TMint now ceiling flt rid tok name creator org expires) =
     snd (IssueWithExpiry sha ceiling now flt rid tok name creator org expires db)"
| "token_step sha db (TValidate now flt ws tok) = snd (ValidateToken sha now flt ws tok db)"
| "token_step sha db (TValidateAny now flt tok) = snd (ValidateAnyToken sha now flt tok db)"
| "token_step sha db (TValidateOrg now flt tok) = snd (Validate sha now flt tok [] False db)"
| "token_step sha db (TRevokeAll now fault ws) = snd (RevokeAllForWorkspace now fault ws db)"
| "token_step sha db (TRevokeInstance now fault ws) = snd (RevokeInstanceTokensForWorkspace now fault ws db)"
| "token_step sha db (TRevokeOrg now flt tid actor) = snd (Revoke now flt tid actor db)"
| "token_step sha db (TSetStatus now ws st) = db\<lparr>db_status := (db_status db)(ws := map_option (\<lambda>_. st) (db_status db ws))\<rparr>"
| "token_step sha db (TDelete now ws) = delete_workspace ws db"

section \<open>Revocation is final\<close>

text \<open>No live row, in either table, has the hash.\<close>

definition dead_hash :: "string \<Rightarrow> auth_db \<Rightarrow> bool" where
  "dead_hash h db \<longleftrightarrow> (\<forall>t \<in> set (db_ws_tokens db). wt_token_hash t = h \<longrightarrow> wt_revoked_at t \<noteq> None) \<and>
     (\<forall>t \<in> set (db_org_tokens db). ot_token_hash t = h \<longrightarrow> ot_revoked_at t \<noteq> None)"

text \<open>The operation does not issue a token with that hash.\<close>

fun issues_hash :: "(string \<Rightarrow> string) \<Rightarrow> string \<Rightarrow> token_op \<Rightarrow> bool" where
  "issues_hash sha h (TIssue now fault rid tok ws kind) \<longleftrightarrow> sha tok = h"
| "issues_hash sha h (TMint now ceiling flt rid tok name creator org expires) \<longleftrightarrow> sha tok = h"
| "issues_hash sha h _ \<longleftrightarrow> False"

lemma audit_tokens [simp]:
  "db_ws_tokens (LogAuditEvent fault tid action actor org db) = db_ws_tokens db"
  "db_org_tokens (LogAuditEvent fault tid action actor org db) = db_org_tokens db"
  "db_status (LogAuditEvent fault tid action actor org db) = db_status db"
  by (simp_all add: LogAuditEvent_def)

lemma touch_tokens [simp]:
  "db_org_tokens (touch_ws_token now tid db) = db_org_tokens db" "db_ws_tokens (touch_org_token now tid db) = db_ws_tokens db"
  "db_status (touch_ws_token now tid db) = db_status db" "db_status (touch_org_token now tid db) = db_status db"
  by (simp_all add: touch_ws_token_def touch_org_token_def)

text \<open>Validation changes nothing but the time of last use.\<close>

lemma validate_frame:
  "snd (ValidateToken sha now flt ws tok db) \<in> insert db (range (\<lambda>tid. touch_ws_token now tid db))"
  "snd (ValidateAnyToken sha now flt tok db) \<in> insert db (range (\<lambda>tid. touch_ws_token now tid db))"
  "snd (Validate sha now flt tok [] False db) \<in> insert db (range (\<lambda>tid. touch_org_token now tid db))"
  by (auto simp: ValidateToken_def ValidateAnyToken_def Validate_def split: option.splits if_splits)

lemma dead_touch [simp]:
  "dead_hash h db \<Longrightarrow> dead_hash h (touch_ws_token now tid db)"
  "dead_hash h db \<Longrightarrow> dead_hash h (touch_org_token now tid db)"
  by (auto simp: dead_hash_def touch_ws_token_def touch_org_token_def set_update_where)

lemma dead_step:
  assumes "dead_hash h db" "\<not> issues_hash sha h op"
  shows "dead_hash h (token_step sha db op)"
proof (cases op)
  case (TValidate now flt ws tok)
  then show ?thesis using validate_frame(1) [of sha now flt ws tok db] assms by auto
next
  case (TValidateAny now flt tok)
  then show ?thesis using validate_frame(2) [of sha now flt tok db] assms by auto
next
  case (TValidateOrg now flt tok)
  then show ?thesis using validate_frame(3) [of sha now flt tok db] assms by auto
qed (use assms in \<open>auto simp: dead_hash_def issueTokenKind_def issue_defs RevokeAllForWorkspace_def
    RevokeInstanceTokensForWorkspace_def Revoke_def delete_workspace_def Let_def set_update_where split: option.splits\<close>)

lemma dead_run:
  "dead_hash h db \<Longrightarrow> list_all (\<lambda>op. \<not> issues_hash sha h op) ops \<Longrightarrow> dead_hash h (foldl (token_step sha) db ops)"
  by (induction ops arbitrary: db) (auto intro: dead_step)

lemma dead_rejected:
  assumes "dead_hash (sha tok) db"
  shows "\<not> fst (ValidateToken sha now flt ws tok db)" "\<not> fst (ValidateAnyToken sha now flt tok db)"
    "fst (Validate sha now flt tok actor audit db) = None" "WorkspaceFromToken sha fault tok db = None"
proof -
  have "select_first (live_ws_token db (sha tok)) (db_ws_tokens db) = None"
    using assms by (auto simp: select_first_None_iff dead_hash_def live_ws_token_def)
  then have l: "lookupTokenByHash fault (sha tok) db = None" for fault by (simp add: lookupTokenByHash_def)
  then show "\<not> fst (ValidateToken sha now flt ws tok db)" "\<not> fst (ValidateAnyToken sha now flt tok db)"
    "WorkspaceFromToken sha fault tok db = None"
    by (simp_all add: ValidateToken_def ValidateAnyToken_def WorkspaceFromToken_def)
  have "select_first (\<lambda>t. ot_token_hash t = sha tok \<and> ot_revoked_at t = None) (db_org_tokens db) = None"
    using assms by (auto simp: select_first_None_iff dead_hash_def)
  then show "fst (Validate sha now flt tok actor audit db) = None" by (simp add: Validate_def)
qed

text \<open>Both middlewares on a bearer with a dead hash that is not the admin token and has no verified session.\<close>

lemma dead_aborted:
  assumes "dead_hash (en_sha env tok) db" "BearerTokenFromHeader (rq_Authorization req) = tok" "tok \<noteq> en_ADMIN_TOKEN env"
    and "rq_Cookie req = []" "tok \<noteq> []"
  shows "\<exists>code msg. fst (WorkspaceAuth env now flt ws req db) = Abort code msg"
    "\<exists>code msg. fst (AdminAuth env now flt req db) = Abort code msg"
proof -
  have v: "fst (Validate (en_sha env) now f tok [] False db) = None" for f
    using dead_rejected(3) [of "en_sha env" tok db] assms(1) by blast
  have d: "dead_hash (en_sha env tok) (snd (Validate (en_sha env) now f tok [] False db))" for f
    using validate_frame(3) [of "en_sha env" now f tok db] assms(1) by auto
  show "\<exists>code msg. fst (WorkspaceAuth env now flt ws req db) = Abort code msg"
  proof (cases "Validate (en_sha env) now flt tok [] False db")
    case (Pair o1 db1)
    then show ?thesis
      using v [of flt] dead_rejected(1) [of "en_sha env" tok db1 now "\<lambda>i. flt (i + 3)" ws] d [of flt] assms(2-5)
      by (auto simp: WorkspaceAuth_def Let_def split: prod.splits bool.splits)
  qed
  show "\<exists>code msg. fst (AdminAuth env now flt req db) = Abort code msg"
  proof (cases "Validate (en_sha env) now (\<lambda>i. flt (i + 1)) tok [] False db")
    case (Pair o1 db1)
    then show ?thesis
      using v [of "\<lambda>i. flt (i + 1)"] dead_rejected(2) [of "en_sha env" tok db1 now "\<lambda>i. flt (i + 4)"]
        d [of "\<lambda>i. flt (i + 1)"] assms(2-5)
      by (auto simp: AdminAuth_def abortAuthLookupError_def Let_def split: prod.splits bool.splits)
  qed
qed

text \<open>C22: once no live row has the hash of a token, the token stays dead: after any further operations
  of any callers that do not issue the same token again, the validators of both packages reject
  it, it names no workspace, and \<^verbatim>\<open>WorkspaceAuth\<close> and \<^verbatim>\<open>AdminAuth\<close> abort every request that
  presents it without a session cookie, unless it is the admin token itself. No state of the tables
  opens \<^verbatim>\<open>AdminAuth\<close>: its comment and \<^verbatim>\<open>docs/architecture/overview.md\<close> say so, while \<^verbatim>\<open>docs/api-reference.md\<close>,
  \<^verbatim>\<open>docs/architecture/org-api-keys.md\<close> and the comment on \<^verbatim>\<open>HasAnyLiveTokenGlobal\<close> still describe the removed
  path that let every request pass while no token was live.
\<close>

theorem revoked_token_dead:
  assumes "dead_hash (en_sha env tok) db" "list_all (\<lambda>op. \<not> issues_hash (en_sha env) (en_sha env tok) op) ops"
    and "tok \<noteq> en_ADMIN_TOKEN env" "tok \<noteq> []"
    and "BearerTokenFromHeader (rq_Authorization req) = tok" "rq_Cookie req = []"
    and "db' = foldl (token_step (en_sha env)) db ops"
  shows "\<not> fst (ValidateToken (en_sha env) now flt ws tok db') \<and> \<not> fst (ValidateAnyToken (en_sha env) now flt tok db') \<and>
    fst (Validate (en_sha env) now flt tok actor audit db') = None \<and> WorkspaceFromToken (en_sha env) fault tok db' = None \<and>
    (\<exists>code msg. fst (WorkspaceAuth env now flt ws req db') = Abort code msg) \<and>
    (\<exists>code msg. fst (AdminAuth env now flt req db') = Abort code msg)"
proof -
  have d: "dead_hash (en_sha env tok) db'" using dead_run [OF assms(1,2)] assms(7) by simp
  note r = dead_rejected [of "en_sha env" tok db', OF d]
  show ?thesis
    using r(1) [of now flt ws] r(2) [of now flt] r(3) [of now flt actor audit] r(4) [of fault]
      dead_aborted(1) [OF d assms(5,3,6,4), of now flt ws] dead_aborted(2) [OF d assms(5,3,6,4), of now flt] by blast
qed

definition demo_env :: auth_env where
  "demo_env = \<lparr>en_ADMIN_TOKEN = ''root'', en_sha = (\<lambda>s. s), en_hex = (\<lambda>s. s), en_session = Map.empty, en_slug = ''acme'',
     en_canvasProxyActive = False\<rparr>"

definition demo_auth_db :: auth_db where
  "demo_auth_db = \<lparr>db_ws_tokens = [], db_org_tokens = [], db_audit = [], db_status = [''w'' \<mapsto> ''online'', ''o'' \<mapsto> ''online'']\<rparr>"

definition demo_revoked :: auth_db where
  "demo_revoked = foldl (token_step (en_sha demo_env)) demo_auth_db
     [TIssue 1 False ''1'' ''secret-a'' ''w'' ''instance'', TRevokeAll 2 False ''w'']"

definition demo_revoked_req :: auth_request where
  "demo_revoked_req = \<lparr>rq_Authorization = ''Bearer secret-a'', rq_Cookie = [], rq_Host = ''h'', rq_Referer = [], rq_Origin = []\<rparr>"

theorem revoked_token_dead_witness:
  "\<not> fst (ValidateToken (en_sha demo_env) 9 no_faults ''w'' ''secret-a''
      (foldl (token_step (en_sha demo_env)) demo_revoked [TIssue 3 False ''2'' ''secret-b'' ''w'' ''instance'']))"
proof -
  have d: "dead_hash (en_sha demo_env ''secret-a'') demo_revoked" by code_simp
  have i: "list_all (\<lambda>op. \<not> issues_hash (en_sha demo_env) (en_sha demo_env ''secret-a'') op)
    [TIssue 3 False ''2'' ''secret-b'' ''w'' ''instance'']" by code_simp
  have b: "BearerTokenFromHeader (rq_Authorization demo_revoked_req) = ''secret-a''" by code_simp
  have a: "''secret-a'' \<noteq> en_ADMIN_TOKEN demo_env" "''secret-a'' \<noteq> []" "rq_Cookie demo_revoked_req = []" by (code_simp, code_simp, code_simp)
  show ?thesis using revoked_token_dead [OF d i a(1,2) b a(3) refl, of 9 no_faults "''w''"] by blast
qed

section \<open>The ceiling on minted tokens\<close>

text \<open>
  The two statements of the mints, interleaved with each other and with all other calls. A mint that passed the
  check waits with its arguments until it inserts or is given up.
\<close>

record mint_req =
  mr_rid :: string
  mr_plaintext :: string
  mr_name :: string
  mr_createdBy :: string
  mr_orgID :: string
  mr_expiresAt :: "instant option"

record mint_sys =
  ms_db :: auth_db
  ms_passed :: "mint_req list"

datatype mint_op =
    MCheck instant bool mint_req
  | MInsert instant bool bool mint_req
  | MGiveUp instant mint_req
  | MOther token_op

fun is_mint :: "token_op \<Rightarrow> bool" where
  "is_mint (TMint now c flt rid tok name creator org expires) = True"
| "is_mint _ = False"

fun mint_time :: "mint_op \<Rightarrow> instant" where
  "mint_time (MCheck now fault req) = now"
| "mint_time (MInsert now fault auditFault req) = now"
| "mint_time (MGiveUp now req) = now"
| "mint_time (MOther op) = token_time op"

fun mint_step :: "(string \<Rightarrow> string) \<Rightarrow> int \<Rightarrow> mint_sys \<Rightarrow> mint_op \<Rightarrow> mint_sys" where
  "mint_step sha ceiling s (MCheck now fault req) =
     (if mint_check ceiling now fault (mr_orgID req) (mr_expiresAt req) (ms_db s) = None
      then s\<lparr>ms_passed := req # ms_passed s\<rparr> else s)"
| "mint_step sha ceiling s (MInsert now fault auditFault req) =
     (if req \<in> set (ms_passed s)
      then s\<lparr>ms_db := snd (mint_insert sha now fault auditFault (mr_rid req) (mr_plaintext req) (mr_name req) (mr_createdBy req)
                             (mr_orgID req) (mr_expiresAt req) (ms_db s)), ms_passed := remove1 req (ms_passed s)\<rparr>
      else s)"
| "mint_step sha ceiling s (MGiveUp now req) = s\<lparr>ms_passed := remove1 req (ms_passed s)\<rparr>"
| "mint_step sha ceiling s (MOther op) = (if is_mint op then s else s\<lparr>ms_db := token_step sha (ms_db s) op\<rparr>)"

text \<open>The mints of an organisation between their check and their INSERT, and a bound on them along a run.\<close>

definition in_flight :: "string \<Rightarrow> mint_sys \<Rightarrow> nat" where
  "in_flight org s = count_where (\<lambda>req. mr_orgID req = org) (ms_passed s)"

fun overlap_le :: "(string \<Rightarrow> string) \<Rightarrow> int \<Rightarrow> string \<Rightarrow> nat \<Rightarrow> mint_sys \<Rightarrow> mint_op list \<Rightarrow> bool" where
  "overlap_le sha ceiling org w s [] \<longleftrightarrow> in_flight org s \<le> w"
| "overlap_le sha ceiling org w s (op # ops) \<longleftrightarrow> in_flight org s \<le> w \<and> overlap_le sha ceiling org w (mint_step sha ceiling s op) ops"

lemma live_org_count_later:
  "t \<le> t' \<Longrightarrow> live_org_count t' org db \<le> live_org_count t org db"
  unfolding live_org_count_def by (rule count_where_mono) (auto simp: valid_org_token_def split: option.splits)

lemma live_org_count_cong: "db_org_tokens db' = db_org_tokens db \<Longrightarrow> live_org_count t org db' = live_org_count t org db"
  by (simp add: live_org_count_def)

text \<open>Whatever is not a mint adds no live token.\<close>

lemma live_org_count_update:
  assumes "\<And>r. P r \<Longrightarrow> ot_org_id (f r) = Some org \<Longrightarrow> valid_org_token t (f r) \<Longrightarrow> ot_org_id r = Some org \<and> valid_org_token t r"
    and "db_org_tokens db' = update_where P f (db_org_tokens db)"
  shows "live_org_count t org db' \<le> live_org_count t org db"
  unfolding live_org_count_def assms(2) by (rule count_where_update_le) (use assms(1) in blast)

lemma live_org_count_touch: "live_org_count t org (touch_org_token now tid db) \<le> live_org_count t org db"
  by (rule live_org_count_update [where P = "\<lambda>r. ot_id r = tid" and f = "\<lambda>r. r\<lparr>ot_last_used_at := Some now\<rparr>"])
     (auto simp: valid_org_token_def touch_org_token_def)

lemma live_org_count_revoke: "live_org_count t org (snd (Revoke now flt tid actor db)) \<le> live_org_count t org db"
proof (cases "flt 0")
  case False
  show ?thesis
    by (rule live_org_count_update [where P = "\<lambda>r. ot_id r = tid \<and> ot_revoked_at r = None" and f = "\<lambda>r. r\<lparr>ot_revoked_at := Some now\<rparr>"])
       (auto simp: valid_org_token_def Revoke_def Let_def False)
qed (simp add: Revoke_def)

lemma live_org_count_other:
  assumes "\<not> is_mint op"
  shows "live_org_count (token_time op) org (token_step sha db op) \<le> live_org_count (token_time op) org db"
proof (cases op)
  case (TMint n c flt rid tok name creator org' expires)
  with assms show ?thesis by simp
next
  case (TValidateOrg n flt tok)
  then show ?thesis
    using validate_frame(3) [of sha n flt tok db] live_org_count_touch [of n org n _ db] by auto
next
  case (TRevokeOrg n flt tid actor)
  then show ?thesis by (simp add: live_org_count_revoke)
next
  case (TDelete n ws)
  show ?thesis
    unfolding TDelete
    by (rule live_org_count_update [where P = "\<lambda>r. ot_org_id r = Some ws" and f = "\<lambda>r. r\<lparr>ot_org_id := None\<rparr>"])
       (auto simp: delete_workspace_def)
next
  case (TValidate n flt ws tok)
  then show ?thesis using validate_frame(1) [of sha n flt ws tok db] by (auto intro!: eq_refl live_org_count_cong)
next
  case (TValidateAny n flt tok)
  then show ?thesis using validate_frame(2) [of sha n flt tok db] by (auto intro!: eq_refl live_org_count_cong)
qed (intro eq_refl live_org_count_cong;
     simp add: issueTokenKind_def RevokeAllForWorkspace_def RevokeInstanceTokensForWorkspace_def)+

lemma live_org_count_insert:
  "live_org_count t org (snd (mint_insert sha now fault auditFault rid tok name creator org' expires db)) \<le>
    live_org_count t org db + (if org' = org then 1 else 0)"
  by (simp add: mint_insert_def live_org_count_def nullif_empty_def)

lemma count_where_remove1: "x \<in> set xs \<Longrightarrow> count_where P (remove1 x xs) + (if P x then 1 else 0) = count_where P xs"
  by (induction xs) auto

lemma count_where_remove1_le: "count_where P (remove1 x xs) \<le> count_where P xs"
  by (induction xs) auto

text \<open>Live tokens and mints in flight together: a check adds one below the ceiling, an INSERT trades one for the other.\<close>

lemma ceiling_step:
  assumes "org \<noteq> []" "0 < ceiling" "int (live_org_count t org (ms_db s)) + int (in_flight org s) < ceiling + int w"
    "t \<le> mint_time op" "in_flight org (mint_step sha ceiling s op) \<le> w"
  shows "int (live_org_count (mint_time op) org (ms_db (mint_step sha ceiling s op))) + int (in_flight org (mint_step sha ceiling s op)) < ceiling + int w"
proof -
  have now: "int (live_org_count (mint_time op) org (ms_db s)) + int (in_flight org s) < ceiling + int w"
    using live_org_count_later [OF assms(4), of org "ms_db s"] assms(3) by linarith
  show ?thesis
  proof (cases op)
    case (MCheck n fault req)
    show ?thesis
    proof (cases "mint_check ceiling n fault (mr_orgID req) (mr_expiresAt req) (ms_db s) = None \<and> mr_orgID req = org")
      case True
      then have "int (live_org_count n org (ms_db s)) < ceiling"
        using assms(1,2) by (auto simp: mint_check_def split: if_splits)
      moreover have "mint_step sha ceiling s op = s\<lparr>ms_passed := req # ms_passed s\<rparr>" using True MCheck by auto
      ultimately show ?thesis using assms(5) MCheck by simp
    next
      case False
      then show ?thesis using now MCheck by (auto simp: in_flight_def)
    qed
  next
    case (MInsert n fault auditFault req)
    show ?thesis
    proof (cases "req \<in> set (ms_passed s)")
      case True
      have sum: "in_flight org (mint_step sha ceiling s op) + (if mr_orgID req = org then 1 else 0) = in_flight org s"
        using count_where_remove1 [OF True, of "\<lambda>req. mr_orgID req = org"] True MInsert by (simp add: in_flight_def)
      have "live_org_count n org (ms_db (mint_step sha ceiling s op)) \<le> live_org_count n org (ms_db s) + (if mr_orgID req = org then 1 else 0)"
        using True live_org_count_insert unfolding MInsert by simp
      with sum now show ?thesis unfolding MInsert by (simp split: if_splits)
    qed (use now MInsert in simp)
  next
    case (MGiveUp n req)
    then show ?thesis
      using now count_where_remove1_le [of "\<lambda>req. mr_orgID req = org" req "ms_passed s"] by (simp add: in_flight_def)
  next
    case (MOther x)
    then show ?thesis
      using now live_org_count_other [of x org sha "ms_db s"] by (auto simp: in_flight_def)
  qed
qed

text \<open>C23: the ceiling on the live tokens of an organisation. The count and the INSERT of a mint are two statements
  without a lock. With a positive ceiling and a clock that does not run backwards, under every
  interleaving of the statements of mints with revocations, validations and deletions in which at most \<open>w\<close>
  mints of the organisation are between the two statements at a time, it has at most \<open>w - 1\<close> live tokens above
  the ceiling: none when its mints do not overlap. At or above the ceiling a mint, with or
  without an expiry, is refused and changes nothing.
\<close>

theorem mint_ceiling:
  assumes "org \<noteq> []" "0 < ceiling" "int (live_org_count t org db) \<le> ceiling" "0 < w"
    and "clock_from mint_time t ops" "overlap_le sha ceiling org w \<lparr>ms_db = db, ms_passed = []\<rparr> ops"
    and "db' = ms_db (foldl (mint_step sha ceiling) \<lparr>ms_db = db, ms_passed = []\<rparr> ops)" "t' = last_time mint_time t ops"
  shows "int (live_org_count t' org db') \<le> ceiling + (int w - 1) \<and>
    (ceiling \<le> int (live_org_count t' org db') \<longrightarrow>
       IssueWithExpiry sha ceiling t' flt rid tok name creator org expires db' =
         (Inl (if (case expires of Some e \<Rightarrow> e < t' | None \<Rightarrow> False) then PastExpiry else if flt 0 then CountFailed else MintCeilingExceeded), db'))"
proof -
  have run: "int (live_org_count (last_time mint_time t ops) org (ms_db (foldl (mint_step sha ceiling) s ops))) < ceiling + int w"
    if "int (live_org_count t org (ms_db s)) + int (in_flight org s) < ceiling + int w" "clock_from mint_time t ops" "overlap_le sha ceiling org w s ops" for s
    using that
  proof (induction ops arbitrary: t s)
    case (Cons op ops)
    then have "in_flight org (mint_step sha ceiling s op) \<le> w" by (cases ops) simp_all
    with Cons show ?case using ceiling_step [OF assms(1,2) Cons.prems(1), of op sha] by simp
  qed simp
  have "int (live_org_count t' org db') < ceiling + int w"
    unfolding assms(7,8) by (rule run [OF _ assms(5,6)]) (use assms(3,4) in \<open>simp add: in_flight_def\<close>)
  then show ?thesis using assms(1,2) by (simp add: IssueWithExpiry_def mint_check_def)
qed

definition sample_mint :: "string \<Rightarrow> string \<Rightarrow> instant option \<Rightarrow> mint_req" where
  "sample_mint rid tok e = \<lparr>mr_rid = rid, mr_plaintext = tok, mr_name = [], mr_createdBy = [], mr_orgID = ''o'', mr_expiresAt = e\<rparr>"

definition demo_mints :: "mint_op list" where
  "demo_mints = [MCheck 1 False (sample_mint ''1'' ''tok-aaaa'' (Some 5)), MInsert 1 False False (sample_mint ''1'' ''tok-aaaa'' (Some 5)),
     MCheck 2 False (sample_mint ''2'' ''tok-bbbb'' None), MCheck 6 False (sample_mint ''3'' ''tok-cccc'' None),
     MInsert 6 False False (sample_mint ''3'' ''tok-cccc'' None)]"

theorem mint_ceiling_witness:
  "let db = ms_db (foldl (mint_step (\<lambda>s. s) 1) \<lparr>ms_db = demo_auth_db, ms_passed = []\<rparr> demo_mints) in
     IssueWithExpiry (\<lambda>s. s) 1 6 no_faults ''4'' ''tok-dddd'' [] [] ''o'' (Some 9) db = (Inl MintCeilingExceeded, db)"
proof -
  let ?db = "ms_db (foldl (mint_step (\<lambda>s. s) 1) \<lparr>ms_db = demo_auth_db, ms_passed = []\<rparr> demo_mints)"
  have s: "int (live_org_count 0 ''o'' demo_auth_db) \<le> 1" by code_simp
  have c: "clock_from mint_time 0 demo_mints" by code_simp
  have m: "overlap_le (\<lambda>s. s) 1 ''o'' 1 \<lparr>ms_db = demo_auth_db, ms_passed = []\<rparr> demo_mints" by code_simp
  have l: "6 = last_time mint_time 0 demo_mints" by code_simp
  have n: "1 \<le> int (live_org_count 6 ''o'' ?db)" by code_simp
  show ?thesis unfolding Let_def
    using mint_ceiling [OF _ _ s _ c m refl l, where flt = no_faults and expires = "Some 9"] n by simp
qed

text \<open>Two mints that overlap below the ceiling both pass the count, and the organisation has more live tokens than it allows.\<close>

lemma overlapping_mints_exceed:
  "live_org_count 2 ''o'' (ms_db (foldl (mint_step (\<lambda>s. s) 1) \<lparr>ms_db = demo_auth_db, ms_passed = []\<rparr>
     [MCheck 1 False (sample_mint ''1'' ''tok-aaaa'' None), MCheck 1 False (sample_mint ''2'' ''tok-bbbb'' None),
      MInsert 2 False False (sample_mint ''1'' ''tok-aaaa'' None), MInsert 2 False False (sample_mint ''2'' ''tok-bbbb'' None)])) = 2"
  by code_simp

end
