(* ===== verification/Org_Token_Routes.thy ===== *)
theory Org_Token_Routes
  imports Approval_Props Token_Props
begin

text \<open>
  \<^verbatim>\<open>internal/handlers/org_tokens.go\<close>: the routes that list, mint and revoke organisation tokens, behind
  \<^verbatim>\<open>AdminAuth\<close>, with \<^verbatim>\<open>orgtoken.List\<close> and \<^verbatim>\<open>ListAuditEvents\<close>. Minting composes the caller classes, the approval
  gate and the token table; the lemmas say what a mint needs and what it leaves behind.
\<close>

section \<open>Listing\<close>

definition listMax :: nat where "listMax = 500"

text \<open>A listed token has no hash. Scan errors fail the whole listing.\<close>

record org_token_view =
  tv_ID :: string
  tv_Prefix :: string
  tv_Name :: string
  tv_OrgID :: string
  tv_CreatedBy :: string
  tv_CreatedAt :: instant
  tv_LastUsedAt :: "instant option"
  tv_ExpiresAt :: "instant option"

definition null_string :: "string option \<Rightarrow> string" where
  "null_string v = (case v of None \<Rightarrow> [] | Some s \<Rightarrow> s)"

definition token_view :: "org_token \<Rightarrow> org_token_view" where
  "token_view t = \<lparr>tv_ID = ot_id t, tv_Prefix = ot_prefix t, tv_Name = null_string (ot_name t), tv_OrgID = null_string (ot_org_id t),
     tv_CreatedBy = null_string (ot_created_by t), tv_CreatedAt = ot_created_at t, tv_LastUsedAt = ot_last_used_at t,
     tv_ExpiresAt = ot_expires_at t\<rparr>"

definition OrgToken_List :: "faults \<Rightarrow> auth_db \<Rightarrow> org_token_view list option" where
  "OrgToken_List flt db =
     (if flt 0 then None
      else let rows = take listMax (sort_key (\<lambda>t. - ot_created_at t) (filter (\<lambda>t. ot_revoked_at t = None) (db_org_tokens db)))
           in if flt 1 then None else Some (map token_view rows))"

section \<open>Routes\<close>

datatype org_token_reply =
    TokenList "org_token_view list"
  | TokenMinted string string string "instant option" string
  | TokenRevoked string
  | TokenErr nat string
  | TokenGate nat string

definition OrgTokens_List :: "faults \<Rightarrow> auth_db \<Rightarrow> org_token_reply" where
  "OrgTokens_List flt db =
     (case OrgToken_List flt db of None \<Rightarrow> TokenErr 500 ''failed to list tokens'' | Some ts \<Rightarrow> TokenList ts)"

text \<open>What the routes read of the process environment, and \<^verbatim>\<open>json.Marshal\<close> of the map actor, name, workspace.\<close>

record mint_env =
  me_gate :: gate_env
  me_sha :: "string \<Rightarrow> string"
  me_ceiling :: int
  me_PLATFORM_WORKSPACE_ID :: string
  me_context :: "string \<Rightarrow> string \<Rightarrow> string \<Rightarrow> string option"

text \<open>The body: \<^term>\<open>None\<close> does not parse; an absent body is the empty name without expiry.\<close>

record createOrgTokenRequest =
  cr_Name :: string
  cr_ExpiresAt :: "instant option"

definition mint_context :: "mint_env \<Rightarrow> gin_context \<Rightarrow> string \<Rightarrow> string \<Rightarrow> string option" where
  "mint_context env c name ws = me_context env (orgTokenActorClass c) name ws"

text \<open>The gate part: skipped for a verified session, refused without an anchor.\<close>

definition mint_gate ::
  "mint_env \<Rightarrow> instant \<Rightarrow> faults \<Rightarrow> (string \<Rightarrow> bool) \<Rightarrow> string \<Rightarrow> gin_context \<Rightarrow> string \<Rightarrow> auth_db \<Rightarrow> approval_state \<Rightarrow>
   org_token_reply option \<times> approval_state" where
  "mint_gate env now flt locked aid c name db st =
     (if callerVerifiedSessionActor c \<noteq> [] then (None, st)
      else let ws = approvalAnchorForGate (me_PLATFORM_WORKSPACE_ID env) (flt 0) c db
           in if ws = [] then (Some (TokenErr 400 ''no approval anchor for this caller class''), st)
              else case gateDestructive ((me_gate env)\<lparr>ge_broadcaster := False\<rparr>) now (\<lambda>i. flt (i + 1)) locked aid c ws ActionOrgTokenMint
                          (''mint org token '' @ name) (mint_context env c name ws) st of
                     (Proceed, st') \<Rightarrow> (None, st')
                   | (Reply code msg, st') \<Rightarrow> (Some (TokenGate code msg), st'))"

definition OrgTokens_Create ::
  "mint_env \<Rightarrow> instant \<Rightarrow> faults \<Rightarrow> (string \<Rightarrow> bool) \<Rightarrow> string \<Rightarrow> string \<Rightarrow> string \<Rightarrow> gin_context \<Rightarrow> createOrgTokenRequest option \<Rightarrow>
   auth_db \<times> approval_state \<Rightarrow> org_token_reply \<times> auth_db \<times> approval_state" where
  "OrgTokens_Create env now flt locked aid rid plaintext c body = (\<lambda>(db, st).
     (case body of
        None \<Rightarrow> (TokenErr 400 ''invalid JSON body'', db, st)
      | Some req \<Rightarrow>
          if 100 < length (cr_Name req) then (TokenErr 400 ''name too long (max 100 chars)'', db, st)
          else (case mint_gate env now flt locked aid c (cr_Name req) db st of
                  (Some reply, st') \<Rightarrow> (reply, db, st')
                | (None, st') \<Rightarrow>
                    let (createdBy, orgID) = orgTokenActor (flt 6) c db
                    in (case IssueWithExpiry (me_sha env) (me_ceiling env) now (\<lambda>i. flt (i + 7)) rid plaintext (cr_Name req)
                               createdBy orgID (cr_ExpiresAt req) db of
                          (Inl MintCeilingExceeded, db') \<Rightarrow> (TokenErr 429 ''org api token mint ceiling exceeded'', db', st')
                        | (Inl _, db') \<Rightarrow> (TokenErr 500 ''failed to mint token'', db', st')
                        | (Inr (tok, tid), db') \<Rightarrow> (TokenMinted tid (take 8 tok) (cr_Name req) (cr_ExpiresAt req) tok, db', st')))))"

definition OrgTokens_Revoke :: "instant \<Rightarrow> faults \<Rightarrow> string \<Rightarrow> gin_context \<Rightarrow> auth_db \<Rightarrow> org_token_reply \<times> auth_db" where
  "OrgTokens_Revoke now flt tid c db =
     (if tid = [] then (TokenErr 400 ''id required'', db)
      else case Revoke now (\<lambda>i. flt (i + 1)) tid (fst (orgTokenActor (flt 0) c db)) db of
             (None, db') \<Rightarrow> (TokenErr 500 ''failed to revoke'', db')
           | (Some False, db') \<Rightarrow> (TokenErr 404 ''token not found or already revoked'', db')
           | (Some True, db') \<Rightarrow> (TokenRevoked tid, db'))"

section \<open>What a mint needs and leaves\<close>

text \<open>The three callers \<^verbatim>\<open>AdminAuth\<close> lets through: a verified session, an organisation token, an admin token.\<close>

lemma AdminAuth_classes:
  assumes "AdminAuth aenv now flt req db = (Next c, db')"
  shows "(\<exists>userID. rq_Cookie req \<noteq> [] \<and> en_session aenv (rq_Cookie req) = Some userID \<and> c = session_context aenv (rq_Cookie req) userID) \<or>
    (\<exists>org. fst (Validate (en_sha aenv) now (\<lambda>i. flt (i + 1)) (BearerTokenFromHeader (rq_Authorization req)) [] False db) = Some org \<and>
       c = org_context org) \<or>
    (callerIsAdminToken c \<and> gc_org_token_id c = None \<and> gc_org_token_prefix c = None \<and> gc_cp_session_actor c = None)"
  using assms
  by (auto simp: AdminAuth_def abortAuthLookupError_def Let_def callerIsAdminToken_def empty_context_def
      split: if_splits option.splits prod.splits bool.splits)

lemma IssueWithExpiry_ok:
  assumes "IssueWithExpiry sha ceiling now flt rid tok name creator org expires db = (Inr (tok', tid), db')"
  shows "tok' = tok \<and> tid = rid \<and> sha tok \<notin> ot_token_hash ` set (db_org_tokens db) \<and>
    \<not> (case expires of Some e \<Rightarrow> e < now | None \<Rightarrow> False) \<and>
    db_org_tokens db' = db_org_tokens db @ [\<lparr>ot_id = rid, ot_token_hash = sha tok, ot_prefix = take tokenPrefixLen tok,
      ot_name = nullif_empty name, ot_created_by = nullif_empty creator, ot_org_id = nullif_empty org,
      ot_created_at = now, ot_last_used_at = None, ot_revoked_at = None, ot_expires_at = expires\<rparr>]"
  using assms by (auto simp: issue_defs split: if_splits option.splits)

text \<open>A minted token validates until it expires, with the organisation it was minted for.\<close>

lemma minted_validates:
  assumes "IssueWithExpiry sha ceiling now flt rid tok name creator org expires db = (Inr (tok', tid), db')"
    and "tok \<noteq> []" "\<not> vflt 0" "\<not> (case expires of Some e \<Rightarrow> e < now' | None \<Rightarrow> False)"
  shows "fst (Validate sha now' vflt tok actor audit db') = Some (tid, take tokenPrefixLen tok, org)"
proof -
  note ok = IssueWithExpiry_ok [OF assms(1)]
  have "select_first (\<lambda>t. ot_token_hash t = sha tok \<and> ot_revoked_at t = None) (db_org_tokens db) = None"
    using ok unfolding select_first_None_iff by (metis image_eqI)
  then show ?thesis using ok assms(2-4) by (auto simp: Validate_def select_first_append nullif_empty_def split: option.splits)
qed

lemma mint_gate_reply: "mint_gate env now flt locked aid c name db st \<noteq> (Some (TokenMinted tid prefix n expires tok), st')"
  by (auto simp: mint_gate_def Let_def split: if_splits prod.splits gate_reply.splits)

lemma OrgTokens_Create_ok:
  assumes "OrgTokens_Create env now flt locked aid rid tok c (Some body) (db, st) = (TokenMinted tid prefix name expires tok', db', st')"
  shows "name = cr_Name body \<and> expires = cr_ExpiresAt body \<and> prefix = take 8 tok' \<and>
    mint_gate env now flt locked aid c (cr_Name body) db st = (None, st') \<and>
    IssueWithExpiry (me_sha env) (me_ceiling env) now (\<lambda>i. flt (i + 7)) rid tok (cr_Name body)
      (fst (orgTokenActor (flt 6) c db)) (snd (orgTokenActor (flt 6) c db)) (cr_ExpiresAt body) db = (Inr (tok', tid), db')"
  using assms
  by (auto simp: OrgTokens_Create_def mint_gate_reply Let_def split: if_splits prod.splits option.splits sum.splits org_token_error.splits)

lemma admin_context_actor:
  assumes "gc_org_token_prefix c = None" "gc_cp_session_actor c = None"
  shows "orgTokenActor fault c db = (actorAdminToken, [])" "callerVerifiedSessionActor c = []"
  using assms by (simp_all add: orgTokenActor_def callerVerifiedSessionActor_def Let_def)

text \<open>C21: An admin token alone mints nothing. When the mint route answers a caller that \<^verbatim>\<open>AdminAuth\<close> let
  through without a session and without an organisation token, an approval for minting under this
  credential class, this name and this workspace was waiting and has been used up; the token table
  has exactly one new row, bound to no organisation, and the token that was returned validates
  until its expiry. The gate came after the documentation: \<^verbatim>\<open>docs/architecture/org-api-keys.md\<close> still shows a
  mint with \<^verbatim>\<open>ADMIN_TOKEN\<close> alone as the way to the first token, a call the code answers with a pending
  approval.\<close>

theorem admin_mint_needs_approval:
  assumes "AdminAuth aenv now aflt req db0 = (Next c, db)" "gc_org_token_id c = None" "gc_cp_session_actor c = None"
    and "OrgTokens_Create env now flt locked aid rid tok c (Some body) (db, st) = (TokenMinted tid prefix name expires tok', db', st')"
    and "tok \<noteq> []"
  shows "(\<exists>r \<in> set (as_rows st). consumable (me_PLATFORM_WORKSPACE_ID env) ActionOrgTokenMint
        (approvalRequestHash (ge_hex (me_gate env)) (me_PLATFORM_WORKSPACE_ID env) ActionOrgTokenMint
           (me_context env (orgTokenActorClass c) name (me_PLATFORM_WORKSPACE_ID env))) r \<and>
      as_rows st' = update_where (\<lambda>x. av_id x = av_id r) (\<lambda>x. x\<lparr>av_consumed_at := Some now\<rparr>) (as_rows st)) \<and>
    (\<exists>t. db_org_tokens db' = db_org_tokens db @ [t] \<and> ot_id t = tid \<and> ot_org_id t = None \<and> ot_created_by t = Some actorAdminToken) \<and>
    (\<forall>now' vflt. \<not> vflt 0 \<longrightarrow> \<not> (case expires of Some e \<Rightarrow> e < now' | None \<Rightarrow> False) \<longrightarrow>
       fst (Validate (me_sha env) now' vflt tok' [] False db') = Some (tid, prefix, []))"
proof -
  have c: "callerIsAdminToken c" "gc_org_token_prefix c = None"
    using AdminAuth_classes [OF assms(1)] assms(2,3) by (auto simp: session_context_def org_context_def split: prod.splits)
  note a = admin_context_actor [OF c(2) assms(3)]
  note k = OrgTokens_Create_ok [OF assms(4), unfolded a fst_conv snd_conv]
  then have g: "mint_gate env now flt locked aid c name db st = (None, st')"
    and i: "IssueWithExpiry (me_sha env) (me_ceiling env) now (\<lambda>i. flt (i + 7)) rid tok name actorAdminToken [] expires db =
      (Inr (tok', tid), db')" by simp_all
  define ws where "ws = me_PLATFORM_WORKSPACE_ID env"
  have anchor: "approvalAnchorForGate ws (flt 0) c db = ws"
    using c assms(2) by (simp add: approvalAnchorForGate_def callerOrg_def Let_def)
  have gd: "gateDestructive ((me_gate env)\<lparr>ge_broadcaster := False\<rparr>) now (\<lambda>i. flt (i + 1)) locked aid c ws ActionOrgTokenMint
      (''mint org token '' @ name) (me_context env (orgTokenActorClass c) name ws) st = (Proceed, st')"
    using g anchor by (auto simp: mint_gate_def ws_def [symmetric] a(2) mint_context_def Let_def split: if_splits prod.splits gate_reply.splits)
  have gated: "IsGated ActionOrgTokenMint" by (simp add: IsGated_def)
  note ok = IssueWithExpiry_ok [OF i]
  have v: "fst (Validate (me_sha env) now' vflt tok' [] False db') = Some (tid, prefix, [])"
    if "\<not> vflt 0" "\<not> (case expires of Some e \<Rightarrow> e < now' | None \<Rightarrow> False)" for now' vflt
    using minted_validates [of "me_sha env", OF i assms(5), of vflt now' "[]" False] that ok k by (simp add: tokenPrefixLen_def)
  show ?thesis
    using admin_route_gated [OF c(1) gated refl gd] ok v by (auto simp: ws_def actorAdminToken_def)
qed

definition demo_mint_env :: mint_env where
  "demo_mint_env = \<lparr>me_gate = demo_gate_env, me_sha = (\<lambda>s. s), me_ceiling = 100, me_PLATFORM_WORKSPACE_ID = ''p'',
     me_context = (\<lambda>actor name ws. Some (actor @ name @ ws))\<rparr>"

definition demo_admin_context :: gin_context where
  "demo_admin_context = empty_context\<lparr>gc_caller_is_admin_token := Some True, gc_caller_credential_class := Some ''admin-token''\<rparr>"

definition demo_mint_db :: auth_db where
  "demo_mint_db = \<lparr>db_ws_tokens = [], db_org_tokens = [], db_audit = [], db_status = Map.empty\<rparr>"

definition demo_mint_approval :: approval where
  "demo_mint_approval = \<lparr>av_id = ''a1'', av_workspace_id = ''p'', av_task_id = None, av_action = ActionOrgTokenMint, av_reason = [],
     av_context = [], av_request_hash = Some (approvalRequestHash id ''p'' ActionOrgTokenMint (Some ''admin-tokencip'')),
     av_status = ''approved'', av_decided_by = Some ''human'', av_decided_at = Some 1, av_consumed_at = None, av_created_at = 0\<rparr>"

definition demo_mint ::
  "approval list \<Rightarrow> org_token_reply \<times> auth_db \<times> approval_state" where
  "demo_mint rows = OrgTokens_Create demo_mint_env 5 no_faults (\<lambda>_. False) ''a2'' ''t1'' ''secret-token'' demo_admin_context
     (Some \<lparr>cr_Name = ''ci'', cr_ExpiresAt = None\<rparr>) (demo_mint_db, \<lparr>as_rows = rows, as_events = []\<rparr>)"

theorem admin_mint_needs_approval_witness:
  "fst (demo_mint []) = TokenGate 202 ''a2'' \<and>
   fst (demo_mint [demo_mint_approval]) = TokenMinted ''t1'' ''secret-t'' ''ci'' None ''secret-token'' \<and>
   fst (Validate (\<lambda>s. s) 9 no_faults ''secret-token'' [] False (fst (snd (demo_mint [demo_mint_approval])))) =
     Some (''t1'', ''secret-t'', [])"
proof -
  have a: "AdminAuth demo_auth_env 5 no_faults demo_auth_request demo_mint_db = (Next demo_admin_context, demo_mint_db)"
  proof -
    have "BearerTokenFromHeader (rq_Authorization demo_auth_request) = ''adm''" "rq_Cookie demo_auth_request = []"
      "en_ADMIN_TOKEN demo_auth_env = ''adm''" by (code_simp, code_simp, code_simp)
    then show ?thesis
      by (simp add: AdminAuth_def Let_def demo_mint_db_def demo_admin_context_def HasAnyLiveTokenGlobal_def Validate_def)
  qed
  have c: "gc_org_token_id demo_admin_context = None" "gc_cp_session_actor demo_admin_context = None"
    by (simp_all add: demo_admin_context_def empty_context_def)
  have m: "fst (demo_mint [demo_mint_approval]) = TokenMinted ''t1'' ''secret-t'' ''ci'' None ''secret-token''" by code_simp
  then have "demo_mint [demo_mint_approval] = (TokenMinted ''t1'' ''secret-t'' ''ci'' None ''secret-token'',
      fst (snd (demo_mint [demo_mint_approval])), snd (snd (demo_mint [demo_mint_approval])))"
    by (metis prod.collapse)
  from admin_mint_needs_approval [OF a c this [unfolded demo_mint_def [of "[demo_mint_approval]"]]]
  have "fst (Validate (\<lambda>s. s) 9 no_faults ''secret-token'' [] False (fst (snd (demo_mint [demo_mint_approval])))) =
     Some (''t1'', ''secret-t'', [])" by (simp add: demo_mint_env_def demo_mint_def)
  moreover have "fst (demo_mint []) = TokenGate 202 ''a2''" by code_simp
  ultimately show ?thesis using m by blast
qed

end
