(* ===== verification/Restart_Props.thy ===== *)
theory Restart_Props
  imports Restart_Gate
begin

text \<open>
  Properties of the restart gate under every interleaving of goroutines: one cycle at a time, a
  request that entered is followed by a cycle start as long as nobody enters between the last look
  at the pending flag and the deferred reset, and the interleaving in which such a request is left
  behind.
\<close>

section \<open>Runners and requests\<close>

definition runner_pc :: "restart_pc option \<Rightarrow> bool" where
  "runner_pc pc \<longleftrightarrow> pc \<noteq> None \<and> pc \<noteq> Some Checked"

text \<open>The last request of the log has no cycle start after it.\<close>

fun unserved :: "restart_log list \<Rightarrow> bool" where
  "unserved [] = False"
| "unserved (e # lg) = (case e of Wanted _ \<Rightarrow> unserved lg \<or> \<not> list_ex (\<lambda>x. \<exists>t now. x = CycleStart t now) lg | _ \<Rightarrow> unserved lg)"

definition is_cycle :: "restart_log \<Rightarrow> bool" where "is_cycle e = (case e of CycleStart _ _ \<Rightarrow> True | _ \<Rightarrow> False)"
definition is_wanted :: "restart_log \<Rightarrow> bool" where "is_wanted e = (case e of Wanted _ \<Rightarrow> True | _ \<Rightarrow> False)"

lemma log_kinds [simp]:
  "is_cycle (CycleStart t now)" "\<not> is_cycle (Wanted t)" "\<not> is_cycle (Dropped t)"
  "\<not> is_wanted (CycleStart t now)" "is_wanted (Wanted t)" "\<not> is_wanted (Dropped t)"
  by (simp_all add: is_cycle_def is_wanted_def)

lemma is_cycle_iff: "(\<exists>t now. x = CycleStart t now) \<longleftrightarrow> is_cycle x"
  by (cases x) auto

lemma unserved_append [simp]:
  "unserved (lg @ [Wanted t])" "\<not> unserved (lg @ [CycleStart t now])" "unserved (lg @ [Dropped t]) = unserved lg"
  by (induction lg) (auto simp: list_ex_iff is_cycle_iff split: restart_log.splits)

definition restart_inv :: "restart_sys \<Rightarrow> bool" where
  "restart_inv s \<longleftrightarrow>
     (\<forall>t u. runner_pc (sy_threads s t) \<longrightarrow> runner_pc (sy_threads s u) \<longrightarrow> t = u) \<and>
     (rs_running (load_or_store (sy_entry s)) \<longleftrightarrow> (\<exists>t. runner_pc (sy_threads s t))) \<and>
     (rs_pending (load_or_store (sy_entry s)) \<longleftrightarrow> unserved (sy_log s)) \<and>
     count_where is_cycle (sy_log s) + (if unserved (sy_log s) then 1 else 0) \<le> count_where is_wanted (sy_log s)"

lemma load_or_store_Some [simp]: "load_or_store (Some st) = st"
  by (simp add: load_or_store_def)

lemma runner_pc_simps [simp]:
  "\<not> runner_pc None" "\<not> runner_pc (Some Checked)" "runner_pc (Some (AtLoop k))" "runner_pc (Some (InCycle k))" "runner_pc (Some Leaving)"
  by (simp_all add: runner_pc_def)

lemma restart_inv_init: "restart_inv restart_init"
  by (simp add: restart_inv_def restart_init_def load_or_store_def new_restartState_def)

lemma restart_invD:
  assumes "restart_inv s"
  shows "runner_pc (sy_threads s t) \<Longrightarrow> runner_pc (sy_threads s u) \<Longrightarrow> t = u"
    "rs_running (load_or_store (sy_entry s)) \<longleftrightarrow> (\<exists>t. runner_pc (sy_threads s t))"
    "rs_pending (load_or_store (sy_entry s)) \<longleftrightarrow> unserved (sy_log s)"
    "count_where is_cycle (sy_log s) + (if unserved (sy_log s) then 1 else 0) \<le> count_where is_wanted (sy_log s)"
  using assms unfolding restart_inv_def by auto

lemma restart_invI:
  assumes "\<And>t u. runner_pc (sy_threads s t) \<Longrightarrow> runner_pc (sy_threads s u) \<Longrightarrow> t = u"
    and "rs_running (load_or_store (sy_entry s)) \<longleftrightarrow> (\<exists>t. runner_pc (sy_threads s t))"
    and "rs_pending (load_or_store (sy_entry s)) \<longleftrightarrow> unserved (sy_log s)"
    and "count_where is_cycle (sy_log s) + (if unserved (sy_log s) then 1 else 0) \<le> count_where is_wanted (sy_log s)"
  shows "restart_inv s"
  using assms unfolding restart_inv_def by auto

text \<open>A step that keeps a goroutine a runner, or keeps it none.\<close>

lemma restart_inv_thread:
  assumes "restart_inv s" "runner_pc pc = runner_pc (sy_threads s tid)"
  shows "restart_inv (s\<lparr>sy_threads := (sy_threads s)(tid := pc)\<rparr>)"
proof -
  have "runner_pc (((sy_threads s)(tid := pc)) t) = runner_pc (sy_threads s t)" for t
    using assms(2) by (cases "t = tid") auto
  then show ?thesis using assms(1) unfolding restart_inv_def by simp
qed

lemma restart_enter_inv:
  assumes "restart_inv s" shows "restart_inv (restart_step s (REnter tid now))"
proof (cases "sy_threads s tid = Some Checked")
  case True
  note inv = restart_invD [OF assms]
  define st where "st = load_or_store (sy_entry s)"
  have c: "(\<exists>t. runner_pc (if t = tid then pc else sy_threads s t)) \<longleftrightarrow> runner_pc pc \<or> (\<exists>t. runner_pc (sy_threads s t))" for pc
    using True by (metis runner_pc_simps(2))
  show ?thesis
  proof (cases "rs_running st")
    case run: True
    show ?thesis
      by (rule restart_invI) (use True run inv in \<open>auto simp: coalesce_enter_def Let_def st_def [symmetric] c split: if_splits\<close>)
  next
    case False
    then have "\<And>t. \<not> runner_pc (sy_threads s t)" using inv(2) by (simp add: st_def)
    then show ?thesis
      by (intro restart_invI) (use True False inv in \<open>auto simp: coalesce_enter_def Let_def st_def [symmetric] split: if_splits\<close>)
  qed
qed (use assms in simp)

lemma restart_next_inv:
  assumes "restart_inv s" shows "restart_inv (restart_step s (RNext tid now))"
proof (cases "\<exists>k. sy_threads s tid = Some (AtLoop k)")
  case True
  then obtain k where k: "sy_threads s tid = Some (AtLoop k)" by blast
  note inv = restart_invD [OF assms]
  define st where "st = load_or_store (sy_entry s)"
  have r: "runner_pc (((sy_threads s)(tid := Some pc)) t) = runner_pc (sy_threads s t)" if "pc \<noteq> Checked" for t pc
    using k that by (cases pc) auto
  have inj: "t = u" if "runner_pc (((sy_threads s)(tid := Some pc)) t)" "runner_pc (((sy_threads s)(tid := Some pc)) u)" "pc \<noteq> Checked" for t u pc
    using that inv(1) [of t u] by (metis r)
  have ex: "(\<exists>t. runner_pc (((sy_threads s)(tid := Some pc)) t)) \<longleftrightarrow> rs_running st" if "pc \<noteq> Checked" for pc
    unfolding r [OF that] st_def by (rule inv(2) [symmetric])
  show ?thesis
  proof (cases "rs_pending st")
    case pend: True
    then have u: "unserved (sy_log s)" using inv(3) by (simp add: st_def)
    have s': "restart_step s (RNext tid now) = s\<lparr>sy_entry := Some (snd (coalesce_next now k st)),
        sy_threads := (sy_threads s)(tid := Some (InCycle (k + 1))), sy_log := sy_log s @ [CycleStart tid now]\<rparr>"
      using k pend by (simp add: coalesce_next_def Let_def st_def [symmetric])
    have f: "rs_running (snd (coalesce_next now k st)) = rs_running st" "\<not> rs_pending (snd (coalesce_next now k st))"
      using pend by (simp_all add: coalesce_next_def Let_def)
    show ?thesis
      unfolding s'
    proof (rule restart_invI, goal_cases)
      case (1 t v)
      then show ?case using inj [of "InCycle (k + 1)" t v] by simp
    next
      case 2
      show ?case using ex [of "InCycle (k + 1)"] f(1) by simp
    qed (use inv(4) u f in simp_all)
  next
    case False
    have s': "restart_step s (RNext tid now) = s\<lparr>sy_entry := Some st, sy_threads := (sy_threads s)(tid := Some Leaving)\<rparr>"
      using k False by (simp add: coalesce_next_def Let_def st_def [symmetric])
    show ?thesis
      unfolding s'
    proof (rule restart_invI, goal_cases)
      case (1 t v)
      then show ?case using inj [of Leaving t v] by simp
    next
      case 2
      show ?case using ex [of Leaving] by simp
    qed (use inv(3,4) False in \<open>simp_all add: st_def\<close>)
  qed
qed (use assms in \<open>auto split: option.splits restart_pc.splits\<close>)

lemma restart_exit_inv:
  assumes "restart_inv s" shows "restart_inv (restart_step s (RExit tid))"
proof (cases "sy_threads s tid = Some Leaving")
  case True
  note inv = restart_invD [OF assms]
  have "\<not> runner_pc (((sy_threads s)(tid := None)) t)" for t
    using inv(1) [of t tid] True by auto
  then show ?thesis
    by (intro restart_invI) (use True inv(3,4) in \<open>auto simp: coalesce_exit_def\<close>)
qed (use assms in simp)

lemma restart_step_inv: "restart_inv s \<Longrightarrow> restart_inv (restart_step s op)"
proof (cases op)
  case (RCall tid now)
  assume inv: "restart_inv s"
  have "restart_inv (s\<lparr>sy_log := sy_log s @ [Dropped tid]\<rparr>)" using inv by (simp add: restart_inv_def)
  then show ?thesis using RCall inv restart_inv_thread [OF inv, of "Some Checked" tid] by (cases "sy_threads s tid") auto
next
  case (RCycle tid panicked)
  assume inv: "restart_inv s"
  then show ?thesis
    using RCycle restart_inv_thread [OF inv, of "Some Leaving" tid] restart_inv_thread [OF inv, of "Some (AtLoop _)" tid]
    by (auto split: option.splits restart_pc.splits)
qed (use restart_enter_inv restart_next_inv restart_exit_inv in simp_all)

interpretation restarts: invariant_system restart_step restart_inv
  by unfold_locales (rule restart_step_inv)

section \<open>Mutual exclusion and coalescing\<close>

lemma isRestarting_load [simp]: "isRestarting entry = rs_running (load_or_store entry)"
  by (simp add: isRestarting_def load_or_store_def new_restartState_def split: option.splits)

text \<open>C30: Under every interleaving of restart requests at most one restart cycle runs at a time, the
  workspace counts as restarting exactly while some goroutine is its runner, and no more cycles
  start than requests entered, so a burst of requests is coalesced and never multiplied.\<close>

theorem restart_mutex:
  assumes "s = foldl restart_step restart_init ops"
  shows "(\<forall>t u j k. sy_threads s t = Some (InCycle j) \<longrightarrow> sy_threads s u = Some (InCycle k) \<longrightarrow> t = u) \<and>
    (isRestarting (sy_entry s) \<longleftrightarrow> (\<exists>t. runner_pc (sy_threads s t))) \<and>
    count_where is_cycle (sy_log s) \<le> count_where is_wanted (sy_log s)"
proof -
  have "restart_inv s" using restarts.inv_run [OF restart_inv_init, of ops] assms by simp
  note inv = restart_invD [OF this]
  show ?thesis
  proof (intro conjI allI impI)
    show "t = u" if "sy_threads s t = Some (InCycle j)" "sy_threads s u = Some (InCycle k)" for t u j k
      using inv(1) [of t u] that by simp
  qed (use inv(2,4) in auto)
qed

definition burst_ops :: "restart_op list" where
  "burst_ops = [RCall 1 0, RCall 2 0, RCall 3 0, REnter 1 0, RNext 1 0, REnter 2 1, REnter 3 2, RCycle 1 False, RNext 1 3]"

theorem restart_mutex_witness:
  "sy_threads (foldl restart_step restart_init burst_ops) 1 = Some (InCycle 2) \<and>
   count_where is_cycle (sy_log (foldl restart_step restart_init burst_ops)) = 2 \<and>
   count_where is_wanted (sy_log (foldl restart_step restart_init burst_ops)) = 3 \<and>
   isRestarting (sy_entry (foldl restart_step restart_init burst_ops))"
proof -
  have "sy_threads (foldl restart_step restart_init burst_ops) 1 = Some (InCycle 2)" by code_simp
  moreover from this restart_mutex [OF refl, of burst_ops] have "isRestarting (sy_entry (foldl restart_step restart_init burst_ops))"
    by (metis runner_pc_simps(4))
  moreover have "count_where is_cycle (sy_log (foldl restart_step restart_init burst_ops)) = 2"
    "count_where is_wanted (sy_log (foldl restart_step restart_init burst_ops)) = 3" by (code_simp, code_simp)
  ultimately show ?thesis by blast
qed

section \<open>Requests that are served\<close>

definition loop_pc :: "restart_pc option \<Rightarrow> bool" where
  "loop_pc pc \<longleftrightarrow> runner_pc pc \<and> pc \<noteq> Some Leaving"

lemma loop_pc_simps [simp]:
  "\<not> loop_pc None" "\<not> loop_pc (Some Checked)" "loop_pc (Some (AtLoop k))" "loop_pc (Some (InCycle k))" "\<not> loop_pc (Some Leaving)"
  by (simp_all add: loop_pc_def)

text \<open>Nobody enters while the runner is between its last look at the flag and the deferred reset, and no cycle panics.\<close>

fun calm :: "restart_sys \<Rightarrow> restart_op \<Rightarrow> bool" where
  "calm s (REnter tid now) \<longleftrightarrow> (\<forall>t. sy_threads s t \<noteq> Some Leaving)"
| "calm s (RCycle tid panicked) \<longleftrightarrow> \<not> panicked"
| "calm s _ \<longleftrightarrow> True"

fun calm_run :: "restart_sys \<Rightarrow> restart_op list \<Rightarrow> bool" where
  "calm_run s [] = True"
| "calm_run s (op # ops) = (calm s op \<and> calm_run (restart_step s op) ops)"

definition attended :: "restart_sys \<Rightarrow> bool" where
  "attended s \<longleftrightarrow> (unserved (sy_log s) \<longrightarrow> (\<exists>t. loop_pc (sy_threads s t)))"

lemma attended_thread:
  assumes "attended s" "loop_pc (sy_threads s tid) \<Longrightarrow> loop_pc pc"
  shows "attended (s\<lparr>sy_threads := (sy_threads s)(tid := pc)\<rparr>)"
  unfolding attended_def
proof
  assume "unserved (sy_log (s\<lparr>sy_threads := (sy_threads s)(tid := pc)\<rparr>))"
  with assms(1) obtain t where t: "loop_pc (sy_threads s t)" by (auto simp: attended_def)
  then have "loop_pc (((sy_threads s)(tid := pc)) t)" using assms(2) by (cases "t = tid") auto
  then show "\<exists>t. loop_pc (sy_threads (s\<lparr>sy_threads := (sy_threads s)(tid := pc)\<rparr>) t)" by (intro exI [of _ t]) simp
qed

lemma attended_step:
  assumes inv: "restart_inv s" and att: "attended s" and calm: "calm s op"
  shows "attended (restart_step s op)"
proof (cases op)
  case (RCall tid now)
  show ?thesis
  proof (cases "sy_threads s tid")
    case None
    have "attended (s\<lparr>sy_log := sy_log s @ [Dropped tid]\<rparr>)" using att by (simp add: attended_def)
    then show ?thesis using RCall None attended_thread [OF att, of tid "Some Checked"] by simp
  qed (use RCall att in simp)
next
  case (REnter tid now)
  show ?thesis
  proof (cases "sy_threads s tid = Some Checked")
    case True
    have run: "\<exists>t. t \<noteq> tid \<and> loop_pc (sy_threads s t)" if "rs_running (load_or_store (sy_entry s))"
    proof -
      from that obtain t where t: "runner_pc (sy_threads s t)" using restart_invD(2) [OF inv] by blast
      with calm REnter have "loop_pc (sy_threads s t)" by (simp add: loop_pc_def)
      moreover from t True have "t \<noteq> tid" by auto
      ultimately show ?thesis by blast
    qed
    show ?thesis
    proof (cases "rs_running (load_or_store (sy_entry s))")
      case r: True
      with run obtain t where "t \<noteq> tid" "loop_pc (sy_threads s t)" by blast
      then show ?thesis using REnter True r by (auto simp: attended_def coalesce_enter_def Let_def intro!: exI [of _ t])
    next
      case False
      then show ?thesis using REnter True by (auto simp: attended_def coalesce_enter_def Let_def intro!: exI [of _ tid])
    qed
  qed (use REnter att in simp)
next
  case (RNext tid now)
  have "\<not> unserved (sy_log s)" if "\<not> rs_pending (load_or_store (sy_entry s))" using restart_invD(3) [OF inv] that by simp
  then show ?thesis using RNext att by (auto simp: attended_def coalesce_next_def Let_def split: option.splits restart_pc.splits)
next
  case (RCycle tid panicked)
  then show ?thesis using calm att attended_thread [OF att, of tid "Some (AtLoop _)"] by (auto split: option.splits restart_pc.splits)
next
  case (RExit tid)
  show ?thesis
  proof (cases "sy_threads s tid = Some Leaving")
    case True
    have "\<not> loop_pc (sy_threads s t)" for t
      using restart_invD(1) [OF inv, of t tid] True by (auto simp: loop_pc_def)
    then have "\<not> unserved (sy_log s)" using att by (simp add: attended_def)
    then show ?thesis using RExit True by (simp add: attended_def)
  qed (use RExit att in simp)
qed

lemma attended_run: "restart_inv s \<Longrightarrow> attended s \<Longrightarrow> calm_run s ops \<Longrightarrow> attended (foldl restart_step s ops)"
  by (induction ops arbitrary: s) (auto intro: attended_step restart_step_inv)

text \<open>C31: As long as no cycle panics and nobody enters between the runner's last look at the pending flag
  and its reset of the running flag, no request that entered is lost: when all goroutines have
  returned, a cycle started after the last request.\<close>

theorem restart_requests_served:
  assumes "calm_run restart_init ops" "s = foldl restart_step restart_init ops" "\<forall>t. sy_threads s t = None"
  shows "\<not> unserved (sy_log s) \<and> \<not> isRestarting (sy_entry s)"
proof -
  have i: "attended restart_init" by (simp add: attended_def restart_init_def)
  have "attended s" "restart_inv s"
    using attended_run [OF restart_inv_init i assms(1)] restarts.inv_run [OF restart_inv_init, of ops] assms(2) by simp_all
  then show ?thesis using assms(3) restart_invD(2) [of s] by (simp add: attended_def)
qed

definition served_ops :: "restart_op list" where
  "served_ops = burst_ops @ [RCycle 1 False, RNext 1 4, RExit 1]"

theorem restart_requests_served_witness:
  "sy_log (foldl restart_step restart_init served_ops) = [Wanted 1, CycleStart 1 0, Wanted 2, Wanted 3, CycleStart 1 3] \<and>
   \<not> unserved (sy_log (foldl restart_step restart_init served_ops))"
proof -
  have c: "calm_run restart_init served_ops"
    unfolding served_ops_def burst_ops_def
    by (simp add: restart_init_def load_or_store_def new_restartState_def coalesce_enter_def coalesce_next_def shouldDebounceRestart_def)
  have t: "\<forall>t. sy_threads (foldl restart_step restart_init served_ops) t = None"
    unfolding served_ops_def burst_ops_def
    by (simp add: restart_init_def load_or_store_def new_restartState_def coalesce_enter_def coalesce_next_def coalesce_exit_def
        shouldDebounceRestart_def)
  have "sy_log (foldl restart_step restart_init served_ops) = [Wanted 1, CycleStart 1 0, Wanted 2, Wanted 3, CycleStart 1 3]" by code_simp
  with restart_requests_served [OF c refl t] show ?thesis by blast
qed

section \<open>Requests that are not\<close>

text \<open>The second request enters after the runner saw no pending request and before it resets the flag.\<close>

definition stranded_ops :: "restart_op list" where
  "stranded_ops = [RCall 1 0, REnter 1 0, RNext 1 0, RCycle 1 False, RCall 2 (90 * second), RNext 1 (91 * second),
     REnter 2 (91 * second), RExit 1]"

text \<open>A request can be lost. In the run above nothing panics and both goroutines return, but the second
  request found the first goroutine still marked as running after its last look at the pending
  flag: no cycle starts after the request, nobody runs, and the flag stays set until some later
  request arrives.\<close>

theorem restart_request_stranded:
  "sy_log (foldl restart_step restart_init stranded_ops) = [Wanted 1, CycleStart 1 0, Wanted 2] \<and>
   (\<forall>t. sy_threads (foldl restart_step restart_init stranded_ops) t = None) \<and>
   \<not> isRestarting (sy_entry (foldl restart_step restart_init stranded_ops)) \<and>
   rs_pending (load_or_store (sy_entry (foldl restart_step restart_init stranded_ops)))"
  unfolding stranded_ops_def
  by (simp add: restart_init_def load_or_store_def new_restartState_def coalesce_enter_def coalesce_next_def coalesce_exit_def
      shouldDebounceRestart_def RestartDebounceWindow_def duration_defs)

text \<open>
  Within the debounce window of the last cycle start a call is dropped before it reaches the pending
  flag, also when a cycle is running that has read its inputs already.
\<close>

lemma debounced_call_dropped:
  assumes "sy_entry s = Some st" "rs_restartStartedAt st = Some t0" "now - t0 < RestartDebounceWindow" "sy_threads s tid = None"
  shows "restart_step s (RCall tid now) = s\<lparr>sy_log := sy_log s @ [Dropped tid]\<rparr>"
  using assms by (simp add: shouldDebounceRestart_def)

text \<open>A restart after a file write: dropped within the window, fired when a swap succeeds outside it.\<close>

lemma maybeRestartAfterFileWrite_uncontended:
  assumes "obs 0 = (stamp, True)"
  shows "maybeRestartAfterFileWrite now obs \<longleftrightarrow> stamp = 0 \<or> fileWriteRestartDebounceWindow \<le> now - stamp"
proof -
  have "maybeRestartAfterFileWrite now obs = file_write_loop (Suc 3) 0 now obs"
    by (simp add: maybeRestartAfterFileWrite_def del: file_write_loop.simps)
  then show ?thesis unfolding file_write_loop.simps(2) assms by auto
qed

end
