(* ===== verification/Budgets.thy ===== *)
theory Budgets
  imports Prelude
begin

text \<open>
  \<^verbatim>\<open>internal/handlers/budget_periods.go\<close>, \<^verbatim>\<open>budget.go\<close>, the check in \<^verbatim>\<open>a2a_proxy.go\<close> and the spend part of the
  heartbeat in \<^verbatim>\<open>registry.go\<close>: rolling budgets per workspace over the ledger
  \<^verbatim>\<open>workspace_spend_events\<close>. Amounts are 64-bit integers, written as integers with their bound where a sum
  can leave it. The column \<^verbatim>\<open>budget_limits\<close> is given by what \<^verbatim>\<open>json.Unmarshal\<close> makes of it.
\<close>

section \<open>Periods and limits\<close>

definition budgetPeriods :: "(string \<times> duration) list" where
  "budgetPeriods = [(''hourly'', hour), (''daily'', 24 * hour), (''weekly'', 7 * 24 * hour), (''monthly'', 30 * 24 * hour)]"

definition spendLedgerRetention :: duration where "spendLedgerRetention = 35 * 24 * hour"

text \<open>The JSONB column: an object of integers and nulls, or something that does not decode as one.\<close>

datatype budget_column = NotLimits | Limits "string \<rightharpoonup> int option"

definition parseBudgetLimits :: "budget_column \<Rightarrow> string \<rightharpoonup> int" where
  "parseBudgetLimits raw =
     (case raw of
        NotLimits \<Rightarrow> Map.empty
      | Limits m \<Rightarrow> (\<lambda>p. if p \<in> fst ` set budgetPeriods
                       then (case m p of Some (Some v) \<Rightarrow> if 0 \<le> v then Some v else None | _ \<Rightarrow> None)
                       else None))"

definition encodeBudgetLimits :: "(string \<rightharpoonup> int) \<Rightarrow> budget_column" where
  "encodeBudgetLimits limits =
     Limits (\<lambda>p. if p \<in> fst ` set budgetPeriods
                  then (case limits p of Some v \<Rightarrow> if 0 \<le> v then Some (Some v) else None | None \<Rightarrow> None)
                  else None)"

section \<open>The ledger\<close>

record spend_event =
  se_workspace_id :: string
  se_delta_cents :: int
  se_occurred_at :: instant

text \<open>The faults are the INSERT and the prune, whose error is ignored. The result says whether the row is in.\<close>

definition recordSpendDelta :: "instant \<Rightarrow> faults \<Rightarrow> string \<Rightarrow> int \<Rightarrow> spend_event list \<Rightarrow> bool \<times> spend_event list" where
  "recordSpendDelta now flt workspaceID deltaCents ledger =
     (if deltaCents \<le> 0 then (True, ledger)
      else if flt 0 then (False, ledger)
      else let ledger1 = ledger @ [\<lparr>se_workspace_id = workspaceID, se_delta_cents = deltaCents, se_occurred_at = now\<rparr>]
           in (True, if flt 1 then ledger1
                     else filter (\<lambda>e. \<not> (se_workspace_id e = workspaceID \<and> se_occurred_at e < now - spendLedgerRetention)) ledger1))"

definition spend_in :: "instant \<Rightarrow> duration \<Rightarrow> string \<Rightarrow> spend_event list \<Rightarrow> int" where
  "spend_in now window workspaceID ledger =
     sum_list (map se_delta_cents (filter (\<lambda>e. se_workspace_id e = workspaceID \<and> now - window < se_occurred_at e) ledger))"

definition max_int64 :: int where "max_int64 = 9223372036854775807"

text \<open>The sums are computed without bound and fail to scan into 64 bits above it.\<close>

definition spendByPeriod :: "instant \<Rightarrow> bool \<Rightarrow> string \<Rightarrow> spend_event list \<Rightarrow> (string \<Rightarrow> int) option" where
  "spendByPeriod now fault workspaceID ledger =
     (if fault \<or> list_ex (\<lambda>(p, w). max_int64 < spend_in now w workspaceID ledger) budgetPeriods then None
      else Some (\<lambda>p. case map_of budgetPeriods p of None \<Rightarrow> 0 | Some w \<Rightarrow> spend_in now w workspaceID ledger))"

definition exceededPeriods :: "(string \<rightharpoonup> int) \<Rightarrow> (string \<Rightarrow> int) \<Rightarrow> string list" where
  "exceededPeriods limits spend =
     map fst (filter (\<lambda>(p, w). case limits p of None \<Rightarrow> False | Some limit \<Rightarrow> limit \<le> spend p) budgetPeriods)"

section \<open>Enforcement and routes\<close>

record budget_row =
  br_removed :: bool
  br_budget_limits :: budget_column
  br_budget_limit :: "int option"
  br_monthly_spend :: int

record budget_db =
  bd_workspaces :: "string \<rightharpoonup> budget_row"
  bd_ledger :: "spend_event list"

text \<open>\<^term>\<open>Some over\<close> is the 402 with the exceeded periods; everything else passes.\<close>

definition checkWorkspaceBudget :: "instant \<Rightarrow> faults \<Rightarrow> string \<Rightarrow> budget_db \<Rightarrow> string list option" where
  "checkWorkspaceBudget now flt workspaceID db =
     (case (if flt 0 then None else bd_workspaces db workspaceID) of
        None \<Rightarrow> None
      | Some row \<Rightarrow>
          let limits = parseBudgetLimits (br_budget_limits row)
          in if \<forall>p \<in> fst ` set budgetPeriods. limits p = None then None
             else case spendByPeriod now (flt 1) workspaceID (bd_ledger db) of
                    None \<Rightarrow> None
                  | Some spend \<Rightarrow>
                      let over = exceededPeriods limits spend in if over \<noteq> [] then Some over else None)"

record periodBudget =
  pb_Limit :: "int option"
  pb_Spend :: int
  pb_Remaining :: "int option"

datatype budget_reply =
    BudgetOK "(string \<times> periodBudget) list" "int option" int "int option"
  | BudgetUpdated
  | BudgetErr nat string

definition period_budget :: "(string \<rightharpoonup> int) \<Rightarrow> (string \<Rightarrow> int) \<Rightarrow> string \<Rightarrow> periodBudget" where
  "period_budget limits spend p =
     \<lparr>pb_Limit = limits p, pb_Spend = spend p, pb_Remaining = map_option (\<lambda>l. l - spend p) (limits p)\<rparr>"

definition buildBudgetResponse :: "instant \<Rightarrow> bool \<Rightarrow> string \<Rightarrow> budget_column \<Rightarrow> budget_db \<Rightarrow> budget_reply option" where
  "buildBudgetResponse now fault workspaceID limitsRaw db =
     (let limits = parseBudgetLimits limitsRaw
      in case spendByPeriod now fault workspaceID (bd_ledger db) of
           None \<Rightarrow> None
         | Some spend \<Rightarrow>
             let m = period_budget limits spend ''monthly''
             in Some (BudgetOK (map (\<lambda>(p, w). (p, period_budget limits spend p)) budgetPeriods)
                  (pb_Limit m) (spend ''monthly'') (pb_Remaining m)))"

definition GetBudget :: "instant \<Rightarrow> faults \<Rightarrow> string \<Rightarrow> budget_db \<Rightarrow> budget_reply" where
  "GetBudget now flt workspaceID db =
     (if flt 0 then BudgetErr 500 ''query failed''
      else case bd_workspaces db workspaceID of
             None \<Rightarrow> BudgetErr 404 ''workspace not found''
           | Some row \<Rightarrow>
               if br_removed row then BudgetErr 404 ''workspace not found''
               else case buildBudgetResponse now (flt 1) workspaceID (br_budget_limits row) db of
                      None \<Rightarrow> BudgetErr 500 ''query failed''
                    | Some resp \<Rightarrow> resp)"

text \<open>
  The body: whether each field is there and what it decodes to (\<^term>\<open>None\<close> when it does not). The
  periods of the multi-period shape come in the order in which the map is iterated.
\<close>

record patch_body =
  pa_budget_limits :: "(string \<times> int option) list option option"
  pa_budget_limit :: "int option option option"

fun collect_limits :: "(string \<times> int option) list \<Rightarrow> (string \<rightharpoonup> int) \<Rightarrow> string + (string \<rightharpoonup> int)" where
  "collect_limits [] limits = Inr limits"
| "collect_limits ((k, v) # m) limits =
     (if k \<notin> fst ` set budgetPeriods
      then Inl (''unknown budget period: '' @ k @ '' (allowed: hourly, daily, weekly, monthly)'')
      else case v of
             None \<Rightarrow> collect_limits m limits
           | Some n \<Rightarrow> if n < 0 then Inl (''budget limit for '' @ k @ '' must be >= 0 (USD cents)'')
                        else collect_limits m (limits(k \<mapsto> n)))"

definition patch_limits :: "patch_body \<Rightarrow> string + (string \<rightharpoonup> int)" where
  "patch_limits body =
     (case pa_budget_limits body of
        Some None \<Rightarrow> Inl ''budget_limits must be an object of period->int|null''
      | Some (Some m) \<Rightarrow> collect_limits m Map.empty
      | None \<Rightarrow>
          (case pa_budget_limit body of
             None \<Rightarrow> Inl ''budget_limits or budget_limit field is required''
           | Some None \<Rightarrow> Inl ''budget_limit must be an integer (USD cents) or null''
           | Some (Some None) \<Rightarrow> Inr Map.empty
           | Some (Some (Some v)) \<Rightarrow>
               if v < 0 then Inl ''budget_limit must be >= 0 (USD cents)'' else Inr [''monthly'' \<mapsto> v]))"

definition PatchBudget :: "instant \<Rightarrow> faults \<Rightarrow> string \<Rightarrow> patch_body option \<Rightarrow> budget_db \<Rightarrow> budget_reply \<times> budget_db" where
  "PatchBudget now flt workspaceID body db =
     (case body of
        None \<Rightarrow> (BudgetErr 400 ''invalid request body'', db)
      | Some b \<Rightarrow>
          (case patch_limits b of
             Inl msg \<Rightarrow> (BudgetErr 400 msg, db)
           | Inr limits \<Rightarrow>
               (case (if flt 0 then None else bd_workspaces db workspaceID) of
                  None \<Rightarrow> (BudgetErr 404 ''workspace not found'', db)
                | Some row \<Rightarrow>
                    if br_removed row then (BudgetErr 404 ''workspace not found'', db)
                    else if flt 1 then (BudgetErr 500 ''update failed'', db)
                    else let encoded = encodeBudgetLimits limits;
                             db' = db\<lparr>bd_workspaces := (bd_workspaces db)(workspaceID \<mapsto>
                                     row\<lparr>br_budget_limits := encoded, br_budget_limit := limits ''monthly''\<rparr>)\<rparr>
                         in (case buildBudgetResponse now (flt 2) workspaceID encoded db' of
                               None \<Rightarrow> (BudgetUpdated, db')
                             | Some resp \<Rightarrow> (resp, db')))))"

section \<open>Spend reported by heartbeats\<close>

definition maxMonthlySpend :: int where "maxMonthlySpend = 1000000000000"

definition clamp_spend :: "int \<Rightarrow> int" where
  "clamp_spend n = (if n < 0 then 0 else if maxMonthlySpend < n then maxMonthlySpend else n)"

definition spend_delta :: "int \<Rightarrow> int \<Rightarrow> int" where
  "spend_delta spend prev = (if spend - prev < 0 then spend else spend - prev)"

text \<open>
  The spend statements of one heartbeat: the read of the last figure (zero when it fails or there is
  no row), the ledger, and the UPDATE of the figure.
\<close>

definition heartbeat_spend :: "instant \<Rightarrow> faults \<Rightarrow> string \<Rightarrow> int \<Rightarrow> budget_db \<Rightarrow> budget_db" where
  "heartbeat_spend now flt workspaceID reported db =
     (let prev = (case (if flt 0 then None else bd_workspaces db workspaceID) of None \<Rightarrow> 0 | Some row \<Rightarrow> br_monthly_spend row);
          spend = clamp_spend reported
      in if spend = 0 then db
         else let ledger = snd (recordSpendDelta now (\<lambda>i. flt (i + 1)) workspaceID (spend_delta spend prev) (bd_ledger db));
                  db1 = db\<lparr>bd_ledger := ledger\<rparr>
              in (case (if flt 3 then None else bd_workspaces db1 workspaceID) of
                    None \<Rightarrow> db1
                  | Some row \<Rightarrow>
                      if br_removed row then db1
                      else db1\<lparr>bd_workspaces := (bd_workspaces db1)(workspaceID \<mapsto> row\<lparr>br_monthly_spend := spend\<rparr>)\<rparr>))"

section \<open>Limits survive storage\<close>

definition limits_ok :: "(string \<rightharpoonup> int) \<Rightarrow> bool" where
  "limits_ok limits \<longleftrightarrow> (\<forall>p v. limits p = Some v \<longrightarrow> p \<in> fst ` set budgetPeriods \<and> 0 \<le> v)"

lemma limits_ok_empty [simp]: "limits_ok Map.empty"
  by (simp add: limits_ok_def)

lemma limits_ok_update: "limits_ok limits \<Longrightarrow> k \<in> fst ` set budgetPeriods \<Longrightarrow> 0 \<le> n \<Longrightarrow> limits_ok (limits(k \<mapsto> n))"
  by (simp add: limits_ok_def)

lemma parse_encode:
  assumes "limits_ok limits"
  shows "parseBudgetLimits (encodeBudgetLimits limits) = limits"
proof
  fix p show "parseBudgetLimits (encodeBudgetLimits limits) p = limits p"
    using assms by (cases "limits p") (simp_all add: parseBudgetLimits_def encodeBudgetLimits_def limits_ok_def)
qed

lemma collect_limits_ok: "collect_limits m limits = Inr limits' \<Longrightarrow> limits_ok limits \<Longrightarrow> limits_ok limits'"
proof (induction m limits rule: collect_limits.induct)
  case (2 k v m limits)
  have known: "k \<in> fst ` set budgetPeriods" using "2.prems"(1) by (simp split: if_splits)
  show ?case
  proof (cases v)
    case None
    then show ?thesis using 2 known by simp
  next
    case (Some n)
    then have n: "0 \<le> n" using "2.prems"(1) known by (simp split: if_splits)
    then have "collect_limits m (limits(k \<mapsto> n)) = Inr limits'" using "2.prems"(1) known Some by simp
    moreover have "\<not> n < 0" using n by simp
    ultimately show ?thesis using "2.IH"(2) [of n] known Some limits_ok_update [OF "2.prems"(2) known n] by metis
  qed
qed simp

lemma patch_limits_ok:
  assumes "patch_limits b = Inr limits"
  shows "limits_ok limits"
proof -
  have "''monthly'' \<in> fst ` set budgetPeriods" by (simp add: budgetPeriods_def)
  note one = limits_ok_update [OF limits_ok_empty this]
  show ?thesis
    using assms collect_limits_ok [of _ Map.empty limits] one
    by (auto simp: patch_limits_def split: option.splits if_splits)
qed

text \<open>Budget limits that are set are the limits that are shown and enforced: after a successful PATCH with
  a multi-period body the GET shows for each of the four periods exactly the limit of the body,
  none where the body has null or nothing, with zero kept as a limit, and the legacy column holds
  the monthly one; a rejected PATCH changes nothing.\<close>

theorem budget_patch_roundtrip:
  assumes "PatchBudget now flt ws (Some b) db = (reply, db')" "patch_limits b = Inr limits"
    and "bd_workspaces db ws = Some row" "\<not> br_removed row" "\<not> flt 0" "\<not> flt 1"
    and "spendByPeriod now' False ws (bd_ledger db) = Some spend" "\<not> gflt 0" "\<not> gflt 1"
  shows "GetBudget now' gflt ws db' =
      BudgetOK (map (\<lambda>(p, w). (p, period_budget limits spend p)) budgetPeriods)
        (limits ''monthly'') (spend ''monthly'') (map_option (\<lambda>l. l - spend ''monthly'') (limits ''monthly'')) \<and>
    map_option br_budget_limit (bd_workspaces db' ws) = Some (limits ''monthly'') \<and> bd_ledger db' = bd_ledger db \<and>
    (\<forall>other msg. patch_limits other = Inl msg \<longrightarrow> PatchBudget now flt ws (Some other) db = (BudgetErr 400 msg, db))"
proof -
  define row' where "row' = row\<lparr>br_budget_limits := encodeBudgetLimits limits, br_budget_limit := limits ''monthly''\<rparr>"
  have db': "db' = db\<lparr>bd_workspaces := (bd_workspaces db)(ws \<mapsto> row')\<rparr>"
    using assms(1-6) by (auto simp: PatchBudget_def Let_def row'_def split: option.splits)
  have "parseBudgetLimits (encodeBudgetLimits limits) = limits" by (rule parse_encode [OF patch_limits_ok [OF assms(2)]])
  then show ?thesis using assms(4,7-9)
    by (simp add: db' row'_def GetBudget_def buildBudgetResponse_def Let_def period_budget_def PatchBudget_def)
qed

definition demo_budget_db :: budget_db where
  "demo_budget_db = \<lparr>bd_workspaces = [''w'' \<mapsto> \<lparr>br_removed = False, br_budget_limits = Limits Map.empty, br_budget_limit = None,
     br_monthly_spend = 0\<rparr>], bd_ledger = [\<lparr>se_workspace_id = ''w'', se_delta_cents = 70, se_occurred_at = 5\<rparr>]\<rparr>"

definition demo_patch :: patch_body where
  "demo_patch = \<lparr>pa_budget_limits = Some (Some [(''daily'', Some 0), (''weekly'', None), (''monthly'', Some 500)]), pa_budget_limit = None\<rparr>"

theorem budget_patch_roundtrip_witness:
  "(case GetBudget 10 no_faults ''w'' (snd (PatchBudget 9 no_faults ''w'' (Some demo_patch) demo_budget_db)) of
      BudgetOK ps l s r \<Rightarrow> map (\<lambda>(p, b). (p, pb_Limit b)) ps = [(''hourly'', None), (''daily'', Some 0), (''weekly'', None), (''monthly'', Some 500)] \<and>
        l = Some 500 \<and> s = 70 \<and> r = Some 430
    | _ \<Rightarrow> False)"
proof -
  obtain reply db' where p: "PatchBudget 9 no_faults ''w'' (Some demo_patch) demo_budget_db = (reply, db')" by (rule prod.exhaust)
  have l: "patch_limits demo_patch = Inr [''daily'' \<mapsto> 0, ''monthly'' \<mapsto> 500]"
    by (simp add: patch_limits_def demo_patch_def budgetPeriods_def)
  have r: "bd_workspaces demo_budget_db ''w'' = Some \<lparr>br_removed = False, br_budget_limits = Limits Map.empty, br_budget_limit = None,
     br_monthly_spend = 0\<rparr>" by (simp add: demo_budget_db_def)
  define spend where "spend = the (spendByPeriod 10 False ''w'' (bd_ledger demo_budget_db))"
  have s: "spendByPeriod 10 False ''w'' (bd_ledger demo_budget_db) = Some spend" "spend ''monthly'' = 70"
    by (simp_all add: spend_def spendByPeriod_def spend_in_def demo_budget_db_def budgetPeriods_def max_int64_def duration_defs)
  show ?thesis
    using budget_patch_roundtrip [OF p l r _ _ _ s(1), of no_faults] p s(2) by (simp add: budgetPeriods_def period_budget_def)
qed

section \<open>Rolling spend over the whole history\<close>

text \<open>Every increment ever recorded, which the ledger prunes.\<close>

datatype spend_op = SpendOp instant faults string int

fun spend_time :: "spend_op \<Rightarrow> instant" where "spend_time (SpendOp now flt ws d) = now"

fun spend_step :: "spend_event list \<times> spend_event list \<Rightarrow> spend_op \<Rightarrow> spend_event list \<times> spend_event list" where
  "spend_step (ledger, hist) (SpendOp now flt ws d) =
     (snd (recordSpendDelta now flt ws d ledger),
      if 0 < d \<and> \<not> flt 0 then hist @ [\<lparr>se_workspace_id = ws, se_delta_cents = d, se_occurred_at = now\<rparr>] else hist)"

definition recent :: "instant \<Rightarrow> string \<Rightarrow> spend_event list \<Rightarrow> spend_event list" where
  "recent x ws evs = filter (\<lambda>e. se_workspace_id e = ws \<and> x < se_occurred_at e) evs"

definition same_recent :: "instant \<Rightarrow> spend_event list \<times> spend_event list \<Rightarrow> bool" where
  "same_recent t = (\<lambda>(ledger, hist). \<forall>ws x. t - spendLedgerRetention \<le> x \<longrightarrow> recent x ws ledger = recent x ws hist)"

lemma recent_prune:
  "b \<le> x \<Longrightarrow> recent x ws (filter (\<lambda>e. \<not> (se_workspace_id e = v \<and> se_occurred_at e < b)) evs) = recent x ws evs"
  unfolding recent_def filter_filter by (rule filter_cong) auto

lemma same_recent_step:
  assumes "same_recent t s" "t \<le> spend_time op"
  shows "same_recent (spend_time op) (spend_step s op)"
proof (cases s)
  case (Pair ledger hist)
  obtain now flt v d where op: "op = SpendOp now flt v d" by (cases op)
  define e where "e = \<lparr>se_workspace_id = v, se_delta_cents = d, se_occurred_at = now\<rparr>"
  have "recent x ws (snd (recordSpendDelta now flt v d ledger)) = recent x ws (if 0 < d \<and> \<not> flt 0 then hist @ [e] else hist)"
    if x: "now - spendLedgerRetention \<le> x" for ws x
  proof -
    have old: "recent x ws ledger = recent x ws hist"
      using assms x by (simp add: same_recent_def Pair op)
    then have "recent x ws (ledger @ [e]) = recent x ws (hist @ [e])" by (simp add: recent_def)
    with old recent_prune [OF x, of ws v "ledger @ [e]"] show ?thesis by (auto simp: recordSpendDelta_def Let_def e_def)
  qed
  then show ?thesis by (simp add: same_recent_def Pair op e_def)
qed

lemma same_recent_run:
  "same_recent t s \<Longrightarrow> clock_from spend_time t ops \<Longrightarrow> same_recent (last_time spend_time t ops) (foldl spend_step s ops)"
proof (induction ops arbitrary: t s)
  case (Cons op ops)
  then have t: "t \<le> spend_time op" and c: "clock_from spend_time (spend_time op) ops" by simp_all
  show ?case using Cons.IH [OF same_recent_step [OF Cons.prems(1) t] c] by (simp del: spend_step.simps)
qed simp

lemma spend_in_recent: "spend_in now w ws evs = sum_list (map se_delta_cents (recent (now - w) ws evs))"
  by (simp add: spend_in_def recent_def)

lemma window_retained: "(p, w) \<in> set budgetPeriods \<Longrightarrow> w \<le> spendLedgerRetention"
  by (auto simp: budgetPeriods_def spendLedgerRetention_def duration_defs)

lemma spend_in_history:
  assumes "same_recent t (ledger, hist)" "t \<le> now" "(p, w) \<in> set budgetPeriods"
  shows "spend_in now w ws ledger = spend_in now w ws hist"
  using assms window_retained [OF assms(3)] unfolding spend_in_recent same_recent_def by simp

text \<open>C32: The budget check decides by the whole spending history. However the ledger has been pruned, after any
  clock-ordered recording of increments a call to a workspace with limits is refused exactly when
  in some period the increments ever recorded for it within the rolling window reach the limit,
  and the answer names exactly those periods.\<close>

theorem budget_enforced:
  assumes "clock_from spend_time t0 ops" "(bd_ledger db, hist) = foldl spend_step ([], []) ops" "last_time spend_time t0 ops \<le> now"
    and "bd_workspaces db ws = Some row" "limits = parseBudgetLimits (br_budget_limits row)" "\<not> flt 0" "\<not> flt 1"
    and "\<forall>(p, w) \<in> set budgetPeriods. spend_in now w ws hist \<le> max_int64"
    and "over = map fst (filter (\<lambda>(p, w). case limits p of None \<Rightarrow> False | Some l \<Rightarrow> l \<le> spend_in now w ws hist) budgetPeriods)"
  shows "checkWorkspaceBudget now flt ws db = (if over = [] then None else Some over)"
proof -
  have "same_recent t0 ([], [])" by (simp add: same_recent_def)
  from same_recent_run [OF this assms(1)] have r: "same_recent (last_time spend_time t0 ops) (bd_ledger db, hist)"
    by (simp add: assms(2))
  have h: "spend_in now w ws (bd_ledger db) = spend_in now w ws hist" if "(p, w) \<in> set budgetPeriods" for p w
    by (rule spend_in_history [OF r assms(3) that])
  have m: "map_of budgetPeriods p = Some w" if "(p, w) \<in> set budgetPeriods" for p w
    using that by (simp add: budgetPeriods_def) auto
  define spend where "spend = (\<lambda>p. case map_of budgetPeriods p of None \<Rightarrow> 0 | Some w \<Rightarrow> spend_in now w ws (bd_ledger db))"
  have "\<not> list_ex (\<lambda>(p, w). max_int64 < spend_in now w ws (bd_ledger db)) budgetPeriods"
  proof
    assume "list_ex (\<lambda>(p, w). max_int64 < spend_in now w ws (bd_ledger db)) budgetPeriods"
    then obtain p w where pw: "(p, w) \<in> set budgetPeriods" "max_int64 < spend_in now w ws (bd_ledger db)"
      unfolding list_ex_iff by blast
    then show False using bspec [OF assms(8) pw(1)] h [OF pw(1)] by simp
  qed
  then have s: "spendByPeriod now False ws (bd_ledger db) = Some spend" unfolding spendByPeriod_def spend_def by simp
  have sp: "spend p = spend_in now w ws hist" if "(p, w) \<in> set budgetPeriods" for p w
    using m [OF that] h [OF that] by (simp add: spend_def)
  have o: "exceededPeriods limits spend = over"
    unfolding exceededPeriods_def assms(9) by (rule arg_cong [of _ _ "map fst"], rule filter_cong) (auto simp: sp split: option.splits)
  have n: "over = []" if "\<forall>p \<in> fst ` set budgetPeriods. limits p = None"
    using that unfolding assms(9) by (auto simp: filter_empty_conv split: option.splits)
  show ?thesis
    using assms(4,6,7) s o n by (simp add: checkWorkspaceBudget_def Let_def assms(5) [symmetric])
qed

definition demo_spend_ops :: "spend_op list" where
  "demo_spend_ops = [SpendOp 0 no_faults ''w'' 40, SpendOp (36 * 24 * hour) no_faults ''w'' 30, SpendOp (36 * 24 * hour + 1) no_faults ''w'' 25]"

definition demo_spent_db :: budget_db where
  "demo_spent_db = \<lparr>bd_workspaces = [''w'' \<mapsto> \<lparr>br_removed = False, br_budget_limits = Limits [''hourly'' \<mapsto> Some 50, ''daily'' \<mapsto> Some 60,
     ''monthly'' \<mapsto> Some 0], br_budget_limit = Some 0, br_monthly_spend = 0\<rparr>],
     bd_ledger = fst (foldl spend_step ([], []) demo_spend_ops)\<rparr>"

theorem budget_enforced_witness:
  "length (bd_ledger demo_spent_db) = 2 \<and>
   checkWorkspaceBudget (36 * 24 * hour + 2) no_faults ''w'' demo_spent_db = Some [''hourly'', ''monthly'']"
proof -
  define hist where "hist = snd (foldl spend_step ([], []) demo_spend_ops)"
  have run: "foldl spend_step ([], []) demo_spend_ops =
      ([\<lparr>se_workspace_id = ''w'', se_delta_cents = 30, se_occurred_at = 36 * 24 * hour\<rparr>,
        \<lparr>se_workspace_id = ''w'', se_delta_cents = 25, se_occurred_at = 36 * 24 * hour + 1\<rparr>],
       [\<lparr>se_workspace_id = ''w'', se_delta_cents = 40, se_occurred_at = 0\<rparr>,
        \<lparr>se_workspace_id = ''w'', se_delta_cents = 30, se_occurred_at = 36 * 24 * hour\<rparr>,
        \<lparr>se_workspace_id = ''w'', se_delta_cents = 25, se_occurred_at = 36 * 24 * hour + 1\<rparr>])"
    by (simp add: demo_spend_ops_def recordSpendDelta_def spendLedgerRetention_def duration_defs)
  have l: "(bd_ledger demo_spent_db, hist) = foldl spend_step ([], []) demo_spend_ops" by (simp add: demo_spent_db_def hist_def)
  have c: "clock_from spend_time 0 demo_spend_ops" "last_time spend_time 0 demo_spend_ops \<le> 36 * 24 * hour + 2"
    by (simp_all add: demo_spend_ops_def duration_defs)
  obtain row where row: "bd_workspaces demo_spent_db ''w'' = Some row"
    "br_budget_limits row = Limits [''hourly'' \<mapsto> Some 50, ''daily'' \<mapsto> Some 60, ''monthly'' \<mapsto> Some 0]"
    by (simp add: demo_spent_db_def)
  have lim: "parseBudgetLimits (br_budget_limits row) = [''hourly'' \<mapsto> 50, ''daily'' \<mapsto> 60, ''monthly'' \<mapsto> 0]"
    by (auto simp: row(2) parseBudgetLimits_def budgetPeriods_def)
  have h: "hist = [\<lparr>se_workspace_id = ''w'', se_delta_cents = 40, se_occurred_at = 0\<rparr>,
        \<lparr>se_workspace_id = ''w'', se_delta_cents = 30, se_occurred_at = 36 * 24 * hour\<rparr>,
        \<lparr>se_workspace_id = ''w'', se_delta_cents = 25, se_occurred_at = 36 * 24 * hour + 1\<rparr>]"
    by (simp add: hist_def run)
  have b: "\<forall>(p, w) \<in> set budgetPeriods. spend_in (36 * 24 * hour + 2) w ''w'' hist \<le> max_int64"
    by (simp add: h spend_in_def budgetPeriods_def max_int64_def duration_defs)
  have "checkWorkspaceBudget (36 * 24 * hour + 2) no_faults ''w'' demo_spent_db = Some [''hourly'', ''monthly'']"
    using budget_enforced [OF c(1) l c(2) row(1) refl _ _ b refl, of no_faults]
    by (simp add: lim h spend_in_def budgetPeriods_def duration_defs)
  moreover have "length (bd_ledger demo_spent_db) = 2" by (simp add: demo_spent_db_def run)
  ultimately show ?thesis by blast
qed

section \<open>What heartbeats record\<close>

definition recorded :: "string \<Rightarrow> spend_event list \<Rightarrow> int" where
  "recorded ws evs = sum_list (map se_delta_cents (filter (\<lambda>e. se_workspace_id e = ws) evs))"

text \<open>Without faults and within the retention, one report moves the figure and records the difference.\<close>

lemma heartbeat_spend_one:
  assumes "bd_workspaces db ws = Some row" "\<not> br_removed row" "0 < n" "n \<le> maxMonthlySpend"
    and "\<And>i. \<not> flt i" "\<And>e. e \<in> set (bd_ledger db) \<Longrightarrow> now - spendLedgerRetention \<le> se_occurred_at e"
  shows "bd_workspaces (heartbeat_spend now flt ws n db) ws = Some (row\<lparr>br_monthly_spend := n\<rparr>)"
    "recorded ws (bd_ledger (heartbeat_spend now flt ws n db)) =
      recorded ws (bd_ledger db) + (if n < br_monthly_spend row then n else n - br_monthly_spend row)"
proof -
  define d where "d = spend_delta n (br_monthly_spend row)"
  have c: "clamp_spend n = n" "n \<noteq> 0" using assms(3,4) by (auto simp: clamp_spend_def)
  define e where "e = \<lparr>se_workspace_id = ws, se_delta_cents = d, se_occurred_at = now\<rparr>"
  have keep: "filter (\<lambda>x. \<not> (se_workspace_id x = ws \<and> se_occurred_at x < now - spendLedgerRetention)) (bd_ledger db @ [e]) = bd_ledger db @ [e]"
  proof (rule filter_True, rule ballI)
    fix x assume "x \<in> set (bd_ledger db @ [e])"
    then consider "x \<in> set (bd_ledger db)" | "x = e" by auto
    then have "now - spendLedgerRetention \<le> se_occurred_at x"
      by cases (use assms(6) in \<open>auto simp: e_def spendLedgerRetention_def duration_defs\<close>)
    then show "\<not> (se_workspace_id x = ws \<and> se_occurred_at x < now - spendLedgerRetention)" by simp
  qed
  have "snd (recordSpendDelta now (\<lambda>i. flt (i + 1)) ws d (bd_ledger db)) = (if d \<le> 0 then bd_ledger db else bd_ledger db @ [e])"
    using assms(5) keep by (simp add: recordSpendDelta_def Let_def e_def)
  moreover have "d \<le> 0 \<Longrightarrow> d = 0" "d = (if n < br_monthly_spend row then n else n - br_monthly_spend row)"
    using assms(3) by (auto simp: d_def spend_delta_def)
  ultimately show "bd_workspaces (heartbeat_spend now flt ws n db) ws = Some (row\<lparr>br_monthly_spend := n\<rparr>)"
    "recorded ws (bd_ledger (heartbeat_spend now flt ws n db)) =
      recorded ws (bd_ledger db) + (if n < br_monthly_spend row then n else n - br_monthly_spend row)"
    using assms(1,2,5) c by (auto simp: heartbeat_spend_def Let_def d_def [symmetric] recorded_def e_def)
qed

text \<open>
  When the read of the last figure fails, it counts as zero and the whole cumulative figure is
  recorded as one increment.
\<close>

lemma heartbeat_spend_read_fault:
  assumes "flt 0" "\<not> flt 1" "flt 2" "0 < n" "n \<le> maxMonthlySpend"
  shows "recorded ws (bd_ledger (heartbeat_spend now flt ws n db)) = recorded ws (bd_ledger db) + n"
  using assms
  by (auto simp: heartbeat_spend_def Let_def clamp_spend_def spend_delta_def recordSpendDelta_def recorded_def numeral_2_eq_2
      split: option.splits if_splits)

end
