(* ===== verification/Workspace_Lifecycle.thy ===== *)
theory Workspace_Lifecycle
  imports Complex_Main Auth_Tokens
begin

text \<open>
  The life of a workspace row: \<^verbatim>\<open>internal/models/workspace_status.go\<close>, the heartbeat half of
  \<^verbatim>\<open>internal/handlers/registry.go\<close>, the monitors of \<^verbatim>\<open>internal/registry\<close> (\<^verbatim>\<open>liveness.go\<close>, \<^verbatim>\<open>healthsweep.go\<close>, \<^verbatim>\<open>hibernation.go\<close>,
  \<^verbatim>\<open>provisiontimeout.go\<close>, \<^verbatim>\<open>wedged_agent.go\<close>, \<^verbatim>\<open>cp_instance_reconciler.go\<close>, \<^verbatim>\<open>cp_orphan_sweeper.go\<close>) and the status
  writes of \<^verbatim>\<open>workspace_restart.go\<close>. Each UPDATE is a definition of its own, so that the handlers compose
  them in sequence and the interleavings of several callers are sequences of the same
  definitions. Container and instance probes, event delivery and Redis are arguments or left out.
\<close>

section \<open>Statuses and the table\<close>

datatype WorkspaceStatus =
    StatusProvisioning | StatusOnline | StatusOffline | StatusDegraded | StatusFailed
  | StatusRemoved | StatusPaused | StatusHibernated | StatusHibernating | StatusAwaitingAgent

definition AllWorkspaceStatuses :: "WorkspaceStatus list" where
  "AllWorkspaceStatuses = [StatusProvisioning, StatusOnline, StatusOffline, StatusDegraded, StatusFailed,
     StatusRemoved, StatusPaused, StatusHibernated, StatusHibernating, StatusAwaitingAgent]"

fun status_string :: "WorkspaceStatus \<Rightarrow> string" where
  "status_string StatusProvisioning = ''provisioning''"
| "status_string StatusOnline = ''online''"
| "status_string StatusOffline = ''offline''"
| "status_string StatusDegraded = ''degraded''"
| "status_string StatusFailed = ''failed''"
| "status_string StatusRemoved = ''removed''"
| "status_string StatusPaused = ''paused''"
| "status_string StatusHibernated = ''hibernated''"
| "status_string StatusHibernating = ''hibernating''"
| "status_string StatusAwaitingAgent = ''awaiting_agent''"

record life_row =
  w_id :: string
  w_name :: string
  w_status :: WorkspaceStatus
  w_kind :: string
  w_parent_id :: "string option"
  w_runtime :: "string option"
  w_template :: "string option"
  w_instance_id :: "string option"
  w_url :: "string option"
  w_agent_card :: "string option"
  w_delivery_mode :: "string option"
  w_updated_at :: instant
  w_last_heartbeat_at :: "instant option"
  w_last_outbound_at :: "instant option"
  w_last_error_rate :: "rat option"
  w_last_sample_error :: "string option"
  w_active_tasks :: int
  w_uptime_seconds :: "int option"
  w_current_task :: "string option"
  w_max_concurrent_tasks :: "int option"
  w_hibernation_idle_minutes :: "int option"
  w_last_register_failure_at :: "instant option"
  w_mcp_unloaded_since :: "instant option"

definition find_ws :: "string \<Rightarrow> life_row list \<Rightarrow> life_row option" where
  "find_ws i rows = select_first (\<lambda>r. w_id r = i) rows"

definition status_of :: "string \<Rightarrow> life_row list \<Rightarrow> WorkspaceStatus option" where
  "status_of i rows = map_option w_status (find_ws i rows)"

definition KindPlatform :: string where "KindPlatform = ''platform''"

definition externalLikeRuntimes :: "string list" where
  "externalLikeRuntimes = [''external'', ''kimi'', ''kimi-cli'']"

definition isExternalLikeRuntime :: "string \<Rightarrow> bool" where
  "isExternalLikeRuntime runtime \<longleftrightarrow> runtime \<in> set externalLikeRuntimes"

text \<open>\<^verbatim>\<open>UPDATE workspaces SET status = ..., updated_at = now() WHERE id = ... AND <guard>\<close>\<close>

definition set_status :: "instant \<Rightarrow> string \<Rightarrow> (life_row \<Rightarrow> bool) \<Rightarrow> WorkspaceStatus \<Rightarrow> life_row list \<Rightarrow> life_row list" where
  "set_status now i guard st rows =
     update_where (\<lambda>r. w_id r = i \<and> guard r) (\<lambda>r. r\<lparr>w_status := st, w_updated_at := now\<rparr>) rows"

section \<open>Statements of the registry handlers\<close>

text \<open>
  The error rate is a \<^verbatim>\<open>float64\<close> read from JSON, which has no infinities and no NaN, and thus a rational. The code
  compares it with the float nearest to 0.1; no float lies between that and a tenth, so that comparing with a tenth is the same.
\<close>

record HeartbeatPayload =
  hp_WorkspaceID :: string
  hp_ErrorRate :: rat
  hp_SampleError :: string
  hp_ActiveTasks :: int
  hp_UptimeSeconds :: int
  hp_CurrentTask :: string
  hp_RuntimeState :: string
  hp_AgentCard :: string
  hp_MCPServerPresent :: "bool option"
  hp_LoadedMCPTools :: "string list option"

definition heartbeat_update :: "instant \<Rightarrow> HeartbeatPayload \<Rightarrow> life_row list \<Rightarrow> life_row list" where
  "heartbeat_update now p rows =
     update_where (\<lambda>r. w_id r = hp_WorkspaceID p \<and> w_status r \<noteq> StatusRemoved)
       (\<lambda>r. r\<lparr>w_last_heartbeat_at := Some now, w_last_error_rate := Some (hp_ErrorRate p), w_last_sample_error := Some (hp_SampleError p),
              w_active_tasks := hp_ActiveTasks p, w_uptime_seconds := Some (hp_UptimeSeconds p), w_current_task := Some (hp_CurrentTask p),
              w_status := (if w_status r = StatusProvisioning then StatusOnline else w_status r), w_updated_at := now\<rparr>) rows"

definition backfill_card :: "HeartbeatPayload \<Rightarrow> life_row list \<Rightarrow> life_row list" where
  "backfill_card p rows = update_where (\<lambda>r. w_id r = hp_WorkspaceID p \<and> w_agent_card r = None)
     (\<lambda>r. r\<lparr>w_agent_card := Some (hp_AgentCard p)\<rparr>) rows"

definition clear_register_failure :: "string \<Rightarrow> life_row list \<Rightarrow> life_row list" where
  "clear_register_failure i rows = update_where (\<lambda>r. w_id r = i \<and> w_last_register_failure_at r \<noteq> None)
     (\<lambda>r. r\<lparr>w_last_register_failure_at := None\<rparr>) rows"

definition degrade_online :: "instant \<Rightarrow> string \<Rightarrow> life_row list \<Rightarrow> life_row list" where
  "degrade_online now i rows = set_status now i (\<lambda>r. w_status r = StatusOnline) StatusDegraded rows"

definition degrade_with_error :: "instant \<Rightarrow> string \<Rightarrow> string \<Rightarrow> life_row list \<Rightarrow> life_row list" where
  "degrade_with_error now i msg rows = update_where (\<lambda>r. w_id r = i \<and> w_status r = StatusOnline)
     (\<lambda>r. r\<lparr>w_status := StatusDegraded, w_last_sample_error := Some msg, w_updated_at := now\<rparr>) rows"

definition recover_from :: "instant \<Rightarrow> string \<Rightarrow> WorkspaceStatus \<Rightarrow> life_row list \<Rightarrow> life_row list" where
  "recover_from now i from_status rows = set_status now i (\<lambda>r. w_status r = from_status) StatusOnline rows"

definition stamp_unloaded :: "instant \<Rightarrow> string \<Rightarrow> life_row list \<Rightarrow> life_row list" where
  "stamp_unloaded now i rows = update_where (\<lambda>r. w_id r = i)
     (\<lambda>r. r\<lparr>w_mcp_unloaded_since := coalesce (w_mcp_unloaded_since r) (Some now), w_updated_at := now\<rparr>) rows"

definition clear_unloaded :: "instant \<Rightarrow> string \<Rightarrow> life_row list \<Rightarrow> life_row list" where
  "clear_unloaded now i rows = update_where (\<lambda>r. w_id r = i \<and> w_mcp_unloaded_since r \<noteq> None)
     (\<lambda>r. r\<lparr>w_mcp_unloaded_since := None, w_updated_at := now\<rparr>) rows"

text \<open>This one has no condition on the status.\<close>

definition mark_failed_update :: "instant \<Rightarrow> string \<Rightarrow> string \<Rightarrow> life_row list \<Rightarrow> life_row list" where
  "mark_failed_update now i msg rows = update_where (\<lambda>r. w_id r = i)
     (\<lambda>r. r\<lparr>w_status := StatusFailed, w_last_sample_error := Some msg, w_updated_at := now\<rparr>) rows"

text \<open>
  The upsert of a registration: an existing row that is not removed goes online, a missing one is
  inserted. The CASE on the stored URL keeps the one the provisioner set: a local host with a
  numeric port at the end, other than 8000. A number beyond 32 bits makes the cast, and with it the
  statement, fail; the key is unique, so that only the row itself stays as it was.
\<close>

definition local_port :: "string option \<Rightarrow> int option" where
  "local_port stored =
     (case stored of
        None \<Rightarrow> None
      | Some u \<Rightarrow> if has_prefix ''http://127.0.0.1:'' u \<or> has_prefix ''http://localhost:'' u
                  then parse_unsigned (last (split_on (CHR '':'') u)) else None)"

definition keeps_url :: "string option \<Rightarrow> bool" where
  "keeps_url stored = (case local_port stored of None \<Rightarrow> False | Some n \<Rightarrow> n \<noteq> 8000)"

definition cast_fails :: "string option \<Rightarrow> bool" where
  "cast_fails stored = (case local_port stored of None \<Rightarrow> False | Some n \<Rightarrow> 2 ^ 31 \<le> n)"

definition register_upsert ::
  "instant \<Rightarrow> string \<Rightarrow> string option \<Rightarrow> string \<Rightarrow> string \<Rightarrow> string \<Rightarrow> life_row list \<Rightarrow> life_row list" where
  "register_upsert now i url agentCard mode kind rows =
     (if i \<in> w_id ` set rows
      then update_where (\<lambda>r. w_id r = i \<and> w_status r \<noteq> StatusRemoved \<and> \<not> cast_fails (w_url r))
             (\<lambda>r. r\<lparr>w_url := (if keeps_url (w_url r) then w_url r else url), w_agent_card := Some agentCard, w_status := StatusOnline,
                    w_last_heartbeat_at := Some now, w_delivery_mode := Some mode,
                    w_kind := (if kind = [] then w_kind r else kind), w_updated_at := now\<rparr>) rows
      else rows @ [\<lparr>w_id = i, w_name = i, w_status = StatusOnline, w_kind = (if kind = [] then ''workspace'' else kind), w_parent_id = None, w_runtime = None, w_template = None,
             w_instance_id = None, w_url = url, w_agent_card = Some agentCard, w_delivery_mode = Some mode, w_updated_at = now,
             w_last_heartbeat_at = Some now, w_last_outbound_at = None, w_last_error_rate = Some 0, w_last_sample_error = None, w_active_tasks = 0,
             w_uptime_seconds = Some 0, w_current_task = None, w_max_concurrent_tasks = Some 1, w_hibernation_idle_minutes = None,
             w_last_register_failure_at = None, w_mcp_unloaded_since = None\<rparr>])"

section \<open>Statements of the monitors and of the lifecycle routes\<close>

text \<open>\<^verbatim>\<open>sweepOnlineWorkspaces\<close>, \<^verbatim>\<open>sweepStaleRemoteWorkspaces\<close> and \<^verbatim>\<open>StartLivenessMonitor\<close>\<close>

definition container_gone :: "instant \<Rightarrow> string \<Rightarrow> life_row list \<Rightarrow> life_row list" where
  "container_gone now i rows = set_status now i (\<lambda>r. w_status r \<notin> {StatusRemoved, StatusProvisioning}) StatusOffline rows"

definition remote_stale :: "instant \<Rightarrow> string \<Rightarrow> life_row list \<Rightarrow> life_row list" where
  "remote_stale now i rows =
     set_status now i (\<lambda>r. w_status r \<notin> {StatusRemoved, StatusProvisioning, StatusPaused}) StatusAwaitingAgent rows"

definition liveness_expired :: "instant \<Rightarrow> string \<Rightarrow> life_row list \<Rightarrow> life_row list" where
  "liveness_expired now i rows =
     update_where (\<lambda>r. w_id r = i \<and> w_status r \<notin> {StatusRemoved, StatusPaused, StatusHibernated})
       (\<lambda>r. r\<lparr>w_status := (if w_runtime r = Some ''external'' then StatusAwaitingAgent else StatusOffline), w_updated_at := now\<rparr>) rows"

definition timeout_guard :: "instant \<Rightarrow> int \<Rightarrow> life_row \<Rightarrow> bool" where
  "timeout_guard now timeoutSec r \<longleftrightarrow> w_status r = StatusProvisioning \<and> w_updated_at r < now - timeoutSec * second"

definition provision_timeout :: "instant \<Rightarrow> string \<Rightarrow> string \<Rightarrow> int \<Rightarrow> life_row list \<Rightarrow> life_row list" where
  "provision_timeout now i msg timeoutSec rows =
     update_where (\<lambda>r. w_id r = i \<and> timeout_guard now timeoutSec r)
       (\<lambda>r. r\<lparr>w_status := StatusFailed, w_last_sample_error := Some msg, w_updated_at := now\<rparr>) rows"

definition clear_instance :: "instant \<Rightarrow> string \<Rightarrow> life_row list \<Rightarrow> life_row list" where
  "clear_instance now i rows = update_where (\<lambda>r. w_id r = i) (\<lambda>r. r\<lparr>w_instance_id := None, w_updated_at := now\<rparr>) rows"

definition hibernate_claim :: "instant \<Rightarrow> string \<Rightarrow> life_row list \<Rightarrow> life_row list" where
  "hibernate_claim now i rows =
     set_status now i (\<lambda>r. w_status r \<in> {StatusOnline, StatusDegraded} \<and> w_active_tasks r = 0) StatusHibernating rows"

text \<open>The writes without a condition on the status: hibernated, paused, provisioning, removed.\<close>

definition put_status :: "instant \<Rightarrow> string \<Rightarrow> WorkspaceStatus \<Rightarrow> life_row list \<Rightarrow> life_row list" where
  "put_status now i st rows =
     update_where (\<lambda>r. w_id r = i) (\<lambda>r. r\<lparr>w_status := st, w_url := Some [], w_updated_at := now\<rparr>) rows"

definition remove_workspaces :: "instant \<Rightarrow> string list \<Rightarrow> life_row list \<Rightarrow> life_row list" where
  "remove_workspaces now ids rows =
     update_where (\<lambda>r. w_id r \<in> set ids) (\<lambda>r. r\<lparr>w_status := StatusRemoved, w_updated_at := now\<rparr>) rows"

section \<open>The token gate of the registry routes\<close>

text \<open>\<^term>\<open>None\<close>: the request may continue; otherwise the 401. A failed lookup lets the request pass.\<close>

definition requireWorkspaceToken ::
  "(string \<Rightarrow> string) \<Rightarrow> instant \<Rightarrow> faults \<Rightarrow> string \<Rightarrow> string \<Rightarrow> auth_db \<Rightarrow> string option \<times> auth_db" where
  "requireWorkspaceToken sha now flt authorization workspaceID db =
     (case HasLiveInstanceToken (flt 0) workspaceID db of
        None \<Rightarrow> (None, db)
      | Some False \<Rightarrow> (None, db)
      | Some True \<Rightarrow>
          (let token = BearerTokenFromHeader authorization
           in if token = [] then (Some ''missing workspace auth token'', db)
              else case ValidateToken sha now (\<lambda>i. flt (i + 1)) workspaceID token db of
                     (True, db') \<Rightarrow> (None, db')
                   | (False, db') \<Rightarrow>
                       if HasLiveInstanceToken (flt 3) workspaceID db' = Some False then (None, db')
                       else (Some ''invalid workspace auth token'', db')))"

section \<open>evaluateStatus\<close>

datatype life_event =
    EventOnline string
  | EventDegraded string
  | EventProvisionFailed string string

text \<open>
  What the handlers leave behind: the rows, the events, the workspaces whose plugins are to be
  reconciled and the queue drains with their capacity.
\<close>

record life_state =
  ls_rows :: "life_row list"
  ls_events :: "life_event list"
  ls_reconciles :: "string list"
  ls_drains :: "(string \<times> int) list"

text \<open>
  What they read elsewhere: whether the workspace has its MODEL secret, whether the management plugin
  is declared, whether its runtime reports its own status, and whether the drain is wired.
\<close>

record life_env =
  le_has_model :: "string \<Rightarrow> bool"
  le_declared_management :: "string \<Rightarrow> bool"
  le_native_status :: "string \<Rightarrow> bool"
  le_reconcile_wired :: bool
  le_drain_wired :: bool

definition emit_life :: "life_event \<Rightarrow> life_state \<Rightarrow> life_state" where
  "emit_life e st = st\<lparr>ls_events := ls_events st @ [e]\<rparr>"

definition fireReconcileOnline :: "life_env \<Rightarrow> string \<Rightarrow> life_state \<Rightarrow> life_state" where
  "fireReconcileOnline env i st = (if le_reconcile_wired env then st\<lparr>ls_reconciles := ls_reconciles st @ [i]\<rparr> else st)"

text \<open>A statement that fails leaves the rows alone.\<close>

definition exec_rows :: "bool \<Rightarrow> (life_row list \<Rightarrow> life_row list) \<Rightarrow> life_state \<Rightarrow> life_state" where
  "exec_rows fault f st = (if fault then st else st\<lparr>ls_rows := f (ls_rows st)\<rparr>)"

definition platformAgentMCPServerPresent :: "bool option \<Rightarrow> bool" where
  "platformAgentMCPServerPresent present = (case present of None \<Rightarrow> True | Some b \<Rightarrow> b)"

definition conciergePlatformMCPCreateWorkspaceTool :: string where
  "conciergePlatformMCPCreateWorkspaceTool = ''mcp__molecule-platform__create_workspace''"

text \<open>\<^term>\<open>None\<close> is the failed lookup; \<^term>\<open>True\<close> means the declared tool is missing.\<close>

definition platformAgentManagementMCPLoaded :: "life_env \<Rightarrow> bool \<Rightarrow> string \<Rightarrow> string list \<Rightarrow> bool option" where
  "platformAgentManagementMCPLoaded env fault i loaded =
     (if fault then None
      else Some (le_declared_management env i \<and> conciergePlatformMCPCreateWorkspaceTool \<notin> set loaded))"

definition managementMCPUnloadedGrace :: duration where "managementMCPUnloadedGrace = 90 * second"

definition markWorkspaceFailed :: "instant \<Rightarrow> bool \<Rightarrow> string \<Rightarrow> string \<Rightarrow> string \<Rightarrow> life_state \<Rightarrow> life_state" where
  "markWorkspaceFailed now fault i msg reason st =
     exec_rows fault (mark_failed_update now i msg) (emit_life (EventProvisionFailed i reason) st)"

text \<open>
  The gate for platform agents: \<^term>\<open>None\<close> ends the evaluation, otherwise the flag says whether the
  management MCP is missing in this heartbeat.
\<close>

definition management_gate ::
  "life_env \<Rightarrow> instant \<Rightarrow> faults \<Rightarrow> HeartbeatPayload \<Rightarrow> life_row \<Rightarrow> life_state \<Rightarrow> bool \<times> life_state" where
  "management_gate env now flt p row st =
     (let i = hp_WorkspaceID p
      in if hp_MCPServerPresent p \<noteq> Some True then (False, st)
         else case (case hp_LoadedMCPTools p of
                      None \<Rightarrow> Some True
                    | Some loaded \<Rightarrow> platformAgentManagementMCPLoaded env (flt 3) i loaded) of
                None \<Rightarrow>
                  (True, emit_life (EventDegraded i)
                     (exec_rows (flt 4) (degrade_with_error now i ''platform agent declared management MCP lookup failed'') st))
              | Some True \<Rightarrow>
                  (let st1 = (if w_mcp_unloaded_since row = None then exec_rows (flt 5) (stamp_unloaded now i) st else st);
                       first = (case w_mcp_unloaded_since row of None \<Rightarrow> now | Some t \<Rightarrow> t)
                   in if now - first < managementMCPUnloadedGrace then (True, st1)
                      else (True, emit_life (EventDegraded i)
                             (exec_rows (flt 4) (degrade_with_error now i ''platform agent management MCP declared but not loaded'') st1)))
              | Some False \<Rightarrow>
                  (False, if w_mcp_unloaded_since row \<noteq> None then exec_rows (flt 6) (clear_unloaded now i) st else st))"

definition platform_gate ::
  "life_env \<Rightarrow> instant \<Rightarrow> faults \<Rightarrow> HeartbeatPayload \<Rightarrow> life_row \<Rightarrow> life_state \<Rightarrow> bool option \<times> life_state" where
  "platform_gate env now flt p row st =
     (let i = hp_WorkspaceID p
      in if w_kind row \<noteq> KindPlatform then (Some False, st)
         else if flt 1 then (None, st)
         else if \<not> le_has_model env i then
           (None, markWorkspaceFailed now (flt 2) i ''platform agent heartbeat denied: no seeded MODEL workspace_secret'' ''model_missing'' st)
         else if \<not> platformAgentMCPServerPresent (hp_MCPServerPresent p) then
           (None, markWorkspaceFailed now (flt 2) i ''platform agent heartbeat denied: /opt/molecule-mcp-server missing'' ''mcp_server_missing'' st)
         else map_prod Some id (management_gate env now flt p row st))"

definition back_online :: "life_env \<Rightarrow> instant \<Rightarrow> bool \<Rightarrow> string \<Rightarrow> WorkspaceStatus \<Rightarrow> life_state \<Rightarrow> life_state" where
  "back_online env now fault i from_status st =
     fireReconcileOnline env i (emit_life (EventOnline i) (exec_rows fault (recover_from now i from_status) st))"

text \<open>The branches after the gate; \<open>row\<close> is what was read at the start.\<close>

definition degrade_branch :: "instant \<Rightarrow> bool \<Rightarrow> bool \<Rightarrow> string \<Rightarrow> life_state \<Rightarrow> life_state" where
  "degrade_branch now cond fault i st =
     (if cond then emit_life (EventDegraded i) (exec_rows fault (degrade_online now i) st) else st)"

definition recover_branch :: "life_env \<Rightarrow> instant \<Rightarrow> bool \<Rightarrow> bool \<Rightarrow> string \<Rightarrow> WorkspaceStatus \<Rightarrow> life_state \<Rightarrow> life_state" where
  "recover_branch env now cond fault i from_status st = (if cond then back_online env now fault i from_status st else st)"

definition drain_branch :: "life_env \<Rightarrow> bool \<Rightarrow> HeartbeatPayload \<Rightarrow> life_state \<Rightarrow> life_state" where
  "drain_branch env fault p st =
     (if \<not> le_drain_wired env then st
      else let maxConcurrent = (case (if fault then None else find_ws (hp_WorkspaceID p) (ls_rows st)) of
                                  None \<Rightarrow> 0
                                | Some r \<Rightarrow> (case w_max_concurrent_tasks r of None \<Rightarrow> 1 | Some n \<Rightarrow> n))
           in if hp_ActiveTasks p < maxConcurrent
              then st\<lparr>ls_drains := ls_drains st @ [(hp_WorkspaceID p, max 1 (maxConcurrent - hp_ActiveTasks p))]\<rparr>
              else st)"

definition evaluateStatus :: "life_env \<Rightarrow> instant \<Rightarrow> faults \<Rightarrow> HeartbeatPayload \<Rightarrow> life_state \<Rightarrow> life_state" where
  "evaluateStatus env now flt p st =
     (let i = hp_WorkspaceID p
      in case (if flt 0 then None else find_ws i (ls_rows st)) of
           None \<Rightarrow> st
         | Some row \<Rightarrow>
             (let cur = w_status row;
                  recent_failure = (case w_last_register_failure_at row of None \<Rightarrow> False | Some t \<Rightarrow> now - t < 5 * minute)
              in case platform_gate env now flt p row st of
                   (None, st1) \<Rightarrow> st1
                 | (Some unloaded, st1) \<Rightarrow>
                     let native = le_native_status env i;
                         st2 = degrade_branch now (hp_RuntimeState p = ''wedged'' \<and> cur = StatusOnline) (flt 7) i st1;
                         st3 = degrade_branch now (\<not> native \<and> cur = StatusOnline \<and> 1 / 2 \<le> hp_ErrorRate p) (flt 8) i st2;
                         st4 = degrade_branch now (cur = StatusOnline \<and> recent_failure) (flt 9) i st3;
                         st5 = recover_branch env now (\<not> native \<and> cur = StatusDegraded \<and> hp_ErrorRate p < 1 / 10 \<and>
                                 hp_RuntimeState p = [] \<and> \<not> recent_failure \<and> \<not> unloaded) (flt 10) i StatusDegraded st4;
                         st6 = recover_branch env now (cur = StatusOffline) (flt 11) i StatusOffline st5;
                         st7 = recover_branch env now (cur = StatusProvisioning) (flt 12) i StatusProvisioning st6;
                         st8 = recover_branch env now (cur = StatusAwaitingAgent) (flt 13) i StatusAwaitingAgent st7;
                         st9 = recover_branch env now (cur = StatusFailed) (flt 14) i StatusFailed st8
                     in drain_branch env (flt 15) p st9))"

section \<open>Heartbeat\<close>

text \<open>
  The statements of the heartbeat on the row, after the token gate; spend is in the budget theory.
  \<^term>\<open>False\<close> is the 500. The faults: the read of the previous status, the UPDATE, the two card
  statements, then those of \<^verbatim>\<open>evaluateStatus\<close>.
\<close>

definition Registry_Heartbeat :: "life_env \<Rightarrow> instant \<Rightarrow> faults \<Rightarrow> HeartbeatPayload \<Rightarrow> life_state \<Rightarrow> bool \<times> life_state" where
  "Registry_Heartbeat env now flt p st =
     (let i = hp_WorkspaceID p;
          prevStatus = (if flt 0 then None else status_of i (ls_rows st))
      in if flt 1 then (False, st)
         else let st1 = exec_rows False (heartbeat_update now p) st;
                  st2 = (if prevStatus = Some StatusProvisioning then fireReconcileOnline env i st1 else st1);
                  st3 = (if hp_AgentCard p \<noteq> [] then exec_rows (flt 2) (backfill_card p) st2 else st2);
                  st4 = (if hp_AgentCard p \<noteq> [] then exec_rows (flt 3) (clear_register_failure i) st3 else st3)
              in (True, evaluateStatus env now (\<lambda>k. flt (k + 4)) p st4))"

end
