(* ===== verification/Workspace_Monitors.thy ===== *)
theory Workspace_Monitors
  imports Workspace_Lifecycle
begin

text \<open>
  The monitors of \<^verbatim>\<open>internal/registry\<close> and the lifecycle routes of \<^verbatim>\<open>workspace_restart.go\<close>, built from the
  statements of the lifecycle theory. A pass reads its candidates once and then handles them one by
  one; before each step \<open>intf\<close> applies whatever other callers wrote in between, and each step has its own
  time.
\<close>

type_synonym interference = "nat \<Rightarrow> life_row list \<Rightarrow> life_row list"

text \<open>Integer division of Go, towards zero.\<close>

definition go_div :: "int \<Rightarrow> int \<Rightarrow> int" where
  "go_div a b = (if (a < 0) = (b < 0) then \<bar>a\<bar> div \<bar>b\<bar> else - (\<bar>a\<bar> div \<bar>b\<bar>))"

definition runtime_or :: "string \<Rightarrow> life_row \<Rightarrow> string" where
  "runtime_or dflt r = (case w_runtime r of None \<Rightarrow> dflt | Some s \<Rightarrow> s)"

definition live_status :: "life_row \<Rightarrow> bool" where
  "live_status r \<longleftrightarrow> w_status r = StatusOnline \<or> w_status r = StatusDegraded"

text \<open>A positive number of seconds from the environment, or the default.\<close>

definition env_seconds :: "duration \<Rightarrow> string \<Rightarrow> duration" where
  "env_seconds dflt v =
     (if v = [] then dflt
      else case Atoi v of None \<Rightarrow> dflt | Some n \<Rightarrow> if n \<le> 0 then dflt else wrap64 (n * second))"

section \<open>healthsweep.go\<close>

definition DefaultRemoteStaleAfter :: duration where "DefaultRemoteStaleAfter = 180 * second"

definition remoteStaleAfter :: "string \<Rightarrow> duration" where
  "remoteStaleAfter REMOTE_LIVENESS_STALE_AFTER = env_seconds DefaultRemoteStaleAfter REMOTE_LIVENESS_STALE_AFTER"

definition container_candidates :: "life_row list \<Rightarrow> string list" where
  "container_candidates rows = map w_id (filter (\<lambda>r. live_status r \<and> runtime_or ''claude-code'' r \<notin> {''external'', ''mock''}) rows)"

text \<open>
  One candidate: \<open>running i\<close> is the answer of the container runtime, \<^term>\<open>None\<close> an error. The second component
  collects the calls of \<^verbatim>\<open>onOffline\<close>.
\<close>

definition check_container ::
  "(nat \<Rightarrow> instant) \<Rightarrow> interference \<Rightarrow> (string \<Rightarrow> bool option) \<Rightarrow> faults \<Rightarrow> nat \<times> string \<Rightarrow>
   life_row list \<times> string list \<Rightarrow> life_row list \<times> string list" where
  "check_container clk intf running flt = (\<lambda>(k, i) (rows, off).
     let rows1 = intf k rows
     in if running i \<noteq> Some False then (rows1, off)
        else if flt k then (rows1, off)
        else (container_gone (clk k) i rows1, off @ [i]))"

definition sweepOnlineWorkspaces ::
  "(nat \<Rightarrow> instant) \<Rightarrow> bool \<Rightarrow> interference \<Rightarrow> (string \<Rightarrow> bool option) \<Rightarrow> faults \<Rightarrow> life_row list \<Rightarrow> life_row list \<times> string list" where
  "sweepOnlineWorkspaces clk query_fault intf running flt rows =
     (if query_fault then (rows, [])
      else fold (check_container clk intf running flt) (List.enumerate 0 (container_candidates rows)) (rows, []))"

definition remote_candidates :: "instant \<Rightarrow> int \<Rightarrow> life_row list \<Rightarrow> string list" where
  "remote_candidates now staleAfterSec rows =
     map w_id (filter (\<lambda>r. live_status r \<and> runtime_or ''claude-code'' r = ''external'' \<and>
       (case w_last_heartbeat_at r of None \<Rightarrow> w_updated_at r | Some t \<Rightarrow> t) < now - staleAfterSec * second) rows)"

definition mark_stale ::
  "(nat \<Rightarrow> instant) \<Rightarrow> interference \<Rightarrow> faults \<Rightarrow> nat \<times> string \<Rightarrow> life_row list \<times> string list \<Rightarrow> life_row list \<times> string list" where
  "mark_stale clk intf flt = (\<lambda>(k, i) (rows, off).
     let rows1 = intf k rows in if flt k then (rows1, off) else (remote_stale (clk k) i rows1, off @ [i]))"

definition sweepStaleRemoteWorkspaces ::
  "instant \<Rightarrow> (nat \<Rightarrow> instant) \<Rightarrow> bool \<Rightarrow> interference \<Rightarrow> faults \<Rightarrow> string \<Rightarrow> life_row list \<Rightarrow> life_row list \<times> string list" where
  "sweepStaleRemoteWorkspaces now clk query_fault intf flt env_value rows =
     (if query_fault then (rows, [])
      else fold (mark_stale clk intf flt)
             (List.enumerate 0 (remote_candidates now (go_div (remoteStaleAfter env_value) second) rows)) (rows, []))"

section \<open>provisiontimeout.go\<close>

definition DefaultProvisioningTimeout :: duration where "DefaultProvisioningTimeout = 12 * minute"
definition HermesProvisioningTimeout :: duration where "HermesProvisioningTimeout = 30 * minute"

definition provisioningTimeoutFor :: "string \<Rightarrow> (string \<Rightarrow> int) option \<Rightarrow> string \<Rightarrow> duration" where
  "provisioningTimeoutFor PROVISION_TIMEOUT_SECONDS lookup runtime =
     (let rest = (case lookup of
                    Some f \<Rightarrow> if 0 < f runtime then wrap64 (f runtime * second)
                              else if runtime = ''hermes'' then HermesProvisioningTimeout else DefaultProvisioningTimeout
                  | None \<Rightarrow> if runtime = ''hermes'' then HermesProvisioningTimeout else DefaultProvisioningTimeout)
      in if PROVISION_TIMEOUT_SECONDS = [] then rest
         else case Atoi PROVISION_TIMEOUT_SECONDS of
                Some n \<Rightarrow> if 0 < n then wrap64 (n * second) else rest
              | None \<Rightarrow> rest)"

text \<open>Identifier, runtime, instance and age; the cast of the age to an integer rounds to the nearest second.\<close>

definition age_seconds :: "instant \<Rightarrow> life_row \<Rightarrow> int" where
  "age_seconds now r = (now - w_updated_at r + second div 2) div second"

definition provisioning_candidates :: "instant \<Rightarrow> life_row list \<Rightarrow> (string \<times> string \<times> string \<times> int) list" where
  "provisioning_candidates now rows =
     map (\<lambda>r. (w_id r, runtime_or [] r, (case w_instance_id r of None \<Rightarrow> [] | Some s \<Rightarrow> s), age_seconds now r))
       (filter (\<lambda>r. w_status r = StatusProvisioning) rows)"

text \<open>The verdicts: workspace and instance, for the rescue hook and the event. The message is shortened.\<close>

definition timeout_message :: string where
  "timeout_message = ''provisioning timed out: container started but never called /registry/register''"

definition flip_stuck ::
  "(nat \<Rightarrow> instant) \<Rightarrow> interference \<Rightarrow> faults \<Rightarrow> (string \<Rightarrow> duration) \<Rightarrow> nat \<times> string \<times> string \<times> string \<times> int \<Rightarrow>
   life_row list \<times> (string \<times> string) list \<Rightarrow> life_row list \<times> (string \<times> string) list" where
  "flip_stuck clk intf flt timeout_for = (\<lambda>(k, i, runtime, instance_id, ageSec) (rows, verdicts).
     let timeoutSec = go_div (timeout_for runtime) second; rows1 = intf k rows
     in if ageSec < timeoutSec then (rows1, verdicts)
        else if flt k then (rows1, verdicts)
        else let n = count_where (\<lambda>r. w_id r = i \<and> timeout_guard (clk k) timeoutSec r) rows1
             in (provision_timeout (clk k) i timeout_message timeoutSec rows1,
                 if n = 0 then verdicts else verdicts @ [(i, instance_id)]))"

definition sweepStuckProvisioning ::
  "instant \<Rightarrow> (nat \<Rightarrow> instant) \<Rightarrow> bool \<Rightarrow> interference \<Rightarrow> faults \<Rightarrow> (string \<Rightarrow> duration) \<Rightarrow> life_row list \<Rightarrow>
   life_row list \<times> (string \<times> string) list" where
  "sweepStuckProvisioning now clk query_fault intf flt timeout_for rows =
     (if query_fault then (rows, [])
      else fold (flip_stuck clk intf flt timeout_for) (List.enumerate 0 (provisioning_candidates now rows)) (rows, []))"

section \<open>wedged_agent.go\<close>

definition DefaultWedgedThreshold :: duration where "DefaultWedgedThreshold = 5 * minute"

definition wedgedThreshold :: "string \<Rightarrow> duration" where
  "wedgedThreshold WEDGED_AGENT_THRESHOLD_SECONDS = env_seconds DefaultWedgedThreshold WEDGED_AGENT_THRESHOLD_SECONDS"

definition IsWedgedAgent :: "instant \<Rightarrow> int \<Rightarrow> instant option \<Rightarrow> instant option \<Rightarrow> duration \<Rightarrow> bool" where
  "IsWedgedAgent now activeTasks lastOutboundAt lastHeartbeatAt threshold =
     (if activeTasks \<le> 0 then False
      else if threshold \<le> 0 then False
      else (case lastOutboundAt of None \<Rightarrow> True | Some t \<Rightarrow> threshold < now - t) \<and>
           (case lastHeartbeatAt of None \<Rightarrow> True | Some t \<Rightarrow> threshold < now - t))"

text \<open>The workspaces the handler is called for; \<open>now\<close> is the time of the database, \<open>now'\<close> that of the process.\<close>

definition sweepWedgedAgents :: "instant \<Rightarrow> instant \<Rightarrow> bool \<Rightarrow> duration \<Rightarrow> life_row list \<Rightarrow> string list" where
  "sweepWedgedAgents now now' query_fault threshold rows =
     (let cutoff = now - go_div threshold second * second;
          stale = (\<lambda>t. case t of None \<Rightarrow> True | Some x \<Rightarrow> x < cutoff)
      in if query_fault then []
         else map w_id (filter (\<lambda>r. IsWedgedAgent now' (w_active_tasks r) (w_last_outbound_at r) (w_last_heartbeat_at r) threshold)
                (filter (\<lambda>r. live_status r \<and> 0 < w_active_tasks r \<and> runtime_or ''claude-code'' r \<noteq> ''external'' \<and>
                   stale (w_last_outbound_at r) \<and> stale (w_last_heartbeat_at r)) rows)))"

section \<open>hibernation.go\<close>

definition hibernation_candidates :: "instant \<Rightarrow> life_row list \<Rightarrow> string list" where
  "hibernation_candidates now rows =
     map w_id (filter (\<lambda>r. live_status r \<and> w_active_tasks r = 0 \<and> runtime_or ''claude-code'' r \<noteq> ''external'' \<and>
       (case (w_hibernation_idle_minutes r, w_last_heartbeat_at r) of
          (Some m, Some t) \<Rightarrow> 0 < m \<and> t < now - m * minute
        | _ \<Rightarrow> False)) rows)"

text \<open>The handler is an argument, as it is in the source; the numbered call sees what others wrote.\<close>

definition hibernateIdleWorkspaces ::
  "instant \<Rightarrow> bool \<Rightarrow> interference \<Rightarrow> (nat \<Rightarrow> string \<Rightarrow> life_row list \<Rightarrow> life_row list) option \<Rightarrow> life_row list \<Rightarrow> life_row list" where
  "hibernateIdleWorkspaces now query_fault intf onHibernate rows =
     (if query_fault then rows
      else fold (\<lambda>(k, i) rs. case onHibernate of None \<Rightarrow> intf k rs | Some h \<Rightarrow> h k i (intf k rs))
             (List.enumerate 0 (hibernation_candidates now rows)) rows)"

section \<open>cp_instance_reconciler.go\<close>

definition CPInstanceReconcileLimit :: nat where "CPInstanceReconcileLimit = 200"

text \<open>\<^verbatim>\<open>ORDER BY updated_at DESC LIMIT n\<close>; rows with equal times keep the order of the table.\<close>

definition latest_updated :: "nat \<Rightarrow> life_row list \<Rightarrow> life_row list" where
  "latest_updated n rows = take n (sort_key (\<lambda>r. - w_updated_at r) rows)"

definition instance_of :: "life_row \<Rightarrow> string" where
  "instance_of r = (case w_instance_id r of None \<Rightarrow> [] | Some s \<Rightarrow> s)"

definition reconcile_candidates :: "life_row list \<Rightarrow> (string \<times> string) list" where
  "reconcile_candidates rows =
     map (\<lambda>r. (w_id r, instance_of r))
       (latest_updated CPInstanceReconcileLimit
          (filter (\<lambda>r. live_status r \<and> instance_of r \<noteq> [] \<and> runtime_or [] r \<noteq> ''external'') rows))"

definition reconfirmStillOfflineCandidate :: "bool \<Rightarrow> string \<times> string \<Rightarrow> life_row list \<Rightarrow> bool" where
  "reconfirmStillOfflineCandidate fault = (\<lambda>(i, instance_id) rows.
     case (if fault then None else find_ws i rows) of
       None \<Rightarrow> False
     | Some r \<Rightarrow> if \<not> live_status r then False
                 else if instance_of r = [] then False
                 else instance_of r = instance_id)"

text \<open>
  The loop over the candidates. \<open>expired k\<close> is the deadline of the cycle; \<open>running k i\<close> the answer of the
  control plane, \<^term>\<open>None\<close> an error. The table is what other callers make of it; the result lists the
  calls of \<^verbatim>\<open>onOffline\<close>, each with the table its confirmation read.
\<close>

fun reconcile_loop ::
  "(nat \<Rightarrow> bool) \<Rightarrow> interference \<Rightarrow> (nat \<Rightarrow> string \<Rightarrow> bool option) \<Rightarrow> faults \<Rightarrow> nat \<Rightarrow> (string \<times> string) list \<Rightarrow>
   life_row list \<Rightarrow> (string \<times> string \<times> life_row list) list" where
  "reconcile_loop expired intf running flt k [] rows = []"
| "reconcile_loop expired intf running flt k ((i, instance_id) # cs) rows =
     (if expired k then []
      else let rows1 = intf k rows; rest = reconcile_loop expired intf running flt (Suc k) cs rows1
           in if running k i \<noteq> Some False then rest
              else if \<not> reconfirmStillOfflineCandidate (flt k) (i, instance_id) rows1 then rest
              else (i, instance_id, rows1) # rest)"

definition reconcileOnce ::
  "bool \<Rightarrow> (nat \<Rightarrow> bool) \<Rightarrow> interference \<Rightarrow> (nat \<Rightarrow> string \<Rightarrow> bool option) \<Rightarrow> faults \<Rightarrow> life_row list \<Rightarrow>
   (string \<times> string \<times> life_row list) list" where
  "reconcileOnce query_fault expired intf running flt rows =
     (if query_fault then [] else reconcile_loop expired intf running flt 0 (reconcile_candidates rows) rows)"

section \<open>cp_orphan_sweeper.go\<close>

definition cpSweepLimit :: nat where "cpSweepLimit = 100"

definition orphan_candidates :: "life_row list \<Rightarrow> string list" where
  "orphan_candidates rows =
     map w_id (latest_updated cpSweepLimit (filter (\<lambda>r. w_status r = StatusRemoved \<and> instance_of r \<noteq> []) rows))"

text \<open>\<open>stopped k i\<close>: the control plane terminated the instance. The second component lists the calls.\<close>

definition reap_orphan ::
  "(nat \<Rightarrow> instant) \<Rightarrow> (nat \<Rightarrow> string \<Rightarrow> bool) \<Rightarrow> faults \<Rightarrow> nat \<times> string \<Rightarrow> life_row list \<times> string list \<Rightarrow> life_row list \<times> string list" where
  "reap_orphan clk stopped flt = (\<lambda>(k, i) (rows, calls).
     if \<not> stopped k i then (rows, calls @ [i])
     else if flt k then (rows, calls @ [i])
     else (clear_instance (clk k) i rows, calls @ [i]))"

definition cpSweepOnce ::
  "(nat \<Rightarrow> instant) \<Rightarrow> bool \<Rightarrow> (nat \<Rightarrow> string \<Rightarrow> bool) \<Rightarrow> faults \<Rightarrow> life_row list \<Rightarrow> life_row list \<times> string list" where
  "cpSweepOnce clk query_fault stopped flt rows =
     (if query_fault then (rows, [])
      else fold (reap_orphan clk stopped flt) (List.enumerate 0 (orphan_candidates rows)) (rows, []))"

end
