(* ===== verification/Workspace_Routes.thy ===== *)
theory Workspace_Routes
  imports Workspace_Monitors Approvals SSRF_Guard
begin

text \<open>
  The lifecycle routes of \<^verbatim>\<open>workspace_restart.go\<close> (hibernate, restart, pause, resume and the cycle behind
  \<^verbatim>\<open>RestartByID\<close>), the dispatchers of \<^verbatim>\<open>workspace_dispatchers.go\<close> that choose between the control plane and Docker, and
  deletion in \<^verbatim>\<open>workspace_crud.go\<close>. What a route leaves behind is a store: the rows, the credentials, the
  canvas layouts, the schedules, and the calls and events in the order they were made. Provisioning
  itself, templates and Redis keys are left out; a call records that it was started.
\<close>

section \<open>The store\<close>

datatype backend_call =
    CPStop string
  | CPStopAndPrune string
  | DockerStop string
  | DockerRemoveVolume string
  | ProvisionCP string
  | ProvisionDocker string bool

datatype route_event =
    WorkspaceHibernated string
  | WorkspaceProvisioning string
  | WorkspacePaused string
  | WorkspaceRemoved string nat
  | WorkspaceProvisionFailed string
  | TerminateRetryExhausted string string

record ws_store =
  ss_rows :: "life_row list"
  ss_auth :: auth_db
  ss_layouts :: "string list"
  ss_schedules :: "(string \<times> bool) list"
  ss_calls :: "backend_call list"
  ss_events :: "route_event list"

text \<open>
  The backends: which are wired, the error of the numbered attempt to stop a workspace, and whether
  the context is cancelled while the retry waits.
\<close>

record backends =
  be_cp :: bool
  be_docker :: bool
  be_cp_stop :: "nat \<Rightarrow> string \<Rightarrow> string option"
  be_cancelled :: "nat \<Rightarrow> bool"
  be_docker_stop :: "string \<Rightarrow> string option"

definition call :: "backend_call list \<Rightarrow> ws_store \<Rightarrow> ws_store" where
  "call cs st = st\<lparr>ss_calls := ss_calls st @ cs\<rparr>"

definition announce :: "route_event \<Rightarrow> ws_store \<Rightarrow> ws_store" where
  "announce e st = st\<lparr>ss_events := ss_events st @ [e]\<rparr>"

definition exec_store :: "bool \<Rightarrow> (life_row list \<Rightarrow> life_row list) \<Rightarrow> ws_store \<Rightarrow> ws_store" where
  "exec_store fault f st = (if fault then st else st\<lparr>ss_rows := f (ss_rows st)\<rparr>)"

section \<open>Dispatchers\<close>

definition HasProvisioner :: "backends \<Rightarrow> bool" where
  "HasProvisioner be \<longleftrightarrow> be_cp be \<or> be_docker be"

definition IsSaaS :: "backends \<Rightarrow> bool" where
  "IsSaaS be \<longleftrightarrow> be_cp be"

definition DefaultTier :: "backends \<Rightarrow> int" where
  "DefaultTier be = (if IsSaaS be then 4 else 3)"

definition cpStopRetryAttempts :: nat where "cpStopRetryAttempts = 3"
definition cpStopRetryBaseDelay :: duration where "cpStopRetryBaseDelay = second"

text \<open>
  The loop: the error, the number of calls and the time spent in completed waits. The last argument
  counts the attempts that are left.
\<close>

fun cp_stop_loop :: "backends \<Rightarrow> string \<Rightarrow> nat \<Rightarrow> duration \<Rightarrow> nat \<Rightarrow> string option \<times> nat \<times> duration" where
  "cp_stop_loop be i attempt delay 0 = (None, 0, 0)"
| "cp_stop_loop be i attempt delay (Suc left) =
     (case be_cp_stop be attempt i of
        None \<Rightarrow> (None, 1, 0)
      | Some e \<Rightarrow>
          if left = 0 then (Some e, 1, 0)
          else if be_cancelled be attempt then (Some ''context canceled'', 1, 0)
          else case cp_stop_loop be i (Suc attempt) (2 * delay) left of
                 (r, n, w) \<Rightarrow> (r, Suc n, delay + w))"

definition cpStopWithRetryErr :: "backends \<Rightarrow> string \<Rightarrow> bool \<Rightarrow> ws_store \<Rightarrow> string option \<times> ws_store" where
  "cpStopWithRetryErr be i prune st =
     (if \<not> be_cp be then (None, st)
      else case cp_stop_loop be i 1 cpStopRetryBaseDelay cpStopRetryAttempts of
             (err, n, _) \<Rightarrow> (err, call (replicate n (if prune then CPStopAndPrune i else CPStop i)) st))"

definition cpStopWithRetry :: "backends \<Rightarrow> string \<Rightarrow> ws_store \<Rightarrow> ws_store" where
  "cpStopWithRetry be i st = snd (cpStopWithRetryErr be i False st)"

definition stopForRestart :: "backends \<Rightarrow> string \<Rightarrow> ws_store \<Rightarrow> ws_store" where
  "stopForRestart be i st =
     (if be_docker be then call [DockerStop i] st
      else if be_cp be then cpStopWithRetry be i st
      else st)"

definition StopWorkspaceAuto :: "backends \<Rightarrow> string \<Rightarrow> ws_store \<Rightarrow> string option \<times> ws_store" where
  "StopWorkspaceAuto be i st =
     (if be_cp be then (be_cp_stop be 1 i, call [CPStop i] st)
      else if be_docker be then (be_docker_stop be i, call [DockerStop i] st)
      else (None, st))"

definition stopWorkspaceForDelete :: "backends \<Rightarrow> string \<Rightarrow> bool \<Rightarrow> ws_store \<Rightarrow> string option \<times> ws_store" where
  "stopWorkspaceForDelete be i erase st =
     (if be_cp be then
        (case cpStopWithRetryErr be i erase st of
           (Some e, st') \<Rightarrow> (Some e, announce (TerminateRetryExhausted i e) st')
         | (None, st') \<Rightarrow> (None, st'))
      else if be_docker be then (be_docker_stop be i, call [DockerStop i] st)
      else (None, st))"

definition no_backend_message :: string where "no_backend_message = ''no provisioning backend available''"

definition markProvisionFailed :: "instant \<Rightarrow> bool \<Rightarrow> string \<Rightarrow> string \<Rightarrow> ws_store \<Rightarrow> ws_store" where
  "markProvisionFailed now fault i msg st =
     exec_store fault (mark_failed_update now i msg) (announce (WorkspaceProvisionFailed i) st)"

text \<open>The provisioning itself runs later and elsewhere: the start is the last thing recorded.\<close>

definition provisionWorkspaceAuto :: "instant \<Rightarrow> bool \<Rightarrow> backends \<Rightarrow> string \<Rightarrow> ws_store \<Rightarrow> bool \<times> ws_store" where
  "provisionWorkspaceAuto now fault be i st =
     (if be_cp be then (True, call [ProvisionCP i] st)
      else if be_docker be then (True, call [ProvisionDocker i False] st)
      else (False, markProvisionFailed now fault i no_backend_message st))"

definition RestartWorkspaceAutoOpts :: "instant \<Rightarrow> bool \<Rightarrow> backends \<Rightarrow> string \<Rightarrow> bool \<Rightarrow> ws_store \<Rightarrow> bool \<times> ws_store" where
  "RestartWorkspaceAutoOpts now fault be i resetClaudeSession st =
     (if be_cp be then (True, call [ProvisionCP i] (cpStopWithRetry be i st))
      else if be_docker be then (True, call [DockerStop i, ProvisionDocker i resetClaudeSession] st)
      else (False, markProvisionFailed now fault i no_backend_message st))"

section \<open>Ancestors and descendants\<close>

text \<open>
  \<^verbatim>\<open>isParentPaused\<close> walks up until it finds a paused ancestor or runs out of parents; on a cycle of
  parents without a paused row the walk does not end, which is the value \<^term>\<open>None\<close>. The inner option is
  the name of the paused ancestor.
\<close>

partial_function (option) isParentPaused :: "faults \<Rightarrow> nat \<Rightarrow> string \<Rightarrow> life_row list \<Rightarrow> string option option" where
  "isParentPaused flt k i rows =
     (case (if flt (2 * k) then None else find_ws i rows) of
        None \<Rightarrow> Some None
      | Some r \<Rightarrow>
          (case w_parent_id r of
             None \<Rightarrow> Some None
           | Some p \<Rightarrow>
               (case (if flt (2 * k + 1) then None else find_ws p rows) of
                  None \<Rightarrow> Some None
                | Some pr \<Rightarrow> if w_status pr = StatusPaused then Some (Some (w_name pr)) else isParentPaused flt (Suc k) p rows)))"

text \<open>
  The recursive query: the rows under the frontier that satisfy the condition, then those under
  them, until a level is empty. On a cycle of such rows the query does not end.
\<close>

definition children_of :: "(life_row \<Rightarrow> bool) \<Rightarrow> string list \<Rightarrow> life_row list \<Rightarrow> life_row list" where
  "children_of ok frontier rows = concat (map (\<lambda>p. filter (\<lambda>r. w_parent_id r = Some p \<and> ok r) rows) frontier)"

partial_function (option) descendants :: "(life_row \<Rightarrow> bool) \<Rightarrow> string list \<Rightarrow> life_row list \<Rightarrow> life_row list option" where
  "descendants ok frontier rows =
     (let level = children_of ok frontier rows
      in if level = [] then Some []
         else Option.bind (descendants ok (map w_id level) rows) (\<lambda>below. Some (level @ below)))"

declare isParentPaused.simps [code] descendants.simps [code]

section \<open>Hibernation\<close>

datatype route_reply =
    RouteErr nat string
  | RouteOk string nat
  | RouteConflict string "(string \<times> string) list"
  | RouteNoop string

text \<open>
  \<^verbatim>\<open>HibernateWorkspace\<close>: claim, stop, final write. \<open>intf\<close> is what other callers write while the container
  stops. Only the Docker provisioner is asked to stop.
\<close>

definition hibernatable :: "string \<Rightarrow> life_row \<Rightarrow> bool" where
  "hibernatable i r \<longleftrightarrow> w_id r = i \<and> w_status r \<in> {StatusOnline, StatusDegraded} \<and> w_active_tasks r = 0"

definition HibernateWorkspace ::
  "instant \<Rightarrow> instant \<Rightarrow> faults \<Rightarrow> backends \<Rightarrow> (life_row list \<Rightarrow> life_row list) \<Rightarrow> string \<Rightarrow> ws_store \<Rightarrow> ws_store" where
  "HibernateWorkspace now now' flt be intf i st =
     (if flt 0 then st
      else if count_where (hibernatable i) (ss_rows st) = 0 then st
      else let st1 = exec_store False (hibernate_claim now i) st;
               st2 = exec_store False intf (if be_docker be then call [DockerStop i] st1 else st1)
           in if flt 1 then st2
              else announce (WorkspaceHibernated i) (exec_store False (put_status now' i StatusHibernated) st2))"

definition Hibernate ::
  "instant \<Rightarrow> instant \<Rightarrow> faults \<Rightarrow> backends \<Rightarrow> (life_row list \<Rightarrow> life_row list) \<Rightarrow> string \<Rightarrow> string \<Rightarrow> ws_store \<Rightarrow> route_reply \<times> ws_store" where
  "Hibernate now now' flt be intf i force st =
     (if flt 0 then (RouteErr 500 ''lookup failed'', st)
      else case select_first (\<lambda>r. w_id r = i \<and> live_status r) (ss_rows st) of
             None \<Rightarrow> (RouteErr 404 ''workspace not found or not in a hibernatable state (must be online or degraded)'', st)
           | Some r \<Rightarrow>
               if 0 < w_active_tasks r \<and> force \<noteq> ''true''
               then (RouteErr 409 ''workspace has active tasks; use ?force=true to terminate them'', st)
               else (RouteOk ''hibernated'' 1, HibernateWorkspace now now' (\<lambda>k. flt (Suc k)) be intf i st))"

section \<open>Restart\<close>

record restart_body =
  rb_ApplyTemplate :: bool
  rb_Reset :: bool

text \<open>
  \<^verbatim>\<open>restartRuntimeFromConfig\<close>: \<open>config\<close> is the file read from the container, \<^term>\<open>None\<close> a failed read. The first
  line that starts with \<^verbatim>\<open>runtime:\<close> decides.
\<close>

definition runtime_line :: "string \<Rightarrow> bool" where
  "runtime_line line = has_prefix ''runtime:'' line"

definition parsed_runtime :: "string \<Rightarrow> string" where
  "parsed_runtime config =
     (case filter runtime_line (map TrimSpace (split_on (CHR 0x0A) config)) of
        [] \<Rightarrow> []
      | line # _ \<Rightarrow> TrimSpace (drop (length ''runtime:'') line))"

definition restartRuntimeFromConfig ::
  "bool \<Rightarrow> backends \<Rightarrow> string option \<Rightarrow> string \<Rightarrow> string \<Rightarrow> bool \<Rightarrow> ws_store \<Rightarrow> string \<times> ws_store" where
  "restartRuntimeFromConfig fault be config i dbRuntime applyTemplate st =
     (if \<not> be_docker be \<or> applyTemplate then (dbRuntime, st)
      else case config of
             None \<Rightarrow> (dbRuntime, st)
           | Some text \<Rightarrow>
               (let parsed = parsed_runtime text
                in if parsed \<noteq> [] \<and> parsed \<noteq> dbRuntime
                   then (parsed, exec_store fault (update_where (\<lambda>r. w_id r = i) (\<lambda>r. r\<lparr>w_runtime := Some parsed\<rparr>)) st)
                   else (dbRuntime, st)))"

text \<open>
  The route. Template resolution and the context message are left out; the asynchronous part runs
  with its own time.
\<close>

definition Restart ::
  "instant \<Rightarrow> instant \<Rightarrow> faults \<Rightarrow> backends \<Rightarrow> string option \<Rightarrow> string \<Rightarrow> string \<Rightarrow> restart_body option \<Rightarrow> ws_store \<Rightarrow>
   (route_reply \<times> ws_store) option" where
  "Restart now now' flt be config i reset body st =
     (if flt 0 then Some (RouteErr 500 ''lookup failed'', st)
      else case find_ws i (ss_rows st) of
             None \<Rightarrow> Some (RouteErr 404 ''workspace not found'', st)
           | Some r \<Rightarrow>
               if w_status r = StatusRemoved then Some (RouteErr 404 ''workspace not found'', st)
               else Option.bind (isParentPaused (\<lambda>k. flt (k + 4)) 0 i (ss_rows st)) (\<lambda>paused.
                 let dbRuntime = runtime_or ''claude-code'' r
                 in case paused of
                      Some parentName \<Rightarrow> Some (RouteErr 409 (''parent workspace '' @ parentName @ '' is paused''), st)
                    | None \<Rightarrow>
                        if isExternalLikeRuntime dbRuntime \<or> dbRuntime = ''mock'' then Some (RouteNoop dbRuntime, st)
                        else if \<not> HasProvisioner be then Some (RouteErr 503 ''provisioner not available'', st)
                        else (case body of
                                None \<Rightarrow> Some (RouteErr 400 ''invalid JSON body'', st)
                              | Some b \<Rightarrow>
                                  (let st1 = snd (restartRuntimeFromConfig (flt 1) be config i dbRuntime (rb_ApplyTemplate b) st);
                                       st2 = announce (WorkspaceProvisioning i) (exec_store (flt 2) (put_status now i StatusProvisioning) st1)
                                   in Some (RouteOk ''provisioning'' 1,
                                        snd (RestartWorkspaceAutoOpts now' (flt 3) be i (reset = ''true'' \<or> rb_Reset b) st2))))))"

text \<open>
  One cycle of \<^verbatim>\<open>RestartByID\<close>. \<open>intf\<close> is what others write between the checks and the write of the status,
  while the signal is sent and the container stops.
\<close>

definition runRestartCycle ::
  "instant \<Rightarrow> instant \<Rightarrow> faults \<Rightarrow> backends \<Rightarrow> (life_row list \<Rightarrow> life_row list) \<Rightarrow> string \<Rightarrow> ws_store \<Rightarrow> ws_store option" where
  "runRestartCycle now now' flt be intf i st =
     (case (if flt 0 then None
            else select_first (\<lambda>r. w_id r = i \<and> w_status r \<notin> {StatusRemoved, StatusPaused, StatusHibernated}) (ss_rows st)) of
        None \<Rightarrow> Some st
      | Some r \<Rightarrow>
          (let dbRuntime = runtime_or ''claude-code'' r
           in if isExternalLikeRuntime dbRuntime \<or> dbRuntime = ''mock'' then Some st
              else Option.bind (isParentPaused (\<lambda>k. flt (k + 3)) 0 i (ss_rows st)) (\<lambda>paused.
                if paused \<noteq> None then Some st
                else let st1 = exec_store False intf (stopForRestart be i st);
                         st2 = announce (WorkspaceProvisioning i) (exec_store (flt 1) (put_status now i StatusProvisioning) st1)
                     in Some (snd (provisionWorkspaceAuto now' (flt 2) be i st2)))))"

section \<open>Pause and resume\<close>

definition pausable :: "life_row \<Rightarrow> bool" where
  "pausable r \<longleftrightarrow> w_status r \<notin> {StatusRemoved, StatusPaused}"

definition id_name :: "life_row \<Rightarrow> string \<times> string" where
  "id_name r = (w_id r, w_name r)"

definition pause_one :: "(nat \<Rightarrow> instant) \<Rightarrow> faults \<Rightarrow> backends \<Rightarrow> nat \<times> string \<Rightarrow> ws_store \<Rightarrow> ws_store" where
  "pause_one clk flt be = (\<lambda>(k, i) st.
     announce (WorkspacePaused i) (exec_store (flt k) (put_status (clk k) i StatusPaused) (snd (StopWorkspaceAuto be i st))))"

text \<open>A failed query for the descendants counts as none.\<close>

definition Pause ::
  "(nat \<Rightarrow> instant) \<Rightarrow> faults \<Rightarrow> backends \<Rightarrow> string \<Rightarrow> string \<Rightarrow> ws_store \<Rightarrow> (route_reply \<times> ws_store) option" where
  "Pause clk flt be i cascade st =
     (if flt 0 then Some (RouteErr 500 ''lookup failed'', st)
      else case select_first (\<lambda>r. w_id r = i \<and> pausable r) (ss_rows st) of
             None \<Rightarrow> Some (RouteErr 404 ''workspace not found or already paused'', st)
           | Some r \<Rightarrow>
               Option.bind (if flt 1 then Some [] else descendants pausable [i] (ss_rows st)) (\<lambda>ds.
                 if cascade \<noteq> ''true'' \<and> ds \<noteq> []
                 then Some (RouteConflict ''workspace has descendants'' (map id_name ds), st)
                 else Some (RouteOk ''paused'' (Suc (length ds)),
                        fold (pause_one clk (\<lambda>k. flt (k + 2)) be) (List.enumerate 0 (i # map w_id ds)) st)))"

definition resume_status :: "instant \<Rightarrow> string \<Rightarrow> life_row list \<Rightarrow> life_row list" where
  "resume_status now i rows = set_status now i (\<lambda>_. True) StatusProvisioning rows"

definition resume_one :: "(nat \<Rightarrow> instant) \<Rightarrow> faults \<Rightarrow> backends \<Rightarrow> nat \<times> string \<Rightarrow> ws_store \<Rightarrow> ws_store" where
  "resume_one clk flt be = (\<lambda>(k, i) st.
     snd (provisionWorkspaceAuto (clk k) (flt (2 * k)) be i
       (announce (WorkspaceProvisioning i) (exec_store (flt (2 * k + 1)) (resume_status (clk k) i) st))))"

definition paused_row :: "life_row \<Rightarrow> bool" where
  "paused_row r \<longleftrightarrow> w_status r = StatusPaused"

text \<open>The faults of the walk up and those of the writes are separate arguments.\<close>

definition Resume ::
  "(nat \<Rightarrow> instant) \<Rightarrow> faults \<Rightarrow> faults \<Rightarrow> backends \<Rightarrow> string \<Rightarrow> string \<Rightarrow> ws_store \<Rightarrow> (route_reply \<times> ws_store) option" where
  "Resume clk flt walk be i cascade st =
     (if flt 0 then Some (RouteErr 500 ''lookup failed'', st)
      else case select_first (\<lambda>r. w_id r = i \<and> paused_row r) (ss_rows st) of
             None \<Rightarrow> Some (RouteErr 404 ''workspace not found or not paused'', st)
           | Some r \<Rightarrow>
               if \<not> HasProvisioner be then Some (RouteErr 503 ''provisioner not available'', st)
               else Option.bind (isParentPaused walk 0 i (ss_rows st)) (\<lambda>paused.
                 case paused of
                   Some parentName \<Rightarrow> Some (RouteErr 409 (''parent workspace '' @ parentName @ '' is paused''), st)
                 | None \<Rightarrow>
                     Option.bind (if flt 1 then Some [] else descendants paused_row [i] (ss_rows st)) (\<lambda>ds.
                       if cascade \<noteq> ''true'' \<and> ds \<noteq> []
                       then Some (RouteConflict ''workspace has descendants'' (map id_name ds), st)
                       else Some (RouteOk ''provisioning'' (Suc (length ds)),
                              fold (resume_one clk (\<lambda>k. flt (k + 2)) be) (List.enumerate 0 (i # map w_id ds)) st))))"

section \<open>Deletion\<close>

definition not_removed :: "life_row \<Rightarrow> bool" where
  "not_removed r \<longleftrightarrow> w_status r \<noteq> StatusRemoved"

definition revoke_tokens_of :: "instant \<Rightarrow> string list \<Rightarrow> auth_db \<Rightarrow> auth_db" where
  "revoke_tokens_of now ids db =
     db\<lparr>db_ws_tokens := update_where (\<lambda>t. wt_workspace_id t \<in> set ids \<and> wt_revoked_at t = None)
          (\<lambda>t. t\<lparr>wt_revoked_at := Some now\<rparr>) (db_ws_tokens db)\<rparr>"

text \<open>The four statements at the start, each of which may fail on its own and is then only logged.\<close>

definition mark_deleted :: "instant \<Rightarrow> faults \<Rightarrow> string list \<Rightarrow> ws_store \<Rightarrow> ws_store" where
  "mark_deleted now flt ids st =
     st\<lparr>ss_rows := (if flt 0 then ss_rows st else remove_workspaces now ids (ss_rows st)),
        ss_layouts := (if flt 1 then ss_layouts st else filter (\<lambda>w. w \<notin> set ids) (ss_layouts st)),
        ss_auth := (if flt 2 then ss_auth st else revoke_tokens_of now ids (ss_auth st)),
        ss_schedules := (if flt 3 then ss_schedules st
                         else map (\<lambda>(w, enabled). (w, enabled \<and> w \<notin> set ids)) (ss_schedules st))\<rparr>"

definition stopAndRemove :: "backends \<Rightarrow> bool \<Rightarrow> string \<Rightarrow> ws_store \<Rightarrow> string option \<times> ws_store" where
  "stopAndRemove be erase i st =
     (case stopWorkspaceForDelete be i erase st of
        (Some e, st') \<Rightarrow> (Some e, st')
      | (None, st') \<Rightarrow> (None, if be_docker be then call [DockerRemoveVolume i] st' else st'))"

definition tear_down :: "backends \<Rightarrow> bool \<Rightarrow> nat \<Rightarrow> string \<Rightarrow> string list \<times> ws_store \<Rightarrow> string list \<times> ws_store" where
  "tear_down be erase n i = (\<lambda>(errs, st).
     case stopAndRemove be erase i st of
       (e, st') \<Rightarrow> (errs @ (case e of None \<Rightarrow> [] | Some m \<Rightarrow> [m]), announce (WorkspaceRemoved i n) st'))"

datatype cascade_error = InvalidID | DescendantQuery

text \<open>
  \<open>valid_uuid\<close> is the parser of the UUID package. The result: the error, or the descendants and the
  errors of the stops; \<^term>\<open>None\<close> when the recursive query does not end.
\<close>

definition CascadeDelete ::
  "(string \<Rightarrow> bool) \<Rightarrow> instant \<Rightarrow> faults \<Rightarrow> backends \<Rightarrow> string \<Rightarrow> bool \<Rightarrow> ws_store \<Rightarrow>
   ((cascade_error + string list \<times> string list) \<times> ws_store) option" where
  "CascadeDelete valid_uuid now flt be i erase st =
     (if \<not> valid_uuid i then Some (Inl InvalidID, st)
      else if flt 0 then Some (Inl DescendantQuery, st)
      else Option.bind (descendants not_removed [i] (ss_rows st)) (\<lambda>ds.
        let ids = map w_id ds;
            st1 = mark_deleted now (\<lambda>k. flt (Suc k)) (i # ids) st;
            (errs, st2) = fold (tear_down be erase 0) ids ([], st1);
            (errs', st3) = tear_down be erase (length ids) i (errs, st2)
        in Some (Inr (ids, errs'), st3)))"

record delete_request =
  dr_id :: string
  dr_confirm :: string
  dr_X_Confirm_Name :: string
  dr_erase_data :: string
  dr_purge :: string

datatype delete_reply =
    DelErr nat string
  | DelConfirmName string int nat nat
  | DelGate nat string
  | DelConfirmChildren "(string \<times> string) list"
  | DelStopFailed nat nat
  | DelPurged nat
  | DelRemoved nat

definition destructiveDeleteCounts :: "bool \<Rightarrow> bool \<Rightarrow> string \<Rightarrow> ws_store \<Rightarrow> nat \<times> nat" where
  "destructiveDeleteCounts fault fault' i st =
     ((if fault then 0 else count_where (\<lambda>r. w_parent_id r = Some i \<and> not_removed r) (ss_rows st)),
      (if fault' then 0 else count_where (\<lambda>(w, enabled). w = i \<and> enabled) (ss_schedules st)))"

text \<open>
  The purge on the tables of the store: dependent rows, parents that pointed to a purged workspace,
  then the workspaces. Only the last failure is answered. The parent of a row that stays is set to
  none. The other tables have no part in the store.
\<close>

definition purge_dependents :: "faults \<Rightarrow> string list \<Rightarrow> ws_store \<Rightarrow> ws_store" where
  "purge_dependents flt ids st =
     (let auth = ss_auth st
      in st\<lparr>ss_auth := (if flt 0 then auth
                        else auth\<lparr>db_ws_tokens := filter (\<lambda>t. wt_workspace_id t \<notin> set ids) (db_ws_tokens auth)\<rparr>),
            ss_schedules := (if flt 1 then ss_schedules st else filter (\<lambda>(w, _). w \<notin> set ids) (ss_schedules st)),
            ss_layouts := (if flt 2 then ss_layouts st else filter (\<lambda>w. w \<notin> set ids) (ss_layouts st)),
            ss_rows := (if flt 3 then ss_rows st
                        else update_where (\<lambda>r. \<exists>p \<in> set ids. w_parent_id r = Some p) (\<lambda>r. r\<lparr>w_parent_id := None\<rparr>) (ss_rows st))\<rparr>)"

definition purge :: "faults \<Rightarrow> string list \<Rightarrow> ws_store \<Rightarrow> bool \<times> ws_store" where
  "purge flt ids st =
     (let st1 = purge_dependents flt ids st
      in if flt 4 then (False, st1)
         else (True, st1\<lparr>ss_rows := filter (\<lambda>r. w_id r \<notin> set ids) (ss_rows st1)\<rparr>))"

text \<open>
  The route. Approvals have their own state, which the gate may extend; \<open>marshal\<close> renders the context of
  the operation.
\<close>

definition Delete ::
  "(string \<Rightarrow> bool) \<Rightarrow> gate_env \<Rightarrow> (string \<Rightarrow> string \<Rightarrow> string option) \<Rightarrow> instant \<Rightarrow> faults \<Rightarrow> (string \<Rightarrow> bool) \<Rightarrow> string \<Rightarrow> backends \<Rightarrow>
   gin_context \<Rightarrow> delete_request \<Rightarrow> ws_store \<times> approval_state \<Rightarrow> (delete_reply \<times> ws_store \<times> approval_state) option" where
  "Delete valid_uuid env marshal now flt locked aid be c req = (\<lambda>(st, ast).
     let i = dr_id req
     in if \<not> valid_uuid i then Some (DelErr 400 ''invalid workspace ID'', st, ast)
        else if flt 0 then Some (DelErr 500 ''failed to check workspace'', st, ast)
        else case find_ws i (ss_rows st) of
               None \<Rightarrow> Some (DelErr 404 ''workspace not found'', st, ast)
             | Some r \<Rightarrow>
                 if w_status r = StatusRemoved then Some (DelErr 410 ''workspace removed'', st, ast)
                 else if dr_X_Confirm_Name req \<noteq> w_name r then
                   (case destructiveDeleteCounts (flt 1) (flt 2) i st of
                      (childCount, scheduleCount) \<Rightarrow>
                        Some (DelConfirmName (w_name r) (w_active_tasks r) childCount scheduleCount, st, ast))
                 else (case gateDestructive env now (\<lambda>k. flt (k + 3)) locked aid c i ActionDeleteWorkspace
                              (''delete workspace '' @ w_name r) (marshal i (w_name r)) ast of
                         (Reply code msg, ast') \<Rightarrow> Some (DelGate code msg, st, ast')
                       | (Proceed, ast') \<Rightarrow>
                           if flt 8 then Some (DelErr 500 ''failed to check children'', st, ast')
                           else let children = filter (\<lambda>x. w_parent_id x = Some i \<and> not_removed x) (ss_rows st)
                                in if children \<noteq> [] \<and> dr_confirm req \<noteq> ''true''
                                   then Some (DelConfirmChildren (map id_name children), st, ast')
                                   else Option.bind (CascadeDelete valid_uuid now (\<lambda>k. flt (k + 9)) be i (dr_erase_data req = ''true'') st)
                                     (\<lambda>(outcome, st'). case outcome of
                                        Inl _ \<Rightarrow> Some (DelErr 500 ''internal error processing delete request'', st', ast')
                                      | Inr (ids, errs) \<Rightarrow>
                                          if errs \<noteq> [] then Some (DelStopFailed (Suc (length ids)) (length errs), st', ast')
                                          else if dr_purge req = ''true'' then
                                            (case purge (\<lambda>k. flt (k + 14)) (i # ids) st' of
                                               (False, st'') \<Rightarrow> Some (DelErr 500 ''purge failed'', st'', ast')
                                             | (True, st'') \<Rightarrow> Some (DelPurged (length ids), st'', ast'))
                                          else Some (DelRemoved (length ids), st', ast'))))"

section \<open>Validation and the template route\<close>

definition yamlSpecialChars :: string where
  "yamlSpecialChars = ''{}[]|>*&!''"

definition ContainsAny :: "string \<Rightarrow> string \<Rightarrow> bool" where
  "ContainsAny s chars \<longleftrightarrow> (\<exists>c \<in> set s. c \<in> set chars)"

text \<open>\<^term>\<open>None\<close>: accepted. Lengths are bytes.\<close>

definition validateWorkspaceFields :: "string \<Rightarrow> string \<Rightarrow> string \<Rightarrow> string \<Rightarrow> string option" where
  "validateWorkspaceFields name role model runtime =
     (case filter (\<lambda>(_, v). ContainsAny v [CHR 0x0A, CHR 0x0D])
             [(''name'', name), (''role'', role), (''model'', model), (''runtime'', runtime)] of
        (label, _) # _ \<Rightarrow> Some (label @ '' must not contain newline characters'')
      | [] \<Rightarrow>
          (case filter (\<lambda>(_, v). ContainsAny v yamlSpecialChars) [(''name'', name), (''role'', role)] of
             (label, _) # _ \<Rightarrow> Some (label @ '' contains invalid characters'')
           | [] \<Rightarrow>
               if 255 < length name then Some ''name must be at most 255 characters''
               else if 1000 < length role then Some ''role must be at most 1000 characters''
               else if 100 < length model then Some ''model must be at most 100 characters''
               else if 100 < length runtime then Some ''runtime must be at most 100 characters''
               else None))"

definition blocked_dirs :: "string list" where
  "blocked_dirs = [''/etc'', ''/var'', ''/proc'', ''/sys'', ''/dev'', ''/boot'', ''/sbin'', ''/bin'', ''/lib'', ''/usr'']"

definition under_dir :: "string \<Rightarrow> string \<Rightarrow> bool" where
  "under_dir path dir \<longleftrightarrow> path = dir \<or> has_prefix (dir @ ''/'') path"

definition validateWorkspaceDir :: "string \<Rightarrow> bool" where
  "validateWorkspaceDir dir =
     (if \<not> IsAbs dir then False
      else if contains_dotdot dir then False
      else \<not> list_ex (under_dir (Clean dir)) blocked_dirs)"

text \<open>\<open>known\<close> is \<^verbatim>\<open>isKnownTemplate\<close>, which reads the manifest.\<close>

definition PatchTemplate ::
  "(string \<Rightarrow> bool) \<Rightarrow> (string \<Rightarrow> bool) \<Rightarrow> instant \<Rightarrow> faults \<Rightarrow> string \<Rightarrow> string option \<Rightarrow> ws_store \<Rightarrow> route_reply \<times> ws_store" where
  "PatchTemplate valid_uuid known now flt i body st =
     (if \<not> valid_uuid i then (RouteErr 400 ''invalid workspace id'', st)
      else case body of
             None \<Rightarrow> (RouteErr 400 ''template is required'', st)
           | Some t \<Rightarrow>
               if \<not> known t then (RouteErr 422 ''unsupported workspace template'', st)
               else if flt 0 then (RouteErr 500 ''lookup failed'', st)
               else if find_ws i (ss_rows st) = None then (RouteErr 404 ''workspace not found'', st)
               else if flt 1 then (RouteErr 500 ''failed to update template'', st)
               else (RouteOk ''updated'' 1,
                     exec_store False (update_where (\<lambda>r. w_id r = i) (\<lambda>r. r\<lparr>w_template := Some t, w_updated_at := now\<rparr>)) st))"

end
