(* ===== verification/Lifecycle_Props.thy ===== *)
theory Lifecycle_Props
  imports Workspace_Routes
begin

text \<open>
  Properties of the heartbeat and of the monitors. First what each statement does to the row a lookup
  finds; then the exact outcome of a heartbeat, the statuses no interleaving leaves, and the passes of
  the monitors.
\<close>

section \<open>Statements on the row of a key\<close>

named_theorems row_effect

lemma find_ws_update_where:
  assumes "\<And>r. w_id (f r) = w_id r"
  shows "find_ws j (update_where P f rows) = map_option (\<lambda>r. if P r then f r else r) (find_ws j rows)"
  unfolding find_ws_def using assms by (rule select_key_update_where)

lemma find_ws_id: "find_ws i rows = Some r \<Longrightarrow> w_id r = i"
  by (auto simp: find_ws_def dest: select_first_SomeD)

lemma find_ws_mem: "find_ws i rows = Some r \<Longrightarrow> r \<in> set rows"
  by (auto simp: find_ws_def dest: select_first_SomeD)

lemma find_ws_effects [row_effect]:
  "find_ws j (set_status now i guard st rows) =
     map_option (\<lambda>r. if w_id r = i \<and> guard r then r\<lparr>w_status := st, w_updated_at := now\<rparr> else r) (find_ws j rows)"
  "find_ws j (backfill_card p rows) =
     map_option (\<lambda>r. if w_id r = hp_WorkspaceID p \<and> w_agent_card r = None then r\<lparr>w_agent_card := Some (hp_AgentCard p)\<rparr> else r) (find_ws j rows)"
  "find_ws j (clear_register_failure i rows) =
     map_option (\<lambda>r. if w_id r = i \<and> w_last_register_failure_at r \<noteq> None then r\<lparr>w_last_register_failure_at := None\<rparr> else r) (find_ws j rows)"
  "find_ws j (mark_failed_update now i msg rows) =
     map_option (\<lambda>r. if w_id r = i then r\<lparr>w_status := StatusFailed, w_last_sample_error := Some msg, w_updated_at := now\<rparr> else r) (find_ws j rows)"
  "find_ws j (put_status now i st rows) =
     map_option (\<lambda>r. if w_id r = i then r\<lparr>w_status := st, w_url := Some [], w_updated_at := now\<rparr> else r) (find_ws j rows)"
  "find_ws j (remove_workspaces now ids rows) =
     map_option (\<lambda>r. if w_id r \<in> set ids then r\<lparr>w_status := StatusRemoved, w_updated_at := now\<rparr> else r) (find_ws j rows)"
  "find_ws j (clear_instance now i rows) =
     map_option (\<lambda>r. if w_id r = i then r\<lparr>w_instance_id := None, w_updated_at := now\<rparr> else r) (find_ws j rows)"
  "find_ws j (stamp_unloaded now i rows) =
     map_option (\<lambda>r. if w_id r = i then r\<lparr>w_mcp_unloaded_since := coalesce (w_mcp_unloaded_since r) (Some now), w_updated_at := now\<rparr> else r)
       (find_ws j rows)"
  "find_ws j (clear_unloaded now i rows) =
     map_option (\<lambda>r. if w_id r = i \<and> w_mcp_unloaded_since r \<noteq> None then r\<lparr>w_mcp_unloaded_since := None, w_updated_at := now\<rparr> else r)
       (find_ws j rows)"
  "find_ws j (degrade_with_error now i msg rows) =
     map_option (\<lambda>r. if w_id r = i \<and> w_status r = StatusOnline
       then r\<lparr>w_status := StatusDegraded, w_last_sample_error := Some msg, w_updated_at := now\<rparr> else r) (find_ws j rows)"
  "find_ws j (provision_timeout now i msg t rows) =
     map_option (\<lambda>r. if w_id r = i \<and> timeout_guard now t r
       then r\<lparr>w_status := StatusFailed, w_last_sample_error := Some msg, w_updated_at := now\<rparr> else r) (find_ws j rows)"
  by (simp_all add: set_status_def backfill_card_def clear_register_failure_def mark_failed_update_def put_status_def
      remove_workspaces_def clear_instance_def stamp_unloaded_def clear_unloaded_def degrade_with_error_def
      provision_timeout_def find_ws_update_where)

lemma find_ws_heartbeat [row_effect]:
  "find_ws j (heartbeat_update now p rows) =
     map_option (\<lambda>r. if w_id r = hp_WorkspaceID p \<and> w_status r \<noteq> StatusRemoved
       then r\<lparr>w_last_heartbeat_at := Some now, w_last_error_rate := Some (hp_ErrorRate p), w_last_sample_error := Some (hp_SampleError p),
              w_active_tasks := hp_ActiveTasks p, w_uptime_seconds := Some (hp_UptimeSeconds p), w_current_task := Some (hp_CurrentTask p),
              w_status := (if w_status r = StatusProvisioning then StatusOnline else w_status r), w_updated_at := now\<rparr>
       else r) (find_ws j rows)"
  by (simp add: heartbeat_update_def find_ws_update_where)

lemma find_ws_liveness [row_effect]:
  "find_ws j (liveness_expired now i rows) =
     map_option (\<lambda>r. if w_id r = i \<and> w_status r \<notin> {StatusRemoved, StatusPaused, StatusHibernated}
       then r\<lparr>w_status := (if w_runtime r = Some ''external'' then StatusAwaitingAgent else StatusOffline), w_updated_at := now\<rparr>
       else r) (find_ws j rows)"
  by (simp add: liveness_expired_def find_ws_update_where)

lemma find_ws_register [row_effect]:
  "find_ws j rows = Some r \<Longrightarrow>
   find_ws j (register_upsert now i url c mode kind rows) =
     Some (if w_id r = i \<and> w_status r \<noteq> StatusRemoved \<and> \<not> cast_fails (w_url r)
       then r\<lparr>w_url := (if keeps_url (w_url r) then w_url r else url), w_agent_card := Some c, w_status := StatusOnline,
              w_last_heartbeat_at := Some now, w_delivery_mode := Some mode,
              w_kind := (if kind = [] then w_kind r else kind), w_updated_at := now\<rparr> else r)"
proof (cases "i \<in> w_id ` set rows")
  case False
  moreover assume row: "find_ws j rows = Some r"
  ultimately have "w_id r \<noteq> i" by (auto dest: find_ws_mem)
  with False row show ?thesis by (simp add: register_upsert_def find_ws_def select_first_append)
qed (simp add: register_upsert_def find_ws_update_where)

lemmas set_status_defs = degrade_online_def recover_from_def container_gone_def remote_stale_def hibernate_claim_def resume_status_def

section \<open>The outcome of a heartbeat\<close>

text \<open>
  What a heartbeat makes of the status of an ordinary workspace, as one table: \<open>native\<close> for runtimes that
  report their own status, \<open>recent\<close> for a registration failure in the last five minutes.
\<close>

definition heartbeat_next :: "bool \<Rightarrow> bool \<Rightarrow> HeartbeatPayload \<Rightarrow> WorkspaceStatus \<Rightarrow> WorkspaceStatus" where
  "heartbeat_next native recent p s =
     (let unhealthy = (hp_RuntimeState p = ''wedged'' \<or> (\<not> native \<and> 1 / 2 \<le> hp_ErrorRate p) \<or> recent);
          healthy = (\<not> native \<and> hp_ErrorRate p < 1 / 10 \<and> hp_RuntimeState p = [] \<and> \<not> recent)
      in case s of
           StatusProvisioning \<Rightarrow> if unhealthy then StatusDegraded else StatusOnline
         | StatusOnline \<Rightarrow> if unhealthy then StatusDegraded else StatusOnline
         | StatusDegraded \<Rightarrow> if healthy then StatusOnline else StatusDegraded
         | StatusOffline \<Rightarrow> StatusOnline
         | StatusAwaitingAgent \<Rightarrow> StatusOnline
         | StatusFailed \<Rightarrow> StatusOnline
         | other \<Rightarrow> other)"

definition recent_register_failure :: "instant \<Rightarrow> HeartbeatPayload \<Rightarrow> life_row \<Rightarrow> bool" where
  "recent_register_failure now p r \<longleftrightarrow>
     hp_AgentCard p = [] \<and> (case w_last_register_failure_at r of None \<Rightarrow> False | Some t \<Rightarrow> now - t < 5 * minute)"

lemma ls_rows_branches [simp]:
  "ls_rows (emit_life e st) = ls_rows st"
  "ls_rows (fireReconcileOnline env i st) = ls_rows st"
  "ls_rows (drain_branch env fault p st) = ls_rows st"
  "ls_rows (exec_rows fault f st) = (if fault then ls_rows st else f (ls_rows st))"
  "ls_rows (degrade_branch now cond fault i st) = (if cond \<and> \<not> fault then degrade_online now i (ls_rows st) else ls_rows st)"
  "ls_rows (recover_branch env now cond fault i s st) = (if cond \<and> \<not> fault then recover_from now i s (ls_rows st) else ls_rows st)"
  by (simp_all add: emit_life_def fireReconcileOnline_def drain_branch_def exec_rows_def degrade_branch_def recover_branch_def
      back_online_def Let_def)

lemma status_of_branches:
  "status_of i (degrade_online now i rows) = map_option (\<lambda>s. if s = StatusOnline then StatusDegraded else s) (status_of i rows)"
  "status_of i (recover_from now i s rows) = map_option (\<lambda>x. if x = s then StatusOnline else x) (status_of i rows)"
  by (cases "find_ws i rows"; auto simp: status_of_def set_status_defs row_effect dest: find_ws_id)+

lemma evaluateStatus_status:
  assumes row: "find_ws (hp_WorkspaceID p) (ls_rows st) = Some r" and kind: "w_kind r \<noteq> KindPlatform"
  shows "status_of (hp_WorkspaceID p) (ls_rows (evaluateStatus env now no_faults p st)) =
    Some (if w_status r = StatusProvisioning then StatusOnline
          else heartbeat_next (le_native_status env (hp_WorkspaceID p))
            (case w_last_register_failure_at r of None \<Rightarrow> False | Some t \<Rightarrow> now - t < 5 * minute) p (w_status r))"
proof -
  have "status_of (hp_WorkspaceID p) (ls_rows st) = Some (w_status r)" using row by (simp add: status_of_def)
  then show ?thesis using row kind
    by (cases "w_status r") (auto simp: evaluateStatus_def platform_gate_def status_of_branches heartbeat_next_def Let_def)
qed

lemma heartbeat_row:
  assumes "find_ws (hp_WorkspaceID p) rows = Some r"
  shows "\<exists>r'. find_ws (hp_WorkspaceID p) (heartbeat_update now p rows) = Some r' \<and> w_kind r' = w_kind r \<and>
    w_last_register_failure_at r' = w_last_register_failure_at r \<and>
    w_status r' = (if w_status r = StatusProvisioning then StatusOnline else w_status r)"
  using assms find_ws_id [OF assms] by (cases "w_status r = StatusRemoved") (simp_all add: row_effect)

lemma card_statements_row:
  assumes "find_ws (hp_WorkspaceID p) rows = Some r"
  shows "\<exists>r'. find_ws (hp_WorkspaceID p) (clear_register_failure (hp_WorkspaceID p) (backfill_card p rows)) = Some r' \<and>
    w_kind r' = w_kind r \<and> w_last_register_failure_at r' = None \<and> w_status r' = w_status r"
  using assms find_ws_id [OF assms] by (cases "w_last_register_failure_at r") (simp_all add: row_effect)

lemma heartbeat_next_online:
  "(if (if s = StatusProvisioning then StatusOnline else s) = StatusProvisioning then StatusOnline
    else heartbeat_next native recent p (if s = StatusProvisioning then StatusOnline else s)) = heartbeat_next native recent p s"
  by (simp add: heartbeat_next_def)

text \<open>What \<^verbatim>\<open>evaluateStatus\<close> reads after the first statements of a heartbeat.\<close>

lemma heartbeat_reads:
  assumes "find_ws (hp_WorkspaceID p) (ls_rows st) = Some r"
  obtains st' r' where "Registry_Heartbeat env now no_faults p st = (True, evaluateStatus env now no_faults p st')"
    "find_ws (hp_WorkspaceID p) (ls_rows st') = Some r'" "w_kind r' = w_kind r"
    "(case w_last_register_failure_at r' of None \<Rightarrow> False | Some t \<Rightarrow> now - t < 5 * minute) = recent_register_failure now p r"
    "w_status r' = (if w_status r = StatusProvisioning then StatusOnline else w_status r)"
proof -
  let ?i = "hp_WorkspaceID p"
  let ?rows = "heartbeat_update now p (ls_rows st)"
  obtain r1 where r1: "find_ws ?i ?rows = Some r1" "w_kind r1 = w_kind r"
      "w_last_register_failure_at r1 = w_last_register_failure_at r"
      "w_status r1 = (if w_status r = StatusProvisioning then StatusOnline else w_status r)"
    using heartbeat_row [OF assms] by blast
  obtain r2 where r2: "find_ws ?i (clear_register_failure ?i (backfill_card p ?rows)) = Some r2"
      "w_kind r2 = w_kind r1" "w_last_register_failure_at r2 = None" "w_status r2 = w_status r1"
    using card_statements_row [OF r1(1)] by blast
  have all_fine: "(\<lambda>k. False) = no_faults" by (simp add: fun_eq_iff)
  define st' where "st' = (let st1 = exec_rows False (heartbeat_update now p) st;
      st2 = (if status_of ?i (ls_rows st) = Some StatusProvisioning then fireReconcileOnline env ?i st1 else st1);
      st3 = (if hp_AgentCard p \<noteq> [] then exec_rows False (backfill_card p) st2 else st2)
    in if hp_AgentCard p \<noteq> [] then exec_rows False (clear_register_failure ?i) st3 else st3)"
  have run: "Registry_Heartbeat env now no_faults p st = (True, evaluateStatus env now no_faults p st')"
    by (simp add: Registry_Heartbeat_def st'_def Let_def all_fine)
  have rows: "ls_rows st' = (if hp_AgentCard p = [] then ?rows else clear_register_failure ?i (backfill_card p ?rows))"
    by (simp add: st'_def Let_def)
  show thesis
    by (rule that [OF run, of "if hp_AgentCard p = [] then r1 else r2"])
      (use r1 r2 rows in \<open>auto simp: recent_register_failure_def\<close>)
qed

text \<open>C26: The outcome of a heartbeat. When its statements succeed, the row of an ordinary workspace has
  exactly the status of the table: provisioning, offline, awaiting and failed rows come back, an
  unhealthy heartbeat degrades an online row at once, a degraded row recovers only below a tenth of
  errors with no runtime state and no recent registration failure, and removed, paused, hibernating and
  hibernated rows keep their status. The thresholds, degraded from 0.5 and back below 0.1, are those of
  \<^verbatim>\<open>docs/api-protocol/registry-and-heartbeat.md\<close>; \<^verbatim>\<open>docs/guides/external-agent-registration.md\<close> says degraded above
  0.5 and back below 0.5, which the code does not do.\<close>

theorem heartbeat_status:
  assumes "find_ws (hp_WorkspaceID p) (ls_rows st) = Some r" and "w_kind r \<noteq> KindPlatform"
  shows "fst (Registry_Heartbeat env now no_faults p st) \<and>
    status_of (hp_WorkspaceID p) (ls_rows (snd (Registry_Heartbeat env now no_faults p st))) =
      Some (heartbeat_next (le_native_status env (hp_WorkspaceID p)) (recent_register_failure now p r) p (w_status r))"
proof -
  obtain st' r' where r': "Registry_Heartbeat env now no_faults p st = (True, evaluateStatus env now no_faults p st')"
      "find_ws (hp_WorkspaceID p) (ls_rows st') = Some r'" "w_kind r' = w_kind r"
      "(case w_last_register_failure_at r' of None \<Rightarrow> False | Some t \<Rightarrow> now - t < 5 * minute) = recent_register_failure now p r"
      "w_status r' = (if w_status r = StatusProvisioning then StatusOnline else w_status r)"
    using assms(1) by (rule heartbeat_reads)
  have "w_kind r' \<noteq> KindPlatform" using r'(3) assms(2) by simp
  from evaluateStatus_status [OF r'(2) this, of env now] show ?thesis
    unfolding r'(1,4,5) fst_conv snd_conv heartbeat_next_online by simp
qed

text \<open>A row and a payload to evaluate on.\<close>

definition life_row_of :: "string \<Rightarrow> WorkspaceStatus \<Rightarrow> life_row" where
  "life_row_of i s =
     \<lparr>w_id = i, w_name = i, w_status = s, w_kind = ''workspace'', w_parent_id = None, w_runtime = Some ''claude-code'', w_template = None,
      w_instance_id = Some ''i-1'', w_url = None, w_agent_card = None, w_delivery_mode = Some ''push'', w_updated_at = 0,
      w_last_heartbeat_at = Some 0, w_last_outbound_at = None, w_last_error_rate = Some 0, w_last_sample_error = None, w_active_tasks = 0,
      w_uptime_seconds = Some 0, w_current_task = None, w_max_concurrent_tasks = Some 1, w_hibernation_idle_minutes = Some 30,
      w_last_register_failure_at = None, w_mcp_unloaded_since = None\<rparr>"

definition payload_of :: "string \<Rightarrow> HeartbeatPayload" where
  "payload_of i =
     \<lparr>hp_WorkspaceID = i, hp_ErrorRate = 0, hp_SampleError = [], hp_ActiveTasks = 0, hp_UptimeSeconds = 0, hp_CurrentTask = [], hp_RuntimeState = [],
      hp_AgentCard = [], hp_MCPServerPresent = None, hp_LoadedMCPTools = None\<rparr>"

definition life_env_of :: life_env where
  "life_env_of = \<lparr>le_has_model = (\<lambda>_. True), le_declared_management = (\<lambda>_. False), le_native_status = (\<lambda>_. False),
     le_reconcile_wired = True, le_drain_wired = True\<rparr>"

definition life_of :: "life_row list \<Rightarrow> life_state" where
  "life_of rows = \<lparr>ls_rows = rows, ls_events = [], ls_reconciles = [], ls_drains = []\<rparr>"

theorem heartbeat_status_witness:
  "status_of ''w'' (ls_rows (snd (Registry_Heartbeat life_env_of 100 no_faults ((payload_of ''w'')\<lparr>hp_RuntimeState := ''wedged''\<rparr>)
     (life_of [life_row_of ''w'' StatusProvisioning])))) = Some StatusDegraded"
  using heartbeat_status [of "(payload_of ''w'')\<lparr>hp_RuntimeState := ''wedged''\<rparr>" "life_of [life_row_of ''w'' StatusProvisioning]"
      "life_row_of ''w'' StatusProvisioning" life_env_of 100]
  by (simp add: payload_of_def life_row_of_def life_of_def find_ws_def KindPlatform_def heartbeat_next_def)

section \<open>Removed workspaces\<close>

text \<open>The guarded statements, as the operations that interleave.\<close>

datatype life_op =
    StHeartbeat instant HeartbeatPayload
  | StBackfill HeartbeatPayload
  | StClearFailure string
  | StDegrade instant string
  | StDegradeError instant string string
  | StRecover instant string WorkspaceStatus
  | StStamp instant string
  | StClearUnloaded instant string
  | StRegister instant string "string option" string string string
  | StContainerGone instant string
  | StRemoteStale instant string
  | StLiveness instant string
  | StTimeout instant string string int
  | StClearInstance instant string
  | StHibernateClaim instant string
  | StRemove instant "string list"

definition recoverable :: "WorkspaceStatus list" where
  "recoverable = [StatusDegraded, StatusOffline, StatusProvisioning, StatusAwaitingAgent, StatusFailed]"

fun life_step :: "life_row list \<Rightarrow> life_op \<Rightarrow> life_row list" where
  "life_step rows (StHeartbeat now p) = heartbeat_update now p rows"
| "life_step rows (StBackfill p) = backfill_card p rows"
| "life_step rows (StClearFailure i) = clear_register_failure i rows"
| "life_step rows (StDegrade now i) = degrade_online now i rows"
| "life_step rows (StDegradeError now i msg) = degrade_with_error now i msg rows"
| "life_step rows (StRecover now i s) = (if s \<in> set recoverable then recover_from now i s rows else rows)"
| "life_step rows (StStamp now i) = stamp_unloaded now i rows"
| "life_step rows (StClearUnloaded now i) = clear_unloaded now i rows"
| "life_step rows (StRegister now i url agentCard mode kind) = register_upsert now i url agentCard mode kind rows"
| "life_step rows (StContainerGone now i) = container_gone now i rows"
| "life_step rows (StRemoteStale now i) = remote_stale now i rows"
| "life_step rows (StLiveness now i) = liveness_expired now i rows"
| "life_step rows (StTimeout now i msg t) = provision_timeout now i msg t rows"
| "life_step rows (StClearInstance now i) = clear_instance now i rows"
| "life_step rows (StHibernateClaim now i) = hibernate_claim now i rows"
| "life_step rows (StRemove now ids) = remove_workspaces now ids rows"

lemma removed_step:
  assumes "status_of k rows = Some StatusRemoved"
  shows "status_of k (life_step rows op) = Some StatusRemoved"
proof -
  obtain r where r: "find_ws k rows = Some r" "w_status r = StatusRemoved"
    using assms by (auto simp: status_of_def)
  then show ?thesis
    by (cases op) (simp_all add: status_of_def row_effect set_status_defs recoverable_def timeout_guard_def)
qed

interpretation lifecycle: forward_only_system life_step "\<lambda>_. True" "\<lambda>rows k. status_of k rows" "\<lambda>s. s = StatusRemoved"
  by unfold_locales (auto intro: removed_step)

text \<open>A heartbeat of an ordinary workspace is a sequence of these statements, whichever of its statements fail.\<close>

definition life_runs :: "life_row list \<Rightarrow> life_row list \<Rightarrow> bool" where
  "life_runs rows rows' \<longleftrightarrow> (\<exists>ops. rows' = foldl life_step rows ops)"

lemma life_runs_refl: "life_runs rows rows"
  unfolding life_runs_def by (rule exI [of _ "[]"]) simp

lemma life_runs_step:
  assumes "life_runs rows rows'"
  shows "life_runs rows (life_step rows' op)"
proof -
  from assms obtain ops where "rows' = foldl life_step rows ops" by (auto simp: life_runs_def)
  then have "life_step rows' op = foldl life_step rows (ops @ [op])" by simp
  then show ?thesis unfolding life_runs_def by blast
qed

lemma life_runs_exec:
  assumes "life_runs rows (ls_rows st)" and "f (ls_rows st) = life_step (ls_rows st) op"
  shows "life_runs rows (ls_rows (exec_rows fault f st))"
  using assms life_runs_step [OF assms(1), of op] by simp

lemma life_runs_degrade:
  assumes "life_runs rows (ls_rows st)"
  shows "life_runs rows (ls_rows (degrade_branch now cond fault i st))"
  using assms life_runs_step [OF assms, of "StDegrade now i"] by simp

lemma life_runs_recover:
  assumes "s \<in> set recoverable" "life_runs rows (ls_rows st)"
  shows "life_runs rows (ls_rows (recover_branch env now cond fault i s st))"
  using assms life_runs_step [OF assms(2), of "StRecover now i s"] by simp

lemma life_runs_evaluate:
  assumes "life_runs rows (ls_rows st)"
    and "\<And>r. find_ws (hp_WorkspaceID p) (ls_rows st) = Some r \<Longrightarrow> w_kind r \<noteq> KindPlatform"
  shows "life_runs rows (ls_rows (evaluateStatus env now flt p st))"
proof (cases "if flt 0 then None else find_ws (hp_WorkspaceID p) (ls_rows st)")
  case (Some r)
  then have "w_kind r \<noteq> KindPlatform" using assms(2) by (auto split: if_splits)
  then show ?thesis using assms(1)
    by (simp add: evaluateStatus_def Some platform_gate_def Let_def del: ls_rows_branches(4-) option.case_eq_if)
      (intro life_runs_recover life_runs_degrade, simp_all add: recoverable_def)
qed (use assms(1) in \<open>simp add: evaluateStatus_def Let_def\<close>)

definition ordinary :: "string \<Rightarrow> life_row list \<Rightarrow> bool" where
  "ordinary i rows \<longleftrightarrow> (case find_ws i rows of None \<Rightarrow> True | Some r \<Rightarrow> w_kind r \<noteq> KindPlatform)"

lemma ordinary_statements [simp]:
  "ordinary i (heartbeat_update now p rows) = ordinary i rows"
  "ordinary i (backfill_card p rows) = ordinary i rows"
  "ordinary i (clear_register_failure j rows) = ordinary i rows"
  by (cases "find_ws i rows"; simp add: ordinary_def row_effect)+

lemma heartbeat_runs:
  assumes "ordinary (hp_WorkspaceID p) (ls_rows st)"
  shows "life_runs (ls_rows st) (ls_rows (snd (Registry_Heartbeat env now flt p st)))"
proof (cases "flt 1")
  case False
  let ?i = "hp_WorkspaceID p" and ?rows = "heartbeat_update now p (ls_rows st)"
  define st' where "st' = (let st1 = exec_rows False (heartbeat_update now p) st;
      st2 = (if (if flt 0 then None else status_of ?i (ls_rows st)) = Some StatusProvisioning then fireReconcileOnline env ?i st1 else st1);
      st3 = (if hp_AgentCard p \<noteq> [] then exec_rows (flt 2) (backfill_card p) st2 else st2)
    in if hp_AgentCard p \<noteq> [] then exec_rows (flt 3) (clear_register_failure ?i) st3 else st3)"
  have run: "snd (Registry_Heartbeat env now flt p st) = evaluateStatus env now (\<lambda>k. flt (k + 4)) p st'"
    using False by (simp add: Registry_Heartbeat_def st'_def Let_def)
  have start: "life_runs (ls_rows st) ?rows"
    using life_runs_step [OF life_runs_refl, of "ls_rows st" "StHeartbeat now p"] by simp
  note backfill = life_runs_step [OF start, of "StBackfill p", simplified]
  note clear = life_runs_step [OF start, of "StClearFailure ?i", simplified]
    life_runs_step [OF backfill, of "StClearFailure ?i", simplified]
  have "life_runs (ls_rows st) (ls_rows st')" using start backfill clear by (simp add: st'_def Let_def)
  moreover have "ordinary ?i (ls_rows st')" using assms by (simp add: st'_def Let_def)
  ultimately show ?thesis unfolding run by (intro life_runs_evaluate) (auto simp: ordinary_def)
qed (simp add: Registry_Heartbeat_def Let_def life_runs_refl)

text \<open>C27: Removal is final for the guarded statements. Whatever sequence of heartbeat, registration, sweep,
  timeout, hibernation-claim and removal statements concurrent callers issue, a removed workspace stays
  removed; and a whole heartbeat of an ordinary workspace, whichever of its statements fail, is such a
  sequence.\<close>

theorem removed_final:
  assumes "status_of k rows = Some StatusRemoved"
  shows "status_of k (foldl life_step rows ops) = Some StatusRemoved \<and>
    (ordinary (hp_WorkspaceID p) rows \<longrightarrow>
      status_of k (ls_rows (snd (Registry_Heartbeat env now flt p (life_of rows)))) = Some StatusRemoved)"
proof (intro conjI impI)
  show "status_of k (foldl life_step rows ops) = Some StatusRemoved" for ops
    using lifecycle.terminal_run [where s = rows and k = k and st = StatusRemoved and ops = ops] assms by simp
  then show "status_of k (ls_rows (snd (Registry_Heartbeat env now flt p (life_of rows)))) = Some StatusRemoved"
    if "ordinary (hp_WorkspaceID p) rows"
    using heartbeat_runs [of p "life_of rows" env now flt] that by (auto simp: life_runs_def life_of_def)
qed

theorem removed_final_witness:
  "status_of ''w'' (foldl life_step [life_row_of ''w'' StatusRemoved]
      [StHeartbeat 5 (payload_of ''w''), StRecover 6 ''w'' StatusFailed, StRegister 7 ''w'' None [] ''poll'' []]) = Some StatusRemoved"
  using removed_final [of "''w''" "[life_row_of ''w'' StatusRemoved]"
      "[StHeartbeat 5 (payload_of ''w''), StRecover 6 ''w'' StatusFailed, StRegister 7 ''w'' None [] ''poll'' []]"]
  by (simp add: status_of_def find_ws_def life_row_of_def)

lemma evaluate_platform_fails:
  assumes "find_ws (hp_WorkspaceID p) (ls_rows st) = Some r" "w_kind r = KindPlatform"
    "le_has_model env (hp_WorkspaceID p)" "hp_MCPServerPresent p = Some False"
  shows "status_of (hp_WorkspaceID p) (ls_rows (evaluateStatus env now no_faults p st)) = Some StatusFailed"
  using assms find_ws_id [OF assms(1)]
  by (simp add: evaluateStatus_def platform_gate_def platformAgentMCPServerPresent_def markWorkspaceFailed_def
      status_of_def row_effect Let_def)

lemma platform_heartbeat_fails:
  assumes "find_ws (hp_WorkspaceID p) (ls_rows st) = Some r" "w_kind r = KindPlatform"
    "le_has_model env (hp_WorkspaceID p)" "hp_MCPServerPresent p = Some False"
  shows "status_of (hp_WorkspaceID p) (ls_rows (snd (Registry_Heartbeat env now no_faults p st))) = Some StatusFailed"
proof -
  obtain st' r' where r': "Registry_Heartbeat env now no_faults p st = (True, evaluateStatus env now no_faults p st')"
      "find_ws (hp_WorkspaceID p) (ls_rows st') = Some r'" "w_kind r' = w_kind r"
    using assms(1) by (rule heartbeat_reads)
  then show ?thesis using evaluate_platform_fails [OF r'(2)] assms(2-) by simp
qed

lemma count_where_pos: "r \<in> set rows \<Longrightarrow> P r \<Longrightarrow> count_where P rows \<noteq> 0"
  by (auto simp: count_where_0_iff)

lemma ss_rows_simps [simp]:
  "ss_rows (call cs st) = ss_rows st"
  "ss_rows (announce e st) = ss_rows st"
  "ss_rows (exec_store fault f st) = (if fault then ss_rows st else f (ss_rows st))"
  "ss_rows (snd (cpStopWithRetryErr be i prune st)) = ss_rows st"
  "ss_rows (stopForRestart be i st) = ss_rows st"
  "ss_rows (snd (StopWorkspaceAuto be i st)) = ss_rows st"
  by (simp_all add: call_def announce_def exec_store_def cpStopWithRetryErr_def stopForRestart_def cpStopWithRetry_def
      StopWorkspaceAuto_def split: prod.split)

lemma ss_rows_provision [simp]:
  "HasProvisioner be \<Longrightarrow> ss_rows (snd (provisionWorkspaceAuto now fault be i st)) = ss_rows st"
  "HasProvisioner be \<Longrightarrow> ss_rows (snd (RestartWorkspaceAutoOpts now fault be i reset st)) = ss_rows st"
  by (auto simp: HasProvisioner_def provisionWorkspaceAuto_def RestartWorkspaceAutoOpts_def cpStopWithRetry_def)

lemma hibernate_overwrites:
  assumes "find_ws i (ss_rows st) = Some r" "hibernatable i r"
    and "find_ws i (intf (hibernate_claim now i (ss_rows st))) = Some r'"
  shows "status_of i (ss_rows (HibernateWorkspace now now' no_faults be intf i st)) = Some StatusHibernated"
  using assms find_ws_id [OF assms(3)] count_where_pos [OF find_ws_mem [OF assms(1)], of "hibernatable i"]
  by (simp add: HibernateWorkspace_def Let_def status_of_def row_effect)

text \<open>The unguarded writes undo a removal. A heartbeat that reports the MCP server missing turns a
  removed platform agent into a failed one, from where heartbeats bring it back; a workspace deleted
  while hibernation stops its container ends hibernated; and one deleted while an automatic restart stops
  it ends provisioning, with a new container started.\<close>

theorem removed_revived:
  assumes "find_ws i (ss_rows st) = Some r"
  shows "(w_kind r = KindPlatform \<and> hp_WorkspaceID p = i \<and> le_has_model env i \<and> hp_MCPServerPresent p = Some False \<longrightarrow>
      status_of i (ls_rows (snd (Registry_Heartbeat env now no_faults p (life_of (ss_rows st))))) = Some StatusFailed) \<and>
    (w_status r \<in> {StatusOnline, StatusDegraded} \<and> w_active_tasks r = 0 \<longrightarrow>
      status_of i (ss_rows (HibernateWorkspace now now' no_faults be (remove_workspaces t [i]) i st)) = Some StatusHibernated) \<and>
    (w_status r \<in> {StatusOnline, StatusDegraded, StatusOffline, StatusFailed} \<and> w_runtime r = Some ''claude-code'' \<and>
      be_cp be \<and> isParentPaused (\<lambda>k. no_faults (k + 3)) 0 i (ss_rows st) = Some None \<longrightarrow>
      (\<exists>st'. runRestartCycle now now' no_faults be (remove_workspaces t [i]) i st = Some st' \<and>
        status_of i (ss_rows st') = Some StatusProvisioning \<and> last (ss_calls st') = ProvisionCP i))"
proof (intro conjI impI, goal_cases)
  case 1
  with assms show ?case by (auto intro: platform_heartbeat_fails simp: life_of_def)
next
  case 2
  with assms show ?case
    by (intro hibernate_overwrites) (auto simp: hibernatable_def row_effect set_status_defs find_ws_id)
next
  case 3
  have sel: "select_first (\<lambda>r. w_id r = i \<and> w_status r \<notin> {StatusRemoved, StatusPaused, StatusHibernated}) (ss_rows st) = Some r"
    using 3 assms by (auto simp: find_ws_def intro!: select_first_conj)
  from 3 sel show ?case using assms find_ws_id [OF assms]
    by (simp add: runRestartCycle_def Let_def runtime_or_def isExternalLikeRuntime_def externalLikeRuntimes_def
        provisionWorkspaceAuto_def status_of_def row_effect call_def)
qed

definition store_of :: "life_row list \<Rightarrow> ws_store" where
  "store_of rows = \<lparr>ss_rows = rows, ss_auth = \<lparr>db_ws_tokens = [], db_org_tokens = [], db_audit = [], db_status = (\<lambda>_. None)\<rparr>,
     ss_layouts = [], ss_schedules = [], ss_calls = [], ss_events = []\<rparr>"

text \<open>A backend of each kind: the control plane never stops a workspace, Docker always does.\<close>

definition cp_backend :: backends where
  "cp_backend = \<lparr>be_cp = True, be_docker = False, be_cp_stop = (\<lambda>_ _. Some ''503''), be_cancelled = (\<lambda>_. False),
     be_docker_stop = (\<lambda>_. None)\<rparr>"

definition docker_backend :: backends where
  "docker_backend = \<lparr>be_cp = False, be_docker = True, be_cp_stop = (\<lambda>_ _. None), be_cancelled = (\<lambda>_. False),
     be_docker_stop = (\<lambda>_. None)\<rparr>"

theorem removed_revived_witness:
  "status_of ''w'' (ss_rows (HibernateWorkspace 1 3 no_faults docker_backend (remove_workspaces 2 [''w'']) ''w''
     (store_of [life_row_of ''w'' StatusOnline]))) = Some StatusHibernated"
  using removed_revived [of "''w''" "store_of [life_row_of ''w'' StatusOnline]" "life_row_of ''w'' StatusOnline"
      "payload_of ''w''" life_env_of 1 3 docker_backend 2]
  by (simp add: store_of_def life_row_of_def find_ws_def)

section \<open>Hibernation\<close>

lemma hibernate_claim_taken: "count_where (hibernatable i) (hibernate_claim now i rows) = 0"
  by (induction rows) (simp_all add: hibernate_claim_def set_status_def hibernatable_def)

lemma hibernatable_unique:
  assumes "distinct (map w_id rows)" "find_ws i rows = Some r"
  shows "count_where (hibernatable i) rows = 0 \<longleftrightarrow> \<not> hibernatable i r"
proof -
  have "x = r" if "x \<in> set rows" "w_id x = i" for x
    using that find_ws_mem [OF assms(2)] find_ws_id [OF assms(2)] assms(1) unfolding distinct_map inj_on_def by metis
  then have "hibernatable i x \<Longrightarrow> hibernatable i r" if "x \<in> set rows" for x
    using that unfolding hibernatable_def by blast
  then show ?thesis using find_ws_mem [OF assms(2)] unfolding count_where_0_iff by blast
qed

text \<open>Hibernation never interrupts a task, not even when it is told to. A stop is issued only when the
  claim found the workspace online or degraded with no active task, and while it is stopped no other
  caller's claim succeeds; a forced request for a workspace with active tasks is answered 200 hibernated
  and changes nothing at all.\<close>

theorem hibernate_respects_tasks:
  assumes "distinct (map w_id (ss_rows st))" and "find_ws i (ss_rows st) = Some r"
  shows "(HibernateWorkspace now now' flt be intf i st \<noteq> st \<longrightarrow> hibernatable i r) \<and>
    count_where (hibernatable i) (hibernate_claim now i (ss_rows st)) = 0 \<and>
    (live_status r \<and> 0 < w_active_tasks r \<and> \<not> flt 0 \<longrightarrow>
      Hibernate now now' flt be intf i ''true'' st = (RouteOk ''hibernated'' 1, st))"
proof (intro conjI impI, goal_cases)
  case 1
  then show ?case using hibernatable_unique [OF assms] by (simp add: HibernateWorkspace_def split: if_splits)
next
  case 2
  show ?case by (rule hibernate_claim_taken)
next
  case 3
  then have none: "count_where (hibernatable i) (ss_rows st) = 0" using hibernatable_unique [OF assms] by (simp add: hibernatable_def)
  have "select_first (\<lambda>r. w_id r = i \<and> live_status r) (ss_rows st) = Some r"
    using 3 assms(2) by (auto simp: find_ws_def intro: select_first_conj)
  with 3 none show ?case by (simp add: Hibernate_def HibernateWorkspace_def)
qed

theorem hibernate_respects_tasks_witness:
  "Hibernate 1 2 no_faults docker_backend id ''w'' ''true'' (store_of [(life_row_of ''w'' StatusOnline)\<lparr>w_active_tasks := 2\<rparr>]) =
     (RouteOk ''hibernated'' 1, store_of [(life_row_of ''w'' StatusOnline)\<lparr>w_active_tasks := 2\<rparr>])"
  using hibernate_respects_tasks [of "store_of [(life_row_of ''w'' StatusOnline)\<lparr>w_active_tasks := 2\<rparr>]" "''w''"
      "(life_row_of ''w'' StatusOnline)\<lparr>w_active_tasks := 2\<rparr>" 1 2 no_faults docker_backend id]
  by (simp add: store_of_def life_row_of_def find_ws_def live_status_def)

end
