(* ===== verification/Monitor_Props.thy ===== *)
theory Monitor_Props
  imports Lifecycle_Props
begin

text \<open>
  Properties of the passes of the monitors: the provisioning timeout, the reconciler of the control
  plane's instances and the sweeper of leaked instances.
\<close>

section \<open>Provisioning timeout\<close>

definition timeout_seconds :: "(string \<Rightarrow> duration) \<Rightarrow> life_row \<Rightarrow> int" where
  "timeout_seconds timeout_for r = go_div (timeout_for (runtime_or [] r)) second"

definition timed_out :: "instant \<Rightarrow> life_row \<Rightarrow> life_row" where
  "timed_out now r = r\<lparr>w_status := StatusFailed, w_last_sample_error := Some timeout_message, w_updated_at := now\<rparr>"

definition stuck :: "instant \<Rightarrow> (string \<Rightarrow> duration) \<Rightarrow> life_row \<Rightarrow> bool" where
  "stuck now timeout_for r \<longleftrightarrow> timeout_guard now (timeout_seconds timeout_for r) r"

lemma timed_out_guard [simp]: "\<not> timeout_guard now t (timed_out now' r)" "w_id (timed_out now r) = w_id r"
  by (simp_all add: timed_out_def timeout_guard_def)

text \<open>A row that the UPDATE accepts is also old enough for the first test, which rounds the age.\<close>

lemma stuck_age: "stuck now timeout_for r \<Longrightarrow> timeout_seconds timeout_for r \<le> age_seconds now r"
proof -
  assume "stuck now timeout_for r"
  then have "timeout_seconds timeout_for r * second < now - w_updated_at r + second div 2"
    by (simp add: stuck_def timeout_guard_def duration_defs)
  then show ?thesis unfolding age_seconds_def second_def by linarith
qed

definition candidate :: "instant \<Rightarrow> life_row \<Rightarrow> string \<times> string \<times> string \<times> int" where
  "candidate now r = (w_id r, runtime_or [] r, (case w_instance_id r of None \<Rightarrow> [] | Some s \<Rightarrow> s), age_seconds now r)"

lemma provision_timeout_one:
  assumes "distinct (map w_id rows)" "c \<in> set rows"
  shows "provision_timeout now (w_id c) timeout_message (timeout_seconds tf c) rows =
      map (\<lambda>r. if r = c \<and> stuck now tf c then timed_out now r else r) rows"
    and "count_where (\<lambda>r. w_id r = w_id c \<and> timeout_guard now (timeout_seconds tf c) r) rows = 0 \<longleftrightarrow> \<not> stuck now tf c"
proof -
  have unique: "w_id r = w_id c \<longleftrightarrow> r = c" if "r \<in> set rows" for r
    using that assms unfolding distinct_map inj_on_def by blast
  show "provision_timeout now (w_id c) timeout_message (timeout_seconds tf c) rows =
      map (\<lambda>r. if r = c \<and> stuck now tf c then timed_out now r else r) rows"
    by (auto simp: provision_timeout_def update_where_def unique stuck_def timed_out_def)
  show "count_where (\<lambda>r. w_id r = w_id c \<and> timeout_guard now (timeout_seconds tf c) r) rows = 0 \<longleftrightarrow> \<not> stuck now tf c"
    using assms(2) unique unfolding count_where_0_iff stuck_def by blast
qed

lemma flip_stuck_candidate:
  assumes "distinct (map w_id rows)" "c \<in> set rows"
  shows "flip_stuck (\<lambda>_. now) (\<lambda>_ rs. rs) no_faults tf (k, candidate now c) (rows, v) =
    (map (\<lambda>r. if r = c \<and> stuck now tf c then timed_out now r else r) rows,
     v @ (if stuck now tf c then [(w_id c, instance_of c)] else []))"
proof (cases "age_seconds now c < timeout_seconds tf c")
  case True
  then have "\<not> stuck now tf c" using stuck_age [of now tf c] by linarith
  with True show ?thesis by (simp add: flip_stuck_def candidate_def timeout_seconds_def Let_def)
next
  case False
  with provision_timeout_one [OF assms, of now tf] show ?thesis
    by (simp add: flip_stuck_def candidate_def timeout_seconds_def instance_of_def Let_def)
qed

lemma flip_stuck_fold:
  assumes "distinct (map w_id rows)" "set cs \<subseteq> set rows" "distinct cs"
  shows "fold (flip_stuck (\<lambda>_. now) (\<lambda>_ rs. rs) no_faults tf) (List.enumerate n (map (candidate now) cs)) (rows, v) =
    (map (\<lambda>r. if r \<in> set cs \<and> stuck now tf r then timed_out now r else r) rows,
     v @ map (\<lambda>r. (w_id r, instance_of r)) (filter (stuck now tf) cs))"
  using assms
proof (induction cs arbitrary: rows v n)
  case (Cons c cs)
  let ?h = "\<lambda>r. if r = c \<and> stuck now tf c then timed_out now r else r"
  have "map w_id (map ?h rows) = map w_id rows" by simp
  then have "distinct (map w_id (map ?h rows))" using Cons.prems(1) by (simp only:)
  moreover have "set cs \<subseteq> set (map ?h rows)" using Cons.prems(2,3) by force
  ultimately have IH: "fold (flip_stuck (\<lambda>_. now) (\<lambda>_ rs. rs) no_faults tf) (List.enumerate (Suc n) (map (candidate now) cs)) (map ?h rows, w) =
    (map (\<lambda>r. if r \<in> set cs \<and> stuck now tf r then timed_out now r else r) (map ?h rows),
     w @ map (\<lambda>r. (w_id r, instance_of r)) (filter (stuck now tf) cs))" for w
    using Cons.prems(3) by (intro Cons.IH) auto
  have timed: "\<not> stuck now tf (timed_out now c)" by (simp add: stuck_def)
  have c: "c \<in> set rows" "c \<notin> set cs" using Cons.prems(2,3) by auto
  show ?case
    unfolding list.map enumerate_simps fold_simps flip_stuck_candidate [OF Cons.prems(1) c(1)] IH
    using c timed by auto
qed simp

lemma provisioning_candidates_eq:
  "provisioning_candidates now rows = map (candidate now) (filter (\<lambda>r. w_status r = StatusProvisioning) rows)"
  by (simp add: provisioning_candidates_def candidate_def)

text \<open>The provisioning sweep. Without interference and faults it fails exactly the rows that are still
  provisioning and whose last update is longer ago than the timeout of their runtime, in one UPDATE
  each, and hands exactly those, with their instance, to the rescue hook.\<close>

theorem sweepStuckProvisioning_correct:
  assumes "distinct (map w_id rows)"
  shows "sweepStuckProvisioning now (\<lambda>_. now) False (\<lambda>_ rs. rs) no_faults timeout_for rows =
    (map (\<lambda>r. if stuck now timeout_for r then timed_out now r else r) rows,
     map (\<lambda>r. (w_id r, instance_of r)) (filter (stuck now timeout_for) rows))"
proof -
  let ?cs = "filter (\<lambda>r. w_status r = StatusProvisioning) rows"
  have "distinct ?cs" using assms by (simp add: distinct_map)
  moreover have "(w_status r = StatusProvisioning \<and> stuck now timeout_for r) = stuck now timeout_for r" for r
    by (auto simp: stuck_def timeout_guard_def)
  ultimately show ?thesis
    unfolding sweepStuckProvisioning_def provisioning_candidates_eq
    using flip_stuck_fold [OF assms, of ?cs now timeout_for 0 "[]"] by auto
qed

theorem sweepStuckProvisioning_correct_witness:
  "sweepStuckProvisioning (20 * minute) (\<lambda>_. 20 * minute) False (\<lambda>_ rs. rs) no_faults (provisioningTimeoutFor [] None)
     [life_row_of ''a'' StatusProvisioning, life_row_of ''b'' StatusOnline, (life_row_of ''c'' StatusProvisioning)\<lparr>w_runtime := Some ''hermes''\<rparr>] =
   ([timed_out (20 * minute) (life_row_of ''a'' StatusProvisioning), life_row_of ''b'' StatusOnline,
     (life_row_of ''c'' StatusProvisioning)\<lparr>w_runtime := Some ''hermes''\<rparr>], [(''a'', ''i-1'')])"
  using sweepStuckProvisioning_correct [of "[life_row_of ''a'' StatusProvisioning, life_row_of ''b'' StatusOnline,
      (life_row_of ''c'' StatusProvisioning)\<lparr>w_runtime := Some ''hermes''\<rparr>]" "20 * minute" "provisioningTimeoutFor [] None"]
  by (simp add: stuck_def timeout_guard_def timeout_seconds_def runtime_or_def provisioningTimeoutFor_def go_div_def
      DefaultProvisioningTimeout_def HermesProvisioningTimeout_def instance_of_def life_row_of_def duration_defs)

section \<open>The reconciler\<close>

lemma reconcile_loop_confirmed:
  assumes "(i, instance_id, rows') \<in> set (reconcile_loop expired intf running flt k cs rows)"
  shows "(i, instance_id) \<in> set cs \<and> (\<exists>r. find_ws i rows' = Some r \<and> live_status r \<and> instance_of r = instance_id) \<and>
    (\<exists>n. running n i = Some False \<and> \<not> expired n)"
  using assms
proof (induction cs arbitrary: k rows)
  case (Cons c cs)
  obtain j inst where c: "c = (j, inst)" by (cases c)
  show ?case
  proof (cases "(i, instance_id, rows') \<in> set (reconcile_loop expired intf running flt (Suc k) cs (intf k rows))")
    case True
    with Cons.IH show ?thesis by fastforce
  next
    case False
    with Cons.prems c show ?thesis
      by (auto simp: reconfirmStillOfflineCandidate_def Let_def split: if_splits option.splits)
  qed
qed simp

definition reconcilable :: "life_row \<Rightarrow> bool" where
  "reconcilable r \<longleftrightarrow> live_status r \<and> instance_of r \<noteq> [] \<and> runtime_or [] r \<noteq> ''external''"

lemma latest_updated_subset: "set (latest_updated n rows) \<subseteq> set rows"
  unfolding latest_updated_def using set_take_subset [of n "sort_key (\<lambda>r. - w_updated_at r) rows"] by simp

lemma length_latest_updated: "length (latest_updated n rows) \<le> n"
  by (simp add: latest_updated_def)

lemma reconcile_candidates_eq:
  "reconcile_candidates rows = map (\<lambda>r. (w_id r, instance_of r)) (latest_updated CPInstanceReconcileLimit (filter reconcilable rows))"
  unfolding reconcile_candidates_def reconcilable_def ..

lemma reconcile_loop_length: "length (reconcile_loop expired intf running flt k cs rows) \<le> length cs"
  by (induction cs arbitrary: k rows) (auto simp: Let_def le_SucI)

text \<open>The reconciler acts on confirmed deaths only. Whatever other callers write meanwhile, each of its at
  most two hundred offline calls is for a workspace that the control plane reported as not running
  before the deadline of the cycle, that was live with this instance when the pass began, and that was
  still live with the same non-empty instance when it was read again.\<close>

theorem reconcileOnce_confirmed:
  assumes "(i, instance_id, rows') \<in> set (reconcileOnce query_fault expired intf running flt rows)"
  shows "(\<exists>r \<in> set rows. w_id r = i \<and> instance_of r = instance_id \<and> reconcilable r) \<and>
    (\<exists>r. find_ws i rows' = Some r \<and> live_status r \<and> instance_of r = instance_id \<and> instance_id \<noteq> []) \<and>
    (\<exists>n. running n i = Some False \<and> \<not> expired n) \<and>
    length (reconcileOnce query_fault expired intf running flt rows) \<le> 200"
proof -
  have "\<not> query_fault" using assms by (auto simp: reconcileOnce_def)
  then have eq: "reconcileOnce query_fault expired intf running flt rows =
      reconcile_loop expired intf running flt 0 (reconcile_candidates rows) rows"
    by (simp add: reconcileOnce_def)
  note confirmed = reconcile_loop_confirmed [OF assms [unfolded eq]]
  then obtain r where r: "r \<in> set rows" "reconcilable r" "w_id r = i" "instance_of r = instance_id"
    unfolding reconcile_candidates_eq using latest_updated_subset [of CPInstanceReconcileLimit "filter reconcilable rows"] by auto
  have "length (reconcile_loop expired intf running flt 0 (reconcile_candidates rows) rows) \<le> 200"
    using reconcile_loop_length [of expired intf running flt 0 "reconcile_candidates rows" rows]
      length_latest_updated [of CPInstanceReconcileLimit "filter reconcilable rows"]
    by (simp add: reconcile_candidates_eq CPInstanceReconcileLimit_def)
  with confirmed r show ?thesis unfolding eq by (auto simp: reconcilable_def)
qed

theorem reconcileOnce_confirmed_witness:
  "length (reconcileOnce False (\<lambda>_. False) (\<lambda>_ rs. rs) (\<lambda>_ _. Some False) no_faults [life_row_of ''w'' StatusOnline]) \<le> 200 \<and>
   (''w'', ''i-1'', [life_row_of ''w'' StatusOnline]) \<in>
     set (reconcileOnce False (\<lambda>_. False) (\<lambda>_ rs. rs) (\<lambda>_ _. Some False) no_faults [life_row_of ''w'' StatusOnline])"
proof -
  have called: "(''w'', ''i-1'', [life_row_of ''w'' StatusOnline]) \<in>
     set (reconcileOnce False (\<lambda>_. False) (\<lambda>_ rs. rs) (\<lambda>_ _. Some False) no_faults [life_row_of ''w'' StatusOnline])"
    by (simp add: reconcileOnce_def reconcile_candidates_def latest_updated_def CPInstanceReconcileLimit_def live_status_def instance_of_def
        runtime_or_def reconfirmStillOfflineCandidate_def find_ws_def life_row_of_def Let_def)
  from reconcileOnce_confirmed [OF called] called show ?thesis by simp
qed

section \<open>What the limits leave out\<close>

lemma latest_updated_excludes:
  assumes "n \<le> length (filter (\<lambda>x. w_updated_at r < w_updated_at x) rows)"
  shows "r \<notin> set (latest_updated n rows)"
  using take_sort_key_excludes [of n "\<lambda>r. - w_updated_at r" r rows] assms unfolding latest_updated_def by simp

text \<open>The reconciler does not reach every workspace. A live workspace behind two hundred others with a
  later update is not probed, however long the pass may take; and since heartbeats renew the time of
  healthy workspaces and not that of dead ones, the ones it looks for are the ones left out.\<close>

theorem reconcile_starves:
  assumes "distinct (map w_id rows)" and "r \<in> set rows"
    and "200 \<le> length (filter (\<lambda>x. reconcilable x \<and> w_updated_at r < w_updated_at x) rows)"
  shows "(w_id r, instance_id, rows') \<notin> set (reconcileOnce query_fault expired intf running flt rows)"
proof
  assume call: "(w_id r, instance_id, rows') \<in> set (reconcileOnce query_fault expired intf running flt rows)"
  then have "(w_id r, instance_id) \<in> set (reconcile_candidates rows)"
    by (auto simp: reconcileOnce_def dest: reconcile_loop_confirmed split: if_splits)
  then obtain x where x: "x \<in> set (latest_updated CPInstanceReconcileLimit (filter reconcilable rows))" "w_id x = w_id r"
    by (auto simp: reconcile_candidates_eq)
  then have "x \<in> set rows" using latest_updated_subset [of CPInstanceReconcileLimit "filter reconcilable rows"] by auto
  with x(2) assms(1,2) have "x = r" unfolding distinct_map inj_on_def by blast
  with x(1) latest_updated_excludes [of CPInstanceReconcileLimit r "filter reconcilable rows"] assms(3) show False
    by (simp add: CPInstanceReconcileLimit_def filter_filter conj_commute)
qed

definition busy_fleet :: "life_row list" where
  "busy_fleet = life_row_of ''dead'' StatusOnline #
     map (\<lambda>n. (life_row_of (replicate n (CHR ''w'')) StatusOnline)\<lparr>w_updated_at := 1\<rparr>) [0..<200]"

lemma busy_fleet_ids: "distinct (map w_id busy_fleet)"
proof -
  have "distinct (map (\<lambda>n. replicate n (CHR ''w'')) [0..<200])"
    by (simp add: distinct_map inj_on_def replicate_eq_replicate)
  moreover have "''dead'' \<noteq> replicate n (CHR ''w'')" for n by (cases n) auto
  ultimately show ?thesis by (simp add: busy_fleet_def life_row_of_def comp_def image_iff del: upt_rec_numeral)
qed

lemma busy_fleet_newer:
  "length (filter (\<lambda>x. reconcilable x \<and> w_updated_at (life_row_of ''dead'' StatusOnline) < w_updated_at x) busy_fleet) = 200"
proof -
  have "filter (\<lambda>x. reconcilable x \<and> w_updated_at (life_row_of ''dead'' StatusOnline) < w_updated_at x) busy_fleet = tl busy_fleet"
    unfolding busy_fleet_def
    by (simp add: life_row_of_def reconcilable_def live_status_def instance_of_def runtime_or_def filter_id_conv del: upt_rec_numeral)
  then show ?thesis by (simp add: busy_fleet_def del: upt_rec_numeral)
qed

theorem reconcile_starves_witness:
  "(''dead'', ''i-1'', busy_fleet) \<notin>
     set (reconcileOnce False (\<lambda>_. False) (\<lambda>_ rs. rs) (\<lambda>_ _. Some False) no_faults busy_fleet)"
proof -
  have "life_row_of ''dead'' StatusOnline \<in> set busy_fleet" by (simp add: busy_fleet_def)
  from reconcile_starves [OF busy_fleet_ids this, of "''i-1''" busy_fleet False "\<lambda>_. False" "\<lambda>_ rs. rs" "\<lambda>_ _. Some False" no_faults]
  show ?thesis unfolding busy_fleet_newer by (simp add: life_row_of_def)
qed

section \<open>Leaked instances\<close>

definition orphan :: "life_row \<Rightarrow> bool" where
  "orphan r \<longleftrightarrow> w_status r = StatusRemoved \<and> instance_of r \<noteq> []"

lemma orphan_candidates_eq: "orphan_candidates rows = map w_id (latest_updated cpSweepLimit (filter orphan rows))"
  unfolding orphan_candidates_def orphan_def ..

lemma clear_instance_orphans:
  "filter orphan (clear_instance now i rows) = filter (\<lambda>r. w_id r \<noteq> i) (filter orphan rows)"
  by (induction rows) (auto simp: clear_instance_def orphan_def instance_of_def)

lemma reap_fold:
  "filter orphan (fst (fold (reap_orphan clk (\<lambda>_ _. True) no_faults) (List.enumerate n ids) (rows, calls))) =
     filter (\<lambda>r. w_id r \<notin> set ids) (filter orphan rows)"
proof (induction ids arbitrary: n rows calls)
  case (Cons i ids)
  have "reap_orphan clk (\<lambda>_ _. True) no_faults (n, i) (rows, calls) = (clear_instance (clk n) i rows, calls @ [i])"
    by (simp add: reap_orphan_def)
  then show ?case
    unfolding enumerate_simps fold_simps by (simp only: Cons.IH clear_instance_orphans filter_filter) (simp add: conj_ac)
qed simp

lemma distinct_latest_updated: "distinct (map w_id rows) \<Longrightarrow> distinct (map w_id (latest_updated n rows))"
  unfolding latest_updated_def by (simp add: take_map [symmetric] distinct_map distinct_take inj_on_subset [OF _ set_take_subset])

lemma sweep_orphans:
  assumes "distinct (map w_id rows)"
  shows "length (filter orphan (fst (cpSweepOnce clk False (\<lambda>_ _. True) no_faults rows))) =
    length (filter orphan rows) - cpSweepLimit"
proof -
  let ?os = "filter orphan rows"
  let ?new = "latest_updated cpSweepLimit ?os"
  have inj: "inj_on w_id (set ?os)" and dist: "distinct ?os"
    using assms by (auto simp: distinct_map intro: inj_on_subset)
  then have "distinct (map w_id ?os)" by (simp add: distinct_map)
  from distinct_latest_updated [OF this] have dnew: "distinct ?new" by (simp add: distinct_map)
  have sub: "set ?new \<subseteq> set ?os" by (rule latest_updated_subset)
  have "set (filter (\<lambda>r. w_id r \<in> w_id ` set ?new) ?os) = set ?new"
    using sub inj_on_image_mem_iff [OF inj] by auto
  then have "length (filter (\<lambda>r. w_id r \<in> w_id ` set ?new) ?os) = length ?new"
    using dist dnew by (metis distinct_card distinct_filter)
  moreover have "length ?new = min cpSweepLimit (length ?os)" by (simp add: latest_updated_def)
  ultimately have "length (filter (\<lambda>r. w_id r \<notin> w_id ` set ?new) ?os) = length ?os - cpSweepLimit"
    using sum_length_filter_compl [of "\<lambda>r. w_id r \<in> w_id ` set ?new" ?os] by linarith
  then show ?thesis by (simp add: cpSweepOnce_def reap_fold orphan_candidates_eq)
qed

lemma clear_instance_ids: "map w_id (clear_instance now i rows) = map w_id rows"
  by (induction rows) (auto simp: clear_instance_def)

lemma reap_ids: "map w_id (fst (fold (reap_orphan clk stopped flt) cs (rows, calls))) = map w_id rows"
  by (induction cs arbitrary: rows calls) (auto simp: reap_orphan_def clear_instance_ids)

lemma sweep_ids: "map w_id (fst (cpSweepOnce clk query_fault stopped flt rows)) = map w_id rows"
  by (simp add: cpSweepOnce_def reap_ids)

text \<open>Leaked instances are reaped. While the control plane answers, each pass of the sweeper clears a
  hundred of the removed workspaces that still have an instance, so that after enough passes none is
  left.\<close>

theorem orphans_drained:
  assumes "distinct (map w_id rows)" and "length (filter orphan rows) \<le> 100 * length clks"
  shows "filter orphan (foldl (\<lambda>rs clk. fst (cpSweepOnce clk False (\<lambda>_ _. True) no_faults rs)) rows clks) = []"
  using assms
proof (induction clks arbitrary: rows)
  case (Cons clk clks)
  let ?rows = "fst (cpSweepOnce clk False (\<lambda>_ _. True) no_faults rows)"
  have "length (filter orphan ?rows) \<le> 100 * length clks"
    using sweep_orphans [OF Cons.prems(1), of clk] Cons.prems(2) by (simp add: cpSweepLimit_def)
  moreover have "distinct (map w_id ?rows)" unfolding sweep_ids by (rule Cons.prems(1))
  ultimately have "filter orphan (foldl (\<lambda>rs clk. fst (cpSweepOnce clk False (\<lambda>_ _. True) no_faults rs)) ?rows clks) = []"
    using Cons.IH by blast
  then show ?case unfolding foldl_Cons .
qed simp

theorem orphans_drained_witness:
  "filter orphan (foldl (\<lambda>rs clk. fst (cpSweepOnce clk False (\<lambda>_ _. True) no_faults rs))
     [life_row_of ''a'' StatusRemoved, life_row_of ''b'' StatusOnline] [\<lambda>_. 9]) = []"
  using orphans_drained [of "[life_row_of ''a'' StatusRemoved, life_row_of ''b'' StatusOnline]" "[\<lambda>_. 9]"]
  by (simp add: life_row_of_def orphan_def)

end
