(* ===== verification/Route_Props.thy ===== *)
theory Route_Props
  imports Lifecycle_Props
begin

text \<open>
  Properties of the lifecycle routes: the walks along the tree of workspaces, pausing and resuming
  whole subtrees, deletion, and the retries of the stop.
\<close>

section \<open>The walk to the root\<close>

definition parent_in :: "life_row list \<Rightarrow> string \<Rightarrow> string \<Rightarrow> bool" where
  "parent_in rows i p \<longleftrightarrow> (\<exists>r. find_ws i rows = Some r \<and> w_parent_id r = Some p) \<and> find_ws p rows \<noteq> None"

lemma parent_in_unique: "parent_in rows i p \<Longrightarrow> parent_in rows i q \<Longrightarrow> p = q"
  by (auto simp: parent_in_def)

lemma isParentPaused_none: "(\<And>p. \<not> parent_in rows i p) \<Longrightarrow> isParentPaused no_faults k i rows = Some None"
  by (subst isParentPaused.simps) (auto simp: parent_in_def split: option.splits)

lemma isParentPaused_some:
  "parent_in rows i p \<Longrightarrow> isParentPaused no_faults k i rows =
     (case find_ws p rows of
        None \<Rightarrow> Some None
      | Some pr \<Rightarrow> if w_status pr = StatusPaused then Some (Some (w_name pr)) else isParentPaused no_faults (Suc k) p rows)"
  by (subst isParentPaused.simps) (auto simp: parent_in_def split: option.splits)

text \<open>Parents have a smaller rank than their children: the tree has no cycle.\<close>

definition ranked :: "(string \<Rightarrow> nat) \<Rightarrow> life_row list \<Rightarrow> bool" where
  "ranked h rows \<longleftrightarrow> (\<forall>r \<in> set rows. \<forall>p. w_parent_id r = Some p \<longrightarrow> h p < h (w_id r))"

lemma ranked_parent: "ranked h rows \<Longrightarrow> parent_in rows i p \<Longrightarrow> h p < h i"
  by (auto simp: ranked_def parent_in_def dest: find_ws_mem find_ws_id)

definition paused_above :: "life_row list \<Rightarrow> string \<Rightarrow> bool" where
  "paused_above rows i \<longleftrightarrow> (\<exists>a. (parent_in rows)\<^sup>+\<^sup>+ i a \<and> status_of a rows = Some StatusPaused)"

lemma paused_above_step:
  assumes "parent_in rows i p"
  shows "paused_above rows i \<longleftrightarrow> status_of p rows = Some StatusPaused \<or> paused_above rows p"
proof -
  have "(parent_in rows)\<^sup>+\<^sup>+ i a \<longleftrightarrow> a = p \<or> (parent_in rows)\<^sup>+\<^sup>+ p a" for a
  proof
    assume "(parent_in rows)\<^sup>+\<^sup>+ i a"
    then show "a = p \<or> (parent_in rows)\<^sup>+\<^sup>+ p a"
      by (rule converse_tranclpE) (use parent_in_unique [OF _ assms] in auto)
  next
    assume "a = p \<or> (parent_in rows)\<^sup>+\<^sup>+ p a"
    then show "(parent_in rows)\<^sup>+\<^sup>+ i a"
      by (elim disjE) (simp_all add: tranclp.r_into_trancl [where r = "parent_in rows", OF assms] tranclp_into_tranclp2 [where r = "parent_in rows", OF assms])
  qed
  then have "paused_above rows i \<longleftrightarrow> (\<exists>a. (a = p \<or> (parent_in rows)\<^sup>+\<^sup>+ p a) \<and> status_of a rows = Some StatusPaused)"
    unfolding paused_above_def by (rule arg_cong [of _ _ Ex, OF ext, OF arg_cong2 [of _ _ _ _ "(\<and>)", OF _ refl]])
  then show ?thesis by (simp only: paused_above_def [of rows p] conj_disj_distribR ex_disj_distrib simp_thms)
qed

lemma paused_above_none: "(\<And>p. \<not> parent_in rows i p) \<Longrightarrow> \<not> paused_above rows i"
  unfolding paused_above_def by (auto elim: converse_tranclpE [where r = "parent_in rows"])

lemma walk_returns:
  assumes "ranked h rows"
  shows "\<exists>res. isParentPaused no_faults k i rows = Some res \<and> (res \<noteq> None \<longleftrightarrow> paused_above rows i)"
proof (induction "h i" arbitrary: i k rule: less_induct)
  case less
  show ?case
  proof (cases "\<exists>p. parent_in rows i p")
    case False
    then show ?thesis using isParentPaused_none paused_above_none by (metis not_None_eq)
  next
    case True
    then obtain p pr where p: "parent_in rows i p" "find_ws p rows = Some pr" by (auto simp: parent_in_def)
    obtain res where res: "isParentPaused no_faults (Suc k) p rows = Some res" "res \<noteq> None \<longleftrightarrow> paused_above rows p"
      using less [OF ranked_parent [OF assms p(1)]] by blast
    show ?thesis
      unfolding isParentPaused_some [OF p(1)] paused_above_step [OF p(1)] using p(2) res by (simp add: status_of_def)
  qed
qed

text \<open>A set of workspaces without a paused one from which no parent leads out.\<close>

lemma walk_cycle:
  assumes closed: "\<And>i. i \<in> S \<Longrightarrow> \<exists>p \<in> S. parent_in rows i p \<and> status_of p rows \<noteq> Some StatusPaused"
  shows "i \<in> S \<Longrightarrow> isParentPaused no_faults k i rows = None"
proof -
  have "rows' = rows \<and> flt = no_faults \<longrightarrow> i \<notin> S" if "isParentPaused flt k i rows' = Some res" for flt k i rows' res
  proof (rule isParentPaused.raw_induct [where P = "\<lambda>flt k i rows' res. rows' = rows \<and> flt = no_faults \<longrightarrow> i \<notin> S", OF _ that], goal_cases)
    case (1 walk flt k i rows' res)
    show ?case
    proof (intro impI notI)
      assume eqs: "rows' = rows \<and> flt = no_faults" and "i \<in> S"
      note * = \<open>i \<in> S\<close> eqs
      from closed [OF *(1)] obtain p where p: "p \<in> S" "parent_in rows i p" "status_of p rows \<noteq> Some StatusPaused" by blast
      then have "walk flt (Suc k) p rows' = Some res" using 1(2) eqs by (auto simp: parent_in_def status_of_def)
      from 1(1) [OF this] p(1) eqs show False by simp
    qed
  qed
  from this [of no_faults k i rows] show "i \<in> S \<Longrightarrow> isParentPaused no_faults k i rows = None"
    by (cases "isParentPaused no_faults k i rows") auto
qed

text \<open>C39: The walk for a paused ancestor returns on every tree without cycles, and its answer is whether a
  proper ancestor is paused. On a cycle of parents without a paused workspace, which the update of
  \<^verbatim>\<open>parent_id\<close> does not prevent, it does not return.\<close>

theorem isParentPaused_correct:
  "(ranked h rows \<longrightarrow> (\<exists>res. isParentPaused no_faults 0 i rows = Some res \<and> (res \<noteq> None \<longleftrightarrow> paused_above rows i))) \<and>
   (parent_in rows i j \<and> parent_in rows j i \<and> status_of i rows \<noteq> Some StatusPaused \<and> status_of j rows \<noteq> Some StatusPaused \<longrightarrow>
     isParentPaused no_faults 0 i rows = None)"
proof (intro conjI impI, goal_cases)
  case 1
  then show ?case by (rule walk_returns)
next
  case 2
  then show ?case by (intro walk_cycle [of "{i, j}"]) auto
qed

definition child_row :: "string \<Rightarrow> string \<Rightarrow> WorkspaceStatus \<Rightarrow> life_row" where
  "child_row i p s = (life_row_of i s)\<lparr>w_parent_id := Some p\<rparr>"

theorem isParentPaused_correct_witness:
  "isParentPaused no_faults 0 ''a'' [child_row ''a'' ''b'' StatusOnline, child_row ''b'' ''a'' StatusOnline] = None"
  using isParentPaused_correct [of "\<lambda>_. 0" "[child_row ''a'' ''b'' StatusOnline, child_row ''b'' ''a'' StatusOnline]" "''a''" "''b''"]
  by (simp add: parent_in_def find_ws_def status_of_def child_row_def life_row_of_def)

section \<open>Descendants\<close>

lemma children_of_iff: "r \<in> set (children_of ok frontier rows) \<longleftrightarrow> r \<in> set rows \<and> ok r \<and> (\<exists>p \<in> set frontier. w_parent_id r = Some p)"
  by (auto simp: children_of_def)

text \<open>
  What the recursive query returns: rows of the table that satisfy the condition, each with its
  parent in the frontier or in the result, and all such rows.
\<close>

definition descends :: "(life_row \<Rightarrow> bool) \<Rightarrow> string list \<Rightarrow> life_row list \<Rightarrow> life_row list \<Rightarrow> bool" where
  "descends ok frontier rows ds \<longleftrightarrow>
     (\<forall>r. r \<in> set ds \<longleftrightarrow> r \<in> set rows \<and> ok r \<and> (\<exists>p \<in> set frontier \<union> w_id ` set ds. w_parent_id r = Some p))"

lemma descends_level:
  assumes "descends ok (map w_id level) rows below" "level = children_of ok frontier rows"
  shows "descends ok frontier rows (level @ below)"
  unfolding descends_def
proof (intro allI)
  fix r
  have level: "r \<in> set level \<longleftrightarrow> r \<in> set rows \<and> ok r \<and> (\<exists>p \<in> set frontier. w_parent_id r = Some p)"
    unfolding assms(2) by (rule children_of_iff)
  have below: "r \<in> set below \<longleftrightarrow> r \<in> set rows \<and> ok r \<and> (\<exists>p \<in> w_id ` set level \<union> w_id ` set below. w_parent_id r = Some p)"
    using spec [OF assms(1) [unfolded descends_def], of r] unfolding set_map .
  show "r \<in> set (level @ below) \<longleftrightarrow>
      r \<in> set rows \<and> ok r \<and> (\<exists>p \<in> set frontier \<union> w_id ` set (level @ below). w_parent_id r = Some p)"
    unfolding set_append Un_iff level below image_Un bex_Un by (simp only: conj_disj_distribL conj_assoc disj_assoc)
qed

lemma descendants_correct:
  assumes "descendants ok frontier rows = Some ds"
  shows "descends ok frontier rows ds"
proof (rule descendants.raw_induct [where P = "\<lambda>ok frontier rows ds. descends ok frontier rows ds", OF _ assms], goal_cases)
  case (1 walk ok frontier rows ds)
  show ?case
  proof (cases "children_of ok frontier rows = []")
    case True
    then have "\<not> (r \<in> set rows \<and> ok r \<and> (\<exists>p \<in> set frontier. w_parent_id r = Some p))" for r
      using children_of_iff [of r ok frontier rows] by simp
    with True 1(2) show ?thesis by (simp add: descends_def)
  next
    case False
    with 1(2) obtain below where below: "walk ok (map w_id (children_of ok frontier rows)) rows = Some below"
        "ds = children_of ok frontier rows @ below"
      by (auto simp: Let_def Option.bind_eq_Some_conv)
    from descends_level [OF 1(1) [OF below(1)] refl] show ?thesis unfolding below(2) .
  qed
qed

lemma descendants_return:
  assumes "ranked h rows" and bound: "\<And>r. r \<in> set rows \<Longrightarrow> h (w_id r) \<le> n"
    and "\<And>p. p \<in> set frontier \<Longrightarrow> d \<le> h p"
  shows "descendants ok frontier rows \<noteq> None"
  using assms(3)
proof (induction "Suc n - d" arbitrary: d frontier rule: less_induct)
  case less
  let ?level = "children_of ok frontier rows"
  show ?case
  proof (cases "?level = []")
    case True
    then show ?thesis by (subst descendants.simps) (simp add: Let_def)
  next
    case False
    have up: "d < h p" if "p \<in> set (map w_id ?level)" for p
    proof -
      from that obtain r q where r: "r \<in> set rows" "q \<in> set frontier" "w_parent_id r = Some q" "p = w_id r"
        by (auto simp: children_of_iff)
      then have "h q < h p" using assms(1) unfolding ranked_def by blast
      with less(2) [OF r(2)] show ?thesis by linarith
    qed
    obtain r where "r \<in> set ?level" using False by (meson last_in_set)
    then have "d < h (w_id r)" "h (w_id r) \<le> n" using up [of "w_id r"] bound [of r] by (auto simp: children_of_iff)
    then have "Suc n - Suc d < Suc n - d" by linarith
    from less(1) [OF this, of "map w_id ?level"] up have "descendants ok (map w_id ?level) rows \<noteq> None" by (metis Suc_leI)
    with False show ?thesis by (subst descendants.simps) (auto simp: Let_def)
  qed
qed

section \<open>Paused subtrees\<close>

text \<open>Below a paused workspace everything is paused or removed.\<close>

definition paused_closed :: "life_row list \<Rightarrow> bool" where
  "paused_closed rows \<longleftrightarrow>
     (\<forall>r \<in> set rows. \<forall>pr \<in> set rows. w_parent_id r = Some (w_id pr) \<and> w_status pr = StatusPaused \<longrightarrow>
        w_status r \<in> {StatusPaused, StatusRemoved})"

definition tree_ok :: "ws_store \<Rightarrow> bool" where
  "tree_ok st \<longleftrightarrow> distinct (map w_id (ss_rows st)) \<and> paused_closed (ss_rows st)"

text \<open>An update that sets the status of some workspaces and leaves the tree alone.\<close>

definition sets_status :: "string set \<Rightarrow> WorkspaceStatus \<Rightarrow> (life_row \<Rightarrow> life_row) \<Rightarrow> bool" where
  "sets_status ids s f \<longleftrightarrow> (\<forall>r. w_id (f r) = w_id r \<and> w_parent_id (f r) = w_parent_id r \<and>
     w_status (f r) = (if w_id r \<in> ids then s else w_status r))"

definition restatus :: "string set \<Rightarrow> WorkspaceStatus \<Rightarrow> life_row list \<Rightarrow> life_row list \<Rightarrow> bool" where
  "restatus ids s rows rows' \<longleftrightarrow> (\<exists>f. rows' = map f rows \<and> sets_status ids s f)"

lemma restatusI: "rows' = map f rows \<Longrightarrow> sets_status ids s f \<Longrightarrow> restatus ids s rows rows'"
  by (auto simp: restatus_def)

lemma restatus_refl: "restatus {} s rows rows"
  by (rule restatusI [of _ id]) (simp_all add: sets_status_def)

lemma restatus_trans:
  assumes "restatus A s rows rows'" "restatus B t rows' rows''" "t = s \<or> A \<subseteq> B"
  shows "restatus (A \<union> B) t rows rows''"
proof -
  obtain f where f: "rows' = map f rows" "sets_status A s f" using assms(1) by (auto simp: restatus_def)
  obtain g where g: "rows'' = map g rows'" "sets_status B t g" using assms(2) by (auto simp: restatus_def)
  have "rows'' = map (g \<circ> f) rows" using f(1) g(1) by simp
  moreover have "sets_status (A \<union> B) t (g \<circ> f)" using f(2) g(2) assms(3) by (auto simp: sets_status_def)
  ultimately show ?thesis by (rule restatusI)
qed

lemma restatus_statements:
  "restatus {i} s rows (put_status now i s rows)"
  "restatus {i} StatusProvisioning rows (resume_status now i rows)"
  "restatus {i} StatusFailed rows (mark_failed_update now i msg rows)"
  "restatus (set ids) StatusRemoved rows (remove_workspaces now ids rows)"
  "restatus {} s rows (update_where (\<lambda>r. w_id r = i) (\<lambda>r. r\<lparr>w_runtime := rt\<rparr>) rows)"
  unfolding put_status_def resume_status_def set_status_def mark_failed_update_def remove_workspaces_def update_where_def
  by (rule restatusI, rule refl, simp add: sets_status_def)+

lemma restatus_ids: "restatus ids s rows rows' \<Longrightarrow> map w_id rows' = map w_id rows"
  by (auto simp: restatus_def sets_status_def)

lemma restatus_closed:
  assumes "restatus ids s rows rows'"
    and "\<And>r pr. r \<in> set rows \<Longrightarrow> pr \<in> set rows \<Longrightarrow> w_parent_id r = Some (w_id pr) \<Longrightarrow>
      (if w_id pr \<in> ids then s else w_status pr) = StatusPaused \<Longrightarrow>
      (if w_id r \<in> ids then s else w_status r) \<in> {StatusPaused, StatusRemoved}"
  shows "paused_closed rows'"
proof -
  obtain f where f: "rows' = map f rows" "sets_status ids s f" using assms(1) by (auto simp: restatus_def)
  have f': "w_id (f r) = w_id r" "w_parent_id (f r) = w_parent_id r" "w_status (f r) = (if w_id r \<in> ids then s else w_status r)" for r
    using f(2) by (simp_all add: sets_status_def)
  have "w_status (f r) \<in> {StatusPaused, StatusRemoved}"
    if "r \<in> set rows" "pr \<in> set rows" "w_parent_id (f r) = Some (w_id (f pr)) \<and> w_status (f pr) = StatusPaused" for r pr
    using assms(2) [OF that(1,2)] that(3) unfolding f' by simp
  then show ?thesis unfolding paused_closed_def f(1) set_map by blast
qed

lemma paused_closedD:
  "paused_closed rows \<Longrightarrow> r \<in> set rows \<Longrightarrow> pr \<in> set rows \<Longrightarrow> w_parent_id r = Some (w_id pr) \<Longrightarrow> w_status pr = StatusPaused \<Longrightarrow>
   w_status r \<in> {StatusPaused, StatusRemoved}"
  unfolding paused_closed_def by blast

lemma same_id: "distinct (map w_id rows) \<Longrightarrow> r \<in> set rows \<Longrightarrow> x \<in> set rows \<Longrightarrow> w_id r = w_id x \<Longrightarrow> r = x"
  unfolding distinct_map inj_on_def by blast

text \<open>Pausing a subtree, lifting the pause of one, removing one, and moving one workspace.\<close>

lemma pause_closed:
  assumes "paused_closed rows" "descends pausable [i] rows ds" "restatus (insert i (w_id ` set ds)) StatusPaused rows rows'"
  shows "paused_closed rows'"
proof (rule restatus_closed [OF assms(3)], goal_cases)
  case (1 r pr)
  show ?case
  proof (cases "w_id r \<in> insert i (w_id ` set ds)")
    case False
    then have "r \<notin> set ds" by blast
    then have "\<not> (r \<in> set rows \<and> pausable r \<and> (\<exists>p \<in> set [i] \<union> w_id ` set ds. w_parent_id r = Some p))"
      using spec [OF assms(2) [unfolded descends_def], of r] by simp
    then have below: "w_id pr \<in> insert i (w_id ` set ds) \<Longrightarrow> \<not> pausable r" using 1(1,3) by auto
    show ?thesis
    proof (cases "w_id pr \<in> insert i (w_id ` set ds)")
      case True
      with False below show ?thesis by (auto simp: pausable_def)
    next
      case out: False
      then have "w_status pr = StatusPaused" using 1(4) by simp
      with False paused_closedD [OF assms(1) 1(1-3)] show ?thesis by simp
    qed
  qed simp
qed

lemma unpause_closed:
  assumes "paused_closed rows" "restatus ids s rows rows'" "s \<noteq> StatusPaused"
    and "\<And>r pr. r \<in> set rows \<Longrightarrow> pr \<in> set rows \<Longrightarrow> w_id r \<in> ids \<Longrightarrow> w_parent_id r = Some (w_id pr) \<Longrightarrow> w_status pr = StatusPaused \<Longrightarrow>
      w_id pr \<in> ids \<or> s = StatusRemoved"
  shows "paused_closed rows'"
proof (rule restatus_closed [OF assms(2)], goal_cases)
  case (1 r pr)
  then have pr: "w_id pr \<notin> ids" "w_status pr = StatusPaused" using assms(3) by (auto split: if_splits)
  show ?case
  proof (cases "w_id r \<in> ids")
    case True
    with assms(4) [OF 1(1,2) _ 1(3) pr(2)] pr(1) show ?thesis by simp
  next
    case False
    with paused_closedD [OF assms(1) 1(1-3) pr(2)] show ?thesis by simp
  qed
qed

text \<open>The parent of a single workspace that moves is not paused.\<close>

lemma unpause_one:
  assumes "distinct (map w_id rows)" "paused_closed rows" "find_ws i rows = Some r" "restatus {i} s rows rows'" "s \<noteq> StatusPaused"
    and "\<And>p pr. w_parent_id r = Some p \<Longrightarrow> find_ws p rows = Some pr \<Longrightarrow> w_status pr \<noteq> StatusPaused"
  shows "paused_closed rows'"
proof (rule unpause_closed [OF assms(2,4,5)], goal_cases)
  case (1 x pr)
  then have "x = r" using same_id [OF assms(1)] find_ws_mem [OF assms(3)] find_ws_id [OF assms(3)] by auto
  moreover have "find_ws (w_id pr) rows = Some pr" unfolding find_ws_def by (rule select_first_distinct [OF assms(1) 1(2)])
  ultimately show ?case using assms(6) 1(4,5) by blast
qed

lemma walk_none_parent:
  assumes "isParentPaused flt k i rows = Some None" "\<not> flt (2 * k)" "\<not> flt (2 * k + 1)" "find_ws i rows = Some r" "w_parent_id r = Some p" "find_ws p rows = Some pr"
  shows "w_status pr \<noteq> StatusPaused"
proof
  assume "w_status pr = StatusPaused"
  then have "isParentPaused flt k i rows = Some (Some (w_name pr))" using assms(2-) by (subst isParentPaused.simps) simp
  with assms(1) show False by simp
qed

lemma resume_closed:
  assumes "distinct (map w_id rows)" "paused_closed rows" "find_ws i rows = Some r" "isParentPaused no_faults 0 i rows = Some None"
    and "descends paused_row [i] rows ds" "restatus (insert i (w_id ` set ds)) s rows rows'" "s \<noteq> StatusPaused"
  shows "paused_closed rows'"
proof (rule unpause_closed [OF assms(2,6,7)], goal_cases)
  case (1 x pr)
  have "w_id pr \<in> insert i (w_id ` set ds)"
  proof (cases "w_id x = i")
    case True
    then have "x = r" using same_id [OF assms(1) 1(1)] find_ws_mem [OF assms(3)] find_ws_id [OF assms(3)] by simp
    moreover have "find_ws (w_id pr) rows = Some pr" unfolding find_ws_def by (rule select_first_distinct [OF assms(1) 1(2)])
    ultimately show ?thesis using walk_none_parent [OF assms(4) _ _ assms(3)] 1(4,5) by simp
  next
    case False
    then obtain d where d: "d \<in> set ds" "w_id x = w_id d" using 1(3) by auto
    have in_ds: "d \<in> set rows \<and> (\<exists>p \<in> set [i] \<union> w_id ` set ds. w_parent_id d = Some p)"
      using spec [OF assms(5) [unfolded descends_def], of d] d(1) by simp
    then have "x = d" using same_id [OF assms(1) 1(1)] d(2) by blast
    with in_ds 1(4) show ?thesis by auto
  qed
  then show ?case ..
qed

section \<open>The routes keep subtrees paused\<close>

lemma pause_fold:
  "restatus (set ids) StatusPaused (ss_rows st) (ss_rows (fold (pause_one clk no_faults be) (List.enumerate n ids) st))"
proof (induction ids arbitrary: n st)
  case (Cons i ids)
  have "restatus {i} StatusPaused (ss_rows st) (ss_rows (pause_one clk no_faults be (n, i) st))"
    by (simp add: pause_one_def restatus_statements)
  from restatus_trans [OF this Cons.IH [of "pause_one clk no_faults be (n, i) st" "Suc n"]] show ?case
    unfolding enumerate_simps fold_simps by (simp del: no_faults_apply)
qed (simp add: restatus_refl)

lemma resume_fold:
  assumes "HasProvisioner be"
  shows "restatus (set ids) StatusProvisioning (ss_rows st) (ss_rows (fold (resume_one clk no_faults be) (List.enumerate n ids) st))"
proof (induction ids arbitrary: n st)
  case (Cons i ids)
  have "restatus {i} StatusProvisioning (ss_rows st) (ss_rows (resume_one clk no_faults be (n, i) st))"
    using assms by (simp add: resume_one_def restatus_statements)
  from restatus_trans [OF this Cons.IH [of "resume_one clk no_faults be (n, i) st" "Suc n"]] show ?case
    unfolding enumerate_simps fold_simps by (simp del: no_faults_apply)
qed (simp add: restatus_refl)

lemma no_faults_shift: "(\<lambda>k. no_faults (k + n)) = no_faults" "(\<lambda>k. no_faults (Suc k)) = no_faults"
  by (simp_all add: no_faults_def)

lemma tree_okI: "tree_ok st \<Longrightarrow> restatus ids s (ss_rows st) (ss_rows st') \<Longrightarrow> paused_closed (ss_rows st') \<Longrightarrow> tree_ok st'"
  unfolding tree_ok_def using restatus_ids by metis

lemma Pause_tree:
  assumes "tree_ok st" "Pause clk no_faults be i cascade st = Some (reply, st')"
  shows "tree_ok st'"
proof (cases "st' = st")
  case False
  with assms(2) obtain ds where ds: "descendants pausable [i] (ss_rows st) = Some ds"
      "st' = fold (pause_one clk no_faults be) (List.enumerate 0 (i # map w_id ds)) st"
    unfolding Pause_def no_faults_shift by (auto simp: Option.bind_eq_Some_conv split: option.splits if_splits)
  have re: "restatus (insert i (w_id ` set ds)) StatusPaused (ss_rows st) (ss_rows st')"
    using pause_fold [of "i # map w_id ds" st clk be 0] unfolding ds(2) by simp
  from tree_okI [OF assms(1) re] pause_closed [OF _ descendants_correct [OF ds(1)] re] show ?thesis
    using assms(1) by (simp add: tree_ok_def)
qed (use assms(1) in simp)

lemma Resume_tree:
  assumes "tree_ok st" "Resume clk no_faults no_faults be i cascade st = Some (reply, st')"
  shows "tree_ok st'"
proof (cases "st' = st")
  case False
  with assms(2) obtain r ds where r: "select_first (\<lambda>r. w_id r = i \<and> paused_row r) (ss_rows st) = Some r"
      and be: "HasProvisioner be" and walk: "isParentPaused no_faults 0 i (ss_rows st) = Some None"
      and ds: "descendants paused_row [i] (ss_rows st) = Some ds"
      and st': "st' = fold (resume_one clk no_faults be) (List.enumerate 0 (i # map w_id ds)) st"
    unfolding Resume_def no_faults_shift by (auto simp: Option.bind_eq_Some_conv split: option.splits if_splits)
  have tree: "distinct (map w_id (ss_rows st))" "paused_closed (ss_rows st)" using assms(1) by (simp_all add: tree_ok_def)
  have "find_ws i (ss_rows st) = Some r"
    using select_first_distinct [OF tree(1), of r] select_first_SomeD [OF r] by (simp add: find_ws_def)
  note closed = resume_closed [OF tree this walk descendants_correct [OF ds]]
  have re: "restatus (insert i (w_id ` set ds)) StatusProvisioning (ss_rows st) (ss_rows st')"
    using resume_fold [OF be, of "i # map w_id ds" st clk 0] unfolding st' by simp
  from tree_okI [OF assms(1) re closed [OF re]] show ?thesis by simp
qed (use assms(1) in simp)

lemma tree_one:
  assumes "tree_ok st" "find_ws i (ss_rows st) = Some r" "restatus {i} s (ss_rows st) (ss_rows st')" "s \<noteq> StatusPaused"
    and "\<And>p pr. w_parent_id r = Some p \<Longrightarrow> find_ws p (ss_rows st) = Some pr \<Longrightarrow> w_status pr \<noteq> StatusPaused"
  shows "tree_ok st'"
  using assms unpause_one [of "ss_rows st" i r s "ss_rows st'"] tree_okI [OF assms(1,3)] by (simp add: tree_ok_def)

lemma restart_runtime_rows:
  "restatus {} s (ss_rows st) (ss_rows (snd (restartRuntimeFromConfig fault be config i rt apply_template st)))"
  by (auto simp: restartRuntimeFromConfig_def Let_def restatus_refl restatus_statements split: option.splits)

lemma Restart_tree:
  assumes "tree_ok st" "Restart now now' no_faults be config i reset body st = Some (reply, st')"
  shows "tree_ok st'"
proof (cases "st' = st")
  case False
  with assms(2) obtain r where r: "find_ws i (ss_rows st) = Some r"
    unfolding Restart_def by (auto split: option.splits)
  with assms(2) False obtain b where body: "body = Some b"
    unfolding Restart_def by (auto simp: Option.bind_eq_Some_conv Let_def split: option.splits if_splits)
  have be: "HasProvisioner be" and walk: "isParentPaused no_faults 0 i (ss_rows st) = Some None"
    and st': "st' = snd (RestartWorkspaceAutoOpts now' False be i (reset = ''true'' \<or> rb_Reset b)
        (announce (WorkspaceProvisioning i) (exec_store False (put_status now i StatusProvisioning)
          (snd (restartRuntimeFromConfig False be config i (runtime_or ''claude-code'' r) (rb_ApplyTemplate b) st)))))"
    using assms(2) False unfolding Restart_def no_faults_shift r body
    by (auto simp: Option.bind_eq_Some_conv Let_def split: option.splits if_splits)
  let ?st1 = "snd (restartRuntimeFromConfig False be config i (runtime_or ''claude-code'' r) (rb_ApplyTemplate b) st)"
  have "ss_rows st' = put_status now i StatusProvisioning (ss_rows ?st1)" using be by (simp add: st')
  with restatus_trans [OF restart_runtime_rows [of StatusProvisioning st False be config i] restatus_statements(1) [of i StatusProvisioning "ss_rows ?st1" now]]
  have "restatus {i} StatusProvisioning (ss_rows st) (ss_rows st')" by simp
  then show ?thesis using tree_one [OF assms(1) r] walk_none_parent [OF walk _ _ r] by simp
qed (use assms(1) in simp)

lemma cycle_tree:
  assumes "tree_ok st" "runRestartCycle now now' no_faults be id i st = Some st'"
  shows "tree_ok st'"
proof (cases "st' = st")
  case False
  with assms(2) obtain r where r: "select_first (\<lambda>r. w_id r = i \<and> w_status r \<notin> {StatusRemoved, StatusPaused, StatusHibernated}) (ss_rows st) = Some r"
      and walk: "isParentPaused no_faults 0 i (ss_rows st) = Some None"
      and st': "st' = snd (provisionWorkspaceAuto now' False be i (announce (WorkspaceProvisioning i)
        (exec_store False (put_status now i StatusProvisioning) (exec_store False id (stopForRestart be i st)))))"
    unfolding runRestartCycle_def no_faults_shift by (auto simp: Option.bind_eq_Some_conv Let_def split: option.splits if_splits)
  have "distinct (map w_id (ss_rows st))" using assms(1) by (simp add: tree_ok_def)
  then have find: "find_ws i (ss_rows st) = Some r"
    using select_first_distinct [of w_id "ss_rows st" r] select_first_SomeD [OF r] by (simp add: find_ws_def)
  obtain s where "restatus {i} s (ss_rows st) (ss_rows st')" "s \<noteq> StatusPaused"
  proof (cases "HasProvisioner be")
    case True
    then have "ss_rows st' = put_status now i StatusProvisioning (ss_rows st)" by (simp add: st')
    then show ?thesis using that [of StatusProvisioning] by (simp add: restatus_statements)
  next
    case False
    then have "ss_rows st' = mark_failed_update now' i no_backend_message (put_status now i StatusProvisioning (ss_rows st))"
      by (simp add: st' provisionWorkspaceAuto_def HasProvisioner_def markProvisionFailed_def)
    then have "restatus ({i} \<union> {i}) StatusFailed (ss_rows st) (ss_rows st')"
      using restatus_trans [OF restatus_statements(1) [of i StatusProvisioning "ss_rows st" now]
          restatus_statements(3) [of i _ now' no_backend_message]] by simp
    then show ?thesis using that [of StatusFailed] by simp
  qed
  then show ?thesis using tree_one [OF assms(1) find] walk_none_parent [OF walk _ _ find] by simp
qed (use assms(1) in simp)

lemma ss_rows_tear_down [simp]: "ss_rows (snd (tear_down be erase n i (errs, st))) = ss_rows st"
  by (auto simp: tear_down_def stopAndRemove_def stopWorkspaceForDelete_def cpStopWithRetryErr_def call_def announce_def split: prod.split option.split)

lemma ss_rows_tear_downs: "ss_rows (snd (fold (tear_down be erase n) ids es)) = ss_rows (snd es)"
  by (induction ids arbitrary: es) (auto simp: ss_rows_tear_down [of _ _ _ _ "fst _" "snd _", simplified])

lemma hibernate_restatus: "restatus {i} s rows (put_status now' i s (hibernate_claim now i rows))"
  unfolding put_status_def hibernate_claim_def set_status_def update_where_def map_map
  by (rule restatusI, rule refl, simp add: sets_status_def)

lemma hibernate_tree:
  assumes "tree_ok st"
  shows "tree_ok (HibernateWorkspace now now' no_faults be id i st)"
proof (cases "count_where (hibernatable i) (ss_rows st) = 0")
  case False
  have tree: "distinct (map w_id (ss_rows st))" "paused_closed (ss_rows st)" using assms by (simp_all add: tree_ok_def)
  from False obtain r where r: "r \<in> set (ss_rows st)" "hibernatable i r" by (auto simp: count_where_0_iff)
  then have find: "find_ws i (ss_rows st) = Some r"
    using select_first_distinct [OF tree(1) r(1)] by (simp add: find_ws_def hibernatable_def)
  let ?st' = "HibernateWorkspace now now' no_faults be id i st"
  have "ss_rows ?st' = put_status now' i StatusHibernated (hibernate_claim now i (ss_rows st))"
    using False by (simp add: HibernateWorkspace_def Let_def)
  then have "restatus {i} StatusHibernated (ss_rows st) (ss_rows ?st')" using hibernate_restatus by simp
  moreover have "w_status pr \<noteq> StatusPaused" if "w_parent_id r = Some p" "find_ws p (ss_rows st) = Some pr" for p pr
    using paused_closedD [OF tree(2) r(1) find_ws_mem [OF that(2)]] that find_ws_id [OF that(2)] r(2) by (auto simp: hibernatable_def)
  ultimately show ?thesis using tree_one [OF assms find] by blast
qed (use assms in \<open>simp add: HibernateWorkspace_def\<close>)

definition torn_down :: "instant \<Rightarrow> faults \<Rightarrow> backends \<Rightarrow> string \<Rightarrow> bool \<Rightarrow> string list \<Rightarrow> ws_store \<Rightarrow> string list \<times> ws_store" where
  "torn_down now flt be i erase ids st =
     tear_down be erase (length ids) i (fold (tear_down be erase 0) ids ([], mark_deleted now (\<lambda>k. flt (Suc k)) (i # ids) st))"

lemma CascadeDelete_eq:
  "CascadeDelete valid_uuid now flt be i erase st =
     (if \<not> valid_uuid i then Some (Inl InvalidID, st)
      else if flt 0 then Some (Inl DescendantQuery, st)
      else Option.bind (descendants not_removed [i] (ss_rows st)) (\<lambda>ds.
        Some (Inr (map w_id ds, fst (torn_down now flt be i erase (map w_id ds) st)), snd (torn_down now flt be i erase (map w_id ds) st))))"
  by (simp add: CascadeDelete_def torn_down_def Let_def split_def)

lemma CascadeDelete_rows:
  assumes "CascadeDelete valid_uuid now flt be i erase st = Some (Inr (ids, errs), st')"
  obtains ds where "descendants not_removed [i] (ss_rows st) = Some ds" "ids = map w_id ds"
    "ss_rows st' = (if flt 1 then ss_rows st else remove_workspaces now (i # ids) (ss_rows st))"
proof -
  from assms obtain ds where ds: "descendants not_removed [i] (ss_rows st) = Some ds" "ids = map w_id ds"
      "st' = snd (torn_down now flt be i erase ids st)"
    by (auto simp: CascadeDelete_eq Option.bind_eq_Some_conv split: if_splits)
  have "ss_rows st' = ss_rows (mark_deleted now (\<lambda>k. flt (Suc k)) (i # ids) st)"
    using ss_rows_tear_down [of be erase "length ids" i "fst es" "snd es" for es] unfolding ds(3) torn_down_def
    by (simp add: ss_rows_tear_downs)
  also have "\<dots> = (if flt 1 then ss_rows st else remove_workspaces now (i # ids) (ss_rows st))" by (simp add: mark_deleted_def)
  finally show thesis using that ds(1,2) by blast
qed

lemma delete_tree:
  assumes "tree_ok st" "CascadeDelete valid_uuid now no_faults be i erase st = Some (outcome, st')"
  shows "tree_ok st'"
proof (cases outcome)
  case (Inl e)
  then show ?thesis using assms by (auto simp: CascadeDelete_eq Option.bind_eq_Some_conv split: if_splits)
next
  case (Inr x)
  then obtain ids errs where "outcome = Inr (ids, errs)" by (cases x) auto
  with assms(2) have "CascadeDelete valid_uuid now no_faults be i erase st = Some (Inr (ids, errs), st')" by simp
  then obtain ds where "ss_rows st' = remove_workspaces now (i # ids) (ss_rows st)" by (rule CascadeDelete_rows) simp
  then have "restatus (set (i # ids)) StatusRemoved (ss_rows st) (ss_rows st')" by (simp only: restatus_statements(4))
  from tree_okI [OF assms(1) this] unpause_closed [OF _ this] show ?thesis using assms(1) by (simp add: tree_ok_def)
qed

text \<open>The routes as operations; one that does not return leaves the store as it is.\<close>

datatype tree_op =
    TPause "nat \<Rightarrow> instant" backends string string
  | TResume "nat \<Rightarrow> instant" backends string string
  | TRestart instant instant backends "string option" string string "restart_body option"
  | TCycle instant instant backends string
  | THibernate instant instant backends string
  | TDelete "string \<Rightarrow> bool" instant backends string bool

definition after :: "ws_store \<Rightarrow> ('r \<times> ws_store) option \<Rightarrow> ws_store" where
  "after st res = (case res of None \<Rightarrow> st | Some (_, st') \<Rightarrow> st')"

fun tree_step :: "ws_store \<Rightarrow> tree_op \<Rightarrow> ws_store" where
  "tree_step st (TPause clk be i cascade) = after st (Pause clk no_faults be i cascade st)"
| "tree_step st (TResume clk be i cascade) = after st (Resume clk no_faults no_faults be i cascade st)"
| "tree_step st (TRestart now now' be config i reset body) = after st (Restart now now' no_faults be config i reset body st)"
| "tree_step st (TCycle now now' be i) = (case runRestartCycle now now' no_faults be id i st of None \<Rightarrow> st | Some st' \<Rightarrow> st')"
| "tree_step st (THibernate now now' be i) = HibernateWorkspace now now' no_faults be id i st"
| "tree_step st (TDelete valid_uuid now be i erase) = after st (CascadeDelete valid_uuid now no_faults be i erase st)"

lemma tree_ok_after: "tree_ok st \<Longrightarrow> (\<And>reply st'. res = Some (reply, st') \<Longrightarrow> tree_ok st') \<Longrightarrow> tree_ok (after st res)"
  by (auto simp: after_def split: option.split)

lemma tree_ok_step: "tree_ok st \<Longrightarrow> tree_ok (tree_step st op)"
  by (cases op) (auto intro: tree_ok_after Pause_tree Resume_tree Restart_tree delete_tree hibernate_tree cycle_tree split: option.split)

interpretation tree: invariant_system tree_step tree_ok
  by unfold_locales (rule tree_ok_step)

text \<open>C29: Paused subtrees stay paused. If below every paused workspace everything is paused or removed, this
  holds after every sequence of pause, resume, restart, automatic restart, hibernation and deletion
  calls whose statements succeed; identifiers stay unique.\<close>

theorem paused_subtrees:
  assumes "distinct (map w_id (ss_rows st))" "paused_closed (ss_rows st)"
  shows "distinct (map w_id (ss_rows (foldl tree_step st ops))) \<and> paused_closed (ss_rows (foldl tree_step st ops))"
  using tree.inv_run [of st ops] assms by (simp add: tree_ok_def)

definition route_tree :: ws_store where
  "route_tree = store_of [life_row_of ''a'' StatusOnline, child_row ''b'' ''a'' StatusOnline]"

theorem paused_subtrees_witness:
  "paused_closed (ss_rows (foldl tree_step route_tree
     [TPause (\<lambda>_. 1) docker_backend ''a'' ''true'', TRestart 2 3 docker_backend None ''b'' [] (Some \<lparr>rb_ApplyTemplate = False, rb_Reset = False\<rparr>)]))"
proof -
  have "distinct (map w_id (ss_rows route_tree))" "paused_closed (ss_rows route_tree)"
    by (simp_all add: route_tree_def store_of_def life_row_of_def child_row_def paused_closed_def)
  from paused_subtrees [OF this] show ?thesis by (rule conjunct2)
qed

section \<open>Deletion\<close>

lemma cp_stop_calls: "cp_stop_loop be i attempt delay (Suc left) = (e, n, w) \<Longrightarrow> 0 < n \<and> n \<le> Suc left"
proof (induction left arbitrary: attempt delay e n w)
  case (Suc left)
  obtain e' n' w' where rest: "cp_stop_loop be i (Suc attempt) (2 * delay) (Suc left) = (e', n', w')" by (metis prod_cases3)
  from Suc.IH [OF rest] Suc.prems show ?case
    by (subst (asm) cp_stop_loop.simps(2)) (auto simp only: rest split: option.splits if_splits prod.splits)
qed (auto split: option.splits)

definition stop_call :: "backends \<Rightarrow> bool \<Rightarrow> string \<Rightarrow> backend_call" where
  "stop_call be erase i = (if be_cp be then (if erase then CPStopAndPrune i else CPStop i) else DockerStop i)"

text \<open>How often a workspace is asked to stop, and whether it did.\<close>

definition stop_attempts :: "backends \<Rightarrow> string \<Rightarrow> nat" where
  "stop_attempts be i = (if be_cp be then fst (snd (cp_stop_loop be i 1 cpStopRetryBaseDelay cpStopRetryAttempts)) else 1)"

definition stop_ok :: "backends \<Rightarrow> string \<Rightarrow> bool" where
  "stop_ok be i \<longleftrightarrow>
     (if be_cp be then fst (cp_stop_loop be i 1 cpStopRetryBaseDelay cpStopRetryAttempts) else be_docker_stop be i) = None"

definition stop_trace :: "backends \<Rightarrow> bool \<Rightarrow> string \<Rightarrow> backend_call list" where
  "stop_trace be erase i = replicate (stop_attempts be i) (stop_call be erase i) @ (if be_docker be \<and> stop_ok be i then [DockerRemoveVolume i] else [])"

lemma stop_attempts_bound: "0 < stop_attempts be i \<and> stop_attempts be i \<le> 3"
proof -
  obtain e n w where loop: "cp_stop_loop be i 1 cpStopRetryBaseDelay cpStopRetryAttempts = (e, n, w)" by (metis prod_cases3)
  have "0 < n \<and> n \<le> 3" using cp_stop_calls [of be i 1 cpStopRetryBaseDelay 2 e n w] loop by (simp add: cpStopRetryAttempts_def numeral_3_eq_3)
  then show ?thesis unfolding stop_attempts_def loop by simp
qed

lemma tear_down_trace:
  assumes "HasProvisioner be"
  shows "ss_calls (snd (tear_down be erase n i es)) = ss_calls (snd es) @ stop_trace be erase i"
    "length (fst (tear_down be erase n i es)) = length (fst es) + (if stop_ok be i then 0 else 1)"
proof -
  obtain errs st where es: "es = (errs, st)" by (cases es)
  obtain e m w where loop: "cp_stop_loop be i (Suc 0) cpStopRetryBaseDelay cpStopRetryAttempts = (e, m, w)" by (metis prod_cases3)
  note defs = es tear_down_def stopAndRemove_def stopWorkspaceForDelete_def cpStopWithRetryErr_def loop call_def announce_def stop_call_def
    stop_trace_def stop_attempts_def stop_ok_def
  show "ss_calls (snd (tear_down be erase n i es)) = ss_calls (snd es) @ stop_trace be erase i"
    using assms by (cases e; cases "be_docker_stop be i") (auto simp: defs HasProvisioner_def)
  show "length (fst (tear_down be erase n i es)) = length (fst es) + (if stop_ok be i then 0 else 1)"
    using assms by (cases e; cases "be_docker_stop be i") (auto simp: defs HasProvisioner_def)
qed

lemma tear_downs_trace:
  assumes "HasProvisioner be"
  shows "ss_calls (snd (fold (tear_down be erase n) ids es)) = ss_calls (snd es) @ concat (map (stop_trace be erase) ids) \<and>
    length (fst (fold (tear_down be erase n) ids es)) = length (fst es) + count_where (\<lambda>k. \<not> stop_ok be k) ids"
  by (induction ids arbitrary: es) (simp_all add: tear_down_trace [OF assms])

lemma torn_down_trace:
  assumes "HasProvisioner be"
  shows "ss_calls (snd (torn_down now flt be i erase ids st)) = ss_calls st @ concat (map (stop_trace be erase) (ids @ [i])) \<and>
    length (fst (torn_down now flt be i erase ids st)) = count_where (\<lambda>k. \<not> stop_ok be k) (ids @ [i])"
  by (simp add: torn_down_def tear_down_trace [OF assms] tear_downs_trace [OF assms] mark_deleted_def)

lemma torn_down_silent:
  assumes "\<not> HasProvisioner be"
  shows "ss_calls (snd (torn_down now flt be i erase ids st)) = ss_calls st"
proof -
  have one: "ss_calls (snd (tear_down be erase n k es)) = ss_calls (snd es)" for n k es
    using assms by (cases es) (simp add: HasProvisioner_def tear_down_def stopAndRemove_def stopWorkspaceForDelete_def announce_def)
  have "ss_calls (snd (fold (tear_down be erase 0) ks es)) = ss_calls (snd es)" for ks es
    by (induction ks arbitrary: es) (simp_all add: one)
  then show ?thesis by (simp add: torn_down_def one mark_deleted_def)
qed

text \<open>The table of credentials joined with the status of the workspaces.\<close>

definition auth_view :: "ws_store \<Rightarrow> auth_db" where
  "auth_view st = (ss_auth st)\<lparr>db_status := (\<lambda>i. map_option status_string (status_of i (ss_rows st)))\<rparr>"

lemma removed_token_dead:
  assumes "status_of j (ss_rows st) \<in> {None, Some StatusRemoved}"
  shows "\<not> fst (ValidateToken sha now flt j tok (auth_view st))"
proof
  assume "fst (ValidateToken sha now flt j tok (auth_view st))"
  then obtain t where t: "select_first (live_ws_token (auth_view st) (sha tok)) (db_ws_tokens (auth_view st)) = Some t" "wt_workspace_id t = j"
    by (auto simp: ValidateToken_def lookupTokenByHash_def split: if_splits option.splits)
  from select_first_SomeD [OF t(1)] t(2) assms show False by (auto simp: live_ws_token_def auth_view_def)
qed

lemma descends_removed:
  assumes "descends not_removed [i] rows ds" "r \<in> set rows" "w_parent_id r = Some p" "p \<in> set (i # map w_id ds)"
  shows "w_status r = StatusRemoved \<or> w_id r \<in> set (map w_id ds)"
proof (rule ccontr)
  assume *: "\<not> ?thesis"
  then have "r \<notin> set ds" by auto
  moreover have "r \<in> set ds" using spec [OF assms(1) [unfolded descends_def], of r] assms(2-) * by (auto simp: not_removed_def)
  ultimately show False ..
qed

lemma CascadeDelete_removed:
  assumes "CascadeDelete valid_uuid now flt be i erase st = Some (Inr (ids, errs), st')" "\<not> flt 1" "j \<in> set (i # ids)"
  shows "status_of j (ss_rows st') \<in> {None, Some StatusRemoved}"
proof -
  obtain ds where "ss_rows st' = remove_workspaces now (i # ids) (ss_rows st)"
    by (rule CascadeDelete_rows [OF assms(1)]) (use assms(2) in simp)
  then show ?thesis using assms(3)
    by (cases "find_ws j (ss_rows st)") (auto simp: status_of_def row_effect find_ws_id)
qed

lemma CascadeDelete_torn_down:
  assumes "CascadeDelete valid_uuid now flt be i erase st = Some (Inr (ids, errs), st')"
  shows "errs = fst (torn_down now flt be i erase ids st)" "st' = snd (torn_down now flt be i erase ids st)"
  using assms by (auto simp: CascadeDelete_eq Option.bind_eq_Some_conv split: if_splits)

lemma CascadeDelete_below:
  assumes "CascadeDelete valid_uuid now flt be i erase st = Some (Inr (ids, errs), st')" "\<not> flt 1" "j \<in> set (i # ids)"
    and r: "r \<in> set (ss_rows st')" "w_parent_id r = Some j"
  shows "w_status r = StatusRemoved"
proof -
  obtain ds where ds: "descendants not_removed [i] (ss_rows st) = Some ds" "ids = map w_id ds"
      "ss_rows st' = (if flt 1 then ss_rows st else remove_workspaces now (i # ids) (ss_rows st))"
    using assms(1) by (rule CascadeDelete_rows)
  then have rows: "ss_rows st' = remove_workspaces now (i # ids) (ss_rows st)" using assms(2) by simp
  with r obtain x where x: "x \<in> set (ss_rows st)"
      "r = (if w_id x \<in> set (i # ids) then x\<lparr>w_status := StatusRemoved, w_updated_at := now\<rparr> else x)"
    by (auto simp: remove_workspaces_def set_update_where)
  then have "w_parent_id x = Some j" using r by (auto split: if_splits)
  from descends_removed [OF descendants_correct [OF ds(1)] x(1) this] assms(3) ds(2) x(2) show ?thesis by auto
qed

text \<open>C28: A deletion reaches the whole subtree and calls the backend for nothing else. When the query and the
  status update succeed and the rows of the query can be read, whichever other statement or stop
  fails, the workspace and every descendant it returns are removed, no row below one of them is left
  alive and none of their tokens validates any more. With a backend, the calls it makes are
  exactly these, for the descendants and then the workspace: one to three calls of one kind to stop it, the
  pruning one if and only if the control plane stops it and the caller asked to erase, followed, on a server
  with Docker and whatever the caller asked, by the removal of its volume when the stop succeeded; the number
  of errors is the number of workspaces that did not stop. Without a backend it makes no call.\<close>

theorem delete_complete:
  assumes "CascadeDelete valid_uuid now flt be i erase st = Some (Inr (ids, errs), st')" and "\<not> flt 1" and "j \<in> set (i # ids)"
  shows "status_of j (ss_rows st') \<in> {None, Some StatusRemoved} \<and>
    (r \<in> set (ss_rows st') \<and> w_parent_id r = Some j \<longrightarrow> w_status r = StatusRemoved) \<and>
    \<not> fst (ValidateToken sha t flt' j tok (auth_view st')) \<and>
    (if HasProvisioner be
     then \<exists>n ok. (\<forall>k. 0 < n k \<and> n k \<le> (3 :: nat)) \<and> length errs = length (filter (\<lambda>k. \<not> ok k) (ids @ [i])) \<and>
       ss_calls st' = ss_calls st @ concat (map (\<lambda>k.
         replicate (n k) (if be_cp be then if erase then CPStopAndPrune k else CPStop k else DockerStop k) @
         (if be_docker be \<and> ok k then [DockerRemoveVolume k] else [])) (ids @ [i]))
     else ss_calls st' = ss_calls st)"
proof -
  have "if HasProvisioner be
     then \<exists>n ok. (\<forall>k. 0 < n k \<and> n k \<le> (3 :: nat)) \<and> length errs = length (filter (\<lambda>k. \<not> ok k) (ids @ [i])) \<and>
       ss_calls st' = ss_calls st @ concat (map (\<lambda>k.
         replicate (n k) (if be_cp be then if erase then CPStopAndPrune k else CPStop k else DockerStop k) @
         (if be_docker be \<and> ok k then [DockerRemoveVolume k] else [])) (ids @ [i]))
     else ss_calls st' = ss_calls st"
  proof (cases "HasProvisioner be")
    case True
    have trace: "stop_trace be erase = (\<lambda>k. replicate (stop_attempts be k)
        (if be_cp be then if erase then CPStopAndPrune k else CPStop k else DockerStop k) @
        (if be_docker be \<and> stop_ok be k then [DockerRemoveVolume k] else []))"
      by (rule ext) (simp add: stop_trace_def stop_call_def)
    show ?thesis
      using torn_down_trace [OF True, of now flt i erase ids st] stop_attempts_bound [of be] True
      unfolding CascadeDelete_torn_down [OF assms(1), symmetric] trace count_where_def
      by (simp only: if_True) (intro exI [of _ "stop_attempts be"] exI [of _ "stop_ok be"], blast)
  qed (use torn_down_silent CascadeDelete_torn_down [OF assms(1)] in simp)
  with CascadeDelete_removed [OF assms] CascadeDelete_below [OF assms, of r] removed_token_dead [OF CascadeDelete_removed [OF assms], of sha t flt' tok]
  show ?thesis by blast
qed

lemma delete_not_gated: "gateDestructive env now flt locked aid c i ActionDeleteWorkspace reason cj ast = (Proceed, ast)"
  by (simp add: gateDestructive_def IsGated_def ActionDeleteWorkspace_def ActionSecretWrite_def ActionOrgTokenMint_def)

text \<open>C40: A failed stop cannot be retried through the route. After a deletion that answered 500 because a stop
  failed, every further request for this workspace is answered 410 and stops nothing, whatever
  backend, credentials and parameters it comes with.\<close>

theorem delete_retry_gone:
  assumes "Delete valid_uuid env marshal now flt locked aid be c req (st, ast) = Some (DelStopFailed n k, st', ast')"
    and "\<not> flt 10" and "dr_id req' = dr_id req" and "\<not> flt' 0"
  shows "Delete valid_uuid env' marshal' now' flt' locked' aid' be' c' req' (st', ast'') =
    Some (DelErr 410 ''workspace removed'', st', ast'')"
proof -
  let ?i = "dr_id req"
  have valid: "valid_uuid ?i" using assms(1) by (auto simp: Delete_def Let_def split: if_splits)
  obtain r where r: "find_ws ?i (ss_rows st) = Some r"
    using assms(1) by (auto simp: Delete_def Let_def split: if_splits option.splits)
  note run = assms(1) [unfolded Delete_def delete_not_gated Let_def]
  obtain outcome st1 where del1: "CascadeDelete valid_uuid now (\<lambda>k. flt (k + 9)) be ?i (dr_erase_data req = ''true'') st = Some (outcome, st1)"
    using run r by (auto simp: Option.bind_eq_Some_conv destructiveDeleteCounts_def split: if_splits)
  obtain ids errs where outcome: "outcome = Inr (ids, errs)"
    using run r del1 by (cases outcome) (auto simp: destructiveDeleteCounts_def split: if_splits)
  have "st1 = st'" using run r del1 outcome by (auto simp: destructiveDeleteCounts_def split: if_splits prod.splits bool.splits)
  with del1 outcome have del: "CascadeDelete valid_uuid now (\<lambda>k. flt (k + 9)) be ?i (dr_erase_data req = ''true'') st = Some (Inr (ids, errs), st')"
    by simp
  have "status_of ?i (ss_rows st') \<in> {None, Some StatusRemoved}"
    using CascadeDelete_removed [OF del, of ?i] assms(2) by simp
  moreover have "find_ws ?i (ss_rows st') \<noteq> None"
    by (rule CascadeDelete_rows [OF del]) (use r assms(2) in \<open>simp add: row_effect\<close>)
  ultimately obtain r' where "find_ws ?i (ss_rows st') = Some r'" "w_status r' = StatusRemoved" by (auto simp: status_of_def)
  then show ?thesis using valid assms(3,4) by (simp add: Delete_def Let_def)
qed

definition open_gate :: gate_env where
  "open_gate = \<lparr>ge_hex = id, ge_broadcaster = False, ge_parent = (\<lambda>_. None), ge_MOLECULE_PLATFORM_APPROVAL_GATE = []\<rparr>"

definition delete_w :: delete_request where
  "delete_w = \<lparr>dr_id = ''w'', dr_confirm = [], dr_X_Confirm_Name = ''w'', dr_erase_data = [], dr_purge = []\<rparr>"

definition no_approvals :: approval_state where
  "no_approvals = \<lparr>as_rows = [], as_events = []\<rparr>"

lemma descendants_of_w: "descendants not_removed [''w''] [life_row_of ''w'' StatusOnline] = Some []"
  by (subst descendants.simps) (simp add: children_of_def life_row_of_def Let_def)

lemma delete_w_fails:
  "\<exists>st'. Delete (\<lambda>_. True) open_gate (\<lambda>_ _. None) 5 no_faults (\<lambda>_. False) ''x'' cp_backend empty_context delete_w
     (store_of [life_row_of ''w'' StatusOnline], no_approvals) = Some (DelStopFailed 1 1, st', no_approvals)"
  by (simp add: Delete_def delete_not_gated delete_w_def find_ws_def CascadeDelete_eq store_of_def descendants_of_w torn_down_def
      tear_down_def stopAndRemove_def stopWorkspaceForDelete_def cpStopWithRetryErr_def cpStopRetryAttempts_def numeral_3_eq_3
      cp_backend_def Let_def) (simp add: life_row_of_def)

theorem delete_retry_gone_witness:
  "\<exists>st'. Delete (\<lambda>_. True) open_gate (\<lambda>_ _. None) 5 no_faults (\<lambda>_. False) ''x'' cp_backend empty_context delete_w
       (store_of [life_row_of ''w'' StatusOnline], no_approvals) = Some (DelStopFailed 1 1, st', no_approvals) \<and>
     Delete (\<lambda>_. True) open_gate (\<lambda>_ _. None) 6 no_faults (\<lambda>_. False) ''y'' cp_backend empty_context delete_w (st', no_approvals) =
       Some (DelErr 410 ''workspace removed'', st', no_approvals)"
proof -
  obtain st' where st': "Delete (\<lambda>_. True) open_gate (\<lambda>_ _. None) 5 no_faults (\<lambda>_. False) ''x'' cp_backend empty_context delete_w
     (store_of [life_row_of ''w'' StatusOnline], no_approvals) = Some (DelStopFailed 1 1, st', no_approvals)"
    using delete_w_fails by blast
  have "Delete (\<lambda>_. True) open_gate (\<lambda>_ _. None) 6 no_faults (\<lambda>_. False) ''y'' cp_backend empty_context delete_w (st', no_approvals) =
       Some (DelErr 410 ''workspace removed'', st', no_approvals)"
    by (rule delete_retry_gone [OF st']) simp_all
  with st' show ?thesis by blast
qed

theorem delete_complete_witness:
  "\<exists>st'. CascadeDelete (\<lambda>_. True) 5 no_faults docker_backend ''w'' False (store_of [life_row_of ''w'' StatusOnline]) = Some (Inr ([], []), st') \<and>
     status_of ''w'' (ss_rows st') \<in> {None, Some StatusRemoved} \<and> DockerStop ''w'' \<in> set (ss_calls st')"
proof -
  obtain st' where st': "CascadeDelete (\<lambda>_. True) 5 no_faults docker_backend ''w'' False (store_of [life_row_of ''w'' StatusOnline]) = Some (Inr ([], []), st')"
    by (simp add: CascadeDelete_eq store_of_def descendants_of_w torn_down_def tear_down_def stopAndRemove_def
        stopWorkspaceForDelete_def docker_backend_def)
  have be: "HasProvisioner docker_backend" "\<not> be_cp docker_backend" by (simp_all add: HasProvisioner_def docker_backend_def)
  have mem: "\<not> no_faults 1" "''w'' \<in> set [''w'']" by simp_all
  note del = delete_complete [OF st' mem, where r = "life_row_of ''w'' StatusOnline" and sha = id and t = 0 and flt' = no_faults and tok = "[]"]
  have "status_of ''w'' (ss_rows st') \<in> {None, Some StatusRemoved}" by (rule conjunct1 [OF del])
  moreover from del [THEN conjunct2, THEN conjunct2, THEN conjunct2] be(1)
  have "\<exists>n ok. (\<forall>k. 0 < n k \<and> n k \<le> (3 :: nat)) \<and> length ([] :: string list) = length (filter (\<lambda>k. \<not> ok k) ([] @ [''w''])) \<and>
       ss_calls st' = ss_calls (store_of [life_row_of ''w'' StatusOnline]) @ concat (map (\<lambda>k.
         replicate (n k) (if be_cp docker_backend then if False then CPStopAndPrune k else CPStop k else DockerStop k) @
         (if be_docker docker_backend \<and> ok k then [DockerRemoveVolume k] else [])) ([] @ [''w'']))"
    by (simp only: if_True)
  then have "DockerStop ''w'' \<in> set (ss_calls st')" using be(2) by auto
  ultimately show ?thesis using st' by blast
qed

section \<open>Retries of the stop\<close>

text \<open>Three attempts at most, with waits of one and two seconds between them; without a cancellation the
  stop fails only when all three attempts fail, with the error of the last.\<close>

lemma cp_stop_retry:
  assumes "cp_stop_loop be i 1 cpStopRetryBaseDelay cpStopRetryAttempts = (e, n, w)"
  shows "n \<le> 3 \<and> w \<le> 3 * second \<and>
    (\<not> be_cancelled be 1 \<and> \<not> be_cancelled be 2 \<longrightarrow>
      e = (if be_cp_stop be 1 i = None \<or> be_cp_stop be 2 i = None then None else be_cp_stop be 3 i))"
  using assms
  by (auto simp: cpStopRetryAttempts_def cpStopRetryBaseDelay_def numeral_3_eq_3 numeral_2_eq_2 second_def split: option.splits if_splits)

end
