(* ===== verification/Scheduler.thy ===== *)
theory Scheduler
  imports A2A_Queue Workspace_Lifecycle Rate_Limiter
begin

text \<open>
  \<^verbatim>\<open>internal/scheduler/scheduler.go\<close>: the cron scheduler over \<^verbatim>\<open>workspace_schedules\<close>. A tick reads the due rows
  and fires each of them: through the A2A proxy when the workspace has capacity, into the A2A queue
  when it is busy. The zone database and the cron library are the record \<open>cron_lib\<close>; \<^verbatim>\<open>json.Unmarshal\<close> and
  \<^verbatim>\<open>json.Marshal\<close> of message bodies are functions, an object being given with its duplicate members
  resolved. The proxy is a function on the state, since its call takes time in which others write.
  The goroutines of a tick work on different rows and are taken one after the other.
\<close>

section \<open>Rows\<close>

definition pollInterval :: duration where "pollInterval = 30 * second"
definition batchLimit :: nat where "batchLimit = 50"
definition phantomSweepInterval :: duration where "phantomSweepInterval = 5 * minute"
definition phantomStaleThreshold :: duration where "phantomStaleThreshold = 10 * minute"
definition priorityTask :: int where "priorityTask = 50"

record schedule_row =
  sc_id :: uuid
  sc_workspace_id :: uuid
  sc_name :: string
  sc_cron_expr :: string
  sc_timezone :: string
  sc_prompt :: string
  sc_enabled :: bool
  sc_last_run_at :: "instant option"
  sc_next_run_at :: "instant option"
  sc_run_count :: int
  sc_last_status :: string
  sc_last_error :: string
  sc_source :: string
  sc_created_at :: instant
  sc_updated_at :: instant
  sc_consecutive_empty_runs :: int
  sc_consecutive_sdk_errors :: int

text \<open>What a tick scans of a row.\<close>

record scheduleRow =
  sr_ID :: uuid
  sr_WorkspaceID :: uuid
  sr_Name :: string
  sr_CronExpr :: string
  sr_Timezone :: string
  sr_Prompt :: string

definition scan_schedule :: "schedule_row \<Rightarrow> scheduleRow" where
  "scan_schedule r = \<lparr>sr_ID = sc_id r, sr_WorkspaceID = sc_workspace_id r, sr_Name = sc_name r,
     sr_CronExpr = sc_cron_expr r, sr_Timezone = sc_timezone r, sr_Prompt = sc_prompt r\<rparr>"

text \<open>The columns of \<^verbatim>\<open>activity_logs\<close> the scheduler writes and reads.\<close>

record cron_log =
  clg_workspace_id :: uuid
  clg_activity_type :: string
  clg_method :: string
  clg_summary :: string
  clg_request_body :: "json option"
  clg_status :: string
  clg_error_detail :: "string option"
  clg_created_at :: instant

datatype cron_event =
    EventCronExecuted uuid uuid string
  | EventCronSkipped uuid uuid string bool

record sched_state =
  sst_schedules :: "schedule_row list"
  sst_workspaces :: "life_row list"
  sst_queue :: a2a_queue
  sst_logs :: "cron_log list"
  sst_events :: "cron_event list"
  sst_posts :: "(uuid \<times> string) list"

section \<open>ComputeNextRun\<close>

text \<open>
  \<open>cl_zone\<close> says which names \<^verbatim>\<open>time.LoadLocation\<close> knows, \<open>cl_parse\<close> which expressions the five-field parser
  accepts, \<open>cl_next\<close> is \<^verbatim>\<open>Next\<close> of the parsed expression in the zone.
\<close>

record cron_lib =
  cl_zone :: "string \<Rightarrow> bool"
  cl_parse :: "string \<Rightarrow> bool"
  cl_next :: "string \<Rightarrow> string \<Rightarrow> instant \<Rightarrow> instant"

datatype cron_error = InvalidTimezone string | InvalidCron string

definition ComputeNextRun :: "cron_lib \<Rightarrow> string \<Rightarrow> string \<Rightarrow> instant \<Rightarrow> cron_error + instant" where
  "ComputeNextRun lib cronExpr tz after =
     (if \<not> cl_zone lib tz then Inl (InvalidTimezone tz)
      else if \<not> cl_parse lib cronExpr then Inl (InvalidCron cronExpr)
      else Inr (cl_next lib cronExpr tz after))"

text \<open>\<^verbatim>\<open>nextRunPtr\<close>: NULL when the computation fails.\<close>

definition next_run_ptr :: "cron_lib \<Rightarrow> scheduleRow \<Rightarrow> instant \<Rightarrow> instant option" where
  "next_run_ptr lib sched now =
     (case ComputeNextRun lib (sr_CronExpr sched) (sr_Timezone sched) now of Inl _ \<Rightarrow> None | Inr t \<Rightarrow> Some t)"

section \<open>Reading replies\<close>

text \<open>\<^verbatim>\<open>json.Unmarshal\<close> into a map and into a string: \<^verbatim>\<open>null\<close> leaves the zero value without an error.\<close>

fun json_members :: "json \<Rightarrow> (string \<times> json) list option" where
  "json_members (JObj kvs) = Some kvs"
| "json_members JNull = Some []"
| "json_members _ = None"

fun json_str :: "json \<Rightarrow> string option" where
  "json_str (JStr s) = Some s"
| "json_str JNull = Some []"
| "json_str _ = None"

text \<open>\<^verbatim>\<open>strings.Contains\<close>\<close>

fun str_contains :: "string \<Rightarrow> string \<Rightarrow> bool" where
  "str_contains m [] = (m = [])"
| "str_contains m (c # s) = (has_prefix m (c # s) \<or> str_contains m s)"

definition top_members :: "(string \<Rightarrow> json option) \<Rightarrow> string \<Rightarrow> (string \<times> json) list option" where
  "top_members parse body =
     (if body = [] then None else case parse body of None \<Rightarrow> None | Some j \<Rightarrow> json_members j)"

definition resultOKKinds :: "string list" where
  "resultOKKinds = [[], ''ok'', ''message'']"

definition taskOKStates :: "string list" where
  "taskOKStates = [[], ''submitted'', ''working'', ''completed'']"

definition classifyTaskState :: "(string \<times> json) list \<Rightarrow> string" where
  "classifyTaskState result =
     (case map_of result ''status'' of None \<Rightarrow> []
      | Some raw \<Rightarrow> (case json_members raw of None \<Rightarrow> []
         | Some status \<Rightarrow> (case map_of status ''state'' of None \<Rightarrow> []
            | Some st \<Rightarrow> (case json_str st of None \<Rightarrow> []
               | Some s \<Rightarrow> if List.member taskOKStates s then [] else s))))"

text \<open>One of the fields \<^verbatim>\<open>kind\<close> and \<^verbatim>\<open>result_kind\<close>; the empty string is no signal.\<close>

definition kind_signal :: "(string \<times> json) list \<Rightarrow> string \<Rightarrow> string" where
  "kind_signal result field =
     (case map_of result field of None \<Rightarrow> []
      | Some raw \<Rightarrow> (case json_str raw of None \<Rightarrow> []
         | Some k \<Rightarrow> if k = ''task'' then classifyTaskState result
                    else if List.member resultOKKinds k then [] else k))"

definition result_signal :: "(string \<times> json) list \<Rightarrow> string" where
  "result_signal obj =
     (case map_of obj ''result'' of None \<Rightarrow> []
      | Some raw \<Rightarrow> (case json_members raw of None \<Rightarrow> []
         | Some result \<Rightarrow> if kind_signal result ''kind'' \<noteq> [] then kind_signal result ''kind''
                         else kind_signal result ''result_kind''))"

definition error_signal :: "(string \<times> json) list \<Rightarrow> string" where
  "error_signal obj =
     (case map_of obj ''error'' of None \<Rightarrow> []
      | Some raw \<Rightarrow> (case json_str raw of None \<Rightarrow> []
         | Some errMsg \<Rightarrow>
             if errMsg = [] then []
             else let lower = map lower_ascii errMsg; has = (\<lambda>m. str_contains m lower) in
               if has ''max-plan'' \<or> has ''quota'' \<or> has ''budget'' then ''quota_exhausted''
               else if has ''rate limit'' \<or> has ''rate_limit'' then ''rate_limited''
               else if has ''claude code returned an error'' \<or> has ''sdk error'' \<or> has ''api key'' \<or>
                       has ''authentication'' then ''sdk_error''
               else []))"

definition detectResultKind :: "(string \<Rightarrow> json option) \<Rightarrow> string \<Rightarrow> string" where
  "detectResultKind parse body =
     (case top_members parse body of None \<Rightarrow> []
      | Some obj \<Rightarrow> if result_signal obj \<noteq> [] then result_signal obj else error_signal obj)"

definition a2aErrorFromBody :: "(string \<Rightarrow> json option) \<Rightarrow> string \<Rightarrow> string" where
  "a2aErrorFromBody parse body =
     (case top_members parse body of None \<Rightarrow> []
      | Some resp \<Rightarrow>
          (case map_of resp ''error'' of
             Some (JObj errObj) \<Rightarrow> (case map_of errObj ''message'' of Some (JStr msg) \<Rightarrow> msg | _ \<Rightarrow> [])
           | Some (JStr errStr) \<Rightarrow> errStr
           | _ \<Rightarrow> []))"

definition empty_markers :: "string list" where
  "empty_markers =
     [''(no response generated)'', [CHR 0x22] @ ''text'' @ [CHR 0x22] @ '': '' @ [CHR 0x22] @ ''(no response generated)'' @ [CHR 0x22],
      [CHR 0x22] @ ''text'' @ [CHR 0x22] @ '':'' @ [CHR 0x22, CHR 0x22],
      [CHR 0x22] @ ''text'' @ [CHR 0x22] @ '': '' @ [CHR 0x22, CHR 0x22]]"

definition isEmptyResponse :: "string \<Rightarrow> bool" where
  "isEmptyResponse body = (body = [] \<or> list_ex (\<lambda>m. str_contains m body) empty_markers)"

fun first_text :: "json list \<Rightarrow> string" where
  "first_text [] = []"
| "first_text (p # ps) =
     (case p of
        JObj part \<Rightarrow> (case map_of part ''text'' of Some (JStr t) \<Rightarrow> if t \<noteq> [] then t else first_text ps | _ \<Rightarrow> first_text ps)
      | _ \<Rightarrow> first_text ps)"

definition extractResponseSummary :: "(string \<Rightarrow> json option) \<Rightarrow> string \<Rightarrow> string" where
  "extractResponseSummary parse body =
     (case top_members parse body of None \<Rightarrow> []
      | Some resp \<Rightarrow>
          (case map_of resp ''result'' of
             Some (JObj result) \<Rightarrow> (case map_of result ''parts'' of Some (JArr parts) \<Rightarrow> first_text parts | _ \<Rightarrow> [])
           | _ \<Rightarrow> []))"

text \<open>\<^verbatim>\<open>strings.ToValidUTF8\<close>: a run of ill-formed bytes becomes one replacement character.\<close>

function to_valid_utf8 :: "bool \<Rightarrow> string \<Rightarrow> string" where
  "to_valid_utf8 bad s =
     (if s = [] then []
      else case rune_len s of
             None \<Rightarrow> (if bad then [] else [CHR 0xEF, CHR 0xBF, CHR 0xBD]) @ to_valid_utf8 True (tl s)
           | Some w \<Rightarrow> take w s @ to_valid_utf8 False (drop w s))"
  by pat_completeness auto
termination
  by (relation "measure (\<lambda>(b, s). length s)") (auto dest: rune_len_bounds)

declare to_valid_utf8.simps [simp del]

definition sanitizeUTF8 :: "string \<Rightarrow> string" where
  "sanitizeUTF8 s = (if valid_utf8 s then s else to_valid_utf8 False s)"

definition short :: "string \<Rightarrow> nat \<Rightarrow> string" where
  "short s n = (if length s \<le> n then s else take n s)"

section \<open>Statements\<close>

definition advance_next :: "instant \<Rightarrow> instant \<Rightarrow> uuid \<Rightarrow> schedule_row list \<Rightarrow> schedule_row list" where
  "advance_next now nextTime i rows =
     update_where (\<lambda>r. sc_id r = i) (\<lambda>r. r\<lparr>sc_next_run_at := Some nextTime, sc_updated_at := now\<rparr>) rows"

definition bump_empty :: "instant \<Rightarrow> uuid \<Rightarrow> schedule_row list \<Rightarrow> schedule_row list" where
  "bump_empty now i rows =
     update_where (\<lambda>r. sc_id r = i)
       (\<lambda>r. r\<lparr>sc_consecutive_empty_runs := sc_consecutive_empty_runs r + 1, sc_updated_at := now\<rparr>) rows"

definition reset_empty :: "instant \<Rightarrow> uuid \<Rightarrow> schedule_row list \<Rightarrow> schedule_row list" where
  "reset_empty now i rows =
     update_where (\<lambda>r. sc_id r = i) (\<lambda>r. r\<lparr>sc_consecutive_empty_runs := 0, sc_updated_at := now\<rparr>) rows"

definition bump_sdk :: "instant \<Rightarrow> uuid \<Rightarrow> schedule_row list \<Rightarrow> schedule_row list" where
  "bump_sdk now i rows =
     update_where (\<lambda>r. sc_id r = i)
       (\<lambda>r. r\<lparr>sc_consecutive_sdk_errors := sc_consecutive_sdk_errors r + 1, sc_updated_at := now\<rparr>) rows"

definition reset_sdk :: "instant \<Rightarrow> uuid \<Rightarrow> schedule_row list \<Rightarrow> schedule_row list" where
  "reset_sdk now i rows =
     update_where (\<lambda>r. sc_id r = i) (\<lambda>r. r\<lparr>sc_consecutive_sdk_errors := 0, sc_updated_at := now\<rparr>) rows"

definition auto_disable :: "instant \<Rightarrow> uuid \<Rightarrow> schedule_row list \<Rightarrow> schedule_row list" where
  "auto_disable now i rows =
     update_where (\<lambda>r. sc_id r = i \<and> sc_enabled r) (\<lambda>r. r\<lparr>sc_enabled := False, sc_updated_at := now\<rparr>) rows"

text \<open>The UPDATE that closes a run, the same in the three places that have it.\<close>

definition finish_run ::
  "instant \<Rightarrow> uuid \<Rightarrow> instant option \<Rightarrow> string \<Rightarrow> string \<Rightarrow> schedule_row list \<Rightarrow> schedule_row list" where
  "finish_run now i nextRun lastStatus lastError rows =
     update_where (\<lambda>r. sc_id r = i)
       (\<lambda>r. r\<lparr>sc_last_run_at := Some now, sc_next_run_at := coalesce nextRun (sc_next_run_at r),
              sc_run_count := sc_run_count r + 1, sc_last_status := lastStatus, sc_last_error := lastError,
              sc_updated_at := now\<rparr>) rows"

definition find_schedule :: "uuid \<Rightarrow> schedule_row list \<Rightarrow> schedule_row option" where
  "find_schedule i rows = select_first (\<lambda>r. sc_id r = i) rows"

section \<open>fireSchedule\<close>

datatype proxy_outcome = ProxyPanic | ProxyErr string | ProxyReply int string

text \<open>The wiring of a scheduler; absent channels and an absent native check are \<^term>\<open>None\<close>.\<close>

record sched_env =
  se_cron :: cron_lib
  se_parse :: "string \<Rightarrow> json option"
  se_marshal :: "json \<Rightarrow> string"
  se_channels :: "(uuid \<Rightarrow> string) option"
  se_native :: "(uuid \<Rightarrow> bool) option"
  se_broadcaster :: bool

text \<open>
  One call: the time before the proxy is called and after it returned, the random parts, the faults
  of its statements and of those of the enqueue, and the proxy with what else happens meanwhile.
\<close>

record fire_env =
  fe_start :: instant
  fe_end :: instant
  fe_uuid :: uuid
  fe_queue_id :: uuid
  fe_flt :: faults
  fe_enqueue_flt :: faults
  fe_proxy :: "uuid \<Rightarrow> string \<Rightarrow> sched_state \<Rightarrow> sched_state \<times> proxy_outcome"

definition cron_prompt :: "sched_env \<Rightarrow> scheduleRow \<Rightarrow> string" where
  "cron_prompt E sched =
     (case se_channels E of
        None \<Rightarrow> sr_Prompt sched
      | Some fetch \<Rightarrow> let channelCtx = fetch (sr_WorkspaceID sched) in
          if channelCtx \<noteq> [] then channelCtx @ [CHR 0x0A] @ sr_Prompt sched else sr_Prompt sched)"

definition a2a_body :: "sched_env \<Rightarrow> fire_env \<Rightarrow> scheduleRow \<Rightarrow> string" where
  "a2a_body E fe sched =
     (let msgID = ''cron-'' @ short (sr_ID sched) 8 @ ''-'' @ take 8 (fe_uuid fe) in
      se_marshal E (JObj [(''method'', JStr ''message/send''),
        (''params'', JObj [(''message'', JObj [(''role'', JStr ''user''), (''messageId'', JStr msgID),
           (''parts'', JArr [JObj [(''kind'', JStr ''text''), (''text'', JStr (cron_prompt E sched))]])])])]))"

text \<open>The capacity check; a failed read, or no row, is \<^term>\<open>None\<close>.\<close>

definition capacity :: "bool \<Rightarrow> uuid \<Rightarrow> life_row list \<Rightarrow> (int \<times> int) option" where
  "capacity fault ws rows =
     (if fault then None
      else map_option (\<lambda>r. (w_active_tasks r, case w_max_concurrent_tasks r of None \<Rightarrow> 1 | Some m \<Rightarrow> m)) (find_ws ws rows))"

definition cron_run_log ::
  "instant \<Rightarrow> scheduleRow \<Rightarrow> string \<Rightarrow> (string \<times> json) list \<Rightarrow> string \<Rightarrow> string \<Rightarrow> cron_log" where
  "cron_run_log now sched summary meta lastStatus detail =
     \<lparr>clg_workspace_id = sr_WorkspaceID sched, clg_activity_type = ''cron_run'', clg_method = ''cron'',
      clg_summary = sanitizeUTF8 (summary @ sr_Name sched),
      clg_request_body = Some (JObj ([(''schedule_id'', JStr (sr_ID sched)), (''schedule_name'', JStr (sr_Name sched)),
         (''cron_expr'', JStr (sr_CronExpr sched))] @ meta)),
      clg_status = lastStatus, clg_error_detail = Some (sanitizeUTF8 detail), clg_created_at = now\<rparr>"

definition recordSkipped :: "sched_env \<Rightarrow> instant \<Rightarrow> faults \<Rightarrow> scheduleRow \<Rightarrow> int \<Rightarrow> sched_state \<Rightarrow> sched_state" where
  "recordSkipped E now flt sched activeTasks st =
     (let reason = ''skipped: workspace busy (active_tasks='' @ show_int activeTasks @ '')'';
          nextRun = next_run_ptr (se_cron E) sched now;
          st1 = (if flt 5 then st
                 else st\<lparr>sst_schedules := finish_run now (sr_ID sched) nextRun ''skipped'' (sanitizeUTF8 reason) (sst_schedules st)\<rparr>);
          entry = cron_run_log now sched ''Cron skipped: '' [(''skipped'', JBool True), (''active_tasks'', JNum activeTasks)]
                    ''skipped'' reason;
          st2 = (if flt 6 then st1 else st1\<lparr>sst_logs := sst_logs st1 @ [entry]\<rparr>)
      in if se_broadcaster E
         then st2\<lparr>sst_events := sst_events st2 @ [EventCronSkipped (sr_WorkspaceID sched) (sr_ID sched) reason False]\<rparr>
         else st2)"

definition recordQueued ::
  "sched_env \<Rightarrow> instant \<Rightarrow> faults \<Rightarrow> scheduleRow \<Rightarrow> int \<Rightarrow> uuid \<Rightarrow> nat \<Rightarrow> sched_state \<Rightarrow> sched_state" where
  "recordQueued E now flt sched activeTasks queueID depth st =
     (let reason = ''queued: workspace busy (active_tasks='' @ show_int activeTasks @ ''), buffered (id='' @
                     short queueID 8 @ '', depth='' @ show_nat depth @ '')'';
          nextRun = next_run_ptr (se_cron E) sched now;
          st1 = (if flt 5 then st
                 else st\<lparr>sst_schedules := finish_run now (sr_ID sched) nextRun ''queued'' (sanitizeUTF8 reason) (sst_schedules st)\<rparr>);
          entry = cron_run_log now sched ''Cron queued (busy): '' [(''queued'', JBool True), (''active_tasks'', JNum activeTasks),
                    (''queue_id'', JStr queueID), (''queue_depth'', JNum (int depth))] ''queued'' reason;
          st2 = (if flt 6 then st1 else st1\<lparr>sst_logs := sst_logs st1 @ [entry]\<rparr>)
      in if se_broadcaster E
         then st2\<lparr>sst_events := sst_events st2 @ [EventCronSkipped (sr_WorkspaceID sched) (sr_ID sched) reason True]\<rparr>
         else st2)"

text \<open>The busy branch: buffer the tick under the key of the schedule, or record a skip.\<close>

definition fire_busy :: "sched_env \<Rightarrow> fire_env \<Rightarrow> scheduleRow \<Rightarrow> int \<Rightarrow> sched_state \<Rightarrow> sched_state" where
  "fire_busy E fe sched activeTasks st =
     (let expiresAt = next_run_ptr (se_cron E) sched (fe_start fe) in
      case EnqueueA2A (fe_enqueue_flt fe) (fe_start fe) (fe_queue_id fe) (sst_queue st) (sr_WorkspaceID sched) [] priorityTask
             (a2a_body E fe sched) ''message/send'' (sr_ID sched) expiresAt of
        (q, Inl _) \<Rightarrow> recordSkipped E (fe_end fe) (fe_flt fe) sched activeTasks (st\<lparr>sst_queue := q\<rparr>)
      | (q, Inr (qID, depth)) \<Rightarrow> recordQueued E (fe_end fe) (fe_flt fe) sched activeTasks qID depth (st\<lparr>sst_queue := q\<rparr>))"

text \<open>\<^verbatim>\<open>lastStatus\<close>, \<^verbatim>\<open>lastError\<close> and \<^verbatim>\<open>resultKind\<close> of a reply.\<close>

definition is_sdk_error :: "string \<Rightarrow> bool" where
  "is_sdk_error resultKind \<longleftrightarrow> resultKind \<noteq> [] \<and> resultKind \<noteq> ''ok''"

definition classify_reply :: "(string \<Rightarrow> json option) \<Rightarrow> int \<Rightarrow> string \<Rightarrow> string \<times> string \<times> string" where
  "classify_reply parse statusCode respBody =
     (if statusCode < 200 \<or> 300 \<le> statusCode then (''error'', ''HTTP '' @ show_int statusCode, [])
      else if a2aErrorFromBody parse respBody \<noteq> []
        then (''error'', ''A2A adapter error: '' @ a2aErrorFromBody parse respBody, [])
      else let resultKind = detectResultKind parse respBody in
        if is_sdk_error resultKind then (resultKind, ''SDK error: result_kind='' @ resultKind, resultKind)
        else (''ok'', [], resultKind))"

text \<open>The counter of empty answers; it escalates the status to stale.\<close>

definition track_empty ::
  "bool \<Rightarrow> instant \<Rightarrow> uuid \<Rightarrow> bool \<Rightarrow> string \<Rightarrow> string \<Rightarrow> schedule_row list \<Rightarrow> schedule_row list \<times> string \<times> string" where
  "track_empty fault now i isEmpty lastStatus lastError rows =
     (if lastStatus = ''ok'' \<and> isEmpty then
        let rows1 = (if fault then rows else bump_empty now i rows);
            consecEmpty = (if fault then 0 else case find_schedule i rows1 of None \<Rightarrow> 0 | Some r \<Rightarrow> sc_consecutive_empty_runs r)
        in if 3 \<le> consecEmpty
           then (rows1, ''stale'', ''empty response '' @ show_int consecEmpty @ '' consecutive times '' @
                    [CHR 0xE2, CHR 0x80, CHR 0x94] @ '' agent may be phantom-producing (#795)'')
           else (rows1, lastStatus, lastError)
      else if lastStatus = ''ok'' then (if fault then rows else reset_empty now i rows, lastStatus, lastError)
      else (rows, lastStatus, lastError))"

text \<open>The counter of SDK errors; at three the schedule is disabled.\<close>

definition track_sdk :: "faults \<Rightarrow> instant \<Rightarrow> uuid \<Rightarrow> string \<Rightarrow> string \<Rightarrow> schedule_row list \<Rightarrow> schedule_row list" where
  "track_sdk flt now i resultKind lastStatus rows =
     (if is_sdk_error resultKind then
        let rows1 = (if flt 3 then rows else bump_sdk now i rows);
            consecSDK = (if flt 3 then 0 else case find_schedule i rows1 of None \<Rightarrow> 0 | Some r \<Rightarrow> sc_consecutive_sdk_errors r)
        in if 3 \<le> consecSDK \<and> \<not> flt 4 then auto_disable now i rows1 else rows1
      else if lastStatus = ''ok'' \<and> \<not> flt 3 then reset_sdk now i rows else rows)"

text \<open>What follows a proxy call that returned, with the reply already classified.\<close>

definition after_fire ::
  "sched_env \<Rightarrow> fire_env \<Rightarrow> scheduleRow \<Rightarrow> string \<Rightarrow> string \<times> string \<times> string \<Rightarrow> sched_state \<Rightarrow> sched_state" where
  "after_fire E fe sched respBody reply st =
     (case reply of (status0, error0, resultKind) \<Rightarrow>
      let now = fe_end fe; flt = fe_flt fe; i = sr_ID sched; isEmpty = isEmptyResponse respBody in
      case track_empty (flt 2) now i isEmpty status0 error0 (sst_schedules st) of (rows1, lastStatus, lastError) \<Rightarrow>
      let rows2 = track_sdk flt now i resultKind lastStatus rows1;
          nextRun = next_run_ptr (se_cron E) sched now;
          rows3 = (if flt 5 then rows2 else finish_run now i nextRun lastStatus lastError rows2);
          entry = cron_run_log now sched ''Cron: '' [(''prompt'', JStr (sanitizeUTF8 (TruncateBytes (sr_Prompt sched) 200)))]
                    lastStatus lastError;
          summary = extractResponseSummary (se_parse E) respBody
      in st\<lparr>sst_schedules := rows3,
            sst_logs := (if flt 6 then sst_logs st else sst_logs st @ [entry]),
            sst_events := (if se_broadcaster E
                          then sst_events st @ [EventCronExecuted (sr_WorkspaceID sched) i lastStatus] else sst_events st),
            sst_posts := (if se_channels E \<noteq> None \<and> lastStatus = ''ok'' \<and> \<not> isEmpty \<and> summary \<noteq> []
                         then sst_posts st @ [(sr_WorkspaceID sched, summary)] else sst_posts st)\<rparr>)"

text \<open>The deferred recovery: whatever happened, try to move the next run on.\<close>

definition recover_advance :: "sched_env \<Rightarrow> instant \<Rightarrow> bool \<Rightarrow> scheduleRow \<Rightarrow> sched_state \<Rightarrow> sched_state" where
  "recover_advance E now fault sched st =
     (case ComputeNextRun (se_cron E) (sr_CronExpr sched) (sr_Timezone sched) now of
        Inl _ \<Rightarrow> st
      | Inr nextTime \<Rightarrow>
          if fault then st else st\<lparr>sst_schedules := advance_next now nextTime (sr_ID sched) (sst_schedules st)\<rparr>)"

definition fireSchedule :: "sched_env \<Rightarrow> fire_env \<Rightarrow> scheduleRow \<Rightarrow> sched_state \<Rightarrow> sched_state" where
  "fireSchedule E fe sched st =
     (let fire =
        (case fe_proxy fe (sr_WorkspaceID sched) (a2a_body E fe sched) st of
           (st1, ProxyPanic) \<Rightarrow> recover_advance E (fe_end fe) (fe_flt fe 7) sched st1
         | (st1, ProxyErr msg) \<Rightarrow> after_fire E fe sched [] (''error'', msg, []) st1
         | (st1, ProxyReply statusCode respBody) \<Rightarrow>
             after_fire E fe sched respBody (classify_reply (se_parse E) statusCode respBody) st1)
      in case capacity (fe_flt fe 0) (sr_WorkspaceID sched) (sst_workspaces st) of
           Some (activeTasks, maxConcurrent) \<Rightarrow>
             if maxConcurrent \<le> activeTasks then fire_busy E fe sched activeTasks st else fire
         | None \<Rightarrow> fire)"

section \<open>tick\<close>

definition due :: "instant \<Rightarrow> schedule_row \<Rightarrow> bool" where
  "due now r \<longleftrightarrow> sc_enabled r \<and> (case sc_next_run_at r of None \<Rightarrow> False | Some t \<Rightarrow> t \<le> now)"

definition next_key :: "schedule_row \<Rightarrow> instant" where
  "next_key r = (case sc_next_run_at r of None \<Rightarrow> 0 | Some t \<Rightarrow> t)"

definition due_batch :: "instant \<Rightarrow> schedule_row list \<Rightarrow> schedule_row list" where
  "due_batch now rows = take batchLimit (sort_key next_key (filter (due now) rows))"

text \<open>
  A workspace whose adapter schedules natively is not fired, only its next run moves on. The goroutines of a tick are
  taken one after the other. A row whose \<^verbatim>\<open>Scan\<close> fails is skipped by the code and is due again at the next tick; the
  columns read are never of another type, so no such row is modelled.
\<close>

definition tick_one :: "sched_env \<Rightarrow> (uuid \<Rightarrow> fire_env) \<Rightarrow> scheduleRow \<Rightarrow> sched_state \<Rightarrow> sched_state" where
  "tick_one E fes sched st =
     (let fe = fes (sr_ID sched) in
      if (case se_native E of None \<Rightarrow> False | Some native \<Rightarrow> native (sr_WorkspaceID sched))
      then recover_advance E (fe_start fe) (fe_flt fe 7) sched st
      else fireSchedule E fe sched st)"

definition tick :: "sched_env \<Rightarrow> (uuid \<Rightarrow> fire_env) \<Rightarrow> instant \<Rightarrow> bool \<Rightarrow> sched_state \<Rightarrow> sched_state" where
  "tick E fes now queryFault st =
     (if queryFault then st
      else fold (tick_one E fes) (map scan_schedule (due_batch now (sst_schedules st))) st)"

section \<open>Repair and the phantom-busy sweep\<close>

definition repair_one :: "cron_lib \<Rightarrow> instant \<Rightarrow> (uuid \<Rightarrow> bool) \<Rightarrow> schedule_row \<Rightarrow> schedule_row list \<Rightarrow> schedule_row list" where
  "repair_one lib now flt r rows =
     (case ComputeNextRun lib (sc_cron_expr r) (sc_timezone r) now of
        Inl _ \<Rightarrow> rows
      | Inr nextRun \<Rightarrow> if flt (sc_id r) then rows else advance_next now nextRun (sc_id r) rows)"

definition repairNullNextRunAt ::
  "cron_lib \<Rightarrow> instant \<Rightarrow> bool \<Rightarrow> (uuid \<Rightarrow> bool) \<Rightarrow> schedule_row list \<Rightarrow> schedule_row list" where
  "repairNullNextRunAt lib now queryFault flt rows =
     (if queryFault then rows
      else fold (repair_one lib now flt) (filter (\<lambda>r. sc_enabled r \<and> sc_next_run_at r = None) rows) rows)"

definition recently_active :: "instant \<Rightarrow> cron_log list \<Rightarrow> uuid \<Rightarrow> bool" where
  "recently_active now logs ws = list_ex (\<lambda>l. clg_workspace_id l = ws \<and> now - phantomStaleThreshold < clg_created_at l) logs"

definition phantom_busy :: "instant \<Rightarrow> cron_log list \<Rightarrow> life_row \<Rightarrow> bool" where
  "phantom_busy now logs r \<longleftrightarrow> 0 < w_active_tasks r \<and> w_status r \<noteq> StatusRemoved \<and> \<not> recently_active now logs (w_id r)"

definition sweepPhantomBusy :: "bool \<Rightarrow> instant \<Rightarrow> sched_state \<Rightarrow> sched_state" where
  "sweepPhantomBusy fault now st =
     (if fault then st
      else st\<lparr>sst_workspaces := update_where (phantom_busy now (sst_logs st))
             (\<lambda>r. r\<lparr>w_active_tasks := 0, w_current_task := Some [], w_updated_at := now\<rparr>) (sst_workspaces st)\<rparr>)"

section \<open>The loop\<close>

text \<open>The two stamps of a scheduler; \<^term>\<open>None\<close> is the zero time.\<close>

record scheduler_stamps =
  sd_lastTickAt :: "instant option"
  sd_lastSweepAt :: "instant option"

definition Healthy :: "instant \<Rightarrow> scheduler_stamps \<Rightarrow> bool" where
  "Healthy now s = (case sd_lastTickAt s of None \<Rightarrow> False | Some t \<Rightarrow> now - t < 2 * pollInterval)"

definition maybeSweepPhantomBusy :: "bool \<Rightarrow> instant \<Rightarrow> scheduler_stamps \<times> sched_state \<Rightarrow> scheduler_stamps \<times> sched_state" where
  "maybeSweepPhantomBusy fault now sst =
     (case sst of (s, st) \<Rightarrow>
        if (case sd_lastSweepAt s of None \<Rightarrow> False | Some t \<Rightarrow> now - t < phantomSweepInterval) then (s, st)
        else (s\<lparr>sd_lastSweepAt := Some now\<rparr>, sweepPhantomBusy fault now st))"

text \<open>
  One turn of \<^verbatim>\<open>Start\<close>: the tick with its recovery, the stamp, which is set whether or not the query of the
  tick succeeded, and the sweep.
\<close>

definition scheduler_turn ::
  "sched_env \<Rightarrow> (uuid \<Rightarrow> fire_env) \<Rightarrow> instant \<Rightarrow> instant \<Rightarrow> faults \<Rightarrow> scheduler_stamps \<times> sched_state \<Rightarrow> scheduler_stamps \<times> sched_state" where
  "scheduler_turn E fes now finished flt sst =
     maybeSweepPhantomBusy (flt 1) finished
       ((fst sst)\<lparr>sd_lastTickAt := Some finished\<rparr>, tick E fes now (flt 0) (snd sst))"

end
