(* ===== verification/Schedule_Routes.thy ===== *)
theory Schedule_Routes
  imports Scheduler
begin

text \<open>
  The routes over \<^verbatim>\<open>workspace_schedules\<close>: \<^verbatim>\<open>internal/handlers/schedules.go\<close>, the operator view and the orphan
  cleaner of \<^verbatim>\<open>admin_schedules_health.go\<close>, and the two statements with which \<^verbatim>\<open>org_import.go\<close> moves and refreshes
  schedules. The table has the primary key on the identifier and the unique index on workspace and name; a
  statement whose result would violate one fails as a whole. The column \<^verbatim>\<open>workspaces.role\<close> is a function. The
  status view for peers, which shares its authentication with the A2A proxy, is left out.
\<close>

section \<open>Statements\<close>

definition schedule_keys :: "schedule_row list \<Rightarrow> (uuid \<times> string) list" where
  "schedule_keys rows = map (\<lambda>r. (sc_workspace_id r, sc_name r)) rows"

definition indexes_ok :: "schedule_row list \<Rightarrow> bool" where
  "indexes_ok rows \<longleftrightarrow> distinct (map sc_id rows) \<and> distinct (schedule_keys rows)"

text \<open>A statement that writes: \<^term>\<open>None\<close> when it fails or an index refuses its result.\<close>

definition exec_schedules :: "bool \<Rightarrow> schedule_row list \<Rightarrow> schedule_row list option" where
  "exec_schedules fault rows = (if fault \<or> \<not> indexes_ok rows then None else Some rows)"

definition new_schedule ::
  "instant \<Rightarrow> uuid \<Rightarrow> uuid \<Rightarrow> string \<Rightarrow> string \<Rightarrow> string \<Rightarrow> string \<Rightarrow> bool \<Rightarrow> instant \<Rightarrow> string \<Rightarrow> schedule_row" where
  "new_schedule now i ws name expr tz prompt enabled nextRun source =
     \<lparr>sc_id = i, sc_workspace_id = ws, sc_name = name, sc_cron_expr = expr, sc_timezone = tz, sc_prompt = prompt,
      sc_enabled = enabled, sc_last_run_at = None, sc_next_run_at = Some nextRun, sc_run_count = 0, sc_last_status = [],
      sc_last_error = [], sc_source = source, sc_created_at = now, sc_updated_at = now, sc_consecutive_empty_runs = 0,
      sc_consecutive_sdk_errors = 0\<rparr>"

definition of_schedule :: "uuid \<Rightarrow> uuid \<Rightarrow> schedule_row \<Rightarrow> bool" where
  "of_schedule i ws r \<longleftrightarrow> sc_id r = i \<and> sc_workspace_id r = ws"

section \<open>The routes of a workspace\<close>

datatype schedule_reply =
    Schedules "schedule_row list"
  | ScheduleCreated uuid instant
  | ScheduleUpdated
  | ScheduleDeleted
  | ScheduleFired uuid string
  | ScheduleHistory "cron_log list"
  | ScheduleError int string

definition Schedules_List :: "bool \<Rightarrow> uuid \<Rightarrow> schedule_row list \<Rightarrow> schedule_reply" where
  "Schedules_List fault ws rows =
     (if fault then ScheduleError 500 ''failed to query schedules''
      else Schedules (sort_key sc_created_at (filter (\<lambda>r. sc_workspace_id r = ws) rows)))"

record CreateScheduleRequest =
  cs_Name :: string
  cs_CronExpr :: string
  cs_Timezone :: string
  cs_Prompt :: string
  cs_Enabled :: "bool option"

definition strip_cr :: "string \<Rightarrow> string" where
  "strip_cr s = filter (\<lambda>c. c \<noteq> CHR 0x0D) s"

text \<open>\<open>body\<close> is what the JSON decoder made of the request; the binding asks for an expression and a prompt.\<close>

definition Schedules_Create ::
  "cron_lib \<Rightarrow> instant \<Rightarrow> uuid \<Rightarrow> bool \<Rightarrow> uuid \<Rightarrow> CreateScheduleRequest option \<Rightarrow> life_row list \<Rightarrow> schedule_row list \<Rightarrow>
   schedule_reply \<times> schedule_row list" where
  "Schedules_Create lib now newid fault ws body workspaces rows =
     (case body of
        None \<Rightarrow> (ScheduleError 400 ''cron_expr and prompt are required'', rows)
      | Some b \<Rightarrow>
          if cs_CronExpr b = [] \<or> cs_Prompt b = [] then (ScheduleError 400 ''cron_expr and prompt are required'', rows)
          else let prompt = strip_cr (cs_Prompt b); tz = (if cs_Timezone b = [] then ''UTC'' else cs_Timezone b) in
            if \<not> cl_zone lib tz then (ScheduleError 400 (''invalid timezone: '' @ tz), rows)
            else case ComputeNextRun lib (cs_CronExpr b) tz now of
                   Inl _ \<Rightarrow> (ScheduleError 400 ''invalid request body'', rows)
                 | Inr nextRun \<Rightarrow>
                     let enabled = (case cs_Enabled b of None \<Rightarrow> True | Some e \<Rightarrow> e);
                         row = new_schedule now newid ws (cs_Name b) (cs_CronExpr b) tz prompt enabled nextRun ''runtime''
                     in case exec_schedules (fault \<or> find_ws ws workspaces = None) (rows @ [row]) of
                          None \<Rightarrow> (ScheduleError 500 ''failed to create schedule'', rows)
                        | Some rows' \<Rightarrow> (ScheduleCreated newid nextRun, rows'))"

record UpdateScheduleRequest =
  us_Name :: "string option"
  us_CronExpr :: "string option"
  us_Timezone :: "string option"
  us_Prompt :: "string option"
  us_Enabled :: "bool option"

text \<open>\<^verbatim>\<open>COALESCE($n, column)\<close> of a column that is not null.\<close>

definition or_keep :: "'a option \<Rightarrow> 'a \<Rightarrow> 'a" where
  "or_keep new old = (case new of None \<Rightarrow> old | Some x \<Rightarrow> x)"

text \<open>The new next run: none needed, or the error the route answers.\<close>

definition update_next_run ::
  "cron_lib \<Rightarrow> instant \<Rightarrow> bool \<Rightarrow> uuid \<Rightarrow> uuid \<Rightarrow> UpdateScheduleRequest \<Rightarrow> schedule_row list \<Rightarrow> schedule_reply + instant option" where
  "update_next_run lib now fault i ws b rows =
     (if us_CronExpr b = None \<and> us_Timezone b = None then Inr None
      else case (if fault then None else select_first (of_schedule i ws) rows) of
             None \<Rightarrow> Inl (ScheduleError 404 ''schedule not found'')
           | Some r \<Rightarrow>
               let cronExpr = or_keep (us_CronExpr b) (sc_cron_expr r); tz = or_keep (us_Timezone b) (sc_timezone r) in
               if \<not> cl_zone lib tz then Inl (ScheduleError 400 (''invalid timezone: '' @ tz))
               else case ComputeNextRun lib cronExpr tz now of
                      Inl _ \<Rightarrow> Inl (ScheduleError 400 ''invalid request body'')
                    | Inr nextRun \<Rightarrow> Inr (Some nextRun))"

definition update_schedule ::
  "instant \<Rightarrow> uuid \<Rightarrow> uuid \<Rightarrow> UpdateScheduleRequest \<Rightarrow> instant option \<Rightarrow> schedule_row list \<Rightarrow> schedule_row list" where
  "update_schedule now i ws b nextRunAt rows =
     update_where (of_schedule i ws)
       (\<lambda>r. r\<lparr>sc_name := or_keep (us_Name b) (sc_name r), sc_cron_expr := or_keep (us_CronExpr b) (sc_cron_expr r),
              sc_timezone := or_keep (us_Timezone b) (sc_timezone r),
              sc_prompt := or_keep (map_option strip_cr (us_Prompt b)) (sc_prompt r),
              sc_enabled := or_keep (us_Enabled b) (sc_enabled r),
              sc_next_run_at := coalesce nextRunAt (sc_next_run_at r), sc_updated_at := now\<rparr>) rows"

definition Schedules_Update ::
  "cron_lib \<Rightarrow> instant \<Rightarrow> faults \<Rightarrow> uuid \<Rightarrow> uuid \<Rightarrow> UpdateScheduleRequest option \<Rightarrow> schedule_row list \<Rightarrow> schedule_reply \<times> schedule_row list" where
  "Schedules_Update lib now flt i ws body rows =
     (case body of
        None \<Rightarrow> (ScheduleError 400 ''invalid JSON'', rows)
      | Some b \<Rightarrow>
          (case update_next_run lib now (flt 0) i ws b rows of
             Inl e \<Rightarrow> (e, rows)
           | Inr nextRunAt \<Rightarrow>
               (case exec_schedules (flt 1) (update_schedule now i ws b nextRunAt rows) of
                  None \<Rightarrow> (ScheduleError 500 ''failed to update schedule'', rows)
                | Some rows' \<Rightarrow>
                    if flt 2 then (ScheduleError 500 ''failed to update schedule'', rows')
                    else if count_where (of_schedule i ws) rows = 0 then (ScheduleError 404 ''schedule not found'', rows')
                    else (ScheduleUpdated, rows'))))"

definition Schedules_Delete :: "faults \<Rightarrow> uuid \<Rightarrow> uuid \<Rightarrow> schedule_row list \<Rightarrow> schedule_reply \<times> schedule_row list" where
  "Schedules_Delete flt i ws rows =
     (if flt 0 then (ScheduleError 500 ''failed to delete schedule'', rows)
      else let rows' = filter (\<lambda>r. \<not> of_schedule i ws r) rows in
        if flt 1 then (ScheduleError 500 ''failed to delete schedule'', rows')
        else if count_where (of_schedule i ws) rows = 0 then (ScheduleError 404 ''schedule not found'', rows')
        else (ScheduleDeleted, rows'))"

definition Schedules_RunNow :: "bool \<Rightarrow> uuid \<Rightarrow> uuid \<Rightarrow> schedule_row list \<Rightarrow> schedule_reply" where
  "Schedules_RunNow fault i ws rows =
     (if fault then ScheduleError 500 ''failed to read schedule''
      else case select_first (of_schedule i ws) rows of
             None \<Rightarrow> ScheduleError 404 ''schedule not found''
           | Some r \<Rightarrow> ScheduleFired ws (sc_prompt r))"

definition Schedules_History :: "bool \<Rightarrow> uuid \<Rightarrow> uuid \<Rightarrow> cron_log list \<Rightarrow> schedule_reply" where
  "Schedules_History fault i ws logs =
     (if fault then ScheduleError 500 ''failed to query history''
      else ScheduleHistory (take 20 (sort_key (\<lambda>l. - clg_created_at l)
             (filter (\<lambda>l. clg_workspace_id l = ws \<and> clg_activity_type l = ''cron_run'' \<and>
                          json_text (clg_request_body l) ''schedule_id'' = Some i) logs))))"

section \<open>The operator view\<close>

definition computeStaleThreshold :: "cron_lib \<Rightarrow> string \<Rightarrow> string \<Rightarrow> instant \<Rightarrow> cron_error + duration" where
  "computeStaleThreshold lib cronExpr tz now =
     (case ComputeNextRun lib cronExpr tz now of
        Inl e \<Rightarrow> Inl e
      | Inr t1 \<Rightarrow> (case ComputeNextRun lib cronExpr tz t1 of Inl e \<Rightarrow> Inl e | Inr t2 \<Rightarrow> Inr (2 * (t2 - t1))))"

definition classifyScheduleStatus :: "instant option \<Rightarrow> duration \<Rightarrow> instant \<Rightarrow> string" where
  "classifyScheduleStatus lastRunAt staleThreshold now =
     (case lastRunAt of
        None \<Rightarrow> ''never_run''
      | Some t \<Rightarrow> if 0 < staleThreshold \<and> staleThreshold < now - t then ''stale'' else ''ok'')"

record adminScheduleHealth =
  ah_WorkspaceID :: uuid
  ah_WorkspaceName :: string
  ah_ScheduleID :: uuid
  ah_ScheduleName :: string
  ah_CronExpr :: string
  ah_LastRunAt :: "instant option"
  ah_ExpectedNextRun :: "instant option"
  ah_Status :: string
  ah_StaleThresholdSeconds :: int

definition health_entry :: "cron_lib \<Rightarrow> instant \<Rightarrow> life_row \<Rightarrow> schedule_row \<Rightarrow> adminScheduleHealth" where
  "health_entry lib now w s =
     (let threshold = (case computeStaleThreshold lib (sc_cron_expr s) (sc_timezone s) now of Inl _ \<Rightarrow> 0 | Inr d \<Rightarrow> d) in
      \<lparr>ah_WorkspaceID = w_id w, ah_WorkspaceName = w_name w, ah_ScheduleID = sc_id s, ah_ScheduleName = sc_name s,
       ah_CronExpr = sc_cron_expr s, ah_LastRunAt = sc_last_run_at s, ah_ExpectedNextRun = sc_next_run_at s,
       ah_Status = classifyScheduleStatus (sc_last_run_at s) threshold now,
       ah_StaleThresholdSeconds = threshold div second\<rparr>)"

text \<open>The join with the workspaces that are not removed, \<^term>\<open>None\<close> when the query fails. The order, by names, is
  that of the table here.\<close>

definition Admin_Schedules_Health ::
  "cron_lib \<Rightarrow> instant \<Rightarrow> bool \<Rightarrow> life_row list \<Rightarrow> schedule_row list \<Rightarrow> adminScheduleHealth list option" where
  "Admin_Schedules_Health lib now fault workspaces rows =
     (if fault then None else Some (concat (map (\<lambda>s. case find_ws (sc_workspace_id s) workspaces of
        None \<Rightarrow> []
      | Some w \<Rightarrow> if w_status w \<noteq> StatusRemoved then [health_entry lib now w s] else []) rows)))"

definition orphaned :: "life_row list \<Rightarrow> schedule_row \<Rightarrow> bool" where
  "orphaned workspaces s = (case find_ws (sc_workspace_id s) workspaces of None \<Rightarrow> True | Some w \<Rightarrow> w_status w = StatusRemoved)"

definition Admin_Schedules_Orphans :: "bool \<Rightarrow> life_row list \<Rightarrow> schedule_row list \<Rightarrow> (schedule_row \<times> string) list option" where
  "Admin_Schedules_Orphans fault workspaces rows =
     (if fault then None else Some (map (\<lambda>s. (s, if find_ws (sc_workspace_id s) workspaces = None then ''missing'' else ''removed'')) (filter (orphaned workspaces) rows)))"

section \<open>ReapOrphans\<close>

text \<open>The subquery for the live successor: same parent, same role, the latest update first.\<close>

definition live_successor :: "(uuid \<Rightarrow> string option) \<Rightarrow> life_row list \<Rightarrow> uuid option \<Rightarrow> string option \<Rightarrow> uuid option" where
  "live_successor role workspaces parent r =
     (case sort_key (\<lambda>w. - w_updated_at w)
             (filter (\<lambda>w. w_status w \<noteq> StatusRemoved \<and> w_parent_id w = parent \<and> r \<noteq> None \<and> role (w_id w) = r) workspaces) of
        [] \<Rightarrow> None | w # _ \<Rightarrow> Some (w_id w))"

text \<open>Where the statement moves a schedule, judged on the table before it.\<close>

definition repoint_target :: "(uuid \<Rightarrow> string option) \<Rightarrow> life_row list \<Rightarrow> schedule_row list \<Rightarrow> schedule_row \<Rightarrow> uuid option" where
  "repoint_target role workspaces rows s =
     (case find_ws (sc_workspace_id s) workspaces of
        None \<Rightarrow> None
      | Some prev \<Rightarrow>
          if w_status prev = StatusRemoved \<and> sc_source s = ''runtime''
          then case live_successor role workspaces (w_parent_id prev) (role (w_id prev)) of
                 None \<Rightarrow> None
               | Some live_id \<Rightarrow> if (live_id, sc_name s) \<in> set (schedule_keys rows) then None else Some live_id
          else None)"

definition repoint :: "(uuid \<Rightarrow> string option) \<Rightarrow> instant \<Rightarrow> life_row list \<Rightarrow> schedule_row list \<Rightarrow> schedule_row list" where
  "repoint role now workspaces rows =
     map (\<lambda>s. case repoint_target role workspaces rows s of
        None \<Rightarrow> s | Some live_id \<Rightarrow> s\<lparr>sc_workspace_id := live_id, sc_updated_at := now\<rparr>) rows"

definition disable_orphans :: "instant \<Rightarrow> life_row list \<Rightarrow> schedule_row list \<Rightarrow> schedule_row list" where
  "disable_orphans now workspaces rows =
     update_where (\<lambda>s. sc_enabled s \<and> orphaned workspaces s) (\<lambda>s. s\<lparr>sc_enabled := False, sc_updated_at := now\<rparr>) rows"

text \<open>The two counts, or the error; the statements are 0 and 2, their row counts 1 and 3.\<close>

definition ReapOrphans ::
  "(uuid \<Rightarrow> string option) \<Rightarrow> instant \<Rightarrow> faults \<Rightarrow> life_row list \<Rightarrow> schedule_row list \<Rightarrow> (string + nat \<times> nat) \<times> schedule_row list" where
  "ReapOrphans role now flt workspaces rows =
     (case exec_schedules (flt 0) (repoint role now workspaces rows) of
        None \<Rightarrow> (Inl ''re-point failed'', rows)
      | Some rows1 \<Rightarrow>
          if flt 1 then (Inl ''re-point failed'', rows1)
          else if flt 2 then (Inl ''disable failed'', rows1)
          else let rows2 = disable_orphans now workspaces rows1 in
            if flt 3 then (Inl ''disable failed'', rows2)
            else (Inr (count_where (\<lambda>s. repoint_target role workspaces rows s \<noteq> None) rows,
                       count_where (\<lambda>s. sc_enabled s \<and> orphaned workspaces s) rows1), rows2))"

section \<open>Organisation import\<close>

text \<open>The predecessor of a recreated workspace: by role when it has one, else by name.\<close>

definition removed_predecessor ::
  "(uuid \<Rightarrow> string option) \<Rightarrow> life_row list \<Rightarrow> uuid \<Rightarrow> string option \<Rightarrow> string \<Rightarrow> uuid option \<Rightarrow> uuid option" where
  "removed_predecessor role workspaces newID r name parentID =
     (case sort_key (\<lambda>w. - w_updated_at w)
             (filter (\<lambda>w. w_status w = StatusRemoved \<and> (if r \<noteq> None then role (w_id w) = r else w_name w = name) \<and>
                          w_parent_id w = parentID \<and> w_id w \<noteq> newID) workspaces) of
        [] \<Rightarrow> None | w # _ \<Rightarrow> Some (w_id w))"

definition migrateRuntimeSchedules ::
  "(uuid \<Rightarrow> string option) \<Rightarrow> instant \<Rightarrow> faults \<Rightarrow> life_row list \<Rightarrow> uuid \<Rightarrow> string option \<Rightarrow> string \<Rightarrow> uuid option \<Rightarrow>
   schedule_row list \<Rightarrow> schedule_row list" where
  "migrateRuntimeSchedules role now flt workspaces newID r name parentID rows =
     (case (if flt 0 then None else removed_predecessor role workspaces newID r name parentID) of
        None \<Rightarrow> rows
      | Some predID \<Rightarrow>
          (case exec_schedules (flt 1) (update_where
                  (\<lambda>s. sc_workspace_id s = predID \<and> sc_source s = ''runtime'' \<and> (newID, sc_name s) \<notin> set (schedule_keys rows))
                  (\<lambda>s. s\<lparr>sc_workspace_id := newID, sc_updated_at := now\<rparr>) rows) of
             None \<Rightarrow> rows
           | Some rows' \<Rightarrow> rows'))"

text \<open>\<^verbatim>\<open>orgImportScheduleSQL\<close>: the row of the key is refreshed when it came from a template.\<close>

definition orgImportSchedule :: "instant \<Rightarrow> schedule_row \<Rightarrow> schedule_row list \<Rightarrow> schedule_row list" where
  "orgImportSchedule now new rows =
     (if (sc_workspace_id new, sc_name new) \<in> set (schedule_keys rows)
      then update_where (\<lambda>s. sc_workspace_id s = sc_workspace_id new \<and> sc_name s = sc_name new \<and> sc_source s = ''template'')
             (\<lambda>s. s\<lparr>sc_cron_expr := sc_cron_expr new, sc_timezone := sc_timezone new, sc_prompt := sc_prompt new,
                    sc_enabled := sc_enabled new, sc_next_run_at := sc_next_run_at new, sc_updated_at := now\<rparr>) rows
      else rows @ [new])"

text \<open>One schedule of a template; its prompt has been resolved (\<^term>\<open>None\<close> when that failed).\<close>

record OrgSchedule =
  os_Name :: string
  os_CronExpr :: string
  os_Timezone :: string
  os_Enabled :: "bool option"
  os_Prompt :: "string option"

definition import_schedule ::
  "cron_lib \<Rightarrow> instant \<Rightarrow> uuid \<Rightarrow> bool \<Rightarrow> uuid \<Rightarrow> OrgSchedule \<Rightarrow> schedule_row list \<Rightarrow> schedule_row list" where
  "import_schedule lib now newid fault ws sched rows =
     (let tz = (if os_Timezone sched = [] then ''UTC'' else os_Timezone sched);
          enabled = (case os_Enabled sched of None \<Rightarrow> True | Some e \<Rightarrow> e) in
      case os_Prompt sched of
        None \<Rightarrow> rows
      | Some prompt \<Rightarrow>
          if prompt = [] then rows
          else case ComputeNextRun lib (os_CronExpr sched) tz now of
                 Inl _ \<Rightarrow> rows
               | Inr nextRun \<Rightarrow>
                   (case exec_schedules fault (orgImportSchedule now
                           (new_schedule now newid ws (os_Name sched) (os_CronExpr sched) tz prompt enabled nextRun ''template'') rows) of
                      None \<Rightarrow> rows | Some rows' \<Rightarrow> rows'))"

end
