(* ===== verification/Scheduler_Props.thy ===== *)
theory Scheduler_Props
  imports Scheduler A2A_Queue_Props Lifecycle_Props
begin

text \<open>
  What the scheduler promises. A fire touches only the row of its schedule; each tick moves every row it
  took past its own time, panics included; next runs never become NULL; the two counters follow the
  history of the runs; a busy workspace gets at most one buffered tick per schedule. And where it fails:
  expressions without a next time starve every other schedule, error strings of the SDK never count,
  and the log rows of a busy workspace hide it from the phantom-busy sweep.
\<close>

section \<open>The row of a schedule\<close>

named_theorems schedule_row_simps \<open>the row of a schedule after a statement\<close>

lemma find_schedule_update [schedule_row_simps]:
  "find_schedule j (advance_next now t i rows) =
    (if j = i then map_option (\<lambda>r. r\<lparr>sc_next_run_at := Some t, sc_updated_at := now\<rparr>) (find_schedule j rows)
     else find_schedule j rows)"
  "find_schedule j (bump_empty now i rows) =
    (if j = i then map_option (\<lambda>r. r\<lparr>sc_consecutive_empty_runs := sc_consecutive_empty_runs r + 1, sc_updated_at := now\<rparr>)
       (find_schedule j rows) else find_schedule j rows)"
  "find_schedule j (reset_empty now i rows) =
    (if j = i then map_option (\<lambda>r. r\<lparr>sc_consecutive_empty_runs := 0, sc_updated_at := now\<rparr>) (find_schedule j rows)
     else find_schedule j rows)"
  "find_schedule j (bump_sdk now i rows) =
    (if j = i then map_option (\<lambda>r. r\<lparr>sc_consecutive_sdk_errors := sc_consecutive_sdk_errors r + 1, sc_updated_at := now\<rparr>)
       (find_schedule j rows) else find_schedule j rows)"
  "find_schedule j (reset_sdk now i rows) =
    (if j = i then map_option (\<lambda>r. r\<lparr>sc_consecutive_sdk_errors := 0, sc_updated_at := now\<rparr>) (find_schedule j rows)
     else find_schedule j rows)"
  "find_schedule j (finish_run now i nr ls le rows) =
    (if j = i then map_option (\<lambda>r. r\<lparr>sc_last_run_at := Some now, sc_next_run_at := coalesce nr (sc_next_run_at r),
              sc_run_count := sc_run_count r + 1, sc_last_status := ls, sc_last_error := le,
              sc_updated_at := now\<rparr>) (find_schedule j rows)
     else find_schedule j rows)"
  unfolding find_schedule_def advance_next_def bump_empty_def reset_empty_def bump_sdk_def reset_sdk_def finish_run_def
  by (simp_all add: select_key_update)

lemma find_schedule_auto_disable [schedule_row_simps]:
  "find_schedule j (auto_disable now i rows) =
    (if j = i then map_option (\<lambda>r. if sc_enabled r then r\<lparr>sc_enabled := False, sc_updated_at := now\<rparr> else r) (find_schedule j rows)
     else find_schedule j rows)"
proof -
  have "find_schedule j (auto_disable now i rows) =
    map_option (\<lambda>r. if sc_id r = i \<and> sc_enabled r then r\<lparr>sc_enabled := False, sc_updated_at := now\<rparr> else r) (find_schedule j rows)"
    unfolding find_schedule_def auto_disable_def by (rule select_key_update_where) simp
  moreover have "find_schedule j rows = Some r \<Longrightarrow> sc_id r = j" for r
    unfolding find_schedule_def using select_first_SomeD by fastforce
  ultimately show ?thesis by (cases "find_schedule j rows") auto
qed

lemma ids_preserved [simp]:
  "map sc_id (advance_next now t i rows) = map sc_id rows"
  "map sc_id (bump_empty now i rows) = map sc_id rows"
  "map sc_id (reset_empty now i rows) = map sc_id rows"
  "map sc_id (bump_sdk now i rows) = map sc_id rows"
  "map sc_id (reset_sdk now i rows) = map sc_id rows"
  "map sc_id (auto_disable now i rows) = map sc_id rows"
  "map sc_id (finish_run now i nr ls le rows) = map sc_id rows"
  unfolding advance_next_def bump_empty_def reset_empty_def bump_sdk_def reset_sdk_def auto_disable_def finish_run_def
  by (simp_all add: map_update_where)

section \<open>The effect of a fire on its row\<close>

text \<open>What a run was, as far as the counters are concerned.\<close>

datatype run_result = RunOk | RunEmpty | RunSDKError | RunError

definition reply_result :: "bool \<Rightarrow> string \<times> string \<times> string \<Rightarrow> run_result" where
  "reply_result isEmpty reply =
     (if fst reply = ''ok'' then (if isEmpty then RunEmpty else RunOk)
      else if is_sdk_error (snd (snd reply)) then RunSDKError else RunError)"

text \<open>The counters as a machine of their own: enabled, empty runs, SDK errors.\<close>

fun count_run :: "bool \<times> int \<times> int \<Rightarrow> run_result \<Rightarrow> bool \<times> int \<times> int" where
  "count_run (en, e, k) RunOk = (en, 0, 0)"
| "count_run (en, e, k) RunEmpty = (en, e + 1, if 3 \<le> e + 1 then k else 0)"
| "count_run (en, e, k) RunSDKError = (en \<and> k + 1 < 3, e, k + 1)"
| "count_run (en, e, k) RunError = (en, e, k)"

definition counters :: "schedule_row \<Rightarrow> bool \<times> int \<times> int" where
  "counters r = (sc_enabled r, sc_consecutive_empty_runs r, sc_consecutive_sdk_errors r)"

text \<open>Replies the code can build: a clean status has no SDK signal, and an SDK status is the signal.\<close>

definition reply_ok :: "string \<times> string \<times> string \<Rightarrow> bool" where
  "reply_ok reply \<longleftrightarrow> (fst reply = ''ok'' \<longrightarrow> \<not> is_sdk_error (snd (snd reply)))"

lemma classify_reply_ok: "reply_ok (classify_reply parse code body)"
  unfolding classify_reply_def reply_ok_def by (simp add: Let_def is_sdk_error_def)

lemma track_empty_other:
  "j \<noteq> i \<Longrightarrow> find_schedule j (fst (track_empty f now i em ls le rows)) = find_schedule j rows"
  "map sc_id (fst (track_empty f now i em ls le rows)) = map sc_id rows"
  unfolding track_empty_def Let_def by (simp_all add: schedule_row_simps)

lemma track_sdk_other:
  "j \<noteq> i \<Longrightarrow> find_schedule j (track_sdk flt now i k ls rows) = find_schedule j rows"
  "map sc_id (track_sdk flt now i k ls rows) = map sc_id rows"
  unfolding track_sdk_def Let_def by (simp_all add: schedule_row_simps)

lemma after_fire_schedules:
  "sst_schedules (after_fire E fe sched body reply st) =
    (let te = track_empty (fe_flt fe 2) (fe_end fe) (sr_ID sched) (isEmptyResponse body) (fst reply) (fst (snd reply)) (sst_schedules st);
         ts = track_sdk (fe_flt fe) (fe_end fe) (sr_ID sched) (snd (snd reply)) (fst (snd te)) (fst te)
     in if fe_flt fe 5 then ts
        else finish_run (fe_end fe) (sr_ID sched) (next_run_ptr (se_cron E) sched (fe_end fe)) (fst (snd te)) (snd (snd te)) ts)"
  unfolding after_fire_def by (cases st) (simp only: Let_def split_def sched_state.simps)

lemma after_fire_other:
  "j \<noteq> sr_ID sched \<Longrightarrow>
   find_schedule j (sst_schedules (after_fire E fe sched body reply st)) = find_schedule j (sst_schedules st)"
  by (simp add: after_fire_schedules Let_def track_empty_other track_sdk_other schedule_row_simps)

lemma after_fire_tables [simp]:
  "sst_workspaces (after_fire E fe sched body reply st) = sst_workspaces st"
  "sst_queue (after_fire E fe sched body reply st) = sst_queue st"
  unfolding after_fire_def by (cases st, simp only: Let_def split_def sched_state.simps)+

lemma after_fire_ids [simp]: "map sc_id (sst_schedules (after_fire E fe sched body reply st)) = map sc_id (sst_schedules st)"
  by (simp add: after_fire_schedules Let_def track_empty_other track_sdk_other)

lemma track_empty_row:
  assumes "find_schedule i rows = Some r"
  shows "find_schedule i (fst (track_empty False now i em ls le rows)) =
      Some (if ls = ''ok'' then r\<lparr>sc_consecutive_empty_runs := (if em then sc_consecutive_empty_runs r + 1 else 0), sc_updated_at := now\<rparr> else r)"
    and "fst (snd (track_empty False now i em ls le rows)) =
      (if ls = ''ok'' \<and> em \<and> 3 \<le> sc_consecutive_empty_runs r + 1 then ''stale'' else ls)"
  using assms unfolding track_empty_def Let_def by (simp_all add: schedule_row_simps)

lemma track_sdk_row:
  assumes "find_schedule i rows = Some r" "flt = no_faults"
  shows "\<exists>r'. find_schedule i (track_sdk flt now i k ls rows) = Some r' \<and>
    sc_consecutive_sdk_errors r' = (if is_sdk_error k then sc_consecutive_sdk_errors r + 1 else if ls = ''ok'' then 0 else sc_consecutive_sdk_errors r) \<and>
    sc_enabled r' = (sc_enabled r \<and> (is_sdk_error k \<longrightarrow> sc_consecutive_sdk_errors r + 1 < 3)) \<and>
    sc_consecutive_empty_runs r' = sc_consecutive_empty_runs r \<and> sc_run_count r' = sc_run_count r \<and>
    sc_next_run_at r' = sc_next_run_at r"
  using assms unfolding track_sdk_def Let_def by (simp add: schedule_row_simps)

lemma after_fire_row:
  assumes r: "find_schedule (sr_ID sched) (sst_schedules st) = Some r" and ok: "reply_ok reply" and "fe_flt fe = no_faults"
  shows "\<exists>r'. find_schedule (sr_ID sched) (sst_schedules (after_fire E fe sched body reply st)) = Some r' \<and>
    counters r' = count_run (counters r) (reply_result (isEmptyResponse body) reply) \<and>
    sc_run_count r' = sc_run_count r + 1 \<and>
    sc_next_run_at r' = coalesce (next_run_ptr (se_cron E) sched (fe_end fe)) (sc_next_run_at r)"
proof -
  obtain s0 e0 k where reply: "reply = (s0, e0, k)" by (cases reply)
  define te where "te = track_empty False (fe_end fe) (sr_ID sched) (isEmptyResponse body) s0 e0 (sst_schedules st)"
  note te = track_empty_row [OF r, of "fe_end fe" "isEmptyResponse body" s0 e0, folded te_def]
  obtain r' where r': "find_schedule (sr_ID sched) (track_sdk no_faults (fe_end fe) (sr_ID sched) k (fst (snd te)) (fst te)) = Some r'"
    "sc_consecutive_sdk_errors r' = (if is_sdk_error k then sc_consecutive_sdk_errors r + 1
       else if fst (snd te) = ''ok'' then 0 else sc_consecutive_sdk_errors r)"
    "sc_enabled r' = (sc_enabled r \<and> (is_sdk_error k \<longrightarrow> sc_consecutive_sdk_errors r + 1 < 3))"
    "sc_consecutive_empty_runs r' = (if s0 = ''ok'' then if isEmptyResponse body then sc_consecutive_empty_runs r + 1 else 0
       else sc_consecutive_empty_runs r)"
    "sc_run_count r' = sc_run_count r" "sc_next_run_at r' = sc_next_run_at r"
    using track_sdk_row [OF te(1) refl, of "fe_end fe" k "fst (snd te)"] by (auto split: if_splits)
  have c: "counters r' = count_run (counters r) (reply_result (isEmptyResponse body) reply)"
    using ok r'(2-4) te(2) by (auto simp: counters_def reply reply_result_def reply_ok_def)
  show ?thesis
    using c r' assms(3) by (simp add: after_fire_schedules Let_def reply te_def [symmetric] schedule_row_simps counters_def)
qed

section \<open>The counters follow the history\<close>

definition at_capacity :: "bool \<Rightarrow> uuid \<Rightarrow> life_row list \<Rightarrow> bool" where
  "at_capacity fault ws rows = (case capacity fault ws rows of None \<Rightarrow> False | Some (a, m) \<Rightarrow> m \<le> a)"

lemma fireSchedule_idle:
  assumes "\<not> at_capacity (fe_flt fe 0) (sr_WorkspaceID sched) (sst_workspaces st)"
  shows "fireSchedule E fe sched st =
    (case fe_proxy fe (sr_WorkspaceID sched) (a2a_body E fe sched) st of
       (st1, ProxyPanic) \<Rightarrow> recover_advance E (fe_end fe) (fe_flt fe 7) sched st1
     | (st1, ProxyErr msg) \<Rightarrow> after_fire E fe sched [] (''error'', msg, []) st1
     | (st1, ProxyReply statusCode respBody) \<Rightarrow>
         after_fire E fe sched respBody (classify_reply (se_parse E) statusCode respBody) st1)"
  using assms unfolding fireSchedule_def at_capacity_def Let_def by (simp split: option.splits prod.splits)

lemma fireSchedule_busy:
  assumes "capacity (fe_flt fe 0) (sr_WorkspaceID sched) (sst_workspaces st) = Some (a, m)" "m \<le> a"
  shows "fireSchedule E fe sched st = fire_busy E fe sched a st"
  using assms unfolding fireSchedule_def Let_def by simp

text \<open>A call whose proxy gives this outcome and during which nobody else writes.\<close>

definition replying :: "fire_env \<Rightarrow> proxy_outcome \<Rightarrow> fire_env" where
  "replying fe out = fe\<lparr>fe_proxy := \<lambda>_ _ s. (s, out), fe_flt := no_faults\<rparr>"

text \<open>The result of a run that returned.\<close>

fun outcome_result :: "(string \<Rightarrow> json option) \<Rightarrow> proxy_outcome \<Rightarrow> run_result option" where
  "outcome_result parse ProxyPanic = None"
| "outcome_result parse (ProxyErr msg) = Some RunError"
| "outcome_result parse (ProxyReply code body) = Some (reply_result (isEmptyResponse body) (classify_reply parse code body))"

definition count_outcome :: "(string \<Rightarrow> json option) \<Rightarrow> bool \<times> int \<times> int \<Rightarrow> proxy_outcome \<Rightarrow> bool \<times> int \<times> int" where
  "count_outcome parse c out = (case outcome_result parse out of None \<Rightarrow> c | Some res \<Rightarrow> count_run c res)"

definition fire_run :: "sched_env \<Rightarrow> scheduleRow \<Rightarrow> (fire_env \<times> proxy_outcome) list \<Rightarrow> sched_state \<Rightarrow> sched_state" where
  "fire_run E sched runs st = foldl (\<lambda>s (fe, out). fireSchedule E (replying fe out) sched s) st runs"

lemma recover_advance_simps [simp]:
  "sst_workspaces (recover_advance E now f sched st) = sst_workspaces st"
  "sst_queue (recover_advance E now f sched st) = sst_queue st"
  "sst_logs (recover_advance E now f sched st) = sst_logs st"
  "map sc_id (sst_schedules (recover_advance E now f sched st)) = map sc_id (sst_schedules st)"
  unfolding recover_advance_def by (simp_all split: sum.split)

lemma recover_advance_row:
  "find_schedule j (sst_schedules (recover_advance E now f sched st)) =
    (if j = sr_ID sched \<and> \<not> f then map_option (\<lambda>r. case next_run_ptr (se_cron E) sched now of None \<Rightarrow> r
        | Some t \<Rightarrow> r\<lparr>sc_next_run_at := Some t, sc_updated_at := now\<rparr>) (find_schedule j (sst_schedules st))
     else find_schedule j (sst_schedules st))"
  unfolding recover_advance_def next_run_ptr_def by (auto simp: schedule_row_simps option.map_ident split: sum.split)

lemma fire_replying_row:
  assumes idle: "\<not> at_capacity False (sr_WorkspaceID sched) (sst_workspaces st)"
    and r: "find_schedule (sr_ID sched) (sst_schedules st) = Some r"
  shows "\<exists>r'. find_schedule (sr_ID sched) (sst_schedules (fireSchedule E (replying fe out) sched st)) = Some r' \<and>
      counters r' = count_outcome (se_parse E) (counters r) out \<and>
      sc_next_run_at r' = coalesce (next_run_ptr (se_cron E) sched (fe_end fe)) (sc_next_run_at r)"
    and "sst_workspaces (fireSchedule E (replying fe out) sched st) = sst_workspaces st"
proof -
  have fire: "fireSchedule E (replying fe out) sched st =
    (case out of ProxyPanic \<Rightarrow> recover_advance E (fe_end fe) False sched st
     | ProxyErr msg \<Rightarrow> after_fire E (replying fe out) sched [] (''error'', msg, []) st
     | ProxyReply statusCode respBody \<Rightarrow>
         after_fire E (replying fe out) sched respBody (classify_reply (se_parse E) statusCode respBody) st)"
    using idle by (subst fireSchedule_idle) (simp_all add: replying_def split: proxy_outcome.split)
  show "sst_workspaces (fireSchedule E (replying fe out) sched st) = sst_workspaces st"
    unfolding fire by (simp split: proxy_outcome.split)
  show "\<exists>r'. find_schedule (sr_ID sched) (sst_schedules (fireSchedule E (replying fe out) sched st)) = Some r' \<and>
      counters r' = count_outcome (se_parse E) (counters r) out \<and>
      sc_next_run_at r' = coalesce (next_run_ptr (se_cron E) sched (fe_end fe)) (sc_next_run_at r)"
  proof (cases out)
    case ProxyPanic
    then show ?thesis unfolding fire using r
      by (simp add: recover_advance_row count_outcome_def counters_def split: option.split)
  next
    case (ProxyErr msg)
    have "reply_ok (''error'', msg, [])" "reply_result (isEmptyResponse []) (''error'', msg, []) = RunError"
      by (simp_all add: reply_ok_def reply_result_def is_sdk_error_def)
    with after_fire_row [OF r, of "(''error'', msg, [])" "replying fe out" E "[]"] ProxyErr show ?thesis
      unfolding fire by (auto simp: count_outcome_def replying_def)
  next
    case (ProxyReply code body)
    with after_fire_row [OF r classify_reply_ok, of "replying fe out" E body "se_parse E" code] show ?thesis
      unfolding fire by (auto simp: count_outcome_def replying_def)
  qed
qed

lemma run_counters_fold:
  assumes "\<not> at_capacity False (sr_WorkspaceID sched) (sst_workspaces st)"
    and "find_schedule (sr_ID sched) (sst_schedules st) = Some r"
  shows "\<exists>r'. find_schedule (sr_ID sched) (sst_schedules (fire_run E sched runs st)) = Some r' \<and>
    counters r' = foldl (count_outcome (se_parse E)) (counters r) (map snd runs)"
  using assms
proof (induction runs arbitrary: st r)
  case Nil
  then show ?case by (simp add: fire_run_def)
next
  case (Cons run runs)
  obtain fe out where run: "run = (fe, out)" by (cases run)
  define st1 where "st1 = fireSchedule E (replying fe out) sched st"
  obtain r1 where r1: "find_schedule (sr_ID sched) (sst_schedules st1) = Some r1"
    "counters r1 = count_outcome (se_parse E) (counters r) out" "sst_workspaces st1 = sst_workspaces st"
    using fire_replying_row [OF Cons.prems, of E fe out] unfolding st1_def by blast
  with Cons.IH [of st1 r1] Cons.prems(1) show ?case by (simp add: fire_run_def run st1_def)
qed

text \<open>C34: While nobody else writes its row and its workspace has capacity, the enabled flag and the two counters
  of a schedule after any sequence of runs, with replies, errors and panics of the proxy, are those of the abstract
  machine count_run over the results of the runs.\<close>

theorem run_counters_refine:
  assumes "\<not> at_capacity False (sr_WorkspaceID sched) (sst_workspaces st)"
    and "find_schedule (sr_ID sched) (sst_schedules st) = Some r"
  shows "\<exists>r'. find_schedule (sr_ID sched) (sst_schedules (fire_run E sched runs st)) = Some r' \<and>
    counters r' = foldl (count_outcome (se_parse E)) (counters r) (map snd runs)"
  by (rule run_counters_fold [OF assms])

text \<open>Runs that are neither clean nor empty leave the count of SDK errors growing.\<close>

lemma no_success_counts:
  assumes "\<forall>out \<in> set outs. outcome_result parse out \<notin> {Some RunOk, Some RunEmpty}"
  shows "foldl (count_outcome parse) (en, e, k) outs =
    (en \<and> (count_where (\<lambda>out. outcome_result parse out = Some RunSDKError) outs = 0 \<or>
           k + int (count_where (\<lambda>out. outcome_result parse out = Some RunSDKError) outs) < 3), e,
     k + int (count_where (\<lambda>out. outcome_result parse out = Some RunSDKError) outs))"
  using assms
proof (induction outs arbitrary: en k)
  case (Cons out outs)
  consider "outcome_result parse out = Some RunSDKError" | "outcome_result parse out = Some RunError" | "outcome_result parse out = None"
    using Cons.prems by (cases "outcome_result parse out") (auto intro: run_result.exhaust)
  then show ?case using Cons by cases (auto simp: count_outcome_def)
qed simp

text \<open>Three runs that end in an SDK error disable a schedule, however many other failures (errors of the proxy,
  statuses outside the two hundreds, panics) lie between them, and a disabled schedule is not in the batch of
  any tick: only a run without an error clears the count.\<close>

theorem three_sdk_errors_disable:
  assumes "\<not> at_capacity False (sr_WorkspaceID sched) (sst_workspaces st)"
    and "find_schedule (sr_ID sched) (sst_schedules st) = Some r" "0 \<le> sc_consecutive_sdk_errors r"
    and "distinct (map sc_id (sst_schedules (fire_run E sched runs st)))"
    and "\<forall>out \<in> snd ` set runs. outcome_result (se_parse E) out \<notin> {Some RunOk, Some RunEmpty}"
    and "3 \<le> count_where (\<lambda>run. outcome_result (se_parse E) (snd run) = Some RunSDKError) runs"
  shows "sr_ID sched \<notin> sc_id ` set (due_batch now (sst_schedules (fire_run E sched runs st)))"
proof -
  let ?P = "\<lambda>out. outcome_result (se_parse E) out = Some RunSDKError"
  have n: "count_where ?P (map snd runs) = count_where (\<lambda>run. ?P (snd run)) runs"
    by (simp add: count_where_def filter_map o_def)
  obtain r' where r': "find_schedule (sr_ID sched) (sst_schedules (fire_run E sched runs st)) = Some r'"
    "counters r' = foldl (count_outcome (se_parse E)) (counters r) (map snd runs)"
    using run_counters_fold [OF assms(1,2)] by blast
  have "\<not> sc_enabled r'"
    using r'(2) no_success_counts [of "map snd runs" "se_parse E"] assms(3,5,6) by (auto simp: counters_def n)
  moreover have "r'' = r'" if "r'' \<in> set (sst_schedules (fire_run E sched runs st))" "sc_id r'' = sr_ID sched" for r''
    using select_first_distinct [OF assms(4) that(1)] r'(1) that(2) by (simp add: find_schedule_def)
  ultimately show ?thesis by (auto simp: due_batch_def due_def dest!: in_set_takeD)
qed

section \<open>Every tick moves on\<close>

text \<open>The proxy, and whoever writes while it runs, leaves the schedules alone.\<close>

definition keeps_schedules :: "fire_env \<Rightarrow> bool" where
  "keeps_schedules fe \<longleftrightarrow> (\<forall>ws b s. sst_schedules (fst (fe_proxy fe ws b s)) = sst_schedules s)"

abbreviation next_of :: "uuid \<Rightarrow> schedule_row list \<Rightarrow> instant option option" where
  "next_of i rows \<equiv> map_option sc_next_run_at (find_schedule i rows)"

lemma track_next:
  "next_of j (fst (track_empty f now i em ls le rows)) = next_of j rows"
  "next_of j (track_sdk flt now i k ls rows) = next_of j rows"
  unfolding track_empty_def track_sdk_def Let_def
  by (auto simp: schedule_row_simps option.map_comp o_def intro: option.map_cong)

lemma finish_run_next:
  "next_of j (finish_run now i nr ls le rows) =
    (if j = i then map_option (\<lambda>n. coalesce nr n) (next_of j rows) else next_of j rows)"
  by (simp add: schedule_row_simps option.map_comp o_def)

lemma record_rows:
  "sst_schedules (recordSkipped E now flt sched a st) =
    (if flt 5 then sst_schedules st
     else finish_run now (sr_ID sched) (next_run_ptr (se_cron E) sched now) ''skipped''
            (sanitizeUTF8 (''skipped: workspace busy (active_tasks='' @ show_int a @ '')'')) (sst_schedules st))"
  "sst_schedules (recordQueued E now flt sched a q d st) =
    (if flt 5 then sst_schedules st
     else finish_run now (sr_ID sched) (next_run_ptr (se_cron E) sched now) ''queued''
            (sanitizeUTF8 (''queued: workspace busy (active_tasks='' @ show_int a @ ''), buffered (id='' @
                     short q 8 @ '', depth='' @ show_nat d @ '')'')) (sst_schedules st))"
  by (cases st, simp only: recordSkipped_def Let_def sched_state.simps split: if_split, simp)
    (cases st, simp only: recordQueued_def Let_def sched_state.simps split: if_split, simp)

lemma fire_busy_next:
  assumes "\<not> fe_flt fe 5"
  shows "next_of j (sst_schedules (fire_busy E fe sched a st)) =
    (if j = sr_ID sched then map_option (coalesce (next_run_ptr (se_cron E) sched (fe_end fe))) (next_of j (sst_schedules st))
     else next_of j (sst_schedules st))"
  using assms unfolding fire_busy_def Let_def
  by (simp add: record_rows finish_run_next split: prod.split sum.split)

lemma after_fire_next:
  assumes "\<not> fe_flt fe 5"
  shows "next_of j (sst_schedules (after_fire E fe sched body reply st)) =
    (if j = sr_ID sched then map_option (coalesce (next_run_ptr (se_cron E) sched (fe_end fe))) (next_of j (sst_schedules st))
     else next_of j (sst_schedules st))"
  using assms by (simp add: after_fire_schedules Let_def finish_run_next track_next)

lemma recover_advance_next:
  "next_of j (sst_schedules (recover_advance E now False sched st)) =
    (if j = sr_ID sched then map_option (coalesce (next_run_ptr (se_cron E) sched now)) (next_of j (sst_schedules st))
     else next_of j (sst_schedules st))"
  unfolding recover_advance_row
  by (cases "find_schedule j (sst_schedules st)"; cases "next_run_ptr (se_cron E) sched now") auto

text \<open>The new next run of a fired schedule, and that no other schedule moves.\<close>

lemma fireSchedule_next:
  assumes "keeps_schedules fe" "\<not> fe_flt fe 5" "\<not> fe_flt fe 7"
  shows "next_of j (sst_schedules (fireSchedule E fe sched st)) =
    (if j = sr_ID sched then map_option (coalesce (next_run_ptr (se_cron E) sched (fe_end fe))) (next_of j (sst_schedules st))
     else next_of j (sst_schedules st))"
proof (cases "at_capacity (fe_flt fe 0) (sr_WorkspaceID sched) (sst_workspaces st)")
  case True
  then obtain a m where "capacity (fe_flt fe 0) (sr_WorkspaceID sched) (sst_workspaces st) = Some (a, m)" "m \<le> a"
    by (auto simp: at_capacity_def split: option.splits)
  then show ?thesis using assms(2) by (simp add: fireSchedule_busy fire_busy_next)
next
  case False
  obtain st1 out where p: "fe_proxy fe (sr_WorkspaceID sched) (a2a_body E fe sched) st = (st1, out)" by fastforce
  then have "sst_schedules st1 = sst_schedules st" using assms(1) unfolding keeps_schedules_def by (metis fst_conv)
  moreover have "recover_advance E (fe_end fe) (fe_flt fe 7) sched st1 = recover_advance E (fe_end fe) False sched st1"
    using assms(3) by simp
  ultimately show ?thesis
    unfolding fireSchedule_idle [OF False] p
    by (cases out) (simp_all only: prod.case proxy_outcome.case after_fire_next [OF assms(2)] recover_advance_next)
qed

text \<open>One schedule of a tick: its next run is computed from one of the two times of the call.\<close>

lemma tick_one_next:
  assumes "keeps_schedules (fes (sr_ID sched))" "\<not> fe_flt (fes (sr_ID sched)) 5" "\<not> fe_flt (fes (sr_ID sched)) 7"
  obtains t where "t = fe_start (fes (sr_ID sched)) \<or> t = fe_end (fes (sr_ID sched))"
    "\<And>j. next_of j (sst_schedules (tick_one E fes sched st)) =
      (if j = sr_ID sched then map_option (coalesce (next_run_ptr (se_cron E) sched t)) (next_of j (sst_schedules st))
       else next_of j (sst_schedules st))"
proof -
  define fe where "fe = fes (sr_ID sched)"
  note asms = assms [folded fe_def]
  define native where "native = (case se_native E of None \<Rightarrow> False | Some native \<Rightarrow> native (sr_WorkspaceID sched))"
  have "tick_one E fes sched st = (if native then recover_advance E (fe_start fe) False sched st else fireSchedule E fe sched st)"
    using asms(3) unfolding tick_one_def native_def fe_def Let_def by simp
  then consider "tick_one E fes sched st = fireSchedule E fe sched st" | "tick_one E fes sched st = recover_advance E (fe_start fe) False sched st"
    by (cases native) simp_all
  then show thesis
  proof cases
    case 1
    show thesis by (rule that [of "fe_end fe", folded fe_def]) (simp_all add: 1 fireSchedule_next [OF asms])
  next
    case 2
    show thesis by (rule that [of "fe_start fe", folded fe_def]) (simp_all add: 2 recover_advance_next)
  qed
qed

lemma fold_tick_next:
  assumes "\<And>i. keeps_schedules (fes i)" "\<And>i. \<not> fe_flt (fes i) 5" "\<And>i. \<not> fe_flt (fes i) 7" "distinct (map sr_ID scheds)"
  shows "(j \<notin> sr_ID ` set scheds \<longrightarrow> next_of j (sst_schedules (fold (tick_one E fes) scheds st)) = next_of j (sst_schedules st)) \<and>
    (\<forall>sched \<in> set scheds. \<exists>t. (t = fe_start (fes (sr_ID sched)) \<or> t = fe_end (fes (sr_ID sched))) \<and>
       next_of (sr_ID sched) (sst_schedules (fold (tick_one E fes) scheds st)) =
         map_option (coalesce (next_run_ptr (se_cron E) sched t)) (next_of (sr_ID sched) (sst_schedules st)))"
  using assms(4)
proof (induction scheds arbitrary: st j)
  case (Cons sched scheds)
  obtain t where t: "t = fe_start (fes (sr_ID sched)) \<or> t = fe_end (fes (sr_ID sched))"
    "\<And>j. next_of j (sst_schedules (tick_one E fes sched st)) =
      (if j = sr_ID sched then map_option (coalesce (next_run_ptr (se_cron E) sched t)) (next_of j (sst_schedules st))
       else next_of j (sst_schedules st))"
    by (rule tick_one_next [of fes sched E st]) (use assms in blast)+
  have d: "sr_ID sched \<notin> sr_ID ` set scheds" "distinct (map sr_ID scheds)" using Cons.prems by auto
  note IH = Cons.IH [OF d(2), of _ "tick_one E fes sched st"]
  have own: "next_of (sr_ID sched) (sst_schedules (fold (tick_one E fes) (sched # scheds) st)) =
    map_option (coalesce (next_run_ptr (se_cron E) sched t)) (next_of (sr_ID sched) (sst_schedules st))"
    using IH [of "sr_ID sched"] d(1) t(2) by simp
  have rest: "\<exists>t. (t = fe_start (fes (sr_ID x)) \<or> t = fe_end (fes (sr_ID x))) \<and>
       next_of (sr_ID x) (sst_schedules (fold (tick_one E fes) (sched # scheds) st)) =
         map_option (coalesce (next_run_ptr (se_cron E) x t)) (next_of (sr_ID x) (sst_schedules st))" if "x \<in> set scheds" for x
  proof -
    have "sr_ID x \<noteq> sr_ID sched" using d(1) that by (metis imageI)
    with IH [of j] that t(2) show ?thesis by fastforce
  qed
  show ?case using own rest t(1) IH [of j] t(2) by auto
qed simp

lemma scan_schedule_simps [simp]:
  "sr_ID (scan_schedule r) = sc_id r" "sr_CronExpr (scan_schedule r) = sc_cron_expr r" "sr_Timezone (scan_schedule r) = sc_timezone r"
  by (simp_all add: scan_schedule_def)

lemma due_batch_subset: "set (due_batch now rows) \<subseteq> set (filter (due now) rows)"
  unfolding due_batch_def using set_take_subset by (metis set_sort)

lemma due_batch_distinct: "distinct (map sc_id rows) \<Longrightarrow> distinct (map sr_ID (map scan_schedule (due_batch now rows)))"
proof -
  assume "distinct (map sc_id rows)"
  then have "distinct (map sc_id (filter (due now) rows))" by (simp add: distinct_map_filter)
  then have "distinct (map sc_id (sort_key next_key (filter (due now) rows)))"
    by (metis distinct_map distinct_sort set_sort)
  then show ?thesis by (simp add: due_batch_def comp_def take_map [symmetric] distinct_take)
qed

text \<open>C33: A tick moves every schedule of its batch on. For a schedule with a known zone and an expression that
  parses, when the statements that close its run succeed and the proxy call of no schedule writes to the
  table of schedules: fired, buffered, skipped natively or lost to a panic, afterwards its next run is what the
  cron library gives for the start or the end of its run. Where that lies in the future, the schedule is no
  longer due at the time its run began; it does not for an expression that no date satisfies. The next runs of
  the schedules outside the batch are unchanged.\<close>

theorem tick_advances:
  assumes "distinct (map sc_id (sst_schedules st))" "r \<in> set (due_batch now (sst_schedules st))"
    and "\<And>i. keeps_schedules (fes i)" "\<And>i. \<not> fe_flt (fes i) 5" "\<And>i. \<not> fe_flt (fes i) 7" "\<And>i. fe_start (fes i) \<le> fe_end (fes i)"
    and "cl_zone (se_cron E) (sc_timezone r)" "cl_parse (se_cron E) (sc_cron_expr r)"
  shows "(\<exists>r' t. find_schedule (sc_id r) (sst_schedules (tick E fes now False st)) = Some r' \<and>
      t \<in> {fe_start (fes (sc_id r)), fe_end (fes (sc_id r))} \<and>
      sc_next_run_at r' = Some (cl_next (se_cron E) (sc_cron_expr r) (sc_timezone r) t) \<and>
      (t < cl_next (se_cron E) (sc_cron_expr r) (sc_timezone r) t \<longrightarrow> \<not> due (fe_start (fes (sc_id r))) r')) \<and>
    (j \<notin> sc_id ` set (due_batch now (sst_schedules st)) \<longrightarrow>
       next_of j (sst_schedules (tick E fes now False st)) = next_of j (sst_schedules st))"
proof -
  let ?scheds = "map scan_schedule (due_batch now (sst_schedules st))"
  have tick: "tick E fes now False st = fold (tick_one E fes) ?scheds st" by (simp add: tick_def)
  note fold = fold_tick_next [where fes = fes and j = j and E = E and st = st, OF assms(3-5) due_batch_distinct [OF assms(1), of now]]
  have ids: "sr_ID ` set ?scheds = sc_id ` set (due_batch now (sst_schedules st))" by (simp add: image_image)
  obtain t where t: "t = fe_start (fes (sc_id r)) \<or> t = fe_end (fes (sc_id r))"
    "next_of (sc_id r) (sst_schedules (tick E fes now False st)) =
       map_option (coalesce (next_run_ptr (se_cron E) (scan_schedule r) t)) (next_of (sc_id r) (sst_schedules st))"
    using bspec [OF conjunct2 [OF fold], of "scan_schedule r"] assms(2) unfolding tick by auto
  have r: "r \<in> set (sst_schedules st)" using due_batch_subset assms(2) by fastforce
  then have "find_schedule (sc_id r) (sst_schedules st) = Some r"
    unfolding find_schedule_def by (rule select_first_distinct [OF assms(1)])
  moreover have "next_run_ptr (se_cron E) (scan_schedule r) t = Some (cl_next (se_cron E) (sc_cron_expr r) (sc_timezone r) t)"
    using assms(7,8) by (simp add: next_run_ptr_def ComputeNextRun_def)
  ultimately obtain r' where r': "find_schedule (sc_id r) (sst_schedules (tick E fes now False st)) = Some r'"
    "sc_next_run_at r' = Some (cl_next (se_cron E) (sc_cron_expr r) (sc_timezone r) t)"
    using t(2) by auto
  have "fe_start (fes (sc_id r)) \<le> t" using t(1) assms(6) by auto
  with r'(2) have "t < cl_next (se_cron E) (sc_cron_expr r) (sc_timezone r) t \<longrightarrow> \<not> due (fe_start (fes (sc_id r))) r'" by (simp add: due_def)
  moreover have "t \<in> {fe_start (fes (sc_id r)), fe_end (fes (sc_id r))}" using t(1) by simp
  ultimately show ?thesis using r' fold ids unfolding tick by (intro conjI exI [of _ r'] exI [of _ t]) auto
qed

section \<open>Expressions without a next time\<close>

text \<open>
  For an expression that no date satisfies, such as the thirtieth of February, \<^verbatim>\<open>Next\<close> returns the zero time.
  \<open>stuck lib z r\<close>: an enabled row of such an expression, already at this time \<open>z\<close>.
\<close>

definition stuck :: "cron_lib \<Rightarrow> instant \<Rightarrow> schedule_row \<Rightarrow> bool" where
  "stuck lib z r \<longleftrightarrow> sc_enabled r \<and> sc_next_run_at r = Some z \<and> cl_zone lib (sc_timezone r) \<and> cl_parse lib (sc_cron_expr r) \<and>
     (\<forall>t. cl_next lib (sc_cron_expr r) (sc_timezone r) t = z)"

text \<open>How a table may change: a stuck row stays stuck, every other row is unchanged.\<close>

definition same_but_stuck :: "cron_lib \<Rightarrow> instant \<Rightarrow> schedule_row list \<Rightarrow> schedule_row list \<Rightarrow> bool" where
  "same_but_stuck lib z = list_all2 (\<lambda>r r'. sc_id r' = sc_id r \<and> (if stuck lib z r then stuck lib z r' else r' = r))"

definition only_stuck :: "cron_lib \<Rightarrow> instant \<Rightarrow> uuid \<Rightarrow> schedule_row list \<Rightarrow> bool" where
  "only_stuck lib z i rows \<longleftrightarrow> (\<forall>r \<in> set rows. sc_id r = i \<longrightarrow> stuck lib z r)"

lemma same_but_stuck_refl: "same_but_stuck lib z rows rows"
  unfolding same_but_stuck_def by (simp add: list.rel_refl)

lemma same_but_stuck_trans:
  assumes "same_but_stuck lib z as bs" "same_but_stuck lib z bs cs" shows "same_but_stuck lib z as cs"
  using assms unfolding same_but_stuck_def by (rule list_all2_trans [rotated]) (auto split: if_splits)

lemma same_but_stuck_only: "same_but_stuck lib z as bs \<Longrightarrow> only_stuck lib z i as \<Longrightarrow> only_stuck lib z i bs"
  unfolding same_but_stuck_def only_stuck_def
  by (induction rule: list_all2_induct) (auto split: if_splits)

lemma same_but_stuck_update:
  assumes "only_stuck lib z i rows" "\<And>r. P r \<Longrightarrow> sc_id r = i" "\<And>r. sc_id (f r) = sc_id r" "\<And>r. stuck lib z r \<Longrightarrow> stuck lib z (f r)"
  shows "same_but_stuck lib z rows (update_where P f rows)"
  using assms(1) unfolding same_but_stuck_def only_stuck_def
  by (induction rows) (use assms(2-4) in auto)

lemma same_but_stuck_statements:
  assumes "only_stuck lib z i rows"
  shows "same_but_stuck lib z rows (bump_empty now i rows)" "same_but_stuck lib z rows (reset_empty now i rows)"
    "same_but_stuck lib z rows (reset_sdk now i rows)" "same_but_stuck lib z rows (advance_next now z i rows)"
    "same_but_stuck lib z rows (finish_run now i (Some z) ls le rows)"
  unfolding bump_empty_def reset_empty_def reset_sdk_def advance_next_def finish_run_def
  by (rule same_but_stuck_update [OF assms]; simp add: stuck_def)+

lemma same_but_stuck_track:
  assumes "only_stuck lib z i rows"
  shows "same_but_stuck lib z rows (fst (track_empty f now i em ls le rows))"
    and "\<not> is_sdk_error k \<Longrightarrow> same_but_stuck lib z rows (track_sdk flt now i k ls' rows)"
  unfolding track_empty_def track_sdk_def Let_def
  by (simp_all add: same_but_stuck_statements [OF assms] same_but_stuck_refl)

text \<open>A scanned row of such an expression.\<close>

definition no_next :: "cron_lib \<Rightarrow> instant \<Rightarrow> scheduleRow \<Rightarrow> bool" where
  "no_next lib z sched \<longleftrightarrow> (\<forall>t. ComputeNextRun lib (sr_CronExpr sched) (sr_Timezone sched) t = Inr z)"

lemma no_next_ptr: "no_next lib z sched \<Longrightarrow> next_run_ptr lib sched t = Some z"
  unfolding no_next_def next_run_ptr_def by (metis sum.case(2))

lemma stuck_no_next: "stuck lib z r \<Longrightarrow> no_next lib z (scan_schedule r)"
  unfolding no_next_def stuck_def ComputeNextRun_def by simp

lemma same_but_stuck_finish:
  assumes "only_stuck lib z i rows" "no_next lib z sched"
  shows "same_but_stuck lib z rows (if b then rows else finish_run now i (next_run_ptr lib sched t) ls le rows)"
  by (simp add: no_next_ptr [OF assms(2)] same_but_stuck_statements [OF assms(1)] same_but_stuck_refl)

lemma recover_advance_stuck:
  assumes "only_stuck (se_cron E) z (sr_ID sched) (sst_schedules st)" "no_next (se_cron E) z sched"
  shows "same_but_stuck (se_cron E) z (sst_schedules st) (sst_schedules (recover_advance E now f sched st))"
  using assms unfolding recover_advance_def no_next_def by (simp add: same_but_stuck_statements same_but_stuck_refl)

lemma fire_busy_stuck:
  assumes "only_stuck (se_cron E) z (sr_ID sched) (sst_schedules st)" "no_next (se_cron E) z sched"
  shows "same_but_stuck (se_cron E) z (sst_schedules st) (sst_schedules (fire_busy E fe sched a st))"
  unfolding fire_busy_def Let_def
  by (auto simp: record_rows no_next_ptr [OF assms(2)] same_but_stuck_statements [OF assms(1)] same_but_stuck_refl
      split: prod.split sum.split)

lemma after_fire_stuck:
  assumes "only_stuck (se_cron E) z (sr_ID sched) (sst_schedules st)" "no_next (se_cron E) z sched"
    and "\<not> is_sdk_error (snd (snd reply))"
  shows "same_but_stuck (se_cron E) z (sst_schedules st) (sst_schedules (after_fire E fe sched body reply st))"
proof -
  define te where "te = track_empty (fe_flt fe 2) (fe_end fe) (sr_ID sched) (isEmptyResponse body) (fst reply) (fst (snd reply)) (sst_schedules st)"
  define ts where "ts = track_sdk (fe_flt fe) (fe_end fe) (sr_ID sched) (snd (snd reply)) (fst (snd te)) (fst te)"
  have te: "same_but_stuck (se_cron E) z (sst_schedules st) (fst te)"
    unfolding te_def by (rule same_but_stuck_track(1) [OF assms(1)])
  note te_only = same_but_stuck_only [OF te assms(1)]
  have ts: "same_but_stuck (se_cron E) z (fst te) ts" unfolding ts_def by (rule same_but_stuck_track(2) [OF te_only assms(3)])
  note fin = same_but_stuck_finish [OF same_but_stuck_only [OF ts te_only] assms(2)]
  show ?thesis
    unfolding after_fire_schedules Let_def te_def [symmetric] ts_def [symmetric]
    by (rule same_but_stuck_trans [OF te same_but_stuck_trans [OF ts fin]])
qed

text \<open>Calls that leave the schedules alone and end in no SDK error.\<close>

definition no_sdk_reply :: "(string \<Rightarrow> json option) \<Rightarrow> fire_env \<Rightarrow> bool" where
  "no_sdk_reply parse fe \<longleftrightarrow> (\<forall>ws b s code body. snd (fe_proxy fe ws b s) = ProxyReply code body \<longrightarrow>
     \<not> is_sdk_error (snd (snd (classify_reply parse code body))))"

lemma fireSchedule_stuck:
  assumes "only_stuck (se_cron E) z (sr_ID sched) (sst_schedules st)" "no_next (se_cron E) z sched"
    and "keeps_schedules fe" "no_sdk_reply (se_parse E) fe"
  shows "same_but_stuck (se_cron E) z (sst_schedules st) (sst_schedules (fireSchedule E fe sched st))"
proof (cases "at_capacity (fe_flt fe 0) (sr_WorkspaceID sched) (sst_workspaces st)")
  case True
  then obtain a m where "capacity (fe_flt fe 0) (sr_WorkspaceID sched) (sst_workspaces st) = Some (a, m)" "m \<le> a"
    by (auto simp: at_capacity_def split: option.splits)
  then show ?thesis by (simp add: fireSchedule_busy fire_busy_stuck [OF assms(1,2)])
next
  case False
  obtain st1 out where p: "fe_proxy fe (sr_WorkspaceID sched) (a2a_body E fe sched) st = (st1, out)" by fastforce
  then have st1: "sst_schedules st1 = sst_schedules st" using assms(3) unfolding keeps_schedules_def by (metis fst_conv)
  note only = assms(1) [folded st1]
  show ?thesis
  proof (cases out)
    case ProxyPanic
    then show ?thesis unfolding fireSchedule_idle [OF False] p using recover_advance_stuck [OF only assms(2)] by (simp add: st1)
  next
    case (ProxyErr msg)
    have "\<not> is_sdk_error (snd (snd (''error'', msg, [])))" by (simp add: is_sdk_error_def)
    from after_fire_stuck [OF only assms(2) this, of fe "[]"] ProxyErr show ?thesis
      unfolding fireSchedule_idle [OF False] p by (simp add: st1)
  next
    case (ProxyReply code body)
    then have "\<not> is_sdk_error (snd (snd (classify_reply (se_parse E) code body)))"
      using assms(4) p unfolding no_sdk_reply_def by (metis snd_conv)
    from after_fire_stuck [OF only assms(2) this, of fe body] ProxyReply show ?thesis
      unfolding fireSchedule_idle [OF False] p by (simp add: st1)
  qed
qed

lemma fold_tick_stuck:
  assumes "\<And>sched. sched \<in> set scheds \<Longrightarrow> only_stuck (se_cron E) z (sr_ID sched) (sst_schedules st) \<and> no_next (se_cron E) z sched"
    and "\<And>i. keeps_schedules (fes i) \<and> no_sdk_reply (se_parse E) (fes i)"
  shows "same_but_stuck (se_cron E) z (sst_schedules st) (sst_schedules (fold (tick_one E fes) scheds st))"
  using assms(1)
proof (induction scheds arbitrary: st)
  case (Cons sched scheds)
  have s: "only_stuck (se_cron E) z (sr_ID sched) (sst_schedules st)" "no_next (se_cron E) z sched" using Cons.prems by auto
  have step: "same_but_stuck (se_cron E) z (sst_schedules st) (sst_schedules (tick_one E fes sched st))"
    unfolding tick_one_def Let_def
    using recover_advance_stuck [OF s] fireSchedule_stuck [OF s] assms(2) by simp
  have "same_but_stuck (se_cron E) z (sst_schedules (tick_one E fes sched st)) (sst_schedules (fold (tick_one E fes) scheds (tick_one E fes sched st)))"
    by (rule Cons.IH) (use Cons.prems same_but_stuck_only [OF step] in auto)
  with step show ?case by (auto intro: same_but_stuck_trans)
qed (simp add: same_but_stuck_refl)

text \<open>The batch holds stuck rows only.\<close>

definition clogged :: "cron_lib \<Rightarrow> instant \<Rightarrow> schedule_row list \<Rightarrow> bool" where
  "clogged lib z rows \<longleftrightarrow> distinct (map sc_id rows) \<and> batchLimit \<le> count_where (stuck lib z) rows \<and>
     (\<forall>r \<in> set rows. stuck lib z r \<or> (case sc_next_run_at r of None \<Rightarrow> True | Some t \<Rightarrow> z < t))"

lemma clogged_batch:
  assumes "clogged lib z rows" "z \<le> now" "x \<in> set (due_batch now rows)"
  shows "stuck lib z x"
proof (rule ccontr)
  assume "\<not> stuck lib z x"
  moreover have x: "x \<in> set rows" "due now x" using due_batch_subset [of now rows] assms(3) by auto
  ultimately obtain t where t: "sc_next_run_at x = Some t" "z < t" using assms(1) by (auto simp: clogged_def due_def split: option.splits)
  have "due now r \<and> next_key r < next_key x" if "stuck lib z r" for r
    using that t assms(2) by (simp add: stuck_def due_def next_key_def)
  then have "count_where (stuck lib z) rows \<le> count_where (\<lambda>r. due now r \<and> next_key r < next_key x) rows"
    by (rule count_where_mono)
  then have "count_where (stuck lib z) rows \<le> length (filter (\<lambda>r. next_key r < next_key x) (filter (due now) rows))"
    unfolding count_where_def filter_filter by (simp only: conj_commute)
  then have "x \<notin> set (due_batch now rows)"
    unfolding due_batch_def by (intro take_sort_key_excludes) (use assms(1) in \<open>simp add: clogged_def\<close>)
  with assms(3) show False by blast
qed

lemma same_but_stuck_clogged:
  assumes "same_but_stuck lib z as bs" "clogged lib z as"
  shows "clogged lib z bs" "filter (\<lambda>r. \<not> stuck lib z r) bs = filter (\<lambda>r. \<not> stuck lib z r) as"
proof -
  have "map sc_id bs = map sc_id as \<and> count_where (stuck lib z) as \<le> count_where (stuck lib z) bs \<and>
    filter (\<lambda>r. \<not> stuck lib z r) bs = filter (\<lambda>r. \<not> stuck lib z r) as"
    using assms(1) unfolding same_but_stuck_def by (induction rule: list_all2_induct) (auto split: if_splits)
  moreover have "r \<in> set as" if "r \<in> set bs" "\<not> stuck lib z r" for r
  proof -
    have "r \<in> set (filter (\<lambda>r. \<not> stuck lib z r) bs)" using that by simp
    then have "r \<in> set (filter (\<lambda>r. \<not> stuck lib z r) as)" using calculation by simp
    then show ?thesis by simp
  qed
  ultimately show "clogged lib z bs" "filter (\<lambda>r. \<not> stuck lib z r) bs = filter (\<lambda>r. \<not> stuck lib z r) as"
    using assms(2) unfolding clogged_def by auto
qed

lemma tick_clogged:
  assumes "clogged (se_cron E) z (sst_schedules st)" "z \<le> now" "\<And>i. keeps_schedules (fes i) \<and> no_sdk_reply (se_parse E) (fes i)"
  shows "same_but_stuck (se_cron E) z (sst_schedules st) (sst_schedules (tick E fes now qf st))"
proof (cases qf)
  case False
  have "only_stuck (se_cron E) z (sc_id x) (sst_schedules st) \<and> no_next (se_cron E) z (scan_schedule x)"
    if "x \<in> set (due_batch now (sst_schedules st))" for x
  proof -
    have "stuck (se_cron E) z x" "x \<in> set (sst_schedules st)"
      using clogged_batch [OF assms(1,2) that] due_batch_subset [of now "sst_schedules st"] that by auto
    moreover have "r = x" if "r \<in> set (sst_schedules st)" "sc_id r = sc_id x" for r
      using that calculation assms(1) unfolding clogged_def distinct_map by (auto dest: inj_onD)
    ultimately show ?thesis by (auto simp: only_stuck_def stuck_no_next)
  qed
  then show ?thesis using False by (auto simp: tick_def intro!: fold_tick_stuck assms(3))
qed (simp add: tick_def same_but_stuck_refl)

text \<open>Fifty schedules whose expression no date satisfies stop the scheduler for everybody. Their next run is the
  zero time whatever the clock says, so they fill the batch of every tick, and no tick, whatever the proxy
  answers short of an SDK error, ever fires or changes any other schedule of any workspace.\<close>

theorem unsatisfiable_cron_starves:
  assumes "clogged (se_cron E) z (sst_schedules st)" "\<forall>(fes, now, qf) \<in> set ticks. z \<le> now"
    and "\<forall>(fes, now, qf) \<in> set ticks. \<forall>i. keeps_schedules (fes i) \<and> no_sdk_reply (se_parse E) (fes i)"
  shows "filter (\<lambda>r. \<not> stuck (se_cron E) z r) (sst_schedules (foldl (\<lambda>s (fes, now, qf). tick E fes now qf s) st ticks)) =
    filter (\<lambda>r. \<not> stuck (se_cron E) z r) (sst_schedules st)"
  using assms
proof (induction ticks arbitrary: st)
  case (Cons t ticks)
  obtain fes now qf where t: "t = (fes, now, qf)" by (cases t)
  have "same_but_stuck (se_cron E) z (sst_schedules st) (sst_schedules (tick E fes now qf st))"
    by (rule tick_clogged [OF Cons.prems(1)]) (use Cons.prems(2,3) t in auto)
  note next_st = same_but_stuck_clogged [OF this Cons.prems(1)]
  have rest: "\<forall>(fes, now, qf) \<in> set ticks. z \<le> now"
    "\<forall>(fes, now, qf) \<in> set ticks. \<forall>i. keeps_schedules (fes i) \<and> no_sdk_reply (se_parse E) (fes i)"
    using Cons.prems(2,3) by (meson list.set_intros(2))+
  show ?case using Cons.IH [OF next_st(1) rest] next_st(2) t by simp
qed simp

section \<open>Errors of the SDK given as text\<close>

lemma classify_error_string:
  assumes "top_members parse body = Some kvs" "map_of kvs ''error'' = Some (JStr msg)" "msg \<noteq> []" "200 \<le> code" "code < 300"
  shows "classify_reply parse code body = (''error'', ''A2A adapter error: '' @ msg, [])"
proof -
  have "a2aErrorFromBody parse body = msg" using assms(1,2) by (simp add: a2aErrorFromBody_def)
  with assms(3-5) show ?thesis by (simp add: classify_reply_def)
qed

text \<open>An error that the adapter reports as text in the member error never counts as an SDK error, although
  detectResultKind classifies such texts as quota_exhausted, rate_limited and sdk_error: the earlier test takes
  the reply, so the counters are unchanged and the schedule is never disabled for it.\<close>

theorem sdk_error_texts_not_counted:
  assumes "\<not> at_capacity False (sr_WorkspaceID sched) (sst_workspaces st)"
    and "find_schedule (sr_ID sched) (sst_schedules st) = Some r"
    and "top_members (se_parse E) body = Some kvs" "map_of kvs ''error'' = Some (JStr msg)" "msg \<noteq> []" "200 \<le> code" "code < 300"
  shows "\<exists>r'. find_schedule (sr_ID sched) (sst_schedules (fireSchedule E (replying fe (ProxyReply code body)) sched st)) = Some r' \<and>
    counters r' = counters r"
proof -
  have "outcome_result (se_parse E) (ProxyReply code body) = Some RunError"
    using classify_error_string [OF assms(3-7)] by (simp add: reply_result_def is_sdk_error_def)
  then have "count_outcome (se_parse E) c (ProxyReply code body) = c" for c by (cases c) (simp add: count_outcome_def)
  then show ?thesis using fire_replying_row(1) [OF assms(1,2), of E fe "ProxyReply code body"] by auto
qed

section \<open>The phantom-busy sweep\<close>

lemma record_logs:
  "sst_logs (recordSkipped E now flt sched a st) = sst_logs st @ (if flt 6 then [] else
    [cron_run_log now sched ''Cron skipped: '' [(''skipped'', JBool True), (''active_tasks'', JNum a)] ''skipped''
       (''skipped: workspace busy (active_tasks='' @ show_int a @ '')'')])"
  "\<not> flt 6 \<Longrightarrow> \<exists>entry. clg_workspace_id entry = sr_WorkspaceID sched \<and> clg_created_at entry = now \<and>
    sst_logs (recordQueued E now flt sched a q d st) = sst_logs st @ [entry]"
  unfolding recordSkipped_def recordQueued_def Let_def by (auto simp: cron_run_log_def)

lemma record_workspaces [simp]:
  "sst_workspaces (recordSkipped E now flt sched a st) = sst_workspaces st"
  "sst_workspaces (recordQueued E now flt sched a q d st) = sst_workspaces st"
  "sst_queue (recordSkipped E now flt sched a st) = sst_queue st"
  "sst_queue (recordQueued E now flt sched a q d st) = sst_queue st"
  unfolding recordSkipped_def recordQueued_def by (simp_all add: Let_def)

lemma fire_busy_workspaces [simp]: "sst_workspaces (fire_busy E fe sched a st) = sst_workspaces st"
  unfolding fire_busy_def by (simp add: Let_def split: prod.split sum.split)

lemma fire_busy_logs:
  assumes "\<not> fe_flt fe 6"
  shows "\<exists>entry \<in> set (sst_logs (fire_busy E fe sched a st)). clg_workspace_id entry = sr_WorkspaceID sched \<and> clg_created_at entry = fe_end fe"
proof -
  obtain q res where "EnqueueA2A (fe_enqueue_flt fe) (fe_start fe) (fe_queue_id fe) (sst_queue st) (sr_WorkspaceID sched) [] priorityTask
             (a2a_body E fe sched) ''message/send'' (sr_ID sched) (next_run_ptr (se_cron E) sched (fe_start fe)) = (q, res)" by fastforce
  then have fire: "fire_busy E fe sched a st = (case res of Inl _ \<Rightarrow> recordSkipped E (fe_end fe) (fe_flt fe) sched a (st\<lparr>sst_queue := q\<rparr>)
      | Inr (qID, depth) \<Rightarrow> recordQueued E (fe_end fe) (fe_flt fe) sched a qID depth (st\<lparr>sst_queue := q\<rparr>))"
    by (simp add: fire_busy_def Let_def split: sum.split)
  show ?thesis
  proof (cases res)
    case (Inl e)
    then show ?thesis unfolding fire using assms by (simp add: record_logs(1) cron_run_log_def)
  next
    case (Inr iq)
    obtain i d where "iq = (i, d)" by (cases iq)
    with Inr have fire': "fire_busy E fe sched a st = recordQueued E (fe_end fe) (fe_flt fe) sched a i d (st\<lparr>sst_queue := q\<rparr>)"
      unfolding fire by simp
    obtain entry where "clg_workspace_id entry = sr_WorkspaceID sched" "clg_created_at entry = fe_end fe"
      "sst_logs (recordQueued E (fe_end fe) (fe_flt fe) sched a i d (st\<lparr>sst_queue := q\<rparr>)) = sst_logs (st\<lparr>sst_queue := q\<rparr>) @ [entry]"
      using record_logs(2) [where flt = "fe_flt fe", OF assms] by blast
    then show ?thesis unfolding fire' by auto
  qed
qed

text \<open>A busy fire, then sweeps until the next one.\<close>

definition busy_cycle :: "sched_env \<Rightarrow> scheduleRow \<Rightarrow> sched_state \<Rightarrow> fire_env \<times> instant list \<Rightarrow> sched_state" where
  "busy_cycle E sched st c = foldl (\<lambda>s t. sweepPhantomBusy False t s) (fireSchedule E (fst c) sched st) (snd c)"

lemma sweeps_spare_active:
  assumes "\<exists>entry \<in> set (sst_logs st). clg_workspace_id entry = ws \<and> clg_created_at entry = t0"
    and "\<forall>t \<in> set sweeps. t < t0 + phantomStaleThreshold"
  shows "find_ws ws (sst_workspaces (foldl (\<lambda>s t. sweepPhantomBusy False t s) st sweeps)) = find_ws ws (sst_workspaces st)"
  using assms
proof (induction sweeps arbitrary: st)
  case (Cons t sweeps)
  have "recently_active t (sst_logs st) ws" using Cons.prems by (auto simp: recently_active_def list_ex_iff)
  then have "\<not> phantom_busy t (sst_logs st) r" if "w_id r = ws" for r using that by (simp add: phantom_busy_def)
  then have "find_ws ws (sst_workspaces (sweepPhantomBusy False t st)) = find_ws ws (sst_workspaces st)"
    unfolding sweepPhantomBusy_def find_ws_def
    by (auto simp: select_key_update_where dest!: select_first_SomeD intro!: option.map_ident_strong)
  moreover have "sst_logs (sweepPhantomBusy False t st) = sst_logs st" by (simp add: sweepPhantomBusy_def)
  ultimately show ?case using Cons by simp
qed simp

text \<open>The sweep for workspaces stuck with active tasks never reaches one that has a frequent schedule. Each
  busy tick writes a cron_run row into activity_logs, which the sweep takes for activity of the agent; as long
  as the ticks are less than ten minutes apart the workspace keeps its count of active tasks through every
  number of ticks and sweeps, and every tick of the schedule is only buffered.\<close>

theorem busy_cron_hides_phantom:
  assumes "find_ws (sr_WorkspaceID sched) (sst_workspaces st) = Some w"
    and "(case w_max_concurrent_tasks w of None \<Rightarrow> 1 | Some m \<Rightarrow> m) \<le> w_active_tasks w"
    and "\<forall>(fe, sweeps) \<in> set cycles. \<not> fe_flt fe 0 \<and> \<not> fe_flt fe 6 \<and> (\<forall>t \<in> set sweeps. t < fe_end fe + phantomStaleThreshold)"
  shows "find_ws (sr_WorkspaceID sched) (sst_workspaces (foldl (busy_cycle E sched) st cycles)) = Some w"
  using assms
proof (induction cycles arbitrary: st)
  case (Cons c cycles)
  obtain fe sweeps where c: "c = (fe, sweeps)" by (cases c)
  have ok: "\<not> fe_flt fe 0" "\<not> fe_flt fe 6" "\<forall>t \<in> set sweeps. t < fe_end fe + phantomStaleThreshold" using Cons.prems(3) c by auto
  have "fireSchedule E fe sched st = fire_busy E fe sched (w_active_tasks w) st"
    by (rule fireSchedule_busy) (use Cons.prems(1,2) ok(1) in \<open>simp_all add: capacity_def\<close>)
  then have "find_ws (sr_WorkspaceID sched) (sst_workspaces (busy_cycle E sched st c)) = Some w"
    unfolding busy_cycle_def c using sweeps_spare_active [OF fire_busy_logs [OF ok(2)] ok(3)] Cons.prems(1) by simp
  moreover have "\<forall>(fe, sweeps) \<in> set cycles. \<not> fe_flt fe 0 \<and> \<not> fe_flt fe 6 \<and> (\<forall>t \<in> set sweeps. t < fe_end fe + phantomStaleThreshold)"
    using Cons.prems(3) by (meson list.set_intros(2))
  ultimately show ?case using Cons.IH Cons.prems(2) by simp
qed simp

section \<open>Buffered ticks\<close>

text \<open>An enqueue under a key whose active rows have all expired in the queue replaces them by one fresh row.\<close>

lemma EnqueueA2A_replaces:
  assumes "key \<noteq> []" "\<And>r. r \<in> set q \<Longrightarrow> same_key ws key r \<Longrightarrow> q_active r \<Longrightarrow> q_status r = Q_queued \<and> (\<exists>e \<le> now. q_expires_at r = Some e)"
  shows "fst (EnqueueA2A no_faults now newid q ws [] prio body mth key expiry) =
      supersede_expired now ws key q @ [fresh_row now newid ws None prio body (nullif_empty mth) (Some key) expiry] \<and>
    filter (\<lambda>r. same_key ws key r \<and> q_active r) (supersede_expired now ws key q) = []"
proof
  let ?q1 = "supersede_expired now ws key q"
  define row where "row = fresh_row now newid ws None prio body (nullif_empty mth) (Some key) expiry"
  have "\<not> (same_key ws key r' \<and> q_active r')" if mem: "r' \<in> set ?q1" for r'
  proof
    let ?P = "\<lambda>r. same_key ws key r \<and> q_status r = Q_queued \<and> (case q_expires_at r of None \<Rightarrow> False | Some e \<Rightarrow> e \<le> now)"
    assume r': "same_key ws key r' \<and> q_active r'"
    obtain r where r: "r \<in> set q" "r' = (if ?P r then r\<lparr>q_status := Q_dropped, q_last_error := Some superseded_reason\<rparr> else r)"
      using mem unfolding supersede_expired_def set_update_where by blast
    show False
    proof (cases "?P r")
      case True
      then have "r' = r\<lparr>q_status := Q_dropped, q_last_error := Some superseded_reason\<rparr>" using r(2) by (simp only: if_True simp_thms)
      with r' show False by (simp add: q_active_def)
    next
      case False
      then have "r' = r" using r(2) by (simp only: if_False)
      with r' assms(2) [OF r(1)] False show False by auto
    qed
  qed
  then show none: "filter (\<lambda>r. same_key ws key r \<and> q_active r) ?q1 = []" by (simp add: filter_empty_conv)
  have row: "q_idempotency_key row = Some key" "q_workspace_id row = ws" "q_id row = newid"
    by (simp_all add: row_def fresh_row_def)
  have ins: "insert_row ?q1 row = (?q1 @ [row], Some newid)"
    using none row by (auto simp: insert_row_def list_ex_iff filter_empty_conv)
  show "fst (EnqueueA2A no_faults now newid q ws [] prio body mth key expiry) = ?q1 @ [fresh_row now newid ws None prio body (nullif_empty mth) (Some key) expiry]"
    using assms(1) ins unfolding EnqueueA2A_def row_def by (simp add: Let_def nullif_empty_def)
qed

text \<open>An enqueue under a key with an active row and none to supersede leaves the queue as it is.\<close>

lemma EnqueueA2A_keeps:
  assumes "key \<noteq> []" "r \<in> set q" "same_key ws key r" "q_active r"
    "\<And>x. x \<in> set q \<Longrightarrow> same_key ws key x \<Longrightarrow> q_status x = Q_queued \<Longrightarrow> (\<forall>e. q_expires_at x = Some e \<longrightarrow> now < e)"
  shows "fst (EnqueueA2A no_faults now newid q ws [] prio body mth key expiry) = q"
proof -
  have "supersede_expired now ws key q = q"
    unfolding supersede_expired_def by (rule update_where_no_match) (use assms(5) in \<open>fastforce split: option.splits\<close>)
  moreover have "insert_row q (fresh_row now newid ws None prio body (nullif_empty mth) (Some key) expiry) = (q, None)"
    using assms(2-4) by (auto simp: insert_row_def fresh_row_def list_ex_iff)
  ultimately show ?thesis
    using assms(1) by (simp add: EnqueueA2A_def Let_def nullif_empty_def split: option.split)
qed

text \<open>The queue after a fire into a busy workspace.\<close>

lemma fire_busy_queue:
  "sst_queue (fire_busy E fe sched a st) =
    fst (EnqueueA2A (fe_enqueue_flt fe) (fe_start fe) (fe_queue_id fe) (sst_queue st) (sr_WorkspaceID sched) [] priorityTask
      (a2a_body E fe sched) ''message/send'' (sr_ID sched) (next_run_ptr (se_cron E) sched (fe_start fe)))"
  unfolding fire_busy_def Let_def by (auto split: prod.split sum.split)

definition buffered_tick :: "sched_env \<Rightarrow> scheduleRow \<Rightarrow> fire_env \<Rightarrow> q_row" where
  "buffered_tick E sched fe = fresh_row (fe_start fe) (fe_queue_id fe) (sr_WorkspaceID sched) None priorityTask (a2a_body E fe sched)
     (Some ''message/send'') (Some (sr_ID sched)) (next_run_ptr (se_cron E) sched (fe_start fe))"

definition waiting_ticks :: "scheduleRow \<Rightarrow> sched_state \<Rightarrow> q_row list" where
  "waiting_ticks sched st = filter (\<lambda>r. same_key (sr_WorkspaceID sched) (sr_ID sched) r \<and> q_active r) (sst_queue st)"

text \<open>
  The slot of a schedule: the tick it holds is replaced by one that starts at or after the run computed for it, and
  an earlier one is lost.
\<close>

fun held_tick :: "(instant \<Rightarrow> instant) \<Rightarrow> fire_env \<Rightarrow> fire_env list \<Rightarrow> fire_env" where
  "held_tick nxt held [] = held"
| "held_tick nxt held (fe # fes) = held_tick nxt (if nxt (fe_start held) \<le> fe_start fe then fe else held) fes"

lemma held_tick_last: "successively (\<lambda>fe fe'. nxt (fe_start fe) \<le> fe_start fe') (fe # fes) \<Longrightarrow> held_tick nxt fe fes = last (fe # fes)"
  by (induction fes arbitrary: fe) auto

lemma held_tick_snoc:
  "held_tick nxt h (fes @ [fe]) = (if nxt (fe_start (held_tick nxt h fes)) \<le> fe_start fe then fe else held_tick nxt h fes)"
  by (induction fes arbitrary: h) auto

lemma buffered_tick_fields:
  "same_key (sr_WorkspaceID sched) (sr_ID sched) (buffered_tick E sched fe)" "q_active (buffered_tick E sched fe)"
  "q_status (buffered_tick E sched fe) = Q_queued" "q_expires_at (buffered_tick E sched fe) = next_run_ptr (se_cron E) sched (fe_start fe)"
  by (simp_all add: buffered_tick_def fresh_row_def same_key_def q_active_def)

text \<open>One more tick: the slot is empty or its tick has expired, or it has not.\<close>

lemma fire_busy_buffers:
  assumes "sr_ID sched \<noteq> []" "fe_enqueue_flt fe = no_faults" "sst_queue st = old @ new"
    "filter (\<lambda>r. same_key (sr_WorkspaceID sched) (sr_ID sched) r \<and> q_active r) old = []" "list_all (same_key (sr_WorkspaceID sched) (sr_ID sched)) new"
    and "\<And>r. r \<in> set (waiting_ticks sched st) \<Longrightarrow> q_status r = Q_queued \<and> (\<exists>e \<le> fe_start fe. q_expires_at r = Some e)"
  shows "waiting_ticks sched (fire_busy E fe sched a st) = [buffered_tick E sched fe]"
    and "\<exists>new'. sst_queue (fire_busy E fe sched a st) = old @ new' \<and> list_all (same_key (sr_WorkspaceID sched) (sr_ID sched)) new'"
proof -
  let ?sup = "supersede_expired (fe_start fe) (sr_WorkspaceID sched) (sr_ID sched)"
  have exp: "\<And>r. r \<in> set (sst_queue st) \<Longrightarrow> same_key (sr_WorkspaceID sched) (sr_ID sched) r \<Longrightarrow> q_active r \<Longrightarrow>
      q_status r = Q_queued \<and> (\<exists>e \<le> fe_start fe. q_expires_at r = Some e)"
    using assms(6) by (simp add: waiting_ticks_def)
  note rep = EnqueueA2A_replaces [where newid = "fe_queue_id fe" and prio = priorityTask and body = "a2a_body E fe sched" and
        mth = "''message/send''" and expiry = "next_run_ptr (se_cron E) sched (fe_start fe)", OF assms(1) exp]
  have q: "sst_queue (fire_busy E fe sched a st) = ?sup (sst_queue st) @ [buffered_tick E sched fe]"
    using rep assms(2) by (simp add: fire_busy_queue buffered_tick_def nullif_empty_def)
  then show "waiting_ticks sched (fire_busy E fe sched a st) = [buffered_tick E sched fe]"
    using rep by (simp add: waiting_ticks_def buffered_tick_fields)
  have "?sup old = old"
    unfolding supersede_expired_def by (rule update_where_no_match) (use assms(4) in \<open>auto simp: filter_empty_conv q_active_def\<close>)
  moreover have "list_all (same_key (sr_WorkspaceID sched) (sr_ID sched)) (?sup new)"
    using assms(5) by (induction new) (auto simp: supersede_expired_def same_key_def)
  ultimately have "sst_queue (fire_busy E fe sched a st) = old @ (?sup new @ [buffered_tick E sched fe])"
    "list_all (same_key (sr_WorkspaceID sched) (sr_ID sched)) (?sup new @ [buffered_tick E sched fe])"
    using q by (simp_all add: assms(3) supersede_expired_def buffered_tick_fields)
  then show "\<exists>new'. sst_queue (fire_busy E fe sched a st) = old @ new' \<and> list_all (same_key (sr_WorkspaceID sched) (sr_ID sched)) new'" by blast
qed

lemma fire_busy_keeps:
  assumes "sr_ID sched \<noteq> []" "fe_enqueue_flt fe = no_faults" "waiting_ticks sched st = [buffered_tick E sched h]"
    "next_run_ptr (se_cron E) sched (fe_start h) = Some e" "fe_start fe < e"
  shows "sst_queue (fire_busy E fe sched a st) = sst_queue st"
proof -
  have mem: "buffered_tick E sched h \<in> set (sst_queue st)"
    using arg_cong [OF assms(3), of set] by (auto simp: waiting_ticks_def)
  have only: "x = buffered_tick E sched h" if "x \<in> set (sst_queue st)" "same_key (sr_WorkspaceID sched) (sr_ID sched) x" "q_status x = Q_queued" for x
  proof -
    have "x \<in> set (waiting_ticks sched st)" using that by (simp add: waiting_ticks_def q_active_def)
    then show ?thesis using assms(3) by simp
  qed
  have "fst (EnqueueA2A no_faults (fe_start fe) (fe_queue_id fe) (sst_queue st) (sr_WorkspaceID sched) [] priorityTask
      (a2a_body E fe sched) ''message/send'' (sr_ID sched) (next_run_ptr (se_cron E) sched (fe_start fe))) = sst_queue st"
  proof (rule EnqueueA2A_keeps [OF assms(1) mem])
    fix x assume "x \<in> set (sst_queue st)" "same_key (sr_WorkspaceID sched) (sr_ID sched) x" "q_status x = Q_queued"
    then have "x = buffered_tick E sched h" by (rule only)
    then show "\<forall>e. q_expires_at x = Some e \<longrightarrow> fe_start fe < e" using assms(4,5) by (simp add: buffered_tick_fields)
  qed (simp_all add: buffered_tick_fields)
  then show ?thesis by (simp add: fire_busy_queue assms(2))
qed

text \<open>C35: A busy workspace buffers its ticks in one slot per schedule. Through any sequence of ticks of a schedule
  into a workspace at capacity, from a queue without an active row of the schedule and with no other writer, the
  queue has exactly one active row under the key of the schedule: the message of the tick the slot holds, which
  expires at the run after it. A tick takes the slot when it starts at or after the run computed for the tick
  in it; one that comes earlier, as after the webhooks that set \<^verbatim>\<open>next_run_at\<close> to the present, leaves
  the older message and its own is lost. When every tick starts at or after the run the one before computed, the
  slot holds the last. The rows that were in the queue are unchanged, and all rows added are of this schedule.\<close>

theorem busy_ticks_buffer:
  assumes "sr_ID sched \<noteq> []" "cl_zone (se_cron E) (sr_Timezone sched)" "cl_parse (se_cron E) (sr_CronExpr sched)"
    and "capacity False (sr_WorkspaceID sched) (sst_workspaces st) = Some (active, limit)" "limit \<le> active"
    and "waiting_ticks sched st = []"
    and "\<forall>x \<in> set (fe # fes). fe_enqueue_flt x = no_faults \<and> \<not> fe_flt x 0"
    and "nxt = cl_next (se_cron E) (sr_CronExpr sched) (sr_Timezone sched)"
    and "st' = foldl (\<lambda>s x. fireSchedule E x sched s) st (fe # fes)"
  shows "waiting_ticks sched st' = [buffered_tick E sched (held_tick nxt fe fes)] \<and>
    (successively (\<lambda>x y. nxt (fe_start x) \<le> fe_start y) (fe # fes) \<longrightarrow> waiting_ticks sched st' = [buffered_tick E sched (last (fe # fes))]) \<and>
    (\<exists>new. sst_queue st' = sst_queue st @ new \<and> list_all (same_key (sr_WorkspaceID sched) (sr_ID sched)) new)"
proof -
  let ?run = "\<lambda>fes. foldl (\<lambda>s x. fireSchedule E x sched s) st (fe # fes)"
  have next_ptr: "next_run_ptr (se_cron E) sched t = Some (nxt t)" for t
    using assms(2,3,8) by (simp add: next_run_ptr_def ComputeNextRun_def)
  have busy: "fireSchedule E x sched s = fire_busy E x sched active s" if "sst_workspaces s = sst_workspaces st" "x \<in> set (fe # fes)" for x s
    using fireSchedule_busy [of x sched s active limit E] that assms(4,5,7) by auto
  have quiet: "filter (\<lambda>r. same_key (sr_WorkspaceID sched) (sr_ID sched) r \<and> q_active r) (sst_queue st) = []"
    using assms(6) by (simp add: waiting_ticks_def)
  have "sst_workspaces (?run xs) = sst_workspaces st \<and> waiting_ticks sched (?run xs) = [buffered_tick E sched (held_tick nxt fe xs)] \<and>
    (\<exists>new. sst_queue (?run xs) = sst_queue st @ new \<and> list_all (same_key (sr_WorkspaceID sched) (sr_ID sched)) new)"
    if "set xs \<subseteq> set fes" for xs
    using that
  proof (induction xs rule: rev_induct)
    case Nil
    have "fe_enqueue_flt fe = no_faults" using assms(7) by simp
    note buf = fire_busy_buffers [where E = E and a = active and st = st and new = "[]", OF assms(1) this _ quiet]
    show ?case using buf assms(6) by (simp add: busy)
  next
    case (snoc x xs)
    then obtain new where IH: "sst_workspaces (?run xs) = sst_workspaces st" "waiting_ticks sched (?run xs) = [buffered_tick E sched (held_tick nxt fe xs)]"
      "sst_queue (?run xs) = sst_queue st @ new" "list_all (same_key (sr_WorkspaceID sched) (sr_ID sched)) new" by auto
    have x: "fe_enqueue_flt x = no_faults" "x \<in> set (fe # fes)" using snoc.prems assms(7) by auto
    have step: "?run (xs @ [x]) = fire_busy E x sched active (?run xs)" using busy [OF IH(1) x(2)] by simp
    show ?case
    proof (cases "nxt (fe_start (held_tick nxt fe xs)) \<le> fe_start x")
      case True
      have "q_status r = Q_queued \<and> (\<exists>e \<le> fe_start x. q_expires_at r = Some e)" if "r \<in> set (waiting_ticks sched (?run xs))" for r
        using that True unfolding IH(2) by (simp add: buffered_tick_fields next_ptr)
      note buf = fire_busy_buffers [where E = E and a = active, OF assms(1) x(1) IH(3) quiet IH(4) this]
      show ?thesis unfolding step held_tick_snoc using buf IH(1) True by simp
    next
      case False
      then have "sst_queue (?run (xs @ [x])) = sst_queue (?run xs)"
        unfolding step by (intro fire_busy_keeps [OF assms(1) x(1) IH(2) next_ptr]) simp
      then show ?thesis using IH False unfolding held_tick_snoc step by (simp add: waiting_ticks_def)
    qed
  qed
  from this [of fes] show ?thesis unfolding assms(9) using held_tick_last [of nxt fe fes] by auto
qed

section \<open>Concrete runs\<close>

text \<open>A library whose expressions fire every minute, but for one without a next time.\<close>

definition minute_cron :: cron_lib where
  "minute_cron = \<lparr>cl_zone = \<lambda>_. True, cl_parse = \<lambda>_. True, cl_next = \<lambda>e _ t. if e = ''0 0 30 2 *'' then -1 else t + minute\<rparr>"

definition error_body :: string where "error_body = ''e''"
definition rate_body :: string where "rate_body = ''r''"

fun reply_parse :: "string \<Rightarrow> json option" where
  "reply_parse s =
     (if s = error_body then Some (JObj [(''error'', JStr ''Rate limit reached'')])
      else if s = rate_body then Some (JObj [(''result'', JObj [(''kind'', JStr ''rate_limited'')])]) else None)"

definition plain_env :: sched_env where
  "plain_env = \<lparr>se_cron = minute_cron, se_parse = reply_parse, se_marshal = \<lambda>_. ''m'', se_channels = None, se_native = None, se_broadcaster = False\<rparr>"

definition plain_fire :: "instant \<Rightarrow> fire_env" where
  "plain_fire t = \<lparr>fe_start = t, fe_end = t, fe_uuid = ''u'', fe_queue_id = ''q'', fe_flt = no_faults, fe_enqueue_flt = no_faults,
     fe_proxy = \<lambda>_ _ s. (s, ProxyReply 200 ''x'')\<rparr>"

definition cron_row :: "uuid \<Rightarrow> string \<Rightarrow> instant \<Rightarrow> schedule_row" where
  "cron_row i expr t = \<lparr>sc_id = i, sc_workspace_id = ''w'', sc_name = i, sc_cron_expr = expr, sc_timezone = ''UTC'', sc_prompt = ''p'',
     sc_enabled = True, sc_last_run_at = None, sc_next_run_at = Some t, sc_run_count = 0, sc_last_status = [], sc_last_error = [],
     sc_source = ''runtime'', sc_created_at = 0, sc_updated_at = 0, sc_consecutive_empty_runs = 0, sc_consecutive_sdk_errors = 0\<rparr>"

definition sched_state_of :: "schedule_row list \<Rightarrow> life_row list \<Rightarrow> sched_state" where
  "sched_state_of rows ws = \<lparr>sst_schedules = rows, sst_workspaces = ws, sst_queue = [], sst_logs = [], sst_events = [], sst_posts = []\<rparr>"

definition every_minute :: schedule_row where "every_minute = cron_row ''s'' ''* * * * *'' 0"

definition busy_workspace :: life_row where "busy_workspace = (life_row_of ''w'' StatusOnline)\<lparr>w_active_tasks := 1\<rparr>"

lemmas demo_defs = minute_cron_def plain_env_def plain_fire_def sched_state_of_def every_minute_def cron_row_def scan_schedule_def
  find_schedule_def at_capacity_def capacity_def find_ws_def

lemma demo_results:
  "outcome_result reply_parse (ProxyReply 200 rate_body) = Some RunSDKError"
  "outcome_result reply_parse (ProxyReply 200 error_body) = Some RunError"
  by (simp_all add: reply_result_def classify_reply_def a2aErrorFromBody_def top_members_def detectResultKind_def result_signal_def
      kind_signal_def resultOKKinds_def is_sdk_error_def rate_body_def error_body_def Let_def)

theorem run_counters_refine_witness:
  "\<exists>r'. find_schedule ''s'' (sst_schedules (fire_run plain_env (scan_schedule every_minute)
      [(plain_fire 1, ProxyReply 200 rate_body), (plain_fire 2, ProxyPanic), (plain_fire 3, ProxyErr ''timeout'')]
      (sched_state_of [every_minute] []))) = Some r' \<and> counters r' = (True, 0, 1)"
proof -
  have "find_schedule (sr_ID (scan_schedule every_minute)) (sst_schedules (sched_state_of [every_minute] [])) = Some every_minute"
    "\<not> at_capacity False (sr_WorkspaceID (scan_schedule every_minute)) (sst_workspaces (sched_state_of [every_minute] []))"
    by (simp_all add: demo_defs)
  from run_counters_refine [OF this(2,1), of plain_env
      "[(plain_fire 1, ProxyReply 200 rate_body), (plain_fire 2, ProxyPanic), (plain_fire 3, ProxyErr ''timeout'')]"]
  moreover have "foldl (count_outcome reply_parse) (counters every_minute)
      [ProxyReply 200 rate_body, ProxyPanic, ProxyErr ''timeout''] = (True, 0, 1)"
    by (simp add: count_outcome_def demo_results counters_def every_minute_def cron_row_def del: outcome_result.simps(3))
  ultimately show ?thesis by (simp add: plain_env_def every_minute_def cron_row_def)
qed

definition sdk_runs :: "(fire_env \<times> proxy_outcome) list" where
  "sdk_runs = [(plain_fire 1, ProxyReply 200 rate_body), (plain_fire 2, ProxyErr ''timeout''), (plain_fire 3, ProxyReply 200 rate_body),
     (plain_fire 4, ProxyPanic), (plain_fire 5, ProxyReply 200 rate_body)]"

lemma fireSchedule_replying_ids:
  assumes "\<not> at_capacity False (sr_WorkspaceID sched) (sst_workspaces st)"
  shows "map sc_id (sst_schedules (fireSchedule E (replying fe out) sched st)) = map sc_id (sst_schedules st)"
    "sst_workspaces (fireSchedule E (replying fe out) sched st) = sst_workspaces st"
  using assms by (subst fireSchedule_idle, simp_all add: replying_def split: proxy_outcome.split)+

lemma fire_run_ids:
  assumes "\<not> at_capacity False (sr_WorkspaceID sched) (sst_workspaces st)"
  shows "map sc_id (sst_schedules (fire_run E sched runs st)) = map sc_id (sst_schedules st)"
  using assms unfolding fire_run_def by (induction runs arbitrary: st) (auto simp: fireSchedule_replying_ids split: prod.split)

theorem three_sdk_errors_disable_witness:
  "''s'' \<notin> sc_id ` set (due_batch 9 (sst_schedules (fire_run plain_env (scan_schedule every_minute) sdk_runs (sched_state_of [every_minute] []))))"
proof -
  have st: "find_schedule (sr_ID (scan_schedule every_minute)) (sst_schedules (sched_state_of [every_minute] [])) = Some every_minute"
    "\<not> at_capacity False (sr_WorkspaceID (scan_schedule every_minute)) (sst_workspaces (sched_state_of [every_minute] []))"
    "0 \<le> sc_consecutive_sdk_errors every_minute"
    by (simp_all add: demo_defs)
  have ids: "distinct (map sc_id (sst_schedules (fire_run plain_env (scan_schedule every_minute) sdk_runs (sched_state_of [every_minute] []))))"
    unfolding fire_run_ids [OF st(2)] by (simp add: sched_state_of_def)
  have results: "\<forall>out \<in> snd ` set sdk_runs. outcome_result (se_parse plain_env) out \<notin> {Some RunOk, Some RunEmpty}"
    "3 \<le> count_where (\<lambda>run. outcome_result (se_parse plain_env) (snd run) = Some RunSDKError) sdk_runs"
    by (simp_all add: sdk_runs_def plain_env_def demo_results del: outcome_result.simps(3))
  show ?thesis using three_sdk_errors_disable [OF st(2,1,3) ids results, of 9] by (simp add: every_minute_def cron_row_def)
qed

lemma plain_fire_ok [simp]:
  "keeps_schedules (plain_fire t)" "\<not> fe_flt (plain_fire t) i" "fe_start (plain_fire t) = t" "fe_end (plain_fire t) = t"
  "fe_enqueue_flt (plain_fire t) = no_faults"
  by (simp_all add: plain_fire_def keeps_schedules_def)

theorem tick_advances_witness:
  "\<exists>r'. find_schedule ''s'' (sst_schedules (tick plain_env (\<lambda>_. plain_fire 5) 5 False (sched_state_of [every_minute] []))) = Some r' \<and> \<not> due 5 r'"
proof -
  have "every_minute \<in> set (due_batch 5 (sst_schedules (sched_state_of [every_minute] [])))"
    by (simp add: due_batch_def batchLimit_def due_def demo_defs)
  moreover have "distinct (map sc_id (sst_schedules (sched_state_of [every_minute] [])))" by (simp add: sched_state_of_def)
  moreover have "t < cl_next (se_cron plain_env) (sc_cron_expr every_minute) (sc_timezone every_minute) t" for t
    by (simp add: demo_defs duration_defs)
  moreover have "cl_zone (se_cron plain_env) (sc_timezone every_minute)" "cl_parse (se_cron plain_env) (sc_cron_expr every_minute)"
    by (simp_all add: demo_defs)
  ultimately obtain r' where "find_schedule (sc_id every_minute) (sst_schedules (tick plain_env (\<lambda>_. plain_fire 5) 5 False (sched_state_of [every_minute] []))) = Some r'"
    "\<not> due (fe_start (plain_fire 5)) r'"
    using tick_advances [of "sched_state_of [every_minute] []" every_minute 5 "\<lambda>_. plain_fire 5" plain_env] by fastforce
  then show ?thesis by (auto simp: demo_defs)
qed

definition clogged_rows :: "schedule_row list" where
  "clogged_rows = every_minute # map (\<lambda>n. cron_row (replicate n (CHR ''x'')) ''0 0 30 2 *'' (-1)) [0..<50]"

lemma clogged_rows_clogged: "clogged minute_cron (-1) clogged_rows"
proof -
  have "distinct (map (\<lambda>n. replicate n (CHR ''x'')) [0..<50])"
    by (simp add: distinct_map inj_on_def replicate_eq_replicate)
  moreover have "''s'' \<noteq> replicate n (CHR ''x'')" for n by (cases n) auto
  ultimately have "distinct (map sc_id clogged_rows)"
    by (simp add: clogged_rows_def every_minute_def cron_row_def comp_def image_iff del: upt_rec_numeral)
  moreover have "filter (stuck minute_cron (-1)) clogged_rows = tl clogged_rows"
    unfolding clogged_rows_def by (simp add: stuck_def every_minute_def cron_row_def minute_cron_def filter_id_conv del: upt_rec_numeral)
  then have "count_where (stuck minute_cron (-1)) clogged_rows = 50"
    by (simp add: count_where_def clogged_rows_def del: upt_rec_numeral)
  moreover have "stuck minute_cron (-1) (cron_row i ''0 0 30 2 *'' (-1))" for i
    by (simp add: stuck_def cron_row_def minute_cron_def)
  ultimately show ?thesis
    by (auto simp: clogged_def batchLimit_def clogged_rows_def every_minute_def cron_row_def simp del: upt_rec_numeral)
qed

theorem unsatisfiable_cron_starves_witness:
  "every_minute \<in> set (sst_schedules (foldl (\<lambda>s (fes, now, qf). tick plain_env fes now qf s) (sched_state_of clogged_rows [])
      [(\<lambda>_. plain_fire 5, 5, False), (\<lambda>_. plain_fire 60, 60, False)])) \<and> due 60 every_minute"
proof -
  let ?ticks = "[(\<lambda>_. plain_fire 5, 5, False), (\<lambda>_. plain_fire 60, 60, False)]"
  have st: "clogged (se_cron plain_env) (-1) (sst_schedules (sched_state_of clogged_rows []))"
    using clogged_rows_clogged by (simp add: plain_env_def sched_state_of_def)
  have proxy: "no_sdk_reply (se_parse plain_env) (plain_fire t)" for t
    by (auto simp: no_sdk_reply_def plain_fire_def plain_env_def classify_reply_def a2aErrorFromBody_def top_members_def detectResultKind_def
        is_sdk_error_def rate_body_def error_body_def Let_def)
  have "filter (\<lambda>r. \<not> stuck (se_cron plain_env) (-1) r) (sst_schedules (foldl (\<lambda>s (fes, now, qf). tick plain_env fes now qf s) (sched_state_of clogged_rows []) ?ticks)) =
    filter (\<lambda>r. \<not> stuck (se_cron plain_env) (-1) r) (sst_schedules (sched_state_of clogged_rows []))"
    by (rule unsatisfiable_cron_starves [OF st]) (simp_all add: proxy)
  moreover have "every_minute \<in> set (filter (\<lambda>r. \<not> stuck (se_cron plain_env) (-1) r) (sst_schedules (sched_state_of clogged_rows [])))"
    by (simp add: sched_state_of_def clogged_rows_def stuck_def every_minute_def cron_row_def del: upt_rec_numeral)
  ultimately have "every_minute \<in> set (filter (\<lambda>r. \<not> stuck (se_cron plain_env) (-1) r)
      (sst_schedules (foldl (\<lambda>s (fes, now, qf). tick plain_env fes now qf s) (sched_state_of clogged_rows []) ?ticks)))"
    by (simp only:)
  then have "every_minute \<in> set (sst_schedules (foldl (\<lambda>s (fes, now, qf). tick plain_env fes now qf s) (sched_state_of clogged_rows []) ?ticks))"
    by (simp only: set_filter mem_Collect_eq)
  then show ?thesis by (simp add: due_def every_minute_def cron_row_def)
qed

theorem sdk_error_texts_not_counted_witness:
  "detectResultKind reply_parse error_body = ''rate_limited'' \<and>
   (\<exists>r'. find_schedule ''s'' (sst_schedules (fireSchedule plain_env (replying (plain_fire 1) (ProxyReply 200 error_body)) (scan_schedule every_minute)
      (sched_state_of [every_minute] []))) = Some r' \<and> counters r' = (True, 0, 0))"
proof -
  have "find_schedule (sr_ID (scan_schedule every_minute)) (sst_schedules (sched_state_of [every_minute] [])) = Some every_minute"
    "\<not> at_capacity False (sr_WorkspaceID (scan_schedule every_minute)) (sst_workspaces (sched_state_of [every_minute] []))"
    "top_members (se_parse plain_env) error_body = Some [(''error'', JStr ''Rate limit reached'')]"
    by (simp_all add: demo_defs top_members_def error_body_def)
  from sdk_error_texts_not_counted [OF this(2,1,3), of "''Rate limit reached''" 200 "plain_fire 1"]
  have "\<exists>r'. find_schedule ''s'' (sst_schedules (fireSchedule plain_env (replying (plain_fire 1) (ProxyReply 200 error_body)) (scan_schedule every_minute)
      (sched_state_of [every_minute] []))) = Some r' \<and> counters r' = (True, 0, 0)"
    by (simp add: counters_def every_minute_def cron_row_def)
  moreover have "detectResultKind reply_parse error_body = ''rate_limited''"
    by code_simp
  ultimately show ?thesis by simp
qed

theorem busy_cron_hides_phantom_witness:
  "find_ws ''w'' (sst_workspaces (foldl (busy_cycle plain_env (scan_schedule every_minute)) (sched_state_of [every_minute] [busy_workspace])
     [(plain_fire 0, [5 * minute]), (plain_fire (9 * minute), [10 * minute, 15 * minute]), (plain_fire (18 * minute), [20 * minute])])) =
   Some busy_workspace"
proof -
  have "find_ws (sr_WorkspaceID (scan_schedule every_minute)) (sst_workspaces (sched_state_of [every_minute] [busy_workspace])) = Some busy_workspace"
    "(case w_max_concurrent_tasks busy_workspace of None \<Rightarrow> 1 | Some m \<Rightarrow> m) \<le> w_active_tasks busy_workspace"
    by (simp_all add: demo_defs busy_workspace_def life_row_of_def)
  from busy_cron_hides_phantom [OF this, of "[(plain_fire 0, [5 * minute]), (plain_fire (9 * minute), [10 * minute, 15 * minute]),
      (plain_fire (18 * minute), [20 * minute])]" plain_env]
  show ?thesis by (simp add: phantomStaleThreshold_def duration_defs every_minute_def cron_row_def scan_schedule_def)
qed

theorem busy_ticks_buffer_witness:
  "waiting_ticks (scan_schedule every_minute) (foldl (\<lambda>s fe. fireSchedule plain_env fe (scan_schedule every_minute) s)
     (sched_state_of [every_minute] [busy_workspace]) [plain_fire 0, plain_fire minute, plain_fire (minute + 1)]) =
   [buffered_tick plain_env (scan_schedule every_minute) (plain_fire minute)]"
proof -
  let ?s = "scan_schedule every_minute" and ?st = "sched_state_of [every_minute] [busy_workspace]"
  have "sr_ID ?s \<noteq> []" "cl_zone (se_cron plain_env) (sr_Timezone ?s)" "cl_parse (se_cron plain_env) (sr_CronExpr ?s)"
    "capacity False (sr_WorkspaceID ?s) (sst_workspaces ?st) = Some (1, 1)" "(1 :: int) \<le> 1" "waiting_ticks ?s ?st = []"
    "\<forall>fe \<in> set [plain_fire 0, plain_fire minute, plain_fire (minute + 1)]. fe_enqueue_flt fe = no_faults \<and> \<not> fe_flt fe 0"
    by (simp_all add: demo_defs busy_workspace_def life_row_of_def waiting_ticks_def)
  note run = busy_ticks_buffer [OF this refl refl, THEN conjunct1]
  have "held_tick (cl_next (se_cron plain_env) (sr_CronExpr ?s) (sr_Timezone ?s)) (plain_fire 0) [plain_fire minute, plain_fire (minute + 1)] = plain_fire minute"
    by (simp add: demo_defs duration_defs)
  with run show ?thesis by simp
qed

end
