(* ===== verification/Schedule_Props.thy ===== *)
theory Schedule_Props
  imports Schedule_Routes Scheduler_Props
begin

text \<open>
  What holds of the table of schedules under every sequence of ticks, repairs, sweeps, requests and imports:
  its indexes, next runs that are never NULL, counters that are never negative. Then the routes: a request of
  one workspace changes no schedule of another, the orphan cleaner leaves no enabled schedule on a dead
  workspace and is idempotent, with the case in which it fails for good, and a migrated schedule keeps the
  template's of the same name out.
\<close>

section \<open>The invariant of the table\<close>

definition row_ok :: "schedule_row \<Rightarrow> bool" where
  "row_ok r \<longleftrightarrow> sc_next_run_at r \<noteq> None \<and> 0 \<le> sc_run_count r \<and> 0 \<le> sc_consecutive_empty_runs r \<and> 0 \<le> sc_consecutive_sdk_errors r"

definition schedules_ok :: "schedule_row list \<Rightarrow> bool" where
  "schedules_ok rows \<longleftrightarrow> indexes_ok rows \<and> (\<forall>r \<in> set rows. row_ok r)"

definition same_keys :: "(schedule_row \<Rightarrow> schedule_row) \<Rightarrow> bool" where
  "same_keys f \<longleftrightarrow> (\<forall>r. sc_id (f r) = sc_id r \<and> sc_workspace_id (f r) = sc_workspace_id r \<and> sc_name (f r) = sc_name r)"

lemma schedules_ok_update:
  assumes "schedules_ok rows" "same_keys f" "\<And>r. row_ok r \<Longrightarrow> row_ok (f r)"
  shows "schedules_ok (update_where P f rows)"
proof -
  have "map sc_id (update_where P f rows) = map sc_id rows" "schedule_keys (update_where P f rows) = schedule_keys rows"
    using assms(2) unfolding schedule_keys_def same_keys_def by (simp_all add: map_update_where)
  then show ?thesis using assms by (auto simp: schedules_ok_def indexes_ok_def set_update_where)
qed

lemma schedules_ok_statements:
  assumes "schedules_ok rows"
  shows "schedules_ok (bump_empty now i rows)" "schedules_ok (reset_empty now i rows)" "schedules_ok (bump_sdk now i rows)"
    "schedules_ok (reset_sdk now i rows)" "schedules_ok (auto_disable now i rows)" "schedules_ok (advance_next now t i rows)"
    "schedules_ok (finish_run now i nr ls le rows)" "schedules_ok (disable_orphans now ws rows)"
  unfolding bump_empty_def reset_empty_def bump_sdk_def reset_sdk_def auto_disable_def advance_next_def finish_run_def disable_orphans_def
  by (rule schedules_ok_update [OF assms]; simp add: same_keys_def row_ok_def)+

lemma schedules_ok_track:
  "schedules_ok rows \<Longrightarrow> schedules_ok (fst (track_empty f now i em ls le rows))"
  "schedules_ok rows \<Longrightarrow> schedules_ok (track_sdk flt now i k ls rows)"
  unfolding track_empty_def track_sdk_def Let_def by (simp_all add: schedules_ok_statements)

lemma schedules_ok_after_fire: "schedules_ok (sst_schedules st) \<Longrightarrow> schedules_ok (sst_schedules (after_fire E fe sched body reply st))"
  by (simp add: after_fire_schedules Let_def schedules_ok_statements schedules_ok_track)

lemma schedules_ok_recover: "schedules_ok (sst_schedules st) \<Longrightarrow> schedules_ok (sst_schedules (recover_advance E now f sched st))"
  unfolding recover_advance_def by (simp add: schedules_ok_statements split: sum.split)

lemma schedules_ok_fire_busy: "schedules_ok (sst_schedules st) \<Longrightarrow> schedules_ok (sst_schedules (fire_busy E fe sched a st))"
  unfolding fire_busy_def Let_def by (simp add: record_rows schedules_ok_statements split: prod.split sum.split)

lemma schedules_ok_fire:
  assumes "schedules_ok (sst_schedules st)" "keeps_schedules fe"
  shows "schedules_ok (sst_schedules (fireSchedule E fe sched st))"
proof (cases "at_capacity (fe_flt fe 0) (sr_WorkspaceID sched) (sst_workspaces st)")
  case True
  then obtain a m where "capacity (fe_flt fe 0) (sr_WorkspaceID sched) (sst_workspaces st) = Some (a, m)" "m \<le> a"
    by (auto simp: at_capacity_def split: option.splits)
  then show ?thesis by (simp add: fireSchedule_busy schedules_ok_fire_busy assms(1))
next
  case False
  obtain st1 out where p: "fe_proxy fe (sr_WorkspaceID sched) (a2a_body E fe sched) st = (st1, out)" by fastforce
  then have "sst_schedules st1 = sst_schedules st" using assms(2) unfolding keeps_schedules_def by (metis fst_conv)
  then have "schedules_ok (sst_schedules st1)" using assms(1) by simp
  then show ?thesis unfolding fireSchedule_idle [OF False] p
    by (cases out) (simp_all add: schedules_ok_after_fire schedules_ok_recover)
qed

lemma schedules_ok_tick:
  assumes "schedules_ok (sst_schedules st)" "\<And>i. keeps_schedules (fes i)"
  shows "schedules_ok (sst_schedules (tick E fes now qf st))"
proof -
  have "schedules_ok (sst_schedules (fold (tick_one E fes) scheds st))" for scheds
    using assms(1)
  proof (induction scheds arbitrary: st)
    case (Cons sched scheds)
    have "schedules_ok (sst_schedules (tick_one E fes sched st))"
      unfolding tick_one_def Let_def using schedules_ok_recover [OF Cons.prems] schedules_ok_fire [OF Cons.prems] assms(2) by simp
    then show ?case using Cons.IH by simp
  qed simp
  then show ?thesis using assms(1) by (simp add: tick_def)
qed

lemma schedules_ok_repair: "schedules_ok rows \<Longrightarrow> schedules_ok (repairNullNextRunAt lib now qf flt rows)"
proof -
  have "schedules_ok (fold (repair_one lib now flt) rs rows)" if "schedules_ok rows" for rs
    using that by (induction rs arbitrary: rows) (auto simp: repair_one_def schedules_ok_statements split: sum.split)
  then show "schedules_ok rows \<Longrightarrow> ?thesis" by (simp add: repairNullNextRunAt_def)
qed

lemma exec_schedules_Some: "exec_schedules f rows = Some rows' \<Longrightarrow> rows' = rows \<and> indexes_ok rows"
  by (simp add: exec_schedules_def split: if_splits)

lemma row_ok_new: "row_ok (new_schedule now i ws n e tz p en nr src)"
  by (simp add: row_ok_def new_schedule_def)

lemma schedules_ok_create: "schedules_ok rows \<Longrightarrow> schedules_ok (snd (Schedules_Create lib now newid fault ws body workspaces rows))"
  unfolding Schedules_Create_def Let_def
  by (auto simp: schedules_ok_def row_ok_new dest!: exec_schedules_Some split: option.split sum.split)

lemma row_ok_update_where: "\<forall>r \<in> set rows. row_ok r \<Longrightarrow> (\<And>r. row_ok r \<Longrightarrow> row_ok (f r)) \<Longrightarrow> \<forall>r \<in> set (update_where P f rows). row_ok r"
  by (auto simp: set_update_where)

lemma schedules_ok_Update: "schedules_ok rows \<Longrightarrow> schedules_ok (snd (Schedules_Update lib now flt i ws body rows))"
proof -
  assume ok: "schedules_ok rows"
  have "\<forall>r \<in> set (update_schedule now i ws b nr rows). row_ok r" for b nr
    unfolding update_schedule_def by (rule row_ok_update_where) (use ok in \<open>auto simp: schedules_ok_def row_ok_def\<close>)
  with ok show ?thesis unfolding Schedules_Update_def
    by (auto simp: schedules_ok_def dest!: exec_schedules_Some split: option.split sum.split)
qed

lemma schedules_ok_delete: "schedules_ok rows \<Longrightarrow> schedules_ok (snd (Schedules_Delete flt i ws rows))"
  unfolding Schedules_Delete_def schedules_ok_def indexes_ok_def schedule_keys_def by (auto simp: Let_def distinct_map_filter)

lemma schedules_ok_reap: "schedules_ok rows \<Longrightarrow> schedules_ok (snd (ReapOrphans role now flt workspaces rows))"
proof -
  assume ok: "schedules_ok rows"
  have "\<forall>r \<in> set (repoint role now workspaces rows). row_ok r"
    using ok by (auto simp: repoint_def schedules_ok_def row_ok_def split: option.splits)
  then have "schedules_ok rows1" if "exec_schedules f (repoint role now workspaces rows) = Some rows1" for f rows1
    using exec_schedules_Some [OF that] by (simp add: schedules_ok_def)
  with ok show ?thesis unfolding ReapOrphans_def Let_def by (auto simp: schedules_ok_statements split: option.split)
qed

lemma schedules_ok_migrate: "schedules_ok rows \<Longrightarrow> schedules_ok (migrateRuntimeSchedules role now flt workspaces newID r name parentID rows)"
proof -
  assume ok: "schedules_ok rows"
  have "\<forall>r \<in> set (update_where P (\<lambda>s. s\<lparr>sc_workspace_id := newID, sc_updated_at := now\<rparr>) rows). row_ok r" for P
    by (rule row_ok_update_where) (use ok in \<open>auto simp: schedules_ok_def row_ok_def\<close>)
  with ok show ?thesis unfolding migrateRuntimeSchedules_def
    by (auto simp: schedules_ok_def dest!: exec_schedules_Some split: option.split)
qed

lemma schedules_ok_import: "schedules_ok rows \<Longrightarrow> schedules_ok (import_schedule lib now newid fault ws sched rows)"
proof -
  assume ok: "schedules_ok rows"
  have "\<forall>r \<in> set (orgImportSchedule now (new_schedule now newid ws n e tz p en nr src) rows). row_ok r" for n e tz p en nr src
    unfolding orgImportSchedule_def using ok row_ok_new
    by (auto simp: schedules_ok_def row_ok_def new_schedule_def set_update_where)
  with ok show ?thesis unfolding import_schedule_def Let_def
    by (auto simp: schedules_ok_def dest!: exec_schedules_Some split: option.split sum.split)
qed

text \<open>The operations, each as one step; a tick comes with the outcome of the proxy per schedule.\<close>

datatype sched_op =
    OpTick sched_env "uuid \<Rightarrow> fire_env" "uuid \<Rightarrow> proxy_outcome" instant bool
  | OpRepair cron_lib instant bool "uuid \<Rightarrow> bool"
  | OpPhantomSweep bool instant
  | OpCreate cron_lib instant uuid bool uuid "CreateScheduleRequest option"
  | OpUpdate cron_lib instant faults uuid uuid "UpdateScheduleRequest option"
  | OpDelete faults uuid uuid
  | OpReap "uuid \<Rightarrow> string option" instant faults
  | OpMigrate "uuid \<Rightarrow> string option" instant faults uuid "string option" string "uuid option"
  | OpImport cron_lib instant uuid bool uuid OrgSchedule

definition answering :: "(uuid \<Rightarrow> fire_env) \<Rightarrow> (uuid \<Rightarrow> proxy_outcome) \<Rightarrow> uuid \<Rightarrow> fire_env" where
  "answering fes outs i = (fes i)\<lparr>fe_proxy := \<lambda>_ _ s. (s, outs i)\<rparr>"

lemma keeps_answering: "keeps_schedules (answering fes outs i)"
  by (simp add: keeps_schedules_def answering_def)

definition on_schedules :: "(schedule_row list \<Rightarrow> schedule_row list) \<Rightarrow> sched_state \<Rightarrow> sched_state" where
  "on_schedules f st = st\<lparr>sst_schedules := f (sst_schedules st)\<rparr>"

fun sched_step :: "sched_state \<Rightarrow> sched_op \<Rightarrow> sched_state" where
  "sched_step st (OpTick E fes outs now qf) = tick E (answering fes outs) now qf st"
| "sched_step st (OpRepair lib now qf flt) = on_schedules (repairNullNextRunAt lib now qf flt) st"
| "sched_step st (OpPhantomSweep fault now) = sweepPhantomBusy fault now st"
| "sched_step st (OpCreate lib now newid fault ws body) =
     on_schedules (\<lambda>rows. snd (Schedules_Create lib now newid fault ws body (sst_workspaces st) rows)) st"
| "sched_step st (OpUpdate lib now flt i ws body) = on_schedules (\<lambda>rows. snd (Schedules_Update lib now flt i ws body rows)) st"
| "sched_step st (OpDelete flt i ws) = on_schedules (\<lambda>rows. snd (Schedules_Delete flt i ws rows)) st"
| "sched_step st (OpReap role now flt) = on_schedules (\<lambda>rows. snd (ReapOrphans role now flt (sst_workspaces st) rows)) st"
| "sched_step st (OpMigrate role now flt newID r name parentID) =
     on_schedules (migrateRuntimeSchedules role now flt (sst_workspaces st) newID r name parentID) st"
| "sched_step st (OpImport lib now newid fault ws sched) = on_schedules (import_schedule lib now newid fault ws sched) st"

lemma schedules_ok_step: "schedules_ok (sst_schedules st) \<Longrightarrow> schedules_ok (sst_schedules (sched_step st op))"
  by (cases op) (simp_all add: on_schedules_def schedules_ok_tick keeps_answering schedules_ok_repair sweepPhantomBusy_def schedules_ok_create
      schedules_ok_Update schedules_ok_delete schedules_ok_reap schedules_ok_migrate schedules_ok_import)

interpretation schedules: invariant_system sched_step "\<lambda>st. schedules_ok (sst_schedules st)"
  by unfold_locales (rule schedules_ok_step)

text \<open>C36: Through every sequence of ticks, repairs, sweeps, requests, orphan cleanings and imports, statement faults
  included, the table of schedules keeps its identifiers and its pairs of workspace and name unique, no next run
  becomes NULL, so no schedule drops out of the query of the tick, and no counter becomes negative.\<close>

theorem schedules_invariant:
  assumes "schedules_ok (sst_schedules st)"
  shows "schedules_ok (sst_schedules (foldl sched_step st ops))"
  by (rule schedules.inv_run [OF assms])

theorem schedules_invariant_witness:
  "schedules_ok (sst_schedules (foldl sched_step (sched_state_of [every_minute] [])
     [OpTick plain_env (\<lambda>_. plain_fire 1) (\<lambda>_. ProxyPanic) 1 False, OpDelete no_faults ''s'' ''other'']))"
proof -
  have "schedules_ok (sst_schedules (sched_state_of [every_minute] []))"
    by (simp add: schedules_ok_def indexes_ok_def schedule_keys_def row_ok_def demo_defs)
  from schedules_invariant [OF this] show ?thesis .
qed

section \<open>The routes of one workspace\<close>

text \<open>The schedule routes of a workspace reach its own schedules only. An update or a deletion leaves every row
  that is not the named schedule of this workspace as it is, an identifier of another workspace is answered
  404 and nothing changes, and a run request never returns the prompt of another workspace.\<close>

theorem schedule_routes_isolated:
  "filter (\<lambda>r. \<not> of_schedule i ws r) (snd (Schedules_Update lib now flt i ws body rows)) = filter (\<lambda>r. \<not> of_schedule i ws r) rows \<and>
   filter (\<lambda>r. \<not> of_schedule i ws r) (snd (Schedules_Delete flt i ws rows)) = filter (\<lambda>r. \<not> of_schedule i ws r) rows \<and>
   (count_where (of_schedule i ws) rows = 0 \<longrightarrow>
      fst (Schedules_Delete no_faults i ws rows) = ScheduleError 404 ''schedule not found'' \<and>
      snd (Schedules_Delete flt i ws rows) = rows \<and> snd (Schedules_Update lib now flt i ws body rows) = rows \<and>
      fst (Schedules_Update lib now flt i ws body rows) \<noteq> ScheduleUpdated \<and>
      Schedules_RunNow False i ws rows = ScheduleError 404 ''schedule not found'')"
proof -
  have upd: "filter (\<lambda>r. \<not> of_schedule i ws r) (update_schedule now i ws b nr rows) = filter (\<lambda>r. \<not> of_schedule i ws r) rows" for b nr
    unfolding update_schedule_def by (rule filter_update_where_unchanged) (simp add: of_schedule_def)
  have "filter (\<lambda>r. \<not> of_schedule i ws r) (snd (Schedules_Update lib now flt i ws body rows)) = filter (\<lambda>r. \<not> of_schedule i ws r) rows"
    unfolding Schedules_Update_def by (auto simp: upd dest!: exec_schedules_Some split: option.split sum.split)
  moreover have "filter (\<lambda>r. \<not> of_schedule i ws r) (snd (Schedules_Delete flt i ws rows)) = filter (\<lambda>r. \<not> of_schedule i ws r) rows"
    unfolding Schedules_Delete_def by (simp add: Let_def)
  moreover have "fst (Schedules_Delete no_faults i ws rows) = ScheduleError 404 ''schedule not found'' \<and>
      snd (Schedules_Delete flt i ws rows) = rows \<and> snd (Schedules_Update lib now flt i ws body rows) = rows \<and>
      fst (Schedules_Update lib now flt i ws body rows) \<noteq> ScheduleUpdated \<and>
      Schedules_RunNow False i ws rows = ScheduleError 404 ''schedule not found''" if none: "count_where (of_schedule i ws) rows = 0"
  proof -
    have no: "\<forall>r \<in> set rows. \<not> of_schedule i ws r" using none by (simp add: count_where_0_iff)
    have "update_schedule now i ws b nr rows = rows" for b nr
      unfolding update_schedule_def using no by (intro update_where_no_match) blast
    moreover have "select_first (of_schedule i ws) rows = None" using no by (simp add: select_first_None_iff)
    moreover have "filter (\<lambda>r. \<not> of_schedule i ws r) rows = rows" using no by (simp add: filter_id_conv)
    ultimately show ?thesis using none unfolding Schedules_Update_def Schedules_Delete_def Schedules_RunNow_def
      by (auto simp: Let_def update_next_run_def dest!: exec_schedules_Some split: option.split sum.split if_splits)
  qed
  ultimately show ?thesis by blast
qed

theorem schedule_routes_isolated_witness:
  "snd (Schedules_Delete no_faults ''s'' ''other'' [every_minute]) = [every_minute] \<and>
   Schedules_RunNow False ''s'' ''other'' [every_minute] = ScheduleError 404 ''schedule not found''"
proof -
  have "count_where (of_schedule ''s'' ''other'') [every_minute] = 0" by (simp add: of_schedule_def every_minute_def cron_row_def)
  then show ?thesis
    using schedule_routes_isolated [of "''s''" "''other''" minute_cron 0 no_faults None "[every_minute]"] by blast
qed

section \<open>Orphans\<close>

lemma live_successor_live:
  assumes "live_successor role workspaces parent r = Some i" "distinct (map w_id workspaces)"
  shows "\<exists>w. find_ws i workspaces = Some w \<and> w_status w \<noteq> StatusRemoved"
proof -
  let ?ok = "\<lambda>w. w_status w \<noteq> StatusRemoved \<and> w_parent_id w = parent \<and> r \<noteq> None \<and> role (w_id w) = r"
  let ?sorted = "sort_key (\<lambda>w. - w_updated_at w) (filter ?ok workspaces)"
  obtain w ws where w: "?sorted = w # ws" "w_id w = i"
    using assms(1) unfolding live_successor_def by (cases ?sorted) simp_all
  have "w \<in> set ?sorted" unfolding w(1) by simp
  then have "w \<in> set workspaces" "w_status w \<noteq> StatusRemoved" by auto
  with select_first_distinct [OF assms(2), of w] w(2) show ?thesis unfolding find_ws_def by auto
qed

lemma repoint_target_SomeD:
  assumes "repoint_target role workspaces rows s = Some live" "distinct (map w_id workspaces)"
  shows "orphaned workspaces s" "(live, sc_name s) \<notin> set (schedule_keys rows)" "\<exists>w. find_ws live workspaces = Some w \<and> w_status w \<noteq> StatusRemoved"
  using assms live_successor_live [OF _ assms(2)] unfolding repoint_target_def orphaned_def
  by (auto split: option.splits if_splits)

lemma disable_orphans_none: "\<not> (sc_enabled s \<and> orphaned workspaces s)" if "s \<in> set (disable_orphans now workspaces rows)"
  using that unfolding disable_orphans_def set_update_where by (auto simp: orphaned_def)

lemma repoint_alive:
  assumes "s \<in> set rows" "\<not> orphaned workspaces s" "distinct (map w_id workspaces)"
  shows "s \<in> set (repoint role now workspaces rows)"
proof -
  have "repoint_target role workspaces rows s = None"
    using repoint_target_SomeD(1) [OF _ assms(3)] assms(2) by (cases "repoint_target role workspaces rows s") auto
  then show ?thesis using assms(1) unfolding repoint_def by (force simp: image_iff)
qed

text \<open>A second pass finds nothing to move: a schedule it could move was moved, or its name was taken already.\<close>

lemma repoint_twice:
  assumes "distinct (map w_id workspaces)" "s \<in> set (disable_orphans now workspaces (repoint role now workspaces rows))"
  shows "repoint_target role workspaces (disable_orphans now workspaces (repoint role now workspaces rows)) s = None"
proof (rule ccontr)
  let ?rows1 = "repoint role now workspaces rows" and ?rows2 = "disable_orphans now workspaces (repoint role now workspaces rows)"
  assume "repoint_target role workspaces ?rows2 s \<noteq> None"
  then obtain live where live: "repoint_target role workspaces ?rows2 s = Some live" by auto
  have keys: "schedule_keys ?rows2 = schedule_keys ?rows1"
    unfolding schedule_keys_def disable_orphans_def by (rule map_update_where) simp
  obtain s1 where s1: "s1 \<in> set ?rows1" "sc_workspace_id s = sc_workspace_id s1" "sc_name s = sc_name s1" "sc_source s = sc_source s1"
    using assms(2) unfolding disable_orphans_def set_update_where by auto
  obtain s0 where s0: "s0 \<in> set rows"
    "s1 = (case repoint_target role workspaces rows s0 of None \<Rightarrow> s0 | Some l \<Rightarrow> s0\<lparr>sc_workspace_id := l, sc_updated_at := now\<rparr>)"
    using s1(1) unfolding repoint_def by auto
  have orph: "orphaned workspaces s1" using repoint_target_SomeD(1) [OF live assms(1)] s1(2) by (simp add: orphaned_def)
  have none: "repoint_target role workspaces rows s0 = None"
  proof (rule ccontr)
    assume "repoint_target role workspaces rows s0 \<noteq> None"
    then obtain l where l: "repoint_target role workspaces rows s0 = Some l" by auto
    with repoint_target_SomeD(3) [OF l assms(1)] s0(2) orph show False by (auto simp: orphaned_def)
  qed
  then have "s1 = s0" using s0(2) by simp
  have "(live, sc_name s0) \<in> set (schedule_keys rows)"
    using live none s1(2-4) \<open>s1 = s0\<close> unfolding repoint_target_def by (auto split: option.splits if_splits)
  then obtain t where t: "t \<in> set rows" "sc_workspace_id t = live" "sc_name t = sc_name s0" unfolding schedule_keys_def by auto
  have "\<not> orphaned workspaces t" using repoint_target_SomeD(3) [OF live assms(1)] t(2) by (auto simp: orphaned_def)
  from repoint_alive [OF t(1) this assms(1)] have "(live, sc_name s0) \<in> set (schedule_keys ?rows1)"
    unfolding schedule_keys_def using t(2,3) by (force simp: image_iff)
  with repoint_target_SomeD(2) [OF live assms(1)] keys s1(3) \<open>s1 = s0\<close> show False by simp
qed

text \<open>C37: When the orphan cleaner answers with its counts, no enabled schedule is bound to a removed or missing
  workspace, every schedule of a live workspace is unchanged, and a second call moves and disables nothing.\<close>

theorem ReapOrphans_complete:
  assumes "ReapOrphans role now flt workspaces rows = (Inr counts, rows')" "distinct (map w_id workspaces)"
  shows "(\<forall>s \<in> set rows'. sc_enabled s \<longrightarrow> \<not> orphaned workspaces s) \<and>
    (\<forall>s \<in> set rows. \<not> orphaned workspaces s \<longrightarrow> s \<in> set rows') \<and>
    ReapOrphans role now' no_faults workspaces rows' = (Inr (0, 0), rows')"
proof -
  let ?rows1 = "repoint role now workspaces rows"
  have rows': "rows' = disable_orphans now workspaces ?rows1" and ix: "indexes_ok ?rows1"
    using assms(1) unfolding ReapOrphans_def Let_def
    by (auto dest!: exec_schedules_Some split: option.splits if_splits)
  have a: "\<forall>s \<in> set rows'. sc_enabled s \<longrightarrow> \<not> orphaned workspaces s" using disable_orphans_none unfolding rows' by blast
  have b: "s \<in> set rows'" if "s \<in> set rows" "\<not> orphaned workspaces s" for s
    using update_where_mem [OF repoint_alive [OF that assms(2), of role now], of "\<lambda>s. sc_enabled s \<and> orphaned workspaces s"] that(2)
    unfolding rows' disable_orphans_def by (metis (no_types, lifting))
  have none: "repoint_target role workspaces rows' s = None" if "s \<in> set rows'" for s
    using repoint_twice [OF assms(2)] that unfolding rows' by blast
  then have same: "repoint role now' workspaces rows' = rows'"
    unfolding repoint_def by (simp add: map_idI)
  have "map sc_id rows' = map sc_id ?rows1" "schedule_keys rows' = schedule_keys ?rows1"
    unfolding rows' schedule_keys_def disable_orphans_def by (simp_all add: map_update_where)
  then have ix': "indexes_ok rows'" using ix by (simp add: indexes_ok_def)
  have zero: "count_where (\<lambda>s. repoint_target role workspaces rows' s \<noteq> None) rows' = 0"
    "count_where (\<lambda>s. sc_enabled s \<and> orphaned workspaces s) rows' = 0"
    using none a by (simp_all add: count_where_0_iff)
  have "disable_orphans now' workspaces rows' = rows'"
    unfolding disable_orphans_def using a by (intro update_where_no_match) blast
  then have "ReapOrphans role now' no_faults workspaces rows' = (Inr (0, 0), rows')"
    unfolding ReapOrphans_def same exec_schedules_def using ix' zero by (simp add: Let_def)
  with a b show ?thesis by blast
qed

text \<open>Two removed workspaces with the same role and parent, each with a schedule of one name, stop the orphan
  cleaner: both rows go to the same successor in one statement, the unique index refuses it, the route answers
  re-point failed, and since nothing changes every later call fails in the same way; the orphans stay enabled.\<close>

theorem ReapOrphans_blocked:
  assumes "s \<in> set rows" "t \<in> set rows" "s \<noteq> t" "sc_name s = sc_name t"
    and "repoint_target role workspaces rows s = Some live" "repoint_target role workspaces rows t = Some live"
  shows "ReapOrphans role now flt workspaces rows = (Inl ''re-point failed'', rows)"
proof -
  let ?f = "\<lambda>s. case repoint_target role workspaces rows s of None \<Rightarrow> s | Some live_id \<Rightarrow> s\<lparr>sc_workspace_id := live_id, sc_updated_at := now\<rparr>"
  let ?g = "\<lambda>r. (sc_workspace_id r, sc_name r)"
  have "\<not> distinct (map (?g \<circ> ?f) rows)"
  proof
    assume "distinct (map (?g \<circ> ?f) rows)"
    then have "inj_on (?g \<circ> ?f) (set rows)" by (simp add: distinct_map)
    moreover have "(?g \<circ> ?f) s = (?g \<circ> ?f) t" using assms(4-6) by simp
    ultimately show False using assms(1-3) by (meson inj_onD)
  qed
  then have "\<not> indexes_ok (repoint role now workspaces rows)"
    unfolding indexes_ok_def schedule_keys_def repoint_def by (simp add: comp_def)
  then show ?thesis by (simp add: ReapOrphans_def exec_schedules_def)
qed

text \<open>A schedule on each of two removed workspaces and a live successor of the first.\<close>

definition orphan_of :: "uuid \<Rightarrow> uuid \<Rightarrow> string \<Rightarrow> schedule_row" where
  "orphan_of i ws name = (cron_row i ''* * * * *'' 0)\<lparr>sc_workspace_id := ws, sc_name := name\<rparr>"

definition recreated :: "life_row list" where
  "recreated = [life_row_of ''old'' StatusRemoved, life_row_of ''older'' StatusRemoved, life_row_of ''live'' StatusOnline]"

definition pm_role :: "uuid \<Rightarrow> string option" where
  "pm_role i = Some ''pm''"

lemmas recreated_defs = orphan_of_def recreated_def pm_role_def cron_row_def life_row_of_def repoint_target_def live_successor_def find_ws_def
  schedule_keys_def

theorem ReapOrphans_complete_witness:
  "ReapOrphans pm_role 9 no_faults recreated (disable_orphans 5 recreated [(orphan_of ''a'' ''live'' ''daily'')\<lparr>sc_updated_at := 5\<rparr>]) =
     (Inr (0, 0), disable_orphans 5 recreated [(orphan_of ''a'' ''live'' ''daily'')\<lparr>sc_updated_at := 5\<rparr>])"
proof -
  have reap: "ReapOrphans pm_role 5 no_faults recreated [orphan_of ''a'' ''old'' ''daily''] =
      (Inr (1, 0), disable_orphans 5 recreated [(orphan_of ''a'' ''live'' ''daily'')\<lparr>sc_updated_at := 5\<rparr>])"
    by (simp add: ReapOrphans_def Let_def exec_schedules_def repoint_def indexes_ok_def disable_orphans_def orphaned_def recreated_defs)
  have "distinct (map w_id recreated)" by (simp add: recreated_def life_row_of_def)
  from ReapOrphans_complete [OF reap this, of 9] show ?thesis by blast
qed

theorem ReapOrphans_blocked_witness:
  "ReapOrphans pm_role 5 no_faults recreated [orphan_of ''a'' ''old'' ''daily'', orphan_of ''b'' ''older'' ''daily''] =
     (Inl ''re-point failed'', [orphan_of ''a'' ''old'' ''daily'', orphan_of ''b'' ''older'' ''daily''])"
proof -
  let ?rows = "[orphan_of ''a'' ''old'' ''daily'', orphan_of ''b'' ''older'' ''daily'']"
  have "repoint_target pm_role recreated ?rows (orphan_of ''a'' ''old'' ''daily'') = Some ''live''"
    "repoint_target pm_role recreated ?rows (orphan_of ''b'' ''older'' ''daily'') = Some ''live''"
    by (simp_all add: recreated_defs)
  from ReapOrphans_blocked [OF _ _ _ _ this, of 5 no_faults] show ?thesis by (simp add: orphan_of_def cron_row_def)
qed

section \<open>Migration and import\<close>

lemma migrate_indexes:
  assumes "indexes_ok rows"
  shows "indexes_ok (update_where (\<lambda>s. sc_workspace_id s = predID \<and> sc_source s = ''runtime'' \<and> (newID, sc_name s) \<notin> set (schedule_keys rows))
    (\<lambda>s. s\<lparr>sc_workspace_id := newID, sc_updated_at := now\<rparr>) rows)" (is "indexes_ok (update_where ?P ?f rows)")
proof -
  let ?g = "\<lambda>r. (sc_workspace_id r, sc_name r)" and ?h = "\<lambda>r. if ?P r then ?f r else r"
  have g: "inj_on ?g (set rows)" "distinct rows" using assms unfolding indexes_ok_def schedule_keys_def by (simp_all add: distinct_map)
  have "inj_on (?g \<circ> ?h) (set rows)"
  proof (rule inj_onI)
    fix x y assume x: "x \<in> set rows" and y: "y \<in> set rows" and eq: "(?g \<circ> ?h) x = (?g \<circ> ?h) y"
    have "?g x \<in> set (schedule_keys rows)" "?g y \<in> set (schedule_keys rows)" using x y unfolding schedule_keys_def by auto
    then have "?g x = ?g y" using eq by (auto split: if_splits)
    then show "x = y" using inj_onD [OF g(1) _ x y] by simp
  qed
  then have "distinct (schedule_keys (update_where ?P ?f rows))"
    using g(2) unfolding schedule_keys_def update_where_def by (simp add: distinct_map comp_def)
  moreover have "map sc_id (update_where ?P ?f rows) = map sc_id rows" by (rule map_update_where) simp
  ultimately show ?thesis using assms by (simp add: indexes_ok_def)
qed

text \<open>A schedule migrated from a removed predecessor keeps the template's of the same name out. The migration,
  which runs first, moves every runtime schedule whose name is free; the upsert of the template then finds the
  name taken by a row it may not refresh and changes nothing, whatever expression and prompt the template has.\<close>

theorem migrated_schedule_wins:
  assumes "schedules_ok rows" "s \<in> set rows" "sc_source s = ''runtime''" "(newID, sc_name s) \<notin> set (schedule_keys rows)"
    and "removed_predecessor role workspaces newID r name parentID = Some (sc_workspace_id s)"
    and "os_Name sched = sc_name s"
  shows "s\<lparr>sc_workspace_id := newID, sc_updated_at := now\<rparr> \<in> set (migrateRuntimeSchedules role now no_faults workspaces newID r name parentID rows) \<and>
    import_schedule lib now' newid fault newID sched (migrateRuntimeSchedules role now no_faults workspaces newID r name parentID rows) =
      migrateRuntimeSchedules role now no_faults workspaces newID r name parentID rows"
proof -
  let ?P = "\<lambda>x. sc_workspace_id x = sc_workspace_id s \<and> sc_source x = ''runtime'' \<and> (newID, sc_name x) \<notin> set (schedule_keys rows)"
  let ?f = "\<lambda>x. x\<lparr>sc_workspace_id := newID, sc_updated_at := now\<rparr>"
  define rows1 where "rows1 = update_where ?P ?f rows"
  have ix: "indexes_ok rows1" unfolding rows1_def using assms(1) by (intro migrate_indexes) (simp add: schedules_ok_def)
  then have mig: "migrateRuntimeSchedules role now no_faults workspaces newID r name parentID rows = rows1"
    unfolding migrateRuntimeSchedules_def using assms(5) by (simp add: exec_schedules_def rows1_def)
  have s': "?f s \<in> set rows1" using update_where_mem [OF assms(2), of ?P ?f] assms(3,4) by (simp add: rows1_def)
  have key: "(newID, sc_name s) \<in> set (schedule_keys rows1)" unfolding schedule_keys_def set_map
    by (rule image_eqI [OF _ s']) simp
  have no_template: "sc_source t = ''runtime''" if "t \<in> set rows1" "sc_workspace_id t = newID" "sc_name t = sc_name s" for t
  proof -
    have "t = ?f s"
      using ix that s' unfolding indexes_ok_def schedule_keys_def distinct_map inj_on_def by auto
    then show ?thesis using assms(3) by simp
  qed
  have "orgImportSchedule now' (new_schedule now' newid newID (sc_name s) e tz p en nr ''template'') rows1 = rows1" for e tz p en nr
    unfolding orgImportSchedule_def using key
    by (auto simp: new_schedule_def intro!: update_where_no_match dest: no_template)
  then have "import_schedule lib now' newid fault newID sched rows1 = rows1"
    unfolding import_schedule_def Let_def assms(6) by (auto dest: exec_schedules_Some split: option.split sum.split)
  with s' mig show ?thesis by simp
qed

theorem migrated_schedule_wins_witness:
  "import_schedule minute_cron 9 ''n'' False ''live'' \<lparr>os_Name = ''daily'', os_CronExpr = ''0 9 * * *'', os_Timezone = [], os_Enabled = None, os_Prompt = Some ''report''\<rparr>
     (migrateRuntimeSchedules pm_role 5 no_faults recreated ''live'' (Some ''pm'') ''live'' None [orphan_of ''a'' ''old'' ''daily'']) =
   migrateRuntimeSchedules pm_role 5 no_faults recreated ''live'' (Some ''pm'') ''live'' None [orphan_of ''a'' ''old'' ''daily'']"
proof -
  let ?s = "orphan_of ''a'' ''old'' ''daily''"
  have "schedules_ok [?s]" "?s \<in> set [?s]" "sc_source ?s = ''runtime''" "(''live'', sc_name ?s) \<notin> set (schedule_keys [?s])"
    "removed_predecessor pm_role recreated ''live'' (Some ''pm'') ''live'' None = Some (sc_workspace_id ?s)"
    by (simp_all add: schedules_ok_def indexes_ok_def row_ok_def removed_predecessor_def recreated_defs)
  from migrated_schedule_wins [OF this, of "\<lparr>os_Name = ''daily'', os_CronExpr = ''0 9 * * *'', os_Timezone = [], os_Enabled = None, os_Prompt = Some ''report''\<rparr>"
      5 minute_cron 9 "''n''" False]
  show ?thesis by (simp add: orphan_of_def)
qed

end
