(* ===== verification/Orphan_Sweeper.thy ===== *)
theory Orphan_Sweeper
  imports Lifecycle_Props
begin

text \<open>
  \<^verbatim>\<open>internal/registry/orphan_sweeper.go\<close>: the three passes that reconcile Docker containers, workspace rows and
  tokens. The container runtime is the record \<open>reaper\<close>: what its listings return (\<^term>\<open>None\<close> for an error) and which
  stops succeed; a pass returns the calls it makes. Each pass skips the rows of its query whose \<^verbatim>\<open>Scan\<close> fails, given
  by their positions. The column \<^verbatim>\<open>created_at\<close> of the tokens is a function. The lemmas say that no container of a
  live workspace is stopped while the rows of the second pass can be read, that one that cannot be read costs a live
  workspace its container and volume, and that the token pass, a query and a loop, is one exact
  update, which spares the external runtime but not the runtimes like it.
\<close>

section \<open>Identifiers\<close>

definition hex_or_dash :: "char \<Rightarrow> bool" where
  "hex_or_dash c = (let n = (of_char c :: nat) in
     (48 \<le> n \<and> n \<le> 57) \<or> (97 \<le> n \<and> n \<le> 102) \<or> (65 \<le> n \<and> n \<le> 70) \<or> n = 45)"

definition isLikelyWorkspaceID :: "string \<Rightarrow> bool" where
  "isLikelyWorkspaceID s \<longleftrightarrow> s \<noteq> [] \<and> list_all hex_or_dash s"

text \<open>\<^verbatim>\<open>id LIKE ANY (p || '%')\<close>; the patterns have no other wildcard.\<close>

definition like_any :: "string list \<Rightarrow> string \<Rightarrow> bool" where
  "like_any prefixes i = list_ex (\<lambda>p. has_prefix p i) prefixes"

section \<open>The passes over containers\<close>

datatype reap_call = StopContainer uuid | RemoveVolume uuid

record reaper =
  rp_containers :: "string list option"
  rp_managed :: "string list option"
  rp_stop_ok :: "uuid \<Rightarrow> bool"

definition reap :: "reaper \<Rightarrow> uuid \<Rightarrow> reap_call list" where
  "reap rp i = StopContainer i # (if rp_stop_ok rp i then [RemoveVolume i] else [])"

text \<open>The rows a loop over a result reads: those whose \<^verbatim>\<open>Scan\<close> succeeds.\<close>

definition scanned :: "(nat \<Rightarrow> bool) \<Rightarrow> 'a list \<Rightarrow> 'a list" where
  "scanned scanFails rows = map snd (filter (\<lambda>(n, _). \<not> scanFails n) (enumerate 0 rows))"

definition sweepRemovedRows :: "faults \<Rightarrow> (nat \<Rightarrow> bool) \<Rightarrow> reaper \<Rightarrow> life_row list \<Rightarrow> reap_call list" where
  "sweepRemovedRows flt scanFails rp rows =
     (case rp_containers rp of
        None \<Rightarrow> []
      | Some prefixes \<Rightarrow>
          let likes = filter isLikelyWorkspaceID prefixes in
          if likes = [] \<or> flt 0 \<or> flt 1 then []
          else let orphanIDs = scanned scanFails (map w_id (filter (\<lambda>r. w_status r = StatusRemoved \<and> like_any likes (w_id r)) rows))
               in concat (map (reap rp) orphanIDs))"

definition sweepLabeledOrphansWithoutRows :: "faults \<Rightarrow> (nat \<Rightarrow> bool) \<Rightarrow> reaper \<Rightarrow> life_row list \<Rightarrow> reap_call list" where
  "sweepLabeledOrphansWithoutRows flt scanFails rp rows =
     (case rp_managed rp of
        None \<Rightarrow> []
      | Some managedPrefixes \<Rightarrow>
          let keep = filter isLikelyWorkspaceID managedPrefixes in
          if keep = [] \<or> flt 0 \<or> flt 1 then []
          else let known = scanned scanFails (filter (\<lambda>p. list_ex (\<lambda>r. has_prefix p (w_id r)) rows) keep)
               in concat (map (reap rp) (filter (\<lambda>p. p \<notin> set known) keep)))"

section \<open>The pass over tokens\<close>

definition staleTokenGrace :: duration where "staleTokenGrace = 5 * minute"

definition token_stale :: "(string \<Rightarrow> instant) \<Rightarrow> instant \<Rightarrow> ws_token \<Rightarrow> bool" where
  "token_stale created now t \<longleftrightarrow> (case wt_last_used_at t of None \<Rightarrow> created (wt_id t) | Some u \<Rightarrow> u) < now - staleTokenGrace"

text \<open>The conditions of the query on the workspace; \<^verbatim>\<open>NOT IN\<close> is not true of a NULL runtime.\<close>

definition without_container :: "string list \<Rightarrow> life_row list \<Rightarrow> uuid \<Rightarrow> bool" where
  "without_container likes rows i =
     (list_ex (\<lambda>w. w_id w = i \<and> w_status w \<noteq> StatusRemoved \<and> w_status w \<noteq> StatusProvisioning \<and>
         (case w_runtime w of None \<Rightarrow> False | Some rt \<Rightarrow> rt \<noteq> ''external'' \<and> rt \<noteq> ''mock'')) rows \<and>
      (likes = [] \<or> \<not> like_any likes i))"

definition stale_workspaces :: "(string \<Rightarrow> instant) \<Rightarrow> instant \<Rightarrow> string list \<Rightarrow> life_row list \<Rightarrow> ws_token list \<Rightarrow> uuid list" where
  "stale_workspaces created now likes rows tokens =
     remdups (map wt_workspace_id (filter (\<lambda>t. wt_revoked_at t = None \<and> without_container likes rows (wt_workspace_id t) \<and>
        token_stale created now t) tokens))"

definition revoke_stale :: "(string \<Rightarrow> instant) \<Rightarrow> instant \<Rightarrow> uuid \<Rightarrow> ws_token list \<Rightarrow> ws_token list" where
  "revoke_stale created now ws tokens =
     update_where (\<lambda>t. wt_workspace_id t = ws \<and> wt_revoked_at t = None \<and> token_stale created now t)
       (\<lambda>t. t\<lparr>wt_revoked_at := Some now\<rparr>) tokens"

text \<open>The loop leaves at the first failed update. Before each one \<open>intf\<close> applies what other callers wrote.\<close>

fun revoke_loop ::
  "(string \<Rightarrow> instant) \<Rightarrow> (nat \<Rightarrow> instant) \<Rightarrow> faults \<Rightarrow> (nat \<Rightarrow> ws_token list \<Rightarrow> ws_token list) \<Rightarrow> nat \<Rightarrow> uuid list \<Rightarrow>
   ws_token list \<Rightarrow> ws_token list" where
  "revoke_loop created clock flt intf k [] tokens = tokens"
| "revoke_loop created clock flt intf k (ws # wss) tokens =
     (if flt k then intf k tokens
      else revoke_loop created clock flt intf (Suc k) wss (revoke_stale created (clock k) ws (intf k tokens)))"

definition sweepStaleTokensWithoutContainer ::
  "(string \<Rightarrow> instant) \<Rightarrow> (nat \<Rightarrow> instant) \<Rightarrow> faults \<Rightarrow> (nat \<Rightarrow> bool) \<Rightarrow> (nat \<Rightarrow> ws_token list \<Rightarrow> ws_token list) \<Rightarrow> reaper \<Rightarrow>
   life_row list \<Rightarrow> ws_token list \<Rightarrow> ws_token list" where
  "sweepStaleTokensWithoutContainer created clock flt scanFails intf rp rows tokens =
     (case rp_containers rp of
        None \<Rightarrow> tokens
      | Some prefixes \<Rightarrow>
          let likes = filter isLikelyWorkspaceID prefixes in
          if flt 0 \<or> flt 1 then tokens
          else revoke_loop created clock flt intf 2 (scanned scanFails (stale_workspaces created (clock 0) likes rows tokens)) tokens)"

text \<open>One cycle: the three passes in order, none of which stops the others.\<close>

definition orphan_sweepOnce ::
  "(string \<Rightarrow> instant) \<Rightarrow> (nat \<Rightarrow> instant) \<Rightarrow> (nat \<Rightarrow> faults) \<Rightarrow> (nat \<Rightarrow> nat \<Rightarrow> bool) \<Rightarrow> (nat \<Rightarrow> ws_token list \<Rightarrow> ws_token list) \<Rightarrow>
   reaper \<Rightarrow> life_row list \<Rightarrow> ws_token list \<Rightarrow> reap_call list \<times> ws_token list" where
  "orphan_sweepOnce created clock flts scans intf rp rows tokens =
     (sweepRemovedRows (flts 0) (scans 0) rp rows @ sweepLabeledOrphansWithoutRows (flts 1) (scans 1) rp rows,
      sweepStaleTokensWithoutContainer created clock (flts 2) (scans 2) intf rp rows tokens)"

section \<open>Containers of live workspaces\<close>

lemma scanned_subset: "set (scanned scanFails rows) \<subseteq> set rows"
  by (auto simp: scanned_def in_set_enumerate_eq)

lemma scanned_all: "(\<And>n. \<not> scanFails n) \<Longrightarrow> scanned scanFails rows = rows"
  by (simp add: scanned_def)

text \<open>The identifiers the two passes stop, in order.\<close>

definition removed_orphans :: "faults \<Rightarrow> (nat \<Rightarrow> bool) \<Rightarrow> reaper \<Rightarrow> life_row list \<Rightarrow> string list" where
  "removed_orphans flt scanFails rp rows =
     (case rp_containers rp of None \<Rightarrow> [] | Some prefixes \<Rightarrow>
        if filter isLikelyWorkspaceID prefixes = [] \<or> flt 0 \<or> flt 1 then []
        else scanned scanFails (map w_id (filter (\<lambda>r. w_status r = StatusRemoved \<and> like_any (filter isLikelyWorkspaceID prefixes) (w_id r)) rows)))"

definition rowless_orphans :: "faults \<Rightarrow> (nat \<Rightarrow> bool) \<Rightarrow> reaper \<Rightarrow> life_row list \<Rightarrow> string list" where
  "rowless_orphans flt scanFails rp rows =
     (case rp_managed rp of None \<Rightarrow> [] | Some prefixes \<Rightarrow>
        if filter isLikelyWorkspaceID prefixes = [] \<or> flt 0 \<or> flt 1 then []
        else filter (\<lambda>p. p \<notin> set (scanned scanFails (filter (\<lambda>p. list_ex (\<lambda>r. has_prefix p (w_id r)) rows) (filter isLikelyWorkspaceID prefixes))))
               (filter isLikelyWorkspaceID prefixes))"

lemma orphan_sweepOnce_calls:
  "fst (orphan_sweepOnce created clock flts scans intf rp rows tokens) =
    concat (map (reap rp) (removed_orphans (flts 0) (scans 0) rp rows @ rowless_orphans (flts 1) (scans 1) rp rows))"
  by (simp add: orphan_sweepOnce_def sweepRemovedRows_def sweepLabeledOrphansWithoutRows_def removed_orphans_def rowless_orphans_def Let_def
      split: option.split)

lemma removed_orphans_removed: "i \<in> set (removed_orphans flt scanFails rp rows) \<Longrightarrow> \<exists>r \<in> set rows. w_id r = i \<and> w_status r = StatusRemoved"
  using scanned_subset by (fastforce simp: removed_orphans_def split: option.splits if_splits)

lemma rowless_orphans_rowless:
  assumes "i \<in> set (rowless_orphans flt scanFails rp rows)" "\<And>n. \<not> scanFails n" "w \<in> set rows"
  shows "\<not> has_prefix i (w_id w)"
  using assms by (auto simp: rowless_orphans_def scanned_all list_ex_iff split: option.splits if_splits)

lemma has_prefix_same_length: "has_prefix p s \<Longrightarrow> length p = length s \<Longrightarrow> p = s"
  by (auto simp: has_prefix_def)

text \<open>C38: A cycle of the orphan sweeper stops nothing that is alive, as long as every row of the query of its second
  pass can be read. It stops identifiers one after the other, each followed at once by the removal of its volume if
  the stop succeeded, and makes no other call. With unique workspace identifiers of one length, none of
  the stopped identifiers is a prefix of the identifier of a workspace that is not removed. When the statements of the
  first pass succeed and its rows can be read, every removed workspace with a listed container is among them.\<close>

theorem orphan_sweep_spares_live:
  assumes "distinct (map w_id rows)" "\<forall>w \<in> set rows. length (w_id w) = len" "\<forall>n. \<not> scans 1 n"
  shows "\<exists>ids. fst (orphan_sweepOnce created clock flts scans intf rp rows tokens) =
      concat (map (\<lambda>i. StopContainer i # (if rp_stop_ok rp i then [RemoveVolume i] else [])) ids) \<and>
    (\<forall>i \<in> set ids. \<forall>w \<in> set rows. w_status w \<noteq> StatusRemoved \<longrightarrow> \<not> has_prefix i (w_id w)) \<and>
    (flts 0 = no_faults \<and> (\<forall>n. \<not> scans 0 n) \<longrightarrow>
       (\<forall>prefixes p w. rp_containers rp = Some prefixes \<and> p \<in> set prefixes \<and> isLikelyWorkspaceID p \<and>
          w \<in> set rows \<and> w_status w = StatusRemoved \<and> has_prefix p (w_id w) \<longrightarrow> w_id w \<in> set ids))"
proof -
  let ?ids = "removed_orphans (flts 0) (scans 0) rp rows @ rowless_orphans (flts 1) (scans 1) rp rows"
  have calls: "fst (orphan_sweepOnce created clock flts scans intf rp rows tokens) =
      concat (map (\<lambda>i. StopContainer i # (if rp_stop_ok rp i then [RemoveVolume i] else [])) ?ids)"
    unfolding orphan_sweepOnce_calls by (simp add: reap_def [abs_def])
  have spared: "\<not> has_prefix i (w_id w)" if "i \<in> set ?ids" "w \<in> set rows" "w_status w \<noteq> StatusRemoved" for i w
  proof (cases "i \<in> set (removed_orphans (flts 0) (scans 0) rp rows)")
    case True
    then obtain r where r: "r \<in> set rows" "w_id r = i" "w_status r = StatusRemoved" using removed_orphans_removed by blast
    with that assms(1) have "i \<noteq> w_id w" by (auto simp: distinct_map dest: inj_onD)
    moreover have "length i = length (w_id w)" using r that(2) assms(2) by auto
    ultimately show ?thesis using has_prefix_same_length by blast
  next
    case False
    with that(1) have "i \<in> set (rowless_orphans (flts 1) (scans 1) rp rows)" by simp
    then show ?thesis by (rule rowless_orphans_rowless [OF _ _ that(2)]) (use assms(3) in blast)
  qed
  have found: "w_id w \<in> set ?ids"
    if "flts 0 = no_faults" "\<forall>n. \<not> scans 0 n" "rp_containers rp = Some prefixes" "p \<in> set prefixes" "isLikelyWorkspaceID p"
      "w \<in> set rows" "w_status w = StatusRemoved" "has_prefix p (w_id w)" for prefixes p w
  proof -
    have "p \<in> set (filter isLikelyWorkspaceID prefixes)" using that by simp
    moreover then have "like_any (filter isLikelyWorkspaceID prefixes) (w_id w)" using that(8) by (auto simp: like_any_def list_ex_iff)
    ultimately have "w_id w \<in> set (removed_orphans (flts 0) (scans 0) rp rows)"
      using that by (auto simp: removed_orphans_def scanned_all no_faults_def filter_empty_conv)
    then show ?thesis by simp
  qed
  show ?thesis by (rule exI [of _ ?ids]) (use calls spared found in blast)
qed

text \<open>
  One row of the second pass that cannot be read makes its prefix look like an orphan: the container of a live
  workspace is stopped and its volume removed.
\<close>

lemma scan_failure_reaps_live:
  assumes "w \<in> set rows" "w_status w = StatusOnline" "isLikelyWorkspaceID p" "has_prefix p (w_id w)"
    "rp_managed rp = Some [p]" "rp_stop_ok rp p" "flts 1 = no_faults" "scans 1 0"
  shows "{StopContainer p, RemoveVolume p} \<subseteq> set (fst (orphan_sweepOnce created clock flts scans intf rp rows tokens))"
proof -
  have "list_ex (\<lambda>r. has_prefix p (w_id r)) rows" using assms(1,4) by (auto simp: list_ex_iff)
  then have "rowless_orphans (flts 1) (scans 1) rp rows = [p]"
    using assms by (simp add: rowless_orphans_def scanned_def no_faults_def)
  then show ?thesis using assms(6) unfolding orphan_sweepOnce_calls by (simp add: reap_def)
qed

theorem orphan_sweep_spares_live_witness:
  "\<exists>ids. fst (orphan_sweepOnce (\<lambda>_. 0) (\<lambda>_. 9) (\<lambda>_. no_faults) (\<lambda>_ _. False) (\<lambda>_ ts. ts)
      \<lparr>rp_containers = Some [''a1'', ''b2''], rp_managed = Some [''b2'', ''c3''], rp_stop_ok = \<lambda>_. True\<rparr>
      [life_row_of ''a1'' StatusRemoved, life_row_of ''b2'' StatusOnline] []) =
     concat (map (\<lambda>i. StopContainer i # (if True then [RemoveVolume i] else [])) ids) \<and> ''a1'' \<in> set ids \<and> ''b2'' \<notin> set ids"
proof -
  let ?rows = "[life_row_of ''a1'' StatusRemoved, life_row_of ''b2'' StatusOnline]"
    and ?rp = "\<lparr>rp_containers = Some [''a1'', ''b2''], rp_managed = Some [''b2'', ''c3''], rp_stop_ok = \<lambda>_ :: uuid. True\<rparr>"
  have "distinct (map w_id ?rows)" "\<forall>w \<in> set ?rows. length (w_id w) = 2" "\<forall>n. \<not> (\<lambda>_ _. False) 1 n" by (simp_all add: life_row_of_def)
  from orphan_sweep_spares_live [where scans = "\<lambda>_ _. False" and flts = "\<lambda>_. no_faults" and rp = ?rp and created = "\<lambda>_. 0" and
      clock = "\<lambda>_. 9" and intf = "\<lambda>_ ts. ts" and tokens = "[]", OF this]
  obtain ids where ids: "fst (orphan_sweepOnce (\<lambda>_. 0) (\<lambda>_. 9) (\<lambda>_. no_faults) (\<lambda>_ _. False) (\<lambda>_ ts. ts) ?rp ?rows []) =
      concat (map (\<lambda>i. StopContainer i # (if rp_stop_ok ?rp i then [RemoveVolume i] else [])) ids)"
    "\<forall>i \<in> set ids. \<forall>w \<in> set ?rows. w_status w \<noteq> StatusRemoved \<longrightarrow> \<not> has_prefix i (w_id w)"
    "\<forall>prefixes p w. rp_containers ?rp = Some prefixes \<and> p \<in> set prefixes \<and> isLikelyWorkspaceID p \<and>
          w \<in> set ?rows \<and> w_status w = StatusRemoved \<and> has_prefix p (w_id w) \<longrightarrow> w_id w \<in> set ids"
    by auto
  have "''b2'' \<notin> set ids" using ids(2) by (auto simp: life_row_of_def has_prefix_def)
  moreover have "w_id (life_row_of ''a1'' StatusRemoved) \<in> set ids"
    using ids(3) [rule_format, of "[''a1'', ''b2'']" "''a1''" "life_row_of ''a1'' StatusRemoved"]
    by (simp add: isLikelyWorkspaceID_def hex_or_dash_def has_prefix_def life_row_of_def)
  ultimately show ?thesis using ids(1) by (intro exI [of _ ids]) (simp add: life_row_of_def)
qed

section \<open>The token pass as one update\<close>

abbreviation revoked :: "instant \<Rightarrow> ws_token \<Rightarrow> ws_token" where
  "revoked now t \<equiv> t\<lparr>wt_revoked_at := Some now\<rparr>"

lemma revoke_loop_quiet:
  assumes "\<And>k. \<not> flt k" "\<And>k. clock k = now"
  shows "revoke_loop created clock flt (\<lambda>_ ts. ts) k wss tokens =
    update_where (\<lambda>t. wt_workspace_id t \<in> set wss \<and> wt_revoked_at t = None \<and> token_stale created now t) (revoked now) tokens"
proof (induction wss arbitrary: k tokens)
  case (Cons ws wss)
  have "revoke_loop created clock flt (\<lambda>_ ts. ts) k (ws # wss) tokens =
      revoke_loop created clock flt (\<lambda>_ ts. ts) (Suc k) wss (revoke_stale created now ws tokens)"
    using assms by simp
  also have "\<dots> = update_where (\<lambda>t. wt_workspace_id t \<in> set wss \<and> wt_revoked_at t = None \<and> token_stale created now t) (revoked now)
      (revoke_stale created now ws tokens)"
    by (rule Cons.IH)
  also have "\<dots> = update_where (\<lambda>t. wt_workspace_id t \<in> set (ws # wss) \<and> wt_revoked_at t = None \<and> token_stale created now t) (revoked now) tokens"
    by (auto simp: revoke_stale_def update_where_def token_stale_def)
  finally show ?case .
qed (simp add: update_where_no_match)

lemma update_where_cong: "(\<And>r. r \<in> set rows \<Longrightarrow> P r = Q r) \<Longrightarrow> update_where P f rows = update_where Q f rows"
  by (induction rows) auto

text \<open>Without faults, unreadable rows and interference the query and the loop of the token pass are one update: exactly the live
  tokens unused, or if never used issued, more than five minutes ago are revoked whose workspace exists, is
  neither removed nor provisioning, has a runtime other than external and mock, and no listed container.\<close>

theorem stale_token_sweep_exact:
  assumes "rp_containers rp = Some prefixes" "\<And>k. \<not> flt k" "\<And>k. clock k = now" "\<And>n. \<not> scanFails n"
  shows "sweepStaleTokensWithoutContainer created clock flt scanFails (\<lambda>_ ts. ts) rp rows tokens =
    update_where (\<lambda>t. wt_revoked_at t = None \<and> token_stale created now t \<and>
        without_container (filter isLikelyWorkspaceID prefixes) rows (wt_workspace_id t)) (revoked now) tokens"
proof -
  let ?likes = "filter isLikelyWorkspaceID prefixes"
  have "sweepStaleTokensWithoutContainer created clock flt scanFails (\<lambda>_ ts. ts) rp rows tokens =
    revoke_loop created clock flt (\<lambda>_ ts. ts) 2 (stale_workspaces created now ?likes rows tokens) tokens"
    using assms by (simp add: sweepStaleTokensWithoutContainer_def Let_def scanned_all)
  also have "\<dots> = update_where (\<lambda>t. wt_workspace_id t \<in> set (stale_workspaces created now ?likes rows tokens) \<and> wt_revoked_at t = None \<and>
      token_stale created now t) (revoked now) tokens"
    by (rule revoke_loop_quiet [OF assms(2,3)])
  also have "\<dots> = update_where (\<lambda>t. wt_revoked_at t = None \<and> token_stale created now t \<and> without_container ?likes rows (wt_workspace_id t))
      (revoked now) tokens"
    by (rule update_where_cong) (auto simp: stale_workspaces_def)
  finally show ?thesis .
qed

text \<open>A token issued while the pass runs, by a restart of the same workspace, is fresh at every update and stays.\<close>

lemma fresh_token_survives:
  assumes "\<And>k. \<not> token_stale created (clock k) t" "\<And>k ts. t \<in> set (intf k ts)" "wss \<noteq> []"
  shows "t \<in> set (revoke_loop created clock flt intf k wss tokens)"
proof -
  have keep: "t \<in> set (revoke_stale created (clock k) ws ts)" if "t \<in> set ts" for k ws ts
    using update_where_mem [OF that, of "\<lambda>t. wt_workspace_id t = ws \<and> wt_revoked_at t = None \<and> token_stale created (clock k) t" "revoked (clock k)"]
      assms(1) by (simp add: revoke_stale_def)
  have "t \<in> set tokens \<or> wss \<noteq> [] \<Longrightarrow> t \<in> set (revoke_loop created clock flt intf k wss tokens)" for k tokens
    by (induction wss arbitrary: k tokens) (auto simp: assms(2) keep)
  then show ?thesis using assms(3) by blast
qed

text \<open>A workspace of a runtime like external has no container either, and loses its token after five silent minutes.\<close>

lemma external_like_token_revoked:
  assumes "w_status w = StatusOnline" "w_runtime w = Some ''kimi''" "wt_revoked_at t = None" "wt_workspace_id t = w_id w" "token_stale created now t"
    and "rp_containers rp = Some []"
  shows "isExternalLikeRuntime ''kimi'' \<and>
    sweepStaleTokensWithoutContainer created (\<lambda>_. now) no_faults (\<lambda>_. False) (\<lambda>_ ts. ts) rp [w] [t] = [revoked now t]"
  using assms unfolding sweepStaleTokensWithoutContainer_def
  by (simp add: scanned_all isExternalLikeRuntime_def externalLikeRuntimes_def stale_workspaces_def without_container_def revoke_stale_def Let_def)

theorem stale_token_sweep_exact_witness:
  "sweepStaleTokensWithoutContainer (\<lambda>_. 0) (\<lambda>_. 9 * minute) no_faults (\<lambda>_. False) (\<lambda>_ ts. ts)
     \<lparr>rp_containers = Some [''b2''], rp_managed = None, rp_stop_ok = \<lambda>_. True\<rparr> [life_row_of ''a1'' StatusOnline, life_row_of ''b2'' StatusOnline]
     [\<lparr>wt_id = ''1'', wt_workspace_id = ''a1'', wt_token_hash = ''h'', wt_prefix = [], wt_kind = ''instance'', wt_last_used_at = None, wt_revoked_at = None\<rparr>,
      \<lparr>wt_id = ''2'', wt_workspace_id = ''b2'', wt_token_hash = ''i'', wt_prefix = [], wt_kind = ''instance'', wt_last_used_at = None, wt_revoked_at = None\<rparr>] =
   [\<lparr>wt_id = ''1'', wt_workspace_id = ''a1'', wt_token_hash = ''h'', wt_prefix = [], wt_kind = ''instance'', wt_last_used_at = None, wt_revoked_at = Some (9 * minute)\<rparr>,
    \<lparr>wt_id = ''2'', wt_workspace_id = ''b2'', wt_token_hash = ''i'', wt_prefix = [], wt_kind = ''instance'', wt_last_used_at = None, wt_revoked_at = None\<rparr>]"
proof -
  have "rp_containers \<lparr>rp_containers = Some [''b2''], rp_managed = None, rp_stop_ok = \<lambda>_ :: uuid. True\<rparr> = Some [''b2'']" by simp
  from stale_token_sweep_exact [OF this, of no_faults "\<lambda>_. 9 * minute" "9 * minute" "\<lambda>_. False" "\<lambda>_. 0"] show ?thesis
    by (simp add: no_faults_def token_stale_def staleTokenGrace_def without_container_def like_any_def isLikelyWorkspaceID_def hex_or_dash_def
        has_prefix_def life_row_of_def duration_defs)
qed

end
