(* ===== verification/Delegation_Routes.thy ===== *)
theory Delegation_Routes
  imports Delegation_Props A2A_Queue
begin

text \<open>
  \<^verbatim>\<open>internal/handlers/delegation.go\<close>: the routes over delegations and the goroutine that runs one. A delegation
  has a row of \<^verbatim>\<open>activity_logs\<close> with method \<^verbatim>\<open>delegate\<close>, a row \<^verbatim>\<open>delegate_result\<close> for its outcome, and a mirror in
  the ledger, written through the gated writers of the ledger theory. The proxy calls of the goroutine are
  given by their results, with what others write meanwhile; JSON coding and UUID parsing are functions.
\<close>

section \<open>Rows and state\<close>

record del_row =
  da_workspace_id :: uuid
  da_activity_type :: string
  da_method :: string
  da_source_id :: uuid
  da_target_id :: "uuid option"
  da_summary :: string
  da_request_body :: "json option"
  da_response_body :: "json option"
  da_status :: string
  da_error_detail :: "string option"
  da_idempotency_key :: "string option"
  da_created_at :: instant

datatype delegation_event =
    EventDelegationSent uuid string uuid string
  | EventDelegationStatus uuid string uuid string
  | EventDelegationFailed uuid string "uuid option" string
  | EventDelegationComplete uuid string "uuid option" string

record del_state =
  dl_rows :: "del_row list"
  dl_ledger :: ledger
  dl_events :: "delegation_event list"

text \<open>The partial unique index on workspace and idempotency key.\<close>

definition same_idempotency :: "uuid \<Rightarrow> string \<Rightarrow> del_row \<Rightarrow> bool" where
  "same_idempotency ws key r \<longleftrightarrow> da_workspace_id r = ws \<and> da_idempotency_key r = Some key"

definition delegation_id_of :: "del_row \<Rightarrow> string option" where
  "delegation_id_of r = json_text (da_request_body r) ''delegation_id''"

text \<open>The environment of a call: variables, clock, the faults of its statements and of the ledger's.\<close>

record del_env =
  dv_getenv :: "string \<Rightarrow> string"
  dv_now :: instant
  dv_flt :: faults
  dv_ledger_flt :: faults
  dv_parse :: "string \<Rightarrow> json option"
  dv_is_uuid :: "string \<Rightarrow> bool"

definition emit_delegation :: "delegation_event \<Rightarrow> del_state \<Rightarrow> del_state" where
  "emit_delegation ev st = st\<lparr>dl_events := dl_events st @ [ev]\<rparr>"

definition add_row :: "bool \<Rightarrow> del_row \<Rightarrow> del_state \<Rightarrow> del_state" where
  "add_row fault r st = (if fault then st else st\<lparr>dl_rows := dl_rows st @ [r]\<rparr>)"

definition mirror_status :: "del_env \<Rightarrow> string \<Rightarrow> string \<Rightarrow> string \<Rightarrow> string \<Rightarrow> del_state \<Rightarrow> del_state" where
  "mirror_status V i status err preview st =
     st\<lparr>dl_ledger := recordLedgerStatus (dv_getenv V) (dv_ledger_flt V) (dv_now V) (dl_ledger st) i status err preview\<rparr>"

section \<open>Status, results and the inbox\<close>

definition mirrored_statuses :: "string list" where
  "mirrored_statuses = [''queued'', ''dispatched'', ''in_progress'', ''completed'', ''failed'', ''stuck'']"

definition delegation_of :: "uuid \<Rightarrow> string \<Rightarrow> del_row \<Rightarrow> bool" where
  "delegation_of ws i r \<longleftrightarrow> da_workspace_id r = ws \<and> da_method r = ''delegate'' \<and> delegation_id_of r = Some i"

definition set_del_status :: "string \<Rightarrow> string \<Rightarrow> del_row \<Rightarrow> del_row" where
  "set_del_status status err r = r\<lparr>da_status := status, da_error_detail := (if err = [] then da_error_detail r else Some err)\<rparr>"

definition updateDelegationStatus :: "del_env \<Rightarrow> bool \<Rightarrow> uuid \<Rightarrow> string \<Rightarrow> string \<Rightarrow> string \<Rightarrow> del_state \<Rightarrow> del_state" where
  "updateDelegationStatus V fault ws i status err st =
     (let st1 = (if fault then st
                 else st\<lparr>dl_rows := update_where
                        (delegation_of ws i) (set_del_status status err)
                        (dl_rows st)\<rparr>)
      in if List.member mirrored_statuses status then mirror_status V i status err [] st1 else st1)"

definition result_row ::
  "instant \<Rightarrow> uuid \<Rightarrow> uuid option \<Rightarrow> string \<Rightarrow> json option \<Rightarrow> string \<Rightarrow> string option \<Rightarrow> del_row" where
  "result_row now source target summary resp status err =
     \<lparr>da_workspace_id = source, da_activity_type = ''delegation'', da_method = ''delegate_result'', da_source_id = source,
      da_target_id = target, da_summary = summary, da_request_body = None, da_response_body = resp, da_status = status,
      da_error_detail = err, da_idempotency_key = None, da_created_at = now\<rparr>"

definition delegationResultInboxPushEnabled :: "(string \<Rightarrow> string) \<Rightarrow> bool" where
  "delegationResultInboxPushEnabled getenv \<longleftrightarrow> getenv ''DELEGATION_RESULT_INBOX_PUSH'' = ''1''"

definition pushDelegationResultToInbox :: "del_env \<Rightarrow> bool \<Rightarrow> uuid \<Rightarrow> string \<Rightarrow> string \<Rightarrow> string \<Rightarrow> string \<Rightarrow> del_state \<Rightarrow> del_state" where
  "pushDelegationResultToInbox V fault source i status preview err st =
     (if \<not> delegationResultInboxPushEnabled (dv_getenv V) then st
      else add_row fault
        \<lparr>da_workspace_id = source, da_activity_type = ''a2a_receive'', da_method = ''delegate_result'', da_source_id = source,
         da_target_id = None, da_summary = (if status = ''failed'' then ''Delegation failed'' else ''Delegation result delivered''),
         da_request_body = Some (JObj [(''delegation_id'', JStr i)]),
         da_response_body = Some (JObj [(''text'', JStr preview), (''delegation_id'', JStr i)]),
         da_status = (if status = ''failed'' then ''error'' else ''ok''), da_error_detail = nullif_empty err,
         da_idempotency_key = None, da_created_at = dv_now V\<rparr> st)"

section \<open>Reading proxy results\<close>

text \<open>The error of the proxy with the members of its response that are read here.\<close>

record proxy_failure = proxyA2AError +
  pf_restarting :: bool

definition proxy_error_text :: "proxy_failure \<Rightarrow> string" where
  "proxy_error_text e =
     (let base = (case pe_error e of None \<Rightarrow> ''proxy a2a error'' | Some m \<Rightarrow> if m = [] then ''proxy a2a error'' else m)
      in if pe_Classification e = [] then base else base @ '' ['' @ pe_Classification e @ '']'')"

record proxy_result =
  pr_status :: int
  pr_body :: string
  pr_err :: "proxy_failure option"

definition isTransientProxyError :: "proxy_failure \<Rightarrow> bool" where
  "isTransientProxyError e =
     (if pe_Status e = 502 then True else if pe_Status e = 503 then pf_restarting e else False)"

definition isDeliveryConfirmedSuccess :: "proxy_result \<Rightarrow> bool" where
  "isDeliveryConfirmedSuccess r \<longleftrightarrow> pr_err r \<noteq> None \<and> pr_body r \<noteq> [] \<and> 200 \<le> pr_status r \<and> pr_status r < 300"

definition isQueuedProxyResponse :: "(string \<Rightarrow> json option) \<Rightarrow> string \<Rightarrow> bool" where
  "isQueuedProxyResponse parse body =
     (case parse body of Some (JObj kvs) \<Rightarrow> map_of kvs ''queued'' = Some (JBool True) | _ \<Rightarrow> False)"

text \<open>The first part of kind text that has a text.\<close>

fun text_part :: "json list \<Rightarrow> string option" where
  "text_part [] = None"
| "text_part (p # ps) =
     (case p of
        JObj part \<Rightarrow> (case (map_of part ''kind'', map_of part ''text'') of
           (Some (JStr k), Some (JStr t)) \<Rightarrow> if k = ''text'' then Some t else text_part ps
         | _ \<Rightarrow> text_part ps)
      | _ \<Rightarrow> text_part ps)"

definition parts_of :: "(string \<times> json) list \<Rightarrow> json list" where
  "parts_of obj = (case map_of obj ''parts'' of Some (JArr ps) \<Rightarrow> ps | _ \<Rightarrow> [])"

fun artifact_text :: "json list \<Rightarrow> string option" where
  "artifact_text [] = None"
| "artifact_text (a # rest) =
     (case a of
        JObj art \<Rightarrow> (case text_part (parts_of art) of Some t \<Rightarrow> Some t | None \<Rightarrow> artifact_text rest)
      | _ \<Rightarrow> artifact_text rest)"

definition extractResponseText :: "(string \<Rightarrow> json option) \<Rightarrow> string \<Rightarrow> string" where
  "extractResponseText parse body =
     (case parse body of
        Some (JObj resp) \<Rightarrow>
          (case map_of resp ''result'' of
             Some (JObj result) \<Rightarrow>
               (case text_part (parts_of result) of
                  Some t \<Rightarrow> t
                | None \<Rightarrow>
                    (case map_of result ''artifacts'' of
                       Some (JArr as) \<Rightarrow> (case artifact_text as of Some t \<Rightarrow> t | None \<Rightarrow> body)
                     | _ \<Rightarrow> body))
           | _ \<Rightarrow> body)
      | _ \<Rightarrow> body)"

section \<open>executeDelegation\<close>

definition fail_delegation :: "del_env \<Rightarrow> uuid \<Rightarrow> uuid \<Rightarrow> string \<Rightarrow> string \<Rightarrow> del_state \<Rightarrow> del_state" where
  "fail_delegation V source target i msg st =
     pushDelegationResultToInbox V (dv_flt V 3) source i ''failed'' [] msg
       (emit_delegation (EventDelegationFailed source i (Some target) msg)
         (add_row (dv_flt V 2) (result_row (dv_now V) source (Some target) ''Delegation failed'' None ''failed'' (Some msg))
           (updateDelegationStatus V (dv_flt V 1) source i ''failed'' msg st)))"

definition queue_delegation :: "del_env \<Rightarrow> uuid \<Rightarrow> uuid \<Rightarrow> string \<Rightarrow> del_state \<Rightarrow> del_state" where
  "queue_delegation V source target i st =
     emit_delegation (EventDelegationStatus source i target ''queued'')
       (add_row (dv_flt V 2) (result_row (dv_now V) source (Some target)
            (''Delegation queued '' @ [CHR 0xE2, CHR 0x80, CHR 0x94] @ '' target at capacity'')
            (Some (JObj [(''delegation_id'', JStr i), (''queued'', JBool True)])) ''queued'' None)
         (updateDelegationStatus V (dv_flt V 1) source i ''queued'' [] st))"

definition completed_summary :: "string \<Rightarrow> string" where
  "completed_summary t = ''Delegation completed ('' @ TruncateBytes t 80 @ '')''"

definition delegation_response :: "string \<Rightarrow> string \<Rightarrow> json" where
  "delegation_response i t = JObj [(''text'', JStr t), (''delegation_id'', JStr i)]"

text \<open>The ledger gets the preview before the status of the row is written.\<close>

definition complete_delegation :: "del_env \<Rightarrow> uuid \<Rightarrow> uuid \<Rightarrow> string \<Rightarrow> string \<Rightarrow> del_state \<Rightarrow> del_state" where
  "complete_delegation V source target i t st =
     pushDelegationResultToInbox V (dv_flt V 3) source i ''completed'' t []
       (emit_delegation (EventDelegationComplete source i (Some target) (TruncateBytes t 200))
         (updateDelegationStatus V (dv_flt V 1) source i ''completed'' []
           (mirror_status V i ''completed'' [] t
             (add_row (dv_flt V 2) (result_row (dv_now V) source (Some target) (completed_summary t)
                (Some (delegation_response i t)) ''completed'' None) st))))"

definition empty_response_error :: string where
  "empty_response_error = ''workspace agent returned empty response''"

text \<open>
  \<open>first\<close> is the result of the first proxy call, \<open>again\<close> that of the second, \<^term>\<open>None\<close> when the deadline came before
  it; \<open>intf\<close> is what others write during the calls. Only the first result can jump to the success branch.
\<close>

definition executeDelegation ::
  "del_env \<Rightarrow> (nat \<Rightarrow> del_state \<Rightarrow> del_state) \<Rightarrow> proxy_result \<Rightarrow> proxy_result option \<Rightarrow> uuid \<Rightarrow> uuid \<Rightarrow> string \<Rightarrow> del_state \<Rightarrow> del_state" where
  "executeDelegation V intf first again source target i st =
     (let st1 = intf 0 (emit_delegation (EventDelegationStatus source i target ''dispatched'')
                  (updateDelegationStatus V (dv_flt V 0) source i ''dispatched'' [] st));
          confirmed = isDeliveryConfirmedSuccess first;
          retry = (\<not> confirmed \<and> pr_body first = [] \<and> (case pr_err first of None \<Rightarrow> False | Some e \<Rightarrow> isTransientProxyError e));
          (r, st2) = (if retry then (case again of None \<Rightarrow> (first, st1) | Some r2 \<Rightarrow> (r2, intf 1 st1)) else (first, st1))
      in if \<not> confirmed \<and> pr_err r \<noteq> None then fail_delegation V source target i (proxy_error_text (the (pr_err r))) st2
         else if \<not> confirmed \<and> 200 \<le> pr_status r \<and> pr_status r < 300 \<and> pr_body r = []
           then fail_delegation V source target i empty_response_error st2
         else if pr_status r = 202 \<and> isQueuedProxyResponse (dv_parse V) (pr_body r) then queue_delegation V source target i st2
         else complete_delegation V source target i (extractResponseText (dv_parse V) (pr_body r)) st2)"

section \<open>Delegate\<close>

record delegateRequest =
  dr_TargetID :: uuid
  dr_Task :: string
  dr_IdempotencyKey :: string

datatype delegate_reply =
    DelegateError int string
  | IdempotentHit string string uuid
  | Delegated string uuid bool

definition delegate_row :: "instant \<Rightarrow> uuid \<Rightarrow> uuid \<Rightarrow> string \<Rightarrow> string \<Rightarrow> string \<Rightarrow> string option \<Rightarrow> del_row" where
  "delegate_row now source target i task status key =
     \<lparr>da_workspace_id = source, da_activity_type = ''delegation'', da_method = ''delegate'', da_source_id = source,
      da_target_id = Some target, da_summary = ''Delegating to '' @ target,
      da_request_body = Some (JObj [(''task'', JStr task), (''delegation_id'', JStr i)]),
      da_response_body = Some (JObj [(''delegation_id'', JStr i)]), da_status = status, da_error_detail = None,
      da_idempotency_key = key, da_created_at = now\<rparr>"

text \<open>The answer for an existing row, and the table, from which a failed row of the key is deleted.\<close>

definition lookupIdempotentDelegation :: "faults \<Rightarrow> uuid \<Rightarrow> string \<Rightarrow> del_row list \<Rightarrow> delegate_reply option \<times> del_row list" where
  "lookupIdempotentDelegation flt source key rows =
     (if key = [] \<or> flt 0 then (None, rows)
      else case select_first (same_idempotency source key) rows of
             None \<Rightarrow> (None, rows)
           | Some r \<Rightarrow>
               (case (delegation_id_of r, da_target_id r) of
                  (Some i, Some target) \<Rightarrow>
                    if i = [] then (None, rows)
                    else if da_status r = ''failed''
                      then (None, if flt 1 then rows else filter (\<lambda>x. \<not> (same_idempotency source key x \<and> da_status x = ''failed'')) rows)
                    else (Some (IdempotentHit i (da_status r) target), rows)
                | _ \<Rightarrow> (None, rows)))"

datatype insertDelegationOutcome = InsertOK | InsertHandledByIdempotent delegate_reply | InsertTrackingUnavailable

definition insertDelegationRow :: "del_env \<Rightarrow> uuid \<Rightarrow> delegateRequest \<Rightarrow> string \<Rightarrow> del_state \<Rightarrow> insertDelegationOutcome \<times> del_state" where
  "insertDelegationRow V source b i st =
     (let key = dr_IdempotencyKey b;
          conflict = (key \<noteq> [] \<and> list_ex (same_idempotency source key) (dl_rows st)) in
      if \<not> dv_flt V 2 \<and> \<not> conflict
      then (InsertOK, st\<lparr>dl_rows := dl_rows st @ [delegate_row (dv_now V) source (dr_TargetID b) i (dr_Task b) ''pending'' (nullif_empty key)],
              dl_ledger := recordLedgerInsert (dv_getenv V) (dv_ledger_flt V) (dv_now V) (dl_ledger st) source (dr_TargetID b) i (dr_Task b) key\<rparr>)
      else if key \<noteq> [] \<and> \<not> dv_flt V 3
      then (case select_first (same_idempotency source key) (dl_rows st) of
              None \<Rightarrow> (InsertTrackingUnavailable, st)
            | Some r \<Rightarrow>
                (case delegation_id_of r of
                   None \<Rightarrow> (InsertTrackingUnavailable, st)
                 | Some w \<Rightarrow> if w = [] then (InsertTrackingUnavailable, st)
                            else (InsertHandledByIdempotent (IdempotentHit w (da_status r) (dr_TargetID b)), st)))
      else (InsertTrackingUnavailable, st))"

definition buildDelegateA2ABody :: "string \<Rightarrow> string \<Rightarrow> json" where
  "buildDelegateA2ABody i task =
     JObj [(''method'', JStr ''message/send''), (''params'', JObj [(''message'', JObj [(''role'', JStr ''user''), (''messageId'', JStr i),
       (''parts'', JArr [JObj [(''kind'', JStr ''text''), (''text'', JStr task)]]), (''metadata'', JObj [(''delegation_id'', JStr i)])])])]"

text \<open>
  The reply, the new state and the message handed to the goroutine, if one is started. \<open>intf\<close> is what other
  requests write between the lookup and the insert.
\<close>

definition Delegate ::
  "del_env \<Rightarrow> (del_state \<Rightarrow> del_state) \<Rightarrow> string \<Rightarrow> uuid \<Rightarrow> delegateRequest option \<Rightarrow> del_state \<Rightarrow>
   delegate_reply \<times> del_state \<times> json option" where
  "Delegate V intf newid source body st =
     (case body of
        None \<Rightarrow> (DelegateError 400 ''invalid delegation request'', st, None)
      | Some b \<Rightarrow>
          if dr_TargetID b = [] \<or> dr_Task b = [] then (DelegateError 400 ''invalid delegation request'', st, None)
          else if \<not> dv_is_uuid V (dr_TargetID b) then (DelegateError 400 ''target_id must be a valid UUID'', st, None)
          else if source = dr_TargetID b then (DelegateError 400 ''self-delegation not permitted'', st, None)
          else case lookupIdempotentDelegation (dv_flt V) source (dr_IdempotencyKey b) (dl_rows st) of
                 (Some hit, rows) \<Rightarrow> (hit, st\<lparr>dl_rows := rows\<rparr>, None)
               | (None, rows) \<Rightarrow>
                   (case insertDelegationRow V source b newid (intf (st\<lparr>dl_rows := rows\<rparr>)) of
                      (InsertHandledByIdempotent hit, st') \<Rightarrow> (hit, st', None)
                    | (outcome, st') \<Rightarrow>
                        (Delegated newid (dr_TargetID b) (outcome = InsertTrackingUnavailable),
                         emit_delegation (EventDelegationSent source newid (dr_TargetID b) (TruncateBytes (dr_Task b) 100)) st',
                         Some (buildDelegateA2ABody newid (dr_Task b)))))"

section \<open>Record and UpdateStatus\<close>

record recordRequest =
  rr_TargetID :: uuid
  rr_Task :: string
  rr_DelegationID :: string

definition Delegation_Record :: "del_env \<Rightarrow> uuid \<Rightarrow> recordRequest option \<Rightarrow> del_state \<Rightarrow> (int \<times> string) option \<times> del_state" where
  "Delegation_Record V source body st =
     (case body of
        None \<Rightarrow> (Some (400, ''invalid request body''), st)
      | Some b \<Rightarrow>
          if rr_TargetID b = [] \<or> rr_Task b = [] \<or> rr_DelegationID b = [] then (Some (400, ''invalid request body''), st)
          else if \<not> dv_is_uuid V (rr_TargetID b) then (Some (400, ''target_id must be a valid UUID''), st)
          else if dv_flt V 0 then (Some (500, ''failed to record delegation''), st)
          else let st1 = st\<lparr>dl_rows := dl_rows st @ [delegate_row (dv_now V) source (rr_TargetID b) (rr_DelegationID b) (rr_Task b) ''dispatched'' None],
                     dl_ledger := recordLedgerInsert (dv_getenv V) (dv_ledger_flt V) (dv_now V) (dl_ledger st) source (rr_TargetID b)
                                    (rr_DelegationID b) (rr_Task b) []\<rparr>
               in (None, emit_delegation (EventDelegationSent source (rr_DelegationID b) (rr_TargetID b) (TruncateBytes (rr_Task b) 100))
                           (mirror_status V (rr_DelegationID b) ''dispatched'' [] [] st1)))"

record updateRequest =
  ur_Status :: string
  ur_Error :: string
  ur_ResponsePreview :: string

definition Delegation_UpdateStatus :: "del_env \<Rightarrow> uuid \<Rightarrow> string \<Rightarrow> updateRequest option \<Rightarrow> del_state \<Rightarrow> (int \<times> string) option \<times> del_state" where
  "Delegation_UpdateStatus V source i body st =
     (case body of
        None \<Rightarrow> (Some (400, ''invalid request body''), st)
      | Some b \<Rightarrow>
          if ur_Status b = [] then (Some (400, ''invalid request body''), st)
          else if ur_Status b \<noteq> ''completed'' \<and> ur_Status b \<noteq> ''failed'' then (Some (400, ''status must be '' @ [CHR 0x27] @ ''completed'' @ [CHR 0x27] @ '' or '' @ [CHR 0x27] @ ''failed'' @ [CHR 0x27]), st)
          else let st1 = (if ur_Status b = ''completed'' then mirror_status V i ''completed'' [] (ur_ResponsePreview b) st else st);
                   st2 = updateDelegationStatus V (dv_flt V 1) source i (ur_Status b) (ur_Error b) st1
               in (None,
                   if ur_Status b = ''completed''
                   then pushDelegationResultToInbox V (dv_flt V 3) source i ''completed'' (ur_ResponsePreview b) []
                          (emit_delegation (EventDelegationComplete source i None (TruncateBytes (ur_ResponsePreview b) 200))
                            (add_row (dv_flt V 2) (result_row (dv_now V) source None (completed_summary (ur_ResponsePreview b))
                               (Some (delegation_response i (ur_ResponsePreview b))) ''completed'' None) st2))
                   else pushDelegationResultToInbox V (dv_flt V 3) source i ''failed'' [] (ur_Error b)
                          (emit_delegation (EventDelegationFailed source i None (ur_Error b)) st2)))"

section \<open>ListDelegations\<close>

text \<open>
  The entries of the ledger, and those of the log when the ledger has none or cannot be read. An absent member
  of an entry is \<^term>\<open>None\<close>; \<open>print\<close> is the text form the database gives to a JSON value.
\<close>

record ledger_entry =
  le_delegation_id :: string
  le_source_id :: uuid
  le_target_id :: uuid
  le_summary :: string
  le_status :: string
  le_created_at :: instant
  le_updated_at :: instant
  le_response_preview :: "string option"
  le_error :: "string option"
  le_last_heartbeat :: "instant option"
  le_deadline :: instant

record log_entry =
  lg_type :: string
  lg_source_id :: uuid
  lg_target_id :: uuid
  lg_summary :: string
  lg_status :: string
  lg_created_at :: instant
  lg_delegation_id :: "string option"
  lg_error :: "string option"
  lg_response_preview :: "string option"

datatype delegation_list = FromLedger "ledger_entry list" | FromActivityLogs "log_entry list"

definition present :: "string option \<Rightarrow> string option" where
  "present x = (case x of None \<Rightarrow> None | Some s \<Rightarrow> nullif_empty s)"

definition ledger_entry_of :: "d_row \<Rightarrow> ledger_entry" where
  "ledger_entry_of d =
     \<lparr>le_delegation_id = d_delegation_id d, le_source_id = d_caller_id d, le_target_id = d_callee_id d,
      le_summary = TruncateBytes (d_task_preview d) 200, le_status = d_status d, le_created_at = d_created_at d,
      le_updated_at = d_updated_at d, le_response_preview = map_option (\<lambda>s. TruncateBytes s 300) (present (d_result_preview d)),
      le_error = present (d_error_detail d), le_last_heartbeat = d_last_heartbeat d, le_deadline = d_deadline d\<rparr>"

definition listDelegationsFromLedger :: "bool \<Rightarrow> uuid \<Rightarrow> ledger \<Rightarrow> ledger_entry list" where
  "listDelegationsFromLedger fault ws t =
     (if fault then []
      else map ledger_entry_of (take 50 (sort_key (\<lambda>r. - d_created_at r) (filter (\<lambda>r. d_caller_id r = ws) t))))"

definition log_entry_of :: "(json \<Rightarrow> string) \<Rightarrow> del_row \<Rightarrow> log_entry" where
  "log_entry_of print a =
     \<lparr>lg_type = da_activity_type a, lg_source_id = da_source_id a, lg_target_id = (case da_target_id a of None \<Rightarrow> [] | Some t \<Rightarrow> t),
      lg_summary = da_summary a, lg_status = da_status a, lg_created_at = da_created_at a,
      lg_delegation_id = present (case delegation_id_of a of Some i \<Rightarrow> Some i | None \<Rightarrow> json_text (da_response_body a) ''delegation_id''),
      lg_error = present (da_error_detail a),
      lg_response_preview = map_option (\<lambda>s. TruncateBytes s 300)
        (present (case json_text (da_response_body a) ''text'' of Some t \<Rightarrow> Some t | None \<Rightarrow> map_option print (da_response_body a)))\<rparr>"

definition listDelegationsFromActivityLogs :: "(json \<Rightarrow> string) \<Rightarrow> bool \<Rightarrow> uuid \<Rightarrow> del_row list \<Rightarrow> log_entry list" where
  "listDelegationsFromActivityLogs print fault ws rows =
     (if fault then []
      else map (log_entry_of print) (take 50 (sort_key (\<lambda>r. - da_created_at r)
             (filter (\<lambda>r. da_workspace_id r = ws \<and> (da_method r = ''delegate'' \<or> da_method r = ''delegate_result'')) rows))))"

definition ListDelegations :: "(json \<Rightarrow> string) \<Rightarrow> faults \<Rightarrow> uuid \<Rightarrow> del_state \<Rightarrow> delegation_list" where
  "ListDelegations print flt ws st =
     (let delegations = listDelegationsFromLedger (flt 0) ws (dl_ledger st) in
      if delegations \<noteq> [] then FromLedger delegations
      else FromActivityLogs (listDelegationsFromActivityLogs print (flt 1) ws (dl_rows st)))"

section \<open>One outcome per delegation\<close>

text \<open>What a run comes to: a failure with its text, a place in the queue of the target, or the answer.\<close>

datatype verdict = VFailed string | VQueued | VCompleted string

definition delegation_verdict :: "(string \<Rightarrow> json option) \<Rightarrow> proxy_result \<Rightarrow> proxy_result option \<Rightarrow> verdict" where
  "delegation_verdict parse first again =
     (let confirmed = isDeliveryConfirmedSuccess first;
          retry = (\<not> confirmed \<and> pr_body first = [] \<and> (case pr_err first of None \<Rightarrow> False | Some e \<Rightarrow> isTransientProxyError e));
          r = (if retry then (case again of None \<Rightarrow> first | Some r2 \<Rightarrow> r2) else first)
      in if \<not> confirmed \<and> pr_err r \<noteq> None then VFailed (proxy_error_text (the (pr_err r)))
         else if \<not> confirmed \<and> 200 \<le> pr_status r \<and> pr_status r < 300 \<and> pr_body r = [] then VFailed empty_response_error
         else if pr_status r = 202 \<and> isQueuedProxyResponse parse (pr_body r) then VQueued
         else VCompleted (extractResponseText parse (pr_body r)))"

fun verdict_status :: "verdict \<Rightarrow> string" where
  "verdict_status (VFailed m) = ''failed''"
| "verdict_status VQueued = ''queued''"
| "verdict_status (VCompleted t) = ''completed''"

fun verdict_error :: "verdict \<Rightarrow> string" where
  "verdict_error (VFailed m) = m"
| "verdict_error _ = []"

fun finish_delegation :: "del_env \<Rightarrow> uuid \<Rightarrow> uuid \<Rightarrow> string \<Rightarrow> verdict \<Rightarrow> del_state \<Rightarrow> del_state" where
  "finish_delegation V source target i (VFailed m) st = fail_delegation V source target i m st"
| "finish_delegation V source target i VQueued st = queue_delegation V source target i st"
| "finish_delegation V source target i (VCompleted t) st = complete_delegation V source target i t st"

lemma executeDelegation_quiet:
  "executeDelegation V (\<lambda>_ s. s) first again source target i st =
    finish_delegation V source target i (delegation_verdict (dv_parse V) first again)
      (emit_delegation (EventDelegationStatus source i target ''dispatched'') (updateDelegationStatus V (dv_flt V 0) source i ''dispatched'' [] st))"
  unfolding executeDelegation_def delegation_verdict_def Let_def by (cases again) (simp_all split: prod.split)

lemma error_texts_nonempty: "proxy_error_text e \<noteq> []" "empty_response_error \<noteq> []"
  by (auto simp: proxy_error_text_def empty_response_error_def Let_def split: option.splits)

lemma verdict_error_nonempty: "delegation_verdict parse first again = VFailed m \<Longrightarrow> m \<noteq> []"
  unfolding delegation_verdict_def Let_def using error_texts_nonempty by (auto split: if_splits)

subsection \<open>The rows of the log\<close>

lemma emit_delegation_simps [simp]: "dl_rows (emit_delegation ev st) = dl_rows st" "dl_ledger (emit_delegation ev st) = dl_ledger st"
  by (simp_all add: emit_delegation_def)

lemma add_row_simps [simp]:
  "dl_rows (add_row f r st) = (if f then dl_rows st else dl_rows st @ [r])" "dl_ledger (add_row f r st) = dl_ledger st"
  by (simp_all add: add_row_def)

lemma mirror_status_simps [simp]:
  "dl_rows (mirror_status V i s e p st) = dl_rows st"
  "dl_ledger (mirror_status V i s e p st) = recordLedgerStatus (dv_getenv V) (dv_ledger_flt V) (dv_now V) (dl_ledger st) i s e p"
  by (simp_all add: mirror_status_def)

lemma updateDelegationStatus_rows [simp]:
  "dl_rows (updateDelegationStatus V f ws i s e st) =
    (if f then dl_rows st else update_where (delegation_of ws i) (set_del_status s e) (dl_rows st))"
  unfolding updateDelegationStatus_def by (simp add: Let_def)

lemma updateDelegationStatus_ledger:
  "List.member mirrored_statuses s \<Longrightarrow> dl_ledger (updateDelegationStatus V f ws i s e st) =
    recordLedgerStatus (dv_getenv V) (dv_ledger_flt V) (dv_now V) (dl_ledger st) i s e []"
  unfolding updateDelegationStatus_def by (simp add: Let_def)

definition inbox_row :: "del_env \<Rightarrow> uuid \<Rightarrow> string \<Rightarrow> string \<Rightarrow> string \<Rightarrow> string \<Rightarrow> del_row list" where
  "inbox_row V source i s p e =
     dl_rows (pushDelegationResultToInbox V False source i s p e \<lparr>dl_rows = [], dl_ledger = [], dl_events = []\<rparr>)"

lemma push_rows [simp]:
  "dl_rows (pushDelegationResultToInbox V f source i s p e st) = (if f then dl_rows st else dl_rows st @ inbox_row V source i s p e)"
  "dl_ledger (pushDelegationResultToInbox V f source i s p e st) = dl_ledger st"
  unfolding inbox_row_def pushDelegationResultToInbox_def by simp_all

lemma inbox_row_bound: "length (inbox_row V source i s p e) \<le> Suc 0" "r \<in> set (inbox_row V source i s p e) \<Longrightarrow> da_activity_type r = ''a2a_receive''"
  unfolding inbox_row_def pushDelegationResultToInbox_def by (simp_all split: if_splits)

lemma delegation_of_fields [simp]:
  "delegation_of ws i (set_del_status s e r) = delegation_of ws i r" "\<not> delegation_of ws i (result_row now src tgt sm resp st err)"
  by (simp_all add: delegation_of_def set_del_status_def delegation_id_of_def result_row_def)

lemma set_del_status_twice: "set_del_status s e (set_del_status ''dispatched'' [] r) = set_del_status s e r"
  by (simp add: set_del_status_def)

lemma status_twice:
  "update_where (delegation_of ws i) (set_del_status s e) (update_where (delegation_of ws i) (set_del_status ''dispatched'' []) rows) =
   update_where (delegation_of ws i) (set_del_status s e) rows"
  by (subst update_where_twice) (simp_all add: set_del_status_twice)

text \<open>The row of the outcome.\<close>

fun verdict_row :: "instant \<Rightarrow> uuid \<Rightarrow> uuid \<Rightarrow> string \<Rightarrow> verdict \<Rightarrow> del_row" where
  "verdict_row now source target i (VFailed m) = result_row now source (Some target) ''Delegation failed'' None ''failed'' (Some m)"
| "verdict_row now source target i VQueued =
     result_row now source (Some target) (''Delegation queued '' @ [CHR 0xE2, CHR 0x80, CHR 0x94] @ '' target at capacity'')
       (Some (JObj [(''delegation_id'', JStr i), (''queued'', JBool True)])) ''queued'' None"
| "verdict_row now source target i (VCompleted t) =
     result_row now source (Some target) (completed_summary t) (Some (delegation_response i t)) ''completed'' None"

fun verdict_inbox :: "del_env \<Rightarrow> uuid \<Rightarrow> string \<Rightarrow> verdict \<Rightarrow> del_row list" where
  "verdict_inbox V source i (VFailed m) = inbox_row V source i ''failed'' [] m"
| "verdict_inbox V source i VQueued = []"
| "verdict_inbox V source i (VCompleted t) = inbox_row V source i ''completed'' t []"

lemma verdict_inbox_bound: "length (verdict_inbox V source i v) \<le> Suc 0"
  by (cases v) (simp_all add: inbox_row_bound)

lemma finish_delegation_rows:
  assumes "dv_flt V = no_faults"
  shows "dl_rows (finish_delegation V source target i v st) =
    update_where (delegation_of source i) (set_del_status (verdict_status v) (verdict_error v)) (dl_rows st)
      @ [verdict_row (dv_now V) source target i v] @ verdict_inbox V source i v"
  by (cases v)
    (simp_all add: assms no_faults_def fail_delegation_def queue_delegation_def complete_delegation_def update_where_def)

lemma executeDelegation_rows:
  assumes "dv_flt V = no_faults" and "delegation_verdict (dv_parse V) first again = v"
  shows "dl_rows (executeDelegation V (\<lambda>_ s. s) first again source target i st) =
      update_where (delegation_of source i) (set_del_status (verdict_status v) (verdict_error v)) (dl_rows st)
        @ [verdict_row (dv_now V) source target i v] @ verdict_inbox V source i v"
  using assms by (simp add: executeDelegation_quiet finish_delegation_rows [OF assms(1)] status_twice no_faults_def)

section \<open>One delegation per idempotency key\<close>

text \<open>
  The rows that carry a key: each names its delegation and its target, and no two of a workspace share a key.
\<close>

definition slot_of :: "del_row \<Rightarrow> (uuid \<times> string) option" where
  "slot_of r = (case da_idempotency_key r of None \<Rightarrow> None | Some k \<Rightarrow> Some (da_workspace_id r, k))"

definition slot_row_ok :: "del_row \<Rightarrow> bool" where
  "slot_row_ok r \<longleftrightarrow> slot_of r = None \<or>
     (da_method r = ''delegate'' \<and> delegation_id_of r \<noteq> None \<and> delegation_id_of r \<noteq> Some [] \<and> da_target_id r \<noteq> None)"

definition slots_ok :: "del_row list \<Rightarrow> bool" where
  "slots_ok rows \<longleftrightarrow> list_all slot_row_ok rows \<and> distinct (List.map_filter slot_of rows)"

lemma same_idempotency_slot: "same_idempotency ws key r \<longleftrightarrow> slot_of r = Some (ws, key)"
  by (auto simp: same_idempotency_def slot_of_def split: option.splits)

lemma slots_ok_append [simp]:
  "slots_ok (xs @ ys) \<longleftrightarrow> slots_ok xs \<and> slots_ok ys \<and> set (List.map_filter slot_of xs) \<inter> set (List.map_filter slot_of ys) = {}"
  by (auto simp: slots_ok_def List.map_filter_def)

lemma slots_ok_free [simp]: "da_idempotency_key r = None \<Longrightarrow> slots_ok [r]" "da_idempotency_key r = None \<Longrightarrow> slot_of r = None"
  by (simp_all add: slots_ok_def slot_row_ok_def slot_of_def List.map_filter_def)

lemma slots_ok_update:
  assumes "\<And>r. slot_of (f r) = slot_of r" "\<And>r. slot_row_ok (f r) = slot_row_ok r"
  shows "slots_ok (update_where p f rows) = slots_ok rows"
proof -
  have "List.map_filter slot_of (update_where p f rows) = List.map_filter slot_of rows"
    by (induction rows) (simp_all add: update_where_def List.map_filter_def assms(1))
  moreover have "list_all slot_row_ok (update_where p f rows) = list_all slot_row_ok rows"
    by (induction rows) (simp_all add: update_where_def assms(2))
  ultimately show ?thesis by (simp add: slots_ok_def)
qed

lemma slots_ok_filter: "slots_ok rows \<Longrightarrow> slots_ok (filter p rows)"
  by (induction rows) (auto simp: slots_ok_def List.map_filter_def image_iff, metis option.sel)

lemma set_status_slot [simp]: "slot_of (set_del_status s e r) = slot_of r" "slot_row_ok (set_del_status s e r) = slot_row_ok r"
  by (cases "da_idempotency_key r"; simp add: set_del_status_def slot_of_def slot_row_ok_def delegation_id_of_def)+

lemma slots_ok_set_status [simp]: "slots_ok (update_where p (set_del_status s e) rows) = slots_ok rows"
  by (rule slots_ok_update) simp_all

lemma slots_ok_rows [simp]:
  "slots_ok (dl_rows st) \<Longrightarrow> slots_ok (dl_rows (updateDelegationStatus V f ws i s e st))"
  "slots_ok (dl_rows st) \<Longrightarrow> da_idempotency_key r = None \<Longrightarrow> slots_ok (dl_rows (add_row f r st))"
  "slots_ok (dl_rows st) \<Longrightarrow> slots_ok (dl_rows (pushDelegationResultToInbox V f ws i s p e st))"
  by (simp_all add: pushDelegationResultToInbox_def inbox_row_def List.map_filter_def del: push_rows)

lemma result_row_key [simp]: "da_idempotency_key (result_row now source target summary resp status err) = None"
  by (simp add: result_row_def)

lemma executeDelegation_slots:
  assumes "\<And>n s. slots_ok (dl_rows s) \<Longrightarrow> slots_ok (dl_rows (intf n s))" "slots_ok (dl_rows st)"
  shows "slots_ok (dl_rows (executeDelegation V intf first again source target i st))"
  unfolding executeDelegation_def fail_delegation_def queue_delegation_def complete_delegation_def Let_def
  using assms by (cases again) (simp_all split: prod.split del: push_rows updateDelegationStatus_rows add_row_simps)

lemma Delegation_Record_slots: "slots_ok (dl_rows st) \<Longrightarrow> slots_ok (dl_rows (snd (Delegation_Record V source body st)))"
  by (simp add: Delegation_Record_def Let_def delegate_row_def List.map_filter_def split: option.splits)

lemma Delegation_UpdateStatus_slots:
  "slots_ok (dl_rows st) \<Longrightarrow> slots_ok (dl_rows (snd (Delegation_UpdateStatus V source i body st)))"
  by (simp add: Delegation_UpdateStatus_def Let_def del: push_rows updateDelegationStatus_rows add_row_simps split: option.splits)

lemma lookup_slots: "slots_ok rows \<Longrightarrow> slots_ok (snd (lookupIdempotentDelegation flt source key rows))"
  by (simp add: lookupIdempotentDelegation_def slots_ok_filter split: option.splits)

lemma delegate_row_slot:
  assumes "i \<noteq> []"
  shows "slots_ok [delegate_row now source target i task status key]"
    "slot_of (delegate_row now source target i task status key) = map_option (Pair source) key"
  using assms by (cases key; simp add: slots_ok_def slot_row_ok_def slot_of_def delegate_row_def delegation_id_of_def json_text_def List.map_filter_def)+

lemma insertDelegationRow_slots:
  assumes "slots_ok (dl_rows st)" "i \<noteq> []"
  shows "slots_ok (dl_rows (snd (insertDelegationRow V source b i st)))"
proof -
  have free: "\<forall>x \<in> set (dl_rows st). slot_of x \<noteq> Some (source, dr_IdempotencyKey b)"
    if "\<not> list_ex (same_idempotency source (dr_IdempotencyKey b)) (dl_rows st)"
    using that by (auto simp: list_ex_iff same_idempotency_slot)
  then show ?thesis
    using assms
    by (auto simp: insertDelegationRow_def Let_def delegate_row_slot List.map_filter_def nullif_empty_def image_iff split: option.splits if_splits)
qed

lemma Delegate_slots:
  assumes "slots_ok (dl_rows st)" "newid \<noteq> []" "\<And>s. slots_ok (dl_rows s) \<Longrightarrow> slots_ok (dl_rows (intf s))"
  shows "slots_ok (dl_rows (fst (snd (Delegate V intf newid source body st))))"
proof (cases body)
  case (Some b)
  obtain hit rows where look: "lookupIdempotentDelegation (dv_flt V) source (dr_IdempotencyKey b) (dl_rows st) = (hit, rows)"
    by (rule prod.exhaust)
  then have rows: "slots_ok rows" using lookup_slots [OF assms(1), of "dv_flt V" source "dr_IdempotencyKey b"] by simp
  then have "slots_ok (dl_rows (intf (st\<lparr>dl_rows := rows\<rparr>)))" using assms(3) by simp
  from insertDelegationRow_slots [OF this assms(2), of V source b] show ?thesis
    using assms(1) rows
    by (auto simp: Delegate_def Some look split: option.splits prod.splits insertDelegationOutcome.splits)
qed (simp add: Delegate_def assms)

text \<open>
  Histories: the routes and the goroutines in any order, other histories running between the steps of a request
  and during the proxy calls of a run.
\<close>

inductive del_reach :: "del_state \<Rightarrow> del_state \<Rightarrow> bool" where
  start: "del_reach s s"
| delegate: "del_reach s t \<Longrightarrow> newid \<noteq> [] \<Longrightarrow> \<forall>u. del_reach u (intf u) \<Longrightarrow>
    del_reach s (fst (snd (Delegate V intf newid source body t)))"
| execute: "del_reach s t \<Longrightarrow> \<forall>n u. del_reach u (intf n u) \<Longrightarrow>
    del_reach s (executeDelegation V intf first again source target i t)"
| recorded: "del_reach s t \<Longrightarrow> del_reach s (snd (Delegation_Record V source rb t))"
| reported: "del_reach s t \<Longrightarrow> del_reach s (snd (Delegation_UpdateStatus V source i ub t))"

lemma del_reach_slots: "del_reach s t \<Longrightarrow> slots_ok (dl_rows s) \<Longrightarrow> slots_ok (dl_rows t)"
  by (induction rule: del_reach.induct)
    (simp_all add: Delegate_slots executeDelegation_slots Delegation_Record_slots Delegation_UpdateStatus_slots)

lemma slot_holder:
  assumes "slots_ok rows" "r \<in> set rows" "slot_of r = Some (ws, key)"
  shows "select_first (same_idempotency ws key) rows = Some r"
  using assms
proof (induction rows)
  case (Cons a rows)
  then have rows: "slots_ok rows" by (simp add: slots_ok_def List.map_filter_def split: if_splits)
  show ?case
  proof (cases "a = r")
    case False
    then have "slot_of a \<noteq> slot_of r" using Cons.prems by (fastforce simp: slots_ok_def List.map_filter_def image_iff)
    then show ?thesis using Cons False rows by (simp add: same_idempotency_slot)
  qed (use Cons.prems in \<open>simp add: same_idempotency_slot\<close>)
qed simp

lemma slot_row_fields:
  assumes "slots_ok rows" "r \<in> set rows" "slot_of r = Some (ws, key)"
  obtains i target where "delegation_id_of r = Some i" "i \<noteq> []" "da_target_id r = Some target"
  using assms by (auto simp: slots_ok_def list_all_iff slot_row_ok_def)

text \<open>C11: An idempotency key starts one delegation. In every state of a history, while the row of a workspace and
  key is not failed, a further request with that key starts no run, changes nothing and answers with the id,
  the status and the target of that row.\<close>

theorem delegate_once:
  assumes "del_reach st0 st" "slots_ok (dl_rows st0)" "r \<in> set (dl_rows st)" "slot_of r = Some (source, dr_IdempotencyKey b)"
    "dr_IdempotencyKey b \<noteq> []" "da_status r \<noteq> ''failed''" "dv_flt V = no_faults"
    "dr_TargetID b \<noteq> []" "dr_Task b \<noteq> []" "dv_is_uuid V (dr_TargetID b)" "source \<noteq> dr_TargetID b"
  shows "\<exists>i target. delegation_id_of r = Some i \<and> da_target_id r = Some target \<and>
    Delegate V intf newid source (Some b) st = (IdempotentHit i (da_status r) target, st, None)"
proof -
  note ok = del_reach_slots [OF assms(1,2)]
  obtain i target where "delegation_id_of r = Some i" "i \<noteq> []" "da_target_id r = Some target"
    by (rule slot_row_fields [OF ok assms(3,4)])
  then show ?thesis
    using slot_holder [OF ok assms(3,4)] assms
    by (simp add: Delegate_def lookupIdempotentDelegation_def no_faults_def)
qed

text \<open>A request that starts a run under a key takes the key: it holds the only row of the workspace and the key
  afterwards, also when other requests ran between its lookup and its insert.\<close>

theorem delegate_takes_slot:
  assumes "slots_ok (dl_rows st)" "\<forall>u. del_reach u (intf u)" "newid \<noteq> []" "dr_IdempotencyKey b \<noteq> []" "dv_flt V = no_faults"
    "Delegate V intf newid source (Some b) st = (reply, st', Some m)"
  shows "reply = Delegated newid (dr_TargetID b) False \<and>
    filter (same_idempotency source (dr_IdempotencyKey b)) (dl_rows st') =
      [delegate_row (dv_now V) source (dr_TargetID b) newid (dr_Task b) ''pending'' (Some (dr_IdempotencyKey b))]"
proof -
  obtain hit rows where look: "lookupIdempotentDelegation (dv_flt V) source (dr_IdempotencyKey b) (dl_rows st) = (hit, rows)"
    by (rule prod.exhaust)
  define u where "u = intf (st\<lparr>dl_rows := rows\<rparr>)"
  have "slots_ok rows" using lookup_slots [OF assms(1), of "dv_flt V" source "dr_IdempotencyKey b"] look by simp
  then have ok: "slots_ok (dl_rows u)" using del_reach_slots [of "st\<lparr>dl_rows := rows\<rparr>" u] assms(2) by (simp add: u_def)
  have free: "\<not> list_ex (same_idempotency source (dr_IdempotencyKey b)) (dl_rows u)"
  proof
    assume taken: "list_ex (same_idempotency source (dr_IdempotencyKey b)) (dl_rows u)"
    then obtain x where x: "x \<in> set (dl_rows u)" "slot_of x = Some (source, dr_IdempotencyKey b)"
      by (auto simp: list_ex_iff same_idempotency_slot)
    obtain i target where "delegation_id_of x = Some i" "i \<noteq> []" by (rule slot_row_fields [OF ok x])
    then show False
      using assms(4-6) slot_holder [OF ok x] taken look
      by (auto simp: Delegate_def insertDelegationRow_def no_faults_def u_def Let_def split: option.splits if_splits)
  qed
  then show ?thesis
    using assms(4-6) look
    by (auto simp: Delegate_def insertDelegationRow_def no_faults_def u_def Let_def nullif_empty_def list_ex_iff
        same_idempotency_def delegate_row_def split: option.splits if_splits)
qed

section \<open>The log and the ledger\<close>

text \<open>An environment without failures in which the ledger is written.\<close>

definition del_env_ok :: "del_env \<Rightarrow> bool" where
  "del_env_ok V \<longleftrightarrow> ledgerWritesEnabled (dv_getenv V) \<and> \<not> dv_ledger_flt V 0 \<and> \<not> dv_ledger_flt V 1"

lemma select_first_update:
  assumes "\<And>r. P (f r) = P r"
  shows "select_first P (update_where P f rows) = map_option f (select_first P rows)"
  by (induction rows) (simp_all add: update_where_def assms)

lemma move_row_id [simp]: "d_delegation_id (move_row now s e p r) = d_delegation_id r" "d_status (move_row now s e p r) = s"
  by (simp_all add: move_row_def)

lemma ledger_move:
  assumes "del_env_ok V" "i \<noteq> []" "s \<noteq> []" "select_first (\<lambda>r. d_delegation_id r = i) t = Some d" "transition_ok (d_status d) s" "d_status d \<noteq> s"
  shows "recordLedgerStatus (dv_getenv V) (dv_ledger_flt V) now t i s e p = update_where (\<lambda>r. d_delegation_id r = i) (move_row now s e p) t"
  using assms by (simp add: del_env_ok_def recordLedgerStatus_def SetStatus_def read_status_def decide_status_def write_status_def)

lemma ledger_stays:
  assumes "select_first (\<lambda>r. d_delegation_id r = i) t = Some d"
    "d_status d = s \<and> e = [] \<and> p = [] \<or> d_status d \<noteq> s \<and> \<not> transition_ok (d_status d) s"
  shows "recordLedgerStatus genv flt now t i s e p = t"
  using assms by (auto simp: recordLedgerStatus_def SetStatus_def read_status_def decide_status_def write_status_def)

text \<open>The report of a delegation's outcome is not confined to the caller of the delegation: a workspace that is
  not its caller and reports it completed leaves the log of every other workspace as it is, while the ledger row
  becomes completed with the text of the report.\<close>

theorem foreign_report_completes:
  assumes "del_env_ok V" "i \<noteq> []" "select_first (\<lambda>r. d_delegation_id r = i) (dl_ledger st) = Some d" "d_status d = ''dispatched''"
    "d_caller_id d \<noteq> other"
  shows "let st' = snd (Delegation_UpdateStatus V other i (Some \<lparr>ur_Status = ''completed'', ur_Error = [], ur_ResponsePreview = p\<rparr>) st) in
    dl_ledger st' = update_where (\<lambda>r. d_delegation_id r = i) (move_row (dv_now V) ''completed'' [] p) (dl_ledger st) \<and>
    filter (\<lambda>r. da_workspace_id r \<noteq> other) (dl_rows st') = filter (\<lambda>r. da_workspace_id r \<noteq> other) (dl_rows st)"
proof -
  have moved: "recordLedgerStatus (dv_getenv V) (dv_ledger_flt V) (dv_now V) (dl_ledger st) i ''completed'' [] p =
      update_where (\<lambda>r. d_delegation_id r = i) (move_row (dv_now V) ''completed'' [] p) (dl_ledger st)" (is "_ = ?t")
    by (rule ledger_move [OF assms(1,2) _ assms(3)]) (simp_all add: assms(4) transition_ok_def allowedTransitions_def)
  have "select_first (\<lambda>r. d_delegation_id r = i) ?t = Some (move_row (dv_now V) ''completed'' [] p d)"
    by (subst select_first_update) (simp_all add: assms(3))
  then have stays: "recordLedgerStatus (dv_getenv V) (dv_ledger_flt V) (dv_now V) ?t i ''completed'' [] [] = ?t"
    by (rule ledger_stays) simp
  have others: "filter (\<lambda>r. da_workspace_id r \<noteq> other) (update_where (delegation_of other i) f rows) = filter (\<lambda>r. da_workspace_id r \<noteq> other) rows"
    if "\<And>r. da_workspace_id (f r) = da_workspace_id r" for f rows
    using that by (induction rows) (auto simp: update_where_def delegation_of_def)
  show ?thesis
    using moved stays
    by (simp add: Delegation_UpdateStatus_def Let_def updateDelegationStatus_ledger mirrored_statuses_def others
        set_del_status_def result_row_def inbox_row_def pushDelegationResultToInbox_def)
qed

text \<open>The ledger row after a run, from its row in state queued.\<close>

fun verdict_move :: "instant \<Rightarrow> verdict \<Rightarrow> d_row \<Rightarrow> d_row" where
  "verdict_move now (VFailed m) = move_row now ''failed'' m []"
| "verdict_move now VQueued = (\<lambda>d. d)"
| "verdict_move now (VCompleted t) = move_row now ''completed'' [] t"

lemma transitions [simp]:
  "transition_ok ''queued'' ''dispatched''" "transition_ok ''dispatched'' ''completed''" "transition_ok ''dispatched'' ''failed''"
  "\<not> transition_ok ''dispatched'' ''queued''"
  by (simp_all add: transition_ok_def allowedTransitions_def)

lemma finish_delegation_ledger:
  assumes "del_env_ok V" "i \<noteq> []" "select_first (\<lambda>r. d_delegation_id r = i) (dl_ledger st) = Some d" "d_status d = ''dispatched''"
  shows "dl_ledger (finish_delegation V source target i v st) =
    update_where (\<lambda>r. d_delegation_id r = i) (verdict_move (dv_now V) v) (dl_ledger st)"
proof (cases v)
  case (VFailed m)
  then show ?thesis
    using ledger_move [OF assms(1,2) _ assms(3), of "''failed''"] assms(4)
    by (simp add: fail_delegation_def updateDelegationStatus_ledger mirrored_statuses_def)
next
  case VQueued
  have "update_where (\<lambda>r. d_delegation_id r = i) (\<lambda>d. d) (dl_ledger st) = dl_ledger st" by (simp add: update_where_def)
  then show ?thesis
    using ledger_stays [OF assms(3), of "''queued''"] assms(4) VQueued
    by (simp add: queue_delegation_def updateDelegationStatus_ledger mirrored_statuses_def)
next
  case (VCompleted t)
  let ?t = "update_where (\<lambda>r. d_delegation_id r = i) (move_row (dv_now V) ''completed'' [] t) (dl_ledger st)"
  have "select_first (\<lambda>r. d_delegation_id r = i) ?t = Some (move_row (dv_now V) ''completed'' [] t d)"
    by (subst select_first_update) (simp_all add: assms(3))
  from ledger_stays [OF this, of "''completed''"] show ?thesis
    using ledger_move [OF assms(1,2) _ assms(3), of "''completed''"] assms(4) VCompleted
    by (simp add: complete_delegation_def updateDelegationStatus_ledger mirrored_statuses_def)
qed

lemma executeDelegation_ledger:
  assumes "del_env_ok V" "i \<noteq> []" "select_first (\<lambda>r. d_delegation_id r = i) (dl_ledger st) = Some d" "d_status d = ''queued''"
  shows "dl_ledger (executeDelegation V (\<lambda>_ s. s) first again source target i st) =
    update_where (\<lambda>r. d_delegation_id r = i)
      (\<lambda>r. verdict_move (dv_now V) (delegation_verdict (dv_parse V) first again) (move_row (dv_now V) ''dispatched'' [] [] r)) (dl_ledger st)"
proof -
  define st1 where "st1 = emit_delegation (EventDelegationStatus source i target ''dispatched'')
    (updateDelegationStatus V (dv_flt V 0) source i ''dispatched'' [] st)"
  have l1: "dl_ledger st1 = update_where (\<lambda>r. d_delegation_id r = i) (move_row (dv_now V) ''dispatched'' [] []) (dl_ledger st)"
    using ledger_move [OF assms(1,2) _ assms(3), of "''dispatched''"] assms(4)
    by (simp add: st1_def updateDelegationStatus_ledger mirrored_statuses_def)
  have "select_first (\<lambda>r. d_delegation_id r = i) (dl_ledger st1) = Some (move_row (dv_now V) ''dispatched'' [] [] d)"
    unfolding l1 by (subst select_first_update) (simp_all add: assms(3))
  from finish_delegation_ledger [OF assms(1,2) this, of source target] show ?thesis
    by (simp add: executeDelegation_quiet st1_def [symmetric] l1 update_where_twice)
qed

text \<open>
  A proxy call that reports no error has a status of the 200 range: \<^verbatim>\<open>proxyA2ARequest\<close> turns every other status
  into an error. It answered when it came with a body.
\<close>

definition proxy_ok :: "proxy_result \<Rightarrow> bool" where
  "proxy_ok r \<longleftrightarrow> (pr_err r = None \<longrightarrow> 200 \<le> pr_status r \<and> pr_status r < 300)"

definition answered :: "proxy_result \<Rightarrow> bool" where
  "answered r \<longleftrightarrow> pr_body r \<noteq> [] \<and> 200 \<le> pr_status r \<and> pr_status r < 300"

lemma verdict_completed:
  assumes "delegation_verdict parse first again = VCompleted t" "proxy_ok first" "pred_option proxy_ok again"
  shows "answered first \<or> pred_option answered again \<and> again \<noteq> None"
  using assms
  by (cases again) (auto simp: delegation_verdict_def Let_def isDeliveryConfirmedSuccess_def proxy_ok_def answered_def split: if_splits)

lemma verdict_failed:
  assumes "delegation_verdict parse first again = VFailed m"
  shows "\<not> answered first"
  using assms
  by (cases "pr_err first") (auto simp: delegation_verdict_def Let_def isDeliveryConfirmedSuccess_def answered_def split: if_splits)

lemma filter_single:
  assumes "filter P rows = [r]" "\<And>x. P (f x) = P x"
  shows "filter P (update_where P f rows) = [f r]" "filter (\<lambda>x. \<not> P x) (update_where P f rows) = filter (\<lambda>x. \<not> P x) rows"
proof -
  have "filter P (update_where P f rows) = map f (filter P rows)" by (induction rows) (simp_all add: assms(2))
  with assms(1) show "filter P (update_where P f rows) = [f r]" by simp
  show "filter (\<lambda>x. \<not> P x) (update_where P f rows) = filter (\<lambda>x. \<not> P x) rows" by (induction rows) (simp_all add: assms(2))
qed

lemma filter_single_first: "filter P rows = [r] \<Longrightarrow> select_first P rows = Some r"
  by (induction rows) (auto split: if_splits)

lemma inbox_row_method: "x \<in> set (inbox_row V source i s p e) \<Longrightarrow> da_method x = ''delegate_result''"
  unfolding inbox_row_def pushDelegationResultToInbox_def by (simp split: if_splits)

lemma verdict_inbox_method: "x \<in> set (verdict_inbox V source i v) \<Longrightarrow> \<not> delegation_of ws j x"
  by (cases v) (auto simp: delegation_of_def dest: inbox_row_method)

lemma outcome_rows_other:
  "\<not> delegation_of ws i (verdict_row now source target j v)" "filter (delegation_of ws i) (verdict_inbox V source j v) = []"
  "filter (\<lambda>x. \<not> delegation_of ws i x) (verdict_inbox V source j v) = verdict_inbox V source j v"
  by (cases v; simp) (simp_all add: verdict_inbox_method)

text \<open>C10: A run of a delegation leaves log and ledger in step and reports what happened. For a delegation with one
  row in the log and one queued row in the ledger, when the statements succeed and nobody else writes: both tables
  keep one row of it and every other row; one result row with the status of the log row and at most one row for
  the inbox of the caller are added. The status is completed, failed or queued. Completed means that a proxy call
  came with a body and a status of the 200 range; the ledger then is completed too and holds the preview of the
  very text of the result row. Failed means that the first call did not; the ledger, the log and the
  result row then hold the same error. Queued leaves the ledger dispatched.\<close>

theorem delegation_run_consistent:
  assumes "dv_flt V = no_faults" "del_env_ok V" "i \<noteq> []" "filter (delegation_of source i) (dl_rows st) = [r0]"
    "filter (\<lambda>d. d_delegation_id d = i) (dl_ledger st) = [d0]" "d_status d0 = ''queued''"
    "proxy_ok first" "pred_option proxy_ok again"
  shows "\<exists>r d res inbox. let st' = executeDelegation V (\<lambda>_ s. s) first again source target i st in
    filter (delegation_of source i) (dl_rows st') = [r] \<and>
    filter (\<lambda>x. \<not> delegation_of source i x) (dl_rows st') = filter (\<lambda>x. \<not> delegation_of source i x) (dl_rows st) @ res # inbox \<and>
    filter (\<lambda>d. d_delegation_id d = i) (dl_ledger st') = [d] \<and>
    filter (\<lambda>d. d_delegation_id d \<noteq> i) (dl_ledger st') = filter (\<lambda>d. d_delegation_id d \<noteq> i) (dl_ledger st) \<and>
    length inbox \<le> 1 \<and> da_method res = ''delegate_result'' \<and> da_status res = da_status r \<and>
    (da_status r = ''completed'' \<and> (answered first \<or> pred_option answered again \<and> again \<noteq> None) \<and> d_status d = ''completed'' \<and>
       (\<exists>t. da_response_body res = Some (delegation_response i t) \<and>
            d_result_preview d = nullif_empty (TruncateBytesNoMarker t previewCap)) \<or>
     da_status r = ''failed'' \<and> \<not> answered first \<and> d_status d = ''failed'' \<and>
       da_error_detail r \<noteq> None \<and> d_error_detail d = da_error_detail r \<and> da_error_detail res = da_error_detail r \<or>
     da_status r = ''queued'' \<and> d_status d = ''dispatched'')"
proof -
  define v where "v = delegation_verdict (dv_parse V) first again"
  define r where "r = set_del_status (verdict_status v) (verdict_error v) r0"
  define d where "d = verdict_move (dv_now V) v (move_row (dv_now V) ''dispatched'' [] [] d0)"
  define st' where "st' = executeDelegation V (\<lambda>_ s. s) first again source target i st"
  have ids: "d_delegation_id (verdict_move (dv_now V) v x) = d_delegation_id x" for x by (cases v) simp_all
  have first: "select_first (\<lambda>d. d_delegation_id d = i) (dl_ledger st) = Some d0"
    by (rule filter_single_first [OF assms(5)])
  have rows: "dl_rows st' = update_where (delegation_of source i) (set_del_status (verdict_status v) (verdict_error v)) (dl_rows st)
        @ [verdict_row (dv_now V) source target i v] @ verdict_inbox V source i v"
    unfolding st'_def v_def by (rule executeDelegation_rows [OF assms(1) refl])
  have led: "dl_ledger st' = update_where (\<lambda>r. d_delegation_id r = i)
      (\<lambda>r. verdict_move (dv_now V) v (move_row (dv_now V) ''dispatched'' [] [] r)) (dl_ledger st)"
    unfolding st'_def v_def by (rule executeDelegation_ledger [OF assms(2,3) first assms(6)])
  note log = filter_single [OF assms(4), of "set_del_status (verdict_status v) (verdict_error v)"]
  note ledger = filter_single [OF assms(5), of "\<lambda>r. verdict_move (dv_now V) v (move_row (dv_now V) ''dispatched'' [] [] r)"]
  have outcome: "da_status r = ''completed'' \<and> (answered first \<or> pred_option answered again \<and> again \<noteq> None) \<and> d_status d = ''completed'' \<and>
       (\<exists>t. da_response_body (verdict_row (dv_now V) source target i v) = Some (delegation_response i t) \<and>
            d_result_preview d = nullif_empty (TruncateBytesNoMarker t previewCap)) \<or>
     da_status r = ''failed'' \<and> \<not> answered first \<and> d_status d = ''failed'' \<and> da_error_detail r \<noteq> None \<and>
       d_error_detail d = da_error_detail r \<and> da_error_detail (verdict_row (dv_now V) source target i v) = da_error_detail r \<or>
     da_status r = ''queued'' \<and> d_status d = ''dispatched''"
  proof (cases v)
    case (VFailed m)
    then show ?thesis
      using verdict_failed verdict_error_nonempty
      by (simp add: r_def d_def v_def set_del_status_def result_row_def move_row_def nullif_empty_def)
  next
    case (VCompleted t)
    have called: "answered first \<or> pred_option answered again \<and> again \<noteq> None"
      by (rule verdict_completed [OF VCompleted [unfolded v_def] assms(7,8)])
    show ?thesis
      by (rule disjI1) (use called in \<open>auto simp: VCompleted r_def d_def set_del_status_def result_row_def move_row_def intro!: exI [of _ t]\<close>)
  qed (simp add: r_def d_def set_del_status_def)
  have status: "da_method (verdict_row (dv_now V) source target i v) = ''delegate_result''"
    "da_status (verdict_row (dv_now V) source target i v) = da_status r"
    by (cases v; simp add: result_row_def r_def set_del_status_def)+
  show ?thesis
    unfolding st'_def [symmetric] Let_def
    by (rule exI [of _ r], rule exI [of _ d], rule exI [of _ "verdict_row (dv_now V) source target i v"],
        rule exI [of _ "verdict_inbox V source i v"])
      (use outcome status verdict_inbox_bound [of V source i v] in \<open>simp add: rows led log ledger ids outcome_rows_other r_def d_def\<close>)
qed

text \<open>A delegation that its target queues is queued in the log and stays dispatched in the ledger, which allows
  no way back from dispatched to queued.\<close>

theorem queued_delegation_diverges:
  assumes "del_env_ok V" "dv_flt V = no_faults" "i \<noteq> []" "select_first (\<lambda>r. d_delegation_id r = i) (dl_ledger st) = Some d"
    "d_status d = ''queued''" "delegation_verdict (dv_parse V) first again = VQueued"
    "r \<in> set (dl_rows st)" "delegation_of source i r"
  shows "let st' = executeDelegation V (\<lambda>_ s. s) first again source target i st in
    set_del_status ''queued'' [] r \<in> set (dl_rows st') \<and>
    map_option d_status (select_first (\<lambda>r. d_delegation_id r = i) (dl_ledger st')) = Some ''dispatched''"
proof -
  have moved: "recordLedgerStatus (dv_getenv V) (dv_ledger_flt V) (dv_now V) (dl_ledger st) i ''dispatched'' [] [] =
      update_where (\<lambda>r. d_delegation_id r = i) (move_row (dv_now V) ''dispatched'' [] []) (dl_ledger st)" (is "_ = ?t")
    by (rule ledger_move [OF assms(1,3) _ assms(4)]) (simp_all add: assms(5) transition_ok_def allowedTransitions_def)
  have first: "select_first (\<lambda>r. d_delegation_id r = i) ?t = Some (move_row (dv_now V) ''dispatched'' [] [] d)"
    by (subst select_first_update) (simp_all add: assms(4))
  then have stays: "recordLedgerStatus (dv_getenv V) (dv_ledger_flt V) (dv_now V) ?t i ''queued'' [] [] = ?t"
    by (rule ledger_stays) (simp add: transition_ok_def allowedTransitions_def)
  have "set_del_status ''queued'' [] r \<in> set (update_where (delegation_of source i) (set_del_status ''queued'' []) (dl_rows st))"
    using assms(7,8) by (auto simp: update_where_def image_iff intro!: bexI [of _ r])
  then show ?thesis
    using moved stays first assms(2)
    by (simp add: executeDelegation_quiet assms(6) queue_delegation_def updateDelegationStatus_ledger mirrored_statuses_def
        no_faults_def status_twice)
qed

text \<open>A delegation retried under the key of a failed one is started and logged but not entered in the ledger,
  which still holds the key, and the list of the workspace, read from the ledger, does not have it.\<close>

theorem retried_delegation_hidden:
  assumes "dv_flt V = no_faults" "slots_ok (dl_rows st)" "r \<in> set (dl_rows st)" "slot_of r = Some (source, dr_IdempotencyKey b)"
    "da_status r = ''failed''" "dr_IdempotencyKey b \<noteq> []" "newid \<noteq> []"
    "x \<in> set (dl_ledger st)" "d_caller_id x = source" "d_idempotency_key x = Some (dr_IdempotencyKey b)"
    "newid \<notin> d_delegation_id ` set (dl_ledger st)"
    "dr_TargetID b \<noteq> []" "dr_Task b \<noteq> []" "dv_is_uuid V (dr_TargetID b)" "source \<noteq> dr_TargetID b"
  shows "\<exists>st' es. Delegate V (\<lambda>s. s) newid source (Some b) st =
      (Delegated newid (dr_TargetID b) False, st', Some (buildDelegateA2ABody newid (dr_Task b))) \<and>
    dl_ledger st' = dl_ledger st \<and> ListDelegations print no_faults source st' = FromLedger es \<and>
    newid \<notin> le_delegation_id ` set es"
proof -
  let ?rows = "filter (\<lambda>x. \<not> (same_idempotency source (dr_IdempotencyKey b) x \<and> da_status x = ''failed'')) (dl_rows st)"
  have look: "lookupIdempotentDelegation (dv_flt V) source (dr_IdempotencyKey b) (dl_rows st) = (None, ?rows)"
    by (rule slot_row_fields [OF assms(2-4)]) (simp add: lookupIdempotentDelegation_def slot_holder [OF assms(2-4)] assms no_faults_def)
  have free: "\<not> list_ex (same_idempotency source (dr_IdempotencyKey b)) ?rows"
  proof
    assume "list_ex (same_idempotency source (dr_IdempotencyKey b)) ?rows"
    then obtain y where y: "y \<in> set (dl_rows st)" "slot_of y = Some (source, dr_IdempotencyKey b)" "da_status y \<noteq> ''failed''"
      by (auto simp: list_ex_iff same_idempotency_slot)
    with slot_holder [OF assms(2) y(1,2)] slot_holder [OF assms(2-4)] assms(5) show False by simp
  qed
  have held: "recordLedgerInsert (dv_getenv V) (dv_ledger_flt V) (dv_now V) (dl_ledger st) source (dr_TargetID b) newid (dr_Task b) (dr_IdempotencyKey b) = dl_ledger st"
    using assms by (auto simp: recordLedgerInsert_def Insert_def insert_delegation_def Let_def nullif_empty_def list_ex_iff)
  define es where "es = listDelegationsFromLedger False source (dl_ledger st)"
  have "x \<in> set (sort_key (\<lambda>r. - d_created_at r) (filter (\<lambda>r. d_caller_id r = source) (dl_ledger st)))" using assms(8,9) by simp
  then have "sort_key (\<lambda>r. - d_created_at r) (filter (\<lambda>r. d_caller_id r = source) (dl_ledger st)) \<noteq> []" by (metis list.distinct(1) list.set_cases)
  then have "es \<noteq> []" by (simp add: es_def listDelegationsFromLedger_def)
  moreover have "newid \<notin> le_delegation_id ` set es"
    using assms(11) by (auto simp: es_def listDelegationsFromLedger_def ledger_entry_of_def dest!: in_set_takeD)
  ultimately show ?thesis
    using look free held assms(1,6,12-15)
    by (auto simp: Delegate_def insertDelegationRow_def Let_def no_faults_def ListDelegations_def es_def)
qed

text \<open>Only the first result can be a confirmed delivery: the same result of the second call fails the delegation.\<close>

lemma second_delivery_fails:
  assumes "pr_body first = []" "pr_err first = Some e" "isTransientProxyError e" "isDeliveryConfirmedSuccess r2" "pr_err r2 = Some e2"
  shows "delegation_verdict parse first (Some r2) = VFailed (proxy_error_text e2)"
  using assms by (simp add: delegation_verdict_def isDeliveryConfirmedSuccess_def)

section \<open>Concrete runs\<close>

definition sample_del_env :: del_env where
  "sample_del_env = \<lparr>dv_getenv = (\<lambda>_. ''1''), dv_now = 5, dv_flt = no_faults, dv_ledger_flt = no_faults, dv_parse = (\<lambda>_. None),
     dv_is_uuid = (\<lambda>_. True)\<rparr>"

definition sample_delegate :: delegateRequest where
  "sample_delegate = \<lparr>dr_TargetID = ''t'', dr_Task = ''sum'', dr_IdempotencyKey = ''k''\<rparr>"

definition sample_start :: del_state where
  "sample_start = \<lparr>dl_rows = [], dl_ledger = [], dl_events = []\<rparr>"

definition sample_started :: del_state where
  "sample_started = fst (snd (Delegate sample_del_env (\<lambda>s. s) ''d1'' ''w'' (Some sample_delegate) sample_start))"

definition sample_answer :: proxy_result where
  "sample_answer = \<lparr>pr_status = 200, pr_body = ''42'', pr_err = None\<rparr>"

definition sample_del_row :: "string \<Rightarrow> del_row" where
  "sample_del_row status = delegate_row 5 ''w'' ''t'' ''d1'' ''sum'' status (Some ''k'')"

lemma sample_started_rows: "dl_rows sample_started = [sample_del_row ''pending'']"
  by (simp add: sample_started_def sample_start_def sample_delegate_def sample_del_env_def sample_del_row_def Delegate_def
      lookupIdempotentDelegation_def insertDelegationRow_def Let_def nullif_empty_def)

lemma sample_verdict: "delegation_verdict (dv_parse sample_del_env) sample_answer None = VCompleted ''42''"
  by (simp add: delegation_verdict_def sample_answer_def isDeliveryConfirmedSuccess_def extractResponseText_def sample_del_env_def Let_def)

lemma sample_started_ledger:
  "filter (\<lambda>d. d_delegation_id d = ''d1'') (dl_ledger sample_started) =
    [\<lparr>d_delegation_id = ''d1'', d_caller_id = ''w'', d_callee_id = ''t'', d_task_preview = TruncateBytesNoMarker ''sum'' previewCap,
      d_status = ''queued'', d_last_heartbeat = None, d_deadline = 5 + 6 * hour, d_result_preview = None, d_error_detail = None,
      d_created_at = 5, d_updated_at = 5, d_idempotency_key = Some ''k''\<rparr>]"
  by (simp add: sample_started_def sample_start_def sample_delegate_def sample_del_env_def Delegate_def
      lookupIdempotentDelegation_def insertDelegationRow_def Let_def nullif_empty_def recordLedgerInsert_def ledgerWritesEnabled_def
      Insert_def insert_delegation_def)

theorem delegation_run_consistent_witness:
  "\<exists>r d. filter (delegation_of ''w'' ''d1'')
      (dl_rows (executeDelegation sample_del_env (\<lambda>_ s. s) sample_answer None ''w'' ''t'' ''d1'' sample_started)) = [r] \<and>
    filter (\<lambda>d. d_delegation_id d = ''d1'')
      (dl_ledger (executeDelegation sample_del_env (\<lambda>_ s. s) sample_answer None ''w'' ''t'' ''d1'' sample_started)) = [d] \<and>
    da_status r = ''completed'' \<and> d_status d = ''completed''"
proof -
  let ?st = "executeDelegation sample_del_env (\<lambda>_ s. s) sample_answer None ''w'' ''t'' ''d1'' sample_started"
  have env: "dv_flt sample_del_env = no_faults" "del_env_ok sample_del_env"
    by (simp_all add: sample_del_env_def del_env_ok_def ledgerWritesEnabled_def)
  have row: "filter (delegation_of ''w'' ''d1'') (dl_rows sample_started) = [sample_del_row ''pending'']"
    by (simp add: sample_started_rows sample_del_row_def delegate_row_def delegation_of_def delegation_id_of_def json_text_def)
  have "filter (delegation_of ''w'' ''d1'') (dl_rows ?st) = [set_del_status ''completed'' [] (sample_del_row ''pending'')]"
    unfolding executeDelegation_rows [OF env(1) sample_verdict] using filter_single(1) [OF row]
    by (simp add: outcome_rows_other(2) [where v = "VCompleted t" for t, simplified])
  then have status: "da_status r = ''completed''" if "filter (delegation_of ''w'' ''d1'') (dl_rows ?st) = [r]" for r
    using that by (simp add: set_del_status_def)
  have "proxy_ok sample_answer" by (simp add: proxy_ok_def sample_answer_def)
  moreover have "d_status \<lparr>d_delegation_id = ''d1'', d_caller_id = ''w'', d_callee_id = ''t'', d_task_preview = TruncateBytesNoMarker ''sum'' previewCap,
      d_status = ''queued'', d_last_heartbeat = None, d_deadline = 5 + 6 * hour, d_result_preview = None, d_error_detail = None,
      d_created_at = 5, d_updated_at = 5, d_idempotency_key = Some ''k''\<rparr> = ''queued''" by simp
  moreover have "''d1'' \<noteq> []" "pred_option proxy_ok None" by simp_all
  ultimately obtain r d where "filter (delegation_of ''w'' ''d1'') (dl_rows ?st) = [r]" "filter (\<lambda>d. d_delegation_id d = ''d1'') (dl_ledger ?st) = [d]"
    "da_status r = ''completed'' \<and> d_status d = ''completed'' \<or> da_status r = ''failed'' \<or> da_status r = ''queued''"
    using delegation_run_consistent [OF env _ row sample_started_ledger, of sample_answer None "''t''"] unfolding Let_def by blast
  with status show ?thesis by fastforce
qed

theorem delegate_once_witness:
  "Delegate sample_del_env (\<lambda>s. s) ''d2'' ''w'' (Some sample_delegate) sample_started = (IdempotentHit ''d1'' ''pending'' ''t'', sample_started, None)"
proof -
  have reach: "del_reach sample_start sample_started"
    unfolding sample_started_def by (rule del_reach.delegate) (simp_all add: del_reach.start)
  have start: "slots_ok (dl_rows sample_start)" by (simp add: sample_start_def slots_ok_def List.map_filter_def)
  show ?thesis
    using delegate_once [where V = sample_del_env and intf = "\<lambda>s. s" and newid = "''d2''" and source = "''w''" and b = sample_delegate
        and r = "sample_del_row ''pending''", OF reach start]
    by (simp add: sample_started_rows sample_del_row_def delegate_row_def slot_of_def sample_delegate_def delegation_id_of_def json_text_def sample_del_env_def)
qed

end
