(* ===== verification/Spec2Isabelle.thy ===== *)
theory Spec2Isabelle
  imports Memory_Namespace Org_Scope Delegation_Props Nudge_Props Tunnel_Props Display_Props Agent_URL Chat_Uploads
    Org_Token_Routes Restart_Props Budgets Monitor_Props Route_Props
    Schedule_Props Orphan_Sweeper Delegation_Routes
begin

text \<open>
  \<^bold>\<open>The workspace server of EnterOS core.\<close> The program under \<^verbatim>\<open>src/workspace-server\<close> is a Go service that keeps a
  tree of agent workspaces: it provisions them, takes their heartbeats, routes messages between
  them (A2A), and gives users and agents routes for requests, approvals, files, budgets and tokens.
  Its state is a PostgreSQL database; the handlers (\<^verbatim>\<open>internal/handlers\<close>), the monitors
  (\<^verbatim>\<open>internal/registry\<close>) and the sweepers read and write the same tables concurrently, and everything
  they promise has to hold under their interleavings. This development models those handlers, sweepers
  and guards from the source and proves what makes them correct.

  \<^bold>\<open>How the code is modelled.\<close> A table is the list of its rows, a row is a record with the columns
  the code uses, an UPDATE is \<open>update_where\<close>, a SELECT of one row is \<open>select_first\<close> (theory \<open>Prelude\<close>). A
  statement that reads and writes is one definition, so that a handler is a composition of statements
  and an interleaving of several callers is a sequence of statements. The clock is an argument (\<open>now\<close>,
  nanoseconds); statements that may fail take a function \<open>faults\<close> that says which of them do; what other
  callers write between two statements of one call is a function of type \<open>interference\<close> where it
  matters. Errors and HTTP replies are values of datatypes. Go strings are byte lists; Go's 64-bit
  integers are integers with \<open>wrap64\<close> where they can overflow, addresses are words. Parts that are not
  in the repository (SHA-256, HMAC, JSON and URL parsers, the resolver, UUID parsing, the cron
  library and the zone database, the control plane, Docker) are arguments of the definitions that call them. Event payloads and log lines are left
  out, error texts are shortened where they carry identifiers. ASCII lower-casing stands for
  \<^verbatim>\<open>strings.ToLower\<close>.

  \<^bold>\<open>Generic systems.\<close> \<open>Prelude\<close> states the arguments that several components share as locales:
  \<open>invariant_system\<close> (what every operation keeps holds after every sequence), \<open>forward_only_system\<close> (terminal
  statuses are final), \<open>timed_simulation\<close> (refinement along an advancing clock) and \<open>collected_store\<close> (a garbage
  collector keeps the young and removes the old). \<open>Request_Props\<close> adds \<open>enqueue_port\<close>, the interface through
  which the request store reaches the A2A queue, and \<open>Text_Util\<close> \<open>bounded_truncation\<close>. Each is interpreted on the
  model's own definitions: the A2A queue, the activity log, the approval gate, the delegation ledger,
  the display lease, the workspace lifecycle and its routes, the request store, the restart gate, the
  schedules, the tunnel pool and the upload store.

  \<^bold>\<open>Parts and theories.\<close>
  \<^item> \<open>Go_Std\<close>, \<open>Text_Util\<close>: the standard library used (\<^verbatim>\<open>strconv.Atoi\<close>, durations, trimming) and
    \<^verbatim>\<open>textutil/truncate.go\<close>.
  \<^item> \<open>Workspace_Tree\<close>, \<open>Org_Access\<close>, \<open>Org_Scope\<close>, \<open>Memory_Namespace\<close>: the tree, \<^verbatim>\<open>registry/access.go\<close>, \<^verbatim>\<open>org_scope.go\<close> and
    \<^verbatim>\<open>memory/namespace/resolver.go\<close>. The bounded walks decide the hierarchy rule, both organisation checks
    agree, and namespaces do not cross organisations.
  \<^item> \<open>A2A_Queue\<close>, \<open>A2A_Queue_Props\<close>: \<^verbatim>\<open>a2a_queue.go\<close>. Claims are exclusive, attempts bounded, terminal rows final;
    a drain that meets a busy target loses its message.
  \<^item> \<open>Request_Store\<close>, \<open>Requests_Handler\<close>, \<open>Request_Nudge\<close>, \<open>Request_Props\<close>, \<open>Nudge_Props\<close>: the inbox of tasks and approvals
    with its routes and reminders. Life cycle, isolation of the workspace routes, single answers,
    delivery through the queue, the rate of reminders.
  \<^item> \<open>Delegation_Ledger\<close>, \<open>Delegation_Props\<close>: the ledger of delegations and its sweeper, forward-only when calls do
    not overlap, with the race when they do.
  \<^item> \<open>Delegation_Routes\<close>: \<^verbatim>\<open>delegation.go\<close>, the routes and the run of a delegation over the activity log and the ledger.
    A run leaves log and ledger in step, an idempotency key starts one delegation under every interleaving of the
    routes and runs; where log and ledger part, and what the report of a foreign workspace does.
  \<^item> \<open>Tunnel_Pool\<close>, \<open>Tunnel_Props\<close>: \<^verbatim>\<open>eic_tunnel_pool.go\<close> with an explicit store of tunnels: exact reference counts,
    no tunnel closed in use, none leaked.
  \<^item> \<open>Workspace_Compute\<close>, \<open>Display_Control\<close>, \<open>Display_Props\<close>: compute configurations with their JSON form, the lease on the
    display and its signed session tokens; the routes refine an abstract lease.
  \<^item> \<open>Rate_Limiter\<close>, \<open>SSRF_Guard\<close>, \<open>Agent_URL\<close>: the request limiters and the guards of outbound and registered URLs,
    equivalent to plain address ranges.
  \<^item> \<open>Chat_Names\<close>, \<open>Pending_Uploads\<close>, \<open>Upload_Props\<close>, \<open>Activity_Log\<close>, \<open>Chat_Uploads\<close>: chat files from the multipart form to the staging
    table, its collector and the activity log.
  \<^item> \<open>Auth_Tokens\<close>, \<open>Auth_Middleware\<close>, \<open>Token_Props\<close>, \<open>Approvals\<close>, \<open>Approval_Props\<close>, \<open>Org_Token_Routes\<close>: workspace and organisation
    tokens, the middlewares, the approval gate in front of privileged operations and the mint route.
    Revoked tokens stay dead, approvals are used once, and live tokens exceed the ceiling by no more than the
    mints that overlap.
  \<^item> \<open>Budgets\<close>: \<^verbatim>\<open>budget.go\<close>, \<^verbatim>\<open>budget_periods.go\<close>, the check of the proxy and the spend part of the heartbeat. The check
    over the pruned ledger equals the check over the whole history.
  \<^item> \<open>Restart_Gate\<close>, \<open>Restart_Props\<close>: \<^verbatim>\<open>RestartByID\<close> and \<^verbatim>\<open>coalesceRestart\<close> as their critical sections, one goroutine step at a
    time: one cycle at a time, requests served, and the interleaving that strands one.
  \<^item> \<open>Workspace_Lifecycle\<close>, \<open>Workspace_Monitors\<close>, \<open>Lifecycle_Props\<close>, \<open>Monitor_Props\<close>: the status of a workspace: the heartbeat and
    \<^verbatim>\<open>evaluateStatus\<close> of \<^verbatim>\<open>registry.go\<close> and the monitors of \<^verbatim>\<open>internal/registry\<close>. The outcome of a heartbeat as a table,
    removal is final for the guarded statements and which statements break it, exact passes of the
    sweeps.
  \<^item> \<open>Workspace_Routes\<close>, \<open>Route_Props\<close>: hibernate, restart, pause, resume and delete (\<^verbatim>\<open>workspace_restart.go\<close>,
    \<^verbatim>\<open>workspace_dispatchers.go\<close>, \<^verbatim>\<open>workspace_crud.go\<close>). Paused subtrees stay paused, a deletion reaches the whole
    subtree, kills its tokens and makes exactly the backend calls for it.
  \<^item> \<open>Scheduler\<close>, \<open>Schedule_Routes\<close>, \<open>Scheduler_Props\<close>, \<open>Schedule_Props\<close>: the cron scheduler (\<^verbatim>\<open>scheduler/scheduler.go\<close>) over the table of
    schedules, its routes (\<^verbatim>\<open>schedules.go\<close>, \<^verbatim>\<open>admin_schedules_health.go\<close>) and the schedule part of the
    organisation import. Each tick moves its schedules on, panics included; next runs never become NULL;
    the counters refine an abstract machine; a busy workspace holds one buffered tick per schedule, through
    the real A2A queue; the orphan cleaner is complete and idempotent. Expressions without a next time
    starve all others, and the rows the scheduler logs hide phantom-busy workspaces from its own sweep.
  \<^item> \<open>Orphan_Sweeper\<close>: \<^verbatim>\<open>registry/orphan_sweeper.go\<close>, the passes over containers, rows and tokens. No live
    workspace is stopped while the rows of its query can be read, and the token pass is one exact update.

  \<^bold>\<open>Where the documents differ from the code.\<close> The theorems state what the code does. The published rules of
  communication forbid skipping levels and allow root-level siblings (\<open>Org_Access\<close>); \<^verbatim>\<open>org-api-keys.md\<close> mints with the admin
  token alone (\<open>Org_Token_Routes\<close>); \<^verbatim>\<open>api-reference.md\<close> lets \<^verbatim>\<open>AdminAuth\<close> fail open (\<open>Token_Props\<close>);
  \<^verbatim>\<open>external-agent-registration.md\<close> gives other thresholds for degraded workspaces (\<open>Lifecycle_Props\<close>). Each is noted at
  its theorem.

  \<^bold>\<open>Bounds and partial functions.\<close> Loops that the code bounds keep its bound (32 ancestors, 50 levels of
    the chain query, three attempts, batches of 50 schedules and 200 instances). Recursions that need not end are partial functions
    with the value \<^term>\<open>None\<close> for not returning: \<open>orgRootID\<close>, \<open>isParentPaused\<close> and the recursive query \<open>descendants\<close>;
    each is proved to return on tables without cycles of parents.

  \<^bold>\<open>Not modelled.\<close> The provisioner (\<^verbatim>\<open>internal/provisioner\<close>, \<^verbatim>\<open>workspace_provision.go\<close>), channels, the WebSocket hub, the reverse
  proxies and the push half of the A2A proxy are network and process input and output. \<^verbatim>\<open>Register\<close> beyond its
  upsert and guards, workspace creation and the update route, the rest of the organisation import,
  and secrets are not modelled; the update route would come first. Deadlines of contexts appear as statement faults. Tickers and
  goroutine start-up are sequences of passes. The canvas front end is not Go.
\<close>

end
